(* ===== verification/Prelude.thy ===== *)
theory Prelude
  imports Main
begin

text \<open>
  Generic notions every component of the development uses: results that may be an exception
  (\<open>'e + 'a\<close>, with \<open>Inl\<close> for the exception raised), the same in a function that also updates a
  state, a marker for arguments that pass or fail an \<^verbatim>\<open>isinstance\<close> test, and Python's
  insertion-ordered dictionaries as association lists.  The theorem collections declared here are
  filled by the component theories.
\<close>

named_theorems res_simps \<open>unfolding of results, guards and sequencing\<close>
named_theorems inv_intros \<open>operations preserve the invariant of their component\<close>

subsection \<open>Results\<close>

type_synonym ('e, 'a) res = "'e + 'a"

definition bind_res :: "('e, 'a) res \<Rightarrow> ('a \<Rightarrow> ('e, 'b) res) \<Rightarrow> ('e, 'b) res" where
  "bind_res r k = (case r of Inl e \<Rightarrow> Inl e | Inr x \<Rightarrow> k x)"

definition ensure :: "bool \<Rightarrow> 'e \<Rightarrow> ('e, 'a) res \<Rightarrow> ('e, 'a) res" where
  \<comment> \<open>\<^verbatim>\<open>if not b: raise e\<close>, and then go on with the rest of the body\<close>
  "ensure b e k = (if b then k else Inl e)"

primrec map_res :: "('a \<Rightarrow> ('e, 'b) res) \<Rightarrow> 'a list \<Rightarrow> ('e, 'b list) res" where
  \<comment> \<open>a comprehension whose element expression may raise: stops at the first exception\<close>
  "map_res f [] = Inr []"
| "map_res f (x # xs) = bind_res (f x) (\<lambda>y. bind_res (map_res f xs) (\<lambda>ys. Inr (y # ys)))"

definition returns :: "('e, 'a) res \<Rightarrow> bool" where
  "returns r \<longleftrightarrow> (case r of Inl _ \<Rightarrow> False | Inr _ \<Rightarrow> True)"

lemma bind_res_simps [simp, res_simps]:
  "bind_res (Inl e) k = Inl e"
  "bind_res (Inr x) k = k x"
  by (simp_all add: bind_res_def)

lemma bind_res_Inr_iff [res_simps]:
  "bind_res r k = Inr y \<longleftrightarrow> (\<exists>x. r = Inr x \<and> k x = Inr y)"
  by (cases r) simp_all

lemma bind_res_Inl_iff:
  "bind_res r k = Inl e \<longleftrightarrow> r = Inl e \<or> (\<exists>x. r = Inr x \<and> k x = Inl e)"
  by (cases r) simp_all

lemma bind_res_assoc: "bind_res (bind_res r f) g = bind_res r (\<lambda>x. bind_res (f x) g)"
  by (cases r) simp_all

lemma ensure_simps [simp, res_simps]:
  "ensure True e k = k"
  "ensure False e k = Inl e"
  by (simp_all add: ensure_def)

lemma ensure_Inr_iff [res_simps]: "ensure b e k = Inr y \<longleftrightarrow> b \<and> k = Inr y"
  by (simp add: ensure_def)

lemma ensure_Inl_iff: "ensure b e k = Inl d \<longleftrightarrow> (\<not> b \<and> d = e) \<or> (b \<and> k = Inl d)"
  by (auto simp: ensure_def)

lemma returns_simps [simp]: "\<not> returns (Inl e)" "returns (Inr x)"
  by (simp_all add: returns_def)

lemma returns_iff: "returns r \<longleftrightarrow> (\<exists>x. r = Inr x)"
  by (cases r) simp_all

lemma map_res_length: "map_res f xs = Inr ys \<Longrightarrow> length ys = length xs"
  by (induction xs arbitrary: ys) (auto simp: res_simps)

lemma map_res_nth:
  "map_res f xs = Inr ys \<Longrightarrow> i < length xs \<Longrightarrow> f (xs ! i) = Inr (ys ! i)"
proof (induction xs arbitrary: ys i)
  case Nil
  then show ?case by simp
next
  case (Cons x xs)
  then show ?case by (cases i) (auto simp: res_simps)
qed

lemma map_res_origin: "map_res f xs = Inr ys \<Longrightarrow> y \<in> set ys \<Longrightarrow> \<exists>x\<in>set xs. f x = Inr y"
  by (induction xs arbitrary: ys) (auto simp: res_simps)

lemma map_res_cong_Inr:
  "(\<And>x. x \<in> set xs \<Longrightarrow> f x = Inr (g x)) \<Longrightarrow> map_res f xs = Inr (map g xs)"
  by (induction xs) simp_all

lemma map_res_map: "map_res f (map g xs) = map_res (\<lambda>x. f (g x)) xs"
  by (induction xs) simp_all

subsection \<open>Operations on a state that may raise\<close>

text \<open>
  A method is a function from the object's state to its outcome and the state it leaves, also when
  it raises: Python keeps whatever the body had assigned before the exception.
\<close>

type_synonym ('e, 's, 'a) op = "'s \<Rightarrow> ('e, 'a) res \<times> 's"

definition bind_op :: "('e, 's, 'a) op \<Rightarrow> ('a \<Rightarrow> ('e, 's, 'b) op) \<Rightarrow> ('e, 's, 'b) op" where
  "bind_op m k s = (case m s of (Inl e, s') \<Rightarrow> (Inl e, s') | (Inr x, s') \<Rightarrow> k x s')"

definition lift_res :: "('e, 'a) res \<Rightarrow> ('e, 's, 'a) op" where
  "lift_res r s = (r, s)"

lemma bind_op_simps [res_simps]:
  "m s = (Inl e, s') \<Longrightarrow> bind_op m k s = (Inl e, s')"
  "m s = (Inr x, s') \<Longrightarrow> bind_op m k s = k x s'"
  by (simp_all add: bind_op_def)

subsection \<open>Arguments of a checked class\<close>

text \<open>
  Where the code tests \<^verbatim>\<open>isinstance(x, C)\<close> the argument is an \<open>'a inst\<close>: an instance of the
  class, or any other object.
\<close>

datatype 'a inst = Instance (the_instance: 'a) | Foreign

subsection \<open>Insertion-ordered dictionaries\<close>

fun dict_put :: "'k \<Rightarrow> 'v \<Rightarrow> ('k \<times> 'v) list \<Rightarrow> ('k \<times> 'v) list" where
  \<comment> \<open>\<^verbatim>\<open>d[k] = v\<close>: an existing key keeps its place, a new one goes last\<close>
  "dict_put k v [] = [(k, v)]"
| "dict_put k v ((k', v') # d) = (if k = k' then (k, v) # d else (k', v') # dict_put k v d)"

definition dict_del :: "'k \<Rightarrow> ('k \<times> 'v) list \<Rightarrow> ('k \<times> 'v) list" where
  \<comment> \<open>\<^verbatim>\<open>d.pop(k, None)\<close>\<close>
  "dict_del k d = filter (\<lambda>(k', v). k' \<noteq> k) d"

lemma map_of_dict_put [simp]: "map_of (dict_put k v d) = (map_of d)(k \<mapsto> v)"
  by (induction k v d rule: dict_put.induct) auto

lemma map_of_dict_del [simp]: "map_of (dict_del k d) = (map_of d)(k := None)"
  by (induction d) (auto simp: dict_del_def fun_eq_iff)

lemma keys_dict_put: "fst ` set (dict_put k v d) = insert k (fst ` set d)"
  by (induction k v d rule: dict_put.induct) auto

lemma distinct_dict_put: "distinct (map fst d) \<Longrightarrow> distinct (map fst (dict_put k v d))"
proof (induction k v d rule: dict_put.induct)
  case (2 k v k' v' d)
  then show ?case using keys_dict_put [of k v d] by auto
qed simp

lemma distinct_dict_del: "distinct (map fst d) \<Longrightarrow> distinct (map fst (dict_del k d))"
  by (induction d) (auto simp: dict_del_def)

lemma keys_dict_del: "fst ` set (dict_del k d) = fst ` set d - {k}"
  by (induction d) (auto simp: dict_del_def)

subsection \<open>Windows of a list\<close>

lemma dropWhile_id: "(\<And>x. x \<in> set xs \<Longrightarrow> \<not> P x) \<Longrightarrow> dropWhile P xs = xs"
  by (cases xs) auto

lemma dropWhile_eq_filter:
  assumes "sorted_wrt R xs" and "\<And>x y. x \<in> set xs \<Longrightarrow> y \<in> set xs \<Longrightarrow> R x y \<Longrightarrow> P y \<Longrightarrow> P x"
  shows "dropWhile P xs = filter (\<lambda>x. \<not> P x) xs"
  using assms
proof (induction xs)
  case (Cons x xs)
  show ?case
  proof (cases "P x")
    case True
    with Cons show ?thesis by auto
  next
    case False
    with Cons.prems have "\<forall>y\<in>set (x # xs). \<not> P y" by auto
    then show ?thesis by (simp add: filter_id_conv)
  qed
qed simp

lemma sorted_wrt_dropWhile: "sorted_wrt R xs \<Longrightarrow> sorted_wrt R (dropWhile P xs)"
  by (metis dropWhile_eq_drop sorted_wrt_drop)

lemma dropWhile_snoc_last:
  "\<not> P x \<Longrightarrow> dropWhile P (xs @ [x]) \<noteq> [] \<and> last (dropWhile P (xs @ [x])) = x"
  by (induction xs) auto

subsection \<open>Consecutive numbering\<close>

primrec counts_up :: "int \<Rightarrow> int list \<Rightarrow> bool" where
  "counts_up a [] = True"
| "counts_up a (x # xs) = (x = a \<and> counts_up (a + 1) xs)"

lemma counts_up_iff: "counts_up a xs \<longleftrightarrow> xs = map (\<lambda>k. a + int k) [0..<length xs]"
proof (induction xs arbitrary: a)
  case (Cons x xs)
  have "map (\<lambda>k. a + int k) [0..<length (x # xs)] = a # map (\<lambda>k. (a + 1) + int k) [0..<length xs]"
    by (simp add: upt_rec [of 0] map_Suc_upt [symmetric] algebra_simps del: upt_Suc)
  then show ?case using Cons.IH [of "a + 1"] by auto
qed simp

end
