(* ===== verification/PyFloat.thy ===== *)
theory PyFloat
  imports Prelude Complex_Main "HOL-Library.Log_Nat"
begin

text \<open>
  Python's \<^verbatim>\<open>float\<close> as IEEE binary64: a finite double is the rational it denotes, and every
  arithmetic operation rounds its exact result to the nearest double, ties to even, with overflow
  to an infinity.  The two zeros are one value here: the modelled code only compares, adds and
  scales, and never divides by a zero it has not excluded.  Everything evaluates.
\<close>

subsection \<open>Rounding a rational to a binary format\<close>

definition floor_log2 :: "rat \<Rightarrow> int" where
  \<comment> \<open>the exponent of the binade of a positive rational\<close>
  "floor_log2 q =
     (let (n, d) = quotient_of q; k = bitlen n - bitlen d
      in if 2 powi k \<le> q then k else k - 1)"

definition round_half_even :: "rat \<Rightarrow> int" where
  "round_half_even q =
     (let f = floor q; r = q - of_int f
      in if r < 1/2 then f else if r > 1/2 then f + 1 else if even f then f else f + 1)"

definition ulp_exp :: "nat \<Rightarrow> int \<Rightarrow> rat \<Rightarrow> int" where
  \<comment> \<open>the exponent of the last place of a number with \<open>p\<close> significant bits\<close>
  "ulp_exp p emin q = max (floor_log2 \<bar>q\<bar>) emin - int p + 1"

definition round_to :: "nat \<Rightarrow> int \<Rightarrow> rat \<Rightarrow> rat" where
  "round_to p emin q =
     (if q = 0 then 0
      else let u = 2 powi (ulp_exp p emin q) in of_int (round_half_even (q / u)) * u)"

lemma quotient_of_bitlen_bounds:
  assumes "quotient_of q = (n, d)" "0 < q"
  shows "2 powi (bitlen n - bitlen d - 1) < q" "q < 2 powi (bitlen n - bitlen d + 1)"
proof -
  have d: "0 < d" using assms(1) by (rule quotient_of_denom_pos)
  have q: "q = of_int n / of_int d" using assms(1) by (rule quotient_of_div)
  with assms(2) d have n: "0 < n" by (simp add: zero_less_divide_iff)
  have bl: "2 powi (bitlen m - 1) \<le> (of_int m :: rat) \<and> (of_int m :: rat) < 2 powi bitlen m"
    if "0 < m" for m :: int
  proof -
    have b: "0 < bitlen m" using that bitlen_eq_zero_iff [of m] bitlen_nonneg [of m] by linarith
    have "2 ^ nat (bitlen m - 1) \<le> m \<and> m < 2 ^ nat (bitlen m)"
      using bitlen_bounds [of m] that by simp
    then have "(2::rat) ^ nat (bitlen m - 1) \<le> of_int m \<and> of_int m < (2::rat) ^ nat (bitlen m)"
      by (metis of_int_le_iff of_int_less_iff of_int_numeral of_int_power)
    with b show ?thesis by (simp add: power_int_def)
  qed
  note bn = bl [OF n] and bd = bl [OF d]
  have "2 powi (bitlen n - bitlen d - 1) = (2::rat) powi (bitlen n - 1) / 2 powi bitlen d"
    by (simp flip: power_int_diff) (simp add: algebra_simps)
  also have "\<dots> < of_int n / of_int d"
    using bn bd d n by (intro frac_less2) auto
  finally show "2 powi (bitlen n - bitlen d - 1) < q" using q by simp
  have "of_int n / of_int d < (2::rat) powi bitlen n / 2 powi (bitlen d - 1)"
    using bn bd d n by (intro frac_less) auto
  also have "\<dots> = 2 powi (bitlen n - bitlen d + 1)"
    by (simp flip: power_int_diff) (simp add: algebra_simps)
  finally show "q < 2 powi (bitlen n - bitlen d + 1)" using q by simp
qed

lemma floor_log2_bounds:
  assumes "0 < q"
  shows "2 powi (floor_log2 q) \<le> q" "q < 2 powi (floor_log2 q + 1)"
proof -
  obtain n d where nd: "quotient_of q = (n, d)" by fastforce
  note b = quotient_of_bitlen_bounds [OF nd assms]
  show "2 powi (floor_log2 q) \<le> q"
    using b nd by (auto simp: floor_log2_def Let_def)
  show "q < 2 powi (floor_log2 q + 1)"
    using b nd by (auto simp: floor_log2_def Let_def)
qed

lemma powi2_less_imp: "(2::rat) powi a < 2 powi b \<Longrightarrow> a < b"
  by (metis linorder_not_less one_le_numeral power_int_increasing)

lemma powi2_le_iff: "(2::rat) powi a \<le> 2 powi b \<longleftrightarrow> a \<le> b"
  using power_int_strict_increasing [of b a "2::rat"] power_int_increasing [of a b "2::rat"]
  by (cases "a \<le> b") auto

lemma floor_log2_eqI: "2 powi e \<le> q \<Longrightarrow> q < 2 powi (e + 1) \<Longrightarrow> floor_log2 q = e"
proof -
  assume e: "2 powi e \<le> q" "q < 2 powi (e + 1)"
  have "0 < q" using e(1) by (meson less_le_trans zero_less_numeral zero_less_power_int)
  note b = floor_log2_bounds [OF this]
  have "floor_log2 q < e + 1" "e < floor_log2 q + 1"
    using e b by (meson le_less_trans powi2_less_imp)+
  then show ?thesis by simp
qed

lemma floor_log2_mono: "0 < q \<Longrightarrow> q \<le> r \<Longrightarrow> floor_log2 q \<le> floor_log2 r"
  using floor_log2_bounds [of q] floor_log2_bounds [of r] powi2_less_imp [of "floor_log2 q" "floor_log2 r + 1"]
  by linarith

subsection \<open>Ties to even\<close>

lemma round_half_even_cases:
  "of_int (round_half_even q) - q \<le> 1/2" "q - of_int (round_half_even q) \<le> 1/2"
  by (auto simp: round_half_even_def Let_def) linarith+

lemma round_half_even_error: "\<bar>of_int (round_half_even q) - q\<bar> \<le> 1/2"
  using round_half_even_cases [of q] by (intro abs_leI) auto

lemma round_half_even_of_int [simp]: "round_half_even (of_int n) = n"
  by (simp add: round_half_even_def)

lemma round_half_even_mono: "q \<le> r \<Longrightarrow> round_half_even q \<le> round_half_even r"
proof -
  assume qr: "q \<le> r"
  then have f: "floor q \<le> floor r" by (rule floor_mono)
  show ?thesis
  proof (cases "floor q = floor r")
    case True
    with qr show ?thesis by (auto simp: round_half_even_def Let_def)
  next
    case False
    with f have "floor q + 1 \<le> floor r" by simp
    then show ?thesis by (auto simp: round_half_even_def Let_def)
  qed
qed

lemma round_half_even_le_int: "q \<le> of_int n \<Longrightarrow> round_half_even q \<le> n"
  using round_half_even_mono [of q "of_int n"] by simp

lemma round_half_even_ge_int: "of_int n \<le> q \<Longrightarrow> n \<le> round_half_even q"
  using round_half_even_mono [of "of_int n" q] by simp

lemma round_half_even_minus: "round_half_even (- q) = - round_half_even q"
proof (cases "q = of_int (floor q)")
  case True
  then show ?thesis by (metis of_int_minus round_half_even_of_int)
next
  case False
  have lt: "of_int (floor q) < q" using False by (metis floor_correct order_le_imp_less_or_eq)
  have fl: "floor (- q) = - floor q - 1"
    using lt by (intro floor_eq_iff [THEN iffD2] conjI) (auto, linarith)
  show ?thesis unfolding round_half_even_def Let_def fl by auto
qed

subsection \<open>Rounding is monotone, odd and fixes the grid\<close>

lemma ulp_pos [simp]: "(0::rat) < 2 powi e"
  by simp

lemma round_to_0 [simp]: "round_to p emin 0 = 0"
  by (simp add: round_to_def)

lemma round_to_eq:
  "round_to p emin q = of_int (round_half_even (q / 2 powi (ulp_exp p emin q))) * 2 powi (ulp_exp p emin q)"
  by (simp add: round_to_def Let_def round_half_even_of_int [of 0, simplified])

lemma round_to_minus: "round_to p emin (- q) = - round_to p emin q"
  by (simp add: round_to_eq ulp_exp_def round_half_even_minus)

lemma round_to_le_grid:
  "q \<le> of_int n * 2 powi (ulp_exp p emin q) \<Longrightarrow> round_to p emin q \<le> of_int n * 2 powi (ulp_exp p emin q)"
  unfolding round_to_eq by (rule mult_right_mono) (auto intro!: round_half_even_le_int simp: divide_le_eq)

lemma round_to_ge_grid:
  "of_int n * 2 powi (ulp_exp p emin q) \<le> q \<Longrightarrow> of_int n * 2 powi (ulp_exp p emin q) \<le> round_to p emin q"
  unfolding round_to_eq by (rule mult_right_mono) (auto intro!: round_half_even_ge_int simp: le_divide_eq)

lemma powi2_grid: "e \<le> k \<Longrightarrow> (2::rat) powi k = of_int (2 ^ nat (k - e)) * 2 powi e"
proof -
  assume ek: "e \<le> k"
  have "(2::rat) powi k = 2 powi (k - e) * 2 powi e" by (simp flip: power_int_add)
  with ek show ?thesis by (simp add: power_int_def)
qed

lemma round_to_nonneg: "0 \<le> q \<Longrightarrow> 0 \<le> round_to p emin q"
  using round_to_ge_grid [of 0 p emin q] by simp

lemma round_to_nonpos: "q \<le> 0 \<Longrightarrow> round_to p emin q \<le> 0"
  using round_to_le_grid [of q 0 p emin] by simp

lemma round_to_mono_pos:
  assumes q: "0 < q" and qr: "q \<le> r" and p: "0 < p"
  shows "round_to p emin q \<le> round_to p emin r"
proof -
  let ?eq = "ulp_exp p emin q" and ?er = "ulp_exp p emin r" and ?L = "floor_log2 r"
  have r: "0 < r" using q qr by simp
  have "floor_log2 q \<le> ?L" using q qr by (rule floor_log2_mono)
  then have le: "?eq \<le> ?er" using q r by (simp add: ulp_exp_def)
  show ?thesis
  proof (cases "?eq = ?er")
    case True
    have "round_half_even (q / 2 powi ?er) \<le> round_half_even (r / 2 powi ?er)"
      using qr by (intro round_half_even_mono divide_right_mono) auto
    then show ?thesis unfolding round_to_eq [of _ _ q] round_to_eq [of _ _ r] True
      by (intro mult_right_mono) auto
  next
    case False
    with le q r have L: "floor_log2 q < ?L" "emin < ?L" "?er = ?L - int p + 1"
      by (auto simp: ulp_exp_def max_def split: if_splits)
    have "q \<le> 2 powi ?L"
      using floor_log2_bounds(2) [OF q] L(1) powi2_le_iff [of "floor_log2 q + 1" ?L] by linarith
    moreover have "?eq \<le> ?L" using L p q by (simp add: ulp_exp_def)
    ultimately have 1: "round_to p emin q \<le> 2 powi ?L"
      using round_to_le_grid [of q "2 ^ nat (?L - ?eq)" p emin] powi2_grid [of ?eq ?L] by simp
    have "?er \<le> ?L" using L p by simp
    then have "2 powi ?L \<le> round_to p emin r"
      using round_to_ge_grid [of "2 ^ nat (?L - ?er)" p emin r] powi2_grid [of ?er ?L]
        floor_log2_bounds(1) [OF r] by simp
    with 1 show ?thesis by simp
  qed
qed

lemma round_to_mono:
  assumes qr: "q \<le> r" and p: "0 < p"
  shows "round_to p emin q \<le> round_to p emin r"
proof -
  consider "0 < q" | "r < 0" | "q \<le> 0" "0 \<le> r" by linarith
  then show ?thesis
  proof cases
    case 1
    then show ?thesis using qr p by (rule round_to_mono_pos)
  next
    case 2
    then have "round_to p emin (- r) \<le> round_to p emin (- q)"
      using qr p by (intro round_to_mono_pos) auto
    then show ?thesis by (simp add: round_to_minus)
  next
    case 3
    then show ?thesis using round_to_nonneg [of r p emin] round_to_nonpos [of q p emin] by simp
  qed
qed

definition on_grid :: "nat \<Rightarrow> int \<Rightarrow> rat \<Rightarrow> bool" where
  \<comment> \<open>a number the format represents (its exponent range apart)\<close>
  "on_grid p emin q \<longleftrightarrow> (q / 2 powi (ulp_exp p emin q)) \<in> \<int>"

lemma round_to_on_grid: "on_grid p emin q \<Longrightarrow> round_to p emin q = q"
  by (auto simp: on_grid_def round_to_eq elim!: Ints_cases) (simp add: field_simps)

lemma on_gridI:
  assumes q: "q = of_int m * 2 powi e" and m: "\<bar>m\<bar> \<le> 2 ^ p" and e: "emin - int p + 1 \<le> e"
    and p: "0 < p"
  shows "on_grid p emin q"
proof (cases "m = 0")
  case True
  with q show ?thesis by (simp add: on_grid_def)
next
  case False
  let ?u = "ulp_exp p emin q" and ?E = "floor_log2 \<bar>q\<bar>"
  have abs: "\<bar>q\<bar> = of_int \<bar>m\<bar> * 2 powi e" using q by (simp add: abs_mult)
  have pos: "0 < \<bar>q\<bar>" using abs False by simp
  have "(of_int \<bar>m\<bar> :: rat) \<le> of_int (2 ^ p)" using m by (subst of_int_le_iff)
  then have "\<bar>q\<bar> \<le> 2 ^ p * 2 powi e" unfolding abs by (intro mult_right_mono) auto
  also have "\<dots> = 2 powi (int p + e)" by (simp add: power_int_add)
  finally have le: "\<bar>q\<bar> \<le> 2 powi (int p + e)" .
  have E: "?E \<le> int p + e"
    using floor_log2_bounds(1) [OF pos] le powi2_le_iff [of ?E "int p + e"] by linarith
  show ?thesis
  proof (cases "?u \<le> e")
    case True
    define n where "n = nat (e - ?u)"
    have "q = of_int m * (of_int (2 ^ n) * 2 powi ?u)"
      unfolding n_def powi2_grid [OF True, symmetric] by (rule q)
    then have "q / 2 powi ?u = of_int (m * 2 ^ n)"
      by (simp add: nonzero_divide_eq_eq)
    then show ?thesis unfolding on_grid_def by (metis Ints_of_int)
  next
    case False
    with E e have eq: "?E = int p + e" "?u = e + 1"
      by (auto simp: ulp_exp_def max_def split: if_splits)
    have aq: "\<bar>q\<bar> = 2 powi (int p + e)"
      using floor_log2_bounds(1) [OF pos] le eq(1) by simp
    have "\<bar>q\<bar> / 2 powi ?u = 2 powi (int p - 1)"
      unfolding aq eq(2) by (simp flip: power_int_diff)
    also have "\<dots> \<in> \<int>" using p by (simp add: power_int_def)
    finally have "\<bar>q / 2 powi ?u\<bar> \<in> \<int>" by simp
    then show ?thesis unfolding on_grid_def
      by (metis Ints_minus abs_if minus_minus)
  qed
qed

lemma round_to_error:
  assumes q: "\<bar>q\<bar> < 2 powi k" and k: "emin < k"
  shows "\<bar>round_to p emin q - q\<bar> \<le> 2 powi (k - int p - 1)"
proof (cases "q = 0")
  case False
  let ?u = "ulp_exp p emin q"
  have "floor_log2 \<bar>q\<bar> < k"
    using floor_log2_bounds(1) [of "\<bar>q\<bar>"] q False powi2_less_imp [of "floor_log2 \<bar>q\<bar>" k] by simp
  then have u: "?u \<le> k - int p" using k by (simp add: ulp_exp_def)
  have "\<bar>round_to p emin q - q\<bar> = \<bar>of_int (round_half_even (q / 2 powi ?u)) - q / 2 powi ?u\<bar> * 2 powi ?u"
    unfolding round_to_eq by (simp add: abs_mult [symmetric] field_simps)
  also have "\<dots> \<le> 1/2 * 2 powi ?u"
    by (intro mult_right_mono round_half_even_error) auto
  also have "\<dots> \<le> 1/2 * 2 powi (k - int p)" using u powi2_le_iff by auto
  also have "\<dots> = 2 powi (k - int p - 1)" by (simp add: power_int_diff)
  finally show ?thesis .
qed simp

lemma round_to_result_on_grid:
  assumes "0 < p"
  shows "on_grid p emin (round_to p emin q)"
proof (cases "q = 0")
  case True
  then show ?thesis by (simp add: on_grid_def)
next
  case False
  let ?u = "ulp_exp p emin q" and ?E = "floor_log2 \<bar>q\<bar>"
  have "\<bar>q\<bar> < 2 powi (?E + 1)" using floor_log2_bounds(2) [of "\<bar>q\<bar>"] False by simp
  also have "(2::rat) powi (?E + 1) \<le> 2 powi (?u + int p)"
    by (intro power_int_increasing) (auto simp: ulp_exp_def)
  also have "(2::rat) powi (?u + int p) = 2 ^ p * 2 powi ?u" by (simp add: power_int_add mult.commute)
  finally have "\<bar>q / 2 powi ?u\<bar> \<le> of_int (2 ^ p)" by (simp add: abs_divide divide_le_eq)
  then have hi: "q / 2 powi ?u \<le> of_int (2 ^ p)" and lo: "of_int (- (2 ^ p)) \<le> q / 2 powi ?u"
    by (simp_all only: abs_le_iff of_int_minus minus_le_iff)
  have "\<bar>round_half_even (q / 2 powi ?u)\<bar> \<le> 2 ^ p" 
    using round_half_even_le_int [OF hi] round_half_even_ge_int [OF lo] by (intro abs_leI) linarith+
  then show ?thesis
    by (rule on_gridI [OF round_to_eq]) (use assms in \<open>auto simp: ulp_exp_def\<close>)
qed

lemma round_to_idem: "0 < p \<Longrightarrow> round_to p emin (round_to p emin q) = round_to p emin q"
  by (intro round_to_on_grid round_to_result_on_grid)

subsection \<open>Doubles\<close>

datatype pyfloat = Fin rat | PosInf | NegInf | NaN

definition fl :: "rat \<Rightarrow> pyfloat" where
  \<comment> \<open>the double nearest to an exact result; a magnitude past the last binade overflows\<close>
  "fl q =
     (let r = round_to 53 (- 1022) q
      in if r \<noteq> 0 \<and> 1023 < floor_log2 \<bar>r\<bar> then (if 0 < r then PosInf else NegInf) else Fin r)"

definition f_isfinite :: "pyfloat \<Rightarrow> bool" where
  "f_isfinite x \<longleftrightarrow> (case x of Fin _ \<Rightarrow> True | _ \<Rightarrow> False)"

fun f_eq :: "pyfloat \<Rightarrow> pyfloat \<Rightarrow> bool" where
  "f_eq NaN _ = False"
| "f_eq x y = (x = y)"

fun f_lt :: "pyfloat \<Rightarrow> pyfloat \<Rightarrow> bool" where
  "f_lt (Fin a) (Fin b) = (a < b)"
| "f_lt (Fin _) PosInf = True"
| "f_lt NegInf (Fin _) = True"
| "f_lt NegInf PosInf = True"
| "f_lt _ _ = False"

definition f_le :: "pyfloat \<Rightarrow> pyfloat \<Rightarrow> bool" where
  "f_le x y \<longleftrightarrow> f_lt x y \<or> f_eq x y"

fun f_neg :: "pyfloat \<Rightarrow> pyfloat" where
  "f_neg (Fin a) = Fin (- a)"
| "f_neg PosInf = NegInf"
| "f_neg NegInf = PosInf"
| "f_neg NaN = NaN"

fun f_abs :: "pyfloat \<Rightarrow> pyfloat" where
  "f_abs (Fin a) = Fin \<bar>a\<bar>"
| "f_abs NaN = NaN"
| "f_abs _ = PosInf"

fun f_add :: "pyfloat \<Rightarrow> pyfloat \<Rightarrow> pyfloat" where
  "f_add (Fin a) (Fin b) = fl (a + b)"
| "f_add NaN _ = NaN"
| "f_add _ NaN = NaN"
| "f_add PosInf NegInf = NaN"
| "f_add NegInf PosInf = NaN"
| "f_add PosInf _ = PosInf"
| "f_add NegInf _ = NegInf"
| "f_add (Fin _) y = y"

definition f_sub :: "pyfloat \<Rightarrow> pyfloat \<Rightarrow> pyfloat" where
  "f_sub x y = f_add x (f_neg y)"

definition inf_of_sign :: "rat \<Rightarrow> pyfloat" where
  "inf_of_sign s = (if s = 0 then NaN else if 0 < s then PosInf else NegInf)"

fun f_mul :: "pyfloat \<Rightarrow> pyfloat \<Rightarrow> pyfloat" where
  "f_mul (Fin a) (Fin b) = fl (a * b)"
| "f_mul NaN _ = NaN"
| "f_mul _ NaN = NaN"
| "f_mul (Fin a) PosInf = inf_of_sign a"
| "f_mul (Fin a) NegInf = inf_of_sign (- a)"
| "f_mul PosInf (Fin b) = inf_of_sign b"
| "f_mul NegInf (Fin b) = inf_of_sign (- b)"
| "f_mul PosInf y = y"
| "f_mul NegInf y = f_neg y"

fun f_quot :: "pyfloat \<Rightarrow> pyfloat \<Rightarrow> pyfloat" where
  \<comment> \<open>division by a divisor that is not zero\<close>
  "f_quot (Fin a) (Fin b) = fl (a / b)"
| "f_quot NaN _ = NaN"
| "f_quot _ NaN = NaN"
| "f_quot (Fin _) _ = Fin 0"
| "f_quot PosInf (Fin b) = inf_of_sign b"
| "f_quot NegInf (Fin b) = inf_of_sign (- b)"
| "f_quot _ _ = NaN"

definition f_div :: "pyfloat \<Rightarrow> pyfloat \<Rightarrow> pyfloat option" where
  \<comment> \<open>\<open>None\<close> is Python's ZeroDivisionError\<close>
  "f_div x y = (if y = Fin 0 then None else Some (f_quot x y))"

definition f_max :: "pyfloat \<Rightarrow> pyfloat \<Rightarrow> pyfloat" where
  \<comment> \<open>Python's two-argument \<^verbatim>\<open>max\<close>: the first unless the second is greater\<close>
  "f_max x y = (if f_lt x y then y else x)"

definition f_min :: "pyfloat \<Rightarrow> pyfloat \<Rightarrow> pyfloat" where
  "f_min x y = (if f_lt y x then y else x)"

abbreviation f_zero :: pyfloat where
  "f_zero \<equiv> Fin 0"

named_theorems fl_simps \<open>arithmetic of doubles\<close>

lemma f_isfinite_simps [simp, fl_simps]:
  "f_isfinite (Fin a)" "\<not> f_isfinite PosInf" "\<not> f_isfinite NegInf" "\<not> f_isfinite NaN"
  by (simp_all add: f_isfinite_def)

lemma f_isfinite_iff: "f_isfinite x \<longleftrightarrow> (\<exists>a. x = Fin a)"
  by (cases x) simp_all

lemma f_eq_refl_iff [simp]: "f_eq x x \<longleftrightarrow> x \<noteq> NaN"
  by (cases x) simp_all

lemma f_eqD: "f_eq x y \<Longrightarrow> x = y"
  by (cases x) auto

lemma f_le_Fin [simp, fl_simps]: "f_le (Fin a) (Fin b) \<longleftrightarrow> a \<le> b"
  by (auto simp: f_le_def)

lemma f_max_Fin [simp, fl_simps]: "f_max (Fin a) (Fin b) = Fin (max a b)"
  by (auto simp: f_max_def max_def)

lemma f_min_Fin [simp, fl_simps]: "f_min (Fin a) (Fin b) = Fin (min a b)"
  by (auto simp: f_min_def min_def)

lemma f_sub_Fin [simp, fl_simps]: "f_sub (Fin a) (Fin b) = fl (a - b)"
  by (simp add: f_sub_def)

lemma f_div_Fin [simp, fl_simps]: "b \<noteq> 0 \<Longrightarrow> f_div (Fin a) (Fin b) = Some (fl (a / b))"
  by (simp add: f_div_def)

lemma fl_not_NaN [simp]: "fl q \<noteq> NaN"
  by (simp add: fl_def Let_def)

lemma fl_0 [simp, fl_simps]: "fl 0 = Fin 0"
  by (simp add: fl_def)

lemma fl_minus: "fl (- q) = f_neg (fl q)"
  using round_to_nonneg [of q 53 "- 1022"] round_to_nonpos [of q 53 "- 1022"]
  by (cases "0 \<le> q") (auto simp: fl_def Let_def round_to_minus)

lemma f_sub_self: "f_sub (Fin a) (Fin a) = Fin 0"
  by simp

subsection \<open>Rounding of doubles is monotone and exact where it can be\<close>

definition is_double :: "rat \<Rightarrow> bool" where
  "is_double q \<longleftrightarrow> on_grid 53 (- 1022) q \<and> \<bar>q\<bar> < 2 powi 1024"

lemma fl_in_range:
  assumes "\<bar>round_to 53 (- 1022) q\<bar> < 2 powi 1024"
  shows "fl q = Fin (round_to 53 (- 1022) q)"
proof (cases "round_to 53 (- 1022) q = 0")
  case False
  then have "2 powi (floor_log2 \<bar>round_to 53 (- 1022) q\<bar>) < (2::rat) powi 1024"
    using assms floor_log2_bounds(1) [of "\<bar>round_to 53 (- 1022) q\<bar>"] by simp
  then have "floor_log2 \<bar>round_to 53 (- 1022) q\<bar> < 1024" by (rule powi2_less_imp)
  then show ?thesis by (simp add: fl_def Let_def)
qed (simp add: fl_def Let_def)

lemma fl_exact: "is_double q \<Longrightarrow> fl q = Fin q"
  using fl_in_range [of q] by (simp add: is_double_def round_to_on_grid)

lemma is_double_0 [simp]: "is_double 0"
  by (simp add: is_double_def on_grid_def)

lemma is_double_minus [simp]: "is_double (- q) = is_double q"
  by (simp add: is_double_def on_grid_def ulp_exp_def)

lemma is_double_dyadic:
  assumes "q = of_int m * 2 powi e" "\<bar>m\<bar> \<le> 2 ^ 53" "- 1074 \<le> e" "e \<le> 970"
  shows "is_double q"
proof -
  have "\<bar>q\<bar> = of_int \<bar>m\<bar> * 2 powi e" using assms(1) by (simp add: abs_mult)
  also have "\<dots> \<le> of_int (2 ^ 53) * 2 powi e" using assms(2) by (intro mult_right_mono) (subst of_int_le_iff, auto)
  also have "\<dots> = 2 powi (53 + e)" by (simp add: power_int_add)
  also have "\<dots> < 2 powi 1024" using assms(4) by (intro power_int_strict_increasing) auto
  finally show ?thesis
    unfolding is_double_def using on_gridI [OF assms(1), of 53 "- 1022"] assms(2,3) by simp
qed

lemma is_double_of_int: "\<bar>n\<bar> \<le> 2 ^ 53 \<Longrightarrow> is_double (of_int n)"
  by (rule is_double_dyadic [of _ n 0]) auto

lemma fl_of_int: "\<bar>n\<bar> \<le> 2 ^ 53 \<Longrightarrow> fl (of_int n) = Fin (of_int n)"
  by (intro fl_exact is_double_of_int)

lemma is_double_numeral_small: "\<bar>numeral n :: int\<bar> \<le> 2 ^ 53 \<Longrightarrow> is_double (numeral n)"
  using is_double_of_int [of "numeral n"] by simp

lemma is_double_1 [simp]: "is_double 1"
  using is_double_of_int [of 1] by simp

lemma fl_1 [simp, fl_simps]: "fl 1 = Fin 1"
  by (rule fl_exact) simp

text \<open>An exact result between two doubles rounds to a double between them.\<close>

lemma fl_between:
  assumes "is_double a" "is_double b" "a \<le> q" "q \<le> b"
  obtains r where "fl q = Fin r" "a \<le> r" "r \<le> b"
proof -
  let ?r = "round_to 53 (- 1022) q"
  have "round_to 53 (- 1022) a \<le> ?r" "?r \<le> round_to 53 (- 1022) b"
    using assms by (auto intro!: round_to_mono)
  then have ab: "a \<le> ?r" "?r \<le> b"
    using assms by (auto simp: is_double_def round_to_on_grid)
  then have "\<bar>?r\<bar> < 2 powi 1024" using assms(1,2) by (auto simp: is_double_def abs_if split: if_splits)
  then have "fl q = Fin ?r" by (rule fl_in_range)
  with ab that show thesis by blast
qed

lemma fl_abs_le:
  assumes "is_double b" "\<bar>q\<bar> \<le> b"
  obtains r where "fl q = Fin r" "\<bar>r\<bar> \<le> b"
proof -
  have "is_double (- b)" "- b \<le> q" "q \<le> b" using assms by (simp_all add: abs_le_iff)
  then obtain r where r: "fl q = Fin r" "- b \<le> r" "r \<le> b"
    using assms(1) by (elim fl_between [of "- b" b q])
  then have "\<bar>r\<bar> \<le> b" by (intro abs_leI) simp_all
  with r(1) show thesis by (rule that)
qed

lemma f_le_fl_nonneg: "0 \<le> q \<Longrightarrow> f_le (Fin 0) (fl q)"
  using round_to_nonneg [of q 53 "- 1022"] by (auto simp: fl_def Let_def f_le_def)

lemma f_lt_fl_nonneg: "0 \<le> q \<Longrightarrow> \<not> f_lt (fl q) (Fin 0)"
  using round_to_nonneg [of q 53 "- 1022"] by (auto simp: fl_def Let_def)

lemma f_lt_fl_nonpos: "q \<le> 0 \<Longrightarrow> \<not> f_lt (Fin 0) (fl q)"
  using round_to_nonpos [of q 53 "- 1022"] by (auto simp: fl_def Let_def)

subsection \<open>Order against a rounded bound\<close>

lemma f_lt_fl_mono: "q \<le> r \<Longrightarrow> f_lt (Fin e) (fl q) \<Longrightarrow> f_lt (Fin e) (fl r)"
proof -
  let ?q = "round_to 53 (- 1022) q" and ?r = "round_to 53 (- 1022) r"
  assume le: "q \<le> r" and lt: "f_lt (Fin e) (fl q)"
  have qr: "?q \<le> ?r" using le by (rule round_to_mono) simp
  have up: "0 < ?q \<Longrightarrow> floor_log2 ?q \<le> floor_log2 ?r" using qr by (rule floor_log2_mono [rotated])
  have down: "?r < 0 \<Longrightarrow> floor_log2 (- ?r) \<le> floor_log2 (- ?q)" using qr by (intro floor_log2_mono) auto
  show ?thesis
    using qr up down lt by (auto simp: fl_def Let_def abs_if split: if_splits)
qed

lemma f_lt_Fin_antimono: "d \<le> e \<Longrightarrow> f_lt (Fin e) c \<Longrightarrow> f_lt (Fin d) c"
  by (cases c) auto

lemma f_lt_irrefl [simp]: "\<not> f_lt x x"
  by (cases x) auto

subsection \<open>Overflow\<close>

lemma fl_overflow:
  assumes "2 powi 1024 \<le> q"
  shows "fl q = PosInf"
proof -
  let ?r = "round_to 53 (- 1022) q"
  have grid: "on_grid 53 (- 1022) (2 powi 1024)"
    by (rule on_gridI [where m = 1 and e = 1024]) simp_all
  have r: "2 powi 1024 \<le> ?r"
    using round_to_mono [OF assms, of 53 "- 1022"] by (simp only: round_to_on_grid [OF grid])
  then have pos: "0 < ?r" by (rule less_le_trans [OF ulp_pos])
  have "floor_log2 (2 powi 1024) = 1024" by (rule floor_log2_eqI) simp_all
  with floor_log2_mono [OF ulp_pos r] have "1023 < floor_log2 ?r" by linarith
  with pos show ?thesis by (simp add: fl_def Let_def)
qed

lemma fl_huge_int:
  assumes "2 ^ 1024 \<le> n"
  shows "fl (of_int n) = PosInf"
proof (rule fl_overflow)
  have "(2 :: rat) powi 1024 = of_int (2 ^ 1024)" by (simp add: power_int_def)
  also have "\<dots> \<le> of_int n" using assms by (simp only: of_int_le_iff)
  finally show "2 powi 1024 \<le> (of_int n :: rat)" .
qed

end
