(* ===== verification/PyValues.thy ===== *)
theory PyValues
  imports PyFloat "HOL-Library.Word"
begin

text \<open>
  The Python values that reach the checked constructors, the exceptions they raise and the text of
  those exceptions.  Strings are ASCII (a \<open>char\<close> per character); a float or an int inside an f-string
  is kept as a value, so that no decimal printer is needed to state which message is raised.
\<close>

subsection \<open>Exceptions and messages\<close>

datatype exc_kind =
    ValueErr | TypeErr | OverflowErr | RuntimeErr | KeyErr | OSErr | TimeoutErr
  | ZeroDivisionErr | AttributeErr | StopIterationErr | ProtocolConflictErr
  | ModelMismatchErr | MechanicalLimitErr | OtherErr string

datatype msg_part = Lit string | IntRepr int | FloatRepr pyfloat

type_synonym msg = "msg_part list"

datatype exc = Exc (exc_kind: exc_kind) (exc_msg: msg)

abbreviation lit :: "string \<Rightarrow> msg" where
  "lit s \<equiv> [Lit s]"

abbreviation value_error :: "string \<Rightarrow> exc" where
  "value_error s \<equiv> Exc ValueErr (lit s)"

abbreviation runtime_error :: "string \<Rightarrow> exc" where
  "runtime_error s \<equiv> Exc RuntimeErr (lit s)"

abbreviation overflow_error :: "string \<Rightarrow> exc" where
  "overflow_error s \<equiv> Exc OverflowErr (lit s)"

definition is_value_error :: "exc \<Rightarrow> bool" where
  \<comment> \<open>what \<^verbatim>\<open>except ValueError\<close> catches: the class and its wheel-command subclasses\<close>
  "is_value_error e \<longleftrightarrow> exc_kind e \<in> {ValueErr, ModelMismatchErr, MechanicalLimitErr}"

definition is_overflow_error :: "exc \<Rightarrow> bool" where
  "is_overflow_error e \<longleftrightarrow> exc_kind e = OverflowErr"

lemma is_value_error_simps [simp]:
  "is_value_error (Exc ValueErr m)" "is_value_error (Exc ModelMismatchErr m)"
  "is_value_error (Exc MechanicalLimitErr m)" "\<not> is_value_error (Exc OverflowErr m)"
  "\<not> is_value_error (Exc RuntimeErr m)" "\<not> is_value_error (Exc TypeErr m)"
  by (simp_all add: is_value_error_def)

lemma is_overflow_error_simps [simp]:
  "is_overflow_error (Exc OverflowErr m)" "\<not> is_overflow_error (Exc ValueErr m)"
  "\<not> is_overflow_error (Exc RuntimeErr m)"
  by (simp_all add: is_overflow_error_def)

subsection \<open>Values\<close>

type_synonym bytes = "8 word list"

datatype pyval =
    PNone
  | PBool bool
  | PInt int
  | PFloat pyfloat
  | PFraction rat
  | PStr string
  | PBytes bytes
  | PByteArray bytes
  | PMemoryView bytes
  | PTuple "pyval list"
  | PList "pyval list"
  | PSet "pyval list"
  | PDict "(pyval \<times> pyval) list"
  | PObject

abbreviation uint32_max :: int where
  "uint32_max \<equiv> 2 ^ 32 - 1"

abbreviation uint64_max :: int where
  "uint64_max \<equiv> 2 ^ 64 - 1"

fun as_int :: "pyval \<Rightarrow> int option" where
  \<comment> \<open>\<^verbatim>\<open>not isinstance(v, bool) and isinstance(v, int)\<close>\<close>
  "as_int (PInt n) = Some n"
| "as_int _ = None"

fun as_float :: "pyval \<Rightarrow> pyfloat option" where
  \<comment> \<open>\<^verbatim>\<open>type(v) is float\<close>\<close>
  "as_float (PFloat x) = Some x"
| "as_float _ = None"

fun is_real_number :: "pyval \<Rightarrow> bool" where
  \<comment> \<open>\<^verbatim>\<open>not isinstance(v, bool) and isinstance(v, Real)\<close>\<close>
  "is_real_number (PInt _) = True"
| "is_real_number (PFloat _) = True"
| "is_real_number (PFraction _) = True"
| "is_real_number _ = False"

definition float_of_rat :: "string \<Rightarrow> rat \<Rightarrow> (exc, pyfloat) res" where
  "float_of_rat m q = (if f_isfinite (fl q) then Inr (fl q) else Inl (overflow_error m))"

fun py_float :: "pyval \<Rightarrow> (exc, pyfloat) res" where
  \<comment> \<open>\<^verbatim>\<open>float(v)\<close> for a real number \<open>v\<close>; an int or a fraction too large for a double raises\<close>
  "py_float (PInt n) = float_of_rat ''int too large to convert to float'' (of_int n)"
| "py_float (PFloat x) = Inr x"
| "py_float (PFraction q) = float_of_rat ''integer division result too large for a float'' q"
| "py_float (PBool b) = Inr (if b then Fin 1 else Fin 0)"
| "py_float _ = Inl (Exc TypeErr (lit ''float() argument must be a string or a real number''))"

fun bytes_like :: "pyval \<Rightarrow> bytes option" where
  \<comment> \<open>\<^verbatim>\<open>bytes(v)\<close> where \<^verbatim>\<open>isinstance(v, (bytes, bytearray, memoryview))\<close>\<close>
  "bytes_like (PBytes b) = Some b"
| "bytes_like (PByteArray b) = Some b"
| "bytes_like (PMemoryView b) = Some b"
| "bytes_like _ = None"

definition pbytes_items :: "bytes \<Rightarrow> pyval list" where
  "pbytes_items b = map (\<lambda>w. PInt (uint w)) b"

fun tuple_or_list :: "pyval \<Rightarrow> pyval list option" where
  "tuple_or_list (PTuple xs) = Some xs"
| "tuple_or_list (PList xs) = Some xs"
| "tuple_or_list _ = None"

fun ordered_sequence :: "pyval \<Rightarrow> pyval list option" where
  \<comment> \<open>a \<^verbatim>\<open>Sequence\<close> that is none of str, bytes, set, mapping and iterator\<close>
  "ordered_sequence (PTuple xs) = Some xs"
| "ordered_sequence (PList xs) = Some xs"
| "ordered_sequence (PByteArray b) = Some (pbytes_items b)"
| "ordered_sequence (PMemoryView b) = Some (pbytes_items b)"
| "ordered_sequence _ = None"

fun truthy :: "pyval \<Rightarrow> bool" where
  \<comment> \<open>the truth value of an object\<close>
  "truthy PNone = False"
| "truthy (PBool b) = b"
| "truthy (PInt n) = (n \<noteq> 0)"
| "truthy (PFloat x) = (x \<noteq> Fin 0)"
| "truthy (PFraction q) = (q \<noteq> 0)"
| "truthy (PStr s) = (s \<noteq> [])"
| "truthy (PBytes b) = (b \<noteq> [])"
| "truthy (PByteArray b) = (b \<noteq> [])"
| "truthy (PMemoryView b) = (b \<noteq> [])"
| "truthy (PTuple xs) = (xs \<noteq> [])"
| "truthy (PList xs) = (xs \<noteq> [])"
| "truthy (PSet xs) = (xs \<noteq> [])"
| "truthy (PDict d) = (d \<noteq> [])"
| "truthy PObject = True"

fun byte_item :: "pyval \<Rightarrow> (exc, 8 word) res" where
  \<comment> \<open>an element of the iterable given to \<^verbatim>\<open>bytes\<close>\<close>
  "byte_item (PInt n) =
     (if 0 \<le> n \<and> n < 256 then Inr (word_of_int n)
      else Inl (value_error ''bytes must be in range(0, 256)''))"
| "byte_item (PBool b) = Inr (if b then 1 else 0)"
| "byte_item _ = Inl (Exc TypeErr (lit ''object cannot be interpreted as an integer''))"

fun py_bytes :: "pyval \<Rightarrow> (exc, bytes) res" where
  \<comment> \<open>\<^verbatim>\<open>bytes(v)\<close>: a copy, \<open>n\<close> zero bytes for an int, or the items of an iterable\<close>
  "py_bytes (PBytes b) = Inr b"
| "py_bytes (PByteArray b) = Inr b"
| "py_bytes (PMemoryView b) = Inr b"
| "py_bytes (PInt n) = (if n < 0 then Inl (value_error ''negative count'') else Inr (replicate (nat n) 0))"
| "py_bytes (PBool b) = Inr (if b then [0] else [])"
| "py_bytes (PTuple xs) = map_res byte_item xs"
| "py_bytes (PList xs) = map_res byte_item xs"
| "py_bytes (PSet xs) = map_res byte_item xs"
| "py_bytes (PDict d) = map_res byte_item (map fst d)"
| "py_bytes _ = Inl (Exc TypeErr (lit ''cannot convert object to bytes''))"

lemma is_real_number_iff:
  "is_real_number v \<longleftrightarrow> (\<exists>n. v = PInt n) \<or> (\<exists>x. v = PFloat x) \<or> (\<exists>q. v = PFraction q)"
  by (cases v) simp_all

lemma as_int_Some_iff [simp]: "as_int v = Some n \<longleftrightarrow> v = PInt n"
  by (cases v) simp_all

lemma as_float_Some_iff [simp]: "as_float v = Some x \<longleftrightarrow> v = PFloat x"
  by (cases v) simp_all

lemma as_int_None_iff: "as_int v = None \<longleftrightarrow> (\<forall>n. v \<noteq> PInt n)"
  by (cases v) simp_all

lemma py_float_finite_or_float:
  "is_real_number v \<Longrightarrow> py_float v = Inr x \<Longrightarrow> f_isfinite x \<or> v = PFloat x"
  by (cases v) (auto simp: float_of_rat_def split: if_splits)

lemma py_float_error_overflow:
  "is_real_number v \<Longrightarrow> py_float v = Inl e \<Longrightarrow> is_overflow_error e"
  by (cases v) (auto simp: float_of_rat_def split: if_splits)

subsection \<open>ASCII strings\<close>

definition lower_char :: "char \<Rightarrow> char" where
  "lower_char c = (let n = of_char c :: nat in if 65 \<le> n \<and> n \<le> 90 then char_of (n + 32) else c)"

definition py_lower :: "string \<Rightarrow> string" where
  "py_lower s = map lower_char s"

fun py_join :: "string \<Rightarrow> string list \<Rightarrow> string" where
  "py_join sep [] = ''''"
| "py_join sep [x] = x"
| "py_join sep (x # xs) = x @ sep @ py_join sep xs"

definition quoted :: "string \<Rightarrow> string" where
  \<comment> \<open>a string between single quotes\<close>
  "quoted s = [CHR 0x27] @ s @ [CHR 0x27]"

definition source_id_char :: "char \<Rightarrow> bool" where
  \<comment> \<open>the character class \<^verbatim>\<open>[A-Za-z0-9._-]\<close>\<close>
  "source_id_char c \<longleftrightarrow>
     (let n = of_char c :: nat
      in (65 \<le> n \<and> n \<le> 90) \<or> (97 \<le> n \<and> n \<le> 122) \<or> (48 \<le> n \<and> n \<le> 57) \<or> n = 46 \<or> n = 95 \<or> n = 45)"

lemma lower_char_idem: "lower_char (lower_char c) = lower_char c"
  by (auto simp: lower_char_def Let_def)

lemma py_lower_idem [simp]: "py_lower (py_lower s) = py_lower s"
  by (simp add: py_lower_def lower_char_idem)

end
