(* ===== verification/SbusParser.thy ===== *)
theory SbusParser
  imports PyValues
begin

unbundle bit_operations_syntax

text \<open>
  The SBUS byte-stream parser of \<^verbatim>\<open>slope_sim/serial_rc.py\<close> (\<^verbatim>\<open>SbusFrameParser\<close>): it keeps the
  bytes that may still become a frame, resynchronises on the header byte, and rejects a candidate
  whose channels leave the protocol's range.
\<close>

definition frame_header :: "8 word" where
  "frame_header = 0x0F"

definition frame_bytes :: nat where
  "frame_bytes = 25"

definition channel_count :: nat where
  "channel_count = 16"

definition channel_input_min :: int where
  "channel_input_min = 172"

definition channel_input_max :: int where
  "channel_input_max = 1811"

definition bits_of_bytes :: "bytes \<Rightarrow> int" where
  \<comment> \<open>\<^verbatim>\<open>int.from_bytes(b, "little")\<close>\<close>
  "bits_of_bytes b = foldr (\<lambda>w n. uint w + 256 * n) b 0"

definition sbus_channels :: "int \<Rightarrow> int list" where
  "sbus_channels bits = map (\<lambda>index. drop_bit (11 * index) bits AND 0x07FF) [0..<channel_count]"

definition sbus_decode :: "bytes \<Rightarrow> int list option" where
  "sbus_decode frame =
     (if length frame \<noteq> frame_bytes \<or> hd frame \<noteq> frame_header then None
      else let channels = sbus_channels (bits_of_bytes (take 22 (drop 1 frame)))
           in if list_ex (\<lambda>v. v < channel_input_min \<or> channel_input_max < v) channels
              then None else Some channels)"

record sbus_parser =
  sp_buffer :: bytes
  sp_discarded_frame_count :: int

definition new_sbus_parser :: sbus_parser where
  "new_sbus_parser = \<lparr>sp_buffer = [], sp_discarded_frame_count = 0\<rparr>"

definition align :: "bytes \<Rightarrow> bytes" where
  \<comment> \<open>drop what precedes the first header; everything, when there is none\<close>
  "align buffer = dropWhile (\<lambda>b. b \<noteq> frame_header) buffer"

lemma length_align: "length (align b) \<le> length b"
  by (simp add: align_def length_dropWhile_le)

lemma align_idem [simp]: "align (align b) = align b"
  by (induction b) (auto simp: align_def)

lemma align_append: "align (a @ b) = (if align a = [] then align b else align a @ b)"
  by (induction a) (auto simp: align_def)

lemma align_Nil [simp]: "align [] = []"
  by (simp add: align_def)

function parse_buffer :: "bytes \<Rightarrow> int list list \<times> bytes \<times> int" where
  \<comment> \<open>the loop of \<^verbatim>\<open>feed\<close>: frames decoded, bytes kept, candidates discarded\<close>
  "parse_buffer buffer =
     (let aligned = align buffer
      in if aligned = [] then ([], [], 0)
         else if length aligned < frame_bytes then ([], aligned, 0)
         else case sbus_decode (take frame_bytes aligned) of
                None \<Rightarrow> (case parse_buffer (tl aligned) of (fs, rest, n) \<Rightarrow> (fs, rest, n + 1))
              | Some channels \<Rightarrow>
                  (case parse_buffer (drop frame_bytes aligned) of (fs, rest, n) \<Rightarrow> (channels # fs, rest, n)))"
  by pat_completeness auto
termination
proof (relation "measure length")
  fix buffer aligned :: bytes
  assume a: "aligned = align buffer" "aligned \<noteq> []"
  have "length aligned \<le> length buffer" using a(1) by (simp add: length_align)
  with a(2) show "(tl aligned, buffer) \<in> measure length"
    by (cases aligned) auto
next
  fix buffer aligned channels
  assume a: "aligned = align buffer" "aligned \<noteq> []"
  have "length aligned \<le> length buffer" using a(1) by (simp add: length_align)
  with a(2) show "(drop frame_bytes aligned, buffer) \<in> measure length"
    by (cases aligned) (auto simp: frame_bytes_def)
qed simp

declare parse_buffer.simps [simp del]

definition sbus_feed :: "pyval \<Rightarrow> (exc, sbus_parser, int list list) op" where
  "sbus_feed payload p =
     (case bytes_like payload of
        None \<Rightarrow> (Inl (value_error ''serial payload must be bytes-like''), p)
      | Some b \<Rightarrow>
          (case parse_buffer (sp_buffer p @ b) of
             (frames, rest, n) \<Rightarrow>
               (Inr frames, \<lparr>sp_buffer = rest, sp_discarded_frame_count = sp_discarded_frame_count p + n\<rparr>)))"

subsection \<open>The stream does not depend on how it is cut into reads\<close>

lemma parse_buffer_align: "parse_buffer (align b) = parse_buffer b"
  by (subst parse_buffer.simps, subst (2) parse_buffer.simps) simp

lemma parse_buffer_rest: "parse_buffer b = (fs, rest, n) \<Longrightarrow> align rest = rest \<and> length rest < frame_bytes \<and> 0 \<le> n"
proof (induction b arbitrary: fs n rule: parse_buffer.induct)
  case (1 b)
  let ?a = "align b"
  show ?case
  proof (cases "length ?a < frame_bytes")
    case True
    with "1.prems" show ?thesis
      by (subst (asm) parse_buffer.simps) (auto simp: Let_def frame_bytes_def split: if_splits)
  next
    case False
    then have ne: "?a \<noteq> []" by (auto simp: frame_bytes_def)
    show ?thesis
    proof (cases "sbus_decode (take frame_bytes ?a)")
      case None
      obtain gs m where "parse_buffer (tl ?a) = (gs, rest, m)" "n = m + 1"
        using "1.prems" None False ne by (subst (asm) parse_buffer.simps) (auto simp: Let_def split: prod.splits)
      with "1.IH"(1) [OF refl ne False None] show ?thesis by simp
    next
      case (Some ch)
      obtain gs where "parse_buffer (drop frame_bytes ?a) = (gs, rest, n)"
        using "1.prems" Some False ne by (subst (asm) parse_buffer.simps) (auto simp: Let_def split: prod.splits)
      with "1.IH"(2) [OF refl ne False Some] show ?thesis by simp
    qed
  qed
qed

lemma parse_buffer_append:
  "parse_buffer a = (fs, rest, n) \<Longrightarrow>
     parse_buffer (a @ b) = (case parse_buffer (rest @ b) of (gs, rest', m) \<Rightarrow> (fs @ gs, rest', n + m))"
proof (induction a arbitrary: fs n rule: parse_buffer.induct)
  case (1 a)
  let ?a = "align a"
  have ab: "parse_buffer (a @ b) = parse_buffer (?a @ b)"
    using parse_buffer_align [of "a @ b"] parse_buffer_align [of "?a @ b"]
    by (cases "?a = []") (simp_all add: align_append)
  show ?case
  proof (cases "length ?a < frame_bytes")
    case True
    with "1.prems" have "fs = [] \<and> rest = ?a \<and> n = 0"
      by (subst (asm) parse_buffer.simps) (auto simp: Let_def split: if_splits)
    with ab show ?thesis by (simp split: prod.split)
  next
    case False
    then have ne: "?a \<noteq> []" by (auto simp: frame_bytes_def)
    have alb: "align (?a @ b) = ?a @ b" using ne by (simp add: align_append)
    have long: "\<not> length (?a @ b) < frame_bytes" and tk: "take frame_bytes (?a @ b) = take frame_bytes ?a"
      and dr: "drop frame_bytes (?a @ b) = drop frame_bytes ?a @ b" using False by simp_all
    show ?thesis
    proof (cases "sbus_decode (take frame_bytes ?a)")
      case None
      obtain gs m where rec: "parse_buffer (tl ?a) = (gs, rest, m)" "n = m + 1" "fs = gs"
        using "1.prems" None False ne by (subst (asm) parse_buffer.simps) (auto simp: Let_def split: prod.splits)
      note IH = "1.IH"(1) [OF refl ne False None rec(1)]
      have "parse_buffer (?a @ b) = (case parse_buffer (tl ?a @ b) of (fs, r, k) \<Rightarrow> (fs, r, k + 1))"
        using ne by (subst parse_buffer.simps) (simp add: Let_def alb long tk None tl_append2 del: take_append length_append)
      with IH rec ab show ?thesis by (simp split: prod.splits)
    next
      case (Some ch)
      obtain gs where rec: "parse_buffer (drop frame_bytes ?a) = (gs, rest, n)" "fs = ch # gs"
        using "1.prems" Some False ne by (subst (asm) parse_buffer.simps) (auto simp: Let_def split: prod.splits)
      note IH = "1.IH"(2) [OF refl ne False Some rec(1)]
      have "parse_buffer (?a @ b) = (case parse_buffer (drop frame_bytes ?a @ b) of (fs, r, k) \<Rightarrow> (ch # fs, r, k))"
        using ne by (subst parse_buffer.simps) (simp add: Let_def alb long tk dr Some del: take_append drop_append length_append)
      with IH rec ab show ?thesis by (simp split: prod.splits)
    qed
  qed
qed

text \<open>
  C19. How the serial stream is cut into reads does not matter: feeding two chunks one after the
  other decodes the same frames, keeps the same bytes and counts the same discarded candidates as
  feeding their concatenation, from any state of the parser.
\<close>

theorem sbus_feed_chunks:
  "fst (sbus_feed (PBytes (a @ b)) p)
     = Inr (projr (fst (sbus_feed (PBytes a) p)) @ projr (fst (sbus_feed (PBytes b) (snd (sbus_feed (PBytes a) p)))))
   \<and> snd (sbus_feed (PBytes (a @ b)) p) = snd (sbus_feed (PBytes b) (snd (sbus_feed (PBytes a) p)))"
proof -
  obtain fs rest n where one: "parse_buffer (sp_buffer p @ a) = (fs, rest, n)" by (metis prod_cases3)
  obtain gs rest' m where two: "parse_buffer (rest @ b) = (gs, rest', m)" by (metis prod_cases3)
  have "parse_buffer (sp_buffer p @ a @ b) = (fs @ gs, rest', n + m)"
    using parse_buffer_append [OF one, of b] two by simp
  with one two show ?thesis by (simp add: sbus_feed_def)
qed

subsection \<open>What a decoded frame is\<close>

lemma sbus_decode_Some:
  "sbus_decode frame = Some ch \<longleftrightarrow>
     length frame = frame_bytes \<and> hd frame = frame_header \<and> ch = sbus_channels (bits_of_bytes (take 22 (drop 1 frame)))
     \<and> list_all (\<lambda>v. channel_input_min \<le> v \<and> v \<le> channel_input_max) ch"
proof -
  have "list_ex (\<lambda>v. v < channel_input_min \<or> channel_input_max < v) xs
      \<longleftrightarrow> \<not> list_all (\<lambda>v. channel_input_min \<le> v \<and> v \<le> channel_input_max) xs" for xs
    by (induction xs) auto
  then show ?thesis by (auto simp: sbus_decode_def Let_def)
qed

lemma sbus_channels_eq: "sbus_channels bits = map (\<lambda>i. (bits div 2 ^ (11 * i)) mod 2048) [0..<16]"
proof -
  have "(x :: int) AND 2047 = x mod 2048" for x
    using take_bit_eq_mask [of 11 x] by (simp add: mask_eq_exp_minus_1 take_bit_eq_mod)
  then show ?thesis by (simp add: sbus_channels_def channel_count_def drop_bit_eq_div)
qed

lemma bits_of_bytes_range: "0 \<le> bits_of_bytes b \<and> bits_of_bytes b < 256 ^ length b"
proof (induction b)
  case (Cons w b)
  have "0 \<le> uint w" "uint w < 256" using uint_lt2p [of w] by simp_all
  with Cons show ?case by (simp add: bits_of_bytes_def)
qed (simp add: bits_of_bytes_def)

lemma digits_sum: "(\<Sum>i<n. (x div B ^ i) mod B * B ^ i) = x mod B ^ n" if "0 < B" for x B :: int
proof (induction n)
  case (Suc n)
  have "x mod (B ^ n * B) = B ^ n * (x div B ^ n mod B) + x mod B ^ n" using that by (intro zmod_zmult2_eq) simp
  with Suc show ?case by (simp add: algebra_simps)
qed simp

lemma bits_of_bytes_inject: "length a = length b \<Longrightarrow> bits_of_bytes a = bits_of_bytes b \<Longrightarrow> a = b"
proof (induction a b rule: list_induct2)
  case (Cons v a w b)
  have r: "0 \<le> uint v" "uint v < 256" "0 \<le> uint w" "uint w < 256"
    using uint_lt2p [of v] uint_lt2p [of w] by simp_all
  have eq: "uint v + 256 * bits_of_bytes a = uint w + 256 * bits_of_bytes b"
    using Cons.prems by (simp add: bits_of_bytes_def)
  from arg_cong [OF this, of "\<lambda>x. x mod 256"] have "uint v mod 256 = uint w mod 256" by simp
  then have "uint v = uint w" using r by simp
  with eq Cons.IH show ?case by (simp flip: word_uint_eq_iff)
qed simp

text \<open>
  C20. A decoded frame consists of 16 channels, each within the protocol's range, and they determine
  all 176 payload bits: two frames that decode to the same channels have the same header and the same
  22 channel bytes, and the channels are the base-2048 digits of those bytes read little-endian.
\<close>

theorem sbus_decode_faithful:
  assumes "sbus_decode f = Some ch"
  shows "length ch = 16 \<and> list_all (\<lambda>v. 172 \<le> v \<and> v \<le> 1811) ch
    \<and> (\<Sum>i<16. ch ! i * 2048 ^ i) = bits_of_bytes (take 22 (drop 1 f))
    \<and> (sbus_decode g = Some ch \<longrightarrow> take 23 g = take 23 f)"
proof -
  have digits: "(\<Sum>i<16. c ! i * 2048 ^ i) = bits_of_bytes (take 22 (drop 1 h))"
    if "sbus_decode h = Some c" for h c
  proof -
    from that have h: "length h = 25" "c = sbus_channels (bits_of_bytes (take 22 (drop 1 h)))"
      by (simp_all add: sbus_decode_Some frame_bytes_def)
    let ?x = "bits_of_bytes (take 22 (drop 1 h))"
    have "(\<Sum>i<16. c ! i * 2048 ^ i) = (\<Sum>i<16. (?x div 2048 ^ i) mod 2048 * 2048 ^ i)"
      by (intro sum.cong) (simp_all add: h sbus_channels_eq power_mult)
    also have "\<dots> = ?x mod 2048 ^ 16" by (rule digits_sum) simp
    also have "\<dots> = ?x"
      using bits_of_bytes_range [of "take 22 (drop 1 h)"] h by simp
    finally show ?thesis .
  qed
  have same: "take 23 g = take 23 f" if g: "sbus_decode g = Some ch"
  proof -
    from assms g have len: "length f = 25" "length g = 25" "hd f = hd g"
      by (simp_all add: sbus_decode_Some frame_bytes_def)
    have "take 22 (drop 1 g) = take 22 (drop 1 f)"
      using digits [OF assms] digits [OF g] len by (intro bits_of_bytes_inject) simp_all
    with len show ?thesis by (cases f; cases g) (auto simp: take_Cons')
  qed
  show ?thesis
    using assms digits [OF assms] same
    by (auto simp: sbus_decode_Some sbus_channels_eq channel_input_min_def channel_input_max_def)
qed

definition example_frame :: bytes where
  \<comment> \<open>sixteen channels at 1002 (0x3EA)\<close>
  "example_frame =
     [0x0F, 0xEA, 0x53, 0x9F, 0xFA, 0xD4, 0xA7, 0x3E, 0xF5, 0xA9, 0x4F, 0x7D,
      0xEA, 0x53, 0x9F, 0xFA, 0xD4, 0xA7, 0x3E, 0xF5, 0xA9, 0x4F, 0x7D, 0, 0]"

lemma example_frame_decoded: "sbus_decode example_frame = Some (replicate 16 1002)"
  by code_simp

theorem sbus_decode_faithful_witness:
  "(\<Sum>i<16. replicate 16 1002 ! i * 2048 ^ i) = bits_of_bytes (take 22 (drop 1 example_frame))"
  using sbus_decode_faithful [OF example_frame_decoded, of example_frame] by simp

end
