(* ===== verification/RcControl.thy ===== *)
theory RcControl
  imports SbusParser
begin

text \<open>
  The remote-control path of \<^verbatim>\<open>slope_sim/serial_rc.py\<close> behind the parser: stick normalisation and
  filtering, the command gate with its timeout and recovery, the serial worker that drives them, and
  the arbiter that lets one command source at a time reach the vehicle.  All arithmetic is in
  doubles, rounded as the code rounds it.  The serial reader and the command client are arguments:
  what one read returned, and whether one send raised.
\<close>

subsection \<open>Stick normalisation and filter\<close>

definition stick_min :: int where
  "stick_min = 282"

definition stick_center :: int where
  "stick_center = 1002"

definition stick_max :: int where
  "stick_max = 1722"

definition normalize_stick :: "int \<Rightarrow> pyfloat \<Rightarrow> pyfloat" where
  "normalize_stick value deadzone =
     (let scaled = (if value \<le> stick_center
                    then fl (of_int (value - stick_center) / of_int (stick_center - stick_min))
                    else fl (of_int (value - stick_center) / of_int (stick_max - stick_center)))
      in if f_le (f_abs scaled) deadzone then f_zero
         else f_max (Fin (- 1)) (f_min (Fin 1) scaled))"

record stick_filter =
  sf_deadzone :: pyfloat
  sf_max_rate_per_sec :: pyfloat
  sf_samples :: "int list"
  sf_stable_raw :: "int option"
  sf_output :: "pyfloat option"
  sf_last_at :: "pyfloat option"

definition new_stick_filter :: "pyfloat \<Rightarrow> stick_filter" where
  \<comment> \<open>with the default rate limit\<close>
  "new_stick_filter deadzone = \<lparr>sf_deadzone = deadzone, sf_max_rate_per_sec = Fin 4, sf_samples = [],
     sf_stable_raw = None, sf_output = None, sf_last_at = None\<rparr>"

definition push_sample :: "int \<Rightarrow> int list \<Rightarrow> int list" where
  \<comment> \<open>\<^verbatim>\<open>deque(maxlen=5).append\<close>\<close>
  "push_sample v xs = (let ys = xs @ [v] in drop (length ys - 5) ys)"

definition median_of :: "int list \<Rightarrow> int" where
  "median_of xs = (let ordered = sort xs in ordered ! (length ordered div 2))"

definition filter_update :: "int \<Rightarrow> pyfloat \<Rightarrow> stick_filter \<Rightarrow> pyfloat \<times> stick_filter" where
  "filter_update value now s =
     (let samples = push_sample value (sf_samples s);
          median = median_of samples;
          stable = (case sf_stable_raw s of
                      None \<Rightarrow> median
                    | Some r \<Rightarrow> if 4 \<le> \<bar>median - r\<bar> then median else r);
          target = normalize_stick stable (sf_deadzone s);
          output = (case sf_output s of
                      None \<Rightarrow> target
                    | Some out \<Rightarrow>
                        (case sf_last_at s of
                           None \<Rightarrow> out
                         | Some before \<Rightarrow>
                             let limit = f_mul (sf_max_rate_per_sec s) (f_max f_zero (f_sub now before));
                                 delta = f_max (f_neg limit) (f_min limit (f_sub target out))
                             in f_add out delta))
      in (output, s\<lparr>sf_samples := samples, sf_stable_raw := Some stable, sf_output := Some output,
                    sf_last_at := Some now\<rparr>))"

definition filter_reset :: "bool \<Rightarrow> stick_filter \<Rightarrow> stick_filter" where
  "filter_reset safe_zero s = s\<lparr>sf_samples := [], sf_stable_raw := None,
     sf_output := (if safe_zero then Some f_zero else None), sf_last_at := None\<rparr>"

record rc_stick_readout =
  ro_throttle_channel :: int
  ro_steering_channel :: int
  ro_throttle_raw :: int
  ro_steering_raw :: int
  ro_throttle_normalized :: pyfloat
  ro_steering_normalized :: pyfloat

definition channel_ok :: "pyval \<Rightarrow> bool" where
  \<comment> \<open>\<^verbatim>\<open>type(value) is int and _CHANNEL_INPUT_MIN <= value <= _CHANNEL_INPUT_MAX\<close>\<close>
  "channel_ok v = (case as_int v of Some n \<Rightarrow> channel_input_min \<le> n \<and> n \<le> channel_input_max | None \<Rightarrow> False)"

fun as_tuple :: "pyval \<Rightarrow> pyval list option" where
  "as_tuple (PTuple xs) = Some xs"
| "as_tuple _ = None"

definition channel_value :: "pyval list \<Rightarrow> nat \<Rightarrow> int" where
  "channel_value xs i = the (as_int (xs ! i))"

definition rc_stick_readout_of :: "pyval \<Rightarrow> (exc, rc_stick_readout) res" where
  "rc_stick_readout_of channels =
     (let err = value_error ''channels must be 16 SBUS channel values in range''
      in case as_tuple channels of
           None \<Rightarrow> Inl err
         | Some xs \<Rightarrow>
             ensure (length xs = channel_count \<and> list_all channel_ok xs) err
               (Inr \<lparr>ro_throttle_channel = 3, ro_steering_channel = 1,
                     ro_throttle_raw = channel_value xs 2, ro_steering_raw = channel_value xs 0,
                     ro_throttle_normalized = normalize_stick (channel_value xs 2) f_zero,
                     ro_steering_normalized = normalize_stick (channel_value xs 0) f_zero\<rparr>))"

subsection \<open>Command gate\<close>

record rc_command =
  rc_linear :: pyfloat
  rc_angular :: pyfloat
  rc_active :: bool
  rc_reason :: string

definition max_linear_velocity :: pyfloat where
  "max_linear_velocity = Fin 3"

definition max_angular_velocity :: pyfloat where
  \<comment> \<open>the double 1.2\<close>
  "max_angular_velocity = fl (12/10)"

record rc_gate =
  gt_timeout_sec :: pyfloat
  gt_deadzone :: pyfloat
  gt_recovery_frames :: int
  gt_last_frame_at :: "pyfloat option"
  gt_fresh_frame_count :: int
  gt_throttle :: stick_filter
  gt_steering :: stick_filter
  gt_active :: bool
  gt_last :: rc_command

definition rc_zero :: "string \<Rightarrow> rc_command" where
  "rc_zero reason = \<lparr>rc_linear = f_zero, rc_angular = f_zero, rc_active = False, rc_reason = reason\<rparr>"

definition new_rc_gate :: "pyfloat \<Rightarrow> pyfloat \<Rightarrow> pyval \<Rightarrow> (exc, rc_gate) res" where
  "new_rc_gate timeout_sec deadzone recovery_frames =
     ensure (\<not> (f_le timeout_sec f_zero \<or> \<not> (f_le f_zero deadzone \<and> f_lt deadzone (Fin 1))))
       (value_error ''timeout_sec and deadzone must be valid'')
     (case as_int recovery_frames of
        None \<Rightarrow> Inl (value_error ''recovery_frames must be a positive integer'')
      | Some n \<Rightarrow>
          ensure (0 < n) (value_error ''recovery_frames must be a positive integer'')
            (Inr \<lparr>gt_timeout_sec = timeout_sec, gt_deadzone = deadzone, gt_recovery_frames = n,
                  gt_last_frame_at = None, gt_fresh_frame_count = n,
                  gt_throttle = new_stick_filter deadzone, gt_steering = new_stick_filter deadzone,
                  gt_active = False, gt_last = rc_zero ''waiting_frame''\<rparr>))"

definition gate_fault :: "string \<Rightarrow> rc_gate \<Rightarrow> rc_command \<times> rc_gate" where
  "gate_fault reason g =
     (rc_zero reason,
      g\<lparr>gt_active := False, gt_fresh_frame_count := 0,
        gt_throttle := filter_reset True (gt_throttle g), gt_steering := filter_reset True (gt_steering g),
        gt_last := rc_zero reason\<rparr>)"

definition gate_accept :: "pyval list \<Rightarrow> pyfloat \<Rightarrow> rc_gate \<Rightarrow> rc_command \<times> rc_gate" where
  \<comment> \<open>the rest of \<^verbatim>\<open>observe\<close> for a frame of valid channels\<close>
  "gate_accept xs now g =
     (let fresh = min (gt_recovery_frames g) (gt_fresh_frame_count g + 1);
          throttle = filter_update (channel_value xs 2) now (gt_throttle g);
          steering = filter_update (channel_value xs 0) now (gt_steering g);
          active = (gt_recovery_frames g \<le> fresh);
          command = (if \<not> active then rc_zero ''recovering_frames''
                     else \<lparr>rc_linear = f_mul max_linear_velocity (fst throttle),
                           rc_angular = f_mul (f_neg max_angular_velocity) (fst steering),
                           rc_active = True, rc_reason = ''active''\<rparr>)
      in (command,
          g\<lparr>gt_last_frame_at := Some now, gt_fresh_frame_count := fresh, gt_throttle := snd throttle,
            gt_steering := snd steering, gt_active := active, gt_last := command\<rparr>))"

definition gate_observe :: "pyval \<Rightarrow> pyfloat \<Rightarrow> rc_gate \<Rightarrow> rc_command \<times> rc_gate" where
  "gate_observe channels now g =
     (case as_tuple channels of
        None \<Rightarrow> gate_fault ''invalid_channels'' g
      | Some xs \<Rightarrow>
          if length xs \<noteq> channel_count then gate_fault ''invalid_channels'' g
          else if \<not> list_all channel_ok xs then gate_fault ''channel_out_of_range'' g
          else gate_accept xs now g)"

definition gate_stale :: "pyfloat \<Rightarrow> rc_gate \<Rightarrow> bool" where
  "gate_stale now g =
     (case gt_last_frame_at g of
        None \<Rightarrow> False
      | Some before \<Rightarrow> f_le (f_sub (gt_timeout_sec g) (fl (1 / 10 ^ 12))) (f_sub now before))"

definition gate_decision :: "pyfloat \<Rightarrow> rc_gate \<Rightarrow> rc_command \<times> rc_gate" where
  "gate_decision now g =
     (if gt_last_frame_at g = None then (gt_last g, g)
      else if gate_stale now g then gate_fault ''frame_timeout'' g
      else (gt_last g, g))"

subsection \<open>Bounds in doubles\<close>

definition half_ulp :: rat where
  \<comment> \<open>half the distance from 1 to the next double\<close>
  "half_ulp = 1 / 2 ^ 53"

lemma fl_near_one:
  assumes "\<bar>q\<bar> \<le> 1 + half_ulp"
  shows "\<exists>r. fl q = Fin r \<and> \<bar>r\<bar> \<le> 1"
proof -
  have one: "round_to 53 (- 1022) (1 + half_ulp) = 1" by code_simp
  have "round_to 53 (- 1022) q \<le> round_to 53 (- 1022) (1 + half_ulp)"
    "round_to 53 (- 1022) (- (1 + half_ulp)) \<le> round_to 53 (- 1022) q"
    using assms by (auto intro!: round_to_mono simp del: minus_add_distrib)
  then have r: "\<bar>round_to 53 (- 1022) q\<bar> \<le> 1" unfolding round_to_minus one by (simp add: abs_le_iff)
  then have "fl q = Fin (round_to 53 (- 1022) q)" by (intro fl_in_range) simp
  with r show ?thesis by blast
qed

definition unit_range :: "pyfloat \<Rightarrow> bool" where
  "unit_range x \<longleftrightarrow> (\<exists>q. x = Fin q \<and> \<bar>q\<bar> \<le> 1)"

lemma normalize_stick_range: "unit_range (normalize_stick v d)"
proof -
  have "unit_range (f_max (Fin (- 1)) (f_min (Fin 1) x))" if "x \<noteq> NaN" for x
    using that by (cases x) (auto simp: unit_range_def f_max_def f_min_def)
  then show ?thesis by (auto simp: normalize_stick_def Let_def unit_range_def)
qed

lemma clamp_between:
  assumes "0 \<le> l \<or> limit = PosInf" and "limit = Fin l \<or> limit = PosInf"
  shows "\<exists>e. f_max (f_neg limit) (f_min limit (Fin d)) = Fin e \<and> (0 \<le> e \<and> e \<le> d \<or> d \<le> e \<and> e \<le> 0)"
  using assms by (auto simp: f_max_def f_min_def)

lemma rate_limit_sign:
  "\<exists>l. 0 \<le> l \<and> (f_mul (Fin 4) (f_max f_zero x) = Fin l \<or> f_mul (Fin 4) (f_max f_zero x) = PosInf)"
proof -
  have "\<exists>l. 0 \<le> l \<and> (fl q = Fin l \<or> fl q = PosInf)" if "0 \<le> q" for q
    using f_lt_fl_nonneg [OF that] f_le_fl_nonneg [OF that] by (cases "fl q") (auto simp: f_le_def)
  then show ?thesis by (cases x) (auto simp: f_max_def inf_of_sign_def)
qed

lemma sub_in_range:
  assumes "\<bar>a\<bar> \<le> 1" "\<bar>b\<bar> \<le> 1"
  shows "\<exists>d. f_sub (Fin a) (Fin b) = Fin d \<and> \<bar>d - (a - b)\<bar> \<le> half_ulp"
proof (cases "\<bar>a - b\<bar> = 2")
  case True
  then have "a - b = of_int 2 \<or> a - b = of_int (- 2)" by auto
  then have "fl (a - b) = Fin (a - b)" using fl_of_int [of 2] fl_of_int [of "- 2"] by auto
  then show ?thesis by (simp add: half_ulp_def)
next
  case False
  with assms have lt: "\<bar>a - b\<bar> < 2 powi 1" by auto
  from round_to_error [OF lt, of "- 1022" 53]
  have err: "\<bar>round_to 53 (- 1022) (a - b) - (a - b)\<bar> \<le> half_ulp"
    by (simp add: power_int_def half_ulp_def power_one_over)
  obtain r where "fl (a - b) = Fin r" by (rule fl_abs_le [of 2 "a - b"]) (use lt in \<open>auto simp: is_double_numeral_small\<close>)
  then have "fl (a - b) = Fin (round_to 53 (- 1022) (a - b))"
    by (auto simp: fl_def Let_def split: if_splits)
  with err show ?thesis by simp
qed

definition filter_inv :: "stick_filter \<Rightarrow> bool" where
  "filter_inv s \<longleftrightarrow> sf_max_rate_per_sec s = Fin 4 \<and> (\<forall>x. sf_output s = Some x \<longrightarrow> unit_range x)"

lemma limited_step_range:
  assumes out: "unit_range out" and target: "unit_range target"
  shows "unit_range (f_add out (f_max (f_neg (f_mul (Fin 4) (f_max f_zero x)))
    (f_min (f_mul (Fin 4) (f_max f_zero x)) (f_sub target out))))"
proof -
  let ?limit = "f_mul (Fin 4) (f_max f_zero x)"
  from out target obtain o' t where ot: "out = Fin o'" "\<bar>o'\<bar> \<le> 1" "target = Fin t" "\<bar>t\<bar> \<le> 1"
    by (auto simp: unit_range_def)
  from sub_in_range [OF ot(4,2)] obtain d where d: "f_sub target out = Fin d" "\<bar>d - (t - o')\<bar> \<le> half_ulp"
    using ot by auto
  from rate_limit_sign [of x] obtain l where "0 \<le> l" "?limit = Fin l \<or> ?limit = PosInf" by blast
  from clamp_between [of l ?limit d] this obtain e where
    e: "f_max (f_neg ?limit) (f_min ?limit (Fin d)) = Fin e" "0 \<le> e \<and> e \<le> d \<or> d \<le> e \<and> e \<le> 0" by blast
  have "0 \<le> half_ulp" by (simp add: half_ulp_def)
  then have "\<bar>o' + e\<bar> \<le> 1 + half_ulp" using e(2) d(2) ot(2,4) by linarith
  from fl_near_one [OF this] show ?thesis by (simp add: d(1) e(1)) (simp add: ot unit_range_def)
qed

lemma filter_update_inv:
  assumes "filter_inv s"
  shows "unit_range (fst (filter_update v now s)) \<and> filter_inv (snd (filter_update v now s))"
  using assms normalize_stick_range limited_step_range
  by (auto simp: filter_update_def Let_def filter_inv_def split: option.splits)

lemma filter_reset_inv: "filter_inv s \<Longrightarrow> filter_inv (filter_reset b s)"
  by (simp add: filter_inv_def filter_reset_def unit_range_def)

subsection \<open>Every command of the gate is safe\<close>

definition speed_in :: "pyfloat \<Rightarrow> pyfloat \<Rightarrow> bool" where
  \<comment> \<open>a finite number within the symmetric limit\<close>
  "speed_in limit x \<longleftrightarrow> f_isfinite x \<and> f_le (f_abs x) limit"

definition rc_safe :: "rc_command \<Rightarrow> bool" where
  "rc_safe c \<longleftrightarrow>
     (if rc_active c
      then speed_in max_linear_velocity (rc_linear c) \<and> speed_in max_angular_velocity (rc_angular c)
      else rc_linear c = f_zero \<and> rc_angular c = f_zero)"

definition gate_inv :: "rc_gate \<Rightarrow> bool" where
  "gate_inv g \<longleftrightarrow>
     filter_inv (gt_throttle g) \<and> filter_inv (gt_steering g) \<and> rc_safe (gt_last g)
     \<and> 0 < gt_recovery_frames g \<and> 0 \<le> gt_fresh_frame_count g \<and> gt_fresh_frame_count g \<le> gt_recovery_frames g
     \<and> (rc_active (gt_last g) \<longrightarrow> gt_fresh_frame_count g = gt_recovery_frames g)"

lemma rc_zero_safe [simp]: "rc_safe (rc_zero r)" "\<not> rc_active (rc_zero r)"
  by (simp_all add: rc_safe_def rc_zero_def)

lemma max_angular_value: "max_angular_velocity = Fin (5404319552844595 / 2 ^ 52)"
  by code_simp

lemma speed_in_product:
  assumes "is_double b" "0 \<le> b" "unit_range x"
  shows "speed_in (Fin b) (f_mul (Fin b) x)" "speed_in (Fin b) (f_mul (Fin (- b)) x)"
proof -
  from assms(3) obtain q where q: "x = Fin q" "\<bar>q\<bar> \<le> 1" by (auto simp: unit_range_def)
  have le: "\<bar>b * q\<bar> \<le> b" "\<bar>- b * q\<bar> \<le> b"
    using assms(2) q(2) mult_left_mono [of "\<bar>q\<bar>" 1 b] by (simp_all add: abs_mult)
  show "speed_in (Fin b) (f_mul (Fin b) x)"
    by (rule fl_abs_le [OF assms(1) le(1)]) (simp add: speed_in_def q)
  show "speed_in (Fin b) (f_mul (Fin (- b)) x)"
    by (rule fl_abs_le [OF assms(1) le(2)]) (simp add: speed_in_def q)
qed

lemma active_command_safe:
  assumes "unit_range t" "unit_range s"
  shows "speed_in max_linear_velocity (f_mul max_linear_velocity t)
    \<and> speed_in max_angular_velocity (f_mul (f_neg max_angular_velocity) s)"
proof -
  have "is_double (3 :: rat)" by (rule is_double_numeral_small) simp
  moreover have "is_double (5404319552844595 / 2 ^ 52 :: rat)"
    by (rule is_double_dyadic [of _ 5404319552844595 "- 52"]) (simp_all add: power_int_def power_one_over)
  ultimately have "is_double (3 :: rat)" "is_double (5404319552844595 / 2 ^ 52 :: rat)" by blast+
  with assms speed_in_product [of 3 t] speed_in_product [of "5404319552844595 / 2 ^ 52" s]
  show ?thesis by (simp add: max_linear_velocity_def max_angular_value)
qed

lemma gate_fault_inv: "gate_inv g \<Longrightarrow> gate_inv (snd (gate_fault r g)) \<and> rc_safe (fst (gate_fault r g))"
  by (simp add: gate_inv_def gate_fault_def filter_reset_inv)

lemma gate_observe_cases:
  obtains (fault) r where "gate_observe channels now g = gate_fault r g"
  | (valid) xs where "as_tuple channels = Some xs" "length xs = channel_count" "list_all channel_ok xs"
      "gate_observe channels now g = gate_accept xs now g"
proof (cases "as_tuple channels")
  case None
  then show thesis by (intro fault [of "''invalid_channels''"]) (simp add: gate_observe_def)
next
  case (Some xs)
  show thesis
  proof (cases "length xs = channel_count \<and> list_all channel_ok xs")
    case True
    with Some show thesis by (intro valid [of xs]) (simp_all add: gate_observe_def)
  next
    case False
    then show thesis
      by (intro fault [of "if length xs \<noteq> channel_count then ''invalid_channels'' else ''channel_out_of_range''"])
        (simp add: gate_observe_def Some)
  qed
qed

lemma gate_accept_fields:
  "gt_fresh_frame_count (snd (gate_accept xs now g)) = min (gt_recovery_frames g) (gt_fresh_frame_count g + 1)"
  "gt_recovery_frames (snd (gate_accept xs now g)) = gt_recovery_frames g"
  "gt_last (snd (gate_accept xs now g)) = fst (gate_accept xs now g)"
  "gt_throttle (snd (gate_accept xs now g)) = snd (filter_update (channel_value xs 2) now (gt_throttle g))"
  "gt_steering (snd (gate_accept xs now g)) = snd (filter_update (channel_value xs 0) now (gt_steering g))"
  "rc_active (fst (gate_accept xs now g)) \<longleftrightarrow> gt_recovery_frames g \<le> gt_fresh_frame_count g + 1"
  by (simp_all add: gate_accept_def Let_def rc_zero_def)

lemma gate_accept_safe:
  assumes "filter_inv (gt_throttle g)" "filter_inv (gt_steering g)"
  shows "rc_safe (fst (gate_accept xs now g))"
  using active_command_safe [OF filter_update_inv [OF assms(1), THEN conjunct1] filter_update_inv [OF assms(2), THEN conjunct1]]
  by (simp add: gate_accept_def Let_def) (simp add: rc_safe_def)

lemma gate_observe_inv:
  assumes inv: "gate_inv g"
  shows "gate_inv (snd (gate_observe channels now g)) \<and> rc_safe (fst (gate_observe channels now g))"
proof (cases rule: gate_observe_cases [of channels now g])
  case (fault r)
  with gate_fault_inv [OF inv] show ?thesis by simp
next
  case (valid xs)
  from inv have fi: "filter_inv (gt_throttle g)" "filter_inv (gt_steering g)" by (simp_all add: gate_inv_def)
  note upd = filter_update_inv [OF fi(1), of "channel_value xs 2" now] filter_update_inv [OF fi(2), of "channel_value xs 0" now]
  from valid(4) inv upd gate_accept_safe [OF fi, of xs now] show ?thesis
    by (simp add: gate_inv_def gate_accept_fields)
qed

lemma gate_decision_inv:
  "gate_inv g \<Longrightarrow> gate_inv (snd (gate_decision now g)) \<and> rc_safe (fst (gate_decision now g))"
  by (auto simp: gate_decision_def gate_fault_inv) (simp_all add: gate_inv_def)

datatype gate_call = GObserve pyval pyfloat | GDecision pyfloat | GFault string

fun gate_do :: "gate_call \<Rightarrow> rc_gate \<Rightarrow> rc_command \<times> rc_gate" where
  "gate_do (GObserve channels now) g = gate_observe channels now g"
| "gate_do (GDecision now) g = gate_decision now g"
| "gate_do (GFault reason) g = gate_fault reason g"

fun gate_run :: "gate_call list \<Rightarrow> rc_gate \<Rightarrow> rc_command list \<times> rc_gate" where
  "gate_run [] g = ([], g)"
| "gate_run (c # cs) g =
     (let (r, g') = gate_do c g; (rs, g'') = gate_run cs g' in (r # rs, g''))"

lemma gate_do_inv: "gate_inv g \<Longrightarrow> gate_inv (snd (gate_do c g)) \<and> rc_safe (fst (gate_do c g))"
  by (cases c) (simp_all add: gate_observe_inv gate_decision_inv gate_fault_inv)

lemma gate_run_inv: "gate_run cs g = (rs, g') \<Longrightarrow> gate_inv g \<Longrightarrow> gate_inv g' \<and> list_all rc_safe rs"
proof (induction cs arbitrary: g rs)
  case (Cons c cs)
  obtain r g1 where one: "gate_do c g = (r, g1)" by fastforce
  obtain qs where rest: "gate_run cs g1 = (qs, g')" "rs = r # qs"
    using Cons.prems(1) one by (auto split: prod.splits)
  from gate_do_inv [OF Cons.prems(2), of c] one Cons.IH [OF rest(1)] rest(2) show ?case by simp
qed simp

lemma new_rc_gate_inv: "new_rc_gate t d n = Inr g \<Longrightarrow> gate_inv g"
  by (auto simp: new_rc_gate_def gate_inv_def filter_inv_def new_stick_filter_def res_simps split: option.splits)

text \<open>
  No sequence of channel frames (of any shape and values), queries and faults, at whatever times
  (infinite and NaN included), makes the remote-control gate emit an unsafe command: every command is
  either active with finite speeds within 3.0 m/s and 1.2 rad/s, in double arithmetic with the
  rate-limited filter's rounding, or inactive and exactly zero.
\<close>

theorem rc_gate_commands_safe:
  assumes "new_rc_gate timeout deadzone recovery = Inr g0" and "gate_run cs g0 = (commands, g)"
  shows "list_all rc_safe commands"
  using gate_run_inv [OF assms(2) new_rc_gate_inv [OF assms(1)]] by simp

fun observations :: "gate_call list \<Rightarrow> int" where
  "observations [] = 0"
| "observations (GObserve _ _ # cs) = 1 + observations cs"
| "observations (_ # cs) = observations cs"

lemma observations_nonneg: "0 \<le> observations cs"
  by (induction cs rule: observations.induct) auto

lemma gate_do_fresh:
  assumes inv: "gate_inv g" and quiet: "\<not> rc_active (gt_last g)"
    and few: "gt_fresh_frame_count g + observations [c] < gt_recovery_frames g"
  shows "\<not> rc_active (fst (gate_do c g)) \<and> \<not> rc_active (gt_last (snd (gate_do c g)))
    \<and> gt_fresh_frame_count (snd (gate_do c g)) \<le> gt_fresh_frame_count g + observations [c]
    \<and> gt_recovery_frames (snd (gate_do c g)) = gt_recovery_frames g"
proof -
  have faulted: ?thesis if "gate_do c g = gate_fault r g" for r
    using that inv observations_nonneg [of "[c]"] by (simp add: gate_fault_def gate_inv_def)
  show ?thesis
  proof (cases c)
    case (GObserve channels now)
    show ?thesis
    proof (cases rule: gate_observe_cases [of channels now g])
      case (fault r)
      with GObserve have "gate_do c g = gate_fault r g" by simp
      then show ?thesis by (rule faulted)
    next
      case (valid xs)
      with GObserve few show ?thesis by (simp add: gate_accept_fields)
    qed
  next
    case (GDecision now)
    have "gate_decision now g = gate_fault ''frame_timeout'' g \<or> gate_decision now g = (gt_last g, g)"
      by (auto simp: gate_decision_def)
    with faulted [of "''frame_timeout''"] GDecision quiet show ?thesis by auto
  next
    case (GFault r)
    with faulted show ?thesis by simp
  qed
qed

lemma gate_run_recovering:
  "gate_run cs g = (rs, g') \<Longrightarrow> gate_inv g \<Longrightarrow> \<not> rc_active (gt_last g) \<Longrightarrow>
     gt_fresh_frame_count g + observations cs < gt_recovery_frames g \<Longrightarrow> list_all (\<lambda>c. \<not> rc_active c) rs"
proof (induction cs arbitrary: g rs)
  case (Cons c cs)
  obtain r g1 where one: "gate_do c g = (r, g1)" by fastforce
  obtain qs where rest: "gate_run cs g1 = (qs, g')" "rs = r # qs"
    using Cons.prems(1) one by (auto split: prod.splits)
  have obs: "observations (c # cs) = observations [c] + observations cs" by (cases c) simp_all
  have few: "gt_fresh_frame_count g + observations [c] < gt_recovery_frames g"
    using Cons.prems(4) obs observations_nonneg [of cs] by simp
  from gate_do_fresh [OF Cons.prems(2,3) few] one
  have step: "\<not> rc_active r" "\<not> rc_active (gt_last g1)"
    "gt_fresh_frame_count g1 \<le> gt_fresh_frame_count g + observations [c]"
    "gt_recovery_frames g1 = gt_recovery_frames g" by simp_all
  have "gate_inv g1" using gate_do_inv [OF Cons.prems(2), of c] one by simp
  from Cons.IH [OF rest(1) this step(2)] step Cons.prems(4) obs rest(2) show ?case by simp
qed simp

text \<open>
  C22. After a fault the gate stays safe until the link has recovered: from the moment any fault is
  reported (or the frame timeout fires), whatever calls follow, no command is active, that is every
  command is exactly zero, until at least the configured number of frames has been observed again.
\<close>

theorem rc_gate_recovery:
  assumes "gate_inv g"
    and "g1 = snd (gate_fault reason g) \<or> (g1 = snd (gate_decision now g) \<and> gate_stale now g)"
    and "gate_run cs g1 = (commands, g')" and "observations cs < gt_recovery_frames g"
  shows "list_all (\<lambda>c. \<not> rc_active c \<and> rc_linear c = f_zero \<and> rc_angular c = f_zero) commands"
proof -
  have "gate_stale now g \<Longrightarrow> gate_decision now g = gate_fault ''frame_timeout'' g"
    by (auto simp: gate_decision_def gate_stale_def)
  with assms(2) obtain r where g1: "g1 = snd (gate_fault r g)" by auto
  have "gate_inv g1" using gate_fault_inv [OF assms(1)] g1 by simp
  moreover have "\<not> rc_active (gt_last g1)" "gt_fresh_frame_count g1 = 0"
    "gt_recovery_frames g1 = gt_recovery_frames g" by (simp_all add: g1 gate_fault_def)
  ultimately have "list_all (\<lambda>c. \<not> rc_active c) commands" "list_all rc_safe commands"
    using gate_run_recovering [OF assms(3)] gate_run_inv [OF assms(3)] assms(4) by simp_all
  then show ?thesis by (auto simp: list_all_iff rc_safe_def)
qed

definition example_gate :: rc_gate where
  "example_gate = \<lparr>gt_timeout_sec = fl (2/10), gt_deadzone = fl (5/100), gt_recovery_frames = 3,
     gt_last_frame_at = None, gt_fresh_frame_count = 3, gt_throttle = new_stick_filter (fl (5/100)),
     gt_steering = new_stick_filter (fl (5/100)), gt_active = False, gt_last = rc_zero ''waiting_frame''\<rparr>"

lemma example_gate_new: "new_rc_gate (fl (2/10)) (fl (5/100)) (PInt 3) = Inr example_gate"
  by code_simp

definition full_speed :: pyval where
  "full_speed = PTuple (replicate 16 (PInt 1722))"

theorem rc_gate_commands_safe_witness:
  "list_all rc_safe (fst (gate_run [GObserve full_speed (Fin 1), GFault ''parser_desynchronized'',
     GObserve full_speed (Fin 2)] example_gate))"
  by (rule rc_gate_commands_safe [OF example_gate_new surjective_pairing])

theorem rc_gate_recovery_witness:
  "list_all (\<lambda>c. \<not> rc_active c \<and> rc_linear c = f_zero \<and> rc_angular c = f_zero)
     (fst (gate_run [GObserve full_speed (Fin 2), GObserve full_speed PosInf] (snd (gate_fault ''x'' example_gate))))"
proof (rule rc_gate_recovery [OF new_rc_gate_inv [OF example_gate_new] disjI1 [OF refl] surjective_pairing])
  show "observations [GObserve full_speed (Fin 2), GObserve full_speed PosInf] < gt_recovery_frames example_gate"
    by (simp add: example_gate_def)
qed

subsection \<open>Serial worker\<close>

fun exception_name :: "exc_kind \<Rightarrow> string" where
  \<comment> \<open>\<^verbatim>\<open>type(error).__name__\<close>\<close>
  "exception_name ValueErr = ''ValueError''"
| "exception_name TypeErr = ''TypeError''"
| "exception_name OverflowErr = ''OverflowError''"
| "exception_name RuntimeErr = ''RuntimeError''"
| "exception_name KeyErr = ''KeyError''"
| "exception_name OSErr = ''OSError''"
| "exception_name TimeoutErr = ''TimeoutError''"
| "exception_name ZeroDivisionErr = ''ZeroDivisionError''"
| "exception_name AttributeErr = ''AttributeError''"
| "exception_name StopIterationErr = ''StopIteration''"
| "exception_name ProtocolConflictErr = ''ProtocolConflictError''"
| "exception_name ModelMismatchErr = ''WheelCommandModelMismatchError''"
| "exception_name MechanicalLimitErr = ''WheelCommandMechanicalLimitError''"
| "exception_name (OtherErr n) = n"

record rc_worker =
  wk_parser :: sbus_parser
  wk_gate :: rc_gate
  wk_frame_times :: "pyfloat list"
  wk_last_frame_at :: "pyfloat option"
  wk_last_channels :: "int list option"
  wk_last_command :: rc_command
  wk_failure_reason :: "msg option"
  wk_watchdog_timeout_count :: int
  wk_stopped :: bool

definition default_gate :: rc_gate where
  \<comment> \<open>\<^verbatim>\<open>RcCommandGate()\<close>\<close>
  "default_gate = \<lparr>gt_timeout_sec = fl (2/10), gt_deadzone = fl (5/100), gt_recovery_frames = 3,
     gt_last_frame_at = None, gt_fresh_frame_count = 3, gt_throttle = new_stick_filter (fl (5/100)),
     gt_steering = new_stick_filter (fl (5/100)), gt_active = False, gt_last = rc_zero ''waiting_frame''\<rparr>"

definition new_rc_worker :: rc_worker where
  "new_rc_worker =
     (let (command, gate) = gate_decision (Fin 0) default_gate
      in \<lparr>wk_parser = new_sbus_parser, wk_gate = gate, wk_frame_times = [], wk_last_frame_at = None,
          wk_last_channels = None, wk_last_command = command, wk_failure_reason = None,
          wk_watchdog_timeout_count = 0, wk_stopped = False\<rparr>)"

definition submit_fault :: "string \<Rightarrow> exc \<Rightarrow> bool \<Rightarrow> rc_worker \<Rightarrow> rc_command \<times> rc_command list \<times> rc_worker" where
  \<comment> \<open>the command returned, and what the sink was given (its exceptions are swallowed)\<close>
  "submit_fault reason error send w =
     (case gate_fault reason (wk_gate w) of
        (command, gate) \<Rightarrow>
          (command, if send then [command] else [],
           w\<lparr>wk_gate := gate, wk_last_command := command,
             wk_failure_reason := Some (Lit (reason @ '': '' @ exception_name (exc_kind error) @ '': '') # exc_msg error)\<rparr>))"

fun observe_frames :: "int list list \<Rightarrow> pyfloat \<Rightarrow> rc_command \<Rightarrow> rc_gate \<Rightarrow> rc_command \<times> rc_gate" where
  \<comment> \<open>the loop over the frames of one read; the last command counts\<close>
  "observe_frames [] now command g = (command, g)"
| "observe_frames (f # fs) now command g =
     (case gate_observe (PTuple (map PInt f)) now g of (c, g') \<Rightarrow> observe_frames fs now c g')"

definition worker_step ::
  "int list list \<Rightarrow> bool \<Rightarrow> pyfloat \<Rightarrow> rc_worker \<Rightarrow> rc_command \<times> rc_worker" where
  \<comment> \<open>under the lock, once the bytes are parsed\<close>
  "worker_step frames discarded_any now w =
     (let (command, gate) =
            (if frames \<noteq> [] then observe_frames frames now (wk_last_command w) (wk_gate w)
             else if discarded_any then gate_fault ''parser_desynchronized'' (wk_gate w)
             else gate_decision now (wk_gate w));
          times = wk_frame_times w @ replicate (length frames) now
      in (command,
          w\<lparr>wk_gate := gate,
            wk_last_channels := (if frames \<noteq> [] then Some (last frames) else wk_last_channels w),
            wk_last_frame_at := (if frames \<noteq> [] then Some now else wk_last_frame_at w),
            wk_frame_times := dropWhile (\<lambda>t. f_lt t (f_sub now (Fin 2))) times,
            wk_failure_reason :=
              (if frames = [] \<and> discarded_any then Some (lit (rc_reason command))
               else if rc_active command then None else Some (lit (rc_reason command))),
            wk_watchdog_timeout_count :=
              (if rc_reason command = ''frame_timeout'' \<and> rc_reason (wk_last_command w) \<noteq> ''frame_timeout''
               then wk_watchdog_timeout_count w + 1 else wk_watchdog_timeout_count w),
            wk_last_command := command\<rparr>))"

definition process_once ::
  "pyfloat \<Rightarrow> (exc, pyval) res \<Rightarrow> (exc, unit) res \<Rightarrow> rc_worker \<Rightarrow> rc_command \<times> rc_command list \<times> rc_worker" where
  \<comment> \<open>\<open>reading\<close> is what \<^verbatim>\<open>read(256)\<close> did, \<open>sinking\<close> what the sink did with the command\<close>
  "process_once now reading sinking w =
     (case reading of
        Inl e \<Rightarrow> submit_fault ''serial_read_failed'' e True w
      | Inr payload \<Rightarrow>
          (case sbus_feed payload (wk_parser w) of
             (Inl e, p) \<Rightarrow> submit_fault ''serial_payload_invalid'' e True (w\<lparr>wk_parser := p\<rparr>)
           | (Inr frames, p) \<Rightarrow>
               (case worker_step frames
                       (sp_discarded_frame_count p \<noteq> sp_discarded_frame_count (wk_parser w)) now
                       (w\<lparr>wk_parser := p\<rparr>) of
                  (command, w') \<Rightarrow>
                    (case sinking of
                       Inr _ \<Rightarrow> (command, [command], w')
                     | Inl e \<Rightarrow>
                         (case submit_fault ''ipc_interrupted'' e False w' of
                            (c, sunk, w'') \<Rightarrow> (c, command # sunk, w''))))))"

definition worker_close :: "rc_worker \<Rightarrow> rc_command list \<times> rc_worker" where
  "worker_close w =
     (if wk_stopped w then ([], w)
      else case submit_fault ''worker_closed'' (runtime_error ''serial RC worker closed'') True
                  (w\<lparr>wk_stopped := True\<rparr>) of
             (command, sunk, w') \<Rightarrow> (sunk, w'))"

record rc_worker_snapshot =
  wn_actual_hz :: "pyfloat option"
  wn_last_frame_age_sec :: "pyfloat option"
  wn_last_channels :: "int list option"
  wn_command :: rc_command
  wn_failure_reason :: "msg option"
  wn_watchdog_timeout_count :: int

definition worker_snapshot :: "pyfloat \<Rightarrow> rc_worker \<Rightarrow> rc_worker_snapshot" where
  "worker_snapshot now w =
     (let events = filter (\<lambda>t. f_le (f_sub now (Fin 2)) t) (wk_frame_times w)
      in \<lparr>wn_actual_hz =
            (if 3 \<le> length events \<and> f_lt (hd events) (last events)
             then Some (f_quot (Fin (of_nat (length events - 1))) (f_sub (last events) (hd events)))
             else None),
          wn_last_frame_age_sec = map_option (\<lambda>t. f_max f_zero (f_sub now t)) (wk_last_frame_at w),
          wn_last_channels = wk_last_channels w, wn_command = wk_last_command w,
          wn_failure_reason = wk_failure_reason w,
          wn_watchdog_timeout_count = wk_watchdog_timeout_count w\<rparr>)"

datatype worker_event = WRead pyfloat "(exc, pyval) res" "(exc, unit) res" | WClose

fun worker_run :: "worker_event list \<Rightarrow> rc_worker \<Rightarrow> rc_command list \<times> rc_worker" where
  \<comment> \<open>every command handed to the sink\<close>
  "worker_run [] w = ([], w)"
| "worker_run (WRead now reading sinking # es) w =
     (case process_once now reading sinking w of
        (c, sunk, w') \<Rightarrow> (let (rest, w'') = worker_run es w' in (sunk @ rest, w'')))"
| "worker_run (WClose # es) w =
     (case worker_close w of
        (sunk, w') \<Rightarrow> (let (rest, w'') = worker_run es w' in (sunk @ rest, w'')))"

definition worker_inv :: "rc_worker \<Rightarrow> bool" where
  "worker_inv w \<longleftrightarrow> gate_inv (wk_gate w) \<and> rc_safe (wk_last_command w)"

lemma default_gate_inv: "gate_inv default_gate"
  by (simp add: default_gate_def gate_inv_def filter_inv_def new_stick_filter_def)

lemma new_rc_worker_inv: "worker_inv new_rc_worker"
  using gate_decision_inv [OF default_gate_inv, of "Fin 0"]
  by (simp add: new_rc_worker_def worker_inv_def case_prod_beta)

lemma observe_frames_inv:
  "gate_inv g \<Longrightarrow> rc_safe c \<Longrightarrow> gate_inv (snd (observe_frames fs now c g)) \<and> rc_safe (fst (observe_frames fs now c g))"
proof (induction fs arbitrary: c g)
  case (Cons f fs)
  with gate_observe_inv [of g "PTuple (map PInt f)" now] show ?case by (simp add: case_prod_beta)
qed simp

lemma submit_fault_inv:
  "worker_inv w \<Longrightarrow> submit_fault r e send w = (c, sunk, w') \<Longrightarrow> worker_inv w' \<and> list_all rc_safe sunk"
  using gate_fault_inv [of "wk_gate w" r] by (auto simp: submit_fault_def worker_inv_def split: prod.splits)

lemma worker_step_inv:
  assumes inv: "worker_inv w"
  shows "worker_inv (snd (worker_step fs d now w)) \<and> rc_safe (fst (worker_step fs d now w))"
proof -
  let ?r = "if fs \<noteq> [] then observe_frames fs now (wk_last_command w) (wk_gate w)
     else if d then gate_fault ''parser_desynchronized'' (wk_gate w) else gate_decision now (wk_gate w)"
  have "gate_inv (snd ?r) \<and> rc_safe (fst ?r)"
    using inv observe_frames_inv gate_fault_inv gate_decision_inv by (simp add: worker_inv_def)
  then show ?thesis by (simp add: worker_step_def worker_inv_def case_prod_beta)
qed

lemma process_once_inv:
  assumes inv: "worker_inv w" and run: "process_once now reading sinking w = (c, sunk, w')"
  shows "worker_inv w' \<and> list_all rc_safe sunk"
proof -
  have inv': "worker_inv (w\<lparr>wk_parser := p\<rparr>)" for p using inv by (simp add: worker_inv_def)
  show ?thesis
  proof (cases reading)
    case (Inl e)
    with run inv show ?thesis by (simp add: process_once_def submit_fault_inv)
  next
    case (Inr payload)
    obtain r p where feed: "sbus_feed payload (wk_parser w) = (r, p)" by fastforce
    show ?thesis
    proof (cases r)
      case (Inl e)
      with run Inr feed submit_fault_inv [OF inv'] show ?thesis by (simp add: process_once_def)
    next
      case frames: (Inr frames)
      obtain command w1 where ws: "worker_step frames
          (sp_discarded_frame_count p \<noteq> sp_discarded_frame_count (wk_parser w)) now (w\<lparr>wk_parser := p\<rparr>) = (command, w1)"
        by fastforce
      with worker_step_inv [OF inv'] have one: "worker_inv w1" "rc_safe command" by (metis snd_conv, metis fst_conv)
      show ?thesis
      proof (cases sinking)
        case (Inr u)
        with run \<open>reading = Inr payload\<close> feed frames ws one show ?thesis by (auto simp: process_once_def)
      next
        case (Inl e)
        obtain c2 sunk2 w2 where f: "submit_fault ''ipc_interrupted'' e False w1 = (c2, sunk2, w2)" by (metis prod_cases3)
        from submit_fault_inv [OF one(1) f] run \<open>reading = Inr payload\<close> feed frames ws f Inl one(2)
        show ?thesis by (auto simp: process_once_def)
      qed
    qed
  qed
qed

lemma worker_close_inv:
  "worker_inv w \<Longrightarrow> worker_close w = (sunk, w') \<Longrightarrow> worker_inv w' \<and> list_all rc_safe sunk"
  using submit_fault_inv [of "w\<lparr>wk_stopped := True\<rparr>"]
  by (fastforce simp: worker_close_def worker_inv_def split: if_splits prod.splits)

lemma worker_run_inv:
  "worker_inv w \<Longrightarrow> worker_inv (snd (worker_run es w)) \<and> list_all rc_safe (fst (worker_run es w))"
proof (induction es arbitrary: w)
  case (Cons ev es)
  show ?case
  proof (cases ev)
    case (WRead now reading sinking)
    obtain c sunk w1 where step: "process_once now reading sinking w = (c, sunk, w1)" by (metis prod_cases3)
    from process_once_inv [OF Cons.prems step] Cons.IH [of w1] WRead step
    show ?thesis by (simp add: Let_def case_prod_beta)
  next
    case WClose
    obtain sunk w1 where step: "worker_close w = (sunk, w1)" by fastforce
    from worker_close_inv [OF Cons.prems step] Cons.IH [of w1] WClose step
    show ?thesis by (simp add: Let_def case_prod_beta)
  qed
qed simp

text \<open>
  C23. The serial worker only ever hands safe commands to the vehicle: whatever bytes, partial
  frames, desynchronised streams, read errors and sink errors a run of the worker meets, and wherever
  it is closed, every command given to the sink is within the vehicle's limits when active and
  exactly zero otherwise, and the last command it reports is such a command.
\<close>

theorem rc_worker_sinks_safe:
  "list_all rc_safe (fst (worker_run es new_rc_worker))
   \<and> rc_safe (wn_command (worker_snapshot now (snd (worker_run es new_rc_worker))))"
  using worker_run_inv [OF new_rc_worker_inv, of es]
  by (simp add: worker_snapshot_def worker_inv_def Let_def)

end
