(* ===== verification/CommandArbiter.thy ===== *)
theory CommandArbiter
  imports RcControl
begin

text \<open>
  \<^verbatim>\<open>CommandSourceArbiter\<close> of \<^verbatim>\<open>slope_sim/serial_rc.py\<close>: keyboard, remote control and an external
  source compete for one command socket.  An operation takes the outcome its sends would have (the
  client is an argument: \<open>Inl e\<close> when it raises) and returns its result, the arbiter, and through the
  ghost field \<open>ar_log\<close> every target it asked the client to send, with the source active at that moment.
\<close>

subsection \<open>State and operations\<close>

type_synonym target = "pyfloat \<times> pyfloat"

abbreviation zero_target :: target where
  "zero_target \<equiv> (f_zero, f_zero)"

definition command_sources :: "string list" where
  "command_sources = [''keyboard'', ''rc'', ''external'']"

definition recoverable_rc_reasons :: "string list" where
  "recoverable_rc_reasons = [''waiting_frame'', ''recovering_frames'', ''frame_timeout'']"

record arbiter =
  ar_active_source :: "string option"
  ar_failure_reason :: "string option"
  ar_latest_target :: target
  ar_mailbox_update_count :: int
  ar_command_send_count :: int
  ar_renewal_count :: int
  ar_last_renewal_at :: "pyfloat option"
  ar_max_renewal_gap_sec :: "pyfloat option"
  ar_zero_reason :: "string option"
  ar_renewal_hz :: "pyfloat option"
  ar_renewal_period_sec :: "pyfloat option"
  ar_renewal_stop :: bool
  ar_log :: "(target \<times> string option) list"

fun renewal_rate :: "pyval \<Rightarrow> (exc, pyfloat option) res" where
  "renewal_rate PNone = Inr None"
| "renewal_rate (PInt n) =
     (if n \<le> 0 then Inl (value_error ''renewal_hz must be positive or None'')
      else case py_float (PInt n) of Inl e \<Rightarrow> Inl e | Inr x \<Rightarrow> Inr (Some x))"
| "renewal_rate (PFloat x) =
     (if f_le x f_zero then Inl (value_error ''renewal_hz must be positive or None'') else Inr (Some x))"
| "renewal_rate v = Inl (value_error ''renewal_hz must be positive or None'')"

definition new_arbiter :: "pyval \<Rightarrow> (exc, arbiter) res" where
  \<comment> \<open>with a client that can send and a clock that can be called\<close>
  "new_arbiter renewal_hz =
     bind_res (renewal_rate renewal_hz)
       (\<lambda>hz. Inr \<lparr>ar_active_source = None, ar_failure_reason = None, ar_latest_target = zero_target,
            ar_mailbox_update_count = 0, ar_command_send_count = 0, ar_renewal_count = 0,
            ar_last_renewal_at = None, ar_max_renewal_gap_sec = None, ar_zero_reason = None,
            ar_renewal_hz = hz, ar_renewal_period_sec = map_option (f_quot (Fin 1)) hz,
            ar_renewal_stop = False, ar_log = []\<rparr>)"

type_synonym send_outcome = "(exc, unit) res"

definition ar_send_target :: "target \<Rightarrow> send_outcome \<Rightarrow> (exc, arbiter, unit) op" where
  "ar_send_target t outcome s =
     (let s = s\<lparr>ar_log := ar_log s @ [(t, ar_active_source s)]\<rparr>
      in case outcome of
           Inr u \<Rightarrow> (Inr (), s\<lparr>ar_command_send_count := ar_command_send_count s + 1\<rparr>)
         | Inl e \<Rightarrow> (Inl e, s\<lparr>ar_active_source := None, ar_failure_reason := Some ''ipc_interrupted''\<rparr>))"

definition ar_send_zero :: "send_outcome \<Rightarrow> (exc, arbiter, unit) op" where
  "ar_send_zero outcome s = ar_send_target zero_target outcome (s\<lparr>ar_latest_target := zero_target\<rparr>)"

definition ar_revoke :: "string \<Rightarrow> send_outcome \<Rightarrow> (exc, arbiter, unit) op" where
  \<comment> \<open>the \<^verbatim>\<open>finally\<close> block runs whether or not the zero command was sent\<close>
  "ar_revoke reason outcome s =
     (case ar_send_zero outcome (s\<lparr>ar_zero_reason := Some reason\<rparr>) of
        (r, s') \<Rightarrow> (r, s'\<lparr>ar_active_source := None, ar_failure_reason := Some reason\<rparr>))"

definition ar_publish_or_store :: "target \<Rightarrow> send_outcome \<Rightarrow> (exc, arbiter, unit) op" where
  "ar_publish_or_store t outcome s =
     (let s = s\<lparr>ar_latest_target := t, ar_mailbox_update_count := ar_mailbox_update_count s + 1,
               ar_zero_reason := None\<rparr>
      in if ar_renewal_period_sec s = None then ar_send_target t outcome s else (Inr (), s))"

definition source_name :: "string option \<Rightarrow> string" where
  \<comment> \<open>\<^verbatim>\<open>source or "none"\<close>\<close>
  "source_name s = (case s of Some n \<Rightarrow> if n = [] then ''none'' else n | None \<Rightarrow> ''none'')"

definition select_source :: "string \<Rightarrow> send_outcome \<Rightarrow> (exc, arbiter, unit) op" where
  "select_source source outcome s =
     (if source \<notin> set command_sources
      then (Inl (value_error (''unsupported command source: '' @ source)), s)
      else case ar_send_zero outcome
                  (s\<lparr>ar_zero_reason := Some (''source_switch:'' @ source_name (ar_active_source s) @ ''->'' @ source)\<rparr>) of
             (Inl e, s') \<Rightarrow> (Inl e, s')
           | (Inr u, s') \<Rightarrow> (Inr (), s'\<lparr>ar_active_source := Some source, ar_failure_reason := None\<rparr>))"

definition ar_submit :: "string \<Rightarrow> target \<Rightarrow> send_outcome \<Rightarrow> (exc, arbiter, bool) op" where
  "ar_submit source t outcome s =
     (if ar_active_source s \<noteq> Some source then (Inr False, s)
      else case ar_publish_or_store t outcome s of
             (Inl e, s') \<Rightarrow> (Inl e, s')
           | (Inr u, s') \<Rightarrow> (Inr True, s'))"

definition submit_keyboard :: "target \<Rightarrow> send_outcome \<Rightarrow> (exc, arbiter, bool) op" where
  "submit_keyboard = ar_submit ''keyboard''"

definition submit_external :: "target \<Rightarrow> send_outcome \<Rightarrow> (exc, arbiter, bool) op" where
  "submit_external = ar_submit ''external''"

definition ar_pause_rc :: "string \<Rightarrow> send_outcome \<Rightarrow> (exc, arbiter, unit) op" where
  \<comment> \<open>the branch of \<^verbatim>\<open>submit_rc\<close> for a soft timeout\<close>
  "ar_pause_rc reason outcome s =
     (case (if ar_failure_reason s \<noteq> Some reason
            then ar_send_zero outcome (s\<lparr>ar_zero_reason := Some reason\<rparr>)
            else (Inr (), s\<lparr>ar_latest_target := zero_target\<rparr>)) of
        (Inl e, s') \<Rightarrow> (Inl e, s')
      | (Inr u, s') \<Rightarrow> (Inr (), s'\<lparr>ar_failure_reason := Some reason\<rparr>))"

definition submit_rc :: "rc_command inst \<Rightarrow> send_outcome \<Rightarrow> (exc, arbiter, bool) op" where
  "submit_rc arg outcome s =
     (case arg of
        Foreign \<Rightarrow> (Inl (value_error ''command must be an RcCommand''), s)
      | Instance command \<Rightarrow>
          if ar_active_source s \<noteq> Some ''rc'' then (Inr False, s)
          else if \<not> rc_active command then
            (case (if rc_reason command \<in> set recoverable_rc_reasons
                   then ar_pause_rc (rc_reason command) outcome s
                   else ar_revoke (rc_reason command) outcome s) of
               (Inl e, s') \<Rightarrow> (Inl e, s')
             | (Inr u, s') \<Rightarrow> (Inr False, s'))
          else
            (case ar_publish_or_store (rc_linear command, rc_angular command) outcome s of
               (Inl e, s') \<Rightarrow> (Inl e, s')
             | (Inr u, s') \<Rightarrow> (Inr True, s'\<lparr>ar_failure_reason := None\<rparr>)))"

definition ar_submit_fault :: "string \<Rightarrow> send_outcome \<Rightarrow> (exc, arbiter, unit) op" where
  "ar_submit_fault reason outcome s =
     (if reason = [] then (Inl (value_error ''reason must be non-empty''), s) else ar_revoke reason outcome s)"

definition renewal_gap :: "pyfloat \<Rightarrow> arbiter \<Rightarrow> pyfloat option" where
  "renewal_gap now s =
     (case ar_last_renewal_at s of
        None \<Rightarrow> ar_max_renewal_gap_sec s
      | Some t \<Rightarrow>
          (let gap = f_max f_zero (f_sub now t)
           in Some (case ar_max_renewal_gap_sec s of None \<Rightarrow> gap | Some m \<Rightarrow> f_max m gap)))"

definition renew_once :: "pyfloat \<Rightarrow> send_outcome \<Rightarrow> (exc, arbiter, unit) op" where
  "renew_once now outcome s =
     (if ar_renewal_period_sec s = None then (Inr (), s)
      else case ar_send_target (ar_latest_target s) outcome s of
             (Inl e, s') \<Rightarrow> (Inl e, s')
           | (Inr u, s') \<Rightarrow>
               (Inr (), s'\<lparr>ar_max_renewal_gap_sec := renewal_gap now s', ar_last_renewal_at := Some now,
                          ar_renewal_count := ar_renewal_count s' + 1\<rparr>))"

definition renewer_tick :: "pyfloat \<Rightarrow> send_outcome \<Rightarrow> arbiter \<Rightarrow> arbiter" where
  \<comment> \<open>one round of \<^verbatim>\<open>_run_renewer\<close> once its wait is over: an exception ends the thread\<close>
  "renewer_tick now outcome s =
     (if ar_renewal_stop s then s
      else case renew_once now outcome s of
             (Inl e, s') \<Rightarrow> s'\<lparr>ar_renewal_stop := True\<rparr>
           | (Inr u, s') \<Rightarrow> s')"

definition renewer_next_deadline :: "pyfloat \<Rightarrow> pyfloat \<Rightarrow> pyfloat \<Rightarrow> pyfloat" where
  \<comment> \<open>late by a whole period: the schedule restarts from now\<close>
  "renewer_next_deadline period now deadline =
     (let d = f_add deadline period in if f_le d now then f_add now period else d)"

definition ar_close :: "send_outcome \<Rightarrow> (exc, arbiter, unit) op" where
  "ar_close outcome s =
     (if ar_renewal_stop s then (Inr (), s)
      else case ar_send_zero outcome (s\<lparr>ar_renewal_stop := True, ar_zero_reason := Some ''closed''\<rparr>) of
             (Inl e, s') \<Rightarrow> (Inl e, s')
           | (Inr u, s') \<Rightarrow> (Inr (), s'\<lparr>ar_active_source := None\<rparr>))"

record source_snapshot =
  sn_active_source :: "string option"
  sn_failure_reason :: "string option"
  sn_latest_target :: target
  sn_mailbox_update_count :: int
  sn_command_send_count :: int
  sn_renewal_count :: int
  sn_last_renewal_age_sec :: "pyfloat option"
  sn_max_renewal_gap_sec :: "pyfloat option"
  sn_renewal_hz :: "pyfloat option"
  sn_zero_reason :: "string option"

definition arbiter_snapshot :: "pyfloat \<Rightarrow> arbiter \<Rightarrow> source_snapshot" where
  "arbiter_snapshot observed_at s =
     \<lparr>sn_active_source = ar_active_source s, sn_failure_reason = ar_failure_reason s,
      sn_latest_target = ar_latest_target s, sn_mailbox_update_count = ar_mailbox_update_count s,
      sn_command_send_count = ar_command_send_count s, sn_renewal_count = ar_renewal_count s,
      sn_last_renewal_age_sec = map_option (\<lambda>t. f_max f_zero (f_sub observed_at t)) (ar_last_renewal_at s),
      sn_max_renewal_gap_sec = ar_max_renewal_gap_sec s, sn_renewal_hz = ar_renewal_hz s,
      sn_zero_reason = ar_zero_reason s\<rparr>"

subsection \<open>Runs\<close>

datatype arbiter_event =
    ASelect string
  | AKeyboard target
  | AExternal target
  | ARc "rc_command inst"
  | AFault string
  | ATick pyfloat
  | AClose

fun arbiter_do :: "arbiter_event \<Rightarrow> send_outcome \<Rightarrow> arbiter \<Rightarrow> arbiter" where
  \<comment> \<open>the arbiter after one call; a caller that sees an exception may go on calling\<close>
  "arbiter_do (ASelect source) out s = snd (select_source source out s)"
| "arbiter_do (AKeyboard t) out s = snd (submit_keyboard t out s)"
| "arbiter_do (AExternal t) out s = snd (submit_external t out s)"
| "arbiter_do (ARc c) out s = snd (submit_rc c out s)"
| "arbiter_do (AFault reason) out s = snd (ar_submit_fault reason out s)"
| "arbiter_do (ATick now) out s = renewer_tick now out s"
| "arbiter_do AClose out s = snd (ar_close out s)"

definition arbiter_run :: "(arbiter_event \<times> send_outcome) list \<Rightarrow> arbiter \<Rightarrow> arbiter" where
  "arbiter_run es s = fold (\<lambda>(ev, out). arbiter_do ev out) es s"

fun event_submits :: "arbiter_event \<Rightarrow> string \<Rightarrow> target \<Rightarrow> bool" where
  "event_submits (AKeyboard t) n u = (n = ''keyboard'' \<and> u = t)"
| "event_submits (AExternal t) n u = (n = ''external'' \<and> u = t)"
| "event_submits (ARc (Instance c)) n u = (n = ''rc'' \<and> rc_active c \<and> u = (rc_linear c, rc_angular c))"
| "event_submits _ n u = False"

definition log_inv :: "(string \<Rightarrow> target \<Rightarrow> bool) \<Rightarrow> (target \<times> string option) list \<Rightarrow> string option \<Rightarrow> bool" where
  "log_inv P l a \<longleftrightarrow>
     (\<forall>(t, src) \<in> set l. t \<noteq> zero_target \<longrightarrow> (\<exists>n. src = Some n \<and> P n t))
     \<and> successively (\<lambda>x y. fst x \<noteq> zero_target \<and> fst y \<noteq> zero_target \<longrightarrow> snd x = snd y) l
     \<and> (l \<noteq> [] \<and> fst (last l) \<noteq> zero_target \<and> a \<noteq> None \<longrightarrow> snd (last l) = a)"

definition target_inv :: "(string \<Rightarrow> target \<Rightarrow> bool) \<Rightarrow> arbiter \<Rightarrow> bool" where
  "target_inv P s \<longleftrightarrow>
     (ar_latest_target s \<noteq> zero_target \<longrightarrow>
        (ar_renewal_period_sec s \<noteq> None \<and> \<not> ar_renewal_stop s \<longrightarrow> ar_active_source s \<noteq> None)
        \<and> (\<forall>n. ar_active_source s = Some n \<longrightarrow> P n (ar_latest_target s)))"

definition arbiter_inv :: "(string \<Rightarrow> target \<Rightarrow> bool) \<Rightarrow> arbiter \<Rightarrow> bool" where
  "arbiter_inv P s \<longleftrightarrow> log_inv P (ar_log s) (ar_active_source s) \<and> target_inv P s"

lemma log_inv_None: "log_inv P l a \<Longrightarrow> log_inv P l None"
  by (simp add: log_inv_def)

lemma log_inv_zero: "log_inv P l a \<Longrightarrow> log_inv P (l @ [(zero_target, b)]) c"
  by (auto simp: log_inv_def successively_append_iff)

lemma log_inv_send:
  "log_inv P l a \<Longrightarrow> (t \<noteq> zero_target \<Longrightarrow> \<exists>n. a = Some n \<and> P n t) \<Longrightarrow> log_inv P (l @ [(t, a)]) a"
  by (cases "t = zero_target")
    (simp add: log_inv_zero, auto simp: log_inv_def successively_append_iff)

lemmas arbiter_ops =
  ar_send_target_def ar_send_zero_def ar_revoke_def ar_publish_or_store_def select_source_def ar_submit_def
  submit_keyboard_def submit_external_def ar_pause_rc_def submit_rc_def ar_submit_fault_def
  renew_once_def renewer_tick_def ar_close_def

lemma ar_send_zero_effect:
  "ar_log (snd (ar_send_zero out s)) = ar_log s @ [(zero_target, ar_active_source s)]"
  "ar_latest_target (snd (ar_send_zero out s)) = zero_target"
  "ar_active_source (snd (ar_send_zero out s)) = (if returns out then ar_active_source s else None)"
  "returns (fst (ar_send_zero out s)) = returns out"
  by (auto simp: arbiter_ops Let_def split: sum.splits)

lemma zeroing_inv:
  \<comment> \<open>whoever holds control afterwards\<close>
  "arbiter_inv P s \<Longrightarrow> ar_log s' = ar_log s @ [(zero_target, b)] \<Longrightarrow> ar_latest_target s' = zero_target
   \<Longrightarrow> arbiter_inv P s'"
  using log_inv_zero by (auto simp: arbiter_inv_def target_inv_def)

lemma publish_inv:
  assumes inv: "arbiter_inv P s" and who: "ar_active_source s = Some n" and P: "P n t"
  shows "arbiter_inv P (snd (ar_publish_or_store t out s))"
proof -
  have "log_inv P (ar_log s @ [(t, Some n)]) (Some n)"
    using log_inv_send [of P "ar_log s" "Some n" t] inv who P by (simp add: arbiter_inv_def)
  with inv who P log_inv_None show ?thesis
    by (auto simp: arbiter_inv_def target_inv_def arbiter_ops Let_def split: sum.splits)
qed

lemma arbiter_inv_cong:
  "arbiter_inv P s \<Longrightarrow> ar_log s' = ar_log s \<Longrightarrow> ar_active_source s' = ar_active_source s
   \<Longrightarrow> ar_latest_target s' = ar_latest_target s \<Longrightarrow> ar_renewal_period_sec s' = ar_renewal_period_sec s
   \<Longrightarrow> ar_renewal_stop s' = ar_renewal_stop s \<Longrightarrow> arbiter_inv P s'"
  by (simp add: arbiter_inv_def target_inv_def)

lemma submit_inv:
  assumes "arbiter_inv P s" and "\<And>n'. ar_active_source s = Some n \<Longrightarrow> P n t"
  shows "arbiter_inv P (snd (ar_submit n t out s))"
  using assms publish_inv [of P s n t out]
  by (auto simp: ar_submit_def split: prod.splits sum.splits)

lemma select_inv:
  assumes inv: "arbiter_inv P s"
  shows "arbiter_inv P (snd (select_source n out s))"
proof (cases "n \<in> set command_sources")
  case True
  show ?thesis
    by (rule zeroing_inv [OF inv]) (use True in \<open>auto simp: arbiter_ops Let_def split: sum.splits\<close>)
qed (simp add: select_source_def inv)

lemma revoke_inv:
  assumes inv: "arbiter_inv P s"
  shows "arbiter_inv P (snd (ar_revoke r out s))"
  by (rule zeroing_inv [OF inv]) (auto simp: arbiter_ops Let_def split: sum.splits)

lemma submit_rc_inv:
  assumes inv: "arbiter_inv P s"
    and P: "\<And>c. arg = Instance c \<Longrightarrow> rc_active c \<Longrightarrow> P ''rc'' (rc_linear c, rc_angular c)"
  shows "arbiter_inv P (snd (submit_rc arg out s))"
proof (cases arg)
  case (Instance c)
  consider (other) "ar_active_source s \<noteq> Some ''rc''"
    | (act) "ar_active_source s = Some ''rc''" "rc_active c"
    | (same) "ar_active_source s = Some ''rc''" "\<not> rc_active c" "rc_reason c \<in> set recoverable_rc_reasons"
        "ar_failure_reason s = Some (rc_reason c)"
    | (zero) "ar_active_source s = Some ''rc''" "\<not> rc_active c"
        "rc_reason c \<notin> set recoverable_rc_reasons \<or> ar_failure_reason s \<noteq> Some (rc_reason c)"
    by blast
  then show ?thesis
  proof cases
    case other
    with Instance inv show ?thesis by (simp add: submit_rc_def)
  next
    case act
    let ?p = "ar_publish_or_store (rc_linear c, rc_angular c) out s"
    have "arbiter_inv P (snd ?p)" by (rule publish_inv [OF inv act(1) P [OF Instance act(2)]])
    with Instance act show ?thesis
      by (auto simp: submit_rc_def split: prod.splits sum.splits elim!: arbiter_inv_cong)
  next
    case same
    with Instance inv show ?thesis
      by (simp add: submit_rc_def ar_pause_rc_def arbiter_inv_def target_inv_def)
  next
    case zero
    show ?thesis
      by (rule zeroing_inv [OF inv]) (use zero Instance in \<open>auto simp: arbiter_ops Let_def split: sum.splits\<close>)
  qed
qed (simp add: submit_rc_def inv)

lemma tick_inv:
  assumes inv: "arbiter_inv P s"
  shows "arbiter_inv P (renewer_tick now out s)"
proof (cases "ar_renewal_stop s \<or> ar_renewal_period_sec s = None")
  case True
  with inv show ?thesis by (auto simp: renewer_tick_def renew_once_def)
next
  case False
  with inv have "ar_latest_target s \<noteq> zero_target \<Longrightarrow> \<exists>n. ar_active_source s = Some n \<and> P n (ar_latest_target s)"
    by (auto simp: arbiter_inv_def target_inv_def)
  then have log: "log_inv P (ar_log s @ [(ar_latest_target s, ar_active_source s)]) (ar_active_source s)"
    using inv by (intro log_inv_send) (simp_all add: arbiter_inv_def)
  show ?thesis
  proof (cases out)
    case (Inl e)
    with False log_inv_None [OF log] show ?thesis
      by (auto simp: renewer_tick_def renew_once_def ar_send_target_def Let_def arbiter_inv_def target_inv_def)
  next
    case (Inr u)
    with False log inv show ?thesis
      by (auto simp: renewer_tick_def renew_once_def ar_send_target_def Let_def arbiter_inv_def target_inv_def)
  qed
qed

lemma close_inv:
  assumes inv: "arbiter_inv P s"
  shows "arbiter_inv P (snd (ar_close out s))"
proof (cases "ar_renewal_stop s")
  case False
  show ?thesis
    by (rule zeroing_inv [OF inv]) (use False in \<open>auto simp: arbiter_ops Let_def split: sum.splits\<close>)
qed (simp add: ar_close_def inv)

lemma arbiter_do_inv:
  "arbiter_inv P s \<Longrightarrow> (\<And>n t. event_submits ev n t \<Longrightarrow> P n t) \<Longrightarrow> arbiter_inv P (arbiter_do ev out s)"
  by (cases ev)
    (auto simp: select_inv tick_inv close_inv revoke_inv ar_submit_fault_def submit_keyboard_def
       submit_external_def intro!: submit_inv submit_rc_inv)

lemma arbiter_run_inv:
  "arbiter_inv P s \<Longrightarrow> (\<And>ev out n t. (ev, out) \<in> set es \<Longrightarrow> event_submits ev n t \<Longrightarrow> P n t)
   \<Longrightarrow> arbiter_inv P (arbiter_run es s)"
proof (induction es arbitrary: s)
  case (Cons e es)
  obtain ev out where [simp]: "e = (ev, out)" by fastforce
  have "arbiter_inv P (arbiter_do ev out s)"
    using Cons.prems(2) [of ev out] by (intro arbiter_do_inv [OF Cons.prems(1)]) simp
  then have "arbiter_inv P (arbiter_run es (arbiter_do ev out s))"
    by (rule Cons.IH) (rule Cons.prems(2), auto)
  then show ?case by (simp add: arbiter_run_def)
qed (simp add: arbiter_run_def)

lemma new_arbiter_inv: "new_arbiter hz = Inr s \<Longrightarrow> arbiter_inv P s \<and> ar_log s = []"
  by (auto simp: new_arbiter_def bind_res_def arbiter_inv_def log_inv_def target_inv_def split: sum.splits)

text \<open>
  C24. One source at a time drives the vehicle: in any run of the arbiter, whatever is selected,
  submitted, renewed or faulted and whichever sends fail, every nonzero target the client is asked to
  send is one that the source in control at that moment submitted, and two nonzero targets in a row
  come from the same source, so that control never passes from one source to another without a zero
  command between them.
\<close>

theorem arbiter_single_source:
  assumes "new_arbiter hz = Inr s" and "arbiter_run es s = s'"
  shows "(\<forall>(t, src) \<in> set (ar_log s'). t \<noteq> zero_target \<longrightarrow>
             (\<exists>n. src = Some n \<and> (\<exists>(ev, out) \<in> set es. event_submits ev n t)))
         \<and> successively (\<lambda>x y. fst x \<noteq> zero_target \<and> fst y \<noteq> zero_target \<longrightarrow> snd x = snd y) (ar_log s')"
proof -
  let ?P = "\<lambda>n t. \<exists>(ev, out) \<in> set es. event_submits ev n t"
  have "arbiter_inv ?P s'"
    unfolding assms(2) [symmetric] by (rule arbiter_run_inv) (use new_arbiter_inv [OF assms(1)] in auto)
  then show ?thesis by (simp add: arbiter_inv_def log_inv_def)
qed

definition rc_full_ahead :: rc_command where
  "rc_full_ahead = \<lparr>rc_linear = Fin 1, rc_angular = Fin 0, rc_active = True, rc_reason = ''active''\<rparr>"

definition example_arbiter :: arbiter where
  "example_arbiter = (case new_arbiter (PInt 50) of Inr s \<Rightarrow> s)"

lemma example_arbiter_new: "new_arbiter (PInt 50) = Inr example_arbiter"
  by code_simp

theorem arbiter_single_source_witness:
  "successively (\<lambda>x y. fst x \<noteq> zero_target \<and> fst y \<noteq> zero_target \<longrightarrow> snd x = snd y)
     (ar_log (arbiter_run
        [(ASelect ''rc'', Inr ()), (ARc (Instance rc_full_ahead), Inr ()), (ATick (Fin 1), Inr ()),
         (ASelect ''keyboard'', Inr ()), (AKeyboard (Fin (- 1), Fin 0), Inr ()), (ATick (Fin 2), Inr ())]
        example_arbiter))"
  by (rule arbiter_single_source [OF example_arbiter_new refl, THEN conjunct2])

subsection \<open>Without a source in control\<close>

lemma uncontrolled_do:
  assumes inv: "arbiter_inv P s" and none: "ar_active_source s = None" and sel: "\<nexists>n. ev = ASelect n"
  shows "ar_active_source (arbiter_do ev out s) = None
         \<and> (\<exists>ext. ar_log (arbiter_do ev out s) = ar_log s @ ext \<and> list_all (\<lambda>(t, src). t = zero_target) ext)"
proof -
  have latest: "ar_renewal_period_sec s \<noteq> None \<Longrightarrow> \<not> ar_renewal_stop s \<Longrightarrow> ar_latest_target s = zero_target"
    using inv none by (auto simp: arbiter_inv_def target_inv_def)
  show ?thesis
  proof (cases ev)
    case (ATick now)
    with latest none show ?thesis
      by (auto simp: renewer_tick_def renew_once_def ar_send_target_def Let_def split: sum.splits)
  next
    case (ARc arg)
    with none show ?thesis by (cases arg) (simp_all add: submit_rc_def)
  next
    case (AFault r)
    with none show ?thesis by (auto simp: ar_submit_fault_def ar_revoke_def ar_send_zero_def
          ar_send_target_def Let_def split: sum.splits)
  next
    case AClose
    with none show ?thesis by (auto simp: ar_close_def ar_send_zero_def ar_send_target_def Let_def split: sum.splits)
  qed (use none sel in \<open>simp_all add: submit_keyboard_def submit_external_def ar_submit_def\<close>)
qed

lemma uncontrolled_run:
  assumes "arbiter_inv (\<lambda>n t. True) s" "ar_active_source s = None" "\<forall>(ev, out) \<in> set es. \<nexists>n. ev = ASelect n"
  shows "ar_active_source (arbiter_run es s) = None
         \<and> (\<exists>ext. ar_log (arbiter_run es s) = ar_log s @ ext \<and> list_all (\<lambda>(t, src). t = zero_target) ext)"
  using assms
proof (induction es arbitrary: s)
  case (Cons e es)
  obtain ev out where e [simp]: "e = (ev, out)" by fastforce
  from Cons.prems have "\<nexists>n. ev = ASelect n" by simp
  from uncontrolled_do [OF Cons.prems(1,2) this] obtain ext where
    step: "ar_active_source (arbiter_do ev out s) = None" "ar_log (arbiter_do ev out s) = ar_log s @ ext"
      "list_all (\<lambda>(t, src). t = zero_target) ext" by blast
  from Cons.IH [OF arbiter_do_inv [OF Cons.prems(1)] step(1)] Cons.prems(3) obtain ext' where
    "ar_active_source (arbiter_run es (arbiter_do ev out s)) = None"
    "ar_log (arbiter_run es (arbiter_do ev out s)) = ar_log (arbiter_do ev out s) @ ext'"
    "list_all (\<lambda>(t, src). t = zero_target) ext'" by auto
  with step show ?case by (auto simp: arbiter_run_def)
qed (simp add: arbiter_run_def)

text \<open>
  C25. A revoked source stays without effect: once a fault has been submitted, whether or not its zero
  command went out, no source is in control, and until some source is selected again every target the
  client is asked to send is zero, whatever is submitted or renewed in between.
\<close>

theorem arbiter_revocation_holds:
  assumes "new_arbiter hz = Inr s" and "arbiter_run before s = s1" and "reason \<noteq> []"
    and "ar_submit_fault reason out s1 = (r, s2)"
    and "\<forall>(ev, out) \<in> set after. \<nexists>n. ev = ASelect n" and "arbiter_run after s2 = s3"
  shows "ar_active_source s3 = None
         \<and> (\<exists>ext. ar_log s3 = ar_log s1 @ ext \<and> list_all (\<lambda>(t, src). t = zero_target) ext)"
proof -
  have "arbiter_inv (\<lambda>n t. True) s1"
    unfolding assms(2) [symmetric] by (rule arbiter_run_inv) (use new_arbiter_inv [OF assms(1)] in auto)
  then have inv: "arbiter_inv (\<lambda>n t. True) s2"
    using revoke_inv [of "\<lambda>n t. True" s1 reason out] assms(3,4) by (simp add: ar_submit_fault_def)
  have "ar_active_source s2 = None" "ar_log s2 = ar_log s1 @ [(zero_target, ar_active_source s1)]"
    using assms(3,4) ar_send_zero_effect(1) [of out "s1\<lparr>ar_zero_reason := Some reason\<rparr>"]
    by (auto simp: ar_submit_fault_def ar_revoke_def split: prod.splits)
  with uncontrolled_run [OF inv _ assms(5)] assms(6) show ?thesis by auto
qed

theorem arbiter_revocation_holds_witness:
  "ar_active_source (arbiter_run [(ARc (Instance rc_full_ahead), Inr ()), (ATick (Fin 2), Inr ())]
     (snd (ar_submit_fault ''unplugged'' (Inl (Exc OSErr []))
       (arbiter_run [(ASelect ''rc'', Inr ()), (ARc (Instance rc_full_ahead), Inr ())] example_arbiter)))) = None"
  by (rule arbiter_revocation_holds [OF example_arbiter_new refl _ surjective_pairing _ refl, THEN conjunct1])
     simp_all

text \<open>
  After the renewer thread has stopped on a failed send, the shutdown sends no final zero: the thread
  leaves the stop event set, and \<^verbatim>\<open>close\<close> returns at once.
\<close>

lemma close_after_renewal_failure:
  assumes "ar_renewal_period_sec s \<noteq> None" and "\<not> ar_renewal_stop s"
  shows "ar_close out (renewer_tick now (Inl e) s) = (Inr (), renewer_tick now (Inl e) s)"
  using assms by (auto simp: renewer_tick_def renew_once_def ar_send_target_def Let_def ar_close_def)

lemma close_sends_zero:
  "\<not> ar_renewal_stop s \<Longrightarrow>
   ar_log (snd (ar_close out s)) = ar_log s @ [(zero_target, ar_active_source s)]"
  by (auto simp: ar_close_def ar_send_zero_def ar_send_target_def Let_def split: sum.splits)

end
