(* ===== verification/RobotModels.thy ===== *)
theory RobotModels
  imports PyValues
begin

text \<open>
  The vehicle registry of \<^verbatim>\<open>slope_sim/model_registry.py\<close>: the immutable metadata of the four
  deliverable vehicles, kept in the order the Dashboard and the command line list them.
\<close>

record robot_model_spec =
  rm_name :: string
  rm_urdf_path :: string
  rm_controller_kind :: string
  rm_wheel_radius :: pyfloat
  rm_wheel_track :: pyfloat
  rm_axle_distance :: pyfloat
  rm_base_height :: pyfloat
  rm_drive_center_x :: pyfloat
  rm_drive_joint_names :: "string list"
  rm_steering_joint_names :: "string list"
  rm_support_link_names :: "string list"
  rm_max_steering_angle :: pyfloat
  rm_max_drive_wheel_speed :: pyfloat
  rm_max_steering_speed :: pyfloat

definition differential_drive_joints :: "string list" where
  "differential_drive_joints = [''left_drive_wheel_joint'', ''right_drive_wheel_joint'']"

definition df_front :: robot_model_spec where
  "df_front = \<lparr>rm_name = ''df_front'', rm_urdf_path = ''urdf/df_front.urdf'',
     rm_controller_kind = ''differential'', rm_wheel_radius = fl (1/10), rm_wheel_track = fl (1/2),
     rm_axle_distance = fl (52/100), rm_base_height = fl (14/100), rm_drive_center_x = fl (22/100),
     rm_drive_joint_names = differential_drive_joints, rm_steering_joint_names = [],
     rm_support_link_names = [''rear_support''], rm_max_steering_angle = fl (55/100),
     rm_max_drive_wheel_speed = fl 20, rm_max_steering_speed = fl 2\<rparr>"

definition df_mid :: robot_model_spec where
  "df_mid = \<lparr>rm_name = ''df_mid'', rm_urdf_path = ''urdf/df_mid.urdf'',
     rm_controller_kind = ''differential'', rm_wheel_radius = fl (1/10), rm_wheel_track = fl (1/2),
     rm_axle_distance = fl (60/100), rm_base_height = fl (14/100), rm_drive_center_x = fl 0,
     rm_drive_joint_names = differential_drive_joints, rm_steering_joint_names = [],
     rm_support_link_names = [''front_support'', ''rear_support''], rm_max_steering_angle = fl (55/100),
     rm_max_drive_wheel_speed = fl 20, rm_max_steering_speed = fl 2\<rparr>"

definition df_back :: robot_model_spec where
  "df_back = \<lparr>rm_name = ''df_back'', rm_urdf_path = ''urdf/df_back.urdf'',
     rm_controller_kind = ''differential'', rm_wheel_radius = fl (1/10), rm_wheel_track = fl (1/2),
     rm_axle_distance = fl (52/100), rm_base_height = fl (14/100), rm_drive_center_x = fl (- 22/100),
     rm_drive_joint_names = differential_drive_joints, rm_steering_joint_names = [],
     rm_support_link_names = [''front_support''], rm_max_steering_angle = fl (55/100),
     rm_max_drive_wheel_speed = fl 20, rm_max_steering_speed = fl 2\<rparr>"

definition active_steering_4wd :: robot_model_spec where
  "active_steering_4wd = \<lparr>rm_name = ''active_steering_4wd'',
     rm_urdf_path = ''urdf/active_steering_4wd.urdf'',
     rm_controller_kind = ''active_steering'', rm_wheel_radius = fl (1/10), rm_wheel_track = fl (1/2),
     rm_axle_distance = fl (52/100), rm_base_height = fl (14/100), rm_drive_center_x = fl 0,
     rm_drive_joint_names =
       [''front_left_drive_wheel_joint'', ''front_right_drive_wheel_joint'',
        ''rear_left_drive_wheel_joint'', ''rear_right_drive_wheel_joint''],
     rm_steering_joint_names = [''front_left_steering_joint'', ''front_right_steering_joint''],
     rm_support_link_names = [], rm_max_steering_angle = fl (55/100),
     rm_max_drive_wheel_speed = fl 20, rm_max_steering_speed = fl 2\<rparr>"

definition robot_models :: "(string \<times> robot_model_spec) list" where
  "robot_models =
     [(''df_front'', df_front), (''df_mid'', df_mid), (''df_back'', df_back),
      (''active_steering_4wd'', active_steering_4wd)]"

definition robot_model_names :: "string list" where
  "robot_model_names = map fst robot_models"

definition get_robot_model :: "string \<Rightarrow> (exc, robot_model_spec) res" where
  "get_robot_model robot_model =
     (let model_name = py_lower robot_model
      in case map_of robot_models model_name of
           Some spec \<Rightarrow> Inr spec
         | None \<Rightarrow> Inl (value_error (''robot_model must be one of: '' @ py_join '', '' robot_model_names)))"

lemmas robot_model_defs = df_front_def df_mid_def df_back_def active_steering_4wd_def

definition expected_wheels :: "robot_model_spec \<Rightarrow> (exc, nat \<times> nat) res" where
  \<comment> \<open>the wheel counts a controller kind prescribes; shared by the command check and the mailbox\<close>
  "expected_wheels m =
     (if rm_controller_kind m = ''differential'' then Inr (2, 0)
      else if rm_controller_kind m = ''active_steering'' then Inr (4, 2)
      else Inl (value_error (''unsupported controller_kind: '' @ rm_controller_kind m)))"

lemma robot_models_keys: "(k, m) \<in> set robot_models \<Longrightarrow> rm_name m = k"
  by (auto simp: robot_models_def robot_model_defs)

lemma get_robot_model_in: "get_robot_model n = Inr m \<Longrightarrow> (py_lower n, m) \<in> set robot_models"
  by (auto simp: get_robot_model_def Let_def split: option.splits dest: map_of_SomeD)

lemma get_robot_model_name: "get_robot_model n = Inr m \<Longrightarrow> rm_name m = py_lower n"
  by (rule robot_models_keys [OF get_robot_model_in])

lemma registry_wheels:
  "(k, m) \<in> set robot_models \<Longrightarrow>
     expected_wheels m = Inr (length (rm_drive_joint_names m), length (rm_steering_joint_names m))"
  by (auto simp: robot_models_def robot_model_defs expected_wheels_def differential_drive_joints_def)

lemma fl_2_20: "fl 2 = Fin 2" "fl 20 = Fin 20"
  using fl_of_int [of 2] fl_of_int [of 20] by simp_all

lemma registry_limits:
  "(k, m) \<in> set robot_models \<Longrightarrow>
     rm_max_drive_wheel_speed m = Fin 20 \<and> rm_max_steering_speed m = Fin 2"
  by (auto simp: robot_models_def robot_model_defs fl_2_20)

subsection \<open>The literals as doubles\<close>

text \<open>
  What the decimal literals of the table are as doubles; the code equations let an evaluation use the
  values instead of rounding the literals again.
\<close>

lemma literal_1_10: "fl (1/10) = Fin (3602879701896397 / 36028797018963968)"
  by code_simp

lemma literal_1_2: "fl (1/2) = Fin (1/2)"
  by code_simp

lemma literal_52_100: "fl (52/100) = Fin (1170935903116329 / 2251799813685248)"
  by code_simp

lemma literal_60_100: "fl (60/100) = Fin (5404319552844595 / 9007199254740992)"
  by code_simp

lemma literal_14_100: "fl (14/100) = Fin (1261007895663739 / 9007199254740992)"
  by code_simp

lemma literal_22_100: "fl (22/100) = Fin (7926335344172073 / 36028797018963968)"
  by code_simp

lemma literal_minus_22_100: "fl (- 22/100) = Fin (- 7926335344172073 / 36028797018963968)"
  by code_simp

lemma literal_55_100: "fl (55/100) = Fin (2476979795053773 / 4503599627370496)"
  by code_simp

lemma literal_integers: "fl 0 = Fin 0" "fl 2 = Fin 2" "fl 20 = Fin 20"
  using fl_of_int [of 0] fl_of_int [of 2] fl_of_int [of 20] by simp_all

lemmas literal_doubles = literal_1_10 literal_1_2 literal_52_100 literal_60_100 literal_14_100 literal_22_100 literal_minus_22_100 literal_55_100 literal_integers

lemma df_front_code [code]:
  "df_front = \<lparr>rm_name = ''df_front'', rm_urdf_path = ''urdf/df_front.urdf'',
     rm_controller_kind = ''differential'', rm_wheel_radius = Fin (3602879701896397 / 36028797018963968), rm_wheel_track = Fin (1/2),
     rm_axle_distance = Fin (1170935903116329 / 2251799813685248), rm_base_height = Fin (1261007895663739 / 9007199254740992), rm_drive_center_x = Fin (7926335344172073 / 36028797018963968),
     rm_drive_joint_names = differential_drive_joints, rm_steering_joint_names = [],
     rm_support_link_names = [''rear_support''], rm_max_steering_angle = Fin (2476979795053773 / 4503599627370496),
     rm_max_drive_wheel_speed = Fin 20, rm_max_steering_speed = Fin 2\<rparr>"
  by (simp only: df_front_def literal_doubles)

lemma df_mid_code [code]:
  "df_mid = \<lparr>rm_name = ''df_mid'', rm_urdf_path = ''urdf/df_mid.urdf'',
     rm_controller_kind = ''differential'', rm_wheel_radius = Fin (3602879701896397 / 36028797018963968), rm_wheel_track = Fin (1/2),
     rm_axle_distance = Fin (5404319552844595 / 9007199254740992), rm_base_height = Fin (1261007895663739 / 9007199254740992), rm_drive_center_x = Fin 0,
     rm_drive_joint_names = differential_drive_joints, rm_steering_joint_names = [],
     rm_support_link_names = [''front_support'', ''rear_support''], rm_max_steering_angle = Fin (2476979795053773 / 4503599627370496),
     rm_max_drive_wheel_speed = Fin 20, rm_max_steering_speed = Fin 2\<rparr>"
  by (simp only: df_mid_def literal_doubles)

lemma df_back_code [code]:
  "df_back = \<lparr>rm_name = ''df_back'', rm_urdf_path = ''urdf/df_back.urdf'',
     rm_controller_kind = ''differential'', rm_wheel_radius = Fin (3602879701896397 / 36028797018963968), rm_wheel_track = Fin (1/2),
     rm_axle_distance = Fin (1170935903116329 / 2251799813685248), rm_base_height = Fin (1261007895663739 / 9007199254740992), rm_drive_center_x = Fin (- 7926335344172073 / 36028797018963968),
     rm_drive_joint_names = differential_drive_joints, rm_steering_joint_names = [],
     rm_support_link_names = [''front_support''], rm_max_steering_angle = Fin (2476979795053773 / 4503599627370496),
     rm_max_drive_wheel_speed = Fin 20, rm_max_steering_speed = Fin 2\<rparr>"
  by (simp only: df_back_def literal_doubles)

lemma active_steering_4wd_code [code]:
  "active_steering_4wd = \<lparr>rm_name = ''active_steering_4wd'',
     rm_urdf_path = ''urdf/active_steering_4wd.urdf'',
     rm_controller_kind = ''active_steering'', rm_wheel_radius = Fin (3602879701896397 / 36028797018963968), rm_wheel_track = Fin (1/2),
     rm_axle_distance = Fin (1170935903116329 / 2251799813685248), rm_base_height = Fin (1261007895663739 / 9007199254740992), rm_drive_center_x = Fin 0,
     rm_drive_joint_names =
       [''front_left_drive_wheel_joint'', ''front_right_drive_wheel_joint'',
        ''rear_left_drive_wheel_joint'', ''rear_right_drive_wheel_joint''],
     rm_steering_joint_names = [''front_left_steering_joint'', ''front_right_steering_joint''],
     rm_support_link_names = [], rm_max_steering_angle = Fin (2476979795053773 / 4503599627370496),
     rm_max_drive_wheel_speed = Fin 20, rm_max_steering_speed = Fin 2\<rparr>"
  by (simp only: active_steering_4wd_def literal_doubles)

end
