(* ===== verification/Revocation.thy ===== *)
theory Revocation
  imports Prelude
begin

text \<open>
  The contract several components share: a request is admitted against an epoch it read earlier, and
  every revocation moves the epoch on, so that no request that began before a revocation can take
  effect after it, whatever happens in between.
\<close>

locale revocable =
  fixes epoch :: "'s \<Rightarrow> int"
    and step :: "'s \<Rightarrow> 's \<Rightarrow> bool"
    and revoke :: "'s \<Rightarrow> 's \<Rightarrow> bool"
    and admits :: "int \<Rightarrow> 's \<Rightarrow> bool"
  assumes step_epoch: "step s t \<Longrightarrow> epoch s \<le> epoch t"
    and revoke_epoch: "revoke s t \<Longrightarrow> epoch s < epoch t"
    and admits_epoch: "admits e s \<Longrightarrow> e = epoch s"
begin

lemma steps_epoch: "step\<^sup>*\<^sup>* s t \<Longrightarrow> epoch s \<le> epoch t"
  by (induction rule: rtranclp_induct) (auto dest: step_epoch)

lemma revoked_not_admitted:
  assumes "step\<^sup>*\<^sup>* s s1" and "revoke s1 s2" and "step\<^sup>*\<^sup>* s2 s3"
  shows "\<not> admits (epoch s) s3"
  using steps_epoch [OF assms(1)] revoke_epoch [OF assms(2)] steps_epoch [OF assms(3)]
    admits_epoch [of "epoch s" s3] by fastforce

lemma later_reading_not_revived:
  \<comment> \<open>an epoch once passed is never admitted again\<close>
  assumes "e < epoch s" and "step\<^sup>*\<^sup>* s t"
  shows "\<not> admits e t"
  using assms steps_epoch admits_epoch by fastforce

end

end
