(* ===== verification/CommandSession.thy ===== *)
theory CommandSession
  imports RcControl RobotModels Revocation
begin

text \<open>
  \<^verbatim>\<open>RunSimSession\<close> of \<^verbatim>\<open>slope_sim/interfaces/v2/runsim_session.py\<close>: the authenticated control
  socket between the orchestrator and the Command process, its manual-drive target with a 100 ms
  lease, and its life cycle.  A message is accepted in three parts, as the code takes its lock: the
  revocation epoch and the token are read, the message is checked with the lock free, and the target,
  status or stop is committed under the lock.  The text decoder of \<^verbatim>\<open>json.loads\<close> is an argument:
  \<open>loads\<close> gives the value written in the payload, an object as the list of its pairs in order, or the
  exception for text that is no JSON.  Files and the socket itself are not modelled; what closing the
  launch record did is an argument.
\<close>

subsection \<open>State\<close>

datatype runsim_state = RsLaunching | RsReady | RsActive | RsSafeStop | RsStopping | RsClosed

fun runsim_state_value :: "runsim_state \<Rightarrow> string" where
  "runsim_state_value RsLaunching = ''launching''"
| "runsim_state_value RsReady = ''ready''"
| "runsim_state_value RsActive = ''active''"
| "runsim_state_value RsSafeStop = ''safe_stop''"
| "runsim_state_value RsStopping = ''stopping''"
| "runsim_state_value RsClosed = ''closed''"

definition runsim_states :: "runsim_state list" where
  "runsim_states = [RsLaunching, RsReady, RsActive, RsSafeStop, RsStopping, RsClosed]"

definition runsim_state_of :: "string \<Rightarrow> runsim_state option" where
  "runsim_state_of v = find (\<lambda>s. runsim_state_value s = v) runsim_states"

record control_message =
  cm_kind :: string
  cm_linear :: "pyfloat option"
  cm_angular :: "pyfloat option"
  cm_state :: "string option"
  cm_reason :: "string option"

abbreviation plain_message :: "string \<Rightarrow> control_message" where
  "plain_message k \<equiv> \<lparr>cm_kind = k, cm_linear = None, cm_angular = None, cm_state = None, cm_reason = None\<rparr>"

record runsim_session =
  rs_command_pid :: int
  rs_command_uid :: int
  rs_orchestrator_pid :: int
  rs_session_id :: bytes
  rs_token :: bytes
  rs_state :: runsim_state
  rs_linear :: pyfloat
  rs_angular :: pyfloat
  rs_safe_stop_reason :: "string option"
  rs_last_target :: "pyfloat option"
  rs_target_epoch :: int
  rs_finalized :: bool

definition protocol_name :: string where
  "protocol_name = ''runsim-command-socket-v1''"

definition manual_target_lease :: pyfloat where
  "manual_target_lease = fl (1/10)"

definition max_socket_message_bytes :: nat where
  "max_socket_message_bytes = 1024"

subsection \<open>Field checks\<close>

definition require_pid :: "string \<Rightarrow> pyval \<Rightarrow> (exc, int) res" where
  "require_pid name v =
     (case v of PInt n \<Rightarrow> ensure (0 < n) (value_error (name @ '' must be a positive integer'')) (Inr n)
      | _ \<Rightarrow> Inl (value_error (name @ '' must be a positive integer'')))"

definition require_uid :: "string \<Rightarrow> pyval \<Rightarrow> (exc, int) res" where
  "require_uid name v =
     (case v of PInt n \<Rightarrow> ensure (0 \<le> n) (value_error (name @ '' must be a nonnegative integer'')) (Inr n)
      | _ \<Rightarrow> Inl (value_error (name @ '' must be a nonnegative integer'')))"

definition require_bytes :: "string \<Rightarrow> pyval \<Rightarrow> nat \<Rightarrow> (exc, bytes) res" where
  "require_bytes name v n =
     (let err = Exc ValueErr [Lit (name @ '' must be exactly ''), IntRepr (int n), Lit '' bytes'']
      in case v of PBytes b \<Rightarrow> ensure (length b = n) err (Inr b) | _ \<Rightarrow> Inl err)"

definition require_finite :: "exc \<Rightarrow> pyval \<Rightarrow> (exc, pyfloat) res" where
  \<comment> \<open>\<^verbatim>\<open>type(v) in {int, float}\<close> and finite as a float; a huge int raises in the conversion\<close>
  "require_finite err v =
     (case v of
        PInt n \<Rightarrow> bind_res (py_float (PInt n)) (\<lambda>x. ensure (f_isfinite x) err (Inr x))
      | PFloat x \<Rightarrow> ensure (f_isfinite x) err (Inr x)
      | _ \<Rightarrow> Inl err)"

definition require_target :: "string \<Rightarrow> pyval \<Rightarrow> pyfloat \<Rightarrow> (exc, pyfloat) res" where
  "require_target name v maximum =
     (let err = value_error (name @ '' is invalid'')
      in bind_res (require_finite err v) (\<lambda>x. ensure (\<not> f_lt maximum (f_abs x)) err (Inr x)))"

definition require_now :: "pyval \<Rightarrow> (exc, pyfloat) res" where
  "require_now = require_finite (value_error ''now must be a finite monotonic timestamp'')"

definition require_generation :: "string \<Rightarrow> pyval \<Rightarrow> (exc, int) res" where
  "require_generation name v =
     (case v of PInt n \<Rightarrow> ensure (0 < n) (value_error (name @ '' is invalid'')) (Inr n)
      | _ \<Rightarrow> Inl (value_error (name @ '' is invalid'')))"

definition require_robot_model :: "pyval \<Rightarrow> (exc, string) res" where
  "require_robot_model v =
     (case v of
        PStr s \<Rightarrow> (case get_robot_model s of Inr _ \<Rightarrow> Inr s | Inl _ \<Rightarrow> Inl (value_error ''robot_model is invalid''))
      | _ \<Rightarrow> Inl (value_error ''robot_model is invalid''))"

subsection \<open>Message decoding\<close>

type_synonym document = "(pyval \<times> pyval) list"

fun no_duplicates :: "pyval \<Rightarrow> bool" where
  \<comment> \<open>\<^verbatim>\<open>_reject_duplicate_json_fields\<close> at every object of the value\<close>
  "no_duplicates (PDict d) = (distinct (map fst d) \<and> (\<forall>kv \<in> set d. no_duplicates (snd kv)))"
| "no_duplicates (PList vs) = (\<forall>v \<in> set vs. no_duplicates v)"
| "no_duplicates v = True"

definition contains_text :: "string \<Rightarrow> string \<Rightarrow> bool" where
  \<comment> \<open>\<^verbatim>\<open>part in text\<close>\<close>
  "contains_text part text = list_ex (\<lambda>i. take (length part) (drop i text) = part) [0..<Suc (length text)]"

definition forbidden_key :: "pyval \<Rightarrow> bool" where
  "forbidden_key k = (case k of PStr s \<Rightarrow> contains_text ''pointcloud'' (py_lower s) | _ \<Rightarrow> False)"

definition decode_control_document :: "(bytes \<Rightarrow> (exc, pyval) res) \<Rightarrow> pyval \<Rightarrow> (exc, document) res" where
  "decode_control_document loads payload =
     (case payload of
        PBytes b \<Rightarrow>
          ensure (length b \<le> max_socket_message_bytes) (value_error ''control payload exceeds maximum size'')
          (case loads b of
             Inl e \<Rightarrow> Inl (if is_value_error e then value_error ''control payload is invalid JSON'' else e)
           | Inr v \<Rightarrow>
               ensure (no_duplicates v) (value_error ''control payload is invalid JSON'')
               (case v of
                  PDict d \<Rightarrow>
                    ensure (\<not> list_ex forbidden_key (map fst d))
                      (value_error ''pointcloud fields are forbidden on the control socket'') (Inr d)
                | _ \<Rightarrow> Inl (value_error ''control payload must be a JSON object'')))
      | _ \<Rightarrow> Inl (value_error ''control payload exceeds maximum size''))"

definition field :: "string \<Rightarrow> document \<Rightarrow> pyval" where
  \<comment> \<open>\<^verbatim>\<open>document.get(name)\<close>\<close>
  "field name d = (case map_of d (PStr name) of Some v \<Rightarrow> v | None \<Rightarrow> PNone)"

definition has_keys :: "string list \<Rightarrow> document \<Rightarrow> bool" where
  "has_keys expected d \<longleftrightarrow> fst ` set d = PStr ` set expected"

abbreviation require_exact_keys :: "string list \<Rightarrow> document \<Rightarrow> (exc, 'a) res \<Rightarrow> (exc, 'a) res" where
  "require_exact_keys expected d k \<equiv>
     ensure (has_keys expected d) (value_error ''control message fields are invalid'') k"

definition hex_digit :: "nat \<Rightarrow> char" where
  "hex_digit n = (if n < 10 then char_of (48 + n) else char_of (87 + n))"

definition hex :: "bytes \<Rightarrow> string" where
  "hex b = concat (map (\<lambda>w. [hex_digit (unat w div 16), hex_digit (unat w mod 16)]) b)"

definition ascii :: "string \<Rightarrow> bool" where
  "ascii s \<longleftrightarrow> list_all (\<lambda>c. (of_char c :: nat) < 128) s"

definition check_token :: "string \<Rightarrow> pyval \<Rightarrow> (exc, unit) res" where
  \<comment> \<open>\<^verbatim>\<open>hmac.compare_digest\<close> takes ASCII strings only\<close>
  "check_token expected v =
     (case v of
        PStr t \<Rightarrow>
          ensure (ascii t) (Exc TypeErr (lit ''comparing strings with non-ASCII characters is not supported''))
          (ensure (t = expected) (value_error ''control message token does not match session'') (Inr ()))
      | _ \<Rightarrow> Inl (value_error ''control message token does not match session''))"

datatype control_request =
    RqTarget pyfloat pyfloat
  | RqGeneration
  | RqStatus runsim_state
  | RqStop string

definition parse_status :: "pyval \<Rightarrow> (exc, runsim_state) res" where
  \<comment> \<open>membership in a set of strings needs a hashable value\<close>
  "parse_status v =
     (case v of
        PStr s \<Rightarrow> (case runsim_state_of s of Some st \<Rightarrow> Inr st | None \<Rightarrow> Inl (value_error ''status state is invalid''))
      | PList _ \<Rightarrow> Inl (Exc TypeErr (lit ''unhashable type: list''))
      | PDict _ \<Rightarrow> Inl (Exc TypeErr (lit ''unhashable type: dict''))
      | _ \<Rightarrow> Inl (value_error ''status state is invalid''))"

definition parse_stop :: "pyval \<Rightarrow> (exc, string) res" where
  "parse_stop v =
     (case v of
        PStr s \<Rightarrow> ensure (s \<noteq> [] \<and> length s \<le> 128) (value_error ''stop reason is invalid'') (Inr s)
      | _ \<Rightarrow> Inl (value_error ''stop reason is invalid''))"

definition parse_request :: "document \<Rightarrow> (exc, control_request) res" where
  "parse_request d =
     (if field ''kind'' d = PStr ''target'' then
        require_exact_keys [''kind'', ''token'', ''linear_velocity_m_s'', ''angular_velocity_rad_s''] d
        (bind_res (require_target ''linear_velocity_m_s'' (field ''linear_velocity_m_s'' d) max_linear_velocity) (\<lambda>l.
         bind_res (require_target ''angular_velocity_rad_s'' (field ''angular_velocity_rad_s'' d) max_angular_velocity) (\<lambda>a.
           Inr (RqTarget l a))))
      else if field ''kind'' d = PStr ''generation'' then
        require_exact_keys [''kind'', ''token'', ''world_generation'', ''command_generation'', ''robot_model''] d
        (bind_res (require_generation ''world_generation'' (field ''world_generation'' d)) (\<lambda>_.
         bind_res (require_generation ''command_generation'' (field ''command_generation'' d)) (\<lambda>_.
         bind_res (require_robot_model (field ''robot_model'' d)) (\<lambda>_. Inr RqGeneration))))
      else if field ''kind'' d = PStr ''status'' then
        require_exact_keys [''kind'', ''token'', ''state''] d
        (bind_res (parse_status (field ''state'' d)) (\<lambda>st. Inr (RqStatus st)))
      else if field ''kind'' d = PStr ''stop'' then
        require_exact_keys [''kind'', ''token'', ''reason''] d
        (bind_res (parse_stop (field ''reason'' d)) (\<lambda>r. Inr (RqStop r)))
      else Inl (value_error ''control message kind is invalid''))"

subsection \<open>Operations\<close>

abbreviation permission_error :: "string \<Rightarrow> exc" where
  "permission_error m \<equiv> Exc (OtherErr ''PermissionError'') (lit m)"

definition fresh_session :: "int \<Rightarrow> int \<Rightarrow> int \<Rightarrow> bytes \<Rightarrow> bytes \<Rightarrow> runsim_session" where
  \<comment> \<open>the constructor\<close>
  "fresh_session pid uid orchestrator session_id tok =
     \<lparr>rs_command_pid = pid, rs_command_uid = uid, rs_orchestrator_pid = orchestrator,
      rs_session_id = session_id, rs_token = tok, rs_state = RsLaunching, rs_linear = f_zero,
      rs_angular = f_zero, rs_safe_stop_reason = None, rs_last_target = None, rs_target_epoch = 0,
      rs_finalized = False\<rparr>"

definition socket_path_max_bytes :: nat where
  "socket_path_max_bytes = 107"

definition rs_create ::
  "pyval \<Rightarrow> pyval \<Rightarrow> pyval \<Rightarrow> int \<Rightarrow> int \<Rightarrow> pyval \<Rightarrow> pyval \<Rightarrow> nat \<Rightarrow> (exc, unit) res \<Rightarrow> (exc, runsim_session) res" where
  \<comment> \<open>\<open>os_uid\<close> and \<open>os_pid\<close> stand in for a missing uid and orchestrator; the path has \<open>path_bytes\<close>
     bytes, and \<open>lock\<close> is what writing the launch record did\<close>
  "rs_create command_pid command_uid orchestrator_pid os_uid os_pid session_id tok path_bytes lock =
     bind_res (require_pid ''command_pid'' command_pid) (\<lambda>pid.
     bind_res (require_uid ''command_uid'' (if command_uid = PNone then PInt os_uid else command_uid)) (\<lambda>uid.
     bind_res (require_pid ''orchestrator_pid'' (if orchestrator_pid = PNone then PInt os_pid else orchestrator_pid)) (\<lambda>orch.
     bind_res (require_bytes ''session_id'' session_id 16) (\<lambda>sid.
     bind_res (require_bytes ''token'' tok 32) (\<lambda>t.
     ensure (path_bytes \<le> socket_path_max_bytes) (value_error ''Unix socket path exceeds 107 bytes'')
     (bind_res lock (\<lambda>_. Inr (fresh_session pid uid orch sid t))))))))"

definition verify_command_peer :: "pyval \<Rightarrow> pyval \<Rightarrow> runsim_session \<Rightarrow> (exc, unit) res" where
  "verify_command_peer pid uid s =
     bind_res (require_pid ''Command peer pid'' pid) (\<lambda>p.
     bind_res (require_uid ''Command peer uid'' uid) (\<lambda>u.
     ensure (p = rs_command_pid s) (permission_error ''unknown Command PID'')
     (ensure (u = rs_command_uid s) (permission_error ''Command peer uid does not match launch record'')
     (Inr ()))))"

definition verify_client_peer :: "pyval \<Rightarrow> pyval \<Rightarrow> int \<Rightarrow> (exc, unit) res" where
  "verify_client_peer pid uid command_uid =
     bind_res (require_pid ''control client pid'' pid) (\<lambda>_.
     bind_res (require_uid ''control client uid'' uid) (\<lambda>u.
     ensure (u = command_uid) (permission_error ''control client uid does not match launch record'') (Inr ())))"

definition rs_safe_stop :: "string \<Rightarrow> runsim_state \<Rightarrow> runsim_session \<Rightarrow> runsim_session" where
  "rs_safe_stop reason state s =
     (let s = s\<lparr>rs_target_epoch := rs_target_epoch s + 1, rs_linear := f_zero, rs_angular := f_zero,
               rs_last_target := None, rs_safe_stop_reason := Some reason\<rparr>
      in if state = RsSafeStop \<and> rs_state s \<in> {RsStopping, RsClosed} then s
         else if state = RsStopping \<and> rs_state s = RsClosed then s
         else s\<lparr>rs_state := state\<rparr>)"

definition rs_accept_target :: "pyfloat \<Rightarrow> pyfloat \<Rightarrow> pyval \<Rightarrow> int \<Rightarrow> (exc, runsim_session, unit) op" where
  "rs_accept_target l a now epoch s =
     (case require_now now of
        Inl e \<Rightarrow> (Inl e, s)
      | Inr t \<Rightarrow>
          if epoch \<noteq> rs_target_epoch s then (Inl (value_error ''runSim target was revoked before commit''), s)
          else if rs_state s \<in> {RsStopping, RsClosed} then (Inl (value_error ''runSim session is stopping''), s)
          else (Inr (), s\<lparr>rs_linear := l, rs_angular := a, rs_last_target := Some t,
                         rs_safe_stop_reason := None, rs_state := RsActive\<rparr>))"

definition rs_accept_status :: "runsim_state \<Rightarrow> (exc, runsim_session, unit) op" where
  "rs_accept_status state s =
     (if rs_state s = RsClosed \<and> state \<noteq> RsClosed
      then (Inl (value_error ''status transition cannot revive a closed runSim session''), s)
      else if rs_state s = RsStopping \<and> state \<notin> {RsStopping, RsClosed}
      then (Inl (value_error ''status transition cannot revive a stopping runSim session''), s)
      else if state \<in> {RsSafeStop, RsStopping, RsClosed}
      then (Inr (), rs_safe_stop (''status_'' @ runsim_state_value state) state s)
      else (Inr (), s\<lparr>rs_state := state\<rparr>))"

definition rs_begin :: "runsim_session \<Rightarrow> int \<times> string" where
  "rs_begin s = (rs_target_epoch s, hex (rs_token s))"

definition rs_parse ::
  "(bytes \<Rightarrow> (exc, pyval) res) \<Rightarrow> int \<Rightarrow> string \<Rightarrow> pyval \<Rightarrow> pyval \<Rightarrow> pyval \<Rightarrow> (exc, control_request) res" where
  \<comment> \<open>what happens with the lock free\<close>
  "rs_parse loads command_uid expected payload client_pid peer_uid =
     bind_res (verify_client_peer client_pid peer_uid command_uid) (\<lambda>_.
     bind_res (decode_control_document loads payload) (\<lambda>d.
     bind_res (check_token expected (field ''token'' d)) (\<lambda>_. parse_request d)))"

definition rs_commit :: "int \<Rightarrow> pyval \<Rightarrow> control_request \<Rightarrow> (exc, runsim_session, control_message) op" where
  "rs_commit epoch now request s =
     (case request of
        RqTarget l a \<Rightarrow>
          (case rs_accept_target l a now epoch s of
             (Inl e, s') \<Rightarrow> (Inl e, s')
           | (Inr u, s') \<Rightarrow> (Inr ((plain_message ''target'')\<lparr>cm_linear := Some l, cm_angular := Some a\<rparr>), s'))
      | RqGeneration \<Rightarrow> (Inr (plain_message ''generation''), s)
      | RqStatus st \<Rightarrow>
          (case rs_accept_status st s of
             (Inl e, s') \<Rightarrow> (Inl e, s')
           | (Inr u, s') \<Rightarrow> (Inr ((plain_message ''status'')\<lparr>cm_state := Some (runsim_state_value st)\<rparr>), s'))
      | RqStop r \<Rightarrow>
          (Inr ((plain_message ''stop'')\<lparr>cm_reason := Some r\<rparr>), rs_safe_stop ''stop_request'' RsStopping s))"

definition rs_finish :: "int \<Rightarrow> pyval \<Rightarrow> (exc, control_request) res \<Rightarrow> (exc, runsim_session, control_message) op" where
  "rs_finish epoch now parsed s = (case parsed of Inl e \<Rightarrow> (Inl e, s) | Inr request \<Rightarrow> rs_commit epoch now request s)"

definition accept_client_message ::
  "(bytes \<Rightarrow> (exc, pyval) res) \<Rightarrow> pyval \<Rightarrow> pyval \<Rightarrow> pyval \<Rightarrow> pyval \<Rightarrow> (exc, runsim_session, control_message) op" where
  \<comment> \<open>with nothing in between\<close>
  "accept_client_message loads payload client_pid peer_uid now s =
     (case rs_begin s of
        (epoch, expected) \<Rightarrow>
          rs_finish epoch now (rs_parse loads (rs_command_uid s) expected payload client_pid peer_uid) s)"

definition connection_closed :: "runsim_session \<Rightarrow> runsim_session" where
  "connection_closed = rs_safe_stop ''connection_closed'' RsSafeStop"

definition keyboard_released :: "runsim_session \<Rightarrow> runsim_session" where
  "keyboard_released = rs_safe_stop ''keyboard_released'' RsSafeStop"

definition window_focus_lost :: "runsim_session \<Rightarrow> runsim_session" where
  "window_focus_lost = rs_safe_stop ''window_focus_lost'' RsSafeStop"

definition expire_manual_target :: "pyval \<Rightarrow> (exc, runsim_session, bool) op" where
  "expire_manual_target now s =
     (case require_now now of
        Inl e \<Rightarrow> (Inl e, s)
      | Inr t \<Rightarrow>
          (case rs_last_target s of
             None \<Rightarrow> (Inr False, s)
           | Some set_at \<Rightarrow>
               if f_lt t (f_add set_at manual_target_lease) then (Inr False, s)
               else (Inr True, rs_safe_stop ''manual_target_timeout'' RsSafeStop s)))"

definition rs_close :: "(exc, unit) res \<Rightarrow> (exc, runsim_session, unit) op" where
  \<comment> \<open>\<open>removed\<close> is what removing the launch record did; the credentials go either way\<close>
  "rs_close removed s =
     (if rs_finalized s then (Inr (), s)
      else (removed, (rs_safe_stop ''session_closed'' RsClosed s)
                      \<lparr>rs_session_id := [], rs_token := [], rs_finalized := True\<rparr>))"

record runsim_snapshot =
  rn_state :: runsim_state
  rn_command_pid :: int
  rn_command_uid :: int
  rn_linear :: pyfloat
  rn_angular :: pyfloat
  rn_safe_stop_reason :: "string option"
  rn_last_target :: "pyfloat option"

definition rs_snapshot :: "runsim_session \<Rightarrow> runsim_snapshot" where
  "rs_snapshot s =
     \<lparr>rn_state = rs_state s, rn_command_pid = rs_command_pid s, rn_command_uid = rs_command_uid s,
      rn_linear = rs_linear s, rn_angular = rs_angular s, rn_safe_stop_reason = rs_safe_stop_reason s,
      rn_last_target = rs_last_target s\<rparr>"

definition server_authentication :: "runsim_session \<Rightarrow> pyval" where
  "server_authentication s =
     PDict [(PStr ''command_pid'', PInt (rs_command_pid s)), (PStr ''command_uid'', PInt (rs_command_uid s)),
            (PStr ''protocol'', PStr protocol_name), (PStr ''session_id'', PStr (hex (rs_session_id s))),
            (PStr ''token'', PStr (hex (rs_token s)))]"

subsection \<open>Runs with messages in flight\<close>

text \<open>
  The session, the (epoch, token) pairs read by messages being checked, and the targets committed so
  far with the time of each.
\<close>

type_synonym session_system = "runsim_session \<times> (int \<times> string) list \<times> (pyfloat \<times> pyfloat \<times> pyfloat) list"

definition committed_target :: "pyval \<Rightarrow> (exc, control_request) res \<Rightarrow> (exc, 'a) res \<Rightarrow> (pyfloat \<times> pyfloat \<times> pyfloat) list" where
  "committed_target now parsed outcome =
     (case (parsed, require_now now, outcome) of
        (Inr (RqTarget l a), Inr t, Inr _) \<Rightarrow> [(l, a, t)]
      | _ \<Rightarrow> [])"

inductive session_step :: "(bytes \<Rightarrow> (exc, pyval) res) \<Rightarrow> session_system \<Rightarrow> session_system \<Rightarrow> bool" for loads where
  begin_message: "session_step loads (s, ps, h) (s, ps @ [rs_begin s], h)"
| finish_message:
    "(epoch, expected) \<in> set ps \<Longrightarrow>
     rs_parse loads (rs_command_uid s) expected payload pid uid = parsed \<Longrightarrow>
     rs_finish epoch now parsed s = (r, s') \<Longrightarrow>
     session_step loads (s, ps, h) (s', ps, h @ committed_target now parsed r)"
| closed_connection: "session_step loads (s, ps, h) (connection_closed s, ps, h)"
| released_keyboard: "session_step loads (s, ps, h) (keyboard_released s, ps, h)"
| lost_focus: "session_step loads (s, ps, h) (window_focus_lost s, ps, h)"
| lease_check: "expire_manual_target now s = (r, s') \<Longrightarrow> session_step loads (s, ps, h) (s', ps, h)"
| close_session: "rs_close removed s = (r, s') \<Longrightarrow> session_step loads (s, ps, h) (s', ps, h)"

abbreviation session_steps :: "(bytes \<Rightarrow> (exc, pyval) res) \<Rightarrow> session_system \<Rightarrow> session_system \<Rightarrow> bool" where
  "session_steps loads \<equiv> (session_step loads)\<^sup>*\<^sup>*"

inductive_cases session_stepE: "session_step loads (s, ps, h) y"

definition moving :: "runsim_session \<Rightarrow> bool" where
  "moving s \<longleftrightarrow> rs_linear s \<noteq> f_zero \<or> rs_angular s \<noteq> f_zero"

definition session_inv :: "session_system \<Rightarrow> bool" where
  "session_inv x \<longleftrightarrow>
     (case x of (s, ps, h) \<Rightarrow>
        speed_in max_linear_velocity (rs_linear s) \<and> speed_in max_angular_velocity (rs_angular s)
        \<and> (\<forall>(epoch, tok) \<in> set ps. epoch \<le> rs_target_epoch s)
        \<and> (case rs_last_target s of
             None \<Rightarrow> \<not> moving s
           | Some t \<Rightarrow> h \<noteq> [] \<and> last h = (rs_linear s, rs_angular s, t)
               \<and> rs_state s \<in> {RsLaunching, RsReady, RsActive} \<and> rs_safe_stop_reason s = None))"

definition stage :: "runsim_state \<Rightarrow> nat" where
  "stage st = (case st of RsStopping \<Rightarrow> 1 | RsClosed \<Rightarrow> 2 | _ \<Rightarrow> 0)"

lemma safe_stop_effect [simp]:
  "rs_linear (rs_safe_stop r st s) = f_zero" "rs_angular (rs_safe_stop r st s) = f_zero"
  "rs_last_target (rs_safe_stop r st s) = None" "rs_target_epoch (rs_safe_stop r st s) = rs_target_epoch s + 1"
  "rs_safe_stop_reason (rs_safe_stop r st s) = Some r" "rs_token (rs_safe_stop r st s) = rs_token s"
  by (simp_all add: rs_safe_stop_def Let_def)

lemma safe_stop_stage:
  "st \<in> {RsSafeStop, RsStopping, RsClosed} \<Longrightarrow>
   stage (rs_state (rs_safe_stop r st s)) = max (stage (rs_state s)) (stage st)"
  by (cases "rs_state s") (auto simp: rs_safe_stop_def stage_def Let_def)

lemma speed_in_zero: "0 \<le> m \<Longrightarrow> speed_in (Fin m) f_zero"
  by (simp add: speed_in_def)

lemma speeds_in_zero [simp]:
  "speed_in max_linear_velocity f_zero" "speed_in max_angular_velocity f_zero"
  by code_simp+

lemma require_target_bound: "require_target n v m = Inr x \<Longrightarrow> m \<noteq> NaN \<Longrightarrow> speed_in m x"
  by (cases m; cases x)
    (auto simp: require_target_def require_finite_def speed_in_def Let_def res_simps f_le_def
       split: pyval.splits)

lemma max_velocities_not_NaN [simp]: "max_linear_velocity \<noteq> NaN" "max_angular_velocity \<noteq> NaN"
  by (simp_all add: max_linear_velocity_def max_angular_velocity_def)

lemma parsed_target_bound:
  "rs_parse loads uid expected payload pid peer = Inr (RqTarget l a) \<Longrightarrow>
   speed_in max_linear_velocity l \<and> speed_in max_angular_velocity a"
  by (auto simp: rs_parse_def parse_request_def res_simps require_target_bound split: if_splits)

lemma session_inv_stopped:
  "session_inv (s, ps, h) \<Longrightarrow> session_inv (rs_safe_stop r st s, ps, h)"
  by (auto simp: session_inv_def moving_def split: option.splits)

lemma accept_target_cases:
  assumes "rs_accept_target l a now epoch s = (r, s')"
  shows "(\<exists>e. r = Inl e \<and> s' = s)
     \<or> (\<exists>t. r = Inr () \<and> require_now now = Inr t \<and> epoch = rs_target_epoch s
          \<and> rs_state s \<notin> {RsStopping, RsClosed}
          \<and> s' = s\<lparr>rs_linear := l, rs_angular := a, rs_last_target := Some t,
                  rs_safe_stop_reason := None, rs_state := RsActive\<rparr>)"
  using assms by (auto simp: rs_accept_target_def split: sum.splits if_splits)

lemma accept_status_cases:
  assumes "rs_accept_status st s = (r, s')"
  shows "s' = s
     \<or> (\<exists>reason st. st \<in> {RsSafeStop, RsStopping, RsClosed} \<and> s' = rs_safe_stop reason st s
          \<and> stage (rs_state s) \<le> stage (rs_state s'))
     \<or> (\<exists>st. st \<in> {RsLaunching, RsReady, RsActive} \<and> rs_state s \<notin> {RsStopping, RsClosed} \<and> s' = s\<lparr>rs_state := st\<rparr>)"
proof -
  consider "s' = s" | "st \<in> {RsSafeStop, RsStopping, RsClosed}" "s' = rs_safe_stop (''status_'' @ runsim_state_value st) st s"
    | "st \<notin> {RsSafeStop, RsStopping, RsClosed}" "rs_state s \<notin> {RsStopping, RsClosed}" "s' = s\<lparr>rs_state := st\<rparr>"
    using assms by (auto simp: rs_accept_status_def split: if_splits)
  then show ?thesis
  proof cases
    case 2
    then have "stage (rs_state s) \<le> stage (rs_state s')" using safe_stop_stage [OF 2(1)] by simp
    with 2 show ?thesis by blast
  next
    case 3
    then have "st \<in> {RsLaunching, RsReady, RsActive}" by (cases st) simp_all
    with 3 show ?thesis by blast
  qed simp
qed

lemma finish_cases:
  assumes "rs_finish epoch now parsed s = (r, s')"
  shows "(s' = s \<and> committed_target now parsed r = [])
     \<or> (\<exists>l a t. parsed = Inr (RqTarget l a) \<and> require_now now = Inr t \<and> epoch = rs_target_epoch s
          \<and> rs_state s \<notin> {RsStopping, RsClosed} \<and> committed_target now parsed r = [(l, a, t)]
          \<and> s' = s\<lparr>rs_linear := l, rs_angular := a, rs_last_target := Some t,
                  rs_safe_stop_reason := None, rs_state := RsActive\<rparr>)
     \<or> (\<exists>reason st. st \<in> {RsSafeStop, RsStopping, RsClosed} \<and> s' = rs_safe_stop reason st s
          \<and> stage (rs_state s) \<le> stage (rs_state s') \<and> committed_target now parsed r = [])
     \<or> (\<exists>st. st \<in> {RsLaunching, RsReady, RsActive} \<and> rs_state s \<notin> {RsStopping, RsClosed}
          \<and> s' = s\<lparr>rs_state := st\<rparr> \<and> committed_target now parsed r = [])"
proof (cases parsed)
  case (Inl e)
  with assms show ?thesis by (simp add: rs_finish_def committed_target_def)
next
  case (Inr request)
  show ?thesis
  proof (cases request)
    case (RqTarget l a)
    obtain r1 s1 where acc: "rs_accept_target l a now epoch s = (r1, s1)" by fastforce
    from accept_target_cases [OF acc] assms Inr RqTarget acc show ?thesis
      by (auto simp: rs_finish_def rs_commit_def committed_target_def split: sum.splits)
  next
    case RqGeneration
    with assms Inr show ?thesis by (simp add: rs_finish_def rs_commit_def committed_target_def split: sum.splits)
  next
    case (RqStatus st)
    obtain r1 s1 where acc: "rs_accept_status st s = (r1, s1)" by fastforce
    have "s' = s1" using assms Inr RqStatus acc by (auto simp: rs_finish_def rs_commit_def split: sum.splits)
    moreover have "committed_target now parsed r = []" by (simp add: committed_target_def Inr RqStatus split: sum.splits)
    ultimately show ?thesis using accept_status_cases [OF acc] by blast
  next
    case (RqStop reason)
    with assms Inr have "s' = rs_safe_stop ''stop_request'' RsStopping s" "committed_target now parsed r = []"
      by (auto simp: rs_finish_def rs_commit_def committed_target_def split: sum.splits)
    then show ?thesis using safe_stop_stage [of RsStopping "''stop_request''" s] by auto
  qed
qed

lemma session_step_inv:
  assumes "session_step loads x y" and "session_inv x"
  shows "session_inv y"
  using assms
proof cases
  case (begin_message s ps h)
  with assms(2) show ?thesis by (auto simp: session_inv_def rs_begin_def split: option.splits)
next
  case (finish_message epoch expected ps s payload pid uid parsed now r s' h)
  from finish_cases [OF finish_message(5)] show ?thesis
  proof (elim disjE exE conjE)
    fix l a t
    assume "parsed = Inr (RqTarget l a)" "committed_target now parsed r = [(l, a, t)]"
      "s' = s\<lparr>rs_linear := l, rs_angular := a, rs_last_target := Some t,
              rs_safe_stop_reason := None, rs_state := RsActive\<rparr>"
    with finish_message assms(2) parsed_target_bound [of loads "rs_command_uid s" expected payload pid uid l a]
    show ?thesis by (simp add: session_inv_def)
  next
    fix reason st
    assume "s' = rs_safe_stop reason st s" "committed_target now parsed r = []"
    with finish_message assms(2) session_inv_stopped show ?thesis by simp
  next
    fix st
    assume "st \<in> {RsLaunching, RsReady, RsActive}" "s' = s\<lparr>rs_state := st\<rparr>" "committed_target now parsed r = []"
    with finish_message assms(2) show ?thesis
      by (auto simp: session_inv_def moving_def split: option.splits)
  qed (use finish_message assms(2) in simp)
next
  case (lease_check now s r s' ps h)
  with assms(2) session_inv_stopped show ?thesis
    by (auto simp: expire_manual_target_def split: sum.splits option.splits if_splits)
next
  case (close_session removed s r s' ps h)
  have "session_inv (s'', ps, h) \<Longrightarrow>
      session_inv (s''\<lparr>rs_session_id := [], rs_token := [], rs_finalized := True\<rparr>, ps, h)" for s''
    by (simp add: session_inv_def moving_def split: option.splits)
  with close_session assms(2) session_inv_stopped show ?thesis by (auto simp: rs_close_def split: if_splits)
qed (use assms(2) session_inv_stopped in
      \<open>simp_all add: connection_closed_def keyboard_released_def window_focus_lost_def\<close>)

lemma session_steps_inv: "session_steps loads x y \<Longrightarrow> session_inv x \<Longrightarrow> session_inv y"
  by (induction rule: rtranclp_induct) (auto dest: session_step_inv)

lemma fresh_session_inv: "session_inv (fresh_session pid uid orch sid tok, [], [])"
  by (simp add: session_inv_def fresh_session_def moving_def)

subsection \<open>Targets, leases and the end of a session\<close>

lemma session_step_epoch: "session_step loads (s, ps, h) (s', ps', h') \<Longrightarrow> rs_target_epoch s \<le> rs_target_epoch s'"
  by (erule session_stepE)
    (auto dest!: finish_cases simp: connection_closed_def keyboard_released_def window_focus_lost_def
       expire_manual_target_def rs_close_def split: sum.splits option.splits if_splits)

lemma edge_stage:
  "stage (rs_state s) \<le> stage (rs_state (rs_safe_stop r RsSafeStop s))"
  "stage (rs_state s) \<le> stage (rs_state (rs_safe_stop r RsClosed s))"
  by (simp_all add: safe_stop_stage)

lemma session_step_stage:
  assumes "session_step loads x y"
  shows "stage (rs_state (fst x)) \<le> stage (rs_state (fst y))"
  using assms
proof cases
  case (finish_message epoch expected ps s payload pid uid parsed now r s' h)
  from finish_cases [OF finish_message(5)] finish_message(1,2) show ?thesis
    by (elim disjE exE conjE) (auto simp: stage_def split: runsim_state.splits)
next
  case (lease_check now s r s' ps h)
  then show ?thesis using edge_stage(1)
    by (auto simp: expire_manual_target_def split: sum.splits option.splits if_splits)
next
  case (close_session removed s r s' ps h)
  then show ?thesis using edge_stage(2) by (auto simp: rs_close_def split: if_splits)
qed (auto simp: connection_closed_def keyboard_released_def window_focus_lost_def edge_stage)

lemma session_steps_stage:
  "session_steps loads x y \<Longrightarrow> stage (rs_state (fst x)) \<le> stage (rs_state (fst y))"
  by (induction rule: rtranclp_induct) (auto dest: session_step_stage)

definition session_epoch :: "session_system \<Rightarrow> int" where
  "session_epoch x = rs_target_epoch (fst x)"

definition session_revokes :: "session_system \<Rightarrow> session_system \<Rightarrow> bool" where
  "session_revokes x y \<longleftrightarrow> (\<exists>reason st. y = (rs_safe_stop reason st (fst x), snd x))"

definition session_admits :: "int \<Rightarrow> session_system \<Rightarrow> bool" where
  "session_admits e x \<longleftrightarrow> (\<exists>l a now. returns (fst (rs_accept_target l a now e (fst x))))"

interpretation session_target: revocable session_epoch "session_step loads" session_revokes session_admits for loads
proof
  show "session_step loads x y \<Longrightarrow> session_epoch x \<le> session_epoch y" for x y
    using session_step_epoch [of loads "fst x" "fst (snd x)" "snd (snd x)" "fst y" "fst (snd y)" "snd (snd y)"]
    by (simp add: session_epoch_def)
  show "session_revokes x y \<Longrightarrow> session_epoch x < session_epoch y" for x y
    by (auto simp: session_revokes_def session_epoch_def)
  show "e = session_epoch x" if "session_admits e x" for e x
  proof -
    from that obtain l a now r s' where "rs_accept_target l a now e (fst x) = (r, s')" "returns r"
      by (auto simp: session_admits_def) (metis prod.collapse)
    with accept_target_cases [of l a now e "fst x" r s'] show ?thesis by (auto simp: session_epoch_def)
  qed
qed


definition example_loads :: "bytes \<Rightarrow> (exc, pyval) res" where
  \<comment> \<open>two payloads: a target for the token of the session below, and a generation message with an empty token\<close>
  "example_loads b =
     (if b = [1] then Inr (PDict [(PStr ''kind'', PStr ''target''), (PStr ''token'', PStr ''ff''),
        (PStr ''linear_velocity_m_s'', PInt 1), (PStr ''angular_velocity_rad_s'', PFloat (Fin (1/2)))])
      else if b = [2] then Inr (PDict [(PStr ''kind'', PStr ''generation''), (PStr ''token'', PStr []),
        (PStr ''world_generation'', PInt 1), (PStr ''command_generation'', PInt 1),
        (PStr ''robot_model'', PStr ''df_mid'')])
      else Inl (value_error ''not JSON''))"

abbreviation example_session :: runsim_session where
  "example_session \<equiv> fresh_session 10 1000 1 [0] [255]"

abbreviation driving_session :: runsim_session where
  "driving_session \<equiv> example_session\<lparr>rs_linear := Fin 1, rs_angular := Fin (1/2), rs_last_target := Some (Fin 7),
     rs_safe_stop_reason := None, rs_state := RsActive\<rparr>"

lemma example_begin: "rs_begin example_session = (0, ''ff'')"
  by code_simp

lemma example_parse:
  "rs_parse example_loads 1000 ''ff'' (PBytes [1]) (PInt 77) (PInt 1000) = Inr (RqTarget (Fin 1) (Fin (1/2)))"
  by code_simp

lemma example_finish:
  "rs_finish 0 (PInt 7) (Inr (RqTarget (Fin 1) (Fin (1/2)))) example_session
     = (Inr ((plain_message ''target'')\<lparr>cm_linear := Some (Fin 1), cm_angular := Some (Fin (1/2))\<rparr>), driving_session)"
  by code_simp

lemma example_steps:
  "session_steps example_loads (example_session, [], []) (driving_session, [(0, ''ff'')], [(Fin 1, Fin (1/2), Fin 7)])"
proof -
  have "session_step example_loads (example_session, [], []) (example_session, [(0, ''ff'')], [])"
    using begin_message [of example_loads example_session "[]" "[]"] by (simp only: example_begin append_Nil)
  moreover have committed: "committed_target (PInt 7) (Inr (RqTarget (Fin 1) (Fin (1/2)))) (Inr m)
      = [(Fin 1, Fin (1/2), Fin 7)]" for m :: control_message
  proof -
    have "require_now (PInt 7) = Inr (Fin 7)" by code_simp
    then show ?thesis by (simp add: committed_target_def)
  qed
  have "(0, ''ff'') \<in> set [(0 :: int, ''ff'')]" by simp
  from finish_message [OF this _ example_finish, of example_loads "PBytes [1]" "PInt 77" "PInt 1000" "[]"] example_parse
  have "session_step example_loads (example_session, [(0, ''ff'')], [])
      (driving_session, [(0, ''ff'')], [(Fin 1, Fin (1/2), Fin 7)])"
    by (simp only: committed append_Nil fresh_session_def runsim_session.simps simp_thms)
  ultimately show ?thesis by (rule converse_rtranclp_into_rtranclp [OF _ r_into_rtranclp])
qed


text \<open>
  C27. A message that was being checked when its target was revoked never drives the vehicle: if any
  safe stop (a closed connection, a released key, a lost focus, an expired lease, a stop request, a
  status or the end of the session) comes after the message read the epoch, then however the session
  goes on, the commit of its target raises and changes nothing.
\<close>

theorem session_stale_target_refused:
  assumes "rs_begin s = (epoch, expected)" and "session_steps loads (s, ps, h) (s1, ps1, h1)"
    and "session_steps loads (rs_safe_stop reason st s1, ps1, h1) (s2, ps2, h2)"
  shows "\<exists>e. rs_commit epoch now (RqTarget l a) s2 = (Inl e, s2)"
proof -
  have "session_revokes (s1, ps1, h1) (rs_safe_stop reason st s1, ps1, h1)"
    by (auto simp: session_revokes_def)
  from session_target.revoked_not_admitted [OF assms(2) this assms(3)] assms(1)
  have "\<not> returns (fst (rs_accept_target l a now epoch s2))"
    by (auto simp: session_admits_def session_epoch_def rs_begin_def)
  moreover obtain r s3 where acc: "rs_accept_target l a now epoch s2 = (r, s3)" by fastforce
  ultimately show ?thesis using accept_target_cases [OF acc] by (auto simp: rs_commit_def)
qed

theorem session_stale_target_refused_witness:
  "\<exists>e. rs_commit 0 (PInt 8) (RqTarget (Fin 1) (Fin 0)) (keyboard_released driving_session) = (Inl e, keyboard_released driving_session)"
  unfolding keyboard_released_def
  by (rule session_stale_target_refused [OF example_begin example_steps rtranclp.rtrancl_refl])

text \<open>
  Stopping is final: from a stopping or closed session no sequence of messages, statuses or edges
  leads back to a state in which the vehicle may be driven; the target stays zero, a closed session
  stays closed, and every target message is refused.
\<close>

theorem session_stopping_is_final:
  assumes "session_steps loads (fresh_session pid uid orch sid tok, [], []) (s, ps, h)"
    and "rs_state s \<in> {RsStopping, RsClosed}" and "session_steps loads (s, ps, h) (s', ps', h')"
  shows "\<not> moving s' \<and> rs_state s' \<in> {RsStopping, RsClosed} \<and> (rs_state s = RsClosed \<longrightarrow> rs_state s' = RsClosed)
    \<and> (\<exists>e. rs_commit epoch now (RqTarget l a) s' = (Inl e, s'))"
proof -
  have "session_steps loads (fresh_session pid uid orch sid tok, [], []) (s', ps', h')"
    using assms(1,3) by (rule rtranclp_trans)
  note inv = session_steps_inv [OF this fresh_session_inv]
  have st: "stage (rs_state s) \<le> stage (rs_state s')" using session_steps_stage [OF assms(3)] by simp
  with assms(2) have final: "rs_state s' \<in> {RsStopping, RsClosed}" "rs_state s = RsClosed \<Longrightarrow> rs_state s' = RsClosed"
    by (auto simp: stage_def split: runsim_state.splits)
  with inv have "\<not> moving s'" by (auto simp: session_inv_def split: option.splits)
  moreover obtain r s3 where acc: "rs_accept_target l a now epoch s' = (r, s3)" by fastforce
  then have "\<exists>e. rs_commit epoch now (RqTarget l a) s' = (Inl e, s')"
    using accept_target_cases [OF acc] final(1) by (auto simp: rs_commit_def)
  ultimately show ?thesis using final by blast
qed

theorem session_stopping_is_final_witness:
  "\<not> moving (connection_closed (snd (rs_close (Inr ()) driving_session)))"
proof -
  have "session_step example_loads (driving_session, [(0, ''ff'')], [(Fin 1, Fin (1/2), Fin 7)])
      (snd (rs_close (Inr ()) driving_session), [(0, ''ff'')], [(Fin 1, Fin (1/2), Fin 7)])"
    by (rule close_session [OF surjective_pairing])
  with example_steps have 1: "session_steps example_loads (example_session, [], [])
      (snd (rs_close (Inr ()) driving_session), [(0, ''ff'')], [(Fin 1, Fin (1/2), Fin 7)])" by (rule rtranclp.rtrancl_into_rtrancl)
  have 2: "rs_state (snd (rs_close (Inr ()) driving_session)) \<in> {RsStopping, RsClosed}"
    by code_simp
  show ?thesis
    by (rule session_stopping_is_final [OF 1 2 r_into_rtranclp, THEN conjunct1]) (rule closed_connection)
qed

text \<open>
  The lease holds: right after a lease check at any time, the vehicle is still driven only if the
  last committed target is less than 100 ms old at that time (in the doubles the code adds and
  compares); and a check that finds it older leaves the session stopped with target zero.
\<close>

theorem session_lease_enforced:
  assumes "session_steps loads (fresh_session pid uid orch sid tok, [], []) (s, ps, h)"
    and "expire_manual_target now s = (Inr expired, s')"
  shows "(moving s' \<longrightarrow> (\<exists>t x. require_now now = Inr x \<and> h \<noteq> [] \<and> last h = (rs_linear s', rs_angular s', t)
              \<and> f_lt x (f_add t manual_target_lease)))
    \<and> (expired \<longrightarrow> \<not> moving s' \<and> rs_last_target s' = None \<and> rs_state s' = RsSafeStop)"
proof -
  note inv = session_steps_inv [OF assms(1) fresh_session_inv]
  from assms(2) consider x where "require_now now = Inr x" "rs_last_target s = None" "s' = s" "\<not> expired"
    | x t where "require_now now = Inr x" "rs_last_target s = Some t" "f_lt x (f_add t manual_target_lease)" "s' = s" "\<not> expired"
    | t where "rs_last_target s = Some t" "s' = rs_safe_stop ''manual_target_timeout'' RsSafeStop s"
    by (auto simp: expire_manual_target_def split: sum.splits option.splits if_splits)
  then show ?thesis
  proof cases
    case 3
    then have "\<not> moving s'" "rs_last_target s' = None" by (simp_all add: moving_def)
    moreover have "rs_state s' = RsSafeStop" using 3 inv by (auto simp: session_inv_def rs_safe_stop_def Let_def)
    ultimately show ?thesis by blast
  qed (use inv in \<open>auto simp: session_inv_def\<close>)
qed

theorem session_lease_enforced_witness:
  "\<not> moving (snd (expire_manual_target (PFloat (fl (72/10))) driving_session))"
proof -
  have "expire_manual_target (PFloat (fl (72/10))) driving_session
      = (Inr True, rs_safe_stop ''manual_target_timeout'' RsSafeStop driving_session)"
    by code_simp
  from session_lease_enforced [OF example_steps this] this show ?thesis by simp
qed

subsection \<open>Authentication\<close>

lemma hex_digit_inj: "hex_digit m = hex_digit n \<Longrightarrow> m < 16 \<Longrightarrow> n < 16 \<Longrightarrow> m = n"
  by (auto simp: hex_digit_def take_bit_eq_mod dest!: arg_cong [of _ _ "of_char :: char \<Rightarrow> nat"] split: if_splits)

lemma hex_inj: "hex a = hex b \<Longrightarrow> a = b"
proof (induction a arbitrary: b)
  case Nil
  then show ?case by (cases b) (simp_all add: hex_def)
next
  case (Cons w a)
  then obtain v b' where b: "b = v # b'" by (cases b) (simp_all add: hex_def)
  have bound: "unat u < 256" for u :: "8 word" using unsigned_less [of u] by simp
  from Cons.prems b have "hex_digit (unat w div 16) = hex_digit (unat v div 16)"
    "hex_digit (unat w mod 16) = hex_digit (unat v mod 16)" "hex a = hex b'"
    by (simp_all add: hex_def)
  then have "unat w div 16 = unat v div 16" "unat w mod 16 = unat v mod 16" "a = b'"
    using bound [of w] bound [of v] Cons.IH by (auto dest!: hex_digit_inj)
  then have "unat w = unat v" by (metis div_mult_mod_eq)
  with \<open>a = b'\<close> b show ?case by (simp add: unsigned_word_eqI)
qed

lemma verify_ok: "verify_client_peer pid uid command_uid = Inr u \<Longrightarrow> uid = PInt command_uid"
  by (cases uid) (auto simp: verify_client_peer_def require_uid_def res_simps)

lemma check_token_ok: "check_token expected v = Inr u \<Longrightarrow> v = PStr expected"
  by (cases v) (auto simp: check_token_def res_simps)

lemma decode_ok:
  assumes "decode_control_document loads payload = Inr d"
  shows "\<exists>b. payload = PBytes b \<and> length b \<le> max_socket_message_bytes \<and> loads b = Inr (PDict d)
    \<and> no_duplicates (PDict d)"
proof -
  from assms obtain b where b: "payload = PBytes b" by (cases payload) (simp_all add: decode_control_document_def)
  with assms obtain v where v: "loads b = Inr v" by (cases "loads b") (simp_all add: decode_control_document_def ensure_def split: if_splits)
  with assms b have "v = PDict d" by (cases v) (auto simp: decode_control_document_def res_simps simp del: no_duplicates.simps)
  with assms b v show ?thesis by (auto simp: decode_control_document_def res_simps simp del: no_duplicates.simps)
qed

lemma parse_ok:
  assumes "rs_parse loads command_uid expected payload pid uid = Inr rq"
  shows "\<exists>b d. payload = PBytes b \<and> length b \<le> max_socket_message_bytes \<and> loads b = Inr (PDict d)
    \<and> no_duplicates (PDict d) \<and> uid = PInt command_uid \<and> field ''token'' d = PStr expected \<and> parse_request d = Inr rq"
proof -
  from assms obtain d u v where "verify_client_peer pid uid command_uid = Inr u"
    "decode_control_document loads payload = Inr d" "check_token expected (field ''token'' d) = Inr v"
    "parse_request d = Inr rq" by (auto simp: rs_parse_def res_simps)
  with verify_ok decode_ok check_token_ok show ?thesis by blast
qed



text \<open>
  Closing a session clears the token, and the empty token then authenticates: a generation message
  without a token is accepted by a closed session.
\<close>

lemma closed_session_accepts_empty_token:
  "fst (accept_client_message example_loads (PBytes [2]) (PInt 77) (PInt 1000) (PInt 7)
     (snd (rs_close (Inr ()) example_session))) = Inr (plain_message ''generation'')"
  by code_simp

text \<open>A velocity too large for a double escapes as an OverflowError, which no caller converts.\<close>

lemma huge_target_overflows:
  assumes "2 ^ 1024 \<le> n"
  shows "require_target name (PInt n) limit = Inl (overflow_error ''int too large to convert to float'')"
  using fl_huge_int [OF assms] by (simp add: require_target_def require_finite_def float_of_rat_def Let_def)

end
