(* ===== verification/CommandRelay.thy ===== *)
theory CommandRelay
  imports CommandSession
begin

text \<open>
  \<^verbatim>\<open>slope_sim/interfaces/v2/runsim_command_client.py\<close>: the socket client that pushes targets and
  generation changes to the Command process, and the relay process that renews the newest target on
  its own clock while the GUI thread only writes a shared slot.  The text writer of \<^verbatim>\<open>json.dumps\<close>, the
  decoder and the outcome of each socket call are arguments.  The relay and the thread that owns
  \<^verbatim>\<open>RunSimCommandRelayClient\<close> run interleaved: a step is one locked section or one pipe or event
  operation.  The version of the shared slot is an \<open>int\<close>; the code keeps it in a double, which counts
  exactly up to \<open>2 ^ 53\<close>.
\<close>

subsection \<open>The socket client\<close>

record command_client =
  cc_session :: runsim_session
  cc_connected :: bool

definition is_os_error :: "exc \<Rightarrow> bool" where
  \<comment> \<open>\<^verbatim>\<open>OSError\<close> and its subclasses\<close>
  "is_os_error e \<longleftrightarrow>
     exc_kind e \<in> {OSErr, TimeoutErr} \<union>
       OtherErr ` set [''PermissionError'', ''FileNotFoundError'', ''BrokenPipeError'', ''ConnectionResetError'',
         ''ConnectionRefusedError'', ''ConnectionAbortedError'', ''BlockingIOError'', ''InterruptedError'']"

definition new_command_client :: "runsim_session inst \<Rightarrow> (exc, command_client) res" where
  "new_command_client arg =
     (case arg of Foreign \<Rightarrow> Inl (value_error ''session must be a RunSimSession'')
      | Instance s \<Rightarrow> Inr \<lparr>cc_session = s, cc_connected = False\<rparr>)"

definition cc_connect :: "(exc, pyval \<times> pyval) res \<Rightarrow> (exc, command_client, unit) op" where
  \<comment> \<open>\<open>peer\<close> is what connecting gave: the peer's pid and uid\<close>
  "cc_connect peer c =
     (if cc_connected c then (Inr (), c)
      else case bind_res peer (\<lambda>(pid, uid). verify_command_peer pid uid (cc_session c)) of
             Inl e \<Rightarrow> (Inl e, c\<lparr>cc_session := connection_closed (cc_session c)\<rparr>)
           | Inr u \<Rightarrow> (Inr (), c\<lparr>cc_connected := True\<rparr>))"

definition cc_close :: "command_client \<Rightarrow> command_client" where
  "cc_close c = c\<lparr>cc_connected := False, cc_session := connection_closed (cc_session c)\<rparr>"

definition token_field :: "runsim_session \<Rightarrow> pyval \<times> pyval" where
  "token_field s = (PStr ''token'', PStr (hex (rs_token s)))"

definition target_document :: "pyval \<Rightarrow> pyval \<Rightarrow> runsim_session \<Rightarrow> pyval" where
  "target_document l a s =
     PDict [(PStr ''kind'', PStr ''target''), token_field s,
            (PStr ''linear_velocity_m_s'', l), (PStr ''angular_velocity_rad_s'', a)]"

definition generation_document :: "int \<Rightarrow> int \<Rightarrow> pyval \<Rightarrow> runsim_session \<Rightarrow> pyval" where
  "generation_document world command model s =
     PDict [(PStr ''kind'', PStr ''generation''), token_field s, (PStr ''world_generation'', PInt world),
            (PStr ''command_generation'', PInt command), (PStr ''robot_model'', model)]"

definition cc_transmit ::
  "(bytes \<Rightarrow> (exc, pyval) res) \<Rightarrow> bytes \<Rightarrow> pyval \<Rightarrow> (exc, unit) res \<Rightarrow> (exc, command_client, unit) op" where
  \<comment> \<open>the locked half both senders share: the local session checks the message, then it is sent\<close>
  "cc_transmit loads payload now sending c =
     (if \<not> cc_connected c then (Inl (runtime_error ''Command socket is not connected''), c)
      else case accept_client_message loads (PBytes payload) (PInt (rs_command_pid (cc_session c)))
                  (PInt (rs_command_uid (cc_session c))) now (cc_session c) of
             (r, s) \<Rightarrow>
               (case bind_res r (\<lambda>_. sending) of
                  Inr u \<Rightarrow> (Inr (), c\<lparr>cc_session := s\<rparr>)
                | Inl e \<Rightarrow>
                    (Inl e, if is_os_error e then cc_close (c\<lparr>cc_session := s\<rparr>) else c\<lparr>cc_session := s\<rparr>)))"

definition cc_send_target ::
  "(bytes \<Rightarrow> (exc, pyval) res) \<Rightarrow> (pyval \<Rightarrow> bytes) \<Rightarrow> pyval \<Rightarrow> pyval \<Rightarrow> pyval \<Rightarrow> (exc, unit) res \<Rightarrow>
   (exc, command_client, unit) op" where
  "cc_send_target loads dumps l a now sending c =
     cc_transmit loads (dumps (target_document l a (cc_session c))) now sending c"

definition positive_int :: "string \<Rightarrow> pyval \<Rightarrow> (exc, int) res" where
  "positive_int name v =
     (case v of PInt n \<Rightarrow> ensure (0 < n) (value_error (name @ '' must be a positive int'')) (Inr n)
      | _ \<Rightarrow> Inl (value_error (name @ '' must be a positive int'')))"

definition cc_sync_generation ::
  "(bytes \<Rightarrow> (exc, pyval) res) \<Rightarrow> (pyval \<Rightarrow> bytes) \<Rightarrow> pyval \<Rightarrow> pyval \<Rightarrow> pyval \<Rightarrow> pyval \<Rightarrow> (exc, unit) res \<Rightarrow>
   (exc, command_client, unit) op" where
  "cc_sync_generation loads dumps world command model now sending c =
     (case bind_res (positive_int ''world_generation'' world) (\<lambda>w.
            bind_res (positive_int ''command_generation'' command) (\<lambda>g. Inr (w, g))) of
        Inl e \<Rightarrow> (Inl e, c)
      | Inr (w, g) \<Rightarrow>
          cc_transmit loads (dumps (generation_document w g model (cc_session c))) now sending c)"

lemma closed_not_moving: "\<not> moving (connection_closed s)"
  by (simp add: connection_closed_def moving_def)

lemma cc_transmit_os_error:
  assumes "cc_transmit loads payload now sending c = (Inl e, c')" and "is_os_error e"
  shows "\<not> moving (cc_session c') \<and> \<not> cc_connected c'"
proof -
  obtain r s where acc: "accept_client_message loads (PBytes payload) (PInt (rs_command_pid (cc_session c)))
      (PInt (rs_command_uid (cc_session c))) now (cc_session c) = (r, s)" by fastforce
  show ?thesis
  proof (cases "cc_connected c")
    case True
    then have "c' = cc_close (c\<lparr>cc_session := s\<rparr>)"
      using assms acc by (auto simp: cc_transmit_def split: sum.splits)
    then show ?thesis by (simp add: cc_close_def closed_not_moving)
  next
    case False
    with assms have "e = runtime_error ''Command socket is not connected''" by (simp add: cc_transmit_def)
    with assms(2) show ?thesis by (simp add: is_os_error_def)
  qed
qed

lemma hex_ascii: "ascii (hex b)"
proof -
  have "(of_char (hex_digit n) :: nat) < 128" if "n < 16" for n
    using that by (auto simp: hex_digit_def take_bit_eq_mod)
  moreover have "unat w div 16 < 16" "unat w mod 16 < 16" for w :: "8 word"
  proof -
    have "unat w < 256" using unsigned_less [of w] by simp
    then show "unat w div 16 < 16" "unat w mod 16 < 16" by simp_all
  qed
  ultimately show ?thesis by (auto simp: ascii_def hex_def list_all_iff)
qed

lemma parse_target_document:
  assumes "loads payload = Inr (target_document l a s)" and "length payload \<le> max_socket_message_bytes"
    and "require_target ''linear_velocity_m_s'' l max_linear_velocity = Inr x"
    and "require_target ''angular_velocity_rad_s'' a max_angular_velocity = Inr y"
    and "0 < rs_command_pid s" and "0 \<le> rs_command_uid s"
  shows "rs_parse loads (rs_command_uid s) (hex (rs_token s)) (PBytes payload) (PInt (rs_command_pid s))
           (PInt (rs_command_uid s)) = Inr (RqTarget x y)"
proof -
  let ?d = "[(PStr ''kind'', PStr ''target''), token_field s,
            (PStr ''linear_velocity_m_s'', l), (PStr ''angular_velocity_rad_s'', a)]"
  have plain: "no_duplicates l" "no_duplicates a"
    using assms(3,4) by (auto simp: require_target_def require_finite_def Let_def split: pyval.splits)
  have names: "\<not> contains_text ''pointcloud'' (py_lower ''kind'')" "\<not> contains_text ''pointcloud'' (py_lower ''token'')"
    "\<not> contains_text ''pointcloud'' (py_lower ''linear_velocity_m_s'')"
    "\<not> contains_text ''pointcloud'' (py_lower ''angular_velocity_rad_s'')"
    by code_simp+
  have "decode_control_document loads (PBytes payload) = Inr ?d"
    using assms(1,2) plain names
    by (simp add: decode_control_document_def target_document_def token_field_def forbidden_key_def)
  moreover have "parse_request ?d = Inr (RqTarget x y)"
    using assms(3,4) by (auto simp: parse_request_def field_def token_field_def has_keys_def)
  ultimately show ?thesis using assms(5,6) hex_ascii
    by (simp add: rs_parse_def verify_client_peer_def require_pid_def require_uid_def check_token_def
        field_def token_field_def)
qed

text \<open>
  Sending a target through a connected client either takes effect exactly or leaves the vehicle
  stopped: for a live session and a target within the limits the client's session holds exactly that
  target with a fresh lease when the send succeeds, and when the socket fails the session holds
  target zero and the connection is gone, so that no older target survives a broken connection.
\<close>

theorem command_client_target_effect:
  assumes "cc_connected c" and "0 < rs_command_pid (cc_session c)" and "0 \<le> rs_command_uid (cc_session c)"
    and "rs_state (cc_session c) \<notin> {RsStopping, RsClosed}"
    and "loads (dumps (target_document l a (cc_session c))) = Inr (target_document l a (cc_session c))"
    and "length (dumps (target_document l a (cc_session c))) \<le> max_socket_message_bytes"
    and "require_target ''linear_velocity_m_s'' l max_linear_velocity = Inr x"
    and "require_target ''angular_velocity_rad_s'' a max_angular_velocity = Inr y"
    and "require_now now = Inr t"
    and "cc_send_target loads dumps l a now sending c = (r, c')"
  shows "(sending = Inr () \<longrightarrow> r = Inr () \<and> cc_connected c'
            \<and> (rs_linear (cc_session c'), rs_angular (cc_session c'), rs_last_target (cc_session c')) = (x, y, Some t))
    \<and> (\<forall>e. sending = Inl e \<and> is_os_error e \<longrightarrow> r = Inl e \<and> \<not> moving (cc_session c') \<and> \<not> cc_connected c')"
proof -
  let ?s = "cc_session c"
  let ?s' = "?s\<lparr>rs_linear := x, rs_angular := y, rs_last_target := Some t, rs_safe_stop_reason := None, rs_state := RsActive\<rparr>"
  let ?m = "(plain_message ''target'')\<lparr>cm_linear := Some x, cm_angular := Some y\<rparr>"
  have "accept_client_message loads (PBytes (dumps (target_document l a ?s))) (PInt (rs_command_pid ?s))
      (PInt (rs_command_uid ?s)) now ?s = (Inr ?m, ?s')"
    using parse_target_document [where s = ?s and loads = loads and payload = "dumps (target_document l a ?s)", OF assms(5,6,7,8) assms(2,3)] assms(4,9)
    by (simp add: accept_client_message_def rs_begin_def rs_finish_def rs_commit_def rs_accept_target_def)
  with assms(1,10) have step: "(r, c') =
      (case bind_res (Inr ?m) (\<lambda>_. sending) of
         Inr u \<Rightarrow> (Inr (), c\<lparr>cc_session := ?s'\<rparr>)
       | Inl e \<Rightarrow> (Inl e, if is_os_error e then cc_close (c\<lparr>cc_session := ?s'\<rparr>) else c\<lparr>cc_session := ?s'\<rparr>))"
    by (simp add: cc_send_target_def cc_transmit_def)
  show ?thesis
  proof (cases sending)
    case (Inl e)
    with step show ?thesis by (simp add: cc_close_def closed_not_moving)
  next
    case (Inr u)
    with step assms(1) show ?thesis by simp
  qed
qed

theorem command_client_target_effect_witness:
  "\<not> moving (cc_session (snd (cc_send_target (\<lambda>_. Inr (target_document (PInt 1) (PInt 0) example_session)) (\<lambda>_. [7])
     (PInt 1) (PInt 0) (PInt 5) (Inl (Exc OSErr [])) \<lparr>cc_session = example_session, cc_connected = True\<rparr>)))"
proof -
  have checks: "require_target ''linear_velocity_m_s'' (PInt 1) max_linear_velocity = Inr (Fin 1)"
    "require_target ''angular_velocity_rad_s'' (PInt 0) max_angular_velocity = Inr (Fin 0)"
    "require_now (PInt 5) = Inr (Fin 5)" by code_simp+
  show ?thesis
    using command_client_target_effect [where c = "\<lparr>cc_session = example_session, cc_connected = True\<rparr>"
        and loads = "\<lambda>_. Inr (target_document (PInt 1) (PInt 0) example_session)" and dumps = "\<lambda>_. [7]"
        and sending = "Inl (Exc OSErr [])", OF _ _ _ _ _ _ checks surjective_pairing]
    by (simp add: fresh_session_def max_socket_message_bytes_def is_os_error_def)
qed

subsection \<open>The relay and its shared slot\<close>

type_synonym drive_target = "pyfloat \<times> pyfloat"

abbreviation stand_still :: drive_target where
  "stand_still \<equiv> (f_zero, f_zero)"

datatype relay_message =
    RmGeneration int int string int  \<comment> \<open>world, command, vehicle, target cutoff\<close>
  | RmClose
  | RmOther

record relay_link =
  lk_target :: drive_target
  lk_version :: int
  lk_queue :: "relay_message list"
  lk_wake :: bool
  lk_closed :: bool

record relay_metrics =
  mt_count :: pyfloat
  mt_last_at :: pyfloat
  mt_max_gap :: pyfloat
  mt_linear :: pyfloat
  mt_angular :: pyfloat

datatype relay_end = RelayRunning | RelayClosed | RelayFailed exc

record relay =
  rl_latest :: "drive_target option"
  rl_next_deadline :: "pyfloat option"
  rl_observed :: int
  rl_cutoff :: int
  rl_metrics :: relay_metrics
  rl_end :: relay_end

definition new_relay_link :: relay_link where
  "new_relay_link = \<lparr>lk_target = stand_still, lk_version = 0, lk_queue = [], lk_wake = False, lk_closed = False\<rparr>"

definition new_relay :: relay where
  "new_relay = \<lparr>rl_latest = None, rl_next_deadline = None, rl_observed = 0, rl_cutoff = 0,
     rl_metrics = \<lparr>mt_count = f_zero, mt_last_at = f_zero, mt_max_gap = f_zero, mt_linear = f_zero, mt_angular = f_zero\<rparr>,
     rl_end = RelayRunning\<rparr>"

text \<open>The owner's side.  \<open>running\<close> is what \<^verbatim>\<open>_require_running_locked\<close> finds in the process and its
  status pipe: the exception to raise, if any.\<close>

definition require_running :: "exc option \<Rightarrow> relay_link \<Rightarrow> (exc, unit) res" where
  "require_running running k =
     (if lk_closed k then Inl (runtime_error ''Command relay is closed'')
      else case running of None \<Rightarrow> Inr () | Some e \<Rightarrow> Inl e)"

definition link_store_target :: "drive_target \<Rightarrow> exc option \<Rightarrow> (exc, relay_link, unit) op" where
  \<comment> \<open>up to setting the wake event\<close>
  "link_store_target t running k =
     (case require_running running k of
        Inl e \<Rightarrow> (Inl e, k)
      | Inr u \<Rightarrow> (Inr (), k\<lparr>lk_target := t, lk_version := lk_version k + 1\<rparr>))"

definition link_sync_generation :: "int \<Rightarrow> int \<Rightarrow> string \<Rightarrow> exc option \<Rightarrow> (exc, relay_link, unit) op" where
  "link_sync_generation world command model running k =
     (case require_running running k of
        Inl e \<Rightarrow> (Inl e, k)
      | Inr u \<Rightarrow> (Inr (), k\<lparr>lk_queue := lk_queue k @ [RmGeneration world command model (lk_version k)]\<rparr>))"

definition link_wake :: "relay_link \<Rightarrow> relay_link" where
  "link_wake k = k\<lparr>lk_wake := True\<rparr>"

definition link_close :: "bool \<Rightarrow> relay_link \<Rightarrow> relay_link" where
  \<comment> \<open>up to setting the wake event; \<open>alive\<close> and sending the message worked\<close>
  "link_close alive k =
     (if lk_closed k then k
      else k\<lparr>lk_closed := True, lk_queue := (if alive then lk_queue k @ [RmClose] else lk_queue k)\<rparr>)"

text \<open>The relay's side.\<close>

definition relay_receive :: "relay_message \<Rightarrow> (exc, unit) res \<Rightarrow> relay \<Rightarrow> relay" where
  \<comment> \<open>one message; \<open>syncing\<close> is what the client's \<^verbatim>\<open>sync_generation\<close> did\<close>
  "relay_receive m syncing r =
     (case m of
        RmClose \<Rightarrow> r\<lparr>rl_end := RelayClosed\<rparr>
      | RmOther \<Rightarrow> r\<lparr>rl_end := RelayFailed (runtime_error ''Command relay received an invalid message'')\<rparr>
      | RmGeneration world command model cutoff \<Rightarrow>
          (case syncing of
             Inl e \<Rightarrow> r\<lparr>rl_end := RelayFailed e\<rparr>
           | Inr u \<Rightarrow> r\<lparr>rl_latest := None, rl_next_deadline := None, rl_cutoff := max (rl_cutoff r) cutoff\<rparr>))"

definition renew_metrics :: "drive_target \<Rightarrow> pyfloat \<Rightarrow> relay_metrics \<Rightarrow> relay_metrics" where
  "renew_metrics t observed_at m =
     (let gap = (if f_eq (mt_last_at m) f_zero then f_zero else f_sub observed_at (mt_last_at m))
      in \<lparr>mt_count = f_add (mt_count m) (Fin 1), mt_last_at = observed_at, mt_max_gap = f_max (mt_max_gap m) gap,
          mt_linear = fst t, mt_angular = snd t\<rparr>)"

definition renew_target :: "drive_target \<Rightarrow> pyfloat \<Rightarrow> (exc, unit) res \<Rightarrow> relay \<Rightarrow> relay" where
  "renew_target t observed_at sending r =
     (case sending of
        Inl e \<Rightarrow> r\<lparr>rl_end := RelayFailed e\<rparr>
      | Inr u \<Rightarrow> r\<lparr>rl_metrics := renew_metrics t observed_at (rl_metrics r)\<rparr>)"

definition takes_target :: "int \<Rightarrow> relay \<Rightarrow> bool" where
  "takes_target version r \<longleftrightarrow> rl_observed r < version \<and> rl_cutoff r < version"

definition sends_now :: "drive_target \<Rightarrow> relay \<Rightarrow> bool" where
  \<comment> \<open>a first target, or the zero target, does not wait for the next deadline\<close>
  "sends_now t r \<longleftrightarrow> rl_next_deadline r = None \<or> (f_eq (fst t) f_zero \<and> f_eq (snd t) f_zero)"

definition relay_take :: "pyfloat \<Rightarrow> drive_target \<Rightarrow> int \<Rightarrow> pyfloat \<Rightarrow> (exc, unit) res \<Rightarrow> relay \<Rightarrow> drive_target list \<times> relay" where
  \<comment> \<open>the slot as read under its lock; what the client was asked to send\<close>
  "relay_take period t version now sending r =
     (if \<not> takes_target version r then ([], r)
      else let r = r\<lparr>rl_observed := version, rl_latest := Some t\<rparr>
           in if sends_now t r
              then let r' = renew_target t now sending r
                   in ([t], if rl_end r' = RelayRunning then r'\<lparr>rl_next_deadline := Some (f_add now period)\<rparr> else r')
              else ([], r))"

definition relay_renew :: "pyfloat \<Rightarrow> pyfloat \<Rightarrow> (exc, unit) res \<Rightarrow> relay \<Rightarrow> drive_target list \<times> relay" where
  "relay_renew period now sending r =
     (case (rl_latest r, rl_next_deadline r) of
        (Some t, Some deadline) \<Rightarrow>
          if f_lt now deadline then ([], r)
          else let r' = renew_target t now sending r; d = f_add deadline period
               in ([t], if rl_end r' = RelayRunning
                        then r'\<lparr>rl_next_deadline := Some (if f_le d now then f_add now period else d)\<rparr> else r')
      | _ \<Rightarrow> ([], r))"

definition relay_round ::
  "pyfloat \<Rightarrow> drive_target \<Rightarrow> int \<Rightarrow> pyfloat \<Rightarrow> (exc, unit) res \<Rightarrow> pyfloat \<Rightarrow> (exc, unit) res \<Rightarrow> relay \<Rightarrow> drive_target list \<times> relay" where
  \<comment> \<open>the rest of the loop body once the pipe is empty: two clock readings, at most two sends\<close>
  "relay_round period t version now1 sending1 now2 sending2 r =
     (case relay_take period t version now1 sending1 r of
        (sent1, r1) \<Rightarrow>
          if rl_end r1 \<noteq> RelayRunning then (sent1, r1)
          else case relay_renew period now2 sending2 r1 of (sent2, r2) \<Rightarrow> (sent1 @ sent2, r2))"

definition diagnostic_snapshot :: "relay_metrics \<Rightarrow> int \<times> pyfloat option \<times> pyfloat \<times> pyfloat \<times> pyfloat" where
  "diagnostic_snapshot m =
     ((case mt_count m of Fin q \<Rightarrow> \<lfloor>q\<rfloor> | _ \<Rightarrow> 0),
      (if f_eq (mt_last_at m) f_zero then None else Some (mt_last_at m)),
      mt_max_gap m, mt_linear m, mt_angular m)"

subsection \<open>Owner and relay interleaved\<close>

datatype relay_phase = RpWaiting | RpWoken | RpDraining

datatype relay_event = SentTarget drive_target int | HandledSync int

record relay_system =
  sy_link :: relay_link
  sy_relay :: relay
  sy_phase :: relay_phase
  sy_signal_due :: bool  \<comment> \<open>the owner is between its change and setting the wake event\<close>
  sy_seen :: int  \<comment> \<open>ghost: the version the relay last read\<close>
  sy_stored :: "drive_target list"  \<comment> \<open>ghost: every target the owner stored\<close>
  sy_log :: "relay_event list"  \<comment> \<open>ghost: what the relay did, with the version of each target sent\<close>

definition new_relay_system :: relay_system where
  "new_relay_system = \<lparr>sy_link = new_relay_link, sy_relay = new_relay, sy_phase = RpWaiting, sy_signal_due = False,
     sy_seen = 0, sy_stored = [], sy_log = []\<rparr>"

definition handled :: "relay_message \<Rightarrow> (exc, unit) res \<Rightarrow> relay_event list" where
  "handled m syncing = (case m of RmGeneration w g v cutoff \<Rightarrow> if returns syncing then [HandledSync cutoff] else [] | _ \<Rightarrow> [])"

inductive relay_step :: "pyfloat \<Rightarrow> relay_system \<Rightarrow> relay_system \<Rightarrow> bool" for period where
  owner_stores:
    "\<not> sy_signal_due y \<Longrightarrow> link_store_target t running (sy_link y) = (r, k) \<Longrightarrow>
     relay_step period y (y\<lparr>sy_link := k, sy_signal_due := returns r,
       sy_stored := (if returns r then sy_stored y @ [t] else sy_stored y)\<rparr>)"
| owner_syncs:
    "\<not> sy_signal_due y \<Longrightarrow> link_sync_generation world command model running (sy_link y) = (r, k) \<Longrightarrow>
     relay_step period y (y\<lparr>sy_link := k, sy_signal_due := returns r\<rparr>)"
| owner_closes:
    "\<not> sy_signal_due y \<Longrightarrow> link_close alive (sy_link y) = k \<Longrightarrow>
     relay_step period y (y\<lparr>sy_link := k, sy_signal_due := alive \<and> \<not> lk_closed (sy_link y)\<rparr>)"
| owner_signals:
    "sy_signal_due y \<Longrightarrow> relay_step period y (y\<lparr>sy_link := link_wake (sy_link y), sy_signal_due := False\<rparr>)"
| relay_wakes:
    "rl_end (sy_relay y) = RelayRunning \<Longrightarrow> sy_phase y = RpWaiting \<Longrightarrow>
     lk_wake (sy_link y) \<or> rl_next_deadline (sy_relay y) \<noteq> None \<Longrightarrow> relay_step period y (y\<lparr>sy_phase := RpWoken\<rparr>)"
| relay_clears:
    "rl_end (sy_relay y) = RelayRunning \<Longrightarrow> sy_phase y = RpWoken \<Longrightarrow>
     relay_step period y (y\<lparr>sy_link := (sy_link y)\<lparr>lk_wake := False\<rparr>, sy_phase := RpDraining\<rparr>)"
| relay_receives:
    "rl_end (sy_relay y) = RelayRunning \<Longrightarrow> sy_phase y = RpDraining \<Longrightarrow> lk_queue (sy_link y) = m # q \<Longrightarrow>
     relay_step period y (y\<lparr>sy_link := (sy_link y)\<lparr>lk_queue := q\<rparr>, sy_relay := relay_receive m syncing (sy_relay y),
       sy_log := sy_log y @ handled m syncing\<rparr>)"
| relay_reads:
    "rl_end (sy_relay y) = RelayRunning \<Longrightarrow> sy_phase y = RpDraining \<Longrightarrow> lk_queue (sy_link y) = [] \<Longrightarrow>
     relay_round period (lk_target (sy_link y)) (lk_version (sy_link y)) now1 sending1 now2 sending2 (sy_relay y) = (sent, r) \<Longrightarrow>
     relay_step period y (y\<lparr>sy_relay := r, sy_phase := RpWaiting, sy_seen := lk_version (sy_link y),
       sy_log := sy_log y @ map (\<lambda>t. SentTarget t (rl_observed r)) sent\<rparr>)"

abbreviation relay_steps :: "pyfloat \<Rightarrow> relay_system \<Rightarrow> relay_system \<Rightarrow> bool" where
  "relay_steps period \<equiv> (relay_step period)\<^sup>*\<^sup>*"

definition stored_as :: "drive_target list \<Rightarrow> drive_target \<Rightarrow> int \<Rightarrow> bool" where
  "stored_as stored t v \<longleftrightarrow> 0 < v \<and> v \<le> int (length stored) \<and> stored ! (nat v - 1) = t"

definition after_sync :: "relay_event \<Rightarrow> relay_event \<Rightarrow> bool" where
  "after_sync a b = (case (a, b) of (HandledSync c, SentTarget t v) \<Rightarrow> c < v | _ \<Rightarrow> True)"

definition slot_inv :: "relay_system \<Rightarrow> bool" where
  "slot_inv y \<longleftrightarrow>
     lk_version (sy_link y) = int (length (sy_stored y))
     \<and> (sy_stored y \<noteq> [] \<longrightarrow> lk_target (sy_link y) = last (sy_stored y))"

definition latest_inv :: "relay_system \<Rightarrow> bool" where
  "latest_inv y \<longleftrightarrow>
     0 \<le> rl_observed (sy_relay y) \<and> 0 \<le> rl_cutoff (sy_relay y)
     \<and> (\<forall>t. rl_latest (sy_relay y) = Some t \<longrightarrow>
          stored_as (sy_stored y) t (rl_observed (sy_relay y)) \<and> rl_cutoff (sy_relay y) < rl_observed (sy_relay y))"

definition log_ok :: "relay_system \<Rightarrow> bool" where
  "log_ok y \<longleftrightarrow>
     sorted_wrt after_sync (sy_log y)
     \<and> (\<forall>t v. SentTarget t v \<in> set (sy_log y) \<longrightarrow> stored_as (sy_stored y) t v)
     \<and> (\<forall>c. HandledSync c \<in> set (sy_log y) \<longrightarrow> c \<le> rl_cutoff (sy_relay y))"

definition relay_inv :: "relay_system \<Rightarrow> bool" where
  "relay_inv y \<longleftrightarrow> slot_inv y \<and> latest_inv y \<and> log_ok y"

lemma stored_as_append: "stored_as xs t v \<Longrightarrow> stored_as (xs @ ys) t v"
  by (auto simp: stored_as_def nth_append)

lemma stored_as_last: "xs \<noteq> [] \<Longrightarrow> stored_as xs (last xs) (int (length xs))"
  by (auto simp: stored_as_def last_conv_nth)

lemma link_store_cases:
  assumes "link_store_target t running k = (r, k')"
  obtains "r = Inr ()" "k' = k\<lparr>lk_target := t, lk_version := lk_version k + 1\<rparr>" | e where "r = Inl e" "k' = k"
proof (cases "require_running running k")
  case (Inl e)
  with assms have "r = Inl e" "k' = k" by (auto simp: link_store_target_def)
  then show ?thesis by (rule that(2))
next
  case (Inr u)
  with assms that(1) show ?thesis by (auto simp: link_store_target_def)
qed

lemma link_sync_cases:
  assumes "link_sync_generation world command model running k = (r, k')"
  obtains "r = Inr ()" "k' = k\<lparr>lk_queue := lk_queue k @ [RmGeneration world command model (lk_version k)]\<rparr>"
    | e where "r = Inl e" "k' = k"
proof (cases "require_running running k")
  case (Inl e)
  with assms have "r = Inl e" "k' = k" by (auto simp: link_sync_generation_def)
  then show ?thesis by (rule that(2))
next
  case (Inr u)
  with assms that(1) show ?thesis by (auto simp: link_sync_generation_def)
qed

lemma relay_receive_latest:
  "latest_inv y \<Longrightarrow> latest_inv (y\<lparr>sy_link := k, sy_relay := relay_receive m syncing (sy_relay y), sy_log := l\<rparr>)"
  by (auto simp: latest_inv_def relay_receive_def split: relay_message.splits sum.splits)

lemma relay_receive_log:
  "log_ok y \<Longrightarrow> log_ok (y\<lparr>sy_link := k, sy_relay := relay_receive m syncing (sy_relay y),
     sy_log := sy_log y @ handled m syncing\<rparr>)"
  by (force simp: log_ok_def relay_receive_def handled_def sorted_wrt_append after_sync_def
      split: relay_message.splits sum.splits relay_event.splits)

lemma renew_target_fields [simp]:
  "rl_latest (renew_target t now out r) = rl_latest r" "rl_observed (renew_target t now out r) = rl_observed r"
  "rl_cutoff (renew_target t now out r) = rl_cutoff r" "rl_next_deadline (renew_target t now out r) = rl_next_deadline r"
  by (simp_all add: renew_target_def split: sum.splits)

lemma relay_take_spec:
  assumes "relay_take period t version now out r = (sent, r')"
  shows "(r' = r \<and> sent = [] \<and> \<not> takes_target version r)
    \<or> (takes_target version r \<and> rl_latest r' = Some t \<and> rl_observed r' = version \<and> rl_cutoff r' = rl_cutoff r
        \<and> set sent \<subseteq> {t})"
  using assms by (auto simp: relay_take_def Let_def split: if_splits)

lemma relay_renew_spec:
  assumes "relay_renew period now out r = (sent, r')"
  shows "rl_latest r' = rl_latest r \<and> rl_observed r' = rl_observed r \<and> rl_cutoff r' = rl_cutoff r
    \<and> (\<forall>t \<in> set sent. rl_latest r = Some t)"
  using assms by (auto simp: relay_renew_def Let_def split: option.splits if_splits)

lemma relay_round_spec:
  assumes "relay_round period t version now1 out1 now2 out2 r = (sent, r')"
  shows "rl_cutoff r' = rl_cutoff r \<and> (\<forall>u \<in> set sent. rl_latest r' = Some u)
    \<and> ((rl_latest r' = rl_latest r \<and> rl_observed r' = rl_observed r)
       \<or> (takes_target version r \<and> rl_latest r' = Some t \<and> rl_observed r' = version))"
proof -
  obtain sent1 r1 where take: "relay_take period t version now1 out1 r = (sent1, r1)" by fastforce
  obtain sent2 r2 where renew: "relay_renew period now2 out2 r1 = (sent2, r2)" by fastforce
  from assms take renew have "r' = r1 \<and> sent = sent1 \<or> r' = r2 \<and> sent = sent1 @ sent2"
    by (auto simp: relay_round_def split: if_splits)
  with relay_take_spec [OF take] relay_renew_spec [OF renew] show ?thesis by auto
qed

lemma relay_step_inv: "relay_step period y z \<Longrightarrow> relay_inv y \<Longrightarrow> relay_inv z"
proof (induction rule: relay_step.induct)
  case (owner_stores y t running r k)
  from owner_stores(2) show ?case
    by (cases rule: link_store_cases)
      (use owner_stores(3) in \<open>auto simp: relay_inv_def slot_inv_def latest_inv_def log_ok_def intro: stored_as_append\<close>)
next
  case (owner_syncs y world command model running r k)
  from owner_syncs(2) show ?case
    by (cases rule: link_sync_cases)
      (use owner_syncs(3) in \<open>simp_all add: relay_inv_def slot_inv_def latest_inv_def log_ok_def\<close>)
next
  case (owner_closes y alive k)
  then show ?case
    by (auto simp: relay_inv_def slot_inv_def latest_inv_def log_ok_def link_close_def split: if_splits)
next
  case (relay_receives y m q syncing)
  then have "slot_inv (y\<lparr>sy_link := (sy_link y)\<lparr>lk_queue := q\<rparr>, sy_relay := relay_receive m syncing (sy_relay y),
       sy_log := sy_log y @ handled m syncing\<rparr>)" by (simp add: relay_inv_def slot_inv_def)
  with relay_receives relay_receive_latest relay_receive_log show ?case by (simp only: relay_inv_def)
next
  case (relay_reads y now1 sending1 now2 sending2 sent r)
  note round = relay_round_spec [OF relay_reads(4)]
  have taken: "stored_as (sy_stored y) (lk_target (sy_link y)) (lk_version (sy_link y))"
    if "takes_target (lk_version (sy_link y)) (sy_relay y)"
  proof -
    have "sy_stored y \<noteq> []" using that relay_reads(5)
      by (auto simp: takes_target_def relay_inv_def slot_inv_def latest_inv_def)
    with stored_as_last [OF this] relay_reads(5) show ?thesis by (simp add: relay_inv_def slot_inv_def)
  qed
  from round have latest: "latest_inv (y\<lparr>sy_relay := r\<rparr>)"
  proof (elim conjE disjE)
    assume "rl_cutoff r = rl_cutoff (sy_relay y)" "rl_latest r = rl_latest (sy_relay y)"
      "rl_observed r = rl_observed (sy_relay y)"
    with relay_reads(5) show ?thesis by (simp add: relay_inv_def latest_inv_def)
  next
    assume "rl_cutoff r = rl_cutoff (sy_relay y)" "takes_target (lk_version (sy_link y)) (sy_relay y)"
      "rl_latest r = Some (lk_target (sy_link y))" "rl_observed r = lk_version (sy_link y)"
    with relay_reads(5) taken show ?thesis by (simp add: relay_inv_def latest_inv_def takes_target_def)
  qed
  moreover have "log_ok (y\<lparr>sy_relay := r, sy_log := sy_log y @ map (\<lambda>t. SentTarget t (rl_observed r)) sent\<rparr>)"
    using round latest relay_reads(5)
    by (fastforce simp: relay_inv_def latest_inv_def log_ok_def sorted_wrt_append sorted_wrt_map after_sync_def
        split: relay_event.splits)
  ultimately show ?case using relay_reads(5) by (simp add: relay_inv_def slot_inv_def latest_inv_def log_ok_def)
qed (simp_all add: relay_inv_def slot_inv_def latest_inv_def log_ok_def link_wake_def)

lemma relay_steps_inv: "relay_steps period y z \<Longrightarrow> relay_inv y \<Longrightarrow> relay_inv z"
  by (induction rule: rtranclp_induct) (auto dest: relay_step_inv)

lemma new_relay_system_inv: "relay_inv new_relay_system"
  by (simp add: relay_inv_def slot_inv_def latest_inv_def log_ok_def new_relay_system_def new_relay_def new_relay_link_def)

text \<open>
  C32. A change of world cuts off every earlier target: however the owner and the relay interleave,
  each target the relay sends is exactly one the owner stored, and after the relay has handled a
  generation change no target that was stored before the owner asked for that change is sent again.
\<close>

theorem relay_generation_cutoff:
  assumes "relay_steps period new_relay_system y" and "sy_log y = before @ HandledSync c # later"
    and "SentTarget t v \<in> set later"
  shows "c < v \<and> 0 < v \<and> v \<le> int (length (sy_stored y)) \<and> sy_stored y ! (nat v - 1) = t"
proof -
  from relay_steps_inv [OF assms(1) new_relay_system_inv] have ok: "log_ok y" by (simp add: relay_inv_def)
  with assms(2,3) have "after_sync (HandledSync c) (SentTarget t v)"
    by (auto simp: log_ok_def sorted_wrt_append)
  moreover have "SentTarget t v \<in> set (sy_log y)" using assms(2,3) by simp
  with ok have "stored_as (sy_stored y) t v" unfolding log_ok_def by blast
  ultimately show ?thesis by (simp add: after_sync_def stored_as_def)
qed

definition wake_inv :: "relay_system \<Rightarrow> bool" where
  "wake_inv y \<longleftrightarrow>
     (rl_end (sy_relay y) = RelayRunning \<and> sy_phase y = RpWaiting
      \<and> (lk_queue (sy_link y) \<noteq> [] \<or> lk_version (sy_link y) \<noteq> sy_seen y)
      \<longrightarrow> lk_wake (sy_link y) \<or> sy_signal_due y)"

lemma relay_step_wake: "relay_step period y z \<Longrightarrow> wake_inv y \<Longrightarrow> wake_inv z"
proof (induction rule: relay_step.induct)
  case (owner_stores y t running r k)
  from owner_stores(2) show ?case
    by (cases rule: link_store_cases) (use owner_stores(1,3) in \<open>auto simp: wake_inv_def\<close>)
next
  case (owner_syncs y world command model running r k)
  from owner_syncs(2) show ?case
    by (cases rule: link_sync_cases) (use owner_syncs(1,3) in \<open>auto simp: wake_inv_def\<close>)
next
  case (owner_closes y alive k)
  then show ?case by (auto simp: wake_inv_def link_close_def split: if_splits)
qed (auto simp: wake_inv_def link_wake_def)

lemma relay_steps_wake: "relay_steps period y z \<Longrightarrow> wake_inv y \<Longrightarrow> wake_inv z"
  by (induction rule: rtranclp_induct) (blast intro: relay_step_wake)+

lemma new_relay_system_wake: "wake_inv new_relay_system"
  by (simp add: wake_inv_def new_relay_system_def new_relay_link_def)


text \<open>One target stored, sent, and then a generation change handled.\<close>

abbreviation (input) after_store :: relay_system where
  "after_store \<equiv> new_relay_system\<lparr>sy_link := new_relay_link\<lparr>lk_target := (Fin 1, Fin 0), lk_version := 1\<rparr>,
     sy_signal_due := True, sy_stored := [(Fin 1, Fin 0)]\<rparr>"

lemma first_store: "relay_step period new_relay_system after_store"
proof -
  have "link_store_target (Fin 1, Fin 0) None (sy_link new_relay_system)
      = (Inr (), new_relay_link\<lparr>lk_target := (Fin 1, Fin 0), lk_version := 1\<rparr>)"
    by (simp add: link_store_target_def require_running_def new_relay_system_def new_relay_link_def)
  from owner_stores [OF _ this, of period] show ?thesis by (simp add: new_relay_system_def)
qed


lemma sync_then_target_run:
  "\<exists>y :: relay_system. relay_steps (Fin (1/50)) new_relay_system y
     \<and> sy_log y = [HandledSync 0, SentTarget (Fin 1, Fin 0) 1] \<and> sy_stored y = [(Fin 1, Fin 0)]"
proof -
  define p :: pyfloat where "p = Fin (1/50)"
  define k1 where "k1 = new_relay_link\<lparr>lk_queue := [RmGeneration 2 3 ''df_mid'' 0]\<rparr>"
  define y1 where "y1 = new_relay_system\<lparr>sy_link := k1, sy_signal_due := True\<rparr>"
  define y2 where "y2 = y1\<lparr>sy_link := link_wake k1, sy_signal_due := False\<rparr>"
  define k3 where "k3 = (link_wake k1)\<lparr>lk_target := (Fin 1, Fin 0), lk_version := 1\<rparr>"
  define y3 where "y3 = y2\<lparr>sy_link := k3, sy_signal_due := True, sy_stored := [(Fin 1, Fin 0)]\<rparr>"
  define y4 where "y4 = y3\<lparr>sy_phase := RpWoken\<rparr>"
  define y5 where "y5 = y4\<lparr>sy_link := k3\<lparr>lk_wake := False\<rparr>, sy_phase := RpDraining\<rparr>"
  define y6 where "y6 = y5\<lparr>sy_link := (sy_link y5)\<lparr>lk_queue := []\<rparr>,
      sy_relay := relay_receive (RmGeneration 2 3 ''df_mid'' 0) (Inr ()) (sy_relay y5),
      sy_log := sy_log y5 @ handled (RmGeneration 2 3 ''df_mid'' 0) (Inr ())\<rparr>"
  define out where "out = relay_round p (Fin 1, Fin 0) 1 (Fin 5) (Inr ()) (Fin 5) (Inr ()) (sy_relay y6)"
  define y7 where "y7 = y6\<lparr>sy_relay := snd out, sy_phase := RpWaiting, sy_seen := 1,
      sy_log := sy_log y6 @ map (\<lambda>t. SentTarget t (rl_observed (snd out))) (fst out)\<rparr>"
  note defs = new_relay_system_def new_relay_link_def new_relay_def k1_def k3_def y1_def y2_def y3_def y4_def y5_def
    y6_def link_wake_def
  have "link_sync_generation 2 3 ''df_mid'' None (sy_link new_relay_system) = (Inr (), k1)"
    by (simp add: link_sync_generation_def require_running_def defs)
  from owner_syncs [OF _ this, of p] have 1: "relay_step p new_relay_system y1" by (simp add: defs)
  have 2: "relay_step p y1 y2" using owner_signals [of y1 p] by (simp add: defs)
  have "link_store_target (Fin 1, Fin 0) None (sy_link y2) = (Inr (), k3)"
    by (simp add: link_store_target_def require_running_def defs)
  from owner_stores [OF _ this, of p] have 3: "relay_step p y2 y3" by (simp add: defs)
  have 4: "relay_step p y3 y4" using relay_wakes [of y3 p] by (simp add: defs)
  have 5: "relay_step p y4 y5" using relay_clears [of y4 p] by (simp add: defs)
  have 6: "relay_step p y5 y6" unfolding y6_def by (rule relay_receives) (simp_all add: defs)
  have y6: "rl_end (sy_relay y6) = RelayRunning" "sy_phase y6 = RpDraining" "lk_queue (sy_link y6) = []"
    "lk_version (sy_link y6) = 1" "lk_target (sy_link y6) = (Fin 1, Fin 0)"
    by (simp_all add: defs relay_receive_def)
  from relay_reads [OF y6(1-3), of p "Fin 5" "Inr ()" "Fin 5" "Inr ()" "fst out" "snd out"]
  have 7: "relay_step p y6 y7" by (simp only: y6(4,5) y7_def out_def prod.collapse simp_thms)
  have "out = ([(Fin 1, Fin 0)], snd out)" "rl_observed (snd out) = 1"
    unfolding out_def p_def defs by code_simp+
  then have "sy_log y7 = [HandledSync 0, SentTarget (Fin 1, Fin 0) 1]"
    by (auto simp: y7_def defs handled_def dest: arg_cong [of _ _ fst])
  moreover have "sy_stored y7 = [(Fin 1, Fin 0)]" by (simp add: y7_def defs)
  moreover have "relay_steps p new_relay_system y7"
    by (rule converse_rtranclp_into_rtranclp, rule 1, rule converse_rtranclp_into_rtranclp, rule 2,
        rule converse_rtranclp_into_rtranclp, rule 3, rule converse_rtranclp_into_rtranclp, rule 4,
        rule converse_rtranclp_into_rtranclp, rule 5, rule converse_rtranclp_into_rtranclp, rule 6,
        rule r_into_rtranclp, rule 7)
  ultimately show ?thesis unfolding p_def by blast
qed

theorem relay_generation_cutoff_witness:
  "\<exists>y :: relay_system. sy_log y = [HandledSync 0, SentTarget (Fin 1, Fin 0) 1] \<and> sy_stored y ! 0 = (Fin 1, Fin 0)"
proof -
  from sync_then_target_run obtain y where y: "relay_steps (Fin (1/50)) new_relay_system y"
    "sy_log y = [] @ HandledSync 0 # [SentTarget (Fin 1, Fin 0) 1]" by auto
  from relay_generation_cutoff [OF y, of "(Fin 1, Fin 0)" 1] y(2)
  have "sy_log y = [HandledSync 0, SentTarget (Fin 1, Fin 0) 1] \<and> sy_stored y ! 0 = (Fin 1, Fin 0)" by simp
  then show ?thesis by (rule exI)
qed

end
