(* ===== verification/PhysicsBodies.thy ===== *)
theory PhysicsBodies
  imports PyValues
begin

text \<open>
  The bodies of one PyBullet client, as \<^verbatim>\<open>slope_sim/obstacles.py\<close> and \<^verbatim>\<open>slope_sim/coordinator.py\<close> see them:
  creating a body gives it an id never used before, and every call may raise, with or without having had
  its effect.  What each call does is an oracle indexed by a counter of the calls.  Here are also the
  helpers of both modules that remove a body and check that it has gone.
\<close>

subsection \<open>The client\<close>

record physics =
  ph_bodies :: "nat list"
  ph_next :: nat
  ph_calls :: nat

datatype creation_outcome =
  CreateOk
| CreateFails (cf_registered: bool) (cf_returned: bool) (cf_shape: bool) (cf_error: exc)
  \<comment> \<open>was the body registered, was its id returned, and had a collision shape been made\<close>

record physics_env =
  px_list :: "nat \<Rightarrow> exc option"
  px_remove :: "nat \<Rightarrow> bool \<times> exc option"  \<comment> \<open>has the body gone, and what was raised\<close>
  px_create :: "nat \<Rightarrow> creation_outcome"
  px_remove_shape :: "nat \<Rightarrow> exc option"

definition count_call :: "physics \<Rightarrow> physics" where
  "count_call p = p\<lparr>ph_calls := Suc (ph_calls p)\<rparr>"

definition list_bodies :: "physics_env \<Rightarrow> (exc, physics, nat list) op" where
  \<comment> \<open>\<^verbatim>\<open>_body_ids\<close> and \<^verbatim>\<open>_current_body_ids\<close>\<close>
  "list_bodies px p =
     (case px_list px (ph_calls p) of
        None \<Rightarrow> (Inr (ph_bodies p), count_call p)
      | Some e \<Rightarrow> (Inl e, count_call p))"

definition remove_body :: "physics_env \<Rightarrow> nat \<Rightarrow> (exc, physics, unit) op" where
  \<comment> \<open>\<^verbatim>\<open>p.removeBody\<close>\<close>
  "remove_body px b p =
     (case px_remove px (ph_calls p) of
        (gone, raised) \<Rightarrow>
          (case raised of None \<Rightarrow> Inr () | Some e \<Rightarrow> Inl e,
           (count_call p)\<lparr>ph_bodies := if gone then removeAll b (ph_bodies p) else ph_bodies p\<rparr>))"

definition register_body :: "physics \<Rightarrow> physics" where
  "register_body p = p\<lparr>ph_bodies := ph_bodies p @ [ph_next p], ph_next := Suc (ph_next p)\<rparr>"

definition from_keys :: "'a list \<Rightarrow> 'a list" where
  \<comment> \<open>\<^verbatim>\<open>tuple(dict.fromkeys(xs))\<close>: the first occurrences, in order\<close>
  "from_keys xs = rev (remdups (rev xs))"

lemma from_keys_simps [simp]: "set (from_keys xs) = set xs" "distinct (from_keys xs)"
  by (simp_all add: from_keys_def)

lemma from_keys_distinct: "distinct xs \<Longrightarrow> from_keys xs = xs"
  by (simp add: from_keys_def distinct_remdups_id)

subsection \<open>Diagnostics\<close>

fun exc_type_name :: "exc_kind \<Rightarrow> string" where
  "exc_type_name ValueErr = ''ValueError''"
| "exc_type_name TypeErr = ''TypeError''"
| "exc_type_name OverflowErr = ''OverflowError''"
| "exc_type_name RuntimeErr = ''RuntimeError''"
| "exc_type_name KeyErr = ''KeyError''"
| "exc_type_name OSErr = ''OSError''"
| "exc_type_name TimeoutErr = ''TimeoutError''"
| "exc_type_name ZeroDivisionErr = ''ZeroDivisionError''"
| "exc_type_name AttributeErr = ''AttributeError''"
| "exc_type_name StopIterationErr = ''StopIteration''"
| "exc_type_name ProtocolConflictErr = ''ProtocolConflictError''"
| "exc_type_name ModelMismatchErr = ''WheelCommandModelMismatchError''"
| "exc_type_name MechanicalLimitErr = ''WheelCommandMechanicalLimitError''"
| "exc_type_name (OtherErr name) = name"

definition exception_reason :: "exc \<Rightarrow> msg" where
  \<comment> \<open>\<^verbatim>\<open>str(error) or type(error).__name__\<close>\<close>
  "exception_reason e =
     (if list_all (\<lambda>part. part = Lit []) (exc_msg e) then lit (exc_type_name (exc_kind e)) else exc_msg e)"

fun msg_join :: "string \<Rightarrow> msg list \<Rightarrow> msg" where
  \<comment> \<open>\<^verbatim>\<open>sep.join(parts)\<close>\<close>
  "msg_join sep [] = []"
| "msg_join sep [m] = m"
| "msg_join sep (m # n # ms) = m @ Lit sep # msg_join sep (n # ms)"

definition id_list :: "nat list \<Rightarrow> msg" where
  "id_list ids = msg_join '', '' (map (\<lambda>b. [IntRepr (int b)]) ids)"

definition body_label :: "nat \<Rightarrow> msg" where
  "body_label b = [IntRepr (int b)]"

subsection \<open>Removing and checking\<close>

datatype removal =
  Removed
| Remained "exc option"
| Unknown "exc option" exc  \<comment> \<open>what removing raised, and what the listing raised\<close>

definition remove_and_check :: "physics_env \<Rightarrow> nat \<Rightarrow> physics \<Rightarrow> removal \<times> physics" where
  \<comment> \<open>the common body of \<^verbatim>\<open>_remove_committed_body_strict\<close> and \<^verbatim>\<open>_remove_body_strict\<close>\<close>
  "remove_and_check px b p =
     (case remove_body px b p of
        (r, p1) \<Rightarrow>
          let removal_error = (case r of Inl e \<Rightarrow> Some e | Inr _ \<Rightarrow> None)
          in case list_bodies px p1 of
               (Inl d, p2) \<Rightarrow> (Unknown removal_error d, p2)
             | (Inr bodies, p2) \<Rightarrow> (if b \<in> set bodies then Remained removal_error else Removed, p2))"

definition remove_committed_strict :: "physics_env \<Rightarrow> nat \<Rightarrow> (exc, physics, unit) op" where
  "remove_committed_strict px b p =
     (case remove_and_check px b p of
        (check, p') \<Rightarrow>
          (case check of
             Removed \<Rightarrow> Inr ()
           | Remained None \<Rightarrow>
               Inl (Exc RuntimeErr (Lit ''committed body '' # body_label b @ lit '' remained after removeBody''))
           | Remained (Some e) \<Rightarrow>
               Inl (Exc RuntimeErr (Lit ''failed to remove committed body '' # body_label b @ Lit '' ('' #
                      exception_reason e @ lit ''); body remained''))
           | Unknown None d \<Rightarrow>
               Inl (Exc RuntimeErr (Lit ''failed to verify committed body '' # body_label b @ Lit '' removal: '' #
                      exception_reason d))
           | Unknown (Some e) d \<Rightarrow>
               Inl (Exc RuntimeErr (Lit ''failed to remove committed body '' # body_label b @ Lit '' ('' #
                      exception_reason e @ Lit ''); verification also failed ('' # exception_reason d @ lit '')'')), p'))"

type_synonym failures = "(nat option \<times> exc) list"  \<comment> \<open>None is the code's body id -1, a failed diagnosis\<close>

fun remove_each_strict :: "physics_env \<Rightarrow> nat list \<Rightarrow> physics \<Rightarrow> failures \<times> physics" where
  \<comment> \<open>every body is tried; the failures are collected\<close>
  "remove_each_strict px [] p = ([], p)"
| "remove_each_strict px (b # bs) p =
     (case remove_committed_strict px b p of
        (r, p1) \<Rightarrow>
          (case remove_each_strict px bs p1 of
             (fs, p2) \<Rightarrow> (case r of Inl e \<Rightarrow> (Some b, e) # fs | Inr _ \<Rightarrow> fs, p2)))"

definition failed_ids :: "failures \<Rightarrow> nat list" where
  "failed_ids fs = List.map_filter fst fs"

definition format_failures :: "failures \<Rightarrow> msg" where
  "format_failures fs = msg_join ''; ''
     (map (\<lambda>(b, e). case b of Some n \<Rightarrow> Lit ''body '' # body_label n @ Lit '': '' # exception_reason e
                         | None \<Rightarrow> Lit ''body diagnosis: '' # exception_reason e) fs)"

subsection \<open>Creating a body\<close>

type_synonym creation_error = "exc \<times> nat list"
  \<comment> \<open>the exception, with the \<^verbatim>\<open>residual_body_ids\<close> it carries\<close>

definition creation_error_of :: "exc \<Rightarrow> nat list \<Rightarrow> exc list \<Rightarrow> creation_error" where
  \<comment> \<open>\<^verbatim>\<open>_ObstacleBodyCreationError\<close>\<close>
  "creation_error_of primary residual cleanup =
     (let ids = from_keys residual;
          details = (if msg_join ''; '' (map exception_reason cleanup) = [] then []
                     else [Lit ''cleanup errors: '' # msg_join ''; '' (map exception_reason cleanup)])
                    @ (if ids = [] then [] else [Lit ''residual body IDs: '' # id_list ids])
      in (Exc (OtherErr ''_ObstacleBodyCreationError'')
            (Lit ''obstacle body creation failed ('' # exception_reason primary @ Lit ''); cleanup also failed ('' #
             msg_join ''; '' details @ lit '')''), ids))"

definition created_ids :: "(exc, nat list) res \<Rightarrow> nat list \<Rightarrow> nat option \<Rightarrow> nat list" where
  \<comment> \<open>the id returned, and what the listing shows beyond the \<open>existing\<close> bodies\<close>
  "created_ids listing existing known =
     from_keys ((case known of Some b \<Rightarrow> [b] | None \<Rightarrow> []) @
       (case listing of Inl d \<Rightarrow> [] | Inr current \<Rightarrow> sort (filter (\<lambda>b. b \<notin> set existing) current)))"

definition residual_ids :: "(exc, nat list) res \<Rightarrow> nat list \<Rightarrow> nat list" where
  "residual_ids listing created =
     (case listing of Inl d \<Rightarrow> created | Inr remaining \<Rightarrow> filter (\<lambda>b. b \<in> set remaining) created)"

definition listing_errors :: "(exc, 'a) res \<Rightarrow> exc list" where
  "listing_errors listing = (case listing of Inl d \<Rightarrow> [d] | Inr _ \<Rightarrow> [])"

definition drop_shape :: "physics_env \<Rightarrow> bool \<Rightarrow> physics \<Rightarrow> exc list \<times> physics" where
  "drop_shape px shape p =
     (if shape then (case px_remove_shape px (ph_calls p) of None \<Rightarrow> [] | Some e \<Rightarrow> [e], count_call p) else ([], p))"

definition undo_creation ::
  "physics_env \<Rightarrow> nat list \<Rightarrow> nat option \<Rightarrow> bool \<Rightarrow> exc \<Rightarrow> (creation_error, physics, nat) op" where
  \<comment> \<open>the handler: \<open>existing\<close> bodies are not this call's, \<open>known\<close> is an id already returned\<close>
  "undo_creation px existing known shape error p =
     (case list_bodies px p of
        (listing, p1) \<Rightarrow>
      (case remove_each_strict px (created_ids listing existing known) p1 of
        (fs, p2) \<Rightarrow>
      (case list_bodies px p2 of
        (listing2, p3) \<Rightarrow>
      (case drop_shape px shape p3 of
        (shape_errors, p4) \<Rightarrow>
          let residual = residual_ids listing2 (created_ids listing existing known);
              errors = listing_errors listing @ map snd fs @ listing_errors listing2 @ shape_errors
          in (Inl (if residual \<noteq> [] \<or> errors \<noteq> [] then creation_error_of error residual errors else (error, [])), p4)))))"

definition create_body :: "physics_env \<Rightarrow> (creation_error, physics, nat) op" where
  \<comment> \<open>\<^verbatim>\<open>_create_obstacle_body\<close> for a spec whose constructor has checked shape, position and orientation\<close>
  "create_body px p =
     (case list_bodies px p of
        (Inl e, p1) \<Rightarrow> (Inl (e, []), p1)
      | (Inr existing, p1) \<Rightarrow>
          (case px_create px (ph_calls p1) of
             CreateOk \<Rightarrow> (Inr (ph_next p1), register_body (count_call p1))
           | CreateFails registered returned shape e \<Rightarrow>
               undo_creation px existing (if registered \<and> returned then Some (ph_next p1) else None) shape e
                 (if registered then register_body (count_call p1) else count_call p1)))"

subsection \<open>What the helpers do to the client\<close>

definition physics_ok :: "physics \<Rightarrow> bool" where
  "physics_ok p \<longleftrightarrow> distinct (ph_bodies p) \<and> (\<forall>b\<in>set (ph_bodies p). b < ph_next p)"

definition removes :: "nat set \<Rightarrow> physics \<Rightarrow> physics \<Rightarrow> bool" where
  \<comment> \<open>nothing but bodies of \<open>A\<close> can have gone, and nothing came\<close>
  "removes A p p' \<longleftrightarrow> physics_ok p' \<and> ph_next p' = ph_next p
     \<and> set (ph_bodies p) - A \<subseteq> set (ph_bodies p') \<and> set (ph_bodies p') \<subseteq> set (ph_bodies p)"

lemma removes_refl: "physics_ok p \<Longrightarrow> removes A p p"
  by (auto simp: removes_def)

lemma removes_trans: "removes A p q \<Longrightarrow> removes B q r \<Longrightarrow> removes (A \<union> B) p r"
  by (auto simp: removes_def)

lemma removes_mono: "removes A p q \<Longrightarrow> A \<subseteq> B \<Longrightarrow> removes B p q"
  by (auto simp: removes_def)

lemma removes_ok: "removes A p q \<Longrightarrow> physics_ok q"
  by (simp add: removes_def)

lemma count_call_simps [simp]:
  "ph_bodies (count_call p) = ph_bodies p" "ph_next (count_call p) = ph_next p" "physics_ok (count_call p) = physics_ok p"
  "removes A (count_call p) q = removes A p q" "removes A p (count_call q) = removes A p q"
  by (simp_all add: count_call_def physics_ok_def removes_def)

lemma list_bodies_effect:
  "list_bodies px p = (r, p') \<Longrightarrow> p' = count_call p \<and> (\<forall>bs. r = Inr bs \<longrightarrow> bs = ph_bodies p)"
  by (auto simp: list_bodies_def split: option.splits)

lemma remove_body_effect:
  assumes "physics_ok p" and "remove_body px b p = (r, p')"
  shows "removes {b} p p'"
proof -
  obtain gone raised where o: "px_remove px (ph_calls p) = (gone, raised)" by fastforce
  with assms(2) have "p' = (count_call p)\<lparr>ph_bodies := if gone then removeAll b (ph_bodies p) else ph_bodies p\<rparr>"
    by (simp add: remove_body_def)
  with assms(1) show ?thesis
    by (cases gone) (auto simp: removes_def physics_ok_def distinct_removeAll count_call_def)
qed

lemma remove_and_check_effect:
  assumes "physics_ok p" and "remove_and_check px b p = (c, p')"
  shows "removes {b} p p' \<and> (c = Removed \<longrightarrow> b \<notin> set (ph_bodies p'))"
proof -
  obtain r p1 where p1: "remove_body px b p = (r, p1)" by fastforce
  obtain l p2 where p2: "list_bodies px p1 = (l, p2)" by fastforce
  note rm = remove_body_effect [OF assms(1) p1] and ls = list_bodies_effect [OF p2]
  from assms(2) p1 p2 have "p' = p2" "c = Removed \<longrightarrow> (\<exists>bs. l = Inr bs \<and> b \<notin> set bs)"
    by (auto simp: remove_and_check_def Let_def split: sum.splits if_splits)
  with rm ls show ?thesis by auto
qed

lemma remove_committed_effect:
  assumes "physics_ok p" and "remove_committed_strict px b p = (r, p')"
  shows "removes {b} p p' \<and> (r = Inr () \<longrightarrow> b \<notin> set (ph_bodies p'))"
proof -
  obtain c p1 where c: "remove_and_check px b p = (c, p1)" by fastforce
  from remove_and_check_effect [OF assms(1) c] assms(2) c show ?thesis
    by (auto simp: remove_committed_strict_def split: removal.splits option.splits)
qed

lemma failed_ids_simps [simp]:
  "failed_ids [] = []" "failed_ids ((Some b, e) # fs) = b # failed_ids fs" "failed_ids ((None, e) # fs) = failed_ids fs"
  "failed_ids (fs @ gs) = failed_ids fs @ failed_ids gs"
  by (simp_all add: failed_ids_def List.map_filter_def)

lemma remove_each_effect:
  assumes "physics_ok p" and "remove_each_strict px bs p = (fs, p')"
  shows "removes (set bs) p p' \<and> set bs \<inter> set (ph_bodies p') \<subseteq> set (failed_ids fs) \<and> set (failed_ids fs) \<subseteq> set bs
    \<and> (distinct bs \<longrightarrow> distinct (failed_ids fs))"
  using assms
proof (induction bs arbitrary: p fs p')
  case Nil
  then show ?case by (simp add: removes_refl)
next
  case (Cons b bs)
  obtain r p1 where r: "remove_committed_strict px b p = (r, p1)" by fastforce
  obtain gs p2 where gs: "remove_each_strict px bs p1 = (gs, p2)" by fastforce
  note b = remove_committed_effect [OF Cons.prems(1) r]
  note bs = Cons.IH [OF removes_ok [OF conjunct1 [OF b]] gs]
  from Cons.prems(2) r gs have fs: "p' = p2" "fs = (case r of Inl e \<Rightarrow> (Some b, e) # gs | Inr _ \<Rightarrow> gs)" by auto
  have "removes (set (b # bs)) p p2" using removes_trans [OF conjunct1 [OF b] conjunct1 [OF bs]] by simp
  moreover have "set (ph_bodies p2) \<subseteq> set (ph_bodies p1)" using bs by (simp add: removes_def)
  ultimately show ?case using b bs fs by (cases r) auto
qed

definition identified :: "physics_env \<Rightarrow> bool" where
  \<comment> \<open>a creation that raises after the body was registered can be traced: its id was returned, or bodies can be listed\<close>
  "identified px \<longleftrightarrow> (\<forall>t. px_list px t = None)
     \<or> (\<forall>t. cf_registered (px_create px t) \<and> px_create px t \<noteq> CreateOk \<longrightarrow> cf_returned (px_create px t))"

definition creates :: "physics \<Rightarrow> nat set \<Rightarrow> physics \<Rightarrow> bool" where
  \<comment> \<open>all old bodies stay, and the new ones are fresh and among \<open>B\<close>\<close>
  "creates p B p' \<longleftrightarrow> physics_ok p' \<and> ph_next p \<le> ph_next p'
     \<and> set (ph_bodies p) \<subseteq> set (ph_bodies p') \<and> set (ph_bodies p') \<subseteq> set (ph_bodies p) \<union> B"

lemma undo_creation_effect:
  assumes p: "physics_ok p" and fresh: "set (ph_bodies p) \<subseteq> set existing \<union> {n}" "n \<notin> set existing"
    and old: "set existing \<subseteq> set (ph_bodies p)" and known: "known = None \<or> known = Some n"
    and u: "undo_creation px existing known shape e p = (r, p')"
  shows "\<exists>e' residual. r = Inl (e', residual) \<and> distinct residual \<and> set residual \<subseteq> {n}
    \<and> physics_ok p' \<and> ph_next p' = ph_next p \<and> set existing \<subseteq> set (ph_bodies p')
    \<and> set (ph_bodies p') \<subseteq> set (ph_bodies p)
    \<and> (known = Some n \<or> (\<forall>t. px_list px t = None) \<longrightarrow> set (ph_bodies p') \<subseteq> set existing \<union> set residual)"
proof -
  obtain listing p1 where l1: "list_bodies px p = (listing, p1)" by fastforce
  let ?created = "created_ids listing existing known"
  obtain fs p2 where rm: "remove_each_strict px ?created p1 = (fs, p2)" by fastforce
  obtain listing2 p3 where l2: "list_bodies px p2 = (listing2, p3)" by fastforce
  let ?residual = "residual_ids listing2 ?created"
  obtain shape_errors p4 where sh: "drop_shape px shape p3 = (shape_errors, p4)" by fastforce
  note e1 = list_bodies_effect [OF l1] and e2 = list_bodies_effect [OF l2]
  have p1: "physics_ok p1" "ph_bodies p1 = ph_bodies p" "ph_next p1 = ph_next p" using e1 p by simp_all
  have created: "set ?created \<subseteq> {n}" "distinct ?created"
    using e1 fresh(1) known by (auto simp: created_ids_def split: sum.splits)
  note rm' = remove_each_effect [OF p1(1) rm]
  have p4: "ph_bodies p4 = ph_bodies p2" "ph_next p4 = ph_next p2" "physics_ok p4"
    using e2 rm' sh by (auto simp: removes_def drop_shape_def split: if_splits)
  have res: "distinct ?residual" "set ?residual \<subseteq> {n}"
    using created by (auto simp: residual_ids_def split: sum.splits)
  have kept: "set existing \<subseteq> set (ph_bodies p2)" "set (ph_bodies p2) \<subseteq> set (ph_bodies p)"
    using rm' created(1) old fresh(2) p1(2) by (auto simp: removes_def)
  have traced: "set (ph_bodies p2) \<subseteq> set existing \<union> set ?residual"
    if t: "known = Some n \<or> (\<forall>t. px_list px t = None)"
  proof
    fix b assume b: "b \<in> set (ph_bodies p2)"
    show "b \<in> set existing \<union> set ?residual"
    proof (cases "b \<in> set existing")
      case False
      then have "b = n" using b kept(2) fresh(1) by auto
      have "n \<in> set ?created"
      proof (cases "known = Some n")
        case True
        then show ?thesis by (simp add: created_ids_def)
      next
        case untold: False
        then have "listing = Inr (ph_bodies p)" using t l1 by (simp add: list_bodies_def)
        moreover have "n \<in> set (ph_bodies p)" using b kept(2) \<open>b = n\<close> by auto
        ultimately show ?thesis using fresh(2) by (simp add: created_ids_def)
      qed
      then have "n \<in> set ?residual"
        using b \<open>b = n\<close> e2 by (auto simp: residual_ids_def split: sum.splits)
      then show ?thesis using \<open>b = n\<close> by simp
    qed simp
  qed
  have "p' = p4" "\<exists>e'. r = Inl (e', ?residual)"
    using u l1 l2 rm sh res(1) by (auto simp: undo_creation_def Let_def creation_error_of_def from_keys_distinct)
  then show ?thesis
    using p4 res kept traced rm' p1 by (auto simp: removes_def)
qed

lemma undo_creation_nothing:
  assumes "physics_ok p" and "undo_creation px (ph_bodies p) None shape e p = (r, p')"
  shows "\<exists>e'. r = Inl (e', []) \<and> physics_ok p' \<and> ph_next p' = ph_next p \<and> set (ph_bodies p') = set (ph_bodies p)"
proof -
  have fresh: "ph_next p \<notin> set (ph_bodies p)" "Suc (ph_next p) \<notin> set (ph_bodies p)" using assms(1) by (auto simp: physics_ok_def)
  have self: "set (ph_bodies p) \<subseteq> set (ph_bodies p) \<union> {n}" for n by auto
  from undo_creation_effect [OF assms(1) self fresh(1) order_refl disjI1 [OF refl] assms(2)]
  obtain e' res where a: "r = Inl (e', res)" "set res \<subseteq> {ph_next p}" "physics_ok p'" "ph_next p' = ph_next p"
    "set (ph_bodies p') = set (ph_bodies p)" by (elim exE conjE) auto
  moreover from undo_creation_effect [OF assms(1) self fresh(2) order_refl disjI1 [OF refl] assms(2)] a(1)
  have "set res \<subseteq> {Suc (ph_next p)}" by auto
  ultimately have "set res \<subseteq> {ph_next p} \<inter> {Suc (ph_next p)}" by blast
  then have "res = []" by simp
  with a show ?thesis by simp
qed

lemma create_body_effect:
  assumes p: "physics_ok p" and c: "create_body px p = (r, p')"
  shows "case r of
      Inr b \<Rightarrow> b = ph_next p \<and> physics_ok p' \<and> ph_next p' = Suc b \<and> set (ph_bodies p') = insert b (set (ph_bodies p))
    | Inl (e, residual) \<Rightarrow> distinct residual \<and> creates p {ph_next p} p'
        \<and> (residual = [] \<or> residual = [ph_next p] \<and> ph_next p < ph_next p')
        \<and> (identified px \<longrightarrow> set (ph_bodies p') \<subseteq> set (ph_bodies p) \<union> set residual)"
proof -
  have old: "ph_next p \<notin> set (ph_bodies p)" using p by (auto simp: physics_ok_def)
  obtain l p1 where l: "list_bodies px p = (l, p1)" by fastforce
  note e1 = list_bodies_effect [OF l]
  show ?thesis
  proof (cases l)
    case (Inl e)
    with c l e1 p show ?thesis by (auto simp: create_body_def creates_def)
  next
    case existing: (Inr bs)
    show ?thesis
    proof (cases "px_create px (ph_calls p1)")
      case CreateOk
      with c l e1 p existing old show ?thesis
        by (auto simp: create_body_def register_body_def physics_ok_def less_Suc_eq)
    next
      case (CreateFails registered returned shape e)
      show ?thesis
      proof (cases registered)
        case False
        with c l e1 existing CreateFails
        have "undo_creation px (ph_bodies (count_call p1)) None shape e (count_call p1) = (r, p')" by (simp add: create_body_def)
        from undo_creation_nothing [OF _ this] e1 p show ?thesis by (auto simp: creates_def)
      next
        case True
        let ?q = "register_body (count_call p1)"
        have q: "physics_ok ?q" "ph_next ?q = Suc (ph_next p)" "set (ph_bodies ?q) = insert (ph_next p) (set (ph_bodies p))"
          using e1 p by (auto simp: register_body_def physics_ok_def)
        from c l e1 existing CreateFails True
        have u: "undo_creation px (ph_bodies p) (if returned then Some (ph_next p) else None) shape e ?q = (r, p')"
          by (cases returned) (simp_all add: create_body_def)
        have sets: "set (ph_bodies ?q) \<subseteq> set (ph_bodies p) \<union> {ph_next p}" "set (ph_bodies p) \<subseteq> set (ph_bodies ?q)"
          "(if returned then Some (ph_next p) else None) = None \<or> (if returned then Some (ph_next p) else None) = Some (ph_next p)"
          using q(3) by auto
        from undo_creation_effect [OF q(1) sets(1) old sets(2,3) u] q obtain e' res where
          res: "r = Inl (e', res)" "distinct res" "set res \<subseteq> {ph_next p}" "physics_ok p'" "ph_next p' = Suc (ph_next p)"
            "set (ph_bodies p) \<subseteq> set (ph_bodies p')" "set (ph_bodies p') \<subseteq> insert (ph_next p) (set (ph_bodies p))"
            "returned \<or> (\<forall>t. px_list px t = None) \<longrightarrow> set (ph_bodies p') \<subseteq> set (ph_bodies p) \<union> set res"
          by (elim exE conjE) (cases returned; simp)
        have "res = [] \<or> res = [ph_next p]" using res(2,3) by (cases res; cases "tl res") auto
        moreover have "identified px \<longrightarrow> returned \<or> (\<forall>t. px_list px t = None)"
          using CreateFails True by (auto simp: identified_def dest: spec [of _ "ph_calls p1"])
        ultimately show ?thesis using res by (auto simp: creates_def)
      qed
    qed
  qed
qed

end
