(* ===== verification/ObstacleModels.thy ===== *)
theory ObstacleModels
  imports PhysicsBodies
begin

text \<open>
  The data and the pure functions of \<^verbatim>\<open>slope_sim/obstacles.py\<close>: obstacle geometry, paths and requests with
  the checks of their constructors, the split of a mixed batch, the motion along a path, and the planar
  distances that decide whether a candidate may be placed.  \<^verbatim>\<open>math.hypot\<close> and \<^verbatim>\<open>math.dist\<close>, whose last
  bit Python leaves open, are the argument \<open>planar\<close>.
\<close>

subsection \<open>Checked values\<close>

definition ob_finite_float :: "msg \<Rightarrow> pyval \<Rightarrow> (exc, pyfloat) res" where
  \<comment> \<open>\<^verbatim>\<open>_require_finite_float\<close>\<close>
  "ob_finite_float name v =
     (let err = Exc ValueErr (name @ lit '' must be finite'')
      in ensure (is_real_number v) err (bind_res (py_float v) (\<lambda>x. ensure (f_isfinite x) err (Inr x))))"

definition ob_integral :: "msg \<Rightarrow> pyval \<Rightarrow> (exc, int) res" where
  "ob_integral name v =
     (case as_int v of Some n \<Rightarrow> Inr n | None \<Rightarrow> Inl (Exc ValueErr (name @ lit '' must be an integer'')))"

definition ob_positive_float :: "msg \<Rightarrow> pyval \<Rightarrow> (exc, pyfloat) res" where
  "ob_positive_float name v =
     bind_res (ob_finite_float name v) (\<lambda>x.
       ensure (\<not> f_le x f_zero) (Exc ValueErr (name @ lit '' must be greater than zero'')) (Inr x))"

definition ob_finite_vector :: "string \<Rightarrow> nat \<Rightarrow> pyval list \<Rightarrow> (exc, pyfloat list) res" where
  \<comment> \<open>for a tuple or list\<close>
  "ob_finite_vector name n vs =
     ensure (length vs = n) (Exc ValueErr (Lit (name @ '' must contain '') # IntRepr (int n) # lit '' values''))
       (map_res (\<lambda>(i, v). ob_finite_float [Lit (name @ ''[''), IntRepr (int i), Lit '']''] v) (enumerate 0 vs))"

definition lower_choice :: "string \<Rightarrow> string \<Rightarrow> string list \<Rightarrow> (exc, string) res" where
  \<comment> \<open>for a string value\<close>
  "lower_choice name v choices =
     (let normalized = py_lower v
      in ensure (normalized \<in> set choices)
           (value_error (name @ '' must be one of: '' @ py_join '', '' choices)) (Inr normalized))"

definition obstacle_modes :: "string list" where
  "obstacle_modes = [''static'', ''moving'', ''mixed'']"

definition obstacle_shapes :: "string list" where
  "obstacle_shapes = [''box'', ''cylinder'', ''sphere'']"

subsection \<open>Geometry, paths, requests\<close>

type_synonym xy = "pyfloat \<times> pyfloat"

record planar =
  pl_hypot :: "pyfloat list \<Rightarrow> pyfloat"
  pl_dist :: "xy \<Rightarrow> xy \<Rightarrow> pyfloat"

record obstacle_geometry =
  og_shape :: string
  og_half_extents :: "pyfloat list"

definition norm_epsilon :: pyfloat where
  "norm_epsilon = fl (1 / 10 ^ 12)"

definition py_max3 :: "pyfloat list \<Rightarrow> pyfloat" where
  \<comment> \<open>\<^verbatim>\<open>max\<close> of a nonempty tuple\<close>
  "py_max3 xs = fold (\<lambda>v m. f_max m v) (tl xs) (hd xs)"

definition mk_obstacle_geometry :: "string \<Rightarrow> pyval list \<Rightarrow> (exc, obstacle_geometry) res" where
  "mk_obstacle_geometry shape half_extents =
     bind_res (lower_choice ''shape'' shape obstacle_shapes) (\<lambda>sh.
     bind_res (ob_finite_vector ''half_extents'' 3 half_extents) (\<lambda>he.
     ensure (\<not> list_ex (\<lambda>v. f_le v f_zero) he) (value_error ''half_extents must be positive'')
       (Inr \<lparr>og_shape = sh,
             og_half_extents =
               (if sh = ''sphere'' then (let r = py_max3 he in [r, r, r])
                else if sh = ''cylinder'' then (let r = f_max (he ! 0) (he ! 1) in [r, r, he ! 2])
                else he)\<rparr>)))"

definition bounding_radius :: "planar \<Rightarrow> obstacle_geometry \<Rightarrow> pyfloat" where
  "bounding_radius pl g =
     (if og_shape g = ''sphere'' \<or> og_shape g = ''cylinder''
      then f_max (og_half_extents g ! 0) (og_half_extents g ! 1)
      else pl_hypot pl [og_half_extents g ! 0, og_half_extents g ! 1])"

record obstacle_path =
  op_start_xy :: xy
  op_end_xy :: xy
  op_speed :: pyfloat
  op_progress :: pyfloat
  op_direction :: int

definition normalize_xy :: "string \<Rightarrow> pyval list \<Rightarrow> (exc, xy) res" where
  "normalize_xy name vs = bind_res (ob_finite_vector name 2 vs) (\<lambda>xs. Inr (xs ! 0, xs ! 1))"

definition mk_obstacle_path ::
  "planar \<Rightarrow> pyval list \<Rightarrow> pyval list \<Rightarrow> pyval \<Rightarrow> pyval \<Rightarrow> pyval \<Rightarrow> (exc, obstacle_path) res" where
  "mk_obstacle_path pl start_xy end_xy speed progress direction =
     bind_res (normalize_xy ''start_xy'' start_xy) (\<lambda>a.
     bind_res (normalize_xy ''end_xy'' end_xy) (\<lambda>b.
     bind_res (ob_positive_float (lit ''speed'') speed) (\<lambda>v.
     bind_res (ob_finite_float (lit ''progress'') progress) (\<lambda>pr.
     ensure (\<not> (f_lt pr f_zero \<or> f_lt (fl 1) pr)) (value_error ''progress must be in the range 0..1'')
     (bind_res (ob_integral (lit ''direction'') direction) (\<lambda>d.
     ensure (d = - 1 \<or> d = 1) (value_error ''direction must be -1 or 1'')
     (ensure (\<not> f_le (pl_dist pl a b) norm_epsilon) (value_error ''path endpoints must be distinct'')
       (Inr \<lparr>op_start_xy = a, op_end_xy = b, op_speed = v, op_progress = pr, op_direction = d\<rparr>))))))))"

record obstacle_spec =
  os_logical_id :: int
  os_mode :: string
  os_geometry :: obstacle_geometry
  os_position :: "pyfloat list"
  os_orientation :: "pyfloat list"
  os_path :: "obstacle_path option"

definition quaternion_roundoff :: pyfloat where
  "quaternion_roundoff = fl (4 * 2 powi (- 52))"

definition normalize_orientation :: "planar \<Rightarrow> pyval list \<Rightarrow> (exc, pyfloat list) res" where
  \<comment> \<open>the divisor is greater than a positive bound\<close>
  "normalize_orientation pl vs =
     bind_res (ob_finite_vector ''orientation'' 4 vs) (\<lambda>q.
       let n = pl_hypot pl q
       in ensure (f_isfinite n) (value_error ''orientation norm must be finite'')
         (ensure (\<not> f_le n norm_epsilon) (value_error ''orientation norm must be greater than zero'')
           (Inr (if f_le (f_abs (f_sub n (fl 1))) quaternion_roundoff then q else map (\<lambda>v. f_quot v n) q))))"

definition mk_obstacle_spec ::
  "planar \<Rightarrow> pyval \<Rightarrow> string \<Rightarrow> obstacle_geometry inst \<Rightarrow> pyval list \<Rightarrow> pyval list \<Rightarrow> obstacle_path inst option \<Rightarrow>
   (exc, obstacle_spec) res" where
  \<comment> \<open>geometry and path are rebuilt from their fields\<close>
  "mk_obstacle_spec pl logical_id mode geometry position orientation path =
     bind_res (ob_integral (lit ''logical_id'') logical_id) (\<lambda>n.
     ensure (1 \<le> n) (value_error ''logical_id must be positive'')
     (bind_res (lower_choice ''mode'' mode [''static'', ''moving'']) (\<lambda>md.
     bind_res (case geometry of
         Foreign \<Rightarrow> Inl (value_error ''geometry must be an ObstacleGeometry'')
       | Instance g \<Rightarrow> (case mk_obstacle_geometry (og_shape g) (map PFloat (og_half_extents g)) of
           Inl e \<Rightarrow> Inl (Exc ValueErr (Lit ''geometry: '' # exc_msg e)) | Inr g' \<Rightarrow> Inr g')) (\<lambda>g.
     bind_res (case path of
         None \<Rightarrow> Inr None
       | Some Foreign \<Rightarrow> Inl (value_error ''path must be an ObstaclePath'')
       | Some (Instance pa) \<Rightarrow>
           (case mk_obstacle_path pl [PFloat (fst (op_start_xy pa)), PFloat (snd (op_start_xy pa))]
                   [PFloat (fst (op_end_xy pa)), PFloat (snd (op_end_xy pa))] (PFloat (op_speed pa))
                   (PFloat (op_progress pa)) (PInt (op_direction pa)) of
              Inl e \<Rightarrow> Inl (Exc ValueErr (Lit ''path: '' # exc_msg e)) | Inr pa' \<Rightarrow> Inr (Some pa'))) (\<lambda>pa.
     ensure (\<not> (md = ''static'' \<and> pa \<noteq> None)) (value_error ''static obstacle must not have a path'')
     (ensure (\<not> (md = ''moving'' \<and> pa = None)) (value_error ''moving obstacle must have a path'')
     (bind_res (ob_finite_vector ''position'' 3 position) (\<lambda>ps.
     bind_res (normalize_orientation pl orientation) (\<lambda>q.
       Inr \<lparr>os_logical_id = n, os_mode = md, os_geometry = g, os_position = ps, os_orientation = q, os_path = pa\<rparr>)))))))))"

record obstacle_request =
  oq_mode :: string
  oq_count :: int
  oq_seed :: int
  oq_shape :: string
  oq_moving_ratio :: pyfloat
  oq_moving_speed :: pyfloat

definition mk_obstacle_request ::
  "string \<Rightarrow> pyval \<Rightarrow> pyval \<Rightarrow> string \<Rightarrow> pyval \<Rightarrow> pyval \<Rightarrow> (exc, obstacle_request) res" where
  "mk_obstacle_request mode count seed shape moving_ratio moving_speed =
     bind_res (lower_choice ''mode'' mode obstacle_modes) (\<lambda>md.
     bind_res (lower_choice ''shape'' shape obstacle_shapes) (\<lambda>sh.
     bind_res (ob_integral (lit ''count'') count) (\<lambda>n.
     ensure (1 \<le> n \<and> n \<le> 50) (value_error ''count must be in the range 1..50'')
     (bind_res (ob_finite_float (lit ''moving_ratio'') moving_ratio) (\<lambda>r.
     ensure (\<not> (f_lt r f_zero \<or> f_lt (fl 1) r)) (value_error ''moving_ratio must be in the range 0..1'')
     (bind_res (ob_finite_float (lit ''moving_speed'') moving_speed) (\<lambda>v.
     ensure (\<not> (md \<in> {''moving'', ''mixed''} \<and> f_le v f_zero))
       (value_error ''moving_speed must be greater than zero for moving obstacles'')
     (bind_res (ob_integral (lit ''seed'') seed) (\<lambda>sd.
       Inr \<lparr>oq_mode = md, oq_count = n, oq_seed = sd, oq_shape = sh, oq_moving_ratio = r, oq_moving_speed = v\<rparr>)))))))))"

subsection \<open>Mixed batches\<close>

fun f_floor :: "pyfloat \<Rightarrow> (exc, int) res" where
  \<comment> \<open>\<^verbatim>\<open>math.floor\<close>\<close>
  "f_floor (Fin a) = Inr (floor a)"
| "f_floor NaN = Inl (value_error ''cannot convert float NaN to integer'')"
| "f_floor _ = Inl (overflow_error ''cannot convert float infinity to integer'')"

definition split_mixed_counts :: "pyval \<Rightarrow> pyval \<Rightarrow> (exc, int \<times> int) res" where
  "split_mixed_counts count moving_ratio =
     bind_res (ob_integral (lit ''count'') count) (\<lambda>n.
     ensure (1 \<le> n) (value_error ''count must be positive'')
     (bind_res (ob_finite_float (lit ''moving_ratio'') moving_ratio) (\<lambda>r.
     ensure (\<not> (f_lt r f_zero \<or> f_lt (fl 1) r)) (value_error ''moving_ratio must be in the range 0..1'')
     (bind_res (py_float (PInt n)) (\<lambda>nf.
     bind_res (f_floor (f_add (f_mul nf r) (fl (1 / 2)))) (\<lambda>moving.
       let m = (if 2 \<le> n then min (n - 1) (max 1 moving) else min n (max 0 moving))
       in Inr (n - m, m)))))))"

definition modes_for_request :: "obstacle_request \<Rightarrow> (exc, string list) res" where
  "modes_for_request q =
     (if oq_mode q = ''static'' then Inr (replicate (nat (oq_count q)) ''static'')
      else if oq_mode q = ''moving'' then Inr (replicate (nat (oq_count q)) ''moving'')
      else bind_res (split_mixed_counts (PInt (oq_count q)) (PFloat (oq_moving_ratio q))) (\<lambda>(s, m).
             Inr (replicate (nat s) ''static'' @ replicate (nat m) ''moving'')))"

subsection \<open>Motion along a path\<close>

fun f_mod2 :: "pyfloat \<Rightarrow> pyfloat" where
  \<comment> \<open>\<^verbatim>\<open>x % 2.0\<close> for \<open>0 \<le> x\<close>, which is exact\<close>
  "f_mod2 (Fin a) = Fin (a - 2 * of_int (floor (a / 2)))"
| "f_mod2 _ = NaN"

definition is_close_abs :: "pyfloat \<Rightarrow> pyfloat \<Rightarrow> bool" where
  \<comment> \<open>\<^verbatim>\<open>math.isclose(a, b, abs_tol=1e-12)\<close> with the default relative tolerance, of finite numbers\<close>
  "is_close_abs a b \<longleftrightarrow>
     a = b \<or> (let diff = f_abs (f_sub b a); rel = fl (1 / 10 ^ 9)
              in f_le diff (f_abs (f_mul rel b)) \<or> f_le diff (f_abs (f_mul rel a)) \<or> f_le diff norm_epsilon)"

definition ping_pong_phase :: "pyfloat \<Rightarrow> pyfloat \<times> int" where
  \<comment> \<open>progress and direction at a phase of the triangle wave\<close>
  "ping_pong_phase phase =
     (if is_close_abs phase (Fin 0) \<or> is_close_abs phase (Fin 2) then (Fin 0, 1)
      else if is_close_abs phase (Fin 1) then (Fin 1, - 1)
      else if f_lt phase (Fin 1) then (phase, 1)
      else (f_sub (Fin 2) phase, - 1))"

definition advance_ping_pong ::
  "pyval \<Rightarrow> pyval \<Rightarrow> pyval \<Rightarrow> pyval \<Rightarrow> pyval \<Rightarrow> (exc, pyfloat \<times> int) res" where
  \<comment> \<open>\<^verbatim>\<open>segment_length\<close> is positive, so the quotient exists\<close>
  "advance_ping_pong progress direction segment_length speed dt =
     bind_res (ob_finite_float (lit ''progress'') progress) (\<lambda>pr.
     ensure (\<not> (f_lt pr f_zero \<or> f_lt (fl 1) pr)) (value_error ''progress must be in the range 0..1'')
     (bind_res (ob_integral (lit ''direction'') direction) (\<lambda>d.
     ensure (d = - 1 \<or> d = 1) (value_error ''direction must be -1 or 1'')
     (bind_res (ob_positive_float (lit ''segment_length'') segment_length) (\<lambda>len.
     bind_res (ob_positive_float (lit ''speed'') speed) (\<lambda>v.
     bind_res (ob_finite_float (lit ''dt'') dt) (\<lambda>t.
       let remaining = f_mul v t
       in ensure (\<not> f_lt remaining f_zero) (value_error ''dt must not be negative'')
         (if f_eq remaining f_zero then Inr (pr, d)
          else Inr (ping_pong_phase (f_mod2 (f_add (if 0 < d then pr else f_sub (fl 2) pr) (f_quot remaining len))))))))))))"

subsection \<open>Planar distances\<close>

definition normalize_aabb :: "(pyfloat list \<times> pyfloat list) \<Rightarrow> (exc, pyfloat list \<times> pyfloat list) res" where
  "normalize_aabb box =
     bind_res (ob_finite_vector ''vehicle_aabb minimum'' 3 (map PFloat (fst box))) (\<lambda>lo.
     bind_res (ob_finite_vector ''vehicle_aabb maximum'' 3 (map PFloat (snd box))) (\<lambda>hi.
     ensure (\<not> list_ex (\<lambda>(a, b). f_lt b a) (zip lo hi))
       (value_error ''vehicle_aabb minimum corner must not exceed maximum corner'') (Inr (lo, hi))))"

definition point_segment_distance :: "planar \<Rightarrow> xy \<Rightarrow> xy \<Rightarrow> xy \<Rightarrow> pyfloat" where
  \<comment> \<open>of finite points\<close>
  "point_segment_distance pl point a b =
     (let dx = f_sub (fst b) (fst a); dy = f_sub (snd b) (snd a);
          length_sq = f_add (f_mul dx dx) (f_mul dy dy)
      in if f_le length_sq norm_epsilon then pl_hypot pl [f_sub (fst point) (fst a), f_sub (snd point) (snd a)]
         else
           let along = f_add (f_mul (f_sub (fst point) (fst a)) dx) (f_mul (f_sub (snd point) (snd a)) dy);
               t = f_max f_zero (f_min (fl 1) (f_quot along length_sq))
           in pl_hypot pl [f_sub (fst point) (f_add (fst a) (f_mul t dx)), f_sub (snd point) (f_add (snd a) (f_mul t dy))])"

definition orientation_2d :: "xy \<Rightarrow> xy \<Rightarrow> xy \<Rightarrow> pyfloat" where
  "orientation_2d a b c =
     f_sub (f_mul (f_sub (fst b) (fst a)) (f_sub (snd c) (snd a)))
           (f_mul (f_sub (snd b) (snd a)) (f_sub (fst c) (fst a)))"

definition on_segment :: "xy \<Rightarrow> xy \<Rightarrow> xy \<Rightarrow> bool" where
  "on_segment p a b \<longleftrightarrow>
     f_le (f_sub (f_min (fst a) (fst b)) norm_epsilon) (fst p)
     \<and> f_le (fst p) (f_add (f_max (fst a) (fst b)) norm_epsilon)
     \<and> f_le (f_sub (f_min (snd a) (snd b)) norm_epsilon) (snd p)
     \<and> f_le (snd p) (f_add (f_max (snd a) (snd b)) norm_epsilon)"

definition segments_intersect :: "xy \<Rightarrow> xy \<Rightarrow> xy \<Rightarrow> xy \<Rightarrow> bool" where
  "segments_intersect a0 a1 b0 b1 \<longleftrightarrow>
     (let o1 = orientation_2d a0 a1 b0; o2 = orientation_2d a0 a1 b1;
          o3 = orientation_2d b0 b1 a0; o4 = orientation_2d b0 b1 a1; touches = (\<lambda>x. f_le (f_abs x) norm_epsilon)
      in f_lt (f_mul o1 o2) (f_neg norm_epsilon) \<and> f_lt (f_mul o3 o4) (f_neg norm_epsilon)
         \<or> touches o1 \<and> on_segment b0 a0 a1 \<or> touches o2 \<and> on_segment b1 a0 a1
         \<or> touches o3 \<and> on_segment a0 b0 b1 \<or> touches o4 \<and> on_segment a1 b0 b1)"

definition segment_distance :: "planar \<Rightarrow> xy \<Rightarrow> xy \<Rightarrow> xy \<Rightarrow> xy \<Rightarrow> pyfloat" where
  "segment_distance pl a0 a1 b0 b1 =
     (if segments_intersect a0 a1 b0 b1 then f_zero
      else f_min (f_min (f_min (point_segment_distance pl a0 b0 b1) (point_segment_distance pl a1 b0 b1))
                        (point_segment_distance pl b0 a0 a1)) (point_segment_distance pl b1 a0 a1))"

type_synonym aabb = "pyfloat list \<times> pyfloat list"

definition circle_aabb_distance :: "planar \<Rightarrow> xy \<Rightarrow> aabb option \<Rightarrow> pyfloat" where
  \<comment> \<open>of a normalised box\<close>
  "circle_aabb_distance pl center box =
     (case box of
        None \<Rightarrow> PosInf
      | Some (lo, hi) \<Rightarrow>
          let cx = f_min (f_max (fst center) (lo ! 0)) (hi ! 0); cy = f_min (f_max (snd center) (lo ! 1)) (hi ! 1)
          in pl_hypot pl [f_sub (fst center) cx, f_sub (snd center) cy])"

definition segment_aabb_distance :: "planar \<Rightarrow> xy \<Rightarrow> xy \<Rightarrow> aabb option \<Rightarrow> pyfloat" where
  "segment_aabb_distance pl a b box =
     (case box of
        None \<Rightarrow> PosInf
      | Some (lo, hi) \<Rightarrow>
          if f_le (circle_aabb_distance pl a box) f_zero \<or> f_le (circle_aabb_distance pl b box) f_zero then f_zero
          else
            let c1 = (lo ! 0, lo ! 1); c2 = (hi ! 0, lo ! 1); c3 = (hi ! 0, hi ! 1); c4 = (lo ! 0, hi ! 1)
            in f_min (f_min (f_min (segment_distance pl a b c1 c2) (segment_distance pl a b c2 c3))
                            (segment_distance pl a b c3 c4)) (segment_distance pl a b c4 c1))"

subsection \<open>Whether a candidate may be placed\<close>

record placement_settings =
  gs_bounds :: "pyfloat \<times> pyfloat \<times> pyfloat \<times> pyfloat"  \<comment> \<open>min x, max x, min y, max y\<close>
  gs_spawn :: xy
  gs_spawn_protection_radius :: pyfloat
  gs_vehicle_aabb :: "aabb option"
  gs_minimum_clearance :: pyfloat
  gs_half_extent_ranges :: "(pyfloat \<times> pyfloat) list"
  gs_path_length_range :: "pyfloat \<times> pyfloat"
  gs_max_attempts :: nat
  gs_max_batch :: int
  gs_max_scene :: int

definition circle_inside_bounds :: "xy \<Rightarrow> pyfloat \<Rightarrow> pyfloat \<times> pyfloat \<times> pyfloat \<times> pyfloat \<Rightarrow> bool" where
  "circle_inside_bounds center radius bounds \<longleftrightarrow>
     (case bounds of (min_x, max_x, min_y, max_y) \<Rightarrow>
        f_le (f_add min_x radius) (fst center) \<and> f_le (fst center) (f_sub max_x radius)
        \<and> f_le (f_add min_y radius) (snd center) \<and> f_le (snd center) (f_sub max_y radius))"

definition spec_xy :: "obstacle_spec \<Rightarrow> xy" where
  "spec_xy s = (os_position s ! 0, os_position s ! 1)"

definition spec_radius :: "planar \<Rightarrow> obstacle_spec \<Rightarrow> pyfloat" where
  "spec_radius pl s = bounding_radius pl (os_geometry s)"

definition path_clearance :: "planar \<Rightarrow> obstacle_spec \<Rightarrow> obstacle_spec \<Rightarrow> pyfloat" where
  "path_clearance pl a b =
     (case (os_path a, os_path b) of
        (None, None) \<Rightarrow> pl_hypot pl [f_sub (fst (spec_xy a)) (fst (spec_xy b)), f_sub (snd (spec_xy a)) (snd (spec_xy b))]
      | (Some p, Some q) \<Rightarrow> segment_distance pl (op_start_xy p) (op_end_xy p) (op_start_xy q) (op_end_xy q)
      | (Some p, None) \<Rightarrow> point_segment_distance pl (spec_xy b) (op_start_xy p) (op_end_xy p)
      | (None, Some q) \<Rightarrow> point_segment_distance pl (spec_xy a) (op_start_xy q) (op_end_xy q))"

definition avoids_protected :: "planar \<Rightarrow> placement_settings \<Rightarrow> obstacle_spec \<Rightarrow> bool" where
  "avoids_protected pl gs s \<longleftrightarrow>
     (let radius = spec_radius pl s; required = f_add radius (gs_minimum_clearance gs);
          protected = f_add (f_add radius (gs_spawn_protection_radius gs)) (gs_minimum_clearance gs)
      in case os_path s of
           None \<Rightarrow>
             \<not> f_lt (pl_hypot pl [f_sub (fst (spec_xy s)) (fst (gs_spawn gs)), f_sub (snd (spec_xy s)) (snd (gs_spawn gs))]) protected
             \<and> f_le required (circle_aabb_distance pl (spec_xy s) (gs_vehicle_aabb gs))
         | Some p \<Rightarrow>
             \<not> f_lt (point_segment_distance pl (gs_spawn gs) (op_start_xy p) (op_end_xy p)) protected
             \<and> f_le required (segment_aabb_distance pl (op_start_xy p) (op_end_xy p) (gs_vehicle_aabb gs)))"

definition clears :: "planar \<Rightarrow> placement_settings \<Rightarrow> obstacle_spec \<Rightarrow> obstacle_spec \<Rightarrow> bool" where
  "clears pl gs s other \<longleftrightarrow>
     \<not> f_lt (path_clearance pl s other) (f_add (f_add (spec_radius pl s) (spec_radius pl other)) (gs_minimum_clearance gs))"

definition candidate_valid :: "planar \<Rightarrow> placement_settings \<Rightarrow> obstacle_spec \<Rightarrow> obstacle_spec list \<Rightarrow> bool" where
  "candidate_valid pl gs s occupied \<longleftrightarrow>
     (case os_path s of
        None \<Rightarrow> circle_inside_bounds (spec_xy s) (spec_radius pl s) (gs_bounds gs)
      | Some p \<Rightarrow> circle_inside_bounds (op_start_xy p) (spec_radius pl s) (gs_bounds gs)
                  \<and> circle_inside_bounds (op_end_xy p) (spec_radius pl s) (gs_bounds gs))
     \<and> avoids_protected pl gs s \<and> list_all (clears pl gs s) occupied"

definition batch_overlaps_vehicle :: "planar \<Rightarrow> placement_settings \<Rightarrow> obstacle_spec list \<Rightarrow> aabb option \<Rightarrow> bool" where
  \<comment> \<open>of a normalised box\<close>
  "batch_overlaps_vehicle pl gs specs box \<longleftrightarrow>
     box \<noteq> None \<and> list_ex (\<lambda>s.
        let radius = f_add (spec_radius pl s) (gs_minimum_clearance gs)
        in case os_path s of
             None \<Rightarrow> f_lt (circle_aabb_distance pl (spec_xy s) box) radius
           | Some p \<Rightarrow> f_lt (segment_aabb_distance pl (op_start_xy p) (op_end_xy p) box) radius) specs"

subsection \<open>Properties of the pure functions\<close>

lemma split_mixed_counts_spec:
  "split_mixed_counts count moving_ratio = Inr (s, m) \<Longrightarrow>
   \<exists>n. as_int count = Some n \<and> 1 \<le> n \<and> s + m = n \<and> 0 \<le> s \<and> 0 \<le> m \<and> (2 \<le> n \<longrightarrow> 1 \<le> s \<and> 1 \<le> m)"
  by (auto simp: split_mixed_counts_def ob_integral_def res_simps Let_def split: option.splits if_splits)

lemma modes_for_request_length:
  assumes "modes_for_request q = Inr ms"
  shows "int (length ms) = max 0 (oq_count q)"
proof -
  have "int (length ms) = max 0 (oq_count q)"
    if "split_mixed_counts (PInt (oq_count q)) (PFloat (oq_moving_ratio q)) = Inr (s, m)"
      "ms = replicate (nat s) ''static'' @ replicate (nat m) ''moving''" for s m
    using split_mixed_counts_spec [OF that(1)] that(2) by auto
  with assms show ?thesis
    by (auto simp: modes_for_request_def res_simps split: if_splits)
qed

lemma f_mod2_range: "0 \<le> a \<Longrightarrow> \<exists>r. f_mod2 (Fin a) = Fin r \<and> 0 \<le> r \<and> r < 2"
  by (simp, linarith)

lemma ping_pong_phase_range:
  assumes "0 \<le> a" and "a < 2"
  shows "\<exists>r d. ping_pong_phase (Fin a) = (Fin r, d) \<and> 0 \<le> r \<and> r \<le> 1 \<and> (d = 1 \<or> d = - 1)"
proof -
  have "\<exists>r. fl (2 - a) = Fin r \<and> 0 \<le> r \<and> r \<le> 1" if "1 \<le> a"
    by (rule fl_between [of 0 1 "2 - a"]) (use that assms in auto)
  with assms show ?thesis by (auto simp: ping_pong_phase_def)
qed

lemma ob_finite_float_PFloat: "ob_finite_float name (PFloat x) = Inr y \<longleftrightarrow> y = x \<and> f_isfinite x"
  by (auto simp: ob_finite_float_def res_simps Let_def)

lemma ob_positive_float_PFloat: "ob_positive_float name (PFloat x) = Inr y \<longleftrightarrow> y = x \<and> f_isfinite x \<and> \<not> f_le x f_zero"
  by (auto simp: ob_positive_float_def ob_finite_float_PFloat res_simps)

lemma advance_ping_pong_range:
  assumes "advance_ping_pong (PFloat progress) (PInt direction) (PFloat len) (PFloat speed) (PFloat dt) = Inr (progress', direction')"
    and "f_le (f_quot (f_mul speed dt) len) (Fin (2 ^ 60))"
  shows "\<exists>r. progress' = Fin r \<and> 0 \<le> r \<and> r \<le> 1 \<and> (direction' = 1 \<or> direction' = - 1)"
proof -
  let ?remaining = "f_mul speed dt"
  from assms(1) have chk: "f_isfinite progress" "\<not> f_lt progress f_zero" "\<not> f_lt (Fin 1) progress"
    "direction = - 1 \<or> direction = 1" "f_isfinite len" "\<not> f_le len f_zero" "\<not> f_lt ?remaining f_zero"
    and out: "(if f_eq ?remaining f_zero then Inr (progress, direction)
       else Inr (ping_pong_phase (f_mod2 (f_add (if 0 < direction then progress else f_sub (fl 2) progress) (f_quot ?remaining len)))))
       = (Inr (progress', direction') :: (exc, pyfloat \<times> int) res)"
    by (auto simp: advance_ping_pong_def ob_finite_float_PFloat ob_positive_float_PFloat ob_integral_def res_simps Let_def)
  from chk obtain p l where p: "progress = Fin p" "0 \<le> p" "p \<le> 1" and l: "len = Fin l" "0 < l"
    by (auto simp: f_isfinite_iff not_le not_less)
  show ?thesis
  proof (cases "f_eq ?remaining f_zero")
    case True
    with out p chk(4) show ?thesis by auto
  next
    case False
    obtain s where s: "(if 0 < direction then progress else f_sub (fl 2) progress) = Fin s" "0 \<le> s" "s \<le> 2"
    proof (cases "0 < direction")
      case True
      with p that show thesis by simp
    next
      case neg: False
      have two: "fl 2 = Fin 2" "is_double 2" using fl_of_int [of 2] is_double_of_int [of 2] by simp_all
      from fl_between [of 0 2 "2 - p"] p two obtain s where "fl (2 - p) = Fin s" "0 \<le> s" "s \<le> 2" by auto
      with neg p two that show thesis by simp
    qed
    obtain q where q: "f_quot ?remaining len = Fin q" "0 \<le> q" "q \<le> 2 ^ 60"
    proof -
      have "?remaining \<noteq> NaN" using assms(2) l by (cases ?remaining) (auto simp: f_le_def)
      then obtain x where x: "?remaining = Fin x" "0 \<le> x"
        using assms(2) chk(7) l by (cases ?remaining) (auto simp: f_le_def inf_of_sign_def)
      have "f_le (Fin 0) (fl (x / l))" using x l by (intro f_le_fl_nonneg) simp
      with x l assms(2) that show thesis by (cases "fl (x / l)") (auto simp: f_le_def)
    qed
    have big: "is_double (2 ^ 61)" by (rule is_double_dyadic [where m = 1 and e = 61]) simp_all
    obtain a where a: "fl (s + q) = Fin a" "0 \<le> a"
      using fl_between [of 0 "2 ^ 61" "s + q"] s q big by auto
    obtain r where r: "f_mod2 (Fin a) = Fin r" "0 \<le> r" "r < 2" using f_mod2_range [OF a(2)] by blast
    have "ping_pong_phase (Fin r) = (progress', direction')" using out False s(1) q(1) a(1) r(1) by simp
    with ping_pong_phase_range [OF r(2,3)] show ?thesis by auto
  qed
qed

end
