(* ===== verification/ObstaclePlanning.thy ===== *)
theory ObstaclePlanning
  imports ObstacleModels
begin

text \<open>
  Planning a batch of obstacles (\<^verbatim>\<open>slope_sim/obstacles.py\<close>, with \<^verbatim>\<open>probe_terrain\<close> of \<^verbatim>\<open>scene.py\<close>): sampling
  the terrain, orienting a body on it, drawing a candidate, and placing the whole batch, either at once
  (\<^verbatim>\<open>plan_obstacle_batch\<close>) or one attempt at a time over several frames (the first loop of \<^verbatim>\<open>_advance_add\<close>).
  The standard library's \<^verbatim>\<open>Random(seed).random()\<close> is the stream \<open>sm_random seed\<close>, Bullet's downward ray is
  \<open>sm_ray\<close>.
\<close>

subsection \<open>Sampling the terrain\<close>

type_synonym vec3 = "pyfloat \<times> pyfloat \<times> pyfloat"

record ray_hit =
  rh_body :: int
  rh_height :: pyfloat
  rh_normal :: vec3

record sampling =
  sm_planar :: planar
  sm_sqrt :: "pyfloat \<Rightarrow> pyfloat"
  sm_cos :: "pyfloat \<Rightarrow> pyfloat"
  sm_sin :: "pyfloat \<Rightarrow> pyfloat"
  sm_random :: "int \<Rightarrow> nat \<Rightarrow> pyfloat"
  sm_terrain :: "(exc, unit) res"  \<comment> \<open>do the terrain ids belong to the client\<close>
  sm_terrain_ids :: "int list"
  sm_ray :: "xy \<Rightarrow> (exc, ray_hit) res"

record terrain_probe =
  tp_valid :: bool
  tp_out_of_bounds :: bool
  tp_height :: pyfloat
  tp_normal :: vec3

definition no_terrain :: terrain_probe where
  "no_terrain = \<lparr>tp_valid = False, tp_out_of_bounds = True, tp_height = NaN, tp_normal = (Fin 0, Fin 0, Fin 1)\<rparr>"

definition bounds_contain :: "pyfloat \<times> pyfloat \<times> pyfloat \<times> pyfloat \<Rightarrow> xy \<Rightarrow> bool" where
  "bounds_contain bounds at_xy =
     (case bounds of (min_x, max_x, min_y, max_y) \<Rightarrow>
        f_le min_x (fst at_xy) \<and> f_le (fst at_xy) max_x \<and> f_le min_y (snd at_xy) \<and> f_le (snd at_xy) max_y)"

definition probe_terrain :: "sampling \<Rightarrow> placement_settings \<Rightarrow> xy \<Rightarrow> (exc, terrain_probe) res" where
  \<comment> \<open>with the default ray height, within the bounds of the settings\<close>
  "probe_terrain sm gs at_xy =
     ensure (f_isfinite (fst at_xy)) (value_error ''x must be finite'')
     (ensure (f_isfinite (snd at_xy)) (value_error ''y must be finite'')
     (bind_res (sm_terrain sm) (\<lambda>_.
       if \<not> bounds_contain (gs_bounds gs) at_xy then Inr no_terrain
       else bind_res (sm_ray sm at_xy) (\<lambda>hit.
         if rh_body hit < 0 then Inr no_terrain
         else ensure (rh_body hit \<in> set (sm_terrain_ids sm))
                (value_error ''terrain_body_ids must contain the terrain body hit by the filtered ray'')
                (Inr \<lparr>tp_valid = True, tp_out_of_bounds = False, tp_height = rh_height hit, tp_normal = rh_normal hit\<rparr>)))))"

subsection \<open>Orientation on the terrain\<close>

definition vector_length :: "sampling \<Rightarrow> vec3 \<Rightarrow> pyfloat" where
  "vector_length sm v =
     (case v of (x, y, z) \<Rightarrow> sm_sqrt sm (f_add (f_add (f_mul x x) (f_mul y y)) (f_mul z z)))"

definition normalize_vector3 :: "sampling \<Rightarrow> string \<Rightarrow> vec3 \<Rightarrow> (exc, vec3) res" where
  "normalize_vector3 sm name v =
     (case v of (x, y, z) \<Rightarrow>
        bind_res (ob_finite_vector name 3 [PFloat x, PFloat y, PFloat z]) (\<lambda>_.
          let n = vector_length sm v
          in ensure (\<not> f_le n norm_epsilon) (value_error (name @ '' must be non-zero''))
               (Inr (f_quot x n, f_quot y n, f_quot z n))))"

definition cross3 :: "vec3 \<Rightarrow> vec3 \<Rightarrow> vec3" where
  "cross3 a b =
     (case (a, b) of ((a0, a1, a2), (b0, b1, b2)) \<Rightarrow>
        (f_sub (f_mul a1 b2) (f_mul a2 b1), f_sub (f_mul a2 b0) (f_mul a0 b2), f_sub (f_mul a0 b1) (f_mul a1 b0)))"

definition dot3 :: "vec3 \<Rightarrow> vec3 \<Rightarrow> pyfloat" where
  "dot3 a b =
     (case (a, b) of ((a0, a1, a2), (b0, b1, b2)) \<Rightarrow> f_add (f_add (f_mul a0 b0) (f_mul a1 b1)) (f_mul a2 b2))"

definition math_sqrt :: "sampling \<Rightarrow> pyfloat \<Rightarrow> (exc, pyfloat) res" where
  "math_sqrt sm x = ensure (\<not> f_lt x f_zero) (value_error ''math domain error'') (Inr (sm_sqrt sm x))"

definition quot3 :: "pyfloat \<Rightarrow> vec3 \<Rightarrow> (exc, vec3) res" where
  \<comment> \<open>three quotients by \<open>scale\<close>\<close>
  "quot3 scale v =
     (case v of (x, y, z) \<Rightarrow>
        (case (f_div x scale, f_div y scale, f_div z scale) of
           (Some a, Some b, Some c) \<Rightarrow> Inr (a, b, c)
         | _ \<Rightarrow> Inl (Exc ZeroDivisionErr (lit ''float division by zero''))))"

definition quaternion_from_rows :: "sampling \<Rightarrow> vec3 \<Rightarrow> vec3 \<Rightarrow> vec3 \<Rightarrow> (exc, pyfloat list) res" where
  "quaternion_from_rows sm r0 r1 r2 =
     (case (r0, r1, r2) of ((m00, m01, m02), (m10, m11, m12), (m20, m21, m22)) \<Rightarrow>
        let trace = f_add (f_add m00 m11) m22;
            scale_of = (\<lambda>x. bind_res (math_sqrt sm x) (\<lambda>r. Inr (f_mul r (fl 2))));
            quarter = (\<lambda>scale. f_mul (fl (1 / 4)) scale);
            unit_of = (\<lambda>qx qy qz qw. normalize_orientation (sm_planar sm) [PFloat qx, PFloat qy, PFloat qz, PFloat qw])
        in if f_lt f_zero trace then
             bind_res (scale_of (f_add trace (fl 1))) (\<lambda>s.
             bind_res (quot3 s (f_sub m21 m12, f_sub m02 m20, f_sub m10 m01)) (\<lambda>(a, b, c). unit_of a b c (quarter s)))
           else if f_lt m11 m00 \<and> f_lt m22 m00 then
             bind_res (scale_of (f_sub (f_sub (f_add (fl 1) m00) m11) m22)) (\<lambda>s.
             bind_res (quot3 s (f_sub m21 m12, f_add m01 m10, f_add m02 m20)) (\<lambda>(a, b, c). unit_of (quarter s) b c a))
           else if f_lt m22 m11 then
             bind_res (scale_of (f_sub (f_sub (f_add (fl 1) m11) m00) m22)) (\<lambda>s.
             bind_res (quot3 s (f_sub m02 m20, f_add m01 m10, f_add m12 m21)) (\<lambda>(a, b, c). unit_of b (quarter s) c a))
           else
             bind_res (scale_of (f_sub (f_sub (f_add (fl 1) m22) m00) m11)) (\<lambda>s.
             bind_res (quot3 s (f_sub m10 m01, f_add m02 m20, f_add m12 m21)) (\<lambda>(a, b, c). unit_of b c (quarter s) a)))"

definition project_heading :: "xy \<Rightarrow> pyfloat \<Rightarrow> vec3 \<Rightarrow> vec3" where
  \<comment> \<open>the unit heading, projected on the plane normal to \<open>up\<close>\<close>
  "project_heading heading n up =
     (case up of (u0, u1, u2) \<Rightarrow>
        let d0 = f_quot (fst heading) n; d1 = f_quot (snd heading) n; along = dot3 (d0, d1, Fin 0) up
        in (f_sub d0 (f_mul along u0), f_sub d1 (f_mul along u1), f_sub (Fin 0) (f_mul along u2)))"

definition orientation_on_terrain :: "sampling \<Rightarrow> xy \<Rightarrow> vec3 \<Rightarrow> (exc, pyfloat list) res" where
  \<comment> \<open>\<^verbatim>\<open>_orientation_from_heading_and_normal\<close>\<close>
  "orientation_on_terrain sm heading_xy normal =
     bind_res (normalize_vector3 sm ''terrain_normal'' normal) (\<lambda>up.
     bind_res (normalize_xy ''heading_xy'' [PFloat (fst heading_xy), PFloat (snd heading_xy)]) (\<lambda>heading.
       let n = pl_hypot (sm_planar sm) [fst heading, snd heading]
       in ensure (\<not> f_le n norm_epsilon) (value_error ''heading_xy must be non-zero'')
         (let projected = project_heading heading n up;
              usable = (if f_le (vector_length sm projected) norm_epsilon then cross3 (Fin 0, Fin 1, Fin 0) up else projected)
          in bind_res (normalize_vector3 sm ''forward'' usable) (\<lambda>forward0.
             bind_res (normalize_vector3 sm ''left'' (cross3 up forward0)) (\<lambda>left.
             bind_res (normalize_vector3 sm ''forward'' (cross3 left up)) (\<lambda>forward.
               case (forward, left, up) of ((f0, f1, f2), (l0, l1, l2), (u0, u1, u2)) \<Rightarrow>
                 quaternion_from_rows sm (f0, l0, u0) (f1, l1, u1) (f2, l2, u2)))))))"

subsection \<open>Candidates\<close>

definition uniform :: "sampling \<Rightarrow> int \<Rightarrow> nat \<Rightarrow> pyfloat \<times> pyfloat \<Rightarrow> pyfloat" where
  \<comment> \<open>\<^verbatim>\<open>rng.uniform(a, b)\<close>: \<^verbatim>\<open>a + (b-a) * self.random()\<close>, for the \<open>n\<close>-th number of the stream\<close>
  "uniform sm seed n limits =
     (case limits of (a, b) \<Rightarrow> f_add a (f_mul (f_sub b a) (sm_random sm seed n)))"

definition math_pi :: pyfloat where
  "math_pi = Fin (884279719003555 / 281474976710656)"

definition sample_geometry :: "sampling \<Rightarrow> placement_settings \<Rightarrow> obstacle_request \<Rightarrow> nat \<Rightarrow> (exc, obstacle_geometry) res" where
  "sample_geometry sm gs q n =
     mk_obstacle_geometry (oq_shape q)
       (map (\<lambda>(i, limits). PFloat (uniform sm (oq_seed q) (n + i) limits)) (enumerate 0 (gs_half_extent_ranges gs)))"

definition sample_valid_probe :: "sampling \<Rightarrow> placement_settings \<Rightarrow> xy \<Rightarrow> (exc, terrain_probe option) res" where
  "sample_valid_probe sm gs at_xy =
     bind_res (probe_terrain sm gs at_xy) (\<lambda>probe.
       if \<not> tp_valid probe \<or> tp_out_of_bounds probe then Inr None
       else bind_res (ob_finite_float (lit ''local_ground_height'') (PFloat (tp_height probe))) (\<lambda>_.
            bind_res (normalize_vector3 sm ''terrain_normal'' (tp_normal probe)) (\<lambda>_. Inr (Some probe))))"

definition finish_candidate ::
  "sampling \<Rightarrow> placement_settings \<Rightarrow> int \<Rightarrow> string \<Rightarrow> obstacle_geometry \<Rightarrow> xy \<Rightarrow> xy \<Rightarrow> obstacle_path option \<Rightarrow>
   (exc, obstacle_spec option) res" where
  \<comment> \<open>the end of \<^verbatim>\<open>_make_candidate_spec\<close>, from the probe at the centre on\<close>
  "finish_candidate sm gs logical_id mode geometry center heading path =
     bind_res (sample_valid_probe sm gs center) (\<lambda>sampled.
       case sampled of
         None \<Rightarrow> Inr None
       | Some probe \<Rightarrow>
           bind_res (orientation_on_terrain sm heading (tp_normal probe)) (\<lambda>orientation.
           bind_res (mk_obstacle_spec (sm_planar sm) (PInt logical_id) mode (Instance geometry)
               [PFloat (fst center), PFloat (snd center), PFloat (f_add (tp_height probe) (og_half_extents geometry ! 2))]
               (map PFloat orientation) (map_option Instance path)) (\<lambda>s. Inr (Some s))))"

definition moving_path ::
  "sampling \<Rightarrow> placement_settings \<Rightarrow> obstacle_request \<Rightarrow> nat \<Rightarrow> pyfloat \<Rightarrow> xy \<Rightarrow> (exc, (xy \<times> obstacle_path) option) res" where
  \<comment> \<open>the heading and the path drawn for a moving candidate, none when its end is not usable\<close>
  "moving_path sm gs q n radius start_xy =
     (let angle = uniform sm (oq_seed q) n (f_neg math_pi, math_pi);
          path_length = uniform sm (oq_seed q) (n + 1) (gs_path_length_range gs);
          heading = (sm_cos sm angle, sm_sin sm angle);
          end_xy = (f_add (fst start_xy) (f_mul (fst heading) path_length), f_add (snd start_xy) (f_mul (snd heading) path_length))
      in if \<not> circle_inside_bounds end_xy radius (gs_bounds gs) then Inr None
         else bind_res (sample_valid_probe sm gs end_xy) (\<lambda>sampled.
           if sampled = None then Inr None
           else bind_res (mk_obstacle_path (sm_planar sm) [PFloat (fst start_xy), PFloat (snd start_xy)]
                    [PFloat (fst end_xy), PFloat (snd end_xy)] (PFloat (oq_moving_speed q)) (PFloat f_zero) (PInt 1))
                (\<lambda>path. Inr (Some (heading, path)))))"

definition make_candidate ::
  "sampling \<Rightarrow> placement_settings \<Rightarrow> obstacle_request \<Rightarrow> int \<Rightarrow> string \<Rightarrow> nat \<Rightarrow> (exc, obstacle_spec option \<times> nat) res" where
  \<comment> \<open>\<^verbatim>\<open>_make_candidate_spec\<close>, with how many numbers of the stream have been drawn, before and after\<close>
  "make_candidate sm gs q logical_id mode n =
     bind_res (sample_geometry sm gs q n) (\<lambda>geometry.
       let radius = bounding_radius (sm_planar sm) geometry
       in case gs_bounds gs of (min_x, max_x, min_y, max_y) \<Rightarrow>
         if f_lt (f_sub max_x radius) (f_add min_x radius) \<or> f_lt (f_sub max_y radius) (f_add min_y radius) then Inr (None, n + 3)
         else
           let center = (uniform sm (oq_seed q) (n + 3) (f_add min_x radius, f_sub max_x radius),
                         uniform sm (oq_seed q) (n + 4) (f_add min_y radius, f_sub max_y radius))
           in if mode = ''moving''
              then bind_res (moving_path sm gs q (n + 5) radius center) (\<lambda>path.
                     case path of
                       None \<Rightarrow> Inr (None, n + 7)
                     | Some (heading, pa) \<Rightarrow>
                         bind_res (finish_candidate sm gs logical_id mode geometry center heading (Some pa)) (\<lambda>s. Inr (s, n + 7)))
              else bind_res (finish_candidate sm gs logical_id mode geometry center (fl 1, f_zero) None) (\<lambda>s. Inr (s, n + 5)))"

subsection \<open>Placing a batch\<close>

definition planning_error :: "obstacle_request \<Rightarrow> int \<Rightarrow> exc" where
  "planning_error q logical_id =
     Exc (OtherErr ''ObstaclePlanningError'')
       [Lit ''Unable to plan complete obstacle batch of '', IntRepr (oq_count q),
        Lit ''; candidate attempts exhausted while placing logical id '', IntRepr logical_id]"

definition check_counts :: "placement_settings \<Rightarrow> obstacle_request \<Rightarrow> nat \<Rightarrow> (exc, unit) res" where
  "check_counts gs q existing =
     ensure (oq_count q \<le> gs_max_batch gs)
       (Exc ValueErr [Lit ''count must not exceed per-batch limit '', IntRepr (gs_max_batch gs)])
     (ensure (int existing + oq_count q \<le> gs_max_scene gs)
       (Exc ValueErr [Lit ''scene obstacle count must not exceed '', IntRepr (gs_max_scene gs)]) (Inr ()))"

definition next_logical_id :: "obstacle_spec list \<Rightarrow> int" where
  "next_logical_id specs = fold (\<lambda>s m. max m (os_logical_id s)) (tl specs) (if specs = [] then 0 else os_logical_id (hd specs)) + 1"

fun place_one ::
  "sampling \<Rightarrow> placement_settings \<Rightarrow> obstacle_request \<Rightarrow> obstacle_spec list \<Rightarrow> int \<Rightarrow> string \<Rightarrow> nat \<Rightarrow> nat \<Rightarrow>
   (exc, obstacle_spec \<times> nat) res" where
  \<comment> \<open>the inner loop of \<^verbatim>\<open>plan_obstacle_batch\<close>, with the attempts left and the numbers drawn\<close>
  "place_one sm gs q occupied logical_id mode 0 n = Inl (planning_error q logical_id)"
| "place_one sm gs q occupied logical_id mode (Suc attempts) n =
     bind_res (make_candidate sm gs q logical_id mode n) (\<lambda>(candidate, n').
       case candidate of
         Some s \<Rightarrow> (if candidate_valid (sm_planar sm) gs s occupied then Inr (s, n')
                    else place_one sm gs q occupied logical_id mode attempts n')
       | None \<Rightarrow> place_one sm gs q occupied logical_id mode attempts n')"

fun place_all ::
  "sampling \<Rightarrow> placement_settings \<Rightarrow> obstacle_request \<Rightarrow> obstacle_spec list \<Rightarrow> obstacle_spec list \<Rightarrow> int \<Rightarrow> string list \<Rightarrow> nat \<Rightarrow>
   (exc, obstacle_spec list) res" where
  "place_all sm gs q existing planned logical_id [] n = Inr planned"
| "place_all sm gs q existing planned logical_id (mode # modes) n =
     bind_res (place_one sm gs q (existing @ planned) logical_id mode (gs_max_attempts gs) n) (\<lambda>(s, n').
       place_all sm gs q existing (planned @ [s]) (logical_id + 1) modes n')"

definition plan_obstacle_batch ::
  "sampling \<Rightarrow> placement_settings \<Rightarrow> obstacle_request \<Rightarrow> obstacle_spec list \<Rightarrow> (exc, obstacle_spec list) res" where
  "plan_obstacle_batch sm gs q existing =
     bind_res (check_counts gs q (length existing)) (\<lambda>_.
     bind_res (modes_for_request q) (\<lambda>modes. place_all sm gs q existing [] (next_logical_id existing) modes 0))"

subsection \<open>Placing a batch one attempt at a time\<close>

record batch_plan =
  bp_planned :: "obstacle_spec list"
  bp_modes :: "string list"
  bp_next_logical_id :: int
  bp_next_index :: nat
  bp_attempts :: nat
  bp_drawn :: nat  \<comment> \<open>the state of \<^verbatim>\<open>planning_rng\<close>\<close>

definition start_plan :: "placement_settings \<Rightarrow> obstacle_request \<Rightarrow> obstacle_spec list \<Rightarrow> (exc, batch_plan) res" where
  \<comment> \<open>\<^verbatim>\<open>_initialize_add_planning\<close>\<close>
  "start_plan gs q existing =
     bind_res (check_counts gs q (length existing)) (\<lambda>_.
     bind_res (modes_for_request q) (\<lambda>modes.
       Inr \<lparr>bp_planned = [], bp_modes = modes, bp_next_logical_id = next_logical_id existing, bp_next_index = 0,
            bp_attempts = 0, bp_drawn = 0\<rparr>))"

definition plan_attempt ::
  "sampling \<Rightarrow> placement_settings \<Rightarrow> obstacle_request \<Rightarrow> obstacle_spec list \<Rightarrow> batch_plan \<Rightarrow> (exc, batch_plan) res" where
  \<comment> \<open>the \<^verbatim>\<open>try\<close> block of the planning loop\<close>
  "plan_attempt sm gs q existing b =
     (let logical_id = bp_next_logical_id b + int (bp_next_index b); mode = bp_modes b ! bp_next_index b
      in bind_res (make_candidate sm gs q logical_id mode (bp_drawn b)) (\<lambda>(candidate, n).
           let b1 = b\<lparr>bp_attempts := bp_attempts b + 1, bp_drawn := n\<rparr>;
               retry = (if gs_max_attempts gs \<le> bp_attempts b1 then Inl (planning_error q logical_id) else Inr b1)
           in case candidate of
                Some s \<Rightarrow>
                  if candidate_valid (sm_planar sm) gs s (existing @ bp_planned b)
                  then Inr (b1\<lparr>bp_planned := bp_planned b @ [s], bp_next_index := bp_next_index b + 1, bp_attempts := 0\<rparr>)
                  else retry
              | None \<Rightarrow> retry))"

lemma plan_attempt_cases:
  assumes "plan_attempt sm gs q existing b = Inr b'"
  shows "bp_modes b' = bp_modes b \<and> bp_next_logical_id b' = bp_next_logical_id b
    \<and> (bp_next_index b' = Suc (bp_next_index b) \<and> bp_attempts b' = 0
        \<and> (\<exists>s. bp_planned b' = bp_planned b @ [s] \<and> candidate_valid (sm_planar sm) gs s (existing @ bp_planned b))
       \<or> bp_next_index b' = bp_next_index b \<and> bp_attempts b' = Suc (bp_attempts b) \<and> bp_attempts b' < gs_max_attempts gs
        \<and> bp_planned b' = bp_planned b)"
proof -
  let ?id = "bp_next_logical_id b + int (bp_next_index b)"
  from assms obtain c n where c: "make_candidate sm gs q ?id (bp_modes b ! bp_next_index b) (bp_drawn b) = Inr (c, n)"
    by (cases "make_candidate sm gs q ?id (bp_modes b ! bp_next_index b) (bp_drawn b)") (auto simp: plan_attempt_def Let_def)
  with assms show ?thesis
    by (cases c) (auto simp: plan_attempt_def Let_def split: if_splits)
qed

function plan_slice ::
  "(nat \<Rightarrow> bool) \<Rightarrow> sampling \<Rightarrow> placement_settings \<Rightarrow> obstacle_request \<Rightarrow> obstacle_spec list \<Rightarrow> nat \<Rightarrow> batch_plan \<Rightarrow>
   (exc, bool \<times> batch_plan) res \<times> nat" where
  \<comment> \<open>the planning loop of one frame: is the plan complete, and how often the clock was read;
      \<open>expired t\<close> tells whether the \<open>t\<close>-th reading of the clock finds the time slice used up\<close>
  "plan_slice expired sm gs q existing t b =
     (if bp_next_index b < length (bp_modes b)
      then (case plan_attempt sm gs q existing b of
              Inl e \<Rightarrow> (Inl e, t)
            | Inr b' \<Rightarrow> if expired t then (Inr (False, b'), Suc t) else plan_slice expired sm gs q existing (Suc t) b')
      else (Inr (True, b), t))"
  by pat_completeness auto

termination plan_slice
proof (relation "measures [\<lambda>(expired, sm, gs, q, existing, t, b). length (bp_modes b) - bp_next_index b,
                           \<lambda>(expired, sm, gs, q, existing, t, b). gs_max_attempts gs - bp_attempts b]", goal_cases)
  case 1
  show ?case by simp
next
  case (2 expired sm gs q existing t b b')
  with plan_attempt_cases [OF 2(2)] show ?case by (auto simp: less_Suc_eq)
qed

declare plan_slice.simps [simp del]

subsection \<open>Slicing does not change the batch\<close>

definition rest_of_plan ::
  "sampling \<Rightarrow> placement_settings \<Rightarrow> obstacle_request \<Rightarrow> obstacle_spec list \<Rightarrow> batch_plan \<Rightarrow> (exc, obstacle_spec list) res" where
  \<comment> \<open>what \<^verbatim>\<open>plan_obstacle_batch\<close> would still do from here\<close>
  "rest_of_plan sm gs q existing b =
     (let logical_id = bp_next_logical_id b + int (bp_next_index b)
      in if bp_next_index b < length (bp_modes b)
         then bind_res (place_one sm gs q (existing @ bp_planned b) logical_id (bp_modes b ! bp_next_index b)
                          (gs_max_attempts gs - bp_attempts b) (bp_drawn b)) (\<lambda>(s, n).
                place_all sm gs q existing (bp_planned b @ [s]) (logical_id + 1) (drop (Suc (bp_next_index b)) (bp_modes b)) n)
         else Inr (bp_planned b))"

lemma rest_of_plan_place_all:
  assumes "bp_attempts b = 0"
  shows "rest_of_plan sm gs q existing b =
    place_all sm gs q existing (bp_planned b) (bp_next_logical_id b + int (bp_next_index b)) (drop (bp_next_index b) (bp_modes b)) (bp_drawn b)"
proof (cases "bp_next_index b < length (bp_modes b)")
  case True
  then have "drop (bp_next_index b) (bp_modes b) = bp_modes b ! bp_next_index b # drop (Suc (bp_next_index b)) (bp_modes b)"
    by (rule Cons_nth_drop_Suc [symmetric])
  with True assms show ?thesis by (simp add: rest_of_plan_def Let_def)
next
  case False
  then show ?thesis by (simp add: rest_of_plan_def Let_def)
qed

lemma plan_attempt_rest:
  assumes "bp_next_index b < length (bp_modes b)" and "bp_attempts b < gs_max_attempts gs"
  shows "rest_of_plan sm gs q existing b = bind_res (plan_attempt sm gs q existing b) (rest_of_plan sm gs q existing)"
proof -
  let ?id = "bp_next_logical_id b + int (bp_next_index b)" and ?mode = "bp_modes b ! bp_next_index b"
  obtain k where k: "gs_max_attempts gs - bp_attempts b = Suc k" "k = gs_max_attempts gs - Suc (bp_attempts b)"
    using assms(2) by (metis Suc_diff_Suc)
  show ?thesis
  proof (cases "make_candidate sm gs q ?id ?mode (bp_drawn b)")
    case (Inl e)
    with k assms(1) show ?thesis by (simp add: rest_of_plan_def plan_attempt_def Let_def)
  next
    case (Inr cn)
    obtain c n where cn: "cn = (c, n)" by fastforce
    let ?b1 = "b\<lparr>bp_attempts := bp_attempts b + 1, bp_drawn := n\<rparr>"
    have retry: "bind_res (place_one sm gs q (existing @ bp_planned b) ?id ?mode k n) (\<lambda>(s, n').
          place_all sm gs q existing (bp_planned b @ [s]) (?id + 1) (drop (Suc (bp_next_index b)) (bp_modes b)) n')
        = bind_res (if gs_max_attempts gs \<le> bp_attempts ?b1 then Inl (planning_error q ?id) else Inr ?b1) (rest_of_plan sm gs q existing)"
      using k assms(1) by (auto simp: rest_of_plan_def Let_def)
    show ?thesis
    proof (cases "\<exists>s. c = Some s \<and> candidate_valid (sm_planar sm) gs s (existing @ bp_planned b)")
      case True
      with k Inr cn assms(1) show ?thesis
        by (auto simp: rest_of_plan_def [of _ _ _ _ b] plan_attempt_def Let_def rest_of_plan_place_all algebra_simps)
    next
      case False
      with k Inr cn assms(1) retry show ?thesis
        by (cases c) (auto simp: rest_of_plan_def [of _ _ _ _ b] plan_attempt_def Let_def simp del: One_nat_def)
    qed
  qed
qed

definition plan_ok :: "placement_settings \<Rightarrow> batch_plan \<Rightarrow> bool" where
  "plan_ok gs b \<longleftrightarrow> bp_attempts b < gs_max_attempts gs"

lemma plan_slice_rest:
  assumes "plan_ok gs b"
  shows "case fst (plan_slice expired sm gs q existing t b) of
      Inl e \<Rightarrow> rest_of_plan sm gs q existing b = Inl e
    | Inr (whole, b') \<Rightarrow> plan_ok gs b' \<and> rest_of_plan sm gs q existing b' = rest_of_plan sm gs q existing b
        \<and> (whole \<longrightarrow> rest_of_plan sm gs q existing b = Inr (bp_planned b'))"
  using assms
proof (induction expired sm gs q existing t b rule: plan_slice.induct)
  case (1 expired sm gs q existing t b)
  show ?case
  proof (cases "bp_next_index b < length (bp_modes b)")
    case False
    with 1(2) show ?thesis by (simp add: plan_slice.simps [of _ _ _ _ _ _ b] rest_of_plan_def Let_def)
  next
    case True
    note rest = plan_attempt_rest [OF True, of gs, of sm q existing] and ok = 1(2) [unfolded plan_ok_def]
    show ?thesis
    proof (cases "plan_attempt sm gs q existing b")
      case (Inl e)
      with True rest ok show ?thesis by (simp add: plan_slice.simps [of _ _ _ _ _ _ b])
    next
      case (Inr b')
      from plan_attempt_cases [OF Inr] ok have ok': "plan_ok gs b'" by (auto simp: plan_ok_def)
      show ?thesis
      proof (cases "expired t")
        case True
        with \<open>bp_next_index b < length (bp_modes b)\<close> Inr rest ok ok' show ?thesis
          by (simp add: plan_slice.simps [of _ _ _ _ _ _ b])
      next
        case False
        have "plan_slice expired sm gs q existing t b = plan_slice expired sm gs q existing (Suc t) b'"
          using True Inr False by (simp add: plan_slice.simps [of _ _ _ _ _ _ b])
        moreover have "rest_of_plan sm gs q existing b = rest_of_plan sm gs q existing b'" using rest Inr ok by simp
        ultimately show ?thesis using 1(1) [OF True Inr False ok'] by (simp split: sum.splits prod.splits)
      qed
    qed
  qed
qed

text \<open>Several frames in a row, each with its own time slices.\<close>

fun plan_frames ::
  "(nat \<Rightarrow> bool) \<Rightarrow> sampling \<Rightarrow> placement_settings \<Rightarrow> obstacle_request \<Rightarrow> obstacle_spec list \<Rightarrow> nat \<Rightarrow> nat \<Rightarrow> batch_plan \<Rightarrow>
   (exc, bool \<times> batch_plan) res" where
  "plan_frames expired sm gs q existing 0 t b = Inr (False, b)"
| "plan_frames expired sm gs q existing (Suc frames) t b =
     (case plan_slice expired sm gs q existing t b of
        (Inl e, t') \<Rightarrow> Inl e
      | (Inr (whole, b'), t') \<Rightarrow>
          if whole then Inr (True, b') else plan_frames expired sm gs q existing frames t' b')"

lemma plan_frames_rest:
  assumes "plan_ok gs b"
  shows "(\<forall>e. plan_frames expired sm gs q existing frames t b = Inl e \<longrightarrow> rest_of_plan sm gs q existing b = Inl e)
    \<and> (\<forall>b'. plan_frames expired sm gs q existing frames t b = Inr (True, b') \<longrightarrow> rest_of_plan sm gs q existing b = Inr (bp_planned b'))"
  using assms
proof (induction frames arbitrary: t b)
  case 0
  then show ?case by simp
next
  case (Suc frames)
  obtain r t' where s: "plan_slice expired sm gs q existing t b = (r, t')" by fastforce
  note step = plan_slice_rest [OF Suc.prems, where expired = expired and sm = sm and q = q and existing = existing and t = t]
  show ?case
  proof (cases r)
    case (Inl e)
    with s step show ?thesis by simp
  next
    case (Inr cb)
    obtain c b' where cb: "cb = (c, b')" by fastforce
    with s step Inr Suc.IH [of b' t'] show ?thesis by (cases c) auto
  qed
qed

subsection \<open>A batch is planned within a bounded number of frames\<close>

definition plan_left :: "placement_settings \<Rightarrow> batch_plan \<Rightarrow> nat" where
  \<comment> \<open>the attempts that may still be made\<close>
  "plan_left gs b = (length (bp_modes b) - bp_next_index b) * gs_max_attempts gs - bp_attempts b"

lemma plan_left_attempt:
  assumes "plan_ok gs b" and "bp_next_index b < length (bp_modes b)" and "plan_attempt sm gs q existing b = Inr b'"
  shows "plan_ok gs b' \<and> plan_left gs b' < plan_left gs b"
proof -
  obtain k where k: "length (bp_modes b) - bp_next_index b = Suc k" "length (bp_modes b) - Suc (bp_next_index b) = k"
    using assms(2) by (metis Suc_diff_Suc)
  from plan_attempt_cases [OF assms(3)] assms(1) k show ?thesis
    by (auto simp: plan_ok_def plan_left_def)
qed

lemma plan_slice_left:
  assumes "plan_ok gs b" and "fst (plan_slice expired sm gs q existing t b) = Inr (False, b')"
  shows "plan_ok gs b' \<and> plan_left gs b' < plan_left gs b"
  using assms
proof (induction expired sm gs q existing t b rule: plan_slice.induct)
  case (1 expired sm gs q existing t b)
  from 1(3) have more: "bp_next_index b < length (bp_modes b)"
    by (auto simp: plan_slice.simps [of _ _ _ _ _ _ b] split: if_splits)
  with 1(3) obtain b1 where b1: "plan_attempt sm gs q existing b = Inr b1"
    by (cases "plan_attempt sm gs q existing b") (auto simp: plan_slice.simps [of _ _ _ _ _ _ b])
  note left = plan_left_attempt [OF 1(2) more b1]
  show ?case
  proof (cases "expired t")
    case True
    with 1(3) more b1 left show ?thesis by (simp add: plan_slice.simps [of _ _ _ _ _ _ b])
  next
    case False
    with 1(3) more b1 have "fst (plan_slice expired sm gs q existing (Suc t) b1) = Inr (False, b')"
      by (simp add: plan_slice.simps [of _ _ _ _ _ _ b])
    from 1(1) [OF more b1 False conjunct1 [OF left] this] left show ?thesis by simp
  qed
qed

lemma plan_frames_end:
  assumes "plan_ok gs b" and "plan_left gs b < frames"
  shows "plan_frames expired sm gs q existing frames t b \<noteq> Inr (False, b')"
  using assms
proof (induction frames arbitrary: t b)
  case 0
  then show ?case by simp
next
  case (Suc frames)
  obtain r t1 where s: "plan_slice expired sm gs q existing t b = (r, t1)" by fastforce
  show ?case
  proof (cases "\<exists>b1. r = Inr (False, b1)")
    case True
    then obtain b1 where b1: "r = Inr (False, b1)" by blast
    from plan_slice_left [OF Suc.prems(1), of expired sm q existing t b1] s b1 Suc.prems(2) Suc.IH [of b1 t1]
    show ?thesis by (simp add: b1 s)
  next
    case False
    with s show ?thesis by (auto split: sum.split)
  qed
qed

subsection \<open>What a planned batch keeps\<close>

definition batch_clear :: "sampling \<Rightarrow> placement_settings \<Rightarrow> obstacle_spec list \<Rightarrow> obstacle_spec list \<Rightarrow> bool" where
  "batch_clear sm gs existing planned \<longleftrightarrow>
     (\<forall>i<length planned. candidate_valid (sm_planar sm) gs (planned ! i) (existing @ take i planned))"

lemma batch_clear_snoc:
  "batch_clear sm gs existing (planned @ [s]) \<longleftrightarrow>
   batch_clear sm gs existing planned \<and> candidate_valid (sm_planar sm) gs s (existing @ planned)"
  by (auto simp: batch_clear_def nth_append less_Suc_eq)

lemma place_one_valid:
  "place_one sm gs q occupied logical_id mode attempts n = Inr (s, n') \<Longrightarrow> candidate_valid (sm_planar sm) gs s occupied"
  by (induction sm gs q occupied logical_id mode attempts n rule: place_one.induct)
     (auto simp: res_simps split: option.splits if_splits)

lemma place_all_clear:
  "place_all sm gs q existing planned logical_id modes n = Inr specs \<Longrightarrow> batch_clear sm gs existing planned \<Longrightarrow>
   batch_clear sm gs existing specs \<and> length specs = length planned + length modes"
proof (induction sm gs q existing planned logical_id modes n rule: place_all.induct)
  case (2 sm gs q existing planned logical_id mode modes n)
  then obtain s n' where s: "place_one sm gs q (existing @ planned) logical_id mode (gs_max_attempts gs) n = Inr (s, n')"
    "place_all sm gs q existing (planned @ [s]) (logical_id + 1) modes n' = Inr specs" by (auto simp: res_simps)
  from 2(1) [OF s(2)] 2(3) place_one_valid [OF s(1)] show ?case by (simp add: batch_clear_snoc)
qed simp

lemma start_plan_rest:
  assumes "start_plan gs q existing = Inr b" and "0 < gs_max_attempts gs"
  shows "plan_ok gs b \<and> rest_of_plan sm gs q existing b = plan_obstacle_batch sm gs q existing
    \<and> plan_left gs b = length (bp_modes b) * gs_max_attempts gs \<and> int (length (bp_modes b)) = max 0 (oq_count q)"
proof -
  from assms(1) obtain modes where m: "check_counts gs q (length existing) = Inr ()" "modes_for_request q = Inr modes"
    "b = \<lparr>bp_planned = [], bp_modes = modes, bp_next_logical_id = next_logical_id existing, bp_next_index = 0, bp_attempts = 0, bp_drawn = 0\<rparr>"
    by (auto simp: start_plan_def res_simps)
  then have "rest_of_plan sm gs q existing b = plan_obstacle_batch sm gs q existing"
    by (simp add: plan_obstacle_batch_def rest_of_plan_place_all)
  with m assms(2) modes_for_request_length [OF m(2)] show ?thesis by (simp add: plan_ok_def plan_left_def)
qed

text \<open>
  C14. Planning a batch over several frames gives what planning it at once gives, however the frames cut
  it: the same obstacles, or the same error; and it is over after as many frames as there are attempts for
  all obstacles, even if every frame has time for one attempt only.
\<close>

theorem sliced_planning_is_batch:
  assumes "start_plan gs q existing = Inr b" and "0 < gs_max_attempts gs"
    and "nat (oq_count q) * gs_max_attempts gs < frames"
  shows "(\<exists>e. plan_frames expired sm gs q existing frames t b = Inl e \<and> plan_obstacle_batch sm gs q existing = Inl e)
    \<or> (\<exists>b'. plan_frames expired sm gs q existing frames t b = Inr (True, b')
        \<and> plan_obstacle_batch sm gs q existing = Inr (bp_planned b'))"
proof -
  note start = start_plan_rest [OF assms(1,2), of sm]
  have len: "length (bp_modes b) = nat (oq_count q)" using start by linarith
  have left: "plan_left gs b < frames" using start assms(3) by (simp add: len)
  show ?thesis
  proof (cases "plan_frames expired sm gs q existing frames t b")
    case (Inl e)
    with plan_frames_rest [OF conjunct1 [OF start]] start show ?thesis by metis
  next
    case (Inr cb)
    obtain c b' where "cb = (c, b')" by fastforce
    with Inr plan_frames_end [OF conjunct1 [OF start] left, of expired sm q existing t b']
    have "plan_frames expired sm gs q existing frames t b = Inr (True, b')" by (cases c) auto
    with plan_frames_rest [OF conjunct1 [OF start]] start show ?thesis by metis
  qed
qed


subsection \<open>An example\<close>

lemma fl_numeral_simps:
  "numeral n \<le> (2 ^ 53 :: int) \<Longrightarrow> fl (numeral n) = Fin (numeral n)"
  "numeral n \<le> (2 ^ 53 :: int) \<Longrightarrow> fl (- numeral n) = Fin (- numeral n)" "fl (- 1) = Fin (- 1)" "fl (1 / 4) = Fin (1 / 4)"
  using fl_of_int [of "numeral n"] fl_of_int [of "- numeral n"] fl_minus [of 1]
  by (simp_all add: fl_exact is_double_dyadic [where m = 1 and e = "-2"])

lemma epsilon_bounds:
  "\<not> f_le (Fin 1) norm_epsilon" "\<not> f_le (Fin 2) norm_epsilon" "f_le (Fin 0) norm_epsilon" "f_le (Fin 0) quaternion_roundoff"
proof -
  have d: "is_double (1 / 2)" by (rule is_double_dyadic [where m = 1 and e = "- 1"]) simp_all
  obtain e where e: "norm_epsilon = Fin e" "0 \<le> e" "e \<le> 1 / 2"
    unfolding norm_epsilon_def by (rule fl_between [OF is_double_0 d, of "1 / 10 ^ 12"]) auto
  then show "\<not> f_le (Fin 1) norm_epsilon" "\<not> f_le (Fin 2) norm_epsilon" "f_le (Fin 0) norm_epsilon" by (simp_all add: e(1))
  obtain e where e: "quaternion_roundoff = Fin e" "0 \<le> e" "e \<le> 1 / 2"
    unfolding quaternion_roundoff_def
    by (rule fl_between [OF is_double_0 d, of "4 * 2 powi (- 52)"]) (auto simp: power_int_def field_simps)
  then show "f_le (Fin 0) quaternion_roundoff" by (simp add: e(1))
qed

definition example_sampling :: sampling where
  \<comment> \<open>flat ground at height 0, everywhere body 7\<close>
  "example_sampling =
     \<lparr>sm_planar = \<lparr>pl_hypot = (\<lambda>xs. fold (\<lambda>x a. f_max a (f_abs x)) xs (Fin 0)),
                   pl_dist = (\<lambda>a b. f_max (f_abs (f_sub (fst a) (fst b))) (f_abs (f_sub (snd a) (snd b))))\<rparr>,
      sm_sqrt = (\<lambda>x. if x = Fin 4 then Fin 2 else x), sm_cos = (\<lambda>_. Fin 1), sm_sin = (\<lambda>_. Fin 0),
      sm_random = (\<lambda>seed n. if n < 5 then Fin 0 else Fin 1), sm_terrain = Inr (), sm_terrain_ids = [7],
      sm_ray = (\<lambda>_. Inr \<lparr>rh_body = 7, rh_height = Fin 0, rh_normal = (Fin 0, Fin 0, Fin 1)\<rparr>)\<rparr>"

definition example_settings :: placement_settings where
  "example_settings =
     \<lparr>gs_bounds = (Fin (- 8), Fin 8, Fin (- 8), Fin 8), gs_spawn = (Fin 0, Fin 0), gs_spawn_protection_radius = Fin 2,
      gs_vehicle_aabb = None, gs_minimum_clearance = Fin 1,
      gs_half_extent_ranges = [(Fin 1, Fin 1), (Fin 1, Fin 1), (Fin 1, Fin 1)],
      gs_path_length_range = (Fin 1, Fin 2), gs_max_attempts = 1, gs_max_batch = 50, gs_max_scene = 100\<rparr>"

definition example_request :: obstacle_request where
  "example_request =
     \<lparr>oq_mode = ''static'', oq_count = 2, oq_seed = 11, oq_shape = ''box'', oq_moving_ratio = Fin 0, oq_moving_speed = Fin 1\<rparr>"
lemmas example_defs = example_sampling_def example_settings_def example_request_def
lemmas example_simps =
  fl_simps fl_numeral_simps epsilon_bounds ob_finite_vector_def ob_finite_float_PFloat ob_finite_float_def

lemma example_geometry:
  "sample_geometry example_sampling example_settings example_request n = Inr \<lparr>og_shape = ''box'', og_half_extents = [Fin 1, Fin 1, Fin 1]\<rparr>"
proof -
  have "py_lower ''box'' = ''box''" by code_simp
  then show ?thesis
    by (simp add: sample_geometry_def example_defs uniform_def mk_obstacle_geometry_def lower_choice_def obstacle_shapes_def example_simps)
qed

lemma example_orientation:
  "orientation_on_terrain example_sampling (Fin 1, Fin 0) (Fin 0, Fin 0, Fin 1) = Inr [Fin 0, Fin 0, Fin 0, Fin 1]"
  by (simp add: orientation_on_terrain_def normalize_vector3_def example_sampling_def vector_length_def normalize_xy_def
      project_heading_def dot3_def cross3_def quaternion_from_rows_def math_sqrt_def quot3_def normalize_orientation_def example_simps Let_def)

definition example_spec :: "int \<Rightarrow> pyfloat \<Rightarrow> obstacle_spec" where
  "example_spec logical_id x =
     \<lparr>os_logical_id = logical_id, os_mode = ''static'', os_geometry = \<lparr>og_shape = ''box'', og_half_extents = [Fin 1, Fin 1, Fin 1]\<rparr>,
      os_position = [x, x, Fin 1], os_orientation = [Fin 0, Fin 0, Fin 0, Fin 1], os_path = None\<rparr>"

lemma example_candidate:
  assumes "n = 0 \<and> x = Fin (- 7) \<or> n = 5 \<and> x = Fin 7" and "1 \<le> logical_id"
  shows "make_candidate example_sampling example_settings example_request logical_id ''static'' n = Inr (Some (example_spec logical_id x), n + 5)"
proof -
  have lower: "py_lower ''box'' = ''box''" "py_lower ''static'' = ''static''" by code_simp+
  have bounds: "gs_bounds example_settings = (Fin (- 8), Fin 8, Fin (- 8), Fin 8)"
    "bounding_radius (sm_planar example_sampling) \<lparr>og_shape = ''box'', og_half_extents = [Fin 1, Fin 1, Fin 1]\<rparr> = Fin 1"
    by (simp_all add: example_defs bounding_radius_def example_simps)
  have draw: "uniform example_sampling (oq_seed example_request) (n + 3) (Fin (- 7), Fin 7) = x"
    "uniform example_sampling (oq_seed example_request) (n + 4) (Fin (- 7), Fin 7) = x"
    using assms(1) by (auto simp: uniform_def example_defs example_simps)
  have finish: "finish_candidate example_sampling example_settings logical_id ''static''
      \<lparr>og_shape = ''box'', og_half_extents = [Fin 1, Fin 1, Fin 1]\<rparr> (x, x) (Fin 1, Fin 0) None = Inr (Some (example_spec logical_id x))"
  proof -
    have x: "f_isfinite x" "f_le (Fin (- 8)) x" "f_le x (Fin 8)" using assms(1) by auto
    have probe: "sample_valid_probe example_sampling example_settings (x, x)
        = Inr (Some \<lparr>tp_valid = True, tp_out_of_bounds = False, tp_height = Fin 0, tp_normal = (Fin 0, Fin 0, Fin 1)\<rparr>)"
      using x by (simp add: sample_valid_probe_def probe_terrain_def example_sampling_def bounds bounds_contain_def
          normalize_vector3_def vector_length_def example_simps Let_def)
    have "mk_obstacle_spec (sm_planar example_sampling) (PInt logical_id) ''static''
        (Instance \<lparr>og_shape = ''box'', og_half_extents = [Fin 1, Fin 1, Fin 1]\<rparr>) [PFloat x, PFloat x, PFloat (Fin 1)]
        (map PFloat [Fin 0, Fin 0, Fin 0, Fin 1]) None = Inr (example_spec logical_id x)"
      using assms(2) x lower
      by (simp add: mk_obstacle_spec_def ob_integral_def lower_choice_def mk_obstacle_geometry_def obstacle_shapes_def
          normalize_orientation_def example_sampling_def example_spec_def example_simps Let_def)
    with probe show ?thesis by (simp add: finish_candidate_def example_orientation example_simps)
  qed
  show ?thesis
    using draw finish by (simp add: make_candidate_def example_geometry bounds example_simps Let_def)
qed

lemma example_valid:
  "candidate_valid (sm_planar example_sampling) example_settings (example_spec 1 (Fin (- 7))) []"
  "candidate_valid (sm_planar example_sampling) example_settings (example_spec 2 (Fin 7)) [example_spec 1 (Fin (- 7))]"
  by (simp_all add: candidate_valid_def example_spec_def circle_inside_bounds_def spec_xy_def spec_radius_def bounding_radius_def
      avoids_protected_def clears_def path_clearance_def circle_aabb_distance_def f_le_def [of _ PosInf] example_defs example_simps Let_def)

lemma example_batch:
  "plan_obstacle_batch example_sampling example_settings example_request [] = Inr [example_spec 1 (Fin (- 7)), example_spec 2 (Fin 7)]"
proof -
  have modes: "modes_for_request example_request = Inr [''static'', ''static'']"
    by (simp add: modes_for_request_def example_request_def numeral_2_eq_2)
  have counts: "check_counts example_settings example_request 0 = Inr ()" "gs_max_attempts example_settings = Suc 0"
    by (simp_all add: check_counts_def example_defs)
  show ?thesis
    using example_candidate [of 0 "Fin (- 7)" 1] example_candidate [of 5 "Fin 7" 2] example_valid
    by (simp add: plan_obstacle_batch_def counts modes next_logical_id_def)
qed

theorem sliced_planning_is_batch_witness:
  "\<exists>b b'. start_plan example_settings example_request [] = Inr b
     \<and> plan_frames (\<lambda>_. True) example_sampling example_settings example_request [] 3 0 b = Inr (True, b')
     \<and> bp_planned b' = [example_spec 1 (Fin (- 7)), example_spec 2 (Fin 7)]"
proof -
  obtain b where b: "start_plan example_settings example_request [] = Inr b"
    by (simp add: start_plan_def check_counts_def modes_for_request_def example_defs)
  have "0 < gs_max_attempts example_settings" "nat (oq_count example_request) * gs_max_attempts example_settings < 3"
    by (simp_all add: example_defs)
  from sliced_planning_is_batch [OF b this, of "\<lambda>_. True" example_sampling 0] example_batch b show ?thesis by auto
qed


end
