(* ===== verification/ObstacleManager.thy ===== *)
theory ObstacleManager
  imports ObstaclePlanning
begin

text \<open>
  The obstacle manager of \<^verbatim>\<open>slope_sim/obstacles.py\<close> (\<^verbatim>\<open>ObstacleManager\<close>): additions and clears that advance
  over several frames, deletion, motion and restoring a snapshot, over a client whose calls may fail at any
  point.  Bodies it could not remove stay its own as a debt that blocks the next operation.  The PyBullet
  client is a field of the state; what its calls, the vehicle's box and the clock do is the environment,
  indexed by counters of the state.  The poses of the bodies are not modelled.
\<close>

subsection \<open>State\<close>

record obstacle_record =
  or_spec :: obstacle_spec
  or_body :: nat

datatype obstacle_operation = AddOp obstacle_request | ClearOp

record pending_operation =
  po_operation :: obstacle_operation
  po_plan :: "batch_plan option"  \<comment> \<open>\<open>Some\<close> when \<^verbatim>\<open>planning_initialized\<close>\<close>
  po_temporary :: "nat list option"
  po_next_temporary :: nat
  po_candidates :: "obstacle_record list option"
  po_next_candidate :: nat
  po_clear_bodies :: "nat list"
  po_next_clear :: nat
  po_deleted :: nat

definition new_pending :: "obstacle_operation \<Rightarrow> nat list option \<Rightarrow> nat list \<Rightarrow> pending_operation" where
  "new_pending operation temporary clear_bodies =
     \<lparr>po_operation = operation, po_plan = None, po_temporary = temporary, po_next_temporary = 0, po_candidates = None,
      po_next_candidate = 0, po_clear_bodies = clear_bodies, po_next_clear = 0, po_deleted = 0\<rparr>"

record obstacle_manager =
  om_client :: physics
  om_records :: "obstacle_record list"
  om_revision :: int
  om_moving_count :: nat
  om_specs_cache :: "obstacle_spec list"
  om_specs_revision :: int
  om_debt :: "nat list"
  om_fault :: "msg option"
  om_pending :: "pending_operation option"
  om_clock :: nat  \<comment> \<open>how often the environment was asked\<close>

type_synonym 'a manager_op = "(exc, obstacle_manager, 'a) op"

record obstacle_result =
  ob_done :: bool
  ob_succeeded :: bool
  ob_operation :: string
  ob_message :: msg
  ob_published :: nat
  ob_deleted :: nat

abbreviation pending_result :: "string \<Rightarrow> nat \<Rightarrow> obstacle_result" where
  "pending_result operation deleted \<equiv>
     \<lparr>ob_done = False, ob_succeeded = False, ob_operation = operation, ob_message = lit ''pending'', ob_published = 0,
      ob_deleted = deleted\<rparr>"

abbreviation failed_result :: "string \<Rightarrow> msg \<Rightarrow> nat \<Rightarrow> obstacle_result" where
  "failed_result operation message deleted \<equiv>
     \<lparr>ob_done = True, ob_succeeded = False, ob_operation = operation, ob_message = message, ob_published = 0,
      ob_deleted = deleted\<rparr>"

abbreviation success_result :: "string \<Rightarrow> nat \<Rightarrow> nat \<Rightarrow> obstacle_result" where
  "success_result operation published_count deleted \<equiv>
     \<lparr>ob_done = True, ob_succeeded = True, ob_operation = operation, ob_message = [], ob_published = published_count,
      ob_deleted = deleted\<rparr>"

record manager_env =
  me_physics :: physics_env
  me_sampling :: sampling
  me_settings :: placement_settings
  me_expired :: "nat \<Rightarrow> bool"  \<comment> \<open>is the time slice used up\<close>
  me_vehicle :: "(nat \<Rightarrow> (exc, aabb option) res) option"  \<comment> \<open>\<^verbatim>\<open>vehicle_aabb_getter\<close>\<close>
  me_rays :: "nat \<Rightarrow> xy list \<Rightarrow> (exc, ray_hit list) res"  \<comment> \<open>\<^verbatim>\<open>rayTestBatch\<close>\<close>
  me_reset :: "nat \<Rightarrow> exc option"  \<comment> \<open>what setting a body's pose or velocity raises\<close>

definition new_manager :: "physics \<Rightarrow> nat list \<Rightarrow> (exc, obstacle_manager) res" where
  \<comment> \<open>for a valid client id and time budget\<close>
  "new_manager client terrain_body_ids =
     ensure (terrain_body_ids \<noteq> []) (value_error ''terrain_body_ids must be non-empty'')
       (Inr \<lparr>om_client = client, om_records = [], om_revision = 0, om_moving_count = 0, om_specs_cache = [],
             om_specs_revision = 0, om_debt = [], om_fault = None, om_pending = None, om_clock = 0\<rparr>)"

definition on_client :: "(physics \<Rightarrow> 'a \<times> physics) \<Rightarrow> obstacle_manager \<Rightarrow> 'a \<times> obstacle_manager" where
  "on_client f m = (case f (om_client m) of (x, p) \<Rightarrow> (x, m\<lparr>om_client := p\<rparr>))"

definition tick :: "obstacle_manager \<Rightarrow> obstacle_manager" where
  "tick m = m\<lparr>om_clock := Suc (om_clock m)\<rparr>"

definition upd_pending :: "(pending_operation \<Rightarrow> pending_operation) \<Rightarrow> obstacle_manager \<Rightarrow> obstacle_manager" where
  "upd_pending f m = m\<lparr>om_pending := map_option f (om_pending m)\<rparr>"

definition record_ids :: "obstacle_manager \<Rightarrow> nat list" where
  "record_ids m = map or_body (om_records m)"

definition temporary_ids :: "obstacle_manager \<Rightarrow> nat list" where
  "temporary_ids m = (case Option.bind (om_pending m) po_temporary of None \<Rightarrow> [] | Some ids \<Rightarrow> ids)"

definition candidates :: "obstacle_manager \<Rightarrow> obstacle_record list" where
  "candidates m = (case Option.bind (om_pending m) po_candidates of None \<Rightarrow> [] | Some rs \<Rightarrow> rs)"

definition candidate_ids :: "obstacle_manager \<Rightarrow> nat list" where
  "candidate_ids m = map or_body (candidates m)"

definition pending_body_ids :: "obstacle_manager \<Rightarrow> nat list" where
  "pending_body_ids m = from_keys (temporary_ids m @ candidate_ids m @ om_debt m)"

definition planned_specs :: "obstacle_manager \<Rightarrow> obstacle_spec list" where
  \<comment> \<open>\<^verbatim>\<open>pending_specs\<close>\<close>
  "planned_specs m = (case Option.bind (om_pending m) po_plan of None \<Rightarrow> [] | Some b \<Rightarrow> bp_planned b)"

definition plan_of :: "obstacle_manager \<Rightarrow> batch_plan option" where
  "plan_of m = Option.bind (om_pending m) po_plan"

definition logical_specs :: "obstacle_manager \<Rightarrow> obstacle_spec list \<times> obstacle_manager" where
  "logical_specs m =
     (let m1 = (if om_specs_revision m \<noteq> om_revision m
                then m\<lparr>om_specs_cache := map or_spec (om_records m), om_specs_revision := om_revision m\<rparr> else m)
      in (om_specs_cache m1, m1))"

definition has_moving :: "obstacle_manager \<Rightarrow> bool" where
  "has_moving m \<longleftrightarrow> 0 < om_moving_count m"

subsection \<open>Publishing, debts and the fault state\<close>

definition register_cleanup_ids :: "nat list \<Rightarrow> unit manager_op" where
  "register_cleanup_ids ids m =
     (let overlap = filter (\<lambda>b. b \<in> set ids) (from_keys (record_ids m))
      in if overlap \<noteq> []
         then (Inl (Exc RuntimeErr (Lit ''cleanup debt cannot overlap formal obstacle records: '' # id_list (sort overlap))), m)
         else (Inr (), m\<lparr>om_debt := from_keys (om_debt m @ from_keys ids)\<rparr>))"

definition publish_records :: "obstacle_record list \<Rightarrow> nat option \<Rightarrow> unit manager_op" where
  "publish_records records moving_count m =
     (let ids = map or_body records; overlap = filter (\<lambda>b. b \<in> set (om_debt m)) (from_keys ids)
      in if \<not> distinct ids then (Inl (runtime_error ''formal obstacle records must have unique body IDs''), m)
         else if overlap \<noteq> []
         then (Inl (Exc RuntimeErr (Lit ''formal obstacle records cannot overlap cleanup debt: '' # id_list (sort overlap))), m)
         else if om_fault m \<noteq> None \<and> records \<noteq> []
         then (Inl (runtime_error ''faulted obstacle manager cannot publish formal records''), m)
         else (Inr (), m\<lparr>om_records := records,
                 om_moving_count := (case moving_count of
                     None \<Rightarrow> length (filter (\<lambda>r. os_path (or_spec r) \<noteq> None) records) | Some n \<Rightarrow> n),
                 om_revision := om_revision m + 1, om_specs_revision := - 1\<rparr>))"

definition enter_fault :: "manager_env \<Rightarrow> msg \<Rightarrow> nat list \<Rightarrow> unit manager_op" where
  "enter_fault e reason owned_ids m =
     (let known = from_keys (record_ids m @ temporary_ids m @ candidate_ids m @ om_debt m @ owned_ids)
      in bind_op (publish_records [] None) (\<lambda>_ m1.
           case on_client (list_bodies (me_physics e)) (m1\<lparr>om_fault := Some reason\<rparr>) of
             (listing, m2) \<Rightarrow>
               register_cleanup_ids
                 (case listing of Inl d \<Rightarrow> known | Inr current \<Rightarrow> filter (\<lambda>b. b \<in> set current) known) (m2\<lparr>om_debt := []\<rparr>))
         (m\<lparr>om_pending := None\<rparr>))"

definition overlap_fault :: "manager_env \<Rightarrow> unit manager_op" where
  "overlap_fault e m =
     (let overlap = filter (\<lambda>b. b \<in> set (om_debt m)) (from_keys (record_ids m))
      in if overlap \<noteq> []
         then enter_fault e (Lit ''formal obstacle records overlap cleanup debt: '' # id_list (sort overlap)) (record_ids m) m
         else (Inr (), m))"

definition settle_debt :: "manager_env \<Rightarrow> unit manager_op" where
  "settle_debt e m =
     (if om_debt m = [] then (Inr (), m)
      else case on_client (remove_each_strict (me_physics e) (om_debt m)) m of
             (failures, m1) \<Rightarrow>
               (if failures = [] then Inr ()
                else Inl (Exc RuntimeErr (Lit ''unresolved obstacle cleanup bodies remain: '' # format_failures failures)),
                m1\<lparr>om_debt := failed_ids failures\<rparr>))"

definition require_no_pending :: "manager_env \<Rightarrow> unit manager_op" where
  "require_no_pending e m =
     (if om_pending m \<noteq> None then (Inl (runtime_error ''another obstacle operation is pending''), m)
      else bind_op (overlap_fault e) (\<lambda>_. bind_op (settle_debt e) (\<lambda>_ m2.
             (case om_fault m2 of
                None \<Rightarrow> Inr ()
              | Some reason \<Rightarrow> Inl (Exc RuntimeErr (Lit ''obstacle manager is faulted: '' # reason)), m2))) m)"

subsection \<open>Starting, deleting, clearing\<close>

definition begin_add :: "manager_env \<Rightarrow> obstacle_request \<Rightarrow> obstacle_result manager_op" where
  "begin_add e request =
     bind_op (require_no_pending e) (\<lambda>_ m.
       (Inr (pending_result ''add'' 0), m\<lparr>om_pending := Some (new_pending (AddOp request) (Some []) [])\<rparr>))"

definition begin_clear :: "manager_env \<Rightarrow> obstacle_result manager_op" where
  "begin_clear e =
     bind_op (require_no_pending e) (\<lambda>_ m.
       (Inr (pending_result ''clear'' 0), m\<lparr>om_pending := Some (new_pending ClearOp None (record_ids m))\<rparr>))"

definition delete :: "manager_env \<Rightarrow> pyval \<Rightarrow> obstacle_result manager_op" where
  "delete e logical_id =
     bind_op (require_no_pending e) (\<lambda>_.
     bind_op (lift_res (ob_integral (lit ''logical_id'') logical_id)) (\<lambda>target m.
       case dropWhile (\<lambda>r. os_logical_id (or_spec r) \<noteq> target) (om_records m) of
         [] \<Rightarrow> (Inr (failed_result ''delete'' [Lit ''logical id '', IntRepr target, Lit '' not found''] 0), m)
       | r # after \<Rightarrow>
           (case on_client (remove_committed_strict (me_physics e) (or_body r)) m of
              (Inl exc, m1) \<Rightarrow> (Inr (failed_result ''delete'' (exception_reason exc) 0), m1)
            | (Inr _, m1) \<Rightarrow>
                bind_op (publish_records (takeWhile (\<lambda>r. os_logical_id (or_spec r) \<noteq> target) (om_records m) @ after) None)
                  (\<lambda>_ m2. (Inr (success_result ''delete'' 0 1), m2)) m1)))"

definition deleted_count :: "obstacle_manager \<Rightarrow> nat" where
  "deleted_count m = (case om_pending m of None \<Rightarrow> 0 | Some po \<Rightarrow> po_deleted po)"

fun clear_bodies :: "manager_env \<Rightarrow> nat list \<Rightarrow> obstacle_result manager_op" where
  \<comment> \<open>the loop of \<^verbatim>\<open>_advance_clear\<close>\<close>
  "clear_bodies e [] m = (Inr (success_result ''clear'' 0 (deleted_count m)), m\<lparr>om_pending := None\<rparr>)"
| "clear_bodies e (b # bs) m =
     (case on_client (remove_committed_strict (me_physics e) b) m of
        (Inl exc, m1) \<Rightarrow>
          (Inr (failed_result ''clear'' (exception_reason exc) (deleted_count m1)), m1\<lparr>om_pending := None\<rparr>)
      | (Inr _, m1) \<Rightarrow>
          bind_op (publish_records (filter (\<lambda>r. or_body r \<noteq> b) (om_records m1)) None) (\<lambda>_ m2.
            let m3 = upd_pending (\<lambda>po. po\<lparr>po_deleted := po_deleted po + 1, po_next_clear := po_next_clear po + 1\<rparr>) m2
            in if me_expired e (om_clock m3) then (Inr (pending_result ''clear'' (deleted_count m3)), tick m3)
               else clear_bodies e bs (tick m3)) m1)"

definition advance_clear :: "manager_env \<Rightarrow> pending_operation \<Rightarrow> obstacle_result manager_op" where
  "advance_clear e po = clear_bodies e (drop (po_next_clear po) (po_clear_bodies po))"

subsection \<open>Adding a batch\<close>

text \<open>A phase of \<^verbatim>\<open>_advance_add\<close> returns from the method with a result, or goes on with \<open>None\<close>.\<close>

type_synonym phase = "obstacle_result option manager_op"

definition next_phase :: "phase \<Rightarrow> phase \<Rightarrow> phase" where
  "next_phase f g = bind_op f (\<lambda>r. case r of None \<Rightarrow> g | Some result \<Rightarrow> (\<lambda>m. (Inr (Some result), m)))"

definition stop_add :: "msg \<Rightarrow> phase" where
  \<comment> \<open>\<^verbatim>\<open>self._pending = None\<close> and the failed result\<close>
  "stop_add message m = (Inr (Some (failed_result ''add'' message 0)), m\<lparr>om_pending := None\<rparr>)"

definition with_failures :: "msg \<Rightarrow> string \<Rightarrow> failures \<Rightarrow> msg" where
  "with_failures message what fs =
     (if fs = [] then message else message @ Lit (''; '' @ what @ '' cleanup also failed ('') # format_failures fs @ lit '')'')"

definition cleanup_pending_temporary :: "manager_env \<Rightarrow> failures manager_op" where
  "cleanup_pending_temporary e m =
     (case Option.bind (om_pending m) po_temporary of
        None \<Rightarrow> (Inr [], m)
      | Some ids \<Rightarrow>
          (case on_client (remove_each_strict (me_physics e) ids) m of
             (fs, m1) \<Rightarrow>
               bind_op (if fs = [] then lift_res (Inr ()) else register_cleanup_ids (failed_ids fs)) (\<lambda>_ m2. (Inr fs, m2))
                 (upd_pending (\<lambda>po. po\<lparr>po_temporary := Some []\<rparr>) m1)))"

definition cleanup_candidates :: "manager_env \<Rightarrow> nat list \<Rightarrow> failures manager_op" where
  \<comment> \<open>\<^verbatim>\<open>_cleanup_records_strict\<close>, and the debt for its failures\<close>
  "cleanup_candidates e ids m =
     (case on_client (remove_each_strict (me_physics e) ids) m of
        (fs, m1) \<Rightarrow>
          bind_op (if fs = [] then lift_res (Inr ()) else register_cleanup_ids (failed_ids fs)) (\<lambda>_ m2. (Inr fs, m2)) m1)"

definition init_planning :: "manager_env \<Rightarrow> obstacle_request \<Rightarrow> phase" where
  "init_planning e q m =
     (if Option.bind (om_pending m) po_plan \<noteq> None then (Inr None, m)
      else case start_plan (me_settings e) q (map or_spec (om_records m)) of
             Inl exc \<Rightarrow> stop_add (exception_reason exc) m
           | Inr b \<Rightarrow> (Inr None, upd_pending (\<lambda>po. po\<lparr>po_plan := Some b\<rparr>) m))"

definition plan_phase :: "manager_env \<Rightarrow> obstacle_request \<Rightarrow> phase" where
  "plan_phase e q m =
     (case Option.bind (om_pending m) po_plan of
        None \<Rightarrow> (Inr None, m)
      | Some b \<Rightarrow>
          (case plan_slice (me_expired e) (me_sampling e) (me_settings e) q (map or_spec (om_records m)) (om_clock m) b of
             (Inl exc, t) \<Rightarrow> stop_add (exception_reason exc) (m\<lparr>om_clock := t\<rparr>)
           | (Inr (whole, b'), t) \<Rightarrow>
               (Inr (if whole then None else Some (pending_result ''add'' 0)),
                upd_pending (\<lambda>po. po\<lparr>po_plan := Some b'\<rparr>) (m\<lparr>om_clock := t\<rparr>))))"

fun make_temporaries :: "manager_env \<Rightarrow> obstacle_spec list \<Rightarrow> phase" where
  "make_temporaries e [] m = (Inr None, m)"
| "make_temporaries e (s # ss) m =
     (case on_client (create_body (me_physics e)) m of
        (Inl (exc, residual), m1) \<Rightarrow>
          bind_op (register_cleanup_ids residual) (\<lambda>_.
          bind_op (cleanup_pending_temporary e) (\<lambda>fs. stop_add (with_failures (exception_reason exc) ''temporary'' fs))) m1
      | (Inr b, m1) \<Rightarrow>
          let m2 = upd_pending (\<lambda>po. po\<lparr>po_temporary := map_option (\<lambda>ids. ids @ [b]) (po_temporary po),
                                        po_next_temporary := po_next_temporary po + 1\<rparr>) m1
          in if me_expired e (om_clock m2) then (Inr (Some (pending_result ''add'' 0)), tick m2)
             else make_temporaries e ss (tick m2))"

definition temporary_phase :: "manager_env \<Rightarrow> phase" where
  "temporary_phase e m =
     make_temporaries e (drop (case om_pending m of None \<Rightarrow> 0 | Some po \<Rightarrow> po_next_temporary po) (planned_specs m)) m"

definition vehicle_box :: "manager_env \<Rightarrow> nat \<Rightarrow> (exc, aabb option) res" where
  "vehicle_box e t =
     bind_res (case me_vehicle e of None \<Rightarrow> Inr (gs_vehicle_aabb (me_settings e)) | Some getter \<Rightarrow> getter t) (\<lambda>box.
       case box of None \<Rightarrow> Inr None | Some b \<Rightarrow> bind_res (normalize_aabb b) (\<lambda>b'. Inr (Some b')))"

definition vehicle_phase :: "manager_env \<Rightarrow> phase" where
  "vehicle_phase e m =
     (case vehicle_box e (om_clock m) of
        Inl exc \<Rightarrow> (Inl exc, tick m)
      | Inr box \<Rightarrow>
          if batch_overlaps_vehicle (sm_planar (me_sampling e)) (me_settings e) (planned_specs m) box
          then bind_op (cleanup_pending_temporary e)
                 (\<lambda>fs. stop_add (with_failures (lit ''vehicle AABB overlaps planned obstacle batch'') ''temporary'' fs)) (tick m)
          else (Inr None, tick m))"

fun make_candidates :: "manager_env \<Rightarrow> obstacle_spec list \<Rightarrow> phase" where
  "make_candidates e [] m = (Inr None, m)"
| "make_candidates e (s # ss) m =
     (case on_client (create_body (me_physics e)) m of
        (Inl (exc, residual), m1) \<Rightarrow>
          bind_op (register_cleanup_ids residual) (\<lambda>_ m2.
          bind_op (cleanup_candidates e (candidate_ids m2)) (\<lambda>fs.
          bind_op (cleanup_pending_temporary e) (\<lambda>gs. stop_add (with_failures (exception_reason exc) ''candidate'' (fs @ gs)))) m2) m1
      | (Inr b, m1) \<Rightarrow>
          let m2 = upd_pending (\<lambda>po. po\<lparr>po_candidates := map_option (\<lambda>rs. rs @ [\<lparr>or_spec = s, or_body = b\<rparr>]) (po_candidates po),
                                        po_next_candidate := po_next_candidate po + 1\<rparr>) m1
          in if me_expired e (om_clock m2) then (Inr (Some (pending_result ''add'' 0)), tick m2)
             else make_candidates e ss (tick m2))"

definition candidate_phase :: "manager_env \<Rightarrow> phase" where
  "candidate_phase e m =
     make_candidates e (drop (case om_pending m of None \<Rightarrow> 0 | Some po \<Rightarrow> po_next_candidate po) (planned_specs m))
       (upd_pending (\<lambda>po. po\<lparr>po_candidates := Some (case po_candidates po of None \<Rightarrow> [] | Some rs \<Rightarrow> rs)\<rparr>) m)"

fun drop_temporaries :: "manager_env \<Rightarrow> nat list \<Rightarrow> phase" where
  "drop_temporaries e [] m = (Inr None, m)"
| "drop_temporaries e (b # bs) m =
     (case on_client (remove_committed_strict (me_physics e) b) m of
        (r, m1) \<Rightarrow>
          let m2 = upd_pending (\<lambda>po. po\<lparr>po_temporary := Some bs\<rparr>) m1
          in case r of
               Inl exc \<Rightarrow>
                 bind_op (register_cleanup_ids [b]) (\<lambda>_.
                 bind_op (cleanup_pending_temporary e) (\<lambda>fs m3.
                 bind_op (cleanup_candidates e (candidate_ids m3)) (\<lambda>gs.
                   stop_add (Lit ''temporary candidate cleanup failed ('' # format_failures ((Some b, exc) # fs @ gs) @ lit '')'')) m3)) m2
             | Inr _ \<Rightarrow>
                 if me_expired e (om_clock m2) then (Inr (Some (pending_result ''add'' 0)), tick m2)
                 else drop_temporaries e bs (tick m2))"

definition removal_phase :: "manager_env \<Rightarrow> phase" where
  "removal_phase e m = drop_temporaries e (temporary_ids m) m"

definition publish_phase :: phase where
  "publish_phase m =
     bind_op (publish_records (om_records m @ candidates m) None) (\<lambda>_ m1.
       (Inr (Some (success_result ''add'' (length (candidates m)) 0)), m1\<lparr>om_pending := None\<rparr>)) m"

definition advance_add :: "manager_env \<Rightarrow> obstacle_request \<Rightarrow> phase" where
  "advance_add e q =
     next_phase (init_planning e q) (next_phase (plan_phase e q) (next_phase (temporary_phase e)
       (next_phase (vehicle_phase e) (next_phase (candidate_phase e) (next_phase (removal_phase e) publish_phase)))))"

definition advance_pending_operation :: "manager_env \<Rightarrow> obstacle_result option manager_op" where
  \<comment> \<open>\<open>advance_add\<close> never ends with \<open>None\<close>\<close>
  "advance_pending_operation e m =
     (case om_pending m of
        None \<Rightarrow> (Inr (Some (success_result ''none'' 0 0)), m)
      | Some po \<Rightarrow>
          (case po_operation po of
             AddOp q \<Rightarrow> advance_add e q (tick m)
           | ClearOp \<Rightarrow> bind_op (advance_clear e po) (\<lambda>r m1. (Inr (Some r), m1)) (tick m)))"

subsection \<open>Motion\<close>

definition moved_path :: "planar \<Rightarrow> pyfloat \<Rightarrow> obstacle_spec \<Rightarrow> (exc, (obstacle_path \<times> xy \<times> xy) option) res" where
  \<comment> \<open>the path after \<open>dt\<close>, the position on it and the heading\<close>
  "moved_path pl dt s =
     (case os_path s of
        None \<Rightarrow> Inr None
      | Some pa \<Rightarrow>
          bind_res (advance_ping_pong (PFloat (op_progress pa)) (PInt (op_direction pa))
              (PFloat (pl_dist pl (op_start_xy pa) (op_end_xy pa))) (PFloat (op_speed pa)) (PFloat dt)) (\<lambda>(progress, direction).
            let dx = f_sub (fst (op_end_xy pa)) (fst (op_start_xy pa)); dy = f_sub (snd (op_end_xy pa)) (snd (op_start_xy pa));
                way = of_int direction
            in bind_res (mk_obstacle_path pl [PFloat (fst (op_start_xy pa)), PFloat (snd (op_start_xy pa))]
                   [PFloat (fst (op_end_xy pa)), PFloat (snd (op_end_xy pa))] (PFloat (op_speed pa)) (PFloat progress) (PInt direction)) (\<lambda>pa'.
                 Inr (Some (pa', (f_add (fst (op_start_xy pa)) (f_mul dx progress), f_add (snd (op_start_xy pa)) (f_mul dy progress)),
                            (f_mul dx (Fin way), f_mul dy (Fin way)))))))"

definition pose_error :: exc where
  "pose_error = Exc (OtherErr ''ObstaclePlanningError'') (lit ''unable to sample terrain for obstacle pose'')"

definition sample_moving :: "manager_env \<Rightarrow> xy list \<Rightarrow> terrain_probe list manager_op" where
  \<comment> \<open>\<^verbatim>\<open>_sample_moving_terrain_batch\<close>\<close>
  "sample_moving e positions m =
     (bind_res (ensure (list_all (bounds_contain (gs_bounds (me_settings e))) positions) pose_error (Inr ())) (\<lambda>_.
      bind_res (me_rays e (om_clock m) positions) (\<lambda>hits.
      ensure (length hits = length positions) (runtime_error ''PyBullet terrain ray batch returned an unexpected size'')
        (map_res (\<lambda>hit.
           ensure (0 \<le> rh_body hit) pose_error
          (ensure (rh_body hit \<in> set (sm_terrain_ids (me_sampling e)))
             (value_error ''terrain_body_ids must contain the terrain body hit by the filtered ray'')
             (Inr \<lparr>tp_valid = True, tp_out_of_bounds = False, tp_height = rh_height hit, tp_normal = rh_normal hit\<rparr>))) hits))),
      tick m)"

definition spec_with_sampled_pose ::
  "sampling \<Rightarrow> obstacle_spec \<Rightarrow> xy \<Rightarrow> xy \<Rightarrow> terrain_probe \<Rightarrow> obstacle_path option \<Rightarrow> (exc, obstacle_spec) res" where
  \<comment> \<open>the path is the new one, or that of the spec\<close>
  "spec_with_sampled_pose sm s at_xy heading probe path =
     ensure (tp_valid probe \<and> \<not> tp_out_of_bounds probe) pose_error
       (bind_res (orientation_on_terrain sm heading (tp_normal probe)) (\<lambda>orientation.
          mk_obstacle_spec (sm_planar sm) (PInt (os_logical_id s)) (os_mode s) (Instance (os_geometry s))
            [PFloat (fst at_xy), PFloat (snd at_xy), PFloat (f_add (tp_height probe) (og_half_extents (os_geometry s) ! 2))]
            (map PFloat orientation) (map_option Instance path)))"

definition displacement_velocity :: "pyfloat list \<Rightarrow> pyfloat list \<Rightarrow> pyfloat \<Rightarrow> pyfloat list" where
  "displacement_velocity old new dt =
     (if f_eq dt f_zero then [Fin 0, Fin 0, Fin 0] else map (\<lambda>(a, b). f_quot (f_sub b a) dt) (zip old new))"

definition reset_call :: "manager_env \<Rightarrow> unit manager_op" where
  "reset_call e m = (case me_reset e (om_clock m) of None \<Rightarrow> Inr () | Some exc \<Rightarrow> Inl exc, tick m)"

definition update_kinematic :: "manager_env \<Rightarrow> pyfloat list \<Rightarrow> pyfloat list \<Rightarrow> pyfloat list \<Rightarrow> unit manager_op" where
  \<comment> \<open>\<^verbatim>\<open>update_kinematic_obstacle\<close> with an orientation: the checks, then pose and velocity are set\<close>
  "update_kinematic e position orientation velocity =
     bind_op (lift_res (bind_res (ob_finite_vector ''position'' 3 (map PFloat position)) (\<lambda>_.
              bind_res (ob_finite_vector ''linear_velocity'' 3 (map PFloat velocity)) (\<lambda>_.
              normalize_orientation (sm_planar (me_sampling e)) (map PFloat orientation))))) (\<lambda>_.
     bind_op (reset_call e) (\<lambda>_. reset_call e))"

fun move_all ::
  "manager_env \<Rightarrow> pyfloat \<Rightarrow> obstacle_record list \<Rightarrow> (obstacle_path \<times> xy \<times> xy) option list \<Rightarrow> terrain_probe list \<Rightarrow>
   obstacle_record list manager_op" where
  "move_all e dt (r # rs) (Some (path, at_xy, heading) # us) (probe # probes) m =
     bind_op (lift_res (spec_with_sampled_pose (me_sampling e) (or_spec r) at_xy heading probe (Some path))) (\<lambda>s.
     bind_op (update_kinematic e (os_position s) (os_orientation s)
                (displacement_velocity (os_position (or_spec r)) (os_position s) dt)) (\<lambda>_.
     bind_op (move_all e dt rs us probes) (\<lambda>rs' m1. (Inr (r\<lparr>or_spec := s\<rparr> # rs'), m1)))) m"
| "move_all e dt (r # rs) (None # us) probes m =
     bind_op (move_all e dt rs us probes) (\<lambda>rs' m1. (Inr (r # rs'), m1)) m"
| "move_all e dt rs us probes m = (Inr rs, m)"

definition update_moving :: "manager_env \<Rightarrow> pyval \<Rightarrow> unit manager_op" where
  "update_moving e dt m =
     bind_op (lift_res (bind_res (ob_finite_float (lit ''dt'') dt) (\<lambda>t.
        ensure (\<not> f_lt t f_zero) (value_error ''dt must not be negative'')
          (bind_res (map_res (\<lambda>r. moved_path (sm_planar (me_sampling e)) t (or_spec r)) (om_records m)) (\<lambda>us. Inr (t, us))))))
       (\<lambda>(t, us). if list_all (\<lambda>u. u = None) us then lift_res (Inr ())
          else bind_op (sample_moving e (List.map_filter (map_option (fst \<circ> snd)) us)) (\<lambda>probes.
               bind_op (move_all e t (om_records m) us probes) (\<lambda>records.
                 publish_records records (Some (om_moving_count m))))) m"

subsection \<open>Snapshots\<close>

record obstacle_snapshot =
  sn_logical_id :: int
  sn_body :: "nat option"
  sn_mode :: string
  sn_shape :: string
  sn_position :: "pyfloat list"
  sn_orientation :: "pyfloat list"
  sn_path :: "obstacle_path option"
  sn_geometry :: "obstacle_geometry option"

definition snapshot :: "bool \<Rightarrow> obstacle_manager \<Rightarrow> obstacle_snapshot list" where
  "snapshot include_body_id m = map (\<lambda>r. let s = or_spec r in
     \<lparr>sn_logical_id = os_logical_id s, sn_body = (if include_body_id then Some (or_body r) else None), sn_mode = os_mode s,
      sn_shape = og_shape (os_geometry s), sn_position = os_position s, sn_orientation = os_orientation s, sn_path = os_path s,
      sn_geometry = Some (os_geometry s)\<rparr>) (om_records m)"

definition heading_for_spec :: "obstacle_spec \<Rightarrow> xy" where
  "heading_for_spec s =
     (case os_path s of
        None \<Rightarrow> (Fin 1, Fin 0)
      | Some pa \<Rightarrow> (f_mul (f_sub (fst (op_end_xy pa)) (fst (op_start_xy pa))) (Fin (of_int (op_direction pa))),
                    f_mul (f_sub (snd (op_end_xy pa)) (snd (op_start_xy pa))) (Fin (of_int (op_direction pa)))))"

definition restored_spec :: "manager_env \<Rightarrow> obstacle_snapshot \<Rightarrow> (exc, obstacle_spec) res" where
  \<comment> \<open>the spec of a snapshot, on the terrain of now\<close>
  "restored_spec e sn =
     (case sn_geometry sn of
        None \<Rightarrow> Inl (value_error ''snapshot geometry is required for restore'')
      | Some g \<Rightarrow>
          bind_res (mk_obstacle_spec (sm_planar (me_sampling e)) (PInt (sn_logical_id sn)) (sn_mode sn) (Instance g)
              (map PFloat (sn_position sn)) (map PFloat (sn_orientation sn)) (map_option Instance (sn_path sn))) (\<lambda>s.
          let at_xy = (sn_position sn ! 0, sn_position sn ! 1)
          in bind_res (probe_terrain (me_sampling e) (me_settings e) at_xy) (\<lambda>probe.
               spec_with_sampled_pose (me_sampling e) s at_xy (heading_for_spec s) probe (os_path s))))"

definition restored_specs :: "manager_env \<Rightarrow> obstacle_snapshot list \<Rightarrow> (exc, obstacle_spec list) res" where
  "restored_specs e snapshots =
     ensure (distinct (map sn_logical_id snapshots)) (value_error ''restore snapshots must not contain duplicate logical IDs'')
     (ensure (int (length snapshots) \<le> gs_max_scene (me_settings e))
        (Exc ValueErr [Lit ''scene obstacle count must not exceed '', IntRepr (gs_max_scene (me_settings e))])
        (map_res (restored_spec e) snapshots))"

subsection \<open>Restoring\<close>

fun create_all :: "physics_env \<Rightarrow> obstacle_spec list \<Rightarrow> physics \<Rightarrow> (creation_error option \<times> obstacle_record list) \<times> physics" where
  \<comment> \<open>the bodies created, up to the first failure\<close>
  "create_all px [] p = ((None, []), p)"
| "create_all px (s # ss) p =
     (case create_body px p of
        (Inl err, p1) \<Rightarrow> ((Some err, []), p1)
      | (Inr b, p1) \<Rightarrow>
          (case create_all px ss p1 of ((failure, rs), p2) \<Rightarrow> ((failure, \<lparr>or_spec = s, or_body = b\<rparr> # rs), p2)))"

fun remove_until :: "physics_env \<Rightarrow> nat list \<Rightarrow> physics \<Rightarrow> exc option \<times> physics" where
  "remove_until px [] p = (None, p)"
| "remove_until px (b # bs) p =
     (case remove_committed_strict px b p of
        (Inl exc, p1) \<Rightarrow> (Some exc, p1)
      | (Inr _, p1) \<Rightarrow> remove_until px bs p1)"

definition fault_and_raise :: "manager_env \<Rightarrow> msg \<Rightarrow> nat list \<Rightarrow> obstacle_result manager_op" where
  "fault_and_raise e reason ids = bind_op (enter_fault e reason ids) (\<lambda>_ m. (Inl (Exc RuntimeErr reason), m))"

definition undo_created :: "manager_env \<Rightarrow> creation_error \<Rightarrow> obstacle_record list \<Rightarrow> obstacle_result manager_op" where
  "undo_created e err created =
     bind_op (register_cleanup_ids (snd err)) (\<lambda>_.
     bind_op (cleanup_candidates e (map or_body created)) (\<lambda>fs m.
       (Inl (if fs = [] then fst err
             else Exc RuntimeErr (Lit ''restore candidate creation failed ('' # exception_reason (fst err) @
               Lit ''); candidate cleanup also failed ('' # format_failures fs @ lit '')'')), m)))"

record rollback =
  rb_restored :: "obstacle_record list"
  rb_failures :: failures
  rb_residual :: "nat list"
  rb_complete :: bool

fun bring_back ::
  "physics_env \<Rightarrow> (nat \<Rightarrow> bool) \<Rightarrow> nat list \<Rightarrow> obstacle_record list \<Rightarrow> physics \<Rightarrow> rollback \<times> physics" where
  \<comment> \<open>an original body that survived is kept, one that is gone is made anew; \<open>ours\<close> is \<^verbatim>\<open>is_original_survivor\<close>\<close>
  "bring_back px ours current [] p = (\<lparr>rb_restored = [], rb_failures = [], rb_residual = [], rb_complete = True\<rparr>, p)"
| "bring_back px ours current (r # rs) p =
     (if or_body r \<in> set current
      then case bring_back px ours current rs p of
             (rb, p1) \<Rightarrow>
               (if ours (or_body r) then rb\<lparr>rb_restored := r # rb_restored rb\<rparr>
                else rb\<lparr>rb_failures := (Some (or_body r), runtime_error ''body ID no longer has verified original ownership'') # rb_failures rb,
                        rb_complete := False\<rparr>, p1)
      else case create_body px p of
             (Inl err, p1) \<Rightarrow>
               (case bring_back px ours current rs p1 of
                  (rb, p2) \<Rightarrow> (rb\<lparr>rb_failures := (Some (or_body r), fst err) # rb_failures rb, rb_residual := snd err @ rb_residual rb,
                                  rb_complete := False\<rparr>, p2))
           | (Inr b, p1) \<Rightarrow>
               (case bring_back px ours current rs p1 of
                  (rb, p2) \<Rightarrow> (rb\<lparr>rb_restored := r\<lparr>or_body := b\<rparr> # rb_restored rb\<rparr>, p2)))"

definition check_restored :: "nat list \<Rightarrow> nat list \<Rightarrow> nat list \<Rightarrow> failures" where
  \<comment> \<open>what is wrong with the restored bodies, by the final listing and the debt\<close>
  "check_restored ids final debt =
     (if distinct ids then [] else [(None, runtime_error ''restored obstacle body IDs are not unique'')])
     @ (if list_all (\<lambda>b. b \<in> set final) ids then []
        else [(None, Exc RuntimeErr (Lit ''restored obstacle bodies missing: '' # id_list (filter (\<lambda>b. b \<notin> set final) ids)))])
     @ (if list_ex (\<lambda>b. b \<in> set debt) ids
        then [(None, Exc RuntimeErr (Lit ''restored obstacle bodies overlap cleanup debt: '' #
                id_list (sort (filter (\<lambda>b. b \<in> set debt) (from_keys ids)))))] else [])"

definition verify_rollback :: "physics_env \<Rightarrow> nat \<Rightarrow> nat list \<Rightarrow> rollback \<Rightarrow> physics \<Rightarrow> rollback \<times> physics" where
  \<comment> \<open>\<open>n\<close> records are to be there, the debt has not grown\<close>
  "verify_rollback px n debt rb p =
     (if \<not> (rb_complete rb \<and> length (rb_restored rb) = n) then (rb\<lparr>rb_complete := False\<rparr>, p)
      else case list_bodies px p of
             (listing, p1) \<Rightarrow>
               let faults = (case listing of Inl d \<Rightarrow> [(None, d)] | Inr final \<Rightarrow> check_restored (map or_body (rb_restored rb)) final debt)
               in (rb\<lparr>rb_failures := rb_failures rb @ faults, rb_complete := (faults = [])\<rparr>, p1))"

definition roll_back ::
  "manager_env \<Rightarrow> obstacle_record list \<Rightarrow> nat list \<Rightarrow> failures \<Rightarrow> obstacle_manager \<Rightarrow> rollback \<times> obstacle_manager" where
  \<comment> \<open>with the failures of cleaning up the candidates \<open>created\<close>, and the bodies there at the \<open>start\<close>\<close>
  "roll_back e created start fs m =
     (case on_client (list_bodies (me_physics e)) m of
        (Inl d, m1) \<Rightarrow> (\<lparr>rb_restored = [], rb_failures = fs @ [(None, d)], rb_residual = [], rb_complete = False\<rparr>, m1)
      | (Inr current, m1) \<Rightarrow>
          let ours = (\<lambda>b. b \<in> set start \<and> b \<in> set (record_ids m1) \<and> b \<notin> set (map or_body created) \<and> b \<notin> set (om_debt m1))
          in case on_client (bring_back (me_physics e) ours current (om_records m1)) m1 of
               (rb, m2) \<Rightarrow> on_client (verify_rollback (me_physics e) (length (om_records m2)) (om_debt m2)
                             (rb\<lparr>rb_failures := fs @ rb_failures rb\<rparr>)) m2)"

definition conclude_rollback :: "manager_env \<Rightarrow> obstacle_record list \<Rightarrow> exc \<Rightarrow> rollback \<Rightarrow> obstacle_result manager_op" where
  "conclude_rollback e created removal rb m =
     (let because = (\<lambda>why. Exc RuntimeErr (Lit ''restore old body removal failed ('' # exception_reason removal @
                       Lit ''); rollback also failed ('' # why @ lit '')''))
      in if rb_complete rb
         then bind_op (publish_records (rb_restored rb) None) (\<lambda>_ m1.
                (if rb_failures rb = [] then Inr (failed_result ''restore'' (exception_reason removal) 0)
                 else Inl (because (format_failures (rb_failures rb))), m1)) m
         else let why = (if rb_failures rb = [] then lit ''old obstacle collection could not be restored completely''
                         else format_failures (rb_failures rb))
              in fault_and_raise e (exc_msg (because why))
                   (record_ids m @ map or_body created @ map or_body (rb_restored rb) @ rb_residual rb) m)"

definition swap_records :: "manager_env \<Rightarrow> obstacle_record list \<Rightarrow> nat list \<Rightarrow> obstacle_result manager_op" where
  "swap_records e created start m =
     (case on_client (remove_until (me_physics e) (record_ids m)) m of
        (None, m1) \<Rightarrow>
          bind_op (publish_records created None) (\<lambda>_ m2. (Inr (success_result ''restore'' (length created) 0), m2)) m1
      | (Some removal, m1) \<Rightarrow>
          bind_op (cleanup_candidates e (map or_body created)) (\<lambda>fs m2.
            case roll_back e created start fs m2 of (rb, m3) \<Rightarrow> conclude_rollback e created removal rb m3) m1)"

definition replace_records :: "manager_env \<Rightarrow> obstacle_spec list \<Rightarrow> nat list \<Rightarrow> obstacle_result manager_op" where
  "replace_records e specs start m =
     (case on_client (create_all (me_physics e) specs) m of
        ((failure, created), m1) \<Rightarrow>
          (case failure of Some err \<Rightarrow> undo_created e err created m1 | None \<Rightarrow> swap_records e created start m1))"

definition restore_records :: "manager_env \<Rightarrow> obstacle_spec list \<Rightarrow> obstacle_result manager_op" where
  "restore_records e specs m =
     (case on_client (list_bodies (me_physics e)) m of
        (Inl d, m1) \<Rightarrow>
          fault_and_raise e (Lit ''failed to validate original obstacle bodies before restore: '' # exception_reason d) (record_ids m1) m1
      | (Inr start, m1) \<Rightarrow>
          let missing = filter (\<lambda>b. b \<notin> set start) (record_ids m1)
          in if missing \<noteq> []
             then fault_and_raise e (Lit ''original obstacle bodies missing before restore: '' # id_list missing)
                    (filter (\<lambda>b. b \<in> set start) (record_ids m1)) m1
             else replace_records e specs start m1)"

definition restore :: "manager_env \<Rightarrow> obstacle_snapshot list \<Rightarrow> obstacle_result manager_op" where
  "restore e snapshots =
     bind_op (require_no_pending e) (\<lambda>_. bind_op (lift_res (restored_specs e snapshots)) (restore_records e))"

end
