(* ===== verification/Quaternions.thy ===== *)
theory Quaternions
  imports ObstacleModels
begin

text \<open>
  Unit quaternions in doubles.  The constructors of obstacles and sensor poses divide a quaternion by its
  norm unless the norm is within \<open>4\<close> ulp of 1, and count on that to be stable: a value that was normalised
  once is kept when a document is rebuilt.  Shown here from the documented accuracy of \<^verbatim>\<open>math.hypot\<close>.
\<close>

definition scaled :: "planar \<Rightarrow> pyfloat list \<Rightarrow> pyfloat list" where
  \<comment> \<open>the last step of the normalisation, for a finite norm above the epsilon\<close>
  "scaled pl q =
     (let n = pl_hypot pl q
      in if f_le (f_abs (f_sub n (fl 1))) quaternion_roundoff then q else map (\<lambda>x. f_quot x n) q)"

definition sum_of_squares :: "rat list \<Rightarrow> rat" where
  "sum_of_squares xs = sum_list (map (\<lambda>x. x\<^sup>2) xs)"

definition hypot_accurate :: "planar \<Rightarrow> bool" where
  \<comment> \<open>the maximum error of \<^verbatim>\<open>math.hypot\<close> is under 1 ulp (documented since Python 3.10), away from the subnormal range\<close>
  "hypot_accurate pl \<longleftrightarrow>
     (\<forall>xs. let s = sum_of_squares xs in
        (s \<le> 2 ^ 2046 \<longrightarrow> (\<exists>h. pl_hypot pl (map Fin xs) = Fin h))
        \<and> (\<forall>h. pl_hypot pl (map Fin xs) = Fin h \<longrightarrow> 0 \<le> h \<and>
             (1 / 2 ^ 100 \<le> h \<or> 1 / 2 ^ 200 \<le> s \<longrightarrow>
                (1 - 1 / 2 ^ 52)\<^sup>2 * s \<le> h\<^sup>2 \<and> h\<^sup>2 \<le> (1 + 1 / 2 ^ 52)\<^sup>2 * s)))"

lemma hypot_finite: "hypot_accurate pl \<Longrightarrow> sum_of_squares xs \<le> 2 ^ 2046 \<Longrightarrow> \<exists>h. pl_hypot pl (map Fin xs) = Fin h"
  by (auto simp: hypot_accurate_def Let_def)

lemma hypot_close:
  assumes "hypot_accurate pl" and "pl_hypot pl (map Fin xs) = Fin h" and "1 / 2 ^ 100 \<le> h \<or> 1 / 2 ^ 200 \<le> sum_of_squares xs"
  shows "0 \<le> h" "(1 - 1 / 2 ^ 52)\<^sup>2 * sum_of_squares xs \<le> h\<^sup>2" "h\<^sup>2 \<le> (1 + 1 / 2 ^ 52)\<^sup>2 * sum_of_squares xs"
  using assms unfolding hypot_accurate_def Let_def by blast+

subsection \<open>The constants\<close>

lemma powi_minus_numeral: "(2::rat) powi (- numeral n) = 1 / 2 ^ numeral n"
  by (simp add: power_int_minus inverse_eq_divide)

lemma quaternion_roundoff_eq: "quaternion_roundoff = Fin (4 / 2 ^ 52)"
proof -
  have "4 * 2 powi (- 52) = (4 / 2 ^ 52 :: rat)" by (simp add: powi_minus_numeral)
  moreover have "is_double (4 / 2 ^ 52)"
    by (rule is_double_dyadic [where m = 1 and e = "- 50"]) (simp_all only: powi_minus_numeral, simp_all)
  ultimately show ?thesis by (simp add: quaternion_roundoff_def fl_exact)
qed

lemma norm_epsilon_eq: "\<exists>e. norm_epsilon = Fin e \<and> 1 / 2 ^ 100 \<le> e \<and> e \<le> 1 / 2"
proof -
  have d: "is_double (1 / 2)" by (rule is_double_dyadic [where m = 1 and e = "- 1"]) simp_all
  have d': "is_double (1 / 2 ^ 100)"
    by (rule is_double_dyadic [where m = 1 and e = "- 100"]) (simp_all only: powi_minus_numeral, simp_all)
  have "(1 :: rat) / 2 ^ 100 \<le> 1 / 10 ^ 12" by simp
  moreover have "(1 :: rat) / 10 ^ 12 \<le> 1 / 2" by simp
  ultimately obtain r where "fl (1 / 10 ^ 12) = Fin r" "1 / 2 ^ 100 \<le> r" "r \<le> 1 / 2"
    by (rule fl_between [OF d' d])
  then show ?thesis unfolding norm_epsilon_def by blast
qed

subsection \<open>Rounding the components\<close>

lemma fl_near:
  assumes "\<bar>y\<bar> < 2"
  shows "\<exists>r. fl y = Fin r \<and> \<bar>r - y\<bar> \<le> 1 / 2 ^ 53"
proof -
  let ?r = "round_to 53 (- 1022) y"
  have "\<bar>?r - y\<bar> \<le> 2 powi (1 - int 53 - 1)" by (rule round_to_error) (use assms in auto)
  also have "(2::rat) powi (1 - int 53 - 1) = 1 / 2 ^ 53" by (simp add: power_int_def field_simps)
  finally have near: "\<bar>?r - y\<bar> \<le> 1 / 2 ^ 53" .
  then have "\<bar>?r\<bar> < 3" using assms by (simp add: abs_if split: if_splits)
  also have "(3::rat) \<le> 2 powi 1024" by (rule order_trans [of _ "2 powi 2"]) (simp_all add: power_int_def)
  finally have "fl y = Fin ?r" by (rule fl_in_range)
  with near show ?thesis by blast
qed

lemma square_near:
  fixes r y :: rat
  assumes "\<bar>r - y\<bar> \<le> e"
  shows "\<bar>r\<^sup>2 - y\<^sup>2\<bar> \<le> e * (2 * \<bar>y\<bar> + e)"
proof -
  have "\<bar>r\<^sup>2 - y\<^sup>2\<bar> = \<bar>r - y\<bar> * \<bar>r + y\<bar>" by (simp add: power2_eq_square abs_mult [symmetric] algebra_simps)
  also have "\<dots> \<le> e * (2 * \<bar>y\<bar> + e)"
    by (rule mult_mono [OF assms]) (use assms in \<open>auto simp: abs_if split: if_splits\<close>)
  finally show ?thesis .
qed

lemma sum_abs_four:
  fixes a b c d :: rat
  assumes "0 \<le> m" and "a\<^sup>2 + b\<^sup>2 + c\<^sup>2 + d\<^sup>2 \<le> m\<^sup>2"
  shows "\<bar>a\<bar> + \<bar>b\<bar> + \<bar>c\<bar> + \<bar>d\<bar> \<le> 2 * m"
proof (rule power2_le_imp_le)
  have pair: "2 * (\<bar>x\<bar> * \<bar>y\<bar>) \<le> x\<^sup>2 + y\<^sup>2" for x y :: rat
    using sum_squares_ge_zero [of "\<bar>x\<bar> - \<bar>y\<bar>" 0] by (simp add: power2_eq_square algebra_simps)
  have "(\<bar>a\<bar> + \<bar>b\<bar> + \<bar>c\<bar> + \<bar>d\<bar>)\<^sup>2 \<le> 4 * (a\<^sup>2 + b\<^sup>2 + c\<^sup>2 + d\<^sup>2)"
    using pair [of a b] pair [of a c] pair [of a d] pair [of b c] pair [of b d] pair [of c d]
    by (simp add: power2_eq_square algebra_simps)
  also have "\<dots> \<le> 4 * m\<^sup>2" using assms(2) by simp
  finally show "(\<bar>a\<bar> + \<bar>b\<bar> + \<bar>c\<bar> + \<bar>d\<bar>)\<^sup>2 \<le> (2 * m)\<^sup>2" by (simp add: power_mult_distrib)
qed (use assms(1) in simp)

subsection \<open>A normalised quaternion is kept\<close>

abbreviation ulp1 :: rat where "ulp1 \<equiv> 1 / 2 ^ 52"

lemma squares_of_rounded:
  fixes a b c d :: rat
  assumes s: "a\<^sup>2 + b\<^sup>2 + c\<^sup>2 + d\<^sup>2 \<le> (1 / (1 - ulp1))\<^sup>2"
    and r: "\<bar>a' - a\<bar> \<le> 1 / 2 ^ 53" "\<bar>b' - b\<bar> \<le> 1 / 2 ^ 53" "\<bar>c' - c\<bar> \<le> 1 / 2 ^ 53" "\<bar>d' - d\<bar> \<le> 1 / 2 ^ 53"
  shows "\<bar>(a'\<^sup>2 + b'\<^sup>2 + c'\<^sup>2 + d'\<^sup>2) - (a\<^sup>2 + b\<^sup>2 + c\<^sup>2 + d\<^sup>2)\<bar> \<le> 1 / 2 ^ 53 * (4 / (1 - ulp1) + 4 / 2 ^ 53)"
proof -
  let ?e = "1 / 2 ^ 53 :: rat"
  have "\<bar>a\<bar> + \<bar>b\<bar> + \<bar>c\<bar> + \<bar>d\<bar> \<le> 2 * (1 / (1 - ulp1))" using s by (intro sum_abs_four) simp_all
  then have "?e * (2 * (\<bar>a\<bar> + \<bar>b\<bar> + \<bar>c\<bar> + \<bar>d\<bar>) + 4 * ?e) \<le> ?e * (4 / (1 - ulp1) + 4 / 2 ^ 53)"
    by (intro mult_left_mono) simp_all
  moreover have "\<bar>(a'\<^sup>2 + b'\<^sup>2 + c'\<^sup>2 + d'\<^sup>2) - (a\<^sup>2 + b\<^sup>2 + c\<^sup>2 + d\<^sup>2)\<bar>
      \<le> ?e * (2 * \<bar>a\<bar> + ?e) + ?e * (2 * \<bar>b\<bar> + ?e) + ?e * (2 * \<bar>c\<bar> + ?e) + ?e * (2 * \<bar>d\<bar> + ?e)"
    using square_near [OF r(1)] square_near [OF r(2)] square_near [OF r(3)] square_near [OF r(4)] by linarith
  moreover have "?e * (2 * \<bar>a\<bar> + ?e) + ?e * (2 * \<bar>b\<bar> + ?e) + ?e * (2 * \<bar>c\<bar> + ?e) + ?e * (2 * \<bar>d\<bar> + ?e)
      = ?e * (2 * (\<bar>a\<bar> + \<bar>b\<bar> + \<bar>c\<bar> + \<bar>d\<bar>) + 4 * ?e)" by (simp only: ring_distribs)
  ultimately show ?thesis by linarith
qed

lemma near_one:
  fixes h :: rat
  assumes "0 \<le> h" and "(1 - ulp1)\<^sup>2 * t \<le> h\<^sup>2" "h\<^sup>2 \<le> (1 + ulp1)\<^sup>2 * t"
    and "\<bar>t - s\<bar> \<le> 1 / 2 ^ 53 * (4 / (1 - ulp1) + 4 / 2 ^ 53)" and "(1 / (1 + ulp1))\<^sup>2 \<le> s" "s \<le> (1 / (1 - ulp1))\<^sup>2"
  shows "\<bar>h - 1\<bar> \<le> 4 / 2 ^ 52"
proof -
  let ?D = "1 / 2 ^ 53 * (4 / (1 - ulp1) + 4 / 2 ^ 53) :: rat"
  have t: "(1 / (1 + ulp1))\<^sup>2 - ?D \<le> t" "t \<le> (1 / (1 - ulp1))\<^sup>2 + ?D" using assms(4,5,6) by linarith+
  have "(1 - 4 / 2 ^ 52)\<^sup>2 \<le> (1 - ulp1)\<^sup>2 * ((1 / (1 + ulp1))\<^sup>2 - ?D)" by (simp add: power2_eq_square)
  also have "\<dots> \<le> (1 - ulp1)\<^sup>2 * t" by (rule mult_left_mono [OF t(1)]) simp
  also note assms(2)
  finally have "1 - 4 / 2 ^ 52 \<le> h" by (rule power2_le_imp_le [OF _ assms(1)])
  moreover have "h\<^sup>2 \<le> (1 + 4 / 2 ^ 52)\<^sup>2"
  proof -
    have "(1 + ulp1)\<^sup>2 * t \<le> (1 + ulp1)\<^sup>2 * ((1 / (1 - ulp1))\<^sup>2 + ?D)" by (rule mult_left_mono [OF t(2)]) simp
    also have "\<dots> \<le> (1 + 4 / 2 ^ 52)\<^sup>2" by (simp add: power2_eq_square)
    finally show ?thesis using assms(3) by linarith
  qed
  then have "h \<le> 1 + 4 / 2 ^ 52" by (rule power2_le_imp_le) simp
  ultimately show ?thesis by (intro abs_leI) linarith+
qed

lemma scaled_components:
  assumes acc: "hypot_accurate pl" and n: "pl_hypot pl (map Fin [a, b, c, d]) = Fin n" and eps: "\<not> f_le (Fin n) norm_epsilon"
  shows "(1 / (1 + ulp1))\<^sup>2 \<le> (a / n)\<^sup>2 + (b / n)\<^sup>2 + (c / n)\<^sup>2 + (d / n)\<^sup>2"
    "(a / n)\<^sup>2 + (b / n)\<^sup>2 + (c / n)\<^sup>2 + (d / n)\<^sup>2 \<le> (1 / (1 - ulp1))\<^sup>2"
proof -
  obtain e where e: "norm_epsilon = Fin e" "1 / 2 ^ 100 \<le> e" using norm_epsilon_eq by blast
  have "e < n" using eps unfolding e(1) by simp
  with e(2) have big: "1 / 2 ^ 100 \<le> n" by linarith
  then have pos: "0 < n" by (rule less_le_trans [rotated]) simp
  let ?S = "a\<^sup>2 + b\<^sup>2 + c\<^sup>2 + d\<^sup>2"
  have s: "sum_of_squares [a, b, c, d] = ?S" by (simp add: sum_of_squares_def)
  note close = hypot_close [OF acc n disjI1 [OF big], unfolded s]
  have sum: "(a / n)\<^sup>2 + (b / n)\<^sup>2 + (c / n)\<^sup>2 + (d / n)\<^sup>2 = ?S / n\<^sup>2"
    by (simp add: power_divide add_divide_distrib)
  have n2: "0 < n\<^sup>2" using pos by simp
  show "(1 / (1 + ulp1))\<^sup>2 \<le> (a / n)\<^sup>2 + (b / n)\<^sup>2 + (c / n)\<^sup>2 + (d / n)\<^sup>2"
    unfolding sum using close(3) n2 by (simp add: power_divide divide_simps mult.commute)
  show "(a / n)\<^sup>2 + (b / n)\<^sup>2 + (c / n)\<^sup>2 + (d / n)\<^sup>2 \<le> (1 / (1 - ulp1))\<^sup>2"
    unfolding sum using close(2) n2 by (simp add: power_divide divide_simps mult.commute)
qed

lemma unit_component:
  assumes "(x::rat)\<^sup>2 \<le> (1 / (1 - ulp1))\<^sup>2"
  shows "\<bar>x\<bar> < 2"
proof -
  have "\<bar>x\<bar> \<le> 1 / (1 - ulp1)" using assms by (simp add: abs_le_square_iff [symmetric])
  also have "\<dots> < 2" by simp
  finally show ?thesis .
qed

lemma rescaled_norm:
  assumes acc: "hypot_accurate pl" and n: "pl_hypot pl (map Fin [a, b, c, d]) = Fin n" and eps: "\<not> f_le (Fin n) norm_epsilon"
  shows "\<exists>rs h. map (\<lambda>x. f_quot x (Fin n)) (map Fin [a, b, c, d]) = map Fin rs \<and> length rs = 4
    \<and> pl_hypot pl (map Fin rs) = Fin h \<and> \<bar>h - 1\<bar> \<le> 4 / 2 ^ 52"
proof -
  note S = scaled_components [OF assms]
  have "\<bar>a / n\<bar> < 2" "\<bar>b / n\<bar> < 2" "\<bar>c / n\<bar> < 2" "\<bar>d / n\<bar> < 2"
    by (rule unit_component, rule order_trans [OF _ S(2)], simp)+
  then obtain a' b' c' d' where r: "fl (a / n) = Fin a'" "fl (b / n) = Fin b'" "fl (c / n) = Fin c'" "fl (d / n) = Fin d'"
    and near: "\<bar>a' - a / n\<bar> \<le> 1 / 2 ^ 53" "\<bar>b' - b / n\<bar> \<le> 1 / 2 ^ 53" "\<bar>c' - c / n\<bar> \<le> 1 / 2 ^ 53" "\<bar>d' - d / n\<bar> \<le> 1 / 2 ^ 53"
    using fl_near by meson
  let ?t = "a'\<^sup>2 + b'\<^sup>2 + c'\<^sup>2 + d'\<^sup>2"
  note t = squares_of_rounded [OF S(2) near]
  have s: "sum_of_squares [a', b', c', d'] = ?t" by (simp add: sum_of_squares_def)
  have range: "1 / 2 \<le> ?t" "?t \<le> 2"
  proof -
    have "(1 :: rat) / 2 \<le> (1 / (1 + ulp1))\<^sup>2 - 1 / 2 ^ 53 * (4 / (1 - ulp1) + 4 / 2 ^ 53)"
      "(1 / (1 - ulp1))\<^sup>2 + 1 / 2 ^ 53 * (4 / (1 - ulp1) + 4 / 2 ^ 53) \<le> (2 :: rat)" by (simp_all add: power2_eq_square)
    with t S show "1 / 2 \<le> ?t" "?t \<le> 2" by linarith+
  qed
  have "(2::rat) \<le> 2 ^ 2046" using power_increasing [of 1 2046 "2::rat"] by simp
  then obtain h where h: "pl_hypot pl (map Fin [a', b', c', d']) = Fin h"
    using hypot_finite [OF acc, of "[a', b', c', d']"] order_trans [OF range(2)] unfolding s by blast
  have "(1::rat) / 2 ^ 200 \<le> 1 / 2" by simp
  then have "1 / 2 ^ 200 \<le> sum_of_squares [a', b', c', d']" using range(1) s by linarith
  note close = hypot_close [OF acc h disjI2 [OF this], unfolded s]
  from near_one [OF close t S] have "\<bar>h - 1\<bar> \<le> 4 / 2 ^ 52" .
  with r h show ?thesis by (intro exI [of _ "[a', b', c', d']"] exI [of _ h]) simp
qed

lemma roundoff_kept:
  assumes "\<bar>h - 1\<bar> \<le> 4 / 2 ^ 52"
  shows "f_le (f_abs (f_sub (Fin h) (fl 1))) quaternion_roundoff"
proof -
  have "is_double (4 / 2 ^ 52)"
    by (rule is_double_dyadic [where m = 1 and e = "- 50"]) (simp_all only: powi_minus_numeral, simp_all)
  with assms obtain r where "fl (h - 1) = Fin r" "\<bar>r\<bar> \<le> 4 / 2 ^ 52" by (elim fl_abs_le)
  then show ?thesis by (simp add: quaternion_roundoff_eq)
qed

lemma scaled_again:
  assumes acc: "hypot_accurate pl" and len: "length q = 4" and fin: "list_all f_isfinite q"
    and n: "f_isfinite (pl_hypot pl q)" "\<not> f_le (pl_hypot pl q) norm_epsilon"
  shows "list_all f_isfinite (scaled pl q) \<and> length (scaled pl q) = 4 \<and> f_isfinite (pl_hypot pl (scaled pl q))
    \<and> \<not> f_le (pl_hypot pl (scaled pl q)) norm_epsilon \<and> scaled pl (scaled pl q) = scaled pl q"
proof (cases "f_le (f_abs (f_sub (pl_hypot pl q) (fl 1))) quaternion_roundoff")
  case True
  then have "scaled pl q = q" by (simp add: scaled_def Let_def)
  with assms show ?thesis by simp
next
  case False
  obtain a b c d where q: "q = map Fin [a, b, c, d]"
    using len fin by (auto simp: length_Suc_conv numeral_eq_Suc f_isfinite_iff)
  obtain m where m: "pl_hypot pl q = Fin m" using n(1) by (auto simp: f_isfinite_iff)
  have s: "scaled pl q = map (\<lambda>x. f_quot x (Fin m)) q" using False by (simp add: scaled_def Let_def m)
  obtain rs h where rs: "map (\<lambda>x. f_quot x (Fin m)) q = map Fin rs" "length rs = 4" "pl_hypot pl (map Fin rs) = Fin h"
    "\<bar>h - 1\<bar> \<le> 4 / 2 ^ 52"
    using rescaled_norm [OF acc m [unfolded q] n(2) [unfolded m]] unfolding q by blast
  obtain e where e: "norm_epsilon = Fin e" "e \<le> 1 / 2" using norm_epsilon_eq by blast
  have "1 / 2 < h" using rs(4) unfolding abs_le_iff by simp
  then have "\<not> f_le (Fin h) norm_epsilon" unfolding e(1) using e(2) by simp
  moreover have "scaled pl (map Fin rs) = map Fin rs"
    using roundoff_kept [OF rs(4)] by (simp add: scaled_def Let_def rs(3))
  ultimately show ?thesis using s rs by (simp add: list_all_iff)
qed

lemma normalize_orientation_scaled:
  "normalize_orientation pl vs =
     bind_res (ob_finite_vector ''orientation'' 4 vs) (\<lambda>q.
       ensure (f_isfinite (pl_hypot pl q)) (value_error ''orientation norm must be finite'')
         (ensure (\<not> f_le (pl_hypot pl q) norm_epsilon) (value_error ''orientation norm must be greater than zero'')
           (Inr (scaled pl q))))"
  by (simp add: normalize_orientation_def scaled_def Let_def)

subsection \<open>An accurate norm\<close>

primrec isqrt :: "nat \<Rightarrow> nat" where
  "isqrt 0 = 0"
| "isqrt (Suc n) = (let r = isqrt n in if (Suc r)\<^sup>2 \<le> Suc n then Suc r else r)"

definition exact_hypot :: "pyfloat list \<Rightarrow> pyfloat" where
  \<comment> \<open>the norm up to \<open>2 ^ (- 206)\<close>\<close>
  "exact_hypot xs =
     Fin (of_nat (isqrt (nat (floor (4 ^ 206 * sum_of_squares (map (\<lambda>x. case x of Fin a \<Rightarrow> a | _ \<Rightarrow> 0) xs))))) / 2 ^ 206)"

lemma isqrt_bounds: "(isqrt n)\<^sup>2 \<le> n \<and> n < (Suc (isqrt n))\<^sup>2"
proof (induction n)
  case (Suc n)
  then show ?case by (auto simp: Let_def power2_eq_square)
qed simp

lemma isqrt_of_rat:
  assumes "0 \<le> (t::rat)"
  defines "r \<equiv> of_nat (isqrt (nat (floor t)))"
  shows "r\<^sup>2 \<le> t" "t < (r + 1)\<^sup>2"
proof -
  let ?n = "nat (floor t)"
  have n: "of_nat ?n \<le> t" "t < of_nat ?n + 1" using assms(1) floor_correct [of t] by (simp_all add: of_nat_nat)
  have "(of_nat ((isqrt ?n)\<^sup>2) :: rat) \<le> of_nat ?n" using isqrt_bounds [of ?n] by (simp only: of_nat_le_iff)
  then have "(of_nat (isqrt ?n) :: rat)\<^sup>2 \<le> of_nat ?n" by (simp only: of_nat_power)
  with n show "r\<^sup>2 \<le> t" unfolding r_def by linarith
  have "Suc ?n \<le> (Suc (isqrt ?n))\<^sup>2" using isqrt_bounds [of ?n] by linarith
  then have "(of_nat (Suc ?n) :: rat) \<le> of_nat ((Suc (isqrt ?n))\<^sup>2)" by (simp only: of_nat_le_iff)
  then have "(of_nat ?n + 1 :: rat) \<le> (of_nat (isqrt ?n) + 1)\<^sup>2" by (simp only: of_nat_power of_nat_Suc add.commute)
  with n show "t < (r + 1)\<^sup>2" unfolding r_def by linarith
qed

lemma exact_hypot_accurate: "hypot_accurate \<lparr>pl_hypot = exact_hypot, pl_dist = distance\<rparr>"
  unfolding hypot_accurate_def Let_def
proof (intro allI conjI impI)
  fix xs :: "rat list"
  let ?s = "sum_of_squares xs" and ?pl = "\<lparr>pl_hypot = exact_hypot, pl_dist = distance\<rparr>"
  define r :: rat where "r = of_nat (isqrt (nat (floor (4 ^ 206 * ?s))))"
  have same: "map ((\<lambda>x. case x of Fin a \<Rightarrow> a | _ \<Rightarrow> 0) \<circ> Fin) xs = xs" by (simp add: o_def)
  have h: "pl_hypot ?pl (map Fin xs) = Fin (r / 2 ^ 206)" by (simp add: exact_hypot_def r_def same)
  then show "\<exists>h. pl_hypot ?pl (map Fin xs) = Fin h" by blast
  have s0: "0 \<le> ?s" unfolding sum_of_squares_def by (rule sum_list_nonneg) auto
  have r: "r\<^sup>2 \<le> 4 ^ 206 * ?s" "4 ^ 206 * ?s < (r + 1)\<^sup>2" "0 \<le> r"
    unfolding r_def using s0 by (intro isqrt_of_rat of_nat_0_le_iff; simp)+
  fix h assume "pl_hypot ?pl (map Fin xs) = Fin h"
  with h have h_def: "h = r / 2 ^ 206" by simp
  then show "0 \<le> h" using r(3) by simp
  have p: "(2 ^ 206)\<^sup>2 = (4 ^ 206 :: rat)" by (simp add: power2_eq_square power_mult_distrib [symmetric])
  have h2: "h\<^sup>2 = r\<^sup>2 / 4 ^ 206" unfolding h_def power_divide p ..
  have upper: "h\<^sup>2 \<le> ?s" unfolding h2 using r(1) by (simp add: divide_le_eq mult.commute)
  assume big: "1 / 2 ^ 100 \<le> h \<or> 1 / 2 ^ 200 \<le> ?s"
  have "1 / 2 ^ 200 \<le> ?s"
    using big
  proof
    assume "1 / 2 ^ 100 \<le> h"
    then have "(1 / 2 ^ 100)\<^sup>2 \<le> h\<^sup>2" by (rule power_mono) simp
    with upper show ?thesis by (simp add: power_divide)
  qed
  then have "4 ^ 206 * (1 / 2 ^ 200) \<le> 4 ^ 206 * ?s" by (rule mult_left_mono) simp
  then have "(2 ^ 53)\<^sup>2 \<le> (r + 1)\<^sup>2" using r(2) by simp
  then have "2 ^ 53 \<le> r + 1" by (rule power2_le_imp_le) (use r(3) in simp)
  then have "(1 - ulp1) * (r + 1) \<le> r" by simp
  then have "((1 - ulp1) * (r + 1))\<^sup>2 \<le> r\<^sup>2" using r(3) by (intro power_mono) simp_all
  then have "(1 - ulp1)\<^sup>2 * (r + 1)\<^sup>2 \<le> r\<^sup>2" by (simp only: power_mult_distrib)
  moreover have "(1 - ulp1)\<^sup>2 * (4 ^ 206 * ?s) \<le> (1 - ulp1)\<^sup>2 * (r + 1)\<^sup>2" using r(2) by (intro mult_left_mono) simp_all
  ultimately have "(1 - ulp1)\<^sup>2 * (4 ^ 206 * ?s) \<le> r\<^sup>2" by (rule order_trans [rotated])
  then have "(1 - ulp1)\<^sup>2 * ?s * 4 ^ 206 \<le> r\<^sup>2" by (simp only: ac_simps)
  then show "(1 - ulp1)\<^sup>2 * ?s \<le> h\<^sup>2" unfolding h2 by (subst pos_le_divide_eq) simp_all
  have "?s \<le> (1 + ulp1)\<^sup>2 * ?s" using mult_right_mono [OF _ s0, of 1 "(1 + ulp1)\<^sup>2"] by simp
  with upper show "h\<^sup>2 \<le> (1 + ulp1)\<^sup>2 * ?s" by linarith
qed

end
