(* ===== verification/SceneModels.thy ===== *)
theory SceneModels
  imports ObstacleManager RobotModels Quaternions
begin

text \<open>
  The logical scene of \<^verbatim>\<open>slope_sim/scene_config.py\<close>: terrain, obstacles and sensors without any physics
  identifier, with the checks of every constructor, and the selection of a terrain and the sensor mounts
  it refers to (\<^verbatim>\<open>runtime_actions.py\<close>, \<^verbatim>\<open>truth_sensors.py\<close>, \<^verbatim>\<open>sensor_backend.py\<close>, \<^verbatim>\<open>lidar_pointcloud.py\<close>).
\<close>

subsection \<open>Checked values\<close>

fun scene_sequence :: "pyval \<Rightarrow> pyval list option" where
  \<comment> \<open>a \<^verbatim>\<open>Sequence\<close> that is none of \<^verbatim>\<open>_INVALID_SEQUENCES\<close>\<close>
  "scene_sequence (PTuple xs) = Some xs"
| "scene_sequence (PList xs) = Some xs"
| "scene_sequence (PMemoryView b) = Some (pbytes_items b)"
| "scene_sequence _ = None"

definition require_sequence :: "pyval \<Rightarrow> msg \<Rightarrow> (exc, pyval list) res" where
  "require_sequence v path =
     (case scene_sequence v of Some xs \<Rightarrow> Inr xs | None \<Rightarrow> Inl (Exc ValueErr (path @ lit '' must be an ordered sequence'')))"

fun nonempty_text :: "pyval \<Rightarrow> string option" where
  "nonempty_text (PStr s) = (if s = [] then None else Some s)"
| "nonempty_text _ = None"

definition require_text :: "pyval \<Rightarrow> msg \<Rightarrow> (exc, string) res" where
  "require_text v path =
     (case nonempty_text v of Some s \<Rightarrow> Inr s | None \<Rightarrow> Inl (Exc ValueErr (path @ lit '' must be a nonempty string'')))"

definition require_choice :: "pyval \<Rightarrow> msg \<Rightarrow> string list \<Rightarrow> (exc, string) res" where
  "require_choice v path choices =
     bind_res (require_text v path) (\<lambda>s.
       ensure (py_lower s \<in> set choices) (Exc ValueErr (path @ lit ('' must be one of: '' @ py_join '', '' choices)))
         (Inr (py_lower s)))"

definition require_int :: "pyval \<Rightarrow> msg \<Rightarrow> int option \<Rightarrow> int option \<Rightarrow> (exc, int) res" where
  "require_int v path minimum maximum =
     (case as_int v of
        None \<Rightarrow> Inl (Exc ValueErr (path @ lit '' must be an integer''))
      | Some n \<Rightarrow>
          ensure (case minimum of None \<Rightarrow> True | Some lo \<Rightarrow> lo \<le> n) (Exc ValueErr (path @ lit '' is outside supported bounds''))
          (ensure (case maximum of None \<Rightarrow> True | Some hi \<Rightarrow> n \<le> hi) (Exc ValueErr (path @ lit '' is outside supported bounds''))
             (Inr n)))"

definition require_float ::
  "pyval \<Rightarrow> msg \<Rightarrow> pyfloat option \<Rightarrow> pyfloat option \<Rightarrow> bool \<Rightarrow> (exc, pyfloat) res" where
  "require_float v path minimum maximum bounds_label =
     bind_res (ob_finite_float path v) (\<lambda>x.
       ensure (\<not> ((case minimum of None \<Rightarrow> False | Some lo \<Rightarrow> f_lt x lo) \<or> (case maximum of None \<Rightarrow> False | Some hi \<Rightarrow> f_lt hi x)))
         (Exc ValueErr (path @ lit (if bounds_label then '' exceeds supported bounds'' else '' is outside its valid range'')))
         (Inr x))"

definition require_vector :: "pyval \<Rightarrow> msg \<Rightarrow> nat \<Rightarrow> pyfloat option \<Rightarrow> (exc, pyfloat list) res" where
  "require_vector v path n limit =
     bind_res (require_sequence v path) (\<lambda>items.
     ensure (length items = n)
       (Exc ValueErr (path @ [Lit '' must contain '', IntRepr (int n), Lit '' finite values'']))
     (bind_res (map_res (\<lambda>(i, item). require_float item (path @ [Lit ''['', IntRepr (int i), Lit '']'']) None None False)
         (enumerate 0 items)) (\<lambda>xs.
     ensure (\<not> (case limit of None \<Rightarrow> False | Some b \<Rightarrow> list_ex (\<lambda>x. f_lt b (f_abs x)) xs))
       (Exc ValueErr (path @ lit '' exceeds supported bounds'')) (Inr xs))))"

definition require_quaternion :: "planar \<Rightarrow> pyval \<Rightarrow> msg \<Rightarrow> (exc, pyfloat list) res" where
  "require_quaternion pl v path =
     bind_res (require_vector v path 4 None) (\<lambda>q.
       let n = pl_hypot pl q
       in ensure (f_isfinite n \<and> \<not> f_le n norm_epsilon) (Exc ValueErr (path @ lit '' quaternion norm must be greater than zero''))
            (Inr (scaled pl q)))"

definition rewrap :: "exc_kind set \<Rightarrow> msg \<Rightarrow> (exc, 'a) res \<Rightarrow> (exc, 'a) res" where
  \<comment> \<open>\<^verbatim>\<open>except (...) as exc: raise ValueError(f"{prefix}: {exc}")\<close>; the classes caught are given by their kinds\<close>
  "rewrap kinds prefix r =
     (case r of
        Inl e \<Rightarrow> Inl (if exc_kind e \<in> kinds then Exc ValueErr (prefix @ Lit '': '' # exc_msg e) else e)
      | Inr x \<Rightarrow> Inr x)"

definition value_kinds :: "exc_kind set" where
  \<comment> \<open>ValueError and its subclasses here\<close>
  "value_kinds = {ValueErr, ModelMismatchErr, MechanicalLimitErr}"

definition field_kinds :: "exc_kind set" where
  \<comment> \<open>\<^verbatim>\<open>(AttributeError, TypeError, ValueError, OverflowError)\<close>\<close>
  "field_kinds = insert AttributeErr (insert TypeErr (insert OverflowErr value_kinds))"

subsection \<open>Terrain\<close>

definition terrain_model_names :: "string list" where
  "terrain_model_names = [''flat'', ''slope'', ''golf_heightfield'']"

definition relief_levels :: "string list" where
  "relief_levels = [''high'', ''low'', ''medium'']"

record terrain_selection =
  tsel_model :: string
  tsel_slope_deg :: pyfloat
  tsel_golf_seed :: int
  tsel_golf_relief :: string

fun truncated :: "pyval \<Rightarrow> int" where
  \<comment> \<open>\<^verbatim>\<open>int(v)\<close> of a finite real number\<close>
  "truncated (PInt n) = n"
| "truncated (PFloat (Fin a)) = (if 0 \<le> a then floor a else - floor (- a))"
| "truncated (PFraction a) = (if 0 \<le> a then floor a else - floor (- a))"
| "truncated _ = 0"

definition mk_terrain_selection :: "string \<Rightarrow> pyval \<Rightarrow> pyval \<Rightarrow> string \<Rightarrow> (exc, terrain_selection) res" where
  \<comment> \<open>for a slope and a seed that are real numbers\<close>
  "mk_terrain_selection model slope_deg golf_seed golf_relief =
     ensure (py_lower model \<in> set terrain_model_names)
       (value_error (''terrain_model must be one of: '' @ py_join '', '' terrain_model_names))
     (ensure (py_lower golf_relief \<in> set relief_levels)
       (value_error (''golf_relief must be '' @ quoted ''low'' @ '', '' @ quoted ''medium'' @ '', or '' @ quoted ''high''))
     (bind_res (py_float slope_deg) (\<lambda>slope.
      ensure (f_isfinite slope) (value_error ''slope_deg must be finite'')
     (bind_res (py_float golf_seed) (\<lambda>seed.
      ensure (f_isfinite seed \<and> Fin (of_int (truncated golf_seed)) = seed) (value_error ''golf_seed must be a finite integer'')
       (Inr \<lparr>tsel_model = py_lower model, tsel_slope_deg = slope, tsel_golf_seed = truncated golf_seed,
             tsel_golf_relief = py_lower golf_relief\<rparr>))))))"

record terrain_document =
  td_model :: string
  td_slope_deg :: pyfloat
  td_golf_seed :: int
  td_golf_relief :: string

abbreviation int32_min :: int where "int32_min \<equiv> - (2 ^ 31)"
abbreviation int32_max :: int where "int32_max \<equiv> 2 ^ 31 - 1"

definition mk_terrain_document :: "pyval \<Rightarrow> pyval \<Rightarrow> pyval \<Rightarrow> pyval \<Rightarrow> (exc, terrain_document) res" where
  "mk_terrain_document model slope_deg golf_seed golf_relief =
     bind_res (require_choice model (lit ''terrain_model'') terrain_model_names) (\<lambda>m.
     bind_res (require_float slope_deg (lit ''slope_deg'') (Some (Fin (- 30))) (Some (Fin 30)) True) (\<lambda>s.
     bind_res (require_int golf_seed (lit ''golf_seed'') (Some int32_min) (Some int32_max)) (\<lambda>g.
     bind_res (require_choice golf_relief (lit ''golf_relief'') relief_levels) (\<lambda>r.
       Inr \<lparr>td_model = m, td_slope_deg = s, td_golf_seed = g, td_golf_relief = r\<rparr>))))"

definition terrain_from_selection :: "terrain_selection inst \<Rightarrow> (exc, terrain_document) res" where
  "terrain_from_selection terrain =
     (case terrain of
        Foreign \<Rightarrow> Inl (value_error ''terrain must be a TerrainSelection'')
      | Instance t \<Rightarrow> mk_terrain_document (PStr (tsel_model t)) (PFloat (tsel_slope_deg t)) (PInt (tsel_golf_seed t))
                        (PStr (tsel_golf_relief t)))"

definition rebuild_terrain :: "terrain_document \<Rightarrow> (exc, terrain_document) res" where
  "rebuild_terrain t =
     mk_terrain_document (PStr (td_model t)) (PFloat (td_slope_deg t)) (PInt (td_golf_seed t)) (PStr (td_golf_relief t))"

subsection \<open>Sensor mounts and the LiDAR geometry\<close>

record mount_pose =
  mp_parent_link :: string
  mp_position :: "pyfloat list"
  mp_orientation :: "pyfloat list"

definition pose_vector :: "string \<Rightarrow> pyval \<Rightarrow> nat \<Rightarrow> (exc, pyfloat list) res" where
  \<comment> \<open>\<^verbatim>\<open>_require_finite_vector\<close> of the sensor backend\<close>
  "pose_vector name v n =
     (let err = Exc ValueErr [Lit (name @ '' must contain ''), IntRepr (int n), Lit '' finite values'']
      in case ordered_sequence v of
           None \<Rightarrow> Inl err
         | Some items \<Rightarrow>
             ensure (length items = n) err
               (map_res (\<lambda>(i, item). ob_finite_float [Lit (name @ ''[''), IntRepr (int i), Lit '']''] item) (enumerate 0 items)))"

definition normalize_quaternion :: "planar \<Rightarrow> pyval \<Rightarrow> (exc, pyfloat list) res" where
  "normalize_quaternion pl v =
     bind_res (pose_vector ''quaternion'' v 4) (\<lambda>q.
       let n = pl_hypot pl q
       in ensure (f_isfinite n \<and> \<not> f_le n norm_epsilon) (value_error ''quaternion norm must be finite and greater than zero'')
            (Inr (scaled pl q)))"

definition mk_mount_pose :: "planar \<Rightarrow> pyval \<Rightarrow> pyval \<Rightarrow> pyval \<Rightarrow> (exc, mount_pose) res" where
  "mk_mount_pose pl parent_link position orientation =
     (case nonempty_text parent_link of
        None \<Rightarrow> Inl (value_error ''parent link must be a nonempty semantic name'')
      | Some parent \<Rightarrow>
          bind_res (pose_vector ''position'' position 3) (\<lambda>ps.
          bind_res (normalize_quaternion pl orientation) (\<lambda>q.
            Inr \<lparr>mp_parent_link = parent, mp_position = ps, mp_orientation = q\<rparr>)))"

abbreviation floats :: "pyfloat list \<Rightarrow> pyval" where
  "floats xs \<equiv> PTuple (map PFloat xs)"

definition rebuild_mount :: "planar \<Rightarrow> mount_pose \<Rightarrow> (exc, mount_pose) res" where
  "rebuild_mount pl m = mk_mount_pose pl (PStr (mp_parent_link m)) (floats (mp_position m)) (floats (mp_orientation m))"

record sensor_mounts =
  sm_lidar_front :: mount_pose
  sm_lidar_rear :: mount_pose
  sm_rtk_primary :: mount_pose
  sm_rtk_secondary :: mount_pose
  sm_imu :: mount_pose

definition named_mounts :: "sensor_mounts \<Rightarrow> (string \<times> mount_pose) list" where
  "named_mounts s =
     [(''lidar_front'', sm_lidar_front s), (''lidar_rear'', sm_lidar_rear s), (''rtk_primary'', sm_rtk_primary s),
      (''rtk_secondary'', sm_rtk_secondary s), (''imu'', sm_imu s)]"

definition default_mounts :: sensor_mounts where
  "default_mounts =
     (let identity = [Fin 0, Fin 0, Fin 0, Fin 1] in
      \<lparr>sm_lidar_front = \<lparr>mp_parent_link = ''lidar_front_mount'', mp_position = [Fin 0, Fin 0, Fin 0], mp_orientation = identity\<rparr>,
       sm_lidar_rear = \<lparr>mp_parent_link = ''lidar_rear_mount'', mp_position = [Fin 0, Fin 0, Fin 0],
                        mp_orientation = [Fin 0, Fin 0, Fin 1, Fin 0]\<rparr>,
       sm_rtk_primary = \<lparr>mp_parent_link = ''base_link'', mp_position = [fl (- 20/100), Fin 0, fl (18/100)], mp_orientation = identity\<rparr>,
       sm_rtk_secondary = \<lparr>mp_parent_link = ''base_link'', mp_position = [fl (20/100), Fin 0, fl (18/100)], mp_orientation = identity\<rparr>,
       sm_imu = \<lparr>mp_parent_link = ''base_link'', mp_position = [Fin 0, Fin 0, fl (8/100)], mp_orientation = identity\<rparr>\<rparr>)"

record lidar_config =
  lc_vertical_lines :: int
  lc_horizontal_samples :: int
  lc_horizontal_fov_deg :: pyfloat
  lc_vertical_fov_deg :: "pyfloat \<times> pyfloat"
  lc_min_range_m :: pyfloat
  lc_max_range_m :: pyfloat

definition supported_lidar :: lidar_config where
  "supported_lidar =
     \<lparr>lc_vertical_lines = 16, lc_horizontal_samples = 180, lc_horizontal_fov_deg = Fin 180,
      lc_vertical_fov_deg = (Fin (- 15), Fin 15), lc_min_range_m = fl (1 / 10), lc_max_range_m = Fin 45\<rparr>"

definition vertical_fov :: "pyval \<Rightarrow> (exc, pyfloat \<times> pyfloat) res" where
  "vertical_fov v =
     (let err = value_error ''vertical_fov_deg must contain lower and upper finite angles''
      in case ordered_sequence v of
           Some [lower, upper] \<Rightarrow>
             bind_res (ob_finite_float (lit ''vertical_fov_deg[0]'') lower) (\<lambda>lo.
             bind_res (ob_finite_float (lit ''vertical_fov_deg[1]'') upper) (\<lambda>hi. Inr (lo, hi)))
         | _ \<Rightarrow> Inl err)"

definition mk_lidar_config :: "pyval \<Rightarrow> pyval \<Rightarrow> pyval \<Rightarrow> pyval \<Rightarrow> pyval \<Rightarrow> pyval \<Rightarrow> (exc, lidar_config) res" where
  "mk_lidar_config vertical_lines horizontal_samples horizontal_fov vfov min_range max_range =
     bind_res (ob_integral (lit ''vertical_lines'') vertical_lines) (\<lambda>vl.
     bind_res (ob_integral (lit ''horizontal_samples'') horizontal_samples) (\<lambda>hs.
     bind_res (ob_finite_float (lit ''horizontal_fov_deg'') horizontal_fov) (\<lambda>hf.
     bind_res (vertical_fov vfov) (\<lambda>vf.
     bind_res (ob_finite_float (lit ''min_range_m'') min_range) (\<lambda>lo.
     bind_res (ob_finite_float (lit ''max_range_m'') max_range) (\<lambda>hi.
     ensure (0 < vl) (value_error ''vertical_lines must be greater than zero'')
     (ensure (0 < hs) (value_error ''horizontal_samples must be greater than zero'')
     (ensure (f_lt (Fin 0) hf \<and> f_le hf (Fin 360)) (value_error ''horizontal_fov_deg must be in range (0, 360]'')
     (ensure (f_le (Fin (- 90)) (fst vf) \<and> f_lt (fst vf) (snd vf) \<and> f_le (snd vf) (Fin 90))
       (value_error ''vertical_fov_deg must be increasing within [-90, 90]'')
     (ensure (\<not> f_le lo (Fin 0)) (value_error ''min_range_m must be greater than zero'')
     (ensure (\<not> f_le hi lo) (value_error ''max_range_m must be greater than min_range_m'')
     (let c = \<lparr>lc_vertical_lines = vl, lc_horizontal_samples = hs, lc_horizontal_fov_deg = hf, lc_vertical_fov_deg = vf,
               lc_min_range_m = lo, lc_max_range_m = hi\<rparr>
      in ensure (c = supported_lidar)
           (value_error ''unsupported lidar geometry; only the fixed 16x180 stage-three geometry is supported'') (Inr c)))))))))))))"

definition rebuild_lidar :: "lidar_config \<Rightarrow> (exc, lidar_config) res" where
  "rebuild_lidar c =
     mk_lidar_config (PInt (lc_vertical_lines c)) (PInt (lc_horizontal_samples c)) (PFloat (lc_horizontal_fov_deg c))
       (floats [fst (lc_vertical_fov_deg c), snd (lc_vertical_fov_deg c)]) (PFloat (lc_min_range_m c)) (PFloat (lc_max_range_m c))"

definition rebuild_mounts :: "planar \<Rightarrow> sensor_mounts inst \<Rightarrow> (exc, sensor_mounts) res" where
  "rebuild_mounts pl mounts =
     (case mounts of
        Foreign \<Rightarrow> Inl (value_error ''mounts must be a SensorMounts value'')
      | Instance s \<Rightarrow>
          bind_res (map_res (\<lambda>(name, m). rewrap field_kinds (lit (''sensors.'' @ name)) (rebuild_mount pl m)) (named_mounts s)) (\<lambda>ms.
            Inr \<lparr>sm_lidar_front = ms ! 0, sm_lidar_rear = ms ! 1, sm_rtk_primary = ms ! 2, sm_rtk_secondary = ms ! 3,
                 sm_imu = ms ! 4\<rparr>))"

definition rebuild_lidar_config :: "lidar_config inst \<Rightarrow> (exc, lidar_config) res" where
  "rebuild_lidar_config lidar =
     (case lidar of
        Foreign \<Rightarrow> Inl (value_error ''lidar must be a LidarConfig value'')
      | Instance c \<Rightarrow> rewrap field_kinds (lit ''sensors.lidar'') (rebuild_lidar c))"

definition expected_sensor_parents :: "(string \<times> string) list" where
  "expected_sensor_parents =
     [(''lidar_front'', ''lidar_front_mount''), (''lidar_rear'', ''lidar_rear_mount''), (''rtk_primary'', ''base_link''),
      (''rtk_secondary'', ''base_link''), (''imu'', ''base_link'')]"

record sensor_document =
  sd_mounts :: sensor_mounts
  sd_lidar :: lidar_config

definition check_mount :: "string \<times> mount_pose \<Rightarrow> (exc, unit) res" where
  "check_mount nm =
     (case nm of (name, m) \<Rightarrow>
        let parent = the (map_of expected_sensor_parents name)
        in ensure (mp_parent_link m = parent) (value_error (''sensors.'' @ name @ ''.parent_link must be '' @ quoted parent))
             (bind_res (require_vector (floats (mp_position m)) (lit (''sensors.'' @ name @ ''.position'')) 3 (Some (Fin 100)))
                (\<lambda>_. Inr ())))"

definition mk_sensor_document :: "planar \<Rightarrow> sensor_mounts inst \<Rightarrow> lidar_config inst \<Rightarrow> (exc, sensor_document) res" where
  "mk_sensor_document pl mounts lidar =
     bind_res (rebuild_mounts pl mounts) (\<lambda>ms.
     bind_res (rebuild_lidar_config lidar) (\<lambda>c.
     bind_res (map_res check_mount (named_mounts ms)) (\<lambda>_.
       Inr \<lparr>sd_mounts = ms, sd_lidar = c\<rparr>)))"

definition rebuild_sensors :: "planar \<Rightarrow> sensor_document \<Rightarrow> (exc, sensor_document) res" where
  "rebuild_sensors pl s = mk_sensor_document pl (Instance (sd_mounts s)) (Instance (sd_lidar s))"

subsection \<open>Obstacles of a scene file\<close>

definition world_limit :: pyfloat where "world_limit = Fin 10000"
definition half_extent_limit :: pyfloat where "half_extent_limit = Fin 100"
definition speed_limit :: pyfloat where "speed_limit = Fin 100"
definition max_obstacles :: nat where "max_obstacles = 100"

definition rebuild_spec :: "planar \<Rightarrow> obstacle_spec \<Rightarrow> (exc, obstacle_spec) res" where
  "rebuild_spec pl s =
     mk_obstacle_spec pl (PInt (os_logical_id s)) (os_mode s) (Instance (os_geometry s)) (map PFloat (os_position s))
       (map PFloat (os_orientation s)) (map_option Instance (os_path s))"

definition xy_value :: "xy \<Rightarrow> pyval" where
  "xy_value a = floats [fst a, snd a]"

definition check_scene_limits :: "msg \<Rightarrow> obstacle_spec \<Rightarrow> (exc, unit) res" where
  \<comment> \<open>the bounds of the scene file, beyond those of the spec's constructor\<close>
  "check_scene_limits path s =
     bind_res (require_int (PInt (os_logical_id s)) (path @ lit ''.logical_id'') (Some 1) (Some int32_max)) (\<lambda>_.
     bind_res (require_vector (floats (os_position s)) (path @ lit ''.position'') 3 (Some world_limit)) (\<lambda>_.
     bind_res (require_vector (floats (og_half_extents (os_geometry s))) (path @ lit ''.geometry.half_extents'') 3 (Some half_extent_limit)) (\<lambda>_.
     case os_path s of
       None \<Rightarrow> Inr ()
     | Some p \<Rightarrow>
         bind_res (require_vector (xy_value (op_start_xy p)) (path @ lit ''.path.start_xy'') 2 (Some world_limit)) (\<lambda>_.
         bind_res (require_vector (xy_value (op_end_xy p)) (path @ lit ''.path.end_xy'') 2 (Some world_limit)) (\<lambda>_.
         bind_res (require_float (PFloat (op_speed p)) (path @ lit ''.path.speed'') (Some (Fin 0)) (Some speed_limit) True) (\<lambda>_.
           Inr ()))))))"

definition validate_obstacle_spec :: "planar \<Rightarrow> obstacle_spec inst \<Rightarrow> msg \<Rightarrow> (exc, obstacle_spec) res" where
  "validate_obstacle_spec pl obstacle path =
     (case obstacle of
        Foreign \<Rightarrow> Inl (Exc ValueErr (path @ lit '' must be an ObstacleSpec''))
      | Instance s \<Rightarrow>
          bind_res (rewrap field_kinds path (rebuild_spec pl s)) (\<lambda>s'.
          bind_res (check_scene_limits path s') (\<lambda>_. Inr s')))"

subsection \<open>The scene document\<close>

record scene_document =
  doc_schema_version :: int
  doc_robot_model :: string
  doc_terrain :: terrain_document
  doc_obstacles :: "obstacle_spec list"
  doc_sensors :: sensor_document

definition obstacle_label :: "nat \<Rightarrow> msg" where
  "obstacle_label i = [Lit ''obstacles['', IntRepr (int i), Lit '']'']"

fun collect_obstacles :: "planar \<Rightarrow> nat \<Rightarrow> int list \<Rightarrow> obstacle_spec inst list \<Rightarrow> (exc, obstacle_spec list) res" where
  \<comment> \<open>the loop over the obstacles, with the logical ids seen so far\<close>
  "collect_obstacles pl i seen [] = Inr []"
| "collect_obstacles pl i seen (x # xs) =
     bind_res (validate_obstacle_spec pl x (obstacle_label i)) (\<lambda>s.
     ensure (os_logical_id s \<notin> set seen) (Exc ValueErr [Lit ''duplicate logical_id '', IntRepr (os_logical_id s)])
     (bind_res (collect_obstacles pl (Suc i) (os_logical_id s # seen) xs) (\<lambda>ss. Inr (s # ss))))"

definition mk_scene_document ::
  "planar \<Rightarrow> pyval \<Rightarrow> pyval \<Rightarrow> terrain_document inst \<Rightarrow> obstacle_spec inst list inst \<Rightarrow> sensor_document inst \<Rightarrow>
   (exc, scene_document) res" where
  \<comment> \<open>\<open>obstacles\<close> is an ordered sequence or any other object\<close>
  "mk_scene_document pl schema_version robot_model terrain obstacles sensors =
     bind_res (require_int schema_version (lit ''schema_version'') None None) (\<lambda>version.
     ensure (version = 1) (Exc ValueErr [Lit ''unsupported schema_version '', IntRepr version])
     (bind_res (rewrap (insert AttributeErr (insert TypeErr value_kinds)) (lit ''robot_model'')
         (bind_res (require_text robot_model (lit ''robot_model'')) get_robot_model)) (\<lambda>model.
      case terrain of
        Foreign \<Rightarrow> Inl (value_error ''terrain must be a TerrainDocument'')
      | Instance t \<Rightarrow>
     (case sensors of
        Foreign \<Rightarrow> Inl (value_error ''sensors must be a SensorDocument'')
      | Instance sn \<Rightarrow>
      bind_res (rewrap field_kinds (lit ''terrain'') (rebuild_terrain t)) (\<lambda>t'.
      bind_res (rewrap field_kinds (lit ''sensors'') (rebuild_sensors pl sn)) (\<lambda>sn'.
     (case obstacles of
        Foreign \<Rightarrow> Inl (value_error ''obstacles must be an ordered sequence'')
      | Instance items \<Rightarrow>
      ensure (length items \<le> max_obstacles)
        (Exc ValueErr [Lit ''obstacles exceeds supported bounds of '', IntRepr (int max_obstacles)])
      (bind_res (collect_obstacles pl 0 [] items) (\<lambda>specs.
        Inr \<lparr>doc_schema_version = version, doc_robot_model = rm_name model, doc_terrain = t',
             doc_obstacles = sort_key os_logical_id specs, doc_sensors = sn'\<rparr>))))))))) "

definition rebuild_document :: "planar \<Rightarrow> scene_document inst \<Rightarrow> (exc, scene_document) res" where
  \<comment> \<open>\<^verbatim>\<open>_revalidate_scene_document\<close> of the coordinator\<close>
  "rebuild_document pl document =
     (case document of
        Foreign \<Rightarrow> Inl (value_error ''document must be a SceneDocument'')
      | Instance d \<Rightarrow>
          rewrap field_kinds (lit ''scene document'')
            (mk_scene_document pl (PInt (doc_schema_version d)) (PStr (doc_robot_model d)) (Instance (doc_terrain d))
               (Instance (map Instance (doc_obstacles d))) (Instance (doc_sensors d))))"

definition replace_runtime_obstacles :: "obstacle_spec inst list inst \<Rightarrow> scene_document \<Rightarrow> (exc, scene_document) res" where
  \<comment> \<open>\<^verbatim>\<open>_replace_validated_runtime_obstacles\<close>; the argument is a tuple or any other object\<close>
  "replace_runtime_obstacles obstacles d =
     (case obstacles of
        Foreign \<Rightarrow> Inl (value_error ''runtime obstacles must be a bounded tuple'')
      | Instance items \<Rightarrow>
          ensure (length items \<le> max_obstacles) (value_error ''runtime obstacles must be a bounded tuple'')
          (ensure (\<not> list_ex (\<lambda>x. x = Foreign) items) (value_error ''runtime obstacles must contain exact ObstacleSpec values'')
           (let ordered = sort_key os_logical_id (map the_instance items)
            in ensure (distinct (map os_logical_id ordered)) (value_error ''runtime obstacles must have unique logical ids'')
                 (Inr (d\<lparr>doc_obstacles := ordered\<rparr>)))))"

datatype runtime_obstacle = SpecItem obstacle_spec | SnapshotItem obstacle_snapshot | OtherItem

definition runtime_spec :: "planar \<Rightarrow> nat \<Rightarrow> runtime_obstacle \<Rightarrow> (exc, obstacle_spec) res" where
  "runtime_spec pl i x =
     (case x of
        SpecItem s \<Rightarrow> Inr s
      | OtherItem \<Rightarrow> Inl (Exc ValueErr (obstacle_label i @ lit '' must be an ObstacleSnapshot or ObstacleSpec''))
      | SnapshotItem sn \<Rightarrow>
          (case sn_geometry sn of
             None \<Rightarrow> Inl (Exc ValueErr (obstacle_label i @ lit ''.geometry is required for scene recovery''))
           | Some g \<Rightarrow>
               mk_obstacle_spec pl (PInt (sn_logical_id sn)) (sn_mode sn) (Instance g) (map PFloat (sn_position sn))
                 (map PFloat (sn_orientation sn)) (map_option Instance (sn_path sn))))"

definition scene_from_runtime ::
  "planar \<Rightarrow> string \<Rightarrow> terrain_document + terrain_selection inst \<Rightarrow> runtime_obstacle list \<Rightarrow> sensor_mounts inst \<Rightarrow>
   lidar_config inst option \<Rightarrow> (exc, scene_document) res" where
  \<comment> \<open>\<^verbatim>\<open>from_runtime\<close>: a terrain document is taken as it is, anything else goes through the selection\<close>
  "scene_from_runtime pl robot_model terrain obstacles mounts lidar_config =
     bind_res (case terrain of Inl t \<Rightarrow> Inr t | Inr selection \<Rightarrow> terrain_from_selection selection) (\<lambda>t.
     bind_res (map_res (\<lambda>(i, x). runtime_spec pl i x) (enumerate 0 obstacles)) (\<lambda>specs.
     bind_res (mk_sensor_document pl mounts (case lidar_config of None \<Rightarrow> Instance supported_lidar | Some c \<Rightarrow> c)) (\<lambda>sn.
       mk_scene_document pl (PInt 1) (PStr robot_model) (Instance t) (Instance (map Instance specs)) (Instance sn))))"

subsection \<open>What was checked once passes again\<close>

lemma enumerate_map_res: "map_res (\<lambda>(i, x). f x) (enumerate k xs) = map_res f xs"
  by (induction xs arbitrary: k) simp_all

lemma map_res_again:
  assumes "\<And>i x. i < length xs \<Longrightarrow> x = xs ! i \<Longrightarrow> f (k + i, g x) = Inr x"
  shows "map_res f (enumerate k (map g xs)) = Inr xs"
  using assms
proof (induction xs arbitrary: k)
  case (Cons x xs)
  have "map_res f (enumerate (Suc k) (map g xs)) = Inr xs"
    by (rule Cons.IH) (use Cons.prems [of "Suc i" for i] in simp)
  with Cons.prems [of 0 x] show ?case by simp
qed simp

lemma floats_again: "list_all f_isfinite xs \<Longrightarrow> map_res (\<lambda>(i, v). ob_finite_float (nm i) v) (enumerate 0 (map PFloat xs)) = Inr xs"
  by (rule map_res_again) (simp add: ob_finite_float_PFloat list_all_length)

lemma floats_finite:
  assumes "map_res (\<lambda>(i, v). ob_finite_float (nm i) v) (enumerate k vs) = Inr xs"
  shows "length xs = length vs" "list_all f_isfinite xs"
proof -
  show "length xs = length vs" using map_res_length [OF assms] by simp
  show "list_all f_isfinite xs" unfolding list_all_iff
  proof
    fix x assume "x \<in> set xs"
    from map_res_origin [OF assms this] show "f_isfinite x"
      by (auto simp: ob_finite_float_def res_simps Let_def)
  qed
qed

lemma ob_finite_vector_again:
  assumes "ob_finite_vector name n vs = Inr xs"
  shows "length xs = n" "list_all f_isfinite xs" "ob_finite_vector name' n (map PFloat xs) = Inr xs"
  using assms floats_finite [of "\<lambda>i. [Lit (name @ ''[''), IntRepr (int i), Lit '']'']" 0 vs xs]
    floats_again [of xs "\<lambda>i. [Lit (name' @ ''[''), IntRepr (int i), Lit '']'']"]
  by (auto simp: ob_finite_vector_def res_simps)

lemma pose_vector_again:
  assumes "pose_vector name v n = Inr xs"
  shows "length xs = n" "list_all f_isfinite xs" "pose_vector name' (floats xs) n = Inr xs"
  using assms floats_finite [of "\<lambda>i. [Lit (name @ ''[''), IntRepr (int i), Lit '']'']" 0 _ xs]
    floats_again [of xs "\<lambda>i. [Lit (name' @ ''[''), IntRepr (int i), Lit '']'']"]
  by (auto simp: pose_vector_def res_simps Let_def split: option.splits)

lemma require_float_plain: "require_float v path None None b = ob_finite_float path v"
  by (simp add: require_float_def bind_res_def split: sum.splits)

lemma require_vector_again:
  assumes "require_vector v path n limit = Inr xs"
  shows "length xs = n" "list_all f_isfinite xs" "require_vector (floats xs) path' n limit = Inr xs"
proof -
  from assms obtain items where items: "length items = n"
    "map_res (\<lambda>(i, item). ob_finite_float (path @ [Lit ''['', IntRepr (int i), Lit '']'']) item) (enumerate 0 items) = Inr xs"
    and lim: "\<not> (case limit of None \<Rightarrow> False | Some b \<Rightarrow> list_ex (\<lambda>x. f_lt b (f_abs x)) xs)"
    by (auto simp: require_vector_def require_float_plain res_simps)
  from floats_finite [OF items(2)] items(1) show len: "length xs = n" and fin: "list_all f_isfinite xs" by simp_all
  have again: "map_res (\<lambda>(i, item). require_float item (path' @ [Lit ''['', IntRepr (int i), Lit '']'']) None None False)
      (enumerate 0 (map PFloat xs)) = Inr xs"
    using floats_again [OF fin] by (simp add: require_float_plain)
  show "require_vector (floats xs) path' n limit = Inr xs"
    using again lim len by (simp add: require_vector_def require_sequence_def)
qed

lemma nonempty_text_Some: "nonempty_text v = Some s \<longleftrightarrow> v = PStr s \<and> s \<noteq> []"
  by (cases v) auto

lemma require_text_Inr: "require_text v path = Inr s \<longleftrightarrow> v = PStr s \<and> s \<noteq> []"
  by (cases v) (auto simp: require_text_def split: if_splits option.splits)

lemma py_lower_Nil [simp]: "py_lower s = [] \<longleftrightarrow> s = []"
  by (simp add: py_lower_def)

lemma require_choice_Inr:
  "require_choice v path choices = Inr s \<longleftrightarrow> (\<exists>t. v = PStr t \<and> t \<noteq> [] \<and> s = py_lower t \<and> s \<in> set choices)"
  by (auto simp: require_choice_def require_text_Inr res_simps)

lemma require_choice_again: "require_choice v path choices = Inr s \<Longrightarrow> require_choice (PStr s) path' choices = Inr s"
  by (auto simp: require_choice_Inr)

lemma require_int_again: "require_int v path lo hi = Inr n \<Longrightarrow> require_int (PInt n) path' lo hi = Inr n"
  by (auto simp: require_int_def res_simps split: option.splits)

lemma require_float_again: "require_float v path lo hi b = Inr x \<Longrightarrow> require_float (PFloat x) path' lo hi b' = Inr x"
  by (auto simp: require_float_def res_simps ob_finite_float_PFloat)
     (auto simp: ob_finite_float_def res_simps Let_def)

lemma rewrap_Inr [simp]: "rewrap kinds prefix r = Inr x \<longleftrightarrow> r = Inr x"
  by (simp add: rewrap_def split: sum.splits)

lemma rewrap_of_Inr [simp]: "rewrap kinds prefix (Inr x) = Inr x"
  by simp

lemma terrain_again:
  assumes "mk_terrain_document m s g r = Inr t"
  shows "rebuild_terrain t = Inr t"
proof -
  from assms have t: "require_choice m (lit ''terrain_model'') terrain_model_names = Inr (td_model t)"
    "require_float s (lit ''slope_deg'') (Some (Fin (- 30))) (Some (Fin 30)) True = Inr (td_slope_deg t)"
    "require_int g (lit ''golf_seed'') (Some int32_min) (Some int32_max) = Inr (td_golf_seed t)"
    "require_choice r (lit ''golf_relief'') relief_levels = Inr (td_golf_relief t)"
    unfolding mk_terrain_document_def by (auto simp only: bind_res_Inr_iff terrain_document.simps Inr_inject)
  show ?thesis
    using t(1,4) [THEN require_choice_again] t(2) [THEN require_float_again] t(3) [THEN require_int_again]
    by (simp add: rebuild_terrain_def mk_terrain_document_def)
qed

subsection \<open>Sensors again\<close>

lemma normalize_quaternion_again:
  assumes "hypot_accurate pl" and "normalize_quaternion pl v = Inr q"
  shows "normalize_quaternion pl (floats q) = Inr q"
proof -
  from assms(2) obtain x where x: "pose_vector ''quaternion'' v 4 = Inr x" "f_isfinite (pl_hypot pl x)"
    "\<not> f_le (pl_hypot pl x) norm_epsilon" "q = scaled pl x"
    by (auto simp: normalize_quaternion_def res_simps Let_def)
  note q = scaled_again [OF assms(1) pose_vector_again(1,2) [OF x(1)] x(2,3), folded x(4)]
  then have "pose_vector ''quaternion'' (floats q) 4 = Inr q"
    using floats_again [of q "\<lambda>i. [Lit (''quaternion'' @ ''[''), IntRepr (int i), Lit '']'']"] by (simp add: pose_vector_def)
  with q show ?thesis by (simp add: normalize_quaternion_def)
qed

lemma mount_again:
  assumes "hypot_accurate pl" and "mk_mount_pose pl p ps o' = Inr m"
  shows "rebuild_mount pl m = Inr m"
proof -
  from assms(2) obtain parent ps' q where m: "nonempty_text p = Some parent" "pose_vector ''position'' ps 3 = Inr ps'"
    "normalize_quaternion pl o' = Inr q" "m = \<lparr>mp_parent_link = parent, mp_position = ps', mp_orientation = q\<rparr>"
    by (auto simp: mk_mount_pose_def res_simps split: option.splits)
  from m(1) have "nonempty_text (PStr parent) = Some parent" by (cases p) (auto split: if_splits)
  then show ?thesis
    using pose_vector_again(3) [OF m(2)] normalize_quaternion_again [OF assms(1) m(3)]
    by (simp add: rebuild_mount_def mk_mount_pose_def m(4))
qed

lemma rebuild_mounts_Instance:
  "rebuild_mounts pl (Instance s) = Inr s' \<longleftrightarrow>
     rebuild_mount pl (sm_lidar_front s) = Inr (sm_lidar_front s') \<and> rebuild_mount pl (sm_lidar_rear s) = Inr (sm_lidar_rear s')
     \<and> rebuild_mount pl (sm_rtk_primary s) = Inr (sm_rtk_primary s') \<and> rebuild_mount pl (sm_rtk_secondary s) = Inr (sm_rtk_secondary s')
     \<and> rebuild_mount pl (sm_imu s) = Inr (sm_imu s')"
  by (cases s') (auto simp: rebuild_mounts_def named_mounts_def res_simps numeral_eq_Suc)

lemma lidar_again:
  assumes "rebuild_lidar_config lidar = Inr c"
  shows "lidar = Instance c"
proof -
  from assms obtain c0 where c0: "lidar = Instance c0" "rebuild_lidar c0 = Inr c"
    by (auto simp: rebuild_lidar_config_def split: inst.splits)
  from c0(2) have "c0 = c"
    by (cases c0) (auto simp: rebuild_lidar_def mk_lidar_config_def res_simps Let_def vertical_fov_def ob_finite_float_PFloat ob_integral_def)
  with c0(1) show ?thesis by simp
qed

lemma sensors_again:
  assumes "hypot_accurate pl" and "mk_sensor_document pl mounts lidar = Inr s"
  shows "rebuild_sensors pl s = Inr s"
proof -
  from assms(2) obtain ms c us where b: "rebuild_mounts pl mounts = Inr ms" "rebuild_lidar_config lidar = Inr c"
    "map_res check_mount (named_mounts ms) = Inr us" "s = \<lparr>sd_mounts = ms, sd_lidar = c\<rparr>"
    by (auto simp: mk_sensor_document_def res_simps)
  from b(1) obtain ms0 where m0: "mounts = Instance ms0" by (cases mounts) (auto simp: rebuild_mounts_def)
  have "rebuild_mount pl m = Inr m" if "rebuild_mount pl m0 = Inr m" for m0 m
    using mount_again [OF assms(1)] that unfolding rebuild_mount_def by blast
  with b(1) have "rebuild_mounts pl (Instance ms) = Inr ms" unfolding m0 rebuild_mounts_Instance by blast
  moreover have "rebuild_lidar_config (Instance c) = Inr c" using lidar_again [OF b(2)] b(2) by simp
  ultimately show ?thesis using b(3) by (simp add: rebuild_sensors_def mk_sensor_document_def b(4))
qed

subsection \<open>Obstacles and documents again\<close>

lemma fold_f_max_in: "fold (\<lambda>v m. f_max m v) ys m \<in> insert m (set ys)"
proof (induction ys arbitrary: m)
  case (Cons y ys)
  have "f_max m y = m \<or> f_max m y = y" by (simp add: f_max_def)
  with Cons.IH [of "f_max m y"] show ?case by auto
qed simp

lemma py_max3_in: "xs \<noteq> [] \<Longrightarrow> py_max3 xs \<in> set xs"
  using fold_f_max_in [of "tl xs" "hd xs"] unfolding py_max3_def by (cases xs) auto

lemma lower_choice_again: "lower_choice name v choices = Inr s \<Longrightarrow> lower_choice name' s choices = Inr s"
  by (auto simp: lower_choice_def res_simps Let_def)

lemma geometry_again:
  assumes "mk_obstacle_geometry shape he = Inr g"
  shows "mk_obstacle_geometry (og_shape g) (map PFloat (og_half_extents g)) = Inr g"
proof -
  from assms obtain sh xs where g: "lower_choice ''shape'' shape obstacle_shapes = Inr sh" "ob_finite_vector ''half_extents'' 3 he = Inr xs"
    "\<not> list_ex (\<lambda>v. f_le v f_zero) xs" "og_shape g = sh"
    "og_half_extents g = (if sh = ''sphere'' then (let r = py_max3 xs in [r, r, r])
       else if sh = ''cylinder'' then (let r = f_max (xs ! 0) (xs ! 1) in [r, r, xs ! 2]) else xs)"
    by (auto simp: mk_obstacle_geometry_def res_simps)
  note xs = ob_finite_vector_again(1,2) [OF g(2)]
  have sh: "lower_choice ''shape'' sh obstacle_shapes = Inr sh" by (rule lower_choice_again [OF g(1)])
  obtain a b c where abc: "xs = [a, b, c]" using xs(1) by (auto simp: length_Suc_conv numeral_eq_Suc)
  have "set (og_half_extents g) \<subseteq> set xs"
    using py_max3_in [of xs] abc by (auto simp: g(5) Let_def f_max_def)
  then have he: "list_all f_isfinite (og_half_extents g)" "\<not> list_ex (\<lambda>v. f_le v f_zero) (og_half_extents g)"
    using xs(2) g(3) by (auto simp: list_all_iff list_ex_iff)
  have len: "length (og_half_extents g) = 3" using abc by (simp add: g(5) Let_def)
  have "ob_finite_vector ''half_extents'' 3 (map PFloat (og_half_extents g)) = Inr (og_half_extents g)"
    using floats_again [OF he(1), of "\<lambda>i. [Lit (''half_extents'' @ ''[''), IntRepr (int i), Lit '']'']"] len
    by (simp add: ob_finite_vector_def)
  moreover have "f_max r r = r" for r by (simp add: f_max_def)
  then have "(if og_shape g = ''sphere'' then (let r = py_max3 (og_half_extents g) in [r, r, r])
      else if og_shape g = ''cylinder'' then (let r = f_max (og_half_extents g ! 0) (og_half_extents g ! 1) in [r, r, og_half_extents g ! 2])
      else og_half_extents g) = og_half_extents g"
    by (simp add: g(4,5) py_max3_def Let_def)
  moreover have "lower_choice ''shape'' (og_shape g) obstacle_shapes = Inr (og_shape g)" using sh g(4) by simp
  ultimately show ?thesis using he(2) unfolding mk_obstacle_geometry_def by (simp only: bind_res_simps ensure_simps not_False_eq_True) simp
qed

lemma normalize_xy_again:
  assumes "normalize_xy name vs = Inr a"
  shows "normalize_xy name' [PFloat (fst a), PFloat (snd a)] = Inr a"
proof -
  from assms obtain xs where xs: "ob_finite_vector name 2 vs = Inr xs" "a = (xs ! 0, xs ! 1)"
    by (auto simp: normalize_xy_def res_simps)
  note again = ob_finite_vector_again(1,3) [OF xs(1)]
  then obtain x y where "xs = [x, y]" by (auto simp: length_Suc_conv numeral_eq_Suc)
  with again(2) [of name'] xs(2) show ?thesis by (simp add: normalize_xy_def)
qed

definition rebuild_path :: "planar \<Rightarrow> obstacle_path \<Rightarrow> (exc, obstacle_path) res" where
  "rebuild_path pl p = mk_obstacle_path pl [PFloat (fst (op_start_xy p)), PFloat (snd (op_start_xy p))]
     [PFloat (fst (op_end_xy p)), PFloat (snd (op_end_xy p))] (PFloat (op_speed p)) (PFloat (op_progress p)) (PInt (op_direction p))"

lemma path_again:
  assumes "mk_obstacle_path pl a b v pr d = Inr p"
  shows "rebuild_path pl p = Inr p"
proof -
  from assms have p: "normalize_xy ''start_xy'' a = Inr (op_start_xy p)" "normalize_xy ''end_xy'' b = Inr (op_end_xy p)"
    "ob_positive_float (lit ''speed'') v = Inr (op_speed p)" "ob_finite_float (lit ''progress'') pr = Inr (op_progress p)"
    "ob_integral (lit ''direction'') d = Inr (op_direction p)"
    "\<not> (f_lt (op_progress p) f_zero \<or> f_lt (fl 1) (op_progress p))" "op_direction p = - 1 \<or> op_direction p = 1"
    "\<not> f_le (pl_dist pl (op_start_xy p) (op_end_xy p)) norm_epsilon"
    by (auto simp: mk_obstacle_path_def res_simps)
  have "f_isfinite (op_speed p)" "\<not> f_le (op_speed p) f_zero" "f_isfinite (op_progress p)"
    using p(3,4) by (auto simp: ob_positive_float_def ob_finite_float_def res_simps Let_def)
  then show ?thesis
    using p(1,2) [THEN normalize_xy_again] p(6-8)
    by (simp add: rebuild_path_def mk_obstacle_path_def ob_positive_float_PFloat [THEN iffD2] ob_finite_float_PFloat [THEN iffD2] ob_integral_def)
qed

lemma orientation_again:
  assumes "hypot_accurate pl" and "normalize_orientation pl vs = Inr q"
  shows "normalize_orientation pl (map PFloat q) = Inr q"
proof -
  from assms(2) obtain x where x: "ob_finite_vector ''orientation'' 4 vs = Inr x" "f_isfinite (pl_hypot pl x)"
    "\<not> f_le (pl_hypot pl x) norm_epsilon" "q = scaled pl x"
    by (auto simp: normalize_orientation_scaled res_simps)
  note q = scaled_again [OF assms(1) ob_finite_vector_again(1,2) [OF x(1)] x(2,3), folded x(4)]
  then have "ob_finite_vector ''orientation'' 4 (map PFloat q) = Inr q"
    using floats_again [of q "\<lambda>i. [Lit (''orientation'' @ ''[''), IntRepr (int i), Lit '']'']"] by (simp add: ob_finite_vector_def)
  with q show ?thesis by (simp add: normalize_orientation_scaled)
qed

lemma spec_again:
  assumes "hypot_accurate pl" and "mk_obstacle_spec pl n md g ps q pa = Inr s"
  shows "rebuild_spec pl s = Inr s"
proof -
  from assms(2) obtain g0 where g0: "g = Instance g0" "mk_obstacle_geometry (og_shape g0) (map PFloat (og_half_extents g0)) = Inr (os_geometry s)"
    by (auto simp: mk_obstacle_spec_def res_simps split: inst.splits sum.splits)
  from assms(2) have s: "ob_integral (lit ''logical_id'') n = Inr (os_logical_id s)" "1 \<le> os_logical_id s"
    "lower_choice ''mode'' md [''static'', ''moving''] = Inr (os_mode s)"
    "\<not> (os_mode s = ''static'' \<and> os_path s \<noteq> None)" "\<not> (os_mode s = ''moving'' \<and> os_path s = None)"
    "ob_finite_vector ''position'' 3 ps = Inr (os_position s)" "normalize_orientation pl q = Inr (os_orientation s)"
    by (auto simp: mk_obstacle_spec_def res_simps)
  have path: "rebuild_path pl p = Inr p" if "os_path s = Some p" for p
  proof -
    from assms(2) that obtain p0 where "rebuild_path pl p0 = Inr p"
      unfolding rebuild_path_def by (auto simp: mk_obstacle_spec_def res_simps split: option.splits inst.splits sum.splits)
    then show ?thesis unfolding rebuild_path_def by (rule path_again [unfolded rebuild_path_def])
  qed
  have "lower_choice ''mode'' (os_mode s) [''static'', ''moving''] = Inr (os_mode s)"
    by (rule lower_choice_again [OF s(3)])
  then show ?thesis
    using s(2,4,5) ob_finite_vector_again(3) [OF s(6)] orientation_again [OF assms(1) s(7)] geometry_again [OF g0(2)] path
    by (cases "os_path s") (simp_all add: rebuild_spec_def mk_obstacle_spec_def ob_integral_def rebuild_path_def)
qed

definition vector_within :: "nat \<Rightarrow> pyfloat \<Rightarrow> pyfloat list \<Rightarrow> bool" where
  "vector_within n b xs \<longleftrightarrow> length xs = n \<and> list_all f_isfinite xs \<and> \<not> list_ex (\<lambda>x. f_lt b (f_abs x)) xs"

lemma floats_checked:
  "map_res (\<lambda>(i, v). ob_finite_float (nm i) v) (enumerate k (map PFloat xs)) = Inr ys \<longleftrightarrow> ys = xs \<and> list_all f_isfinite xs"
  by (induction xs arbitrary: k ys) (auto simp: res_simps ob_finite_float_PFloat)

lemma require_vector_floats: "require_vector (floats xs) path n (Some b) = Inr ys \<longleftrightarrow> ys = xs \<and> vector_within n b xs"
  by (auto simp: require_vector_def require_sequence_def require_float_plain res_simps floats_checked vector_within_def)

lemma require_vector_xy:
  "require_vector (xy_value a) path 2 (Some b) = Inr ys \<longleftrightarrow> ys = [fst a, snd a] \<and> vector_within 2 b [fst a, snd a]"
  unfolding xy_value_def by (rule require_vector_floats)

definition within_scene_limits :: "obstacle_spec \<Rightarrow> bool" where
  "within_scene_limits s \<longleftrightarrow>
     1 \<le> os_logical_id s \<and> os_logical_id s \<le> int32_max \<and> vector_within 3 world_limit (os_position s)
     \<and> vector_within 3 half_extent_limit (og_half_extents (os_geometry s))
     \<and> (case os_path s of None \<Rightarrow> True
        | Some p \<Rightarrow> vector_within 2 world_limit [fst (op_start_xy p), snd (op_start_xy p)]
            \<and> vector_within 2 world_limit [fst (op_end_xy p), snd (op_end_xy p)]
            \<and> f_isfinite (op_speed p) \<and> \<not> f_lt (op_speed p) (Fin 0) \<and> \<not> f_lt speed_limit (op_speed p))"

lemma check_scene_limits_iff: "check_scene_limits path s = Inr () \<longleftrightarrow> within_scene_limits s"
proof -
  have int: "(\<exists>x. require_int (PInt n) p (Some 1) (Some int32_max) = Inr x) \<longleftrightarrow> 1 \<le> n \<and> n \<le> int32_max" for n p
    by (simp add: require_int_def ensure_Inr_iff)
  have speed: "(\<exists>x. require_float (PFloat v) p (Some (Fin 0)) (Some speed_limit) True = Inr x)
      \<longleftrightarrow> f_isfinite v \<and> \<not> f_lt v (Fin 0) \<and> \<not> f_lt speed_limit v" for v p
    by (auto simp: require_float_def res_simps ob_finite_float_PFloat)
  show ?thesis
    unfolding check_scene_limits_def within_scene_limits_def
    by (cases "os_path s") (simp_all add: bind_res_Inr_iff require_vector_floats require_vector_xy int [simplified] speed [simplified])
qed

lemma validated_again:
  assumes "hypot_accurate pl" and "validate_obstacle_spec pl x path = Inr s"
  shows "validate_obstacle_spec pl (Instance s) path' = Inr s"
proof -
  from assms(2) obtain s0 where s0: "rebuild_spec pl s0 = Inr s" "check_scene_limits path s = Inr ()"
    by (auto simp: validate_obstacle_spec_def res_simps split: inst.splits)
  have "rebuild_spec pl s = Inr s" by (rule spec_again [OF assms(1) s0(1) [unfolded rebuild_spec_def]])
  moreover have "check_scene_limits path' s = Inr ()" using s0(2) unfolding check_scene_limits_iff .
  ultimately show ?thesis by (simp add: validate_obstacle_spec_def)
qed

definition file_obstacles :: "planar \<Rightarrow> obstacle_spec list \<Rightarrow> bool" where
  \<comment> \<open>what the loop over the obstacles accepts as it is\<close>
  "file_obstacles pl ss \<longleftrightarrow> list_all (\<lambda>s. \<forall>path. validate_obstacle_spec pl (Instance s) path = Inr s) ss \<and> distinct (map os_logical_id ss)"

lemma collect_obstacles_again:
  assumes "hypot_accurate pl" and "collect_obstacles pl i seen xs = Inr ss"
  shows "file_obstacles pl ss \<and> length ss = length xs \<and> (\<forall>s\<in>set ss. os_logical_id s \<notin> set seen)"
  using assms(2)
proof (induction xs arbitrary: i seen ss)
  case (Cons x xs)
  then obtain s rest where s: "validate_obstacle_spec pl x (obstacle_label i) = Inr s" "os_logical_id s \<notin> set seen"
    "collect_obstacles pl (Suc i) (os_logical_id s # seen) xs = Inr rest" "ss = s # rest"
    by (auto simp: res_simps)
  from Cons.IH [OF s(3)] s(2,4) validated_again [OF assms(1) s(1)] show ?case by (auto simp: file_obstacles_def)
qed (simp add: file_obstacles_def)

lemma collect_obstacles_accepts:
  "file_obstacles pl ss \<Longrightarrow> (\<forall>s\<in>set ss. os_logical_id s \<notin> set seen) \<Longrightarrow> collect_obstacles pl i seen (map Instance ss) = Inr ss"
proof (induction ss arbitrary: i seen)
  case (Cons s ss)
  have "collect_obstacles pl (Suc i) (os_logical_id s # seen) (map Instance ss) = Inr ss"
    using Cons.prems by (intro Cons.IH) (auto simp: file_obstacles_def image_iff)
  with Cons.prems show ?case by (simp add: file_obstacles_def)
qed simp

lemma file_obstacles_sort: "file_obstacles pl ss \<Longrightarrow> file_obstacles pl (sort_key os_logical_id ss)"
  by (simp add: file_obstacles_def list_all_iff distinct_map)

text \<open>What a document holds, and that building it again from its fields gives it back.\<close>

definition document_ok :: "planar \<Rightarrow> scene_document \<Rightarrow> bool" where
  "document_ok pl d \<longleftrightarrow>
     doc_schema_version d = 1 \<and> doc_robot_model d \<noteq> []
     \<and> (\<exists>m. get_robot_model (doc_robot_model d) = Inr m \<and> rm_name m = doc_robot_model d)
     \<and> rebuild_terrain (doc_terrain d) = Inr (doc_terrain d) \<and> rebuild_sensors pl (doc_sensors d) = Inr (doc_sensors d)
     \<and> file_obstacles pl (doc_obstacles d) \<and> length (doc_obstacles d) \<le> max_obstacles
     \<and> sorted (map os_logical_id (doc_obstacles d))"


lemma mk_scene_document_ok:
  assumes "hypot_accurate pl" and "mk_scene_document pl v m t obs sn = Inr d"
  shows "document_ok pl d"
proof -
  obtain t0 sn0 items where inst: "t = Instance t0" "sn = Instance sn0" "obs = Instance items"
    using assms(2) by (cases t; cases sn; cases obs) (auto simp: mk_scene_document_def res_simps)
  from assms(2) obtain s model specs where p: "require_int v (lit ''schema_version'') None None = Inr 1"
    "m = PStr s" "s \<noteq> []" "get_robot_model s = Inr model"
    "rebuild_terrain t0 = Inr (doc_terrain d)" "rebuild_sensors pl sn0 = Inr (doc_sensors d)" "length items \<le> max_obstacles"
    "collect_obstacles pl 0 [] items = Inr specs" "doc_schema_version d = 1" "doc_robot_model d = rm_name model"
    "doc_obstacles d = sort_key os_logical_id specs"
    unfolding inst by (auto simp: mk_scene_document_def res_simps require_text_Inr)
  have name: "rm_name model = py_lower s" by (rule get_robot_model_name [OF p(4)])
  then have "get_robot_model (rm_name model) = Inr model" using p(4) by (simp add: get_robot_model_def)
  moreover have "rebuild_terrain (doc_terrain d) = Inr (doc_terrain d)" by (rule terrain_again [OF p(5) [unfolded rebuild_terrain_def]])
  moreover have "rebuild_sensors pl (doc_sensors d) = Inr (doc_sensors d)"
    by (rule sensors_again [OF assms(1) p(6) [unfolded rebuild_sensors_def]])
  moreover note collect_obstacles_again [OF assms(1) p(8)]
  ultimately show ?thesis
    using p(3,7,9-) name by (auto simp: document_ok_def file_obstacles_sort)
qed

lemma document_ok_rebuilds:
  assumes "document_ok pl d"
  shows "mk_scene_document pl (PInt 1) (PStr (doc_robot_model d)) (Instance (doc_terrain d))
    (Instance (map Instance (doc_obstacles d))) (Instance (doc_sensors d)) = Inr d"
proof -
  from assms obtain model where d: "doc_schema_version d = 1" "doc_robot_model d \<noteq> []" "get_robot_model (doc_robot_model d) = Inr model"
    "rm_name model = doc_robot_model d" "rebuild_terrain (doc_terrain d) = Inr (doc_terrain d)"
    "rebuild_sensors pl (doc_sensors d) = Inr (doc_sensors d)" "file_obstacles pl (doc_obstacles d)"
    "length (doc_obstacles d) \<le> max_obstacles" "sorted (map os_logical_id (doc_obstacles d))"
    by (auto simp: document_ok_def)
  have "collect_obstacles pl 0 [] (map Instance (doc_obstacles d)) = Inr (doc_obstacles d)"
    by (rule collect_obstacles_accepts [OF d(7)]) simp
  moreover have "sort_key os_logical_id (doc_obstacles d) = doc_obstacles d" by (rule sort_key_id_if_sorted [OF d(9)])
  moreover have "require_int (PInt 1) (lit ''schema_version'') None None = Inr 1" by (simp add: require_int_def)
  moreover have "require_text (PStr (doc_robot_model d)) (lit ''robot_model'') = Inr (doc_robot_model d)"
    using d(2) by (simp add: require_text_Inr)
  ultimately show ?thesis using d by (cases d) (simp add: mk_scene_document_def)
qed

lemma document_rebuilds: "document_ok pl d \<Longrightarrow> rebuild_document pl (Instance d) = Inr d"
  using document_ok_rebuilds [of pl d] by (simp add: rebuild_document_def document_ok_def)

end
