(* ===== verification/SceneFiles.thy ===== *)
theory SceneFiles
  imports SceneModels
begin

text \<open>
  Reading and writing scene files (\<^verbatim>\<open>slope_sim/scene_config.py\<close>).  A document is printed as nested dicts and
  lists and parsed back with the checks of every field.  What \<^verbatim>\<open>yaml.load\<close> returns may share containers and
  even contain itself, through YAML aliases; it is a graph here, which the code walks once before it reads it.
  The text of an unexpected key (\<^verbatim>\<open>str(key)\<close> of any object) is the argument \<open>shown\<close>.
\<close>

subsection \<open>Loaded containers\<close>

datatype yaml_item = Leaf pyval | Container nat

datatype yaml_container = YMapping "(yaml_item \<times> yaml_item) list" | YSequence "yaml_item list"

type_synonym yaml_heap = "nat \<Rightarrow> yaml_container"  \<comment> \<open>the containers by identity\<close>

fun yaml_children :: "yaml_container \<Rightarrow> (yaml_item \<times> yaml_item) list" where
  \<comment> \<open>\<^verbatim>\<open>item.items()\<close> or \<^verbatim>\<open>enumerate(item)\<close>\<close>
  "yaml_children (YMapping kvs) = kvs"
| "yaml_children (YSequence items) = map (\<lambda>(i, x). (Leaf (PInt (int i)), x)) (enumerate 0 items)"

definition max_yaml_depth :: nat where "max_yaml_depth = 64"
definition max_yaml_containers :: nat where "max_yaml_containers = 20000"

fun visit_pairs ::
  "(yaml_item \<Rightarrow> (exc, nat list, unit) op) \<Rightarrow> (yaml_item \<times> yaml_item) list \<Rightarrow> (exc, nat list, unit) op" where
  "visit_pairs visit [] seen = (Inr (), seen)"
| "visit_pairs visit ((k, v) # kvs) seen =
     bind_op (visit k) (\<lambda>_. bind_op (visit v) (\<lambda>_. visit_pairs visit kvs)) seen"

primrec visit_item :: "yaml_heap \<Rightarrow> nat \<Rightarrow> nat list \<Rightarrow> yaml_item \<Rightarrow> (exc, nat list, unit) op" where
  \<comment> \<open>\<^verbatim>\<open>visit\<close>: how many more levels are allowed, the containers being visited, and as state those seen\<close>
  "visit_item h 0 active item seen = (Inl (value_error ''scene YAML exceeds the supported nesting depth''), seen)"
| "visit_item h (Suc n) active item seen =
     (case item of
        Leaf v \<Rightarrow> (Inr (), seen)
      | Container a \<Rightarrow>
          if a \<in> set active then (Inl (value_error ''scene contains a recursive YAML alias''), seen)
          else if a \<in> set seen then (Inr (), seen)
          else if max_yaml_containers < length (a # seen)
          then (Inl (value_error ''scene YAML contains too many containers''), a # seen)
          else visit_pairs (visit_item h n (a # active)) (yaml_children (h a)) (a # seen))"

definition validate_yaml_tree :: "yaml_heap \<Rightarrow> yaml_item \<Rightarrow> (exc, unit) res" where
  "validate_yaml_tree h item = fst (visit_item h (Suc max_yaml_depth) [] item [])"

primrec unfolded :: "yaml_heap \<Rightarrow> nat \<Rightarrow> yaml_item \<Rightarrow> pyval" where
  \<comment> \<open>the value as the parser reads it, \<open>n\<close> levels deep\<close>
  "unfolded h 0 item = (case item of Leaf v \<Rightarrow> v | Container a \<Rightarrow> PObject)"
| "unfolded h (Suc n) item =
     (case item of
        Leaf v \<Rightarrow> v
      | Container a \<Rightarrow>
          (case h a of
             YMapping kvs \<Rightarrow> PDict (map (\<lambda>(k, v). (unfolded h n k, unfolded h n v)) kvs)
           | YSequence items \<Rightarrow> PList (map (unfolded h n) items)))"

subsection \<open>Parsing\<close>

definition require_mapping :: "pyval \<Rightarrow> msg \<Rightarrow> (exc, (pyval \<times> pyval) list) res" where
  "require_mapping v path =
     (case v of PDict d \<Rightarrow> Inr d | _ \<Rightarrow> Inl (Exc ValueErr (path @ lit '' must be a mapping'')))"

definition has_key :: "(pyval \<times> pyval) list \<Rightarrow> string \<Rightarrow> bool" where
  "has_key d k \<longleftrightarrow> PStr k \<in> set (map fst d)"

definition item_at :: "(pyval \<times> pyval) list \<Rightarrow> string \<Rightarrow> pyval" where
  \<comment> \<open>\<^verbatim>\<open>mapping[key]\<close> of a key that was checked to be there\<close>
  "item_at d k = the (map_of d (PStr k))"

definition require_exact_keys :: "(pyval \<Rightarrow> msg) \<Rightarrow> (pyval \<times> pyval) list \<Rightarrow> string list \<Rightarrow> msg \<Rightarrow> (exc, unit) res" where
  "require_exact_keys shown d expected path =
     (let unknown = filter (\<lambda>k. k \<notin> set (map PStr expected)) (map fst d); missing = filter (\<lambda>k. \<not> has_key d k) expected
      in ensure (unknown = []) (Exc ValueErr (path @ Lit '' has unknown keys: '' # msg_join '', '' (map shown unknown)))
         (ensure (missing = []) (Exc ValueErr (path @ lit ('' is missing keys: '' @ py_join '', '' missing))) (Inr ())))"

definition mapping_with :: "(pyval \<Rightarrow> msg) \<Rightarrow> pyval \<Rightarrow> string list \<Rightarrow> msg \<Rightarrow> (exc, string \<Rightarrow> pyval) res" where
  \<comment> \<open>the two checks that open every parser\<close>
  "mapping_with shown v expected path =
     bind_res (require_mapping v path) (\<lambda>d. bind_res (require_exact_keys shown d expected path) (\<lambda>_. Inr (item_at d)))"

definition parse_mount :: "planar \<Rightarrow> (pyval \<Rightarrow> msg) \<Rightarrow> pyval \<Rightarrow> string \<Rightarrow> (exc, mount_pose) res" where
  "parse_mount pl shown v path =
     bind_res (mapping_with shown v [''parent_link'', ''position'', ''orientation''] (lit path)) (\<lambda>m.
     bind_res (require_text (m ''parent_link'') (lit (path @ ''.parent_link''))) (\<lambda>parent.
     bind_res (require_vector (m ''position'') (lit (path @ ''.position'')) 3 (Some (Fin 100))) (\<lambda>position.
     bind_res (require_quaternion pl (m ''orientation'') (lit (path @ ''.orientation''))) (\<lambda>orientation.
       rewrap value_kinds (lit path) (mk_mount_pose pl (PStr parent) (floats position) (floats orientation))))))"

definition lidar_keys :: "string list" where
  "lidar_keys = [''vertical_lines'', ''horizontal_samples'', ''horizontal_fov_deg'', ''vertical_fov_deg'', ''min_range_m'', ''max_range_m'']"

definition parse_lidar :: "(pyval \<Rightarrow> msg) \<Rightarrow> pyval \<Rightarrow> (exc, lidar_config) res" where
  "parse_lidar shown v =
     bind_res (mapping_with shown v lidar_keys (lit ''sensors.lidar'')) (\<lambda>m.
     bind_res (require_vector (m ''vertical_fov_deg'') (lit ''sensors.lidar.vertical_fov_deg'') 2 None) (\<lambda>fov.
       rewrap value_kinds (lit ''sensors.lidar'')
        (bind_res (require_int (m ''vertical_lines'') (lit ''sensors.lidar.vertical_lines'') None None) (\<lambda>vl.
         bind_res (require_int (m ''horizontal_samples'') (lit ''sensors.lidar.horizontal_samples'') None None) (\<lambda>hs.
         bind_res (require_float (m ''horizontal_fov_deg'') (lit ''sensors.lidar.horizontal_fov_deg'') None None False) (\<lambda>hf.
         bind_res (require_float (m ''min_range_m'') (lit ''sensors.lidar.min_range_m'') None None False) (\<lambda>lo.
         bind_res (require_float (m ''max_range_m'') (lit ''sensors.lidar.max_range_m'') None None False) (\<lambda>hi.
           mk_lidar_config (PInt vl) (PInt hs) (PFloat hf) (floats [fov ! 0, fov ! 1]) (PFloat lo) (PFloat hi)))))))))"

definition parse_sensors :: "planar \<Rightarrow> (pyval \<Rightarrow> msg) \<Rightarrow> pyval \<Rightarrow> (exc, sensor_document) res" where
  "parse_sensors pl shown v =
     bind_res (mapping_with shown v (map fst expected_sensor_parents @ [''lidar'']) (lit ''sensors'')) (\<lambda>m.
     bind_res (parse_mount pl shown (m ''lidar_front'') ''sensors.lidar_front'') (\<lambda>front.
     bind_res (parse_mount pl shown (m ''lidar_rear'') ''sensors.lidar_rear'') (\<lambda>rear.
     bind_res (parse_mount pl shown (m ''rtk_primary'') ''sensors.rtk_primary'') (\<lambda>primary.
     bind_res (parse_mount pl shown (m ''rtk_secondary'') ''sensors.rtk_secondary'') (\<lambda>secondary.
     bind_res (parse_mount pl shown (m ''imu'') ''sensors.imu'') (\<lambda>imu.
     bind_res (parse_lidar shown (m ''lidar'')) (\<lambda>lidar.
       mk_sensor_document pl
         (Instance \<lparr>sm_lidar_front = front, sm_lidar_rear = rear, sm_rtk_primary = primary, sm_rtk_secondary = secondary, sm_imu = imu\<rparr>)
         (Instance lidar))))))))"

definition parse_geometry :: "(pyval \<Rightarrow> msg) \<Rightarrow> pyval \<Rightarrow> msg \<Rightarrow> (exc, obstacle_geometry) res" where
  "parse_geometry shown v path =
     bind_res (mapping_with shown v [''shape'', ''half_extents''] path) (\<lambda>m.
     bind_res (require_choice (m ''shape'') (path @ lit ''.shape'') obstacle_shapes) (\<lambda>shape.
     bind_res (require_vector (m ''half_extents'') (path @ lit ''.half_extents'') 3 (Some half_extent_limit)) (\<lambda>he.
       rewrap value_kinds path (mk_obstacle_geometry shape (map PFloat he)))))"

definition parse_path :: "planar \<Rightarrow> (pyval \<Rightarrow> msg) \<Rightarrow> pyval \<Rightarrow> msg \<Rightarrow> (exc, obstacle_path) res" where
  "parse_path pl shown v path =
     bind_res (mapping_with shown v [''start_xy'', ''end_xy'', ''speed'', ''progress'', ''direction''] path) (\<lambda>m.
     bind_res (require_vector (m ''start_xy'') (path @ lit ''.start_xy'') 2 (Some world_limit)) (\<lambda>a.
     bind_res (require_vector (m ''end_xy'') (path @ lit ''.end_xy'') 2 (Some world_limit)) (\<lambda>b.
     bind_res (require_float (m ''speed'') (path @ lit ''.speed'') (Some (Fin 0)) (Some speed_limit) True) (\<lambda>speed.
     bind_res (require_float (m ''progress'') (path @ lit ''.progress'') (Some (Fin 0)) (Some (Fin 1)) False) (\<lambda>progress.
     bind_res (require_int (m ''direction'') (path @ lit ''.direction'') (Some (- 1)) (Some 1)) (\<lambda>direction.
       rewrap value_kinds path
         (mk_obstacle_path pl (map PFloat a) (map PFloat b) (PFloat speed) (PFloat progress) (PInt direction))))))))"

definition parse_optional_path :: "planar \<Rightarrow> (pyval \<Rightarrow> msg) \<Rightarrow> pyval \<Rightarrow> msg \<Rightarrow> (exc, obstacle_path option) res" where
  "parse_optional_path pl shown v path =
     (if v = PNone then Inr None else bind_res (parse_path pl shown v path) (\<lambda>p. Inr (Some p)))"

definition parse_obstacle :: "planar \<Rightarrow> (pyval \<Rightarrow> msg) \<Rightarrow> pyval \<Rightarrow> nat \<Rightarrow> (exc, obstacle_spec) res" where
  "parse_obstacle pl shown v i =
     (let path = obstacle_label i in
      bind_res (mapping_with shown v [''logical_id'', ''mode'', ''geometry'', ''position'', ''orientation'', ''path''] path) (\<lambda>m.
      bind_res (require_int (m ''logical_id'') (path @ lit ''.logical_id'') (Some 1) (Some int32_max)) (\<lambda>n.
      bind_res (require_choice (m ''mode'') (path @ lit ''.mode'') [''static'', ''moving'']) (\<lambda>md.
      bind_res (parse_geometry shown (m ''geometry'') (path @ lit ''.geometry'')) (\<lambda>g.
      bind_res (require_vector (m ''position'') (path @ lit ''.position'') 3 (Some world_limit)) (\<lambda>ps.
      bind_res (require_quaternion pl (m ''orientation'') (path @ lit ''.orientation'')) (\<lambda>q.
      bind_res (parse_optional_path pl shown (m ''path'') (path @ lit ''.path'')) (\<lambda>p.
        rewrap value_kinds path
          (mk_obstacle_spec pl (PInt n) md (Instance g) (map PFloat ps) (map PFloat q) (map_option Instance p))))))))))"

definition parse_terrain :: "(pyval \<Rightarrow> msg) \<Rightarrow> pyval \<Rightarrow> (exc, terrain_document) res" where
  "parse_terrain shown v =
     bind_res (mapping_with shown v [''terrain_model'', ''slope_deg'', ''golf_seed'', ''golf_relief''] (lit ''terrain'')) (\<lambda>m.
     bind_res (require_choice (m ''terrain_model'') (lit ''terrain_model'') terrain_model_names) (\<lambda>model.
     bind_res (require_float (m ''slope_deg'') (lit ''slope_deg'') None None False) (\<lambda>slope.
     bind_res (require_int (m ''golf_seed'') (lit ''golf_seed'') None None) (\<lambda>seed.
     bind_res (require_choice (m ''golf_relief'') (lit ''golf_relief'') relief_levels) (\<lambda>relief.
       mk_terrain_document (PStr model) (PFloat slope) (PInt seed) (PStr relief))))))"

definition scene_keys :: "string list" where
  "scene_keys = [''schema_version'', ''robot'', ''terrain'', ''obstacles'', ''sensors'']"

definition parse_scene :: "planar \<Rightarrow> (pyval \<Rightarrow> msg) \<Rightarrow> pyval \<Rightarrow> (exc, scene_document) res" where
  \<comment> \<open>\<^verbatim>\<open>scene_document_from_mapping\<close> after the walk over the containers\<close>
  "parse_scene pl shown v =
     bind_res (require_mapping v (lit ''scene'')) (\<lambda>d.
     bind_res (if has_key d ''schema_version'' then Inr () else require_exact_keys shown d scene_keys (lit ''scene'')) (\<lambda>_.
     bind_res (require_int (item_at d ''schema_version'') (lit ''schema_version'') None None) (\<lambda>version.
     ensure (version = 1) (Exc ValueErr [Lit ''unsupported schema_version '', IntRepr version])
     (bind_res (require_exact_keys shown d scene_keys (lit ''scene'')) (\<lambda>_.
      bind_res (mapping_with shown (item_at d ''robot'') [''model''] (lit ''robot'')) (\<lambda>robot.
      bind_res (require_text (robot ''model'') (lit ''robot_model'')) (\<lambda>model.
      bind_res (parse_terrain shown (item_at d ''terrain'')) (\<lambda>terrain.
      bind_res (require_sequence (item_at d ''obstacles'') (lit ''obstacles'')) (\<lambda>items.
      bind_res (map_res (\<lambda>(i, x). parse_obstacle pl shown x i) (enumerate 0 items)) (\<lambda>obstacles.
      bind_res (parse_sensors pl shown (item_at d ''sensors'')) (\<lambda>sensors.
        mk_scene_document pl (PInt version) (PStr model) (Instance terrain) (Instance (map Instance obstacles)) (Instance sensors))))))))))))"

definition scene_document_from_mapping :: "planar \<Rightarrow> (pyval \<Rightarrow> msg) \<Rightarrow> yaml_heap \<Rightarrow> yaml_item \<Rightarrow> (exc, scene_document) res" where
  \<comment> \<open>no parser looks deeper than the containers a graph may have\<close>
  "scene_document_from_mapping pl shown h v =
     bind_res (validate_yaml_tree h v) (\<lambda>_. parse_scene pl shown (unfolded h (Suc max_yaml_containers) v))"

subsection \<open>Printing\<close>

abbreviation float_list :: "pyfloat list \<Rightarrow> pyval" where
  "float_list xs \<equiv> PList (map PFloat xs)"

definition named_dict :: "(string \<times> pyval) list \<Rightarrow> pyval" where
  "named_dict kvs = PDict (map (\<lambda>(k, v). (PStr k, v)) kvs)"

definition mount_to_mapping :: "mount_pose \<Rightarrow> pyval" where
  "mount_to_mapping m =
     named_dict [(''parent_link'', PStr (mp_parent_link m)), (''position'', float_list (mp_position m)),
       (''orientation'', float_list (mp_orientation m))]"

definition path_to_mapping :: "obstacle_path \<Rightarrow> pyval" where
  "path_to_mapping p =
     named_dict [(''start_xy'', float_list [fst (op_start_xy p), snd (op_start_xy p)]),
       (''end_xy'', float_list [fst (op_end_xy p), snd (op_end_xy p)]), (''speed'', PFloat (op_speed p)),
       (''progress'', PFloat (op_progress p)), (''direction'', PInt (op_direction p))]"

definition obstacle_to_mapping :: "obstacle_spec \<Rightarrow> pyval" where
  "obstacle_to_mapping s =
     named_dict [(''logical_id'', PInt (os_logical_id s)), (''mode'', PStr (os_mode s)),
       (''geometry'', named_dict [(''shape'', PStr (og_shape (os_geometry s))),
          (''half_extents'', float_list (og_half_extents (os_geometry s)))]),
       (''position'', float_list (os_position s)), (''orientation'', float_list (os_orientation s)),
       (''path'', case os_path s of None \<Rightarrow> PNone | Some p \<Rightarrow> path_to_mapping p)]"

definition lidar_to_mapping :: "lidar_config \<Rightarrow> pyval" where
  "lidar_to_mapping c =
     named_dict [(''vertical_lines'', PInt (lc_vertical_lines c)), (''horizontal_samples'', PInt (lc_horizontal_samples c)),
       (''horizontal_fov_deg'', PFloat (lc_horizontal_fov_deg c)),
       (''vertical_fov_deg'', float_list [fst (lc_vertical_fov_deg c), snd (lc_vertical_fov_deg c)]),
       (''min_range_m'', PFloat (lc_min_range_m c)), (''max_range_m'', PFloat (lc_max_range_m c))]"

definition terrain_to_mapping :: "terrain_document \<Rightarrow> pyval" where
  "terrain_to_mapping t =
     named_dict [(''terrain_model'', PStr (td_model t)), (''slope_deg'', PFloat (td_slope_deg t)),
       (''golf_seed'', PInt (td_golf_seed t)), (''golf_relief'', PStr (td_golf_relief t))]"

definition document_mapping :: "scene_document \<Rightarrow> pyval" where
  "document_mapping d =
     named_dict [(''schema_version'', PInt (doc_schema_version d)), (''robot'', named_dict [(''model'', PStr (doc_robot_model d))]),
       (''terrain'', terrain_to_mapping (doc_terrain d)), (''obstacles'', PList (map obstacle_to_mapping (doc_obstacles d))),
       (''sensors'', named_dict (map (\<lambda>(name, m). (name, mount_to_mapping m)) (named_mounts (sd_mounts (doc_sensors d)))
          @ [(''lidar'', lidar_to_mapping (sd_lidar (doc_sensors d)))]))]"

definition document_to_mapping :: "scene_document inst \<Rightarrow> (exc, pyval) res" where
  "document_to_mapping document =
     (case document of
        Foreign \<Rightarrow> Inl (value_error ''document must be a SceneDocument'')
      | Instance d \<Rightarrow> Inr (document_mapping d))"

subsection \<open>What was printed is read back\<close>

lemma map_of_named: "map_of (map (\<lambda>(k, v). (PStr k, v)) kvs) (PStr k) = map_of kvs k"
  by (induction kvs) auto

lemma mapping_with_named:
  assumes "map fst kvs = keys"
  shows "mapping_with shown (named_dict kvs) keys path = Inr (\<lambda>k. the (map_of kvs k))"
proof -
  let ?d = "map (\<lambda>(k, v). (PStr k, v)) kvs"
  have keys: "map fst ?d = map PStr keys" using assms by (auto simp: o_def split_def)
  have all: "filter (\<lambda>k. k \<notin> set (map PStr keys)) (map fst ?d) = []" "filter (\<lambda>k. \<not> has_key ?d k) keys = []"
    unfolding has_key_def keys by (auto simp: filter_empty_conv)
  have "require_exact_keys shown ?d keys path = Inr ()" unfolding require_exact_keys_def Let_def all by simp
  then show ?thesis by (simp add: mapping_with_def require_mapping_def named_dict_def item_at_def [abs_def] map_of_named)
qed

lemma require_vector_list: "require_vector (float_list xs) path n limit = require_vector (floats xs) path n limit"
  by (simp add: require_vector_def require_sequence_def)

lemma require_vector_list_within: "vector_within n b xs \<Longrightarrow> require_vector (float_list xs) path n (Some b) = Inr xs"
  by (simp only: require_vector_list require_vector_floats)

lemma require_vector_list_free: "length xs = n \<Longrightarrow> list_all f_isfinite xs \<Longrightarrow> require_vector (float_list xs) path n None = Inr xs"
  by (simp add: require_vector_def require_sequence_def require_float_plain floats_checked [THEN iffD2])

lemma require_quaternion_list:
  assumes "length q = 4" "list_all f_isfinite q" "f_isfinite (pl_hypot pl q)" "\<not> f_le (pl_hypot pl q) norm_epsilon" "scaled pl q = q"
  shows "require_quaternion pl (float_list q) path = Inr q"
  using assms by (simp add: require_quaternion_def require_vector_list_free)

lemma normalize_quaternion_floats:
  "normalize_quaternion pl (floats q) = Inr q \<longleftrightarrow>
     length q = 4 \<and> list_all f_isfinite q \<and> f_isfinite (pl_hypot pl q) \<and> \<not> f_le (pl_hypot pl q) norm_epsilon \<and> scaled pl q = q"
  by (auto simp: normalize_quaternion_def pose_vector_def res_simps floats_checked Let_def)

lemma normalize_orientation_floats:
  "normalize_orientation pl (map PFloat q) = Inr q \<longleftrightarrow>
     length q = 4 \<and> list_all f_isfinite q \<and> f_isfinite (pl_hypot pl q) \<and> \<not> f_le (pl_hypot pl q) norm_epsilon \<and> scaled pl q = q"
  by (auto simp: normalize_orientation_scaled ob_finite_vector_def res_simps floats_checked)

lemma rebuild_mount_parts:
  assumes "rebuild_mount pl m = Inr m"
  shows "mp_parent_link m \<noteq> []" "normalize_quaternion pl (floats (mp_orientation m)) = Inr (mp_orientation m)"
  using assms by (cases m; auto simp: rebuild_mount_def mk_mount_pose_def res_simps split: option.splits if_splits)+

lemma mount_round_trip:
  assumes "rebuild_mount pl m = Inr m" and "vector_within 3 (Fin 100) (mp_position m)"
  shows "parse_mount pl shown (mount_to_mapping m) path = Inr m"
proof -
  note parts = rebuild_mount_parts [OF assms(1)]
  have "require_quaternion pl (float_list (mp_orientation m)) p = Inr (mp_orientation m)" for p
    using parts(2) unfolding normalize_quaternion_floats by (intro require_quaternion_list) blast+
  then show ?thesis
    using parts(1) assms(1) require_vector_list_within [OF assms(2)]
    by (simp add: parse_mount_def mount_to_mapping_def mapping_with_named require_text_Inr [THEN iffD2] rebuild_mount_def)
qed

lemma lidar_round_trip:
  assumes "rebuild_lidar c = Inr c"
  shows "parse_lidar shown (lidar_to_mapping c) = Inr c"
proof -
  have fin: "f_isfinite (lc_horizontal_fov_deg c)" "f_isfinite (lc_min_range_m c)" "f_isfinite (lc_max_range_m c)"
    "f_isfinite (fst (lc_vertical_fov_deg c))" "f_isfinite (snd (lc_vertical_fov_deg c))"
    using assms by (auto simp: rebuild_lidar_def mk_lidar_config_def res_simps vertical_fov_def ob_finite_float_PFloat)
  have fov: "require_vector (float_list [fst (lc_vertical_fov_deg c), snd (lc_vertical_fov_deg c)]) p 2 None
      = Inr [fst (lc_vertical_fov_deg c), snd (lc_vertical_fov_deg c)]" for p
    by (rule require_vector_list_free) (simp_all add: fin)
  show ?thesis
    using assms fin fov
    by (simp add: parse_lidar_def lidar_to_mapping_def lidar_keys_def mapping_with_named require_int_def require_float_plain
        ob_finite_float_PFloat [THEN iffD2] rebuild_lidar_def)
qed

lemma sensors_parts:
  assumes "rebuild_sensors pl s = Inr s"
  shows "(name, m) \<in> set (named_mounts (sd_mounts s)) \<Longrightarrow> rebuild_mount pl m = Inr m \<and> vector_within 3 (Fin 100) (mp_position m)"
    and "rebuild_lidar (sd_lidar s) = Inr (sd_lidar s)"
proof -
  from assms obtain us where s: "rebuild_mounts pl (Instance (sd_mounts s)) = Inr (sd_mounts s)"
    "rebuild_lidar_config (Instance (sd_lidar s)) = Inr (sd_lidar s)" "map_res check_mount (named_mounts (sd_mounts s)) = Inr us"
    by (cases s) (auto simp: rebuild_sensors_def mk_sensor_document_def res_simps)
  from s(2) show "rebuild_lidar (sd_lidar s) = Inr (sd_lidar s)" by (simp add: rebuild_lidar_config_def)
  assume m: "(name, m) \<in> set (named_mounts (sd_mounts s))"
  then have "rebuild_mount pl m = Inr m" using s(1) by (auto simp: rebuild_mounts_Instance named_mounts_def)
  moreover obtain i where i: "i < length (named_mounts (sd_mounts s))" "named_mounts (sd_mounts s) ! i = (name, m)"
    using m by (auto simp: in_set_conv_nth)
  then have "check_mount (name, m) = Inr (us ! i)" using map_res_nth [OF s(3) i(1)] by simp
  then have "vector_within 3 (Fin 100) (mp_position m)"
    by (auto simp: check_mount_def res_simps Let_def require_vector_floats)
  ultimately show "rebuild_mount pl m = Inr m \<and> vector_within 3 (Fin 100) (mp_position m)" by blast
qed

lemma sensors_round_trip:
  assumes "rebuild_sensors pl s = Inr s"
  shows "parse_sensors pl shown (named_dict (map (\<lambda>(name, m). (name, mount_to_mapping m)) (named_mounts (sd_mounts s))
    @ [(''lidar'', lidar_to_mapping (sd_lidar s))])) = Inr s"
proof -
  have "parse_mount pl shown (mount_to_mapping m) path = Inr m" if "(name, m) \<in> set (named_mounts (sd_mounts s))" for name m path
    using sensors_parts(1) [OF assms that] by (intro mount_round_trip) auto
  from this [unfolded named_mounts_def, simplified]
  have mounts: "parse_mount pl shown (mount_to_mapping (sm_lidar_front (sd_mounts s))) path = Inr (sm_lidar_front (sd_mounts s))"
    "parse_mount pl shown (mount_to_mapping (sm_lidar_rear (sd_mounts s))) path = Inr (sm_lidar_rear (sd_mounts s))"
    "parse_mount pl shown (mount_to_mapping (sm_rtk_primary (sd_mounts s))) path = Inr (sm_rtk_primary (sd_mounts s))"
    "parse_mount pl shown (mount_to_mapping (sm_rtk_secondary (sd_mounts s))) path = Inr (sm_rtk_secondary (sd_mounts s))"
    "parse_mount pl shown (mount_to_mapping (sm_imu (sd_mounts s))) path = Inr (sm_imu (sd_mounts s))" for path
    by blast+
  let ?again = "\<lparr>sm_lidar_front = sm_lidar_front (sd_mounts s), sm_lidar_rear = sm_lidar_rear (sd_mounts s),
    sm_rtk_primary = sm_rtk_primary (sd_mounts s), sm_rtk_secondary = sm_rtk_secondary (sd_mounts s), sm_imu = sm_imu (sd_mounts s)\<rparr>"
  have same: "?again = sd_mounts s" by (cases "sd_mounts s") simp
  have "parse_sensors pl shown (named_dict (map (\<lambda>(name, m). (name, mount_to_mapping m)) (named_mounts (sd_mounts s))
      @ [(''lidar'', lidar_to_mapping (sd_lidar s))])) = mk_sensor_document pl (Instance ?again) (Instance (sd_lidar s))"
    using lidar_round_trip [OF sensors_parts(2) [OF assms], of shown]
    by (simp add: parse_sensors_def named_mounts_def expected_sensor_parents_def mapping_with_named mounts)
  also have "\<dots> = Inr s" using assms unfolding same rebuild_sensors_def .
  finally show ?thesis .
qed

lemma geometry_round_trip:
  assumes "mk_obstacle_geometry (og_shape g) (map PFloat (og_half_extents g)) = Inr g"
    and "vector_within 3 half_extent_limit (og_half_extents g)"
  shows "parse_geometry shown (named_dict [(''shape'', PStr (og_shape g)), (''half_extents'', float_list (og_half_extents g))]) path = Inr g"
proof -
  have "lower_choice ''shape'' (og_shape g) obstacle_shapes = Inr (og_shape g)"
    using assms(1) by (cases g) (auto simp: mk_obstacle_geometry_def res_simps)
  then have "py_lower (og_shape g) = og_shape g" "og_shape g \<in> set obstacle_shapes"
    by (auto simp: lower_choice_def res_simps Let_def)
  then have "require_choice (PStr (og_shape g)) p obstacle_shapes = Inr (og_shape g)" for p
    by (auto simp: require_choice_Inr obstacle_shapes_def)
  then show ?thesis
    using assms by (simp add: parse_geometry_def mapping_with_named require_vector_list_within)
qed

lemma path_round_trip:
  assumes p: "rebuild_path pl p = Inr p" and a: "vector_within 2 world_limit [fst (op_start_xy p), snd (op_start_xy p)]"
    and b: "vector_within 2 world_limit [fst (op_end_xy p), snd (op_end_xy p)]"
    and v: "f_isfinite (op_speed p)" "\<not> f_lt (op_speed p) (Fin 0)" "\<not> f_lt speed_limit (op_speed p)"
  shows "parse_path pl shown (path_to_mapping p) path = Inr p"
proof -
  from p have q: "f_isfinite (op_progress p)" "\<not> f_lt (op_progress p) f_zero" "\<not> f_lt (fl 1) (op_progress p)"
    "op_direction p = - 1 \<or> op_direction p = 1"
    by (cases p; auto simp: rebuild_path_def mk_obstacle_path_def res_simps ob_finite_float_PFloat ob_integral_def)+
  have "require_float (PFloat (op_speed p)) w (Some (Fin 0)) (Some speed_limit) True = Inr (op_speed p)" for w
    using v by (simp add: require_float_def ob_finite_float_PFloat [THEN iffD2])
  moreover have "require_float (PFloat (op_progress p)) w (Some (Fin 0)) (Some (Fin 1)) False = Inr (op_progress p)" for w
    using q by (simp add: require_float_def ob_finite_float_PFloat [THEN iffD2])
  moreover have "require_int (PInt (op_direction p)) w (Some (- 1)) (Some 1) = Inr (op_direction p)" for w
    using q by (auto simp: require_int_def)
  ultimately show ?thesis
    using p require_vector_list_within [OF a] require_vector_list_within [OF b]
    by (simp add: parse_path_def path_to_mapping_def mapping_with_named rebuild_path_def)
qed

lemma obstacle_round_trip:
  assumes "validate_obstacle_spec pl (Instance s) (obstacle_label i) = Inr s"
  shows "parse_obstacle pl shown (obstacle_to_mapping s) i = Inr s"
proof -
  from assms have s: "rebuild_spec pl s = Inr s" "check_scene_limits (obstacle_label i) s = Inr ()"
    by (auto simp: validate_obstacle_spec_def res_simps)
  note lim = s(2) [unfolded check_scene_limits_iff within_scene_limits_def]
  from s(1) have parts: "lower_choice ''mode'' (os_mode s) [''static'', ''moving''] = Inr (os_mode s)"
    "mk_obstacle_geometry (og_shape (os_geometry s)) (map PFloat (og_half_extents (os_geometry s))) = Inr (os_geometry s)"
    "normalize_orientation pl (map PFloat (os_orientation s)) = Inr (os_orientation s)"
    "\<And>p. os_path s = Some p \<Longrightarrow> rebuild_path pl p = Inr p"
    by (cases s; auto simp: rebuild_spec_def mk_obstacle_spec_def res_simps rebuild_path_def split: sum.splits option.splits)+
  have "require_int (PInt (os_logical_id s)) w (Some 1) (Some int32_max) = Inr (os_logical_id s)" for w
    using lim by (simp add: require_int_def)
  moreover have "py_lower (os_mode s) = os_mode s" "os_mode s \<in> set [''static'', ''moving'']"
    using parts(1) by (auto simp: lower_choice_def res_simps Let_def)
  then have "require_choice (PStr (os_mode s)) w [''static'', ''moving''] = Inr (os_mode s)" for w
    by (auto simp: require_choice_Inr)
  moreover have "require_quaternion pl (float_list (os_orientation s)) w = Inr (os_orientation s)" for w
    using parts(3) unfolding normalize_orientation_floats by (intro require_quaternion_list) blast+
  moreover have "require_vector (float_list (os_position s)) w 3 (Some world_limit) = Inr (os_position s)" for w
    using lim by (intro require_vector_list_within) blast
  moreover note geometry_round_trip [OF parts(2)]
  moreover have "parse_optional_path pl shown (case os_path s of None \<Rightarrow> PNone | Some p \<Rightarrow> path_to_mapping p) w = Inr (os_path s)" for w
  proof (cases "os_path s")
    case (Some p)
    then have "parse_path pl shown (path_to_mapping p) w = Inr p" using lim parts(4) by (intro path_round_trip) auto
    moreover have "path_to_mapping p \<noteq> PNone" by (simp add: path_to_mapping_def named_dict_def)
    ultimately show ?thesis using Some by (simp add: parse_optional_path_def)
  qed (simp add: parse_optional_path_def)
  ultimately show ?thesis
    using lim s(1) by (simp add: parse_obstacle_def obstacle_to_mapping_def mapping_with_named rebuild_spec_def Let_def)
qed

lemma terrain_round_trip:
  assumes "rebuild_terrain t = Inr t"
  shows "parse_terrain shown (terrain_to_mapping t) = Inr t"
proof -
  from assms have t: "require_choice (PStr (td_model t)) (lit ''terrain_model'') terrain_model_names = Inr (td_model t)"
    "require_float (PFloat (td_slope_deg t)) (lit ''slope_deg'') (Some (Fin (- 30))) (Some (Fin 30)) True = Inr (td_slope_deg t)"
    "require_choice (PStr (td_golf_relief t)) (lit ''golf_relief'') relief_levels = Inr (td_golf_relief t)"
    by (cases t; auto simp: rebuild_terrain_def mk_terrain_document_def bind_res_Inr_iff)+
  then have "f_isfinite (td_slope_deg t)" by (auto simp: require_float_def res_simps ob_finite_float_PFloat)
  then show ?thesis
    using t assms by (simp add: parse_terrain_def terrain_to_mapping_def mapping_with_named require_float_plain
        ob_finite_float_PFloat [THEN iffD2] require_int_def [of _ _ None None] rebuild_terrain_def)
qed

lemma document_round_trip:
  assumes "document_ok pl d"
  shows "parse_scene pl shown (document_mapping d) = Inr d"
proof -
  let ?kvs = "[(''schema_version'', PInt (doc_schema_version d)), (''robot'', named_dict [(''model'', PStr (doc_robot_model d))]),
     (''terrain'', terrain_to_mapping (doc_terrain d)), (''obstacles'', PList (map obstacle_to_mapping (doc_obstacles d))),
     (''sensors'', named_dict (map (\<lambda>(name, m). (name, mount_to_mapping m)) (named_mounts (sd_mounts (doc_sensors d)))
        @ [(''lidar'', lidar_to_mapping (sd_lidar (doc_sensors d)))]))]"
  define D where "D = map (\<lambda>(k, v). (PStr k, v)) ?kvs"
  have d: "doc_schema_version d = 1" "doc_robot_model d \<noteq> []" "rebuild_terrain (doc_terrain d) = Inr (doc_terrain d)"
    "rebuild_sensors pl (doc_sensors d) = Inr (doc_sensors d)" "file_obstacles pl (doc_obstacles d)"
    using assms by (auto simp: document_ok_def)
  have map: "require_mapping (document_mapping d) w = Inr D" for w
    by (simp add: document_mapping_def named_dict_def require_mapping_def D_def)
  have keys: "require_exact_keys shown D scene_keys w = Inr ()" "has_key D ''schema_version''" for w
    by (simp_all add: require_exact_keys_def scene_keys_def has_key_def D_def)
  have items: "item_at D ''schema_version'' = PInt 1" "item_at D ''robot'' = named_dict [(''model'', PStr (doc_robot_model d))]"
    "item_at D ''terrain'' = terrain_to_mapping (doc_terrain d)"
    "item_at D ''obstacles'' = PList (map obstacle_to_mapping (doc_obstacles d))"
    "item_at D ''sensors'' = named_dict (map (\<lambda>(name, m). (name, mount_to_mapping m)) (named_mounts (sd_mounts (doc_sensors d)))
        @ [(''lidar'', lidar_to_mapping (sd_lidar (doc_sensors d)))])"
    unfolding D_def item_at_def map_of_named by (simp_all add: d(1))
  have obs: "map_res (\<lambda>(i, x). parse_obstacle pl shown x i) (enumerate 0 (map obstacle_to_mapping (doc_obstacles d))) = Inr (doc_obstacles d)"
    using d(5) by (intro map_res_again) (auto simp: file_obstacles_def list_all_length intro!: obstacle_round_trip)
  show ?thesis
    using document_ok_rebuilds [OF assms] d(2) terrain_round_trip [OF d(3), of shown] sensors_round_trip [OF d(4), of shown] obs
    by (simp add: parse_scene_def map keys items mapping_with_named require_text_Inr [THEN iffD2] require_int_def require_sequence_def)
qed

subsection \<open>What the walk over the containers accepts\<close>

definition children :: "yaml_heap \<Rightarrow> nat \<Rightarrow> nat set" where
  "children h a = {b. \<exists>(k, v) \<in> set (yaml_children (h a)). k = Container b \<or> v = Container b}"

abbreviation inside :: "yaml_heap \<Rightarrow> nat \<Rightarrow> nat \<Rightarrow> bool" where
  "inside h b a \<equiv> b \<in> children h a"

definition walked :: "yaml_heap \<Rightarrow> nat list \<Rightarrow> nat list \<Rightarrow> bool" where
  \<comment> \<open>a container that is done has only containers that are done inside, down to the leaves\<close>
  "walked h active seen \<longleftrightarrow>
     set active \<subseteq> set seen \<and> distinct seen \<and> length seen \<le> max_yaml_containers
     \<and> (\<forall>a\<in>set seen - set active. Wellfounded.accp (inside h) a \<and> children h a \<subseteq> set seen - set active)"

definition item_done :: "nat list \<Rightarrow> nat list \<Rightarrow> yaml_item \<Rightarrow> bool" where
  "item_done active seen item \<longleftrightarrow> (case item of Leaf v \<Rightarrow> True | Container a \<Rightarrow> a \<in> set seen - set active)"

lemma item_done_mono: "item_done active seen item \<Longrightarrow> set seen \<subseteq> set seen' \<Longrightarrow> item_done active seen' item"
  by (auto simp: item_done_def split: yaml_item.splits)

lemma visit_pairs_walked:
  assumes visit: "\<And>item seen seen'. visit item seen = (Inr (), seen') \<Longrightarrow> walked h active seen \<Longrightarrow>
      walked h active seen' \<and> set seen \<subseteq> set seen' \<and> item_done active seen' item"
    and run: "visit_pairs visit kvs seen = (Inr (), seen')" and w: "walked h active seen"
  shows "walked h active seen' \<and> set seen \<subseteq> set seen' \<and> (\<forall>(k, v)\<in>set kvs. item_done active seen' k \<and> item_done active seen' v)"
  using run w
proof (induction kvs arbitrary: seen)
  case (Cons kv kvs)
  obtain k v where kv: "kv = (k, v)" by fastforce
  from Cons.prems(1) obtain s1 s2 where s1: "visit k seen = (Inr (), s1)" and s2: "visit v s1 = (Inr (), s2)"
    and rest: "visit_pairs visit kvs s2 = (Inr (), seen')"
    by (auto simp: kv bind_op_def split: prod.splits sum.splits)
  note 1 = visit [OF s1 Cons.prems(2)]
  note 2 = visit [OF s2 conjunct1 [OF 1]]
  note 3 = Cons.IH [OF rest conjunct1 [OF 2]]
  from 1 2 3 show ?case by (auto simp: kv intro: item_done_mono)
qed simp

lemma visit_item_walked:
  assumes "visit_item h n active item seen = (Inr (), seen')" and "walked h active seen"
  shows "walked h active seen' \<and> set seen \<subseteq> set seen' \<and> item_done active seen' item"
  using assms
proof (induction n arbitrary: active item seen seen')
  case (Suc n)
  show ?case
  proof (cases item)
    case (Leaf v)
    with Suc.prems show ?thesis by (simp add: item_done_def)
  next
    case (Container a)
    show ?thesis
    proof (cases "a \<in> set seen")
      case True
      with Suc.prems Container show ?thesis by (auto simp: item_done_def split: if_splits)
    next
      case False
      with Suc.prems Container have a: "a \<notin> set active" "length (a # seen) \<le> max_yaml_containers"
        and run: "visit_pairs (visit_item h n (a # active)) (yaml_children (h a)) (a # seen) = (Inr (), seen')"
        by (auto split: if_splits)
      have "walked h (a # active) (a # seen)" using Suc.prems(2) False a by (auto simp: walked_def)
      from visit_pairs_walked [OF Suc.IH run this] have w: "walked h (a # active) seen'" "set (a # seen) \<subseteq> set seen'"
        and kids: "children h a \<subseteq> set seen' - set (a # active)"
        by (auto simp: children_def item_done_def)
      have "Wellfounded.accp (inside h) b" if "inside h b a" for b using that w(1) kids unfolding walked_def by blast
      then have "Wellfounded.accp (inside h) a" by (rule accp.accI)
      with w kids a(1) have "walked h active seen'" by (auto simp: walked_def)
      with w(2) a(1) Container show ?thesis by (auto simp: item_done_def)
    qed
  qed
qed simp

lemma validate_yaml_tree_walked:
  assumes "validate_yaml_tree h (Container r) = Inr ()"
  shows "\<exists>seen. walked h [] seen \<and> r \<in> set seen"
proof -
  obtain seen where "visit_item h (Suc max_yaml_depth) [] (Container r) [] = (Inr (), seen)"
    using assms unfolding validate_yaml_tree_def by (metis prod.collapse)
  from visit_item_walked [OF this] show ?thesis by (auto simp: walked_def item_done_def)
qed

definition containers_of :: "yaml_heap \<Rightarrow> nat \<Rightarrow> nat set" where
  \<comment> \<open>the container and all containers inside it\<close>
  "containers_of h r = {a. (inside h)\<^sup>*\<^sup>* a r}"

lemma containers_of_walked: "walked h [] seen \<Longrightarrow> r \<in> set seen \<Longrightarrow> containers_of h r \<subseteq> set seen"
proof
  fix a assume w: "walked h [] seen" "r \<in> set seen" and "a \<in> containers_of h r"
  then have "(inside h)\<^sup>*\<^sup>* a r" by (simp add: containers_of_def)
  then show "a \<in> set seen" using w by (induction rule: converse_rtranclp_induct) (auto simp: walked_def)
qed

lemma accp_acyclic:
  assumes "Wellfounded.accp r a"
  shows "\<not> r\<^sup>+\<^sup>+ a a"
  using assms
proof (induction rule: accp.induct)
  case (accI a)
  show ?case
  proof
    assume cycle: "r\<^sup>+\<^sup>+ a a"
    then obtain b where b: "r\<^sup>*\<^sup>* a b" "r b a" by (cases rule: tranclp.cases) (auto dest: tranclp_into_rtranclp)
    then have "r\<^sup>+\<^sup>+ b b" using cycle by (meson rtranclp_into_tranclp2 tranclp_rtranclp_tranclp)
    with accI(2) [OF b(2)] show False by blast
  qed
qed

lemma accepted_yaml_is_finite:
  assumes "validate_yaml_tree h (Container r) = Inr ()"
  shows "finite (containers_of h r) \<and> card (containers_of h r) \<le> max_yaml_containers
    \<and> (\<forall>a\<in>containers_of h r. \<not> (inside h)\<^sup>+\<^sup>+ a a)"
proof -
  obtain seen where w: "walked h [] seen" "r \<in> set seen" using validate_yaml_tree_walked [OF assms] by blast
  note sub = containers_of_walked [OF w]
  from w(1) have few: "card (set seen) \<le> max_yaml_containers" by (simp add: walked_def distinct_card)
  have "\<not> (inside h)\<^sup>+\<^sup>+ a a" if "a \<in> containers_of h r" for a
    using sub w that by (intro accp_acyclic) (auto simp: walked_def)
  with few sub show ?thesis by (auto intro: finite_subset order_trans [OF card_mono])
qed

subsection \<open>The depth of the parser is enough\<close>

lemma containers_of_child: "inside h b a \<Longrightarrow> containers_of h b \<subseteq> containers_of h a"
  unfolding containers_of_def using rtranclp.rtrancl_into_rtrancl [of "inside h" _ b a] by blast

lemma inside_simps:
  "h a = YMapping kvs \<Longrightarrow> (Container b, v) \<in> set kvs \<Longrightarrow> inside h b a"
  "h a = YMapping kvs \<Longrightarrow> (k, Container b) \<in> set kvs \<Longrightarrow> inside h b a"
  "h a = YSequence xs \<Longrightarrow> Container b \<in> set xs \<Longrightarrow> inside h b a"
proof -
  show "h a = YMapping kvs \<Longrightarrow> (Container b, v) \<in> set kvs \<Longrightarrow> inside h b a"
    "h a = YMapping kvs \<Longrightarrow> (k, Container b) \<in> set kvs \<Longrightarrow> inside h b a"
    by (force simp: children_def)+
  assume a: "h a = YSequence xs" "Container b \<in> set xs"
  then obtain i where "i < length xs" "xs ! i = Container b" by (auto simp: in_set_conv_nth)
  then have "(i, Container b) \<in> set (enumerate 0 xs)" by (simp add: in_set_enumerate_eq)
  with a(1) show "inside h b a" by (force simp: children_def)
qed

lemma unfolded_stable:
  assumes "Wellfounded.accp (inside h) a" and "finite (containers_of h a)"
    and "card (containers_of h a) \<le> n" "card (containers_of h a) \<le> m"
  shows "unfolded h n (Container a) = unfolded h m (Container a)"
  using assms
proof (induction a arbitrary: n m rule: accp.induct)
  case (accI a)
  have self: "a \<in> containers_of h a" by (simp add: containers_of_def)
  with accI.prems have "0 < card (containers_of h a)" by (auto simp: card_gt_0_iff)
  with accI.prems obtain n' m' where nm: "n = Suc n'" "m = Suc m'" by (cases n; cases m) auto
  have child: "unfolded h n' (Container b) = unfolded h m' (Container b)" if b: "inside h b a" for b
  proof -
    have "a \<notin> containers_of h b"
    proof
      assume "a \<in> containers_of h b"
      then have "(inside h)\<^sup>*\<^sup>* a b" by (simp add: containers_of_def)
      then have "(inside h)\<^sup>+\<^sup>+ b b" using b by (meson rtranclp_into_tranclp2 tranclp_rtranclp_tranclp)
      moreover have "\<not> (inside h)\<^sup>+\<^sup>+ b b" using accI.hyps(1) [OF b] by (rule accp_acyclic)
      ultimately show False by blast
    qed
    then have less: "containers_of h b \<subset> containers_of h a" using containers_of_child [OF b] self by blast
    then have "card (containers_of h b) < card (containers_of h a)" using accI.prems(1) by (rule psubset_card_mono [rotated])
    with less accI.prems nm show ?thesis by (intro accI.IH [OF b]) (auto intro: finite_subset)
  qed
  have item: "unfolded h n' x = unfolded h m' x" if "\<And>b. x = Container b \<Longrightarrow> inside h b a" for x
    using child that by (cases x) (auto, (cases n'; cases m'; simp)+)
  show ?case
    unfolding nm by (cases "h a") (auto intro!: item intro: inside_simps)
qed

subsection \<open>A shared alias and the depth limit\<close>

text \<open>
  A container that was seen is not walked again, whatever the depth it is met at: a graph may be accepted that
  is nested deeper than the limit along an alias.
\<close>

primrec yaml_depth :: "yaml_heap \<Rightarrow> nat \<Rightarrow> yaml_item \<Rightarrow> nat" where
  \<comment> \<open>the containers on the longest way down, up to a bound\<close>
  "yaml_depth h 0 item = 0"
| "yaml_depth h (Suc n) item =
     (case item of
        Leaf v \<Rightarrow> 0
      | Container a \<Rightarrow> Suc (fold (\<lambda>(k, v) m. max m (max (yaml_depth h n k) (yaml_depth h n v))) (yaml_children (h a)) 0))"

definition two_chains :: yaml_heap where
  \<comment> \<open>a document of two lists of 40 levels, the second ending in an alias of the first\<close>
  "two_chains a =
     (if a = 0 then YSequence [Container 1, Container 41]
      else if a = 40 then YSequence [] else if a = 80 then YSequence [Container 1] else YSequence [Container (a + 1)])"

lemmas visit_item_numeral = visit_item.simps(2) [of _ "pred_numeral k" for k, folded numeral_eq_Suc]
lemmas yaml_depth_numeral = yaml_depth.simps(2) [of _ "pred_numeral k" for k, folded numeral_eq_Suc]

lemma two_chains_accepted: "validate_yaml_tree two_chains (Container 0) = Inr ()"
  by (simp add: validate_yaml_tree_def max_yaml_depth_def max_yaml_containers_def two_chains_def bind_op_def visit_item_numeral
    del: visit_item.simps(2))

lemma two_chains_depth: "yaml_depth two_chains 100 (Container 0) = 81"
  by (simp add: two_chains_def yaml_depth_numeral del: yaml_depth.simps(2))

lemma shared_alias_hides_depth:
  "validate_yaml_tree two_chains (Container 0) = Inr () \<and> yaml_depth two_chains 100 (Container 0) = 81 \<and> max_yaml_depth < 81"
  using two_chains_accepted two_chains_depth by (simp add: max_yaml_depth_def)

end
