(* ===== verification/SceneStorage.thy ===== *)
theory SceneStorage
  imports SceneFiles
begin

text \<open>
  Scene files on disk (\<^verbatim>\<open>dump_scene_atomic\<close> and \<^verbatim>\<open>load_scene\<close> of \<^verbatim>\<open>slope_sim/scene_config.py\<close>).  The YAML
  library is an argument; what is used of it is that a loaded text has the containers of the value that was
  dumped, each of them new.  The calls on the file system may fail, with or without effect.
\<close>

subsection \<open>Containers laid out anew\<close>

inductive lays :: "yaml_heap \<Rightarrow> yaml_item \<Rightarrow> pyval \<Rightarrow> nat list \<Rightarrow> bool"
  and lays_all :: "yaml_heap \<Rightarrow> yaml_item list \<Rightarrow> pyval list \<Rightarrow> nat list \<Rightarrow> bool"
  for h :: yaml_heap
where
  lays_leaf: "(\<forall>kvs. v \<noteq> PDict kvs) \<Longrightarrow> (\<forall>xs. v \<noteq> PList xs) \<Longrightarrow> lays h (Leaf v) v []"
| lays_list: "h a = YSequence items \<Longrightarrow> lays_all h items vs as \<Longrightarrow> lays h (Container a) (PList vs) (a # as)"
| lays_dict: "h a = YMapping (zip (map Leaf ks) items) \<Longrightarrow> length ks = length items \<Longrightarrow> lays_all h items vs as \<Longrightarrow>
    lays h (Container a) (PDict (zip ks vs)) (a # as)"
| lays_nil: "lays_all h [] [] []"
| lays_cons: "lays h item v as \<Longrightarrow> lays_all h items vs bs \<Longrightarrow> lays_all h (item # items) (v # vs) (as @ bs)"

inductive_cases lays_all_NilE: "lays_all h [] vs as"
inductive_cases lays_all_ConsE: "lays_all h (item # items) vs as"

fun value_depth :: "pyval \<Rightarrow> nat" where
  "value_depth (PDict kvs) = Suc (fold max (map (\<lambda>kv. value_depth (snd kv)) kvs) 0)"
| "value_depth (PList xs) = Suc (fold max (map value_depth xs) 0)"
| "value_depth _ = 0"

fun value_containers :: "pyval \<Rightarrow> nat" where
  "value_containers (PDict kvs) = Suc (sum_list (map (\<lambda>kv. value_containers (snd kv)) kvs))"
| "value_containers (PList xs) = Suc (sum_list (map value_containers xs))"
| "value_containers _ = 0"

lemma fold_max_less: "fold max (xs :: nat list) m < n \<longleftrightarrow> m < n \<and> (\<forall>x\<in>set xs. x < n)"
  by (induction xs arbitrary: m) (simp_all, blast)

lemma fold_max_le: "fold max (xs :: nat list) m \<le> n \<longleftrightarrow> m \<le> n \<and> (\<forall>x\<in>set xs. x \<le> n)"
  by (induction xs arbitrary: m) (simp_all, blast)

lemma map_snd_zip_value: "length ks = length vs \<Longrightarrow> map (\<lambda>kv. f (snd kv)) (zip ks vs) = map f vs"
  by (induction ks vs rule: list_induct2) auto

lemma lays_all_length: "lays_all h items vs as \<Longrightarrow> length items = length vs"
  by (induction items arbitrary: vs as) (auto elim: lays_all_NilE lays_all_ConsE)

lemma lays_count:
  "lays h item v as \<Longrightarrow> length as = value_containers v"
  "lays_all h items vs bs \<Longrightarrow> length bs = sum_list (map value_containers vs)"
proof (induction rule: lays_lays_all.inducts)
  case (lays_leaf v)
  then show ?case by (cases v) auto
next
  case (lays_dict a ks items vs as)
  have "length ks = length vs" using lays_all_length [OF lays_dict.IH(2)] lays_dict.hyps by simp
  then show ?case using lays_dict.IH(3) by (simp add: map_snd_zip_value)
qed auto

lemma yaml_children_keys: "yaml_children (YSequence items) = zip (map Leaf (map (\<lambda>i. PInt (int i)) [0..<length items])) items"
  by (simp add: enumerate_eq_zip zip_map1 o_def)

definition walks :: "nat list \<Rightarrow> (exc, nat list, unit) op \<Rightarrow> nat list \<Rightarrow> bool" where
  \<comment> \<open>the walk takes the new containers \<open>as\<close> into those seen\<close>
  "walks active f as \<longleftrightarrow>
     (\<forall>seen. set as \<inter> (set active \<union> set seen) = {} \<and> length seen + length as \<le> max_yaml_containers \<longrightarrow>
        (\<exists>seen'. f seen = (Inr (), seen') \<and> set seen' = set as \<union> set seen \<and> length seen' = length seen + length as))"

lemma walksE:
  assumes "walks active f as" and "set as \<inter> (set active \<union> set seen) = {}" and "length seen + length as \<le> max_yaml_containers"
  obtains seen' where "f seen = (Inr (), seen')" "set seen' = set as \<union> set seen" "length seen' = length seen + length as"
  using assms unfolding walks_def by blast

lemma walks_bind:
  assumes f: "walks active f as" and g: "walks active g bs" and new: "set as \<inter> set bs = {}"
  shows "walks active (bind_op f (\<lambda>_. g)) (as @ bs)"
  unfolding walks_def
proof (intro allI impI)
  fix seen assume s: "set (as @ bs) \<inter> (set active \<union> set seen) = {} \<and> length seen + length (as @ bs) \<le> max_yaml_containers"
  have "set as \<inter> (set active \<union> set seen) = {}" "length seen + length as \<le> max_yaml_containers" using s by auto
  from walksE [OF f this] obtain s1 where 1: "f seen = (Inr (), s1)" "set s1 = set as \<union> set seen"
    "length s1 = length seen + length as" .
  have "set bs \<inter> (set active \<union> set s1) = {}" "length s1 + length bs \<le> max_yaml_containers" using s 1 new by auto
  from walksE [OF g this] obtain s2 where 2: "g s1 = (Inr (), s2)" "set s2 = set bs \<union> set s1" "length s2 = length s1 + length bs" .
  show "\<exists>seen'. bind_op f (\<lambda>_. g) seen = (Inr (), seen') \<and> set seen' = set (as @ bs) \<union> set seen
      \<and> length seen' = length seen + length (as @ bs)"
    using 1 2 by (intro exI [of _ s2]) (auto simp: bind_op_def)
qed

lemma walks_nothing: "(\<And>seen. f seen = (Inr (), seen)) \<Longrightarrow> walks active f []"
  by (simp add: walks_def)

lemma walks_container:
  assumes "walks (a # active) (visit_pairs (visit_item h n (a # active)) (yaml_children (h a))) as" and "a \<notin> set as"
  shows "walks active (visit_item h (Suc n) active (Container a)) (a # as)"
  unfolding walks_def
proof (intro allI impI)
  fix seen assume s: "set (a # as) \<inter> (set active \<union> set seen) = {} \<and> length seen + length (a # as) \<le> max_yaml_containers"
  have "set as \<inter> (set (a # active) \<union> set (a # seen)) = {}" "length (a # seen) + length as \<le> max_yaml_containers"
    using s assms(2) by auto
  from walksE [OF assms(1) this] obtain seen' where
    "visit_pairs (visit_item h n (a # active)) (yaml_children (h a)) (a # seen) = (Inr (), seen')"
    "set seen' = set as \<union> set (a # seen)" "length seen' = length (a # seen) + length as" .
  then show "\<exists>seen'. visit_item h (Suc n) active (Container a) seen = (Inr (), seen') \<and> set seen' = set (a # as) \<union> set seen
      \<and> length seen' = length seen + length (a # as)" using s by auto
qed

lemma lays_walks:
  "lays h item v as \<Longrightarrow> distinct as \<Longrightarrow> value_depth v < n \<Longrightarrow> walks active (visit_item h n active item) as"
  "lays_all h items vs bs \<Longrightarrow> distinct bs \<Longrightarrow> \<forall>v\<in>set vs. value_depth v < n \<Longrightarrow> length ks = length items \<Longrightarrow>
     walks active (visit_pairs (visit_item h n active) (zip (map Leaf ks) items)) bs"
proof (induction arbitrary: n active and n active ks rule: lays_lays_all.inducts)
  case (lays_leaf v)
  then show ?case by (cases n) (auto intro: walks_nothing)
next
  case (lays_list a items vs as)
  then obtain n' where n: "n = Suc n'" by (cases n) auto
  have "\<forall>v\<in>set vs. value_depth v < n'" using lays_list.prems(2) by (auto simp: n fold_max_less)
  then have "walks (a # active) (visit_pairs (visit_item h n' (a # active)) (yaml_children (YSequence items))) as"
    using lays_list.prems(1) unfolding yaml_children_keys by (intro lays_list.IH(3)) simp_all
  then show ?case using lays_list.prems(1) unfolding n by (intro walks_container) (simp_all add: lays_list.IH(1))
next
  case (lays_dict a ks items vs as)
  then obtain n' where n: "n = Suc n'" by (cases n) auto
  have len: "length ks = length vs" using lays_all_length [OF lays_dict.IH(2)] lays_dict.hyps by simp
  have "\<forall>v\<in>set vs. value_depth v < n'"
    using lays_dict.prems(2) by (auto simp: n map_snd_zip_value [OF len] fold_max_less)
  with lays_dict show ?case unfolding n by (intro walks_container) auto
next
  case lays_nil
  then show ?case by (auto intro: walks_nothing)
next
  case (lays_cons item v as items vs bs)
  from lays_cons.prems(3) obtain k ks' where ks: "ks = k # ks'" "length ks' = length items" by (cases ks) auto
  from lays_cons.prems(2) obtain n' where n: "n = Suc n'" by (cases n) auto
  have "visit_pairs (visit_item h n active) (zip (map Leaf ks) (item # items))
      = bind_op (visit_item h n active item) (\<lambda>_. visit_pairs (visit_item h n active) (zip (map Leaf ks') items))"
    by (rule ext) (simp add: ks n bind_op_def)
  moreover have "walks active \<dots> (as @ bs)"
    using lays_cons ks(2) by (intro walks_bind) auto
  ultimately show ?case by simp
qed

lemma lays_unfolded:
  "lays h item v as \<Longrightarrow> value_depth v \<le> n \<Longrightarrow> unfolded h n item = v"
  "lays_all h items vs bs \<Longrightarrow> \<forall>v\<in>set vs. value_depth v \<le> n \<Longrightarrow> map (unfolded h n) items = vs"
proof (induction arbitrary: n and n rule: lays_lays_all.inducts)
  case (lays_leaf v)
  then show ?case by (cases n) auto
next
  case (lays_list a items vs as)
  then obtain n' where n: "n = Suc n'" by (cases n) auto
  have "\<forall>v\<in>set vs. value_depth v \<le> n'" using lays_list.prems by (auto simp: n fold_max_le)
  with lays_list n show ?case by simp
next
  case (lays_dict a ks items vs as)
  then obtain n' where n: "n = Suc n'" by (cases n) auto
  have len: "length ks = length vs" using lays_all_length [OF lays_dict.IH(2)] lays_dict.hyps by simp
  have "\<forall>v\<in>set vs. value_depth v \<le> n'" using lays_dict.prems by (auto simp: n map_snd_zip_value [OF len] fold_max_le)
  then have "map (unfolded h n') items = vs" by (rule lays_dict.IH(3))
  moreover have "unfolded h n' (Leaf k) = k" for k by (cases n') auto
  ultimately show ?case using lays_dict.IH(1) lays_dict.hyps by (auto simp: n zip_map1 zip_map2 split_def)
qed auto

lemma laid_out_accepted:
  assumes "lays h item v as" and "distinct as" and "value_depth v \<le> max_yaml_depth" and "value_containers v \<le> max_yaml_containers"
  shows "validate_yaml_tree h item = Inr ()" "unfolded h (Suc max_yaml_containers) item = v"
proof -
  have "walks [] (visit_item h (Suc max_yaml_depth) [] item) as"
    using assms(3) by (intro lays_walks(1) [OF assms(1,2)]) simp
  then obtain seen' where "visit_item h (Suc max_yaml_depth) [] item [] = (Inr (), seen')"
    using lays_count(1) [OF assms(1)] assms(4) by (elim walksE [where seen = "[]"]) auto
  then show "validate_yaml_tree h item = Inr ()" by (simp add: validate_yaml_tree_def)
  show "unfolded h (Suc max_yaml_containers) item = v"
    using assms(3) by (intro lays_unfolded(1) [OF assms(1)]) (simp add: max_yaml_depth_def max_yaml_containers_def)
qed

subsection \<open>A printed document keeps the limits\<close>

lemma floats_flat [simp]:
  "fold max (map (value_depth \<circ> PFloat) xs) 0 = 0" "sum_list (map (value_containers \<circ> PFloat) xs) = 0"
  by (induction xs) simp_all

lemma value_depth_named: "value_depth (named_dict kvs) \<le> Suc n \<longleftrightarrow> (\<forall>(k, v)\<in>set kvs. value_depth v \<le> n)"
  by (auto simp: named_dict_def fold_max_le)

lemma value_containers_named: "value_containers (named_dict kvs) = Suc (sum_list (map (\<lambda>kv. value_containers (snd kv)) kvs))"
  by (simp add: named_dict_def o_def split_def)

lemmas printed_simps = value_depth_named value_containers_named

lemma obstacle_mapping_limits: "value_depth (obstacle_to_mapping s) \<le> 3" "value_containers (obstacle_to_mapping s) \<le> 8"
proof -
  have path: "value_depth (path_to_mapping p) \<le> 2" "value_containers (path_to_mapping p) = 3" for p
    unfolding path_to_mapping_def numeral_2_eq_2 by (simp_all add: printed_simps)
  have geo: "value_depth (named_dict [(''shape'', PStr a), (''half_extents'', float_list b)]) \<le> 2" for a b
    unfolding numeral_2_eq_2 by (simp add: printed_simps)
  show "value_depth (obstacle_to_mapping s) \<le> 3"
    unfolding obstacle_to_mapping_def numeral_3_eq_3 value_depth_named
    using path geo by (cases "os_path s") (auto simp: numeral_2_eq_2 [symmetric])
  show "value_containers (obstacle_to_mapping s) \<le> 8"
    unfolding obstacle_to_mapping_def using path by (cases "os_path s") (simp_all add: printed_simps)
qed

lemma document_mapping_limits:
  assumes "length (doc_obstacles d) \<le> max_obstacles"
  shows "value_depth (document_mapping d) \<le> max_yaml_depth" "value_containers (document_mapping d) \<le> max_yaml_containers"
proof -
  have depth: "value_depth (PList (map obstacle_to_mapping (doc_obstacles d))) \<le> 63"
  proof -
    have "value_depth (obstacle_to_mapping s) \<le> 62" for s using obstacle_mapping_limits(1) [of s] by simp
    then show ?thesis by (auto simp: fold_max_le)
  qed
  have mount: "value_depth (mount_to_mapping m) \<le> Suc (Suc 0)" "value_containers (mount_to_mapping m) = 3" for m
    unfolding mount_to_mapping_def by (simp_all add: printed_simps)
  have lidar: "value_depth (lidar_to_mapping c) \<le> Suc (Suc 0)" "value_containers (lidar_to_mapping c) = 2" for c
    unfolding lidar_to_mapping_def by (simp_all add: printed_simps)
  have sensors: "value_depth (named_dict (map (\<lambda>(name, m). (name, mount_to_mapping m)) (named_mounts ms) @ [(''lidar'', lidar_to_mapping c)])) \<le> Suc (Suc (Suc 0))"
    "value_containers (named_dict (map (\<lambda>(name, m). (name, mount_to_mapping m)) (named_mounts ms) @ [(''lidar'', lidar_to_mapping c)])) = 18" for ms c
    using mount lidar unfolding printed_simps by (simp_all add: named_mounts_def)
  have terrain: "value_depth (terrain_to_mapping t) \<le> Suc 0" "value_containers (terrain_to_mapping t) = 1" for t
    unfolding terrain_to_mapping_def printed_simps by simp_all
  have robot: "value_depth (named_dict [(''model'', PStr m)]) \<le> Suc 0" for m
    unfolding printed_simps by simp
  have "value_depth (document_mapping d) \<le> Suc 63"
    by (simp only: document_mapping_def value_depth_named)
       (use depth sensors(1) [of "sd_mounts (doc_sensors d)" "sd_lidar (doc_sensors d)"] terrain(1) [of "doc_terrain d"]
          robot [of "doc_robot_model d"] in \<open>simp del: value_depth.simps(1,2)\<close>)
  then show "value_depth (document_mapping d) \<le> max_yaml_depth" by (simp add: max_yaml_depth_def)
  have "sum_list (map value_containers (map obstacle_to_mapping ss)) \<le> 8 * length ss" for ss
    by (induction ss) (auto intro!: add_mono [of _ 8, simplified] obstacle_mapping_limits(2))
  from this [of "doc_obstacles d"] show "value_containers (document_mapping d) \<le> max_yaml_containers"
    using assms sensors(2) [of "sd_mounts (doc_sensors d)" "sd_lidar (doc_sensors d)"] terrain(2) [of "doc_terrain d"]
    unfolding document_mapping_def by (simp add: value_containers_named max_obstacles_def max_yaml_containers_def)
qed

subsection \<open>The file system\<close>

record scene_disk =
  sk_target :: "(bytes \<times> bool) option"  \<comment> \<open>the content of the scene file, and whether it has reached the disk\<close>
  sk_temp :: "(bytes \<times> bool) option"
  sk_calls :: nat
  sk_targets :: "(bytes \<times> bool) option list"  \<comment> \<open>what the scene file was after each call\<close>

record disk_env =
  sk_effect :: "nat \<Rightarrow> bool"  \<comment> \<open>has a failing call had its effect\<close>
  sk_raised :: "nat \<Rightarrow> exc option"
  sk_written :: nat  \<comment> \<open>how much of the text a failing write left\<close>

type_synonym 'a disk_op = "(exc, scene_disk, 'a) op"

definition disk_call :: "disk_env \<Rightarrow> (scene_disk \<Rightarrow> scene_disk) \<Rightarrow> (scene_disk \<Rightarrow> scene_disk) \<Rightarrow> unit disk_op" where
  \<comment> \<open>one call: its effect, and what a failing call leaves\<close>
  "disk_call e effect failed s =
     (let s1 = (case sk_raised e (sk_calls s) of None \<Rightarrow> effect s | Some _ \<Rightarrow> if sk_effect e (sk_calls s) then effect s else failed s);
          s2 = s1\<lparr>sk_calls := Suc (sk_calls s), sk_targets := sk_targets s @ [sk_target s1]\<rparr>
      in (case sk_raised e (sk_calls s) of None \<Rightarrow> Inr () | Some x \<Rightarrow> Inl x, s2))"

definition plain_call :: "disk_env \<Rightarrow> unit disk_op" where
  "plain_call e = disk_call e (\<lambda>s. s) (\<lambda>s. s)"

definition fresh_call :: "disk_env \<Rightarrow> (scene_disk \<Rightarrow> scene_disk) \<Rightarrow> unit disk_op" where
  \<comment> \<open>a call that has no effect when it fails\<close>
  "fresh_call e effect s =
     (case sk_raised e (sk_calls s) of None \<Rightarrow> disk_call e effect (\<lambda>s. s) s | Some _ \<Rightarrow> plain_call e s)"

definition write_stream :: "disk_env \<Rightarrow> bytes \<Rightarrow> unit disk_op" where
  \<comment> \<open>\<^verbatim>\<open>yaml.safe_dump\<close>, \<^verbatim>\<open>flush\<close> and \<^verbatim>\<open>os.fsync\<close>\<close>
  "write_stream e text =
     bind_op (disk_call e (\<lambda>s. s\<lparr>sk_temp := Some (text, False)\<rparr>) (\<lambda>s. s\<lparr>sk_temp := Some (take (sk_written e) text, False)\<rparr>)) (\<lambda>_.
     bind_op (plain_call e) (\<lambda>_.
       disk_call e (\<lambda>s. s\<lparr>sk_temp := map_option (\<lambda>(b, _). (b, True)) (sk_temp s)\<rparr>) (\<lambda>s. s)))"

definition with_stream :: "disk_env \<Rightarrow> bytes \<Rightarrow> unit disk_op" where
  \<comment> \<open>the stream is closed either way; what closing raises replaces what the body raised\<close>
  "with_stream e text s =
     (case write_stream e text s of
        (r, s1) \<Rightarrow> (case plain_call e s1 of (Inl x, s2) \<Rightarrow> (Inl x, s2) | (Inr _, s2) \<Rightarrow> (r, s2)))"

definition replace_target :: "disk_env \<Rightarrow> unit disk_op" where
  \<comment> \<open>\<^verbatim>\<open>os.replace\<close> is atomic\<close>
  "replace_target e = disk_call e (\<lambda>s. s\<lparr>sk_target := sk_temp s, sk_temp := None\<rparr>) (\<lambda>s. s)"

record written =
  wr_result :: "(exc, unit) res"
  wr_raw_fd :: bool  \<comment> \<open>\<^verbatim>\<open>raw_fd is not None\<close>\<close>
  wr_temporary :: bool  \<comment> \<open>\<^verbatim>\<open>temporary is not None\<close>\<close>

definition write_scene :: "disk_env \<Rightarrow> bytes \<Rightarrow> scene_disk \<Rightarrow> written \<times> scene_disk" where
  \<comment> \<open>the body of the \<^verbatim>\<open>try\<close>: the temporary file, its stream, and the replacement\<close>
  "write_scene e text s =
     (case fresh_call e (\<lambda>s. s\<lparr>sk_temp := Some ([], False)\<rparr>) s of
        (Inl x, s1) \<Rightarrow> (\<lparr>wr_result = Inl x, wr_raw_fd = False, wr_temporary = False\<rparr>, s1)
      | (Inr _, s1) \<Rightarrow>
          (case plain_call e s1 of
             (Inl x, s2) \<Rightarrow>
               (case plain_call e s2 of
                  (Inl y, s3) \<Rightarrow> (\<lparr>wr_result = Inl y, wr_raw_fd = True, wr_temporary = True\<rparr>, s3)
                | (Inr _, s3) \<Rightarrow> (\<lparr>wr_result = Inl x, wr_raw_fd = False, wr_temporary = True\<rparr>, s3))
           | (Inr _, s2) \<Rightarrow>
               (case with_stream e text s2 of
                  (Inl x, s3) \<Rightarrow> (\<lparr>wr_result = Inl x, wr_raw_fd = False, wr_temporary = True\<rparr>, s3)
                | (Inr _, s3) \<Rightarrow>
                    (case replace_target e s3 of
                       (Inl x, s4) \<Rightarrow> (\<lparr>wr_result = Inl x, wr_raw_fd = False, wr_temporary = True\<rparr>, s4)
                     | (Inr _, s4) \<Rightarrow> (\<lparr>wr_result = Inr (), wr_raw_fd = False, wr_temporary = False\<rparr>, s4)))))"

definition swallow_os_error :: "unit disk_op \<Rightarrow> unit disk_op" where
  \<comment> \<open>\<^verbatim>\<open>try: f() except OSError: pass\<close>\<close>
  "swallow_os_error f s =
     (case f s of (Inl x, s1) \<Rightarrow> (if exc_kind x = OSErr then Inr () else Inl x, s1) | (Inr _, s1) \<Rightarrow> (Inr (), s1))"

definition tidy_up :: "disk_env \<Rightarrow> written \<Rightarrow> unit disk_op" where
  \<comment> \<open>the \<^verbatim>\<open>finally\<close>\<close>
  "tidy_up e w =
     bind_op (if wr_raw_fd w then swallow_os_error (plain_call e) else lift_res (Inr ())) (\<lambda>_.
       if wr_temporary w then swallow_os_error (disk_call e (\<lambda>s. s\<lparr>sk_temp := None\<rparr>) (\<lambda>s. s)) else lift_res (Inr ()))"

datatype scene_path = PathText string | PathObject | PathOther

definition require_scene_path :: "scene_path \<Rightarrow> (exc, unit) res" where
  "require_scene_path path =
     (case path of
        PathText s \<Rightarrow> ensure (s \<noteq> []) (value_error ''scene path must be nonempty'') (Inr ())
      | PathObject \<Rightarrow> Inr ()
      | PathOther \<Rightarrow> Inl (value_error ''scene path must be a string or Path''))"

datatype yaml_fault = TooDeep | DuplicateKey | Malformed | Unexpected exc
  \<comment> \<open>\<open>TooDeep\<close> also stands for a RecursionError\<close>

record 'text yaml_lib =
  yl_dump :: "pyval \<Rightarrow> bytes"  \<comment> \<open>the text written, in UTF-8\<close>
  yl_decode :: "bytes \<Rightarrow> 'text option"
  yl_load :: "'text \<Rightarrow> yaml_fault + yaml_heap \<times> yaml_item"

definition dump_scene_atomic :: "disk_env \<Rightarrow> 'text yaml_lib \<Rightarrow> scene_document inst \<Rightarrow> scene_path \<Rightarrow> unit disk_op" where
  "dump_scene_atomic e lib document path =
     bind_op (lift_res (document_to_mapping document)) (\<lambda>mapping.
     bind_op (lift_res (require_scene_path path)) (\<lambda>_.
     bind_op (plain_call e) (\<lambda>_ s.
       case write_scene e (yl_dump lib mapping) s of
         (w, s1) \<Rightarrow> (case tidy_up e w s1 of (Inl x, s2) \<Rightarrow> (Inl x, s2) | (Inr _, s2) \<Rightarrow> (wr_result w, s2)))))"

definition max_scene_file_bytes :: nat where "max_scene_file_bytes = 4 * 1024 * 1024"

definition load_scene ::
  "planar \<Rightarrow> (pyval \<Rightarrow> msg) \<Rightarrow> 'text yaml_lib \<Rightarrow> scene_path \<Rightarrow> (exc, bytes) res \<Rightarrow> (exc, scene_document) res" where
  \<comment> \<open>given what opening and reading the file gives\<close>
  "load_scene pl shown lib path file =
     bind_res (require_scene_path path) (\<lambda>_.
     bind_res file (\<lambda>content.
     let payload = take (Suc max_scene_file_bytes) content
     in ensure (length payload \<le> max_scene_file_bytes) (value_error ''scene YAML exceeds the supported file size'')
        (case yl_decode lib payload of
           None \<Rightarrow> Inl (value_error ''scene YAML must be valid UTF-8'')
         | Some text \<Rightarrow>
             (case yl_load lib text of
                Inl fault \<Rightarrow>
                  Inl (case fault of
                         TooDeep \<Rightarrow> value_error ''scene YAML exceeds the supported nesting depth''
                       | DuplicateKey \<Rightarrow> value_error ''scene YAML contains a duplicate mapping key''
                       | Malformed \<Rightarrow> value_error ''scene YAML is malformed''
                       | Unexpected x \<Rightarrow> x)
              | Inr (h, item) \<Rightarrow> scene_document_from_mapping pl shown h item))))"

subsection \<open>The scene file is replaced as a whole\<close>

definition keeps_target :: "bytes \<Rightarrow> scene_disk \<Rightarrow> scene_disk \<Rightarrow> bool" where
  \<comment> \<open>at every call since \<open>s\<close> the scene file is what it was, or all of the text and on the disk\<close>
  "keeps_target text s s' \<longleftrightarrow>
     (\<exists>new. sk_targets s' = sk_targets s @ new \<and> (\<forall>t\<in>set new. t = sk_target s \<or> t = Some (text, True))
        \<and> (sk_target s' = sk_target s \<or> sk_target s' = Some (text, True)))"

lemma keeps_target_refl: "keeps_target text s s"
  by (simp add: keeps_target_def)

lemma keeps_target_trans: "keeps_target text s s1 \<Longrightarrow> keeps_target text s1 s2 \<Longrightarrow> keeps_target text s s2"
  by (auto simp: keeps_target_def)

lemma disk_call_keeps:
  assumes "disk_call e f g s = (r, s')" and "sk_targets (f s) = sk_targets s" "sk_targets (g s) = sk_targets s"
    and "sk_target (f s) = sk_target s \<or> sk_target (f s) = Some (text, True)" and "sk_target (g s) = sk_target s"
  shows "keeps_target text s s'"
  using assms by (auto simp: disk_call_def keeps_target_def Let_def split: option.splits if_splits)

lemma plain_call_effect:
  assumes "plain_call e s = (r, s')"
  shows "keeps_target text s s' \<and> sk_target s' = sk_target s \<and> sk_temp s' = sk_temp s"
proof -
  have "keeps_target text s s'" using assms unfolding plain_call_def by (rule disk_call_keeps) simp_all
  with assms show ?thesis by (auto simp: plain_call_def disk_call_def Let_def split: option.splits)
qed

lemma temp_call_effect:
  assumes "disk_call e f g s = (r, s')" and "\<exists>t. f s = s\<lparr>sk_temp := t\<rparr>" and "\<exists>t. g s = s\<lparr>sk_temp := t\<rparr>"
  shows "keeps_target text s s' \<and> sk_target s' = sk_target s \<and> (r = Inr () \<longrightarrow> sk_temp s' = sk_temp (f s))"
proof -
  have "keeps_target text s s'" using assms(1) by (rule disk_call_keeps) (use assms(2,3) in auto)
  with assms show ?thesis by (auto simp: disk_call_def Let_def split: option.splits if_splits)
qed

lemma write_stream_effect:
  assumes "write_stream e text s = (r, s')"
  shows "keeps_target text s s' \<and> (r = Inr () \<longrightarrow> sk_temp s' = Some (text, True))"
proof -
  obtain r1 s1 where c1: "disk_call e (\<lambda>s. s\<lparr>sk_temp := Some (text, False)\<rparr>)
      (\<lambda>s. s\<lparr>sk_temp := Some (take (sk_written e) text, False)\<rparr>) s = (r1, s1)" by fastforce
  have e1: "keeps_target text s s1 \<and> sk_target s1 = sk_target s \<and> (r1 = Inr () \<longrightarrow> sk_temp s1 = Some (text, False))"
    using temp_call_effect [OF c1, of "text"] by auto
  show ?thesis
  proof (cases r1)
    case (Inl x)
    with assms c1 e1 show ?thesis by (auto simp: write_stream_def bind_op_def)
  next
    case (Inr u)
    obtain r2 s2 where c2: "plain_call e s1 = (r2, s2)" by fastforce
    note e2 = plain_call_effect [OF c2, of "text"]
    show ?thesis
    proof (cases r2)
      case (Inl x)
      with assms c1 c2 Inr e1 e2 show ?thesis by (auto simp: write_stream_def bind_op_def intro: keeps_target_trans)
    next
      case r2: (Inr v)
      with assms c1 c2 Inr have c3: "disk_call e (\<lambda>s. s\<lparr>sk_temp := map_option (\<lambda>(b, _). (b, True)) (sk_temp s)\<rparr>) (\<lambda>s. s) s2 = (r, s')"
        by (simp add: write_stream_def bind_op_def)
      have "\<exists>t. s2 = s2\<lparr>sk_temp := t\<rparr>" by (rule exI [of _ "sk_temp s2"]) simp
      with temp_call_effect [OF c3, of "text"] have "keeps_target text s2 s' \<and> (r = Inr () \<longrightarrow> sk_temp s' = Some (text, True))"
        using e1 e2 Inr by auto
      with e1 e2 show ?thesis by (auto intro: keeps_target_trans)
    qed
  qed
qed

lemma with_stream_effect:
  assumes "with_stream e text s = (r, s')"
  shows "keeps_target text s s' \<and> (r = Inr () \<longrightarrow> sk_temp s' = Some (text, True))"
proof -
  obtain r1 s1 r2 where run: "write_stream e text s = (r1, s1)" "plain_call e s1 = (r2, s')" "r = Inr () \<longrightarrow> r1 = Inr ()"
    using assms by (auto simp: with_stream_def split: prod.splits sum.splits)
  from write_stream_effect [OF run(1)] plain_call_effect [OF run(2), of "text"] run(3) show ?thesis
    by (auto intro: keeps_target_trans)
qed

lemma replace_target_effect:
  assumes "replace_target e s = (r, s')" and "sk_temp s = Some (text, True)"
  shows "keeps_target text s s' \<and> (r = Inr () \<longrightarrow> sk_target s' = Some (text, True) \<and> sk_temp s' = None)"
proof -
  have "keeps_target text s s'" using assms(1) unfolding replace_target_def by (rule disk_call_keeps) (use assms(2) in simp_all)
  with assms show ?thesis by (auto simp: replace_target_def disk_call_def Let_def split: option.splits)
qed

lemma write_scene_effect:
  assumes "write_scene e text s = (w, s')"
  shows "keeps_target text s s' \<and> (wr_result w = Inr () \<longrightarrow> sk_target s' = Some (text, True) \<and> sk_temp s' = None \<and> \<not> wr_raw_fd w \<and> \<not> wr_temporary w)
    \<and> (\<not> wr_temporary w \<longrightarrow> sk_temp s' = None \<or> sk_temp s' = sk_temp s)"
proof -
  obtain r1 s1 where c1: "fresh_call e (\<lambda>s. s\<lparr>sk_temp := Some ([], False)\<rparr>) s = (r1, s1)" by fastforce
  have self: "\<exists>t. s = s\<lparr>sk_temp := t\<rparr>" by (rule exI [of _ "sk_temp s"]) simp
  have e1: "keeps_target text s s1 \<and> (\<forall>x. r1 = Inl x \<longrightarrow> sk_temp s1 = sk_temp s)"
  proof (cases "sk_raised e (sk_calls s)")
    case None
    with c1 have run: "disk_call e (\<lambda>s. s\<lparr>sk_temp := Some ([], False)\<rparr>) (\<lambda>s. s) s = (r1, s1)" by (simp add: fresh_call_def)
    with None have "r1 = Inr ()" by (simp add: disk_call_def)
    with temp_call_effect [OF run, of "text"] self show ?thesis by auto
  next
    case (Some x)
    with c1 have "plain_call e s = (r1, s1)" by (simp add: fresh_call_def)
    from plain_call_effect [OF this, of "text"] show ?thesis by auto
  qed
  show ?thesis
  proof (cases r1)
    case (Inl x)
    with assms c1 e1 show ?thesis by (auto simp: write_scene_def)
  next
    case (Inr u)
    obtain r2 s2 where c2: "plain_call e s1 = (r2, s2)" by fastforce
    note e2 = plain_call_effect [OF c2, of "text"]
    show ?thesis
    proof (cases r2)
      case (Inl x)
      obtain r3 s3 where c3: "plain_call e s2 = (r3, s3)" by fastforce
      with assms c1 c2 Inr Inl have "s' = s3" "\<exists>y. wr_result w = Inl y" "wr_temporary w"
        by (auto simp: write_scene_def split: sum.splits)
      with e1 e2 plain_call_effect [OF c3, of "text"] show ?thesis by (auto intro: keeps_target_trans)
    next
      case r2: (Inr v)
      obtain r3 s3 where c3: "with_stream e text s2 = (r3, s3)" by fastforce
      note e3 = with_stream_effect [OF c3]
      show ?thesis
      proof (cases r3)
        case (Inl x)
        with assms c1 c2 c3 Inr r2 have "s' = s3" "wr_result w = Inl x" "wr_temporary w" by (auto simp: write_scene_def)
        with e1 e2 e3 show ?thesis by (auto intro: keeps_target_trans)
      next
        case r3: (Inr w3)
        obtain r4 s4 where c4: "replace_target e s3 = (r4, s4)" by fastforce
        with assms c1 c2 c3 Inr r2 r3 have "s' = s4" "wr_result w = r4" "\<not> wr_raw_fd w" "\<not> wr_temporary w \<longleftrightarrow> r4 = Inr ()"
          by (auto simp: write_scene_def split: sum.splits)
        with e1 e2 e3 r3 replace_target_effect [OF c4, of "text"] show ?thesis by (auto intro: keeps_target_trans)
      qed
    qed
  qed
qed

lemma swallow_os_error_Inr: "swallow_os_error f s = (Inl x, s') \<Longrightarrow> f s = (Inl x, s')"
  "swallow_os_error f s = (Inr u, s') \<Longrightarrow> \<exists>r. f s = (r, s')"
  by (auto simp: swallow_os_error_def split: prod.splits sum.splits if_splits)

lemma disk_call_raised: "disk_call e f g s = (Inl x, s') \<Longrightarrow> sk_raised e (sk_calls s' - 1) \<noteq> None"
  by (auto simp: disk_call_def Let_def split: option.splits)

lemma tidy_up_effect:
  assumes "tidy_up e w s = (r, s')" and "\<not> wr_temporary w \<Longrightarrow> sk_temp s = None"
  shows "keeps_target text s s' \<and> sk_target s' = sk_target s \<and> (sk_temp s' = None \<or> sk_raised e (sk_calls s' - 1) \<noteq> None)
    \<and> (\<not> wr_raw_fd w \<and> \<not> wr_temporary w \<longrightarrow> r = Inr () \<and> s' = s)"
proof -
  obtain r1 s1 where c1: "(if wr_raw_fd w then swallow_os_error (plain_call e) else lift_res (Inr ())) s = (r1, s1)" by fastforce
  have e1: "keeps_target text s s1 \<and> sk_target s1 = sk_target s \<and> sk_temp s1 = sk_temp s
    \<and> (\<forall>x. r1 = Inl x \<longrightarrow> sk_raised e (sk_calls s1 - 1) \<noteq> None) \<and> (\<not> wr_raw_fd w \<longrightarrow> r1 = Inr () \<and> s1 = s)"
  proof (cases "wr_raw_fd w")
    case True
    with c1 have "\<exists>r0. plain_call e s = (r0, s1) \<and> (\<forall>x. r1 = Inl x \<longrightarrow> r0 = Inl x)"
      by (cases r1) (auto dest: swallow_os_error_Inr)
    then obtain r0 where r0: "plain_call e s = (r0, s1)" "\<forall>x. r1 = Inl x \<longrightarrow> r0 = Inl x" by blast
    have "sk_raised e (sk_calls s1 - 1) \<noteq> None" if "r1 = Inl x" for x
      using r0 that unfolding plain_call_def by (intro disk_call_raised [of e "\<lambda>s. s" "\<lambda>s. s" s x s1]) simp
    with plain_call_effect [OF r0(1), of "text"] True show ?thesis by blast
  next
    case False
    with c1 show ?thesis by (auto simp: lift_res_def keeps_target_refl)
  qed
  show ?thesis
  proof (cases r1)
    case (Inl x)
    with assms(1) c1 e1 show ?thesis by (auto simp: tidy_up_def bind_op_def)
  next
    case (Inr u)
    with assms(1) c1 have c2: "(if wr_temporary w then swallow_os_error (disk_call e (\<lambda>s. s\<lparr>sk_temp := None\<rparr>) (\<lambda>s. s)) else lift_res (Inr ())) s1 = (r, s')"
      by (simp add: tidy_up_def bind_op_def)
    show ?thesis
    proof (cases "wr_temporary w")
      case True
      with c2 obtain r0 where r0: "disk_call e (\<lambda>s. s\<lparr>sk_temp := None\<rparr>) (\<lambda>s. s) s1 = (r0, s')"
        by (cases r) (auto dest: swallow_os_error_Inr)
      have "\<exists>t. s1 = s1\<lparr>sk_temp := t\<rparr>" by (rule exI [of _ "sk_temp s1"]) simp
      with temp_call_effect [OF r0, of "text"] have "keeps_target text s1 s' \<and> sk_target s' = sk_target s1 \<and> (r0 = Inr () \<longrightarrow> sk_temp s' = None)"
        by auto
      moreover have "sk_temp s' = None \<or> sk_raised e (sk_calls s' - 1) \<noteq> None"
      proof (cases r0)
        case (Inl x)
        with r0 show ?thesis by (auto dest: disk_call_raised)
      qed (use calculation in simp)
      ultimately show ?thesis using e1 True by (auto intro: keeps_target_trans)
    next
      case False
      with c2 e1 assms(2) show ?thesis by (auto simp: lift_res_def)
    qed
  qed
qed

lemma dump_effect:
  assumes "dump_scene_atomic e lib (Instance d) path s = (r, s')" and "sk_temp s = None"
  defines "new \<equiv> Some (yl_dump lib (document_mapping d), True)"
  shows "keeps_target (yl_dump lib (document_mapping d)) s s' \<and> (sk_temp s' = None \<or> sk_raised e (sk_calls s' - 1) \<noteq> None)
      \<and> (r = Inr () \<longrightarrow> sk_target s' = new \<and> sk_temp s' = None)"
proof (cases "require_scene_path path")
  case (Inl x)
  with assms(1,2) show ?thesis
    by (auto simp: dump_scene_atomic_def document_to_mapping_def bind_op_def lift_res_def keeps_target_refl)
next
  case path: (Inr u)
  obtain r1 s1 where c1: "plain_call e s = (r1, s1)" by fastforce
  note e1 = plain_call_effect [OF c1, of "yl_dump lib (document_mapping d)"]
  show ?thesis
  proof (cases r1)
    case (Inl x)
    with assms(1,2) path c1 e1 show ?thesis
      by (auto simp: dump_scene_atomic_def document_to_mapping_def bind_op_def lift_res_def)
  next
    case (Inr v)
    obtain w s2 where c2: "write_scene e (yl_dump lib (document_mapping d)) s1 = (w, s2)" by fastforce
    note e2 = write_scene_effect [OF c2]
    obtain r3 s3 where c3: "tidy_up e w s2 = (r3, s3)" by fastforce
    have "sk_temp s2 = None" if "\<not> wr_temporary w" using e1 e2 that assms(2) by auto
    note e3 = tidy_up_effect [OF c3 this, of "yl_dump lib (document_mapping d)"]
    have "s' = s3" "r = Inr () \<longrightarrow> wr_result w = Inr ()"
      using assms(1) path c1 c2 c3 Inr
      by (auto simp: dump_scene_atomic_def document_to_mapping_def bind_op_def lift_res_def split: sum.splits)
    moreover have "wr_result w = Inr () \<longrightarrow> sk_target s3 = new \<and> sk_temp s3 = None"
      using e2 e3 by (auto simp: new_def)
    ultimately show ?thesis using e1 e2 e3 by (auto intro: keeps_target_trans)
  qed
qed

text \<open>
  C31. Saving a scene never damages the file that is there.  Whatever call on the file system fails, with or
  without effect, at every moment the scene file is what it was before or the complete new text, flushed to
  the disk; when saving returns, it is the new text; and a temporary file is only left behind when the call
  that removes it failed.
\<close>

theorem scene_file_atomic:
  assumes "dump_scene_atomic e lib (Instance d) path s = (r, s')" and "sk_temp s = None" and "sk_targets s = []"
  defines "new \<equiv> Some (yl_dump lib (document_mapping d), True)"
  shows "(\<forall>t\<in>set (sk_targets s'). t = sk_target s \<or> t = new) \<and> (sk_target s' = sk_target s \<or> sk_target s' = new)
    \<and> (r = Inr () \<longrightarrow> sk_target s' = new \<and> sk_temp s' = None)
    \<and> (sk_temp s' = None \<or> sk_raised e (sk_calls s' - 1) \<noteq> None)"
  using dump_effect [OF assms(1,2)] assms(3) by (auto simp: keeps_target_def new_def)

subsection \<open>A saved scene is loaded again\<close>

definition yaml_keeps :: "'text yaml_lib \<Rightarrow> pyval \<Rightarrow> bool" where
  \<comment> \<open>what is used of the library: loading the dumped text builds the value anew\<close>
  "yaml_keeps lib v \<longleftrightarrow>
     (\<exists>t h item as. yl_decode lib (yl_dump lib v) = Some t \<and> yl_load lib t = Inr (h, item) \<and> lays h item v as \<and> distinct as)"


subsection \<open>An example\<close>

fun lay_out :: "nat \<Rightarrow> pyval \<Rightarrow> yaml_item \<times> (nat \<times> yaml_container) list"
  and lay_out_all :: "nat \<Rightarrow> pyval list \<Rightarrow> yaml_item list \<times> (nat \<times> yaml_container) list" where
  \<comment> \<open>containers numbered from \<open>n\<close> in the order they are met\<close>
  "lay_out n (PList vs) = (case lay_out_all (Suc n) vs of (items, cs) \<Rightarrow> (Container n, (n, YSequence items) # cs))"
| "lay_out n (PDict kvs) =
     (case lay_out_all (Suc n) (map snd kvs) of
        (items, cs) \<Rightarrow> (Container n, (n, YMapping (zip (map (\<lambda>kv. Leaf (fst kv)) kvs) items)) # cs))"
| "lay_out n v = (Leaf v, [])"
| "lay_out_all n [] = ([], [])"
| "lay_out_all n (v # vs) =
     (case lay_out n v of (item, cs) \<Rightarrow>
        (case lay_out_all (n + length cs) vs of (items, cs') \<Rightarrow> (item # items, cs @ cs')))"

lemma lay_out_lays:
  "lay_out n v = (item, cs) \<Longrightarrow> \<forall>p\<in>set cs. h (fst p) = snd p \<Longrightarrow> lays h item v (map fst cs)"
  "lay_out_all n vs = (items, cs) \<Longrightarrow> \<forall>p\<in>set cs. h (fst p) = snd p \<Longrightarrow> lays_all h items vs (map fst cs)"
proof (induction n v and n vs arbitrary: item cs and items cs rule: lay_out_lay_out_all.induct)
  case (1 n vs)
  then show ?case by (auto split: prod.splits intro!: lays_list)
next
  case (2 n kvs)
  obtain items cs' where all: "lay_out_all (Suc n) (map snd kvs) = (items, cs')" by fastforce
  with 2 have "lays_all h items (map snd kvs) (map fst cs')" by auto
  moreover from lays_all_length [OF this] have "length (map fst kvs) = length items" by simp
  moreover have "h n = YMapping (zip (map Leaf (map fst kvs)) items)" using 2(2,3) all by (auto simp: o_def)
  ultimately have "lays h (Container n) (PDict (zip (map fst kvs) (map snd kvs))) (n # map fst cs')" by (intro lays_dict)
  then show ?case using 2(2) all by (auto simp: zip_map_fst_snd)
next
  case (5 n v vs)
  obtain i1 c1 where one: "lay_out n v = (i1, c1)" by fastforce
  obtain xs c2 where rest: "lay_out_all (n + length c1) vs = (xs, c2)" by fastforce
  from 5(3) one rest have eq: "items = i1 # xs" "cs = c1 @ c2" by auto
  have "lays h i1 v (map fst c1)" using 5(1) [OF one] 5(4) eq by simp
  moreover have "lays_all h xs vs (map fst c2)" using 5(2) [OF one [symmetric] rest] 5(4) eq by simp
  ultimately show ?case unfolding eq map_append by (rule lays_cons)
qed (auto intro!: lays_leaf lays_nil)

lemma lay_out_addresses:
  "lay_out n v = (item, cs) \<Longrightarrow> map fst cs = [n..<n + length cs]"
  "lay_out_all n vs = (items, cs) \<Longrightarrow> map fst cs = [n..<n + length cs]"
proof (induction n v and n vs arbitrary: item cs and items cs rule: lay_out_lay_out_all.induct)
  case (1 n vs)
  then obtain xs c2 where "lay_out_all (Suc n) vs = (xs, c2)" "cs = (n, YSequence xs) # c2" by (auto split: prod.splits)
  with 1(1) show ?case by (simp add: upt_conv_Cons del: upt_Suc)
next
  case (2 n kvs)
  then obtain xs c2 m where "lay_out_all (Suc n) (map snd kvs) = (xs, c2)" "cs = (n, m) # c2" by (auto split: prod.splits)
  with 2(1) show ?case by (simp add: upt_conv_Cons del: upt_Suc)
next
  case (5 n v vs)
  obtain i1 c1 where one: "lay_out n v = (i1, c1)" by fastforce
  obtain xs c2 where rest: "lay_out_all (n + length c1) vs = (xs, c2)" by fastforce
  from 5(3) one rest have eq: "cs = c1 @ c2" by auto
  show ?case
    using 5(1) [OF one] 5(2) [OF one [symmetric] rest]
      upt_add_eq_append [of n "n + length c1" "length c2"]
    by (simp add: eq add.assoc)
qed auto

definition example_heap :: "pyval \<Rightarrow> yaml_heap" where
  "example_heap v a = (case map_of (snd (lay_out 0 v)) a of None \<Rightarrow> YSequence [] | Some c \<Rightarrow> c)"

definition example_yaml :: "pyval \<Rightarrow> unit yaml_lib" where
  \<comment> \<open>a library that knows one document\<close>
  "example_yaml v =
     \<lparr>yl_dump = (\<lambda>_. []), yl_decode = (\<lambda>_. Some ()), yl_load = (\<lambda>_. Inr (example_heap v, fst (lay_out 0 v)))\<rparr>"

lemma example_yaml_keeps: "yaml_keeps (example_yaml v) v"
proof -
  obtain item cs where l: "lay_out 0 v = (item, cs)" by fastforce
  have dist: "distinct (map fst cs)" unfolding lay_out_addresses(1) [OF l] by simp
  have "\<forall>p\<in>set cs. example_heap v (fst p) = snd p"
    using dist by (auto simp: example_heap_def l)
  from lay_out_lays(1) [OF l this] have "lays (example_heap v) item v (map fst cs)" .
  with dist l show ?thesis by (auto simp: yaml_keeps_def example_yaml_def)
qed

abbreviation exact_planar :: planar where
  "exact_planar \<equiv> \<lparr>pl_hypot = exact_hypot, pl_dist = (\<lambda>_ _. Fin 1)\<rparr>"

lemma unit_quaternion:
  assumes "hypot_accurate pl" and "q = map Fin [a, b, c, d]" and "a\<^sup>2 + b\<^sup>2 + c\<^sup>2 + d\<^sup>2 = 1"
  shows "normalize_quaternion pl (floats q) = Inr q"
proof -
  have s: "sum_of_squares [a, b, c, d] = 1" using assms(3) by (simp add: sum_of_squares_def)
  then obtain h where h: "pl_hypot pl q = Fin h"
    using hypot_finite [OF assms(1), of "[a, b, c, d]"] assms(2) power_increasing [of 0 2046 "2::rat"] by auto
  have close: "0 \<le> h" "(1 - ulp1)\<^sup>2 \<le> h\<^sup>2" "h\<^sup>2 \<le> (1 + ulp1)\<^sup>2"
    using hypot_close [OF assms(1) h [unfolded assms(2)]] unfolding s by simp_all
  then have "1 - ulp1 \<le> h" "h \<le> 1 + ulp1" by (auto dest: power2_le_imp_le)
  then have near: "\<bar>h - 1\<bar> \<le> 4 / 2 ^ 52" and big: "1 / 2 < h" unfolding abs_le_iff by simp_all
  from roundoff_kept [OF near] have "scaled pl q = q" by (simp add: scaled_def h)
  moreover obtain e where e: "norm_epsilon = Fin e" "e \<le> 1 / 2" using norm_epsilon_eq by blast
  then have "\<not> f_le (Fin h) norm_epsilon" unfolding e(1) using e(2) big by simp
  ultimately show ?thesis unfolding normalize_quaternion_floats using h by (simp add: assms(2))
qed

definition example_document :: scene_document where
  "example_document =
     \<lparr>doc_schema_version = 1, doc_robot_model = ''df_mid'',
      doc_terrain = \<lparr>td_model = ''slope'', td_slope_deg = Fin 8, td_golf_seed = 7, td_golf_relief = ''medium''\<rparr>,
      doc_obstacles = [], doc_sensors = \<lparr>sd_mounts = default_mounts, sd_lidar = supported_lidar\<rparr>\<rparr>"

lemma small_float: "\<bar>q\<bar> \<le> 100 \<Longrightarrow> \<exists>r. fl q = Fin r \<and> \<bar>r\<bar> \<le> 100"
  by (rule fl_abs_le [of 100 q]) (auto intro!: is_double_numeral_small)

lemma rebuild_unit_mount:
  assumes "hypot_accurate pl" and "parent \<noteq> []" and "\<forall>x\<in>set ps. f_isfinite x" "length ps = 3"
    and "q = map Fin [a, b, c, d]" and "a\<^sup>2 + b\<^sup>2 + c\<^sup>2 + d\<^sup>2 = 1"
  defines "m \<equiv> \<lparr>mp_parent_link = parent, mp_position = ps, mp_orientation = q\<rparr>"
  shows "rebuild_mount pl m = Inr m"
proof -
  have "pose_vector ''position'' (floats ps) 3 = Inr ps"
    using floats_again [of ps] assms(3,4) by (simp add: pose_vector_def list_all_iff)
  with unit_quaternion [OF assms(1,5,6)] assms(2) show ?thesis
    by (simp add: rebuild_mount_def mk_mount_pose_def m_def)
qed

lemma check_mount_iff:
  "check_mount (name, m) = Inr () \<longleftrightarrow>
     mp_parent_link m = the (map_of expected_sensor_parents name) \<and> vector_within 3 (Fin 100) (mp_position m)"
  by (simp add: check_mount_def Let_def ensure_Inr_iff bind_res_Inr_iff require_vector_floats)

lemma default_sensors:
  assumes "hypot_accurate pl"
  shows "rebuild_sensors pl \<lparr>sd_mounts = default_mounts, sd_lidar = supported_lidar\<rparr> =
    Inr \<lparr>sd_mounts = default_mounts, sd_lidar = supported_lidar\<rparr>"
proof -
  obtain x y z w where f: "fl (- (1 / 5)) = Fin x" "\<bar>x\<bar> \<le> 100" "fl (1 / 5) = Fin y" "\<bar>y\<bar> \<le> 100"
    "fl (9 / 50) = Fin z" "\<bar>z\<bar> \<le> 100" "fl (2 / 25) = Fin w" "\<bar>w\<bar> \<le> 100"
    using small_float [of "- (1 / 5)"] small_float [of "1 / 5"] small_float [of "9 / 50"] small_float [of "2 / 25"]
    by fastforce
  note unit = rebuild_unit_mount [OF assms, of _ _ _ 0 0 0 1] rebuild_unit_mount [OF assms, of _ _ _ 0 0 1 0]
  have "rebuild_mounts pl (Instance default_mounts) = Inr default_mounts"
    unfolding rebuild_mounts_Instance by (simp add: default_mounts_def f Let_def unit)
  moreover have "rebuild_lidar_config (Instance supported_lidar) = Inr supported_lidar"
  proof -
    have d: "is_double (1 / 2)" by (rule is_double_dyadic [where m = 1 and e = "- 1"]) simp_all
    have d': "is_double (1 / 16)" by (rule is_double_dyadic [where m = 1 and e = "- 4"]) (simp_all add: powi_minus_numeral)
    obtain r where r: "fl (1 / 10) = Fin r" "1 / 16 \<le> r" "r \<le> 1 / 2" by (rule fl_between [OF d' d, of "1 / 10"]) simp_all
    show ?thesis
      using r(2,3)
      by (simp add: rebuild_lidar_config_def rebuild_lidar_def mk_lidar_config_def supported_lidar_def r(1) ob_integral_def
        ob_finite_float_PFloat vertical_fov_def Let_def res_simps)
  qed
  moreover have "map_res check_mount (named_mounts default_mounts) = Inr [(), (), (), (), ()]"
  proof -
    have "check_mount nm = Inr ()" if "nm \<in> set (named_mounts default_mounts)" for nm
      using that f(2,4,6,8)
      by (cases nm) (auto simp: check_mount_iff named_mounts_def default_mounts_def expected_sensor_parents_def f(1,3,5,7) Let_def
        vector_within_def)
    then have "map_res check_mount (named_mounts default_mounts) = Inr (map (\<lambda>_. ()) (named_mounts default_mounts))"
      by (induction "named_mounts default_mounts") (simp_all add: named_mounts_def)
    then show ?thesis by (simp add: named_mounts_def)
  qed
  ultimately show ?thesis by (simp add: rebuild_sensors_def mk_sensor_document_def)
qed

lemma example_document_ok:
  assumes "hypot_accurate pl"
  shows "document_ok pl example_document"
proof -
  have "rebuild_terrain (doc_terrain example_document) = Inr (doc_terrain example_document)"
    by (simp add: example_document_def rebuild_terrain_def mk_terrain_document_def res_simps require_choice_Inr require_int_def
      require_float_def ob_finite_float_PFloat terrain_model_names_def relief_levels_def py_lower_def
      lower_char_def)
  moreover have "get_robot_model ''df_mid'' = Inr df_mid" "rm_name df_mid = ''df_mid''"
    by (simp_all add: get_robot_model_def robot_models_def py_lower_def lower_char_def df_mid_def)
  moreover have "max_obstacles = 100" by (rule max_obstacles_def)
  ultimately show ?thesis
    using default_sensors [OF assms] by (auto simp: document_ok_def example_document_def file_obstacles_def)
qed

lemma example_built:
  "mk_scene_document exact_planar (PInt 1) (PStr ''df_mid'') (Instance (doc_terrain example_document)) (Instance [])
     (Instance (doc_sensors example_document)) = Inr example_document"
  using document_ok_rebuilds [OF example_document_ok [OF exact_hypot_accurate, of "\<lambda>_ _. Fin 1"]]
  by (simp add: example_document_def)

abbreviation quiet_disk :: disk_env where
  "quiet_disk \<equiv> \<lparr>sk_effect = (\<lambda>_. False), sk_raised = (\<lambda>_. None), sk_written = 0\<rparr>"

abbreviation old_scene :: scene_disk where
  "old_scene \<equiv> \<lparr>sk_target = Some ([1, 2], True), sk_temp = None, sk_calls = 0, sk_targets = []\<rparr>"


lemma scene_file_atomic_witness:
  "set (sk_targets (snd (dump_scene_atomic quiet_disk (example_yaml (PInt 0)) (Instance example_document) PathObject old_scene)))
     \<subseteq> {Some ([1, 2], True), Some ([], True)}"
proof -
  obtain r s' where run: "dump_scene_atomic quiet_disk (example_yaml (PInt 0)) (Instance example_document) PathObject old_scene = (r, s')"
    by fastforce
  from scene_file_atomic [OF this] show ?thesis unfolding run by (auto simp: example_yaml_def)
qed

end
