(* ===== verification/ObstacleOwnership.thy ===== *)
theory ObstacleOwnership
  imports ObstacleManager "HOL-Library.Multiset"
begin

text \<open>
  Who owns the bodies of the client: at any moment each of them is either foreign (terrain, vehicle, other
  parts of the scene) or has exactly one owner in the manager: a formal record, the temporary or candidate
  bodies of the pending addition, or the cleanup debt.  The lemmas show that the phases of an addition keep
  this, whatever fails.
\<close>

subsection \<open>Ownership of bodies\<close>

definition holds :: "nat set \<Rightarrow> physics \<Rightarrow> nat list \<Rightarrow> bool" where
  \<comment> \<open>every body of the client is a foreign one, of \<open>F\<close>, or listed once in \<open>xs\<close>; the foreign ones are all there\<close>
  "holds F p xs \<longleftrightarrow> physics_ok p \<and> distinct xs \<and> set xs \<inter> F = {} \<and> (\<forall>b\<in>set xs \<union> F. b < ph_next p)
     \<and> F \<subseteq> set (ph_bodies p) \<and> set (ph_bodies p) \<subseteq> F \<union> set xs"

lemma holds_mset: "holds F p xs \<Longrightarrow> mset xs = mset ys \<Longrightarrow> holds F p ys"
  using mset_eq_setD [of xs ys] mset_eq_imp_distinct_iff [of xs ys] by (simp add: holds_def)

lemma holds_count_call [simp]: "holds F (count_call p) xs = holds F p xs"
  by (simp add: holds_def)

lemma holds_create:
  assumes h: "holds F p xs" and i: "identified px" and c: "create_body px p = (r, p')"
  shows "ph_next p \<le> ph_next p' \<and> (case r of Inr b \<Rightarrow> holds F p' (b # xs) | Inl (err, residual) \<Rightarrow> holds F p' (residual @ xs))"
proof (cases r)
  case (Inr b)
  from h have ok: "physics_ok p" by (simp add: holds_def)
  from create_body_effect [OF ok c] Inr have
    b: "b = ph_next p" "physics_ok p'" "ph_next p' = Suc b" "set (ph_bodies p') = insert b (set (ph_bodies p))" by simp_all
  with h have "holds F p' (b # xs)" unfolding holds_def by (auto simp: less_Suc_eq)
  with b Inr show ?thesis by simp
next
  case (Inl er)
  obtain err residual where er: "er = (err, residual)" by fastforce
  from h have ok: "physics_ok p" by (simp add: holds_def)
  from create_body_effect [OF ok c] Inl er i have
    d: "distinct residual" "creates p {ph_next p} p'" "residual = [] \<or> residual = [ph_next p] \<and> ph_next p < ph_next p'"
      "set (ph_bodies p') \<subseteq> set (ph_bodies p) \<union> set residual" by auto
  have lt: "b < ph_next p'" if "b \<in> set xs \<union> F" for b
    using that h d(2) unfolding holds_def creates_def by (meson order_less_le_trans)
  have "holds F p' (residual @ xs)"
    using d(3)
  proof
    assume "residual = []"
    with h d lt show ?thesis unfolding holds_def creates_def by auto
  next
    assume "residual = [ph_next p] \<and> ph_next p < ph_next p'"
    with h d lt show ?thesis unfolding holds_def creates_def by auto
  qed
  with d(2) Inl er show ?thesis by (simp add: creates_def)
qed

lemma holds_removes:
  assumes "holds F p xs" and "removes A p p'" and "A \<inter> F = {}"
  shows "holds F p' xs \<and> ph_next p' = ph_next p"
  using assms unfolding holds_def removes_def by auto

lemma holds_shrink:
  assumes "holds F p xs" and "distinct ys" and "set ys \<subseteq> set xs" and "set (ph_bodies p) \<inter> set xs \<subseteq> set ys"
  shows "holds F p ys"
  using assms unfolding holds_def by auto

lemma holds_remove_each:
  assumes h: "holds F p (A @ ys)" and r: "remove_each_strict px A p = (fs, p')"
  shows "holds F p' (failed_ids fs @ ys) \<and> ph_next p' = ph_next p \<and> set (failed_ids fs) \<subseteq> set A \<and> distinct (failed_ids fs)"
proof -
  from h have ok: "physics_ok p" "set A \<inter> F = {}" "distinct A" "distinct (A @ ys)" by (auto simp: holds_def)
  note e = remove_each_effect [OF ok(1) r]
  note h' = holds_removes [OF h conjunct1 [OF e] ok(2)]
  have "holds F p' (failed_ids fs @ ys)"
    by (rule holds_shrink [OF conjunct1 [OF h']]) (use e ok in auto)
  with h' e ok show ?thesis by simp
qed

lemma holds_remove:
  assumes h: "holds F p xs" and b: "b \<notin> F" and r: "remove_committed_strict px b p = (r, p')"
  shows "holds F p' xs \<and> ph_next p' = ph_next p \<and> (r = Inr () \<longrightarrow> holds F p' (removeAll b xs))"
proof -
  from h have ok: "physics_ok p" "distinct xs" by (auto simp: holds_def)
  note e = remove_committed_effect [OF ok(1) r]
  note h' = holds_removes [OF h conjunct1 [OF e]]
  have "holds F p' (removeAll b xs)" if "r = Inr ()"
    by (rule holds_shrink [OF conjunct1 [OF h']]) (use e b ok that in \<open>auto simp: distinct_removeAll\<close>)
  with h' b show ?thesis by simp
qed

lemma holds_listed:
  "holds F p xs \<Longrightarrow> list_bodies px p = (r, p') \<Longrightarrow>
   holds F p' xs \<and> ph_next p' = ph_next p \<and> (case r of Inl d \<Rightarrow> True | Inr current \<Rightarrow> current = ph_bodies p')"
  using list_bodies_effect [of px p r p'] by (auto split: sum.split)

definition owned :: "obstacle_manager \<Rightarrow> nat list" where
  "owned m = record_ids m @ temporary_ids m @ candidate_ids m @ om_debt m"

definition clear_ids :: "obstacle_manager \<Rightarrow> nat list" where
  "clear_ids m = (case om_pending m of None \<Rightarrow> [] | Some po \<Rightarrow> po_clear_bodies po)"

definition om_side :: "nat set \<Rightarrow> obstacle_manager \<Rightarrow> bool" where
  "om_side F m \<longleftrightarrow> (om_fault m \<noteq> None \<longrightarrow> om_records m = [])
     \<and> set (clear_ids m) \<inter> F = {} \<and> (\<forall>b\<in>set (clear_ids m). b < ph_next (om_client m))
     \<and> (\<forall>po q. om_pending m = Some po \<and> po_operation po = AddOp q \<longrightarrow> po_temporary po \<noteq> None)"

definition om_inv :: "nat set \<Rightarrow> obstacle_manager \<Rightarrow> bool" where
  "om_inv F m \<longleftrightarrow> holds F (om_client m) (owned m) \<and> om_side F m"

definition pending_kept :: "pending_operation \<Rightarrow> pending_operation \<Rightarrow> bool" where
  "pending_kept po po' \<longleftrightarrow> po_operation po' = po_operation po \<and> po_clear_bodies po' = po_clear_bodies po
     \<and> (po_temporary po \<noteq> None \<longrightarrow> po_temporary po' \<noteq> None)"

definition kept :: "obstacle_manager \<Rightarrow> obstacle_manager \<Rightarrow> bool" where
  \<comment> \<open>records and fault are the same, and the pending operation is the same one or has ended\<close>
  "kept m m' \<longleftrightarrow> om_records m' = om_records m \<and> om_fault m' = om_fault m \<and> ph_next (om_client m) \<le> ph_next (om_client m')
     \<and> (\<forall>po'. om_pending m' = Some po' \<longrightarrow> (\<exists>po. om_pending m = Some po \<and> pending_kept po po'))"

lemma kept_refl: "kept m m"
  by (simp add: kept_def pending_kept_def)

lemma kept_trans: "kept m1 m2 \<Longrightarrow> kept m2 m3 \<Longrightarrow> kept m1 m3"
  by (fastforce simp: kept_def pending_kept_def)

lemma kept_side:
  assumes "om_side F m" and "kept m m'"
  shows "om_side F m'"
proof (cases "om_pending m'")
  case None
  with assms show ?thesis by (simp add: om_side_def kept_def clear_ids_def)
next
  case (Some po')
  with assms(2) obtain po where po: "om_pending m = Some po" "pending_kept po po'" by (auto simp: kept_def)
  with Some assms show ?thesis
    by (auto simp: om_side_def kept_def pending_kept_def clear_ids_def dest: order_less_le_trans)
qed

named_theorems om_simps \<open>the fields of the manager after an update\<close>

lemma om_update_simps [om_simps]:
  "record_ids (m\<lparr>om_client := c\<rparr>) = record_ids m" "temporary_ids (m\<lparr>om_client := c\<rparr>) = temporary_ids m"
  "candidate_ids (m\<lparr>om_client := c\<rparr>) = candidate_ids m" "clear_ids (m\<lparr>om_client := c\<rparr>) = clear_ids m"
  "record_ids (m\<lparr>om_debt := d\<rparr>) = record_ids m" "temporary_ids (m\<lparr>om_debt := d\<rparr>) = temporary_ids m"
  "candidate_ids (m\<lparr>om_debt := d\<rparr>) = candidate_ids m" "clear_ids (m\<lparr>om_debt := d\<rparr>) = clear_ids m"
  "record_ids (m\<lparr>om_pending := po\<rparr>) = record_ids m" "record_ids (m\<lparr>om_clock := t\<rparr>) = record_ids m"
  "temporary_ids (m\<lparr>om_clock := t\<rparr>) = temporary_ids m" "candidate_ids (m\<lparr>om_clock := t\<rparr>) = candidate_ids m"
  "clear_ids (m\<lparr>om_clock := t\<rparr>) = clear_ids m" "temporary_ids (m\<lparr>om_pending := None\<rparr>) = []"
  "candidate_ids (m\<lparr>om_pending := None\<rparr>) = []" "clear_ids (m\<lparr>om_pending := None\<rparr>) = []"
  "candidates (m\<lparr>om_client := c\<rparr>) = candidates m" "candidates (m\<lparr>om_debt := d\<rparr>) = candidates m"
  "candidates (m\<lparr>om_clock := t\<rparr>) = candidates m" "candidates (m\<lparr>om_pending := None\<rparr>) = []"
  "record_ids (upd_pending f m) = record_ids m" "om_client (upd_pending f m) = om_client m"
  "om_debt (upd_pending f m) = om_debt m" "om_fault (upd_pending f m) = om_fault m" "om_records (upd_pending f m) = om_records m"
  "om_pending (upd_pending f m) = map_option f (om_pending m)" "om_clock (upd_pending f m) = om_clock m"
  by (simp_all add: record_ids_def temporary_ids_def candidate_ids_def candidates_def clear_ids_def upd_pending_def)

lemma tick_simps [om_simps]:
  "record_ids (tick m) = record_ids m" "temporary_ids (tick m) = temporary_ids m" "candidate_ids (tick m) = candidate_ids m"
  "clear_ids (tick m) = clear_ids m" "om_client (tick m) = om_client m" "om_debt (tick m) = om_debt m" "om_fault (tick m) = om_fault m"
  "om_records (tick m) = om_records m" "om_pending (tick m) = om_pending m" "owned (tick m) = owned m" "candidates (tick m) = candidates m"
  "planned_specs (tick m) = planned_specs m"
  by (simp_all add: tick_def om_simps owned_def candidates_def planned_specs_def)

lemma tick_kept: "kept m m' \<Longrightarrow> kept m (tick m')"
  by (simp add: kept_def om_simps)

lemma on_client_eq: "on_client f m = (r, m') \<longleftrightarrow> (\<exists>p. f (om_client m) = (r, p) \<and> m' = m\<lparr>om_client := p\<rparr>)"
  by (auto simp: on_client_def split: prod.splits)

lemma register_effect:
  assumes "distinct (ids @ record_ids m)" and "distinct (om_debt m @ ids)"
  shows "register_cleanup_ids ids m = (Inr (), m\<lparr>om_debt := om_debt m @ ids\<rparr>)"
proof -
  have "filter (\<lambda>b. b \<in> set ids) (from_keys (record_ids m)) = []" using assms(1) by (auto simp: filter_empty_conv)
  with assms show ?thesis by (simp add: register_cleanup_ids_def Let_def from_keys_distinct)
qed

lemma cleanup_temporary_effect:
  assumes h: "holds F (om_client m) (C @ record_ids m @ temporary_ids m @ om_debt m)"
  shows "\<exists>fs m'. cleanup_pending_temporary e m = (Inr fs, m') \<and> holds F (om_client m') (C @ record_ids m' @ om_debt m')
    \<and> temporary_ids m' = [] \<and> candidate_ids m' = candidate_ids m \<and> kept m m'
    \<and> set (ph_bodies (om_client m)) - set (temporary_ids m) \<subseteq> set (ph_bodies (om_client m'))"
proof (cases "Option.bind (om_pending m) po_temporary")
  case None
  with h show ?thesis by (simp add: cleanup_pending_temporary_def temporary_ids_def kept_refl)
next
  case (Some ids)
  obtain po where po: "om_pending m = Some po" "po_temporary po = Some ids" using Some by (auto simp: bind_eq_Some_conv)
  obtain fs p where r: "remove_each_strict (me_physics e) ids (om_client m) = (fs, p)" by fastforce
  have "holds F (om_client m) (ids @ C @ record_ids m @ om_debt m)"
    using h Some by (elim holds_mset) (simp add: temporary_ids_def ac_simps)
  note h' = holds_remove_each [OF this r]
  from h have "physics_ok (om_client m)" by (simp add: holds_def)
  then have stay: "set (ph_bodies (om_client m)) - set (temporary_ids m) \<subseteq> set (ph_bodies p)"
    using remove_each_effect [OF _ r] Some by (simp add: removes_def temporary_ids_def)
  let ?m = "upd_pending (\<lambda>po. po\<lparr>po_temporary := Some []\<rparr>) (m\<lparr>om_client := p\<rparr>)"
  have d: "distinct (failed_ids fs @ record_ids ?m)" "distinct (om_debt ?m @ failed_ids fs)"
    using h' by (auto simp: holds_def om_simps)
  have kept: "kept m (?m\<lparr>om_debt := ds\<rparr>)" for ds
    using h' po by (simp add: kept_def om_simps pending_kept_def)
  have sub: "temporary_ids ?m = []" "candidate_ids ?m = candidate_ids m"
    using po by (simp_all add: temporary_ids_def candidate_ids_def candidates_def upd_pending_def)
  show ?thesis
  proof (cases "fs = []")
    case True
    with Some r have "cleanup_pending_temporary e m = (Inr [], ?m)"
      by (simp add: cleanup_pending_temporary_def on_client_def bind_op_def lift_res_def)
    moreover have "holds F (om_client ?m) (C @ record_ids ?m @ om_debt ?m)" using h' True by (simp add: om_simps)
    moreover have "kept m ?m" using h' po by (simp add: kept_def om_simps pending_kept_def)
    ultimately show ?thesis using sub stay by (auto simp: om_simps)
  next
    case False
    have "holds F p (C @ record_ids m @ om_debt m @ failed_ids fs)" using h' by (auto elim: holds_mset)
    with False Some r register_effect [OF d] kept [of "om_debt m @ failed_ids fs"] sub stay show ?thesis
      by (simp add: cleanup_pending_temporary_def on_client_def bind_op_def om_simps)
  qed
qed

lemma cleanup_ids_effect:
  assumes h: "holds F (om_client m) (ids @ record_ids m @ temporary_ids m @ om_debt m)"
  shows "\<exists>fs p. cleanup_candidates e ids m = (Inr fs, m\<lparr>om_client := p, om_debt := om_debt m @ failed_ids fs\<rparr>)
    \<and> holds F p (record_ids m @ temporary_ids m @ om_debt m @ failed_ids fs) \<and> ph_next p = ph_next (om_client m)"
proof -
  obtain fs p where r: "remove_each_strict (me_physics e) ids (om_client m) = (fs, p)" by fastforce
  note h' = holds_remove_each [OF h r]
  let ?m = "m\<lparr>om_client := p\<rparr>"
  have d: "distinct (failed_ids fs @ record_ids ?m)" "distinct (om_debt ?m @ failed_ids fs)"
    using h' by (auto simp: holds_def om_simps)
  have "holds F p (record_ids m @ temporary_ids m @ om_debt m @ failed_ids fs)" using h' by (auto elim: holds_mset)
  with h' r register_effect [OF d] show ?thesis
    by (cases "fs = []") (auto simp: cleanup_candidates_def on_client_def bind_op_def lift_res_def)
qed

lemma cleanup_candidates_effect:
  assumes h: "holds F (om_client m) (record_ids m @ temporary_ids m @ candidate_ids m @ om_debt m)"
  shows "\<exists>fs m'. cleanup_candidates e (candidate_ids m) m = (Inr fs, m')
    \<and> holds F (om_client m') (record_ids m' @ temporary_ids m' @ om_debt m')
    \<and> temporary_ids m' = temporary_ids m \<and> kept m m'"
proof -
  have "holds F (om_client m) (candidate_ids m @ record_ids m @ temporary_ids m @ om_debt m)"
    using h by (elim holds_mset) simp
  from cleanup_ids_effect [OF this, of e] show ?thesis by (force simp: om_simps kept_def pending_kept_def)
qed

lemma stop_add_effect:
  assumes "holds F (om_client m) (record_ids m @ om_debt m)" and "om_side F m" and "(r, m') = stop_add message m"
  shows "om_inv F m' \<and> kept m m' \<and> om_pending m' = None \<and> r \<noteq> Inr None"
  using assms by (simp add: stop_add_def om_inv_def owned_def om_simps om_side_def kept_def)

lemma on_create_effect:
  assumes "holds F (om_client m) xs" and "identified px" and "on_client (create_body px) m = (r, m1)"
  shows "kept m m1 \<and> (\<exists>p. m1 = m\<lparr>om_client := p\<rparr>) \<and> (case r of Inr b \<Rightarrow> holds F (om_client m1) (b # xs)
    | Inl (err, residual) \<Rightarrow> holds F (om_client m1) (residual @ xs))"
proof -
  from assms(3) obtain p where p: "create_body px (om_client m) = (r, p)" "m1 = m\<lparr>om_client := p\<rparr>" by (auto simp: on_client_eq)
  from holds_create [OF assms(1,2) p(1)] p(2) show ?thesis
    by (cases r) (auto simp: kept_def pending_kept_def split: prod.splits)
qed

lemma register_extra:
  assumes "holds F (om_client m) (ids @ owned m)"
  shows "register_cleanup_ids ids m = (Inr (), m\<lparr>om_debt := om_debt m @ ids\<rparr>)
    \<and> holds F (om_client m) (owned (m\<lparr>om_debt := om_debt m @ ids\<rparr>)) \<and> kept m (m\<lparr>om_debt := om_debt m @ ids\<rparr>)"
proof -
  have "distinct (ids @ record_ids m)" "distinct (om_debt m @ ids)" using assms by (auto simp: holds_def owned_def)
  from register_effect [OF this] assms show ?thesis
    by (auto simp: owned_def om_simps kept_def pending_kept_def elim!: holds_mset)
qed


definition adding :: "obstacle_manager \<Rightarrow> bool" where
  "adding m \<longleftrightarrow> (\<exists>po. om_pending m = Some po \<and> po_temporary po \<noteq> None)"

definition plan_complete :: "obstacle_manager \<Rightarrow> bool" where
  "plan_complete m \<longleftrightarrow> (\<exists>po b. om_pending m = Some po \<and> po_plan po = Some b \<and> length (bp_modes b) \<le> bp_next_index b)"

definition temporaries_made :: "obstacle_manager \<Rightarrow> nat" where
  "temporaries_made m = (case om_pending m of None \<Rightarrow> 0 | Some po \<Rightarrow> po_next_temporary po)"

definition ready :: "obstacle_manager \<Rightarrow> bool" where
  \<comment> \<open>planning is over and every temporary body has been made\<close>
  "ready m \<longleftrightarrow> adding m \<and> plan_complete m \<and> length (planned_specs m) \<le> temporaries_made m"

definition candidates_made :: "obstacle_manager \<Rightarrow> nat" where
  "candidates_made m = (case om_pending m of None \<Rightarrow> 0 | Some po \<Rightarrow> po_next_candidate po)"

definition specs_match :: "obstacle_manager \<Rightarrow> bool" where
  "specs_match m \<longleftrightarrow> candidates_made m = length (candidates m)
     \<and> map or_spec (candidates m) = take (candidates_made m) (planned_specs m)"

lemma stage_tick [simp]:
  "adding (tick m) = adding m" "plan_complete (tick m) = plan_complete m" "temporaries_made (tick m) = temporaries_made m"
  "ready (tick m) = ready m" "candidates_made (tick m) = candidates_made m" "specs_match (tick m) = specs_match m"
  by (simp_all add: om_simps plan_complete_def temporaries_made_def candidates_made_def adding_def ready_def specs_match_def)

lemma plan_of_tick [simp]: "plan_of (tick m) = plan_of m"
  by (simp add: plan_of_def om_simps)

lemma planned_of: "plan_of m' = plan_of m \<Longrightarrow> planned_specs m' = planned_specs m"
  by (simp add: planned_specs_def plan_of_def)

lemma make_temporaries_keeps:
  assumes "identified (me_physics e)" and "om_inv F m" and "adding m" and "plan_complete m"
    and "ss \<noteq> [] \<longrightarrow> candidates m = []"
    and "make_temporaries e ss m = (r, m')"
  shows "om_inv F m' \<and> kept m m'
    \<and> (om_pending m' = None \<or> adding m' \<and> plan_complete m' \<and> plan_of m' = plan_of m \<and> candidates m' = candidates m
        \<and> candidates_made m' = candidates_made m)
    \<and> (r = Inr None \<longrightarrow> om_pending m' \<noteq> None \<and> temporaries_made m' = temporaries_made m + length ss)"
  using assms(2-)
proof (induction ss arbitrary: m r m')
  case Nil
  then show ?case by (auto simp: kept_refl adding_def)
next
  case (Cons s ss)
  from Cons.prems(1) have h: "holds F (om_client m) (owned m)" and side: "om_side F m" by (auto simp: om_inv_def)
  from Cons.prems(4) have none: "candidates m = []" by simp
  obtain c m1 where c: "on_client (create_body (me_physics e)) m = (c, m1)" by fastforce
  note eff = on_create_effect [OF h assms(1) c]
  from eff obtain p where p: "m1 = m\<lparr>om_client := p\<rparr>" and k1: "kept m m1" by blast
  have owned1: "owned m1 = owned m" by (simp add: p owned_def om_simps)
  show ?case
  proof (cases c)
    case (Inl er)
    obtain err residual where er: "er = (err, residual)" by fastforce
    with eff Inl have "holds F (om_client m1) (residual @ owned m1)" by (simp add: owned1)
    note reg = register_extra [OF this]
    let ?m2 = "m1\<lparr>om_debt := om_debt m1 @ residual\<rparr>"
    have "holds F (om_client ?m2) ([] @ record_ids ?m2 @ temporary_ids ?m2 @ om_debt ?m2)"
      using reg none by (simp add: owned_def om_simps p candidate_ids_def)
    from cleanup_temporary_effect [OF this, of e] obtain fs m3 where m3: "cleanup_pending_temporary e ?m2 = (Inr fs, m3)"
      "holds F (om_client m3) (record_ids m3 @ om_debt m3)" "kept ?m2 m3" by auto
    have k3: "kept m m3" using k1 reg m3(3) kept_trans by blast
    have "(r, m') = stop_add (with_failures (exception_reason err) ''temporary'' fs) m3"
      using Cons.prems(5) c Inl er reg m3(1) by (simp add: bind_op_def)
    with stop_add_effect [OF m3(2) kept_side [OF side k3]] k3 show ?thesis by (blast intro: kept_trans)
  next
    case (Inr b)
    let ?m2 = "upd_pending (\<lambda>po. po\<lparr>po_temporary := map_option (\<lambda>ids. ids @ [b]) (po_temporary po),
                                   po_next_temporary := po_next_temporary po + 1\<rparr>) m1"
    from Cons.prems(2) obtain po ids where po: "om_pending m = Some po" "po_temporary po = Some ids" by (auto simp: adding_def)
    have fields: "temporary_ids ?m2 = temporary_ids m @ [b]" "candidates ?m2 = candidates m" "record_ids ?m2 = record_ids m"
      "planned_specs ?m2 = planned_specs m" "plan_of ?m2 = plan_of m" "temporaries_made ?m2 = Suc (temporaries_made m)" "candidates_made ?m2 = candidates_made m" "adding ?m2" "om_debt ?m2 = om_debt m"
      "plan_complete ?m2 = plan_complete m" "om_client ?m2 = om_client m1"
      using po by (simp_all add: p temporary_ids_def candidates_def record_ids_def planned_specs_def plan_of_def temporaries_made_def
          candidates_made_def adding_def plan_complete_def upd_pending_def)
    have "kept m ?m2" using k1 po by (auto simp: kept_def p pending_kept_def upd_pending_def)
    then have k2: "kept m (tick ?m2)" by (rule tick_kept)
    have "holds F (om_client ?m2) (owned ?m2)"
      using eff Inr fields by (auto simp: owned_def candidate_ids_def elim!: holds_mset)
    then have inv2: "om_inv F (tick ?m2)" using kept_side [OF side k2] by (simp add: om_inv_def om_simps)
    have fields': "adding (tick ?m2)" "plan_complete (tick ?m2)" "candidates (tick ?m2) = []" "planned_specs (tick ?m2) = planned_specs m" "plan_of (tick ?m2) = plan_of m"
      "temporaries_made (tick ?m2) = Suc (temporaries_made m)" "candidates_made (tick ?m2) = candidates_made m"
      using fields Cons.prems(3) none by (simp_all add: om_simps adding_def plan_complete_def temporaries_made_def)
    show ?thesis
    proof (cases "me_expired e (om_clock ?m2)")
      case True
      with Cons.prems(5) c Inr have "r = Inr (Some (pending_result ''add'' 0))" "m' = tick ?m2" by (simp_all add: Let_def)
      with inv2 k2 fields' none show ?thesis by auto
    next
      case False
      with Cons.prems(5) c Inr have "make_temporaries e ss (tick ?m2) = (r, m')" by (simp add: Let_def)
      from Cons.IH [OF inv2 fields'(1,2) _ this] fields' none k2 show ?thesis by (auto intro: kept_trans)
    qed
  qed
qed

lemma make_candidates_keeps:
  assumes "identified (me_physics e)" and "om_inv F m" and "ready m" and "Option.bind (om_pending m) po_candidates \<noteq> None"
    and "ss = drop (candidates_made m) (planned_specs m)" and "specs_match m"
    and "make_candidates e ss m = (r, m')"
  shows "om_inv F m' \<and> kept m m' \<and> (om_pending m' = None \<or> ready m' \<and> specs_match m' \<and> plan_of m' = plan_of m)
    \<and> (r = Inr None \<longrightarrow> om_pending m' \<noteq> None \<and> map or_spec (candidates m') = planned_specs m)"
  using assms(2-)
proof (induction ss arbitrary: m r m')
  case Nil
  then show ?case by (auto simp: kept_refl ready_def adding_def specs_match_def)
next
  case (Cons s ss)
  from Cons.prems(1) have h: "holds F (om_client m) (owned m)" and side: "om_side F m" by (auto simp: om_inv_def)
  obtain c m1 where c: "on_client (create_body (me_physics e)) m = (c, m1)" by fastforce
  note eff = on_create_effect [OF h assms(1) c]
  from eff obtain p where p: "m1 = m\<lparr>om_client := p\<rparr>" and k1: "kept m m1" by blast
  have owned1: "owned m1 = owned m" by (simp add: p owned_def om_simps)
  show ?case
  proof (cases c)
    case (Inl er)
    obtain err residual where er: "er = (err, residual)" by fastforce
    with eff Inl have "holds F (om_client m1) (residual @ owned m1)" by (simp add: owned1)
    note reg = register_extra [OF this]
    let ?m2 = "m1\<lparr>om_debt := om_debt m1 @ residual\<rparr>"
    have "holds F (om_client ?m2) (record_ids ?m2 @ temporary_ids ?m2 @ candidate_ids ?m2 @ om_debt ?m2)"
      using reg by (simp add: owned_def)
    from cleanup_candidates_effect [OF this, of e] obtain fs m3 where
      m3: "cleanup_candidates e (candidate_ids ?m2) ?m2 = (Inr fs, m3)"
        "holds F (om_client m3) ([] @ record_ids m3 @ temporary_ids m3 @ om_debt m3)" "kept ?m2 m3" by auto
    from cleanup_temporary_effect [OF m3(2), of e] obtain gs m4 where
      m4: "cleanup_pending_temporary e m3 = (Inr gs, m4)" "holds F (om_client m4) (record_ids m4 @ om_debt m4)" "kept m3 m4" by auto
    have k4: "kept m m4" using k1 reg m3(3) m4(3) kept_trans by blast
    have "(r, m') = stop_add (with_failures (exception_reason err) ''candidate'' (fs @ gs)) m4"
      using Cons.prems(6) c Inl er reg m3(1) m4(1) by (simp add: bind_op_def)
    with stop_add_effect [OF m4(2) kept_side [OF side k4]] k4 show ?thesis by (blast intro: kept_trans)
  next
    case (Inr b)
    let ?m2 = "upd_pending (\<lambda>po. po\<lparr>po_candidates := map_option (\<lambda>rs. rs @ [\<lparr>or_spec = s, or_body = b\<rparr>]) (po_candidates po),
                                   po_next_candidate := po_next_candidate po + 1\<rparr>) m1"
    from Cons.prems(3) obtain po rs where po: "om_pending m = Some po" "po_candidates po = Some rs" by (auto simp: bind_eq_Some_conv)
    have fields: "temporary_ids ?m2 = temporary_ids m" "candidates ?m2 = candidates m @ [\<lparr>or_spec = s, or_body = b\<rparr>]"
      "record_ids ?m2 = record_ids m" "planned_specs ?m2 = planned_specs m" "plan_of ?m2 = plan_of m" "candidates_made ?m2 = Suc (candidates_made m)"
      "om_debt ?m2 = om_debt m" "om_client ?m2 = om_client m1" "ready ?m2 = ready m"
      using po by (simp_all add: p temporary_ids_def candidates_def record_ids_def planned_specs_def plan_of_def candidates_made_def adding_def
          plan_complete_def upd_pending_def ready_def temporaries_made_def)
    have "kept m ?m2" using k1 po by (auto simp: kept_def p pending_kept_def upd_pending_def)
    then have k2: "kept m (tick ?m2)" by (rule tick_kept)
    have "holds F (om_client ?m2) (owned ?m2)"
      using eff Inr fields by (auto simp: owned_def candidate_ids_def elim!: holds_mset)
    then have inv2: "om_inv F (tick ?m2)" using kept_side [OF side k2] by (simp add: om_inv_def om_simps)
    have here: "candidates_made m < length (planned_specs m)" "planned_specs m ! candidates_made m = s"
      "ss = drop (Suc (candidates_made m)) (planned_specs m)"
      using Cons.prems(4) by (metis drop_eq_Nil leI list.distinct(1), metis nth_via_drop, metis drop_Suc list.sel(3) tl_drop)
    have fields': "ready (tick ?m2)" "planned_specs (tick ?m2) = planned_specs m" "plan_of (tick ?m2) = plan_of m" "candidates_made (tick ?m2) = Suc (candidates_made m)"
      "Option.bind (om_pending (tick ?m2)) po_candidates \<noteq> None"
      using fields Cons.prems(2) po
      by (simp_all add: om_simps ready_def adding_def plan_complete_def temporaries_made_def candidates_made_def p)
    have match: "specs_match (tick ?m2)"
      using Cons.prems(5) here fields' fields(2) by (simp add: specs_match_def om_simps(30) om_simps take_Suc_conv_app_nth)
    show ?thesis
    proof (cases "me_expired e (om_clock ?m2)")
      case True
      with Cons.prems(6) c Inr have "r = Inr (Some (pending_result ''add'' 0))" "m' = tick ?m2" by (simp_all add: Let_def)
      with inv2 k2 fields' match show ?thesis by auto
    next
      case False
      with Cons.prems(6) c Inr have "make_candidates e ss (tick ?m2) = (r, m')" by (simp add: Let_def)
      from Cons.IH [OF inv2 fields'(1,5) _ match this] fields' here(3) k2 show ?thesis by (auto intro: kept_trans)
    qed
  qed
qed

lemma drop_temporaries_keeps:
  assumes "om_inv F m" and "ready m" and "specs_match m" and "temporary_ids m = bs" and "drop_temporaries e bs m = (r, m')"
  shows "om_inv F m' \<and> kept m m'
    \<and> (om_pending m' = None \<or> ready m' \<and> specs_match m' \<and> plan_of m' = plan_of m)
    \<and> (r = Inr None \<longrightarrow> om_pending m' \<noteq> None \<and> candidates m' = candidates m \<and> temporary_ids m' = [])"
  using assms
proof (induction bs arbitrary: m r m')
  case Nil
  then show ?case by (auto simp: kept_refl ready_def adding_def)
next
  case (Cons b bs)
  from Cons.prems(1) have h: "holds F (om_client m) (owned m)" and side: "om_side F m" by (auto simp: om_inv_def)
  from Cons.prems(2) obtain po ids where po: "om_pending m = Some po" "po_temporary po = Some ids" by (auto simp: ready_def adding_def)
  obtain c m1 where c: "on_client (remove_committed_strict (me_physics e) b) m = (c, m1)" by fastforce
  then obtain p where p: "remove_committed_strict (me_physics e) b (om_client m) = (c, p)" "m1 = m\<lparr>om_client := p\<rparr>"
    by (auto simp: on_client_eq)
  have b: "b \<notin> F" using h Cons.prems(4) by (auto simp: holds_def owned_def)
  note gone = holds_remove [OF h b p(1)]
  let ?m2 = "upd_pending (\<lambda>po. po\<lparr>po_temporary := Some bs\<rparr>) m1"
  have fields: "temporary_ids ?m2 = bs" "candidates ?m2 = candidates m" "record_ids ?m2 = record_ids m" "om_debt ?m2 = om_debt m"
    "om_client ?m2 = p" "ready ?m2 = ready m" "specs_match ?m2 = specs_match m" "planned_specs ?m2 = planned_specs m" "plan_of ?m2 = plan_of m"
    using po by (simp_all add: p temporary_ids_def candidates_def record_ids_def upd_pending_def ready_def adding_def plan_complete_def
        planned_specs_def plan_of_def temporaries_made_def specs_match_def candidates_made_def)
  have k2: "kept m ?m2" using gone po by (simp add: p(2) kept_def pending_kept_def om_simps)
  have mset2: "mset (owned m) = mset (b # owned ?m2)"
    using fields Cons.prems(4) by (simp add: owned_def candidate_ids_def)
  show ?case
  proof (cases c)
    case (Inl exc)
    from gone have "holds F (om_client ?m2) ([b] @ owned ?m2)" using mset2 fields(5) by (auto elim!: holds_mset)
    note reg = register_extra [OF this]
    let ?m3 = "?m2\<lparr>om_debt := om_debt ?m2 @ [b]\<rparr>"
    have "holds F (om_client ?m3) (candidate_ids ?m3 @ record_ids ?m3 @ temporary_ids ?m3 @ om_debt ?m3)"
      using reg by (auto simp: owned_def elim!: holds_mset)
    from cleanup_temporary_effect [OF this, of e] obtain fs m4 where m4: "cleanup_pending_temporary e ?m3 = (Inr fs, m4)"
      "holds F (om_client m4) (candidate_ids ?m3 @ record_ids m4 @ om_debt m4)" "temporary_ids m4 = []"
      "candidate_ids m4 = candidate_ids ?m3" "kept ?m3 m4" by blast
    have "holds F (om_client m4) (record_ids m4 @ temporary_ids m4 @ candidate_ids m4 @ om_debt m4)"
      using m4(2,3,4) by (auto elim!: holds_mset)
    from cleanup_candidates_effect [OF this, of e] obtain gs m5 where
      m5: "cleanup_candidates e (candidate_ids m4) m4 = (Inr gs, m5)" "holds F (om_client m5) (record_ids m5 @ om_debt m5)" "kept m4 m5"
      using m4(3) by auto
    have k5: "kept m m5" using k2 reg m4(5) m5(3) kept_trans by blast
    have "(r, m') = stop_add (Lit ''temporary candidate cleanup failed ('' # format_failures ((Some b, exc) # fs @ gs) @ lit '')'') m5"
      using Cons.prems(5) c Inl reg m4(1) m5(1) by (simp add: bind_op_def Let_def)
    with stop_add_effect [OF m5(2) kept_side [OF side k5]] k5 show ?thesis by (blast intro: kept_trans)
  next
    case (Inr u)
    have "distinct (b # owned ?m2)"
      using h mset2 mset_eq_imp_distinct_iff [OF mset2] by (simp add: holds_def)
    moreover have "mset (removeAll b (owned m)) = mset (removeAll b (b # owned ?m2))"
      using mset2 by (metis mset_filter removeAll_filter_not_eq)
    ultimately have "mset (removeAll b (owned m)) = mset (owned ?m2)" by simp
    moreover have "holds F p (removeAll b (owned m))" using gone Inr by simp
    ultimately have "holds F (om_client ?m2) (owned ?m2)" using fields(5) by (auto elim: holds_mset)
    then have inv2: "om_inv F (tick ?m2)" using kept_side [OF side tick_kept [OF k2]] by (simp add: om_inv_def om_simps)
    have fields': "ready (tick ?m2)" "specs_match (tick ?m2)" "temporary_ids (tick ?m2) = bs" "planned_specs (tick ?m2) = planned_specs m" "plan_of (tick ?m2) = plan_of m"
      "candidates (tick ?m2) = candidates m"
      using fields Cons.prems(2,3) by (simp_all add: om_simps)
    show ?thesis
    proof (cases "me_expired e (om_clock ?m2)")
      case True
      with Cons.prems(5) c Inr have "r = Inr (Some (pending_result ''add'' 0))" "m' = tick ?m2" by (simp_all add: Let_def)
      with inv2 tick_kept [OF k2] fields' show ?thesis by auto
    next
      case False
      with Cons.prems(5) c Inr have "drop_temporaries e bs (tick ?m2) = (r, m')" by (simp add: Let_def)
      from Cons.IH [OF inv2 fields'(1,2,3) this] fields' tick_kept [OF k2] show ?thesis by (auto intro: kept_trans)
    qed
  qed
qed

definition staged :: "obstacle_manager \<Rightarrow> bool" where
  \<comment> \<open>temporary bodies are made when planning is over, and candidate bodies when all temporary ones are made\<close>
  "staged m \<longleftrightarrow> specs_match m
     \<and> (temporary_ids m \<noteq> [] \<or> candidates m \<noteq> [] \<longrightarrow> plan_complete m)
     \<and> (candidates m \<noteq> [] \<longrightarrow> length (planned_specs m) \<le> temporaries_made m)"

definition vehicle_clear :: "manager_env \<Rightarrow> obstacle_manager \<Rightarrow> bool" where
  \<comment> \<open>the vehicle's box does not reach the batch any more once its bodies are being made\<close>
  "vehicle_clear e m \<longleftrightarrow> candidates m = [] \<or> (case vehicle_box e (om_clock m) of
     Inl err \<Rightarrow> True
   | Inr box \<Rightarrow> \<not> batch_overlaps_vehicle (sm_planar (me_sampling e)) (me_settings e) (planned_specs m) box)"

lemma staged_none: "om_pending m = None \<Longrightarrow> staged m"
  by (simp add: staged_def specs_match_def candidates_def temporary_ids_def planned_specs_def candidates_made_def)

lemma staged_tick [simp]: "staged (tick m) = staged m"
  by (simp add: staged_def om_simps)

lemma stop_add_staged:
  assumes "om_inv F m" and "temporary_ids m = []" and "candidates m = []" and "(r, m') = stop_add message m"
  shows "om_inv F m' \<and> kept m m' \<and> om_pending m' = None \<and> r \<noteq> Inr None"
  using assms by (intro stop_add_effect) (simp_all add: om_inv_def owned_def candidate_ids_def)

lemma init_planning_keeps:
  assumes "om_inv F m" and "adding m" and "staged m" and "init_planning e q m = (r, m')"
  shows "om_inv F m' \<and> kept m m' \<and> (candidates m \<noteq> [] \<longrightarrow> m' = m) \<and> (om_pending m' = None \<or> adding m' \<and> staged m' \<and> candidates m' = candidates m)
    \<and> (r = Inr None \<longrightarrow> om_pending m' \<noteq> None)"
proof (cases "Option.bind (om_pending m) po_plan = None")
  case False
  with assms show ?thesis by (auto simp: init_planning_def kept_refl adding_def)
next
  case True
  then have none: "\<not> plan_complete m" by (auto simp: plan_complete_def)
  with assms(3) have no: "temporary_ids m = []" "candidates m = []" by (auto simp: staged_def)
  from assms(2) obtain po ids where po: "om_pending m = Some po" "po_temporary po = Some ids" by (auto simp: adding_def)
  show ?thesis
  proof (cases "start_plan (me_settings e) q (map or_spec (om_records m))")
    case (Inl exc)
    with True assms(4) have "(r, m') = stop_add (exception_reason exc) m" by (simp add: init_planning_def)
    from stop_add_staged [OF assms(1) no this] no show ?thesis by simp
  next
    case (Inr b)
    let ?m = "upd_pending (\<lambda>po. po\<lparr>po_plan := Some b\<rparr>) m"
    have m': "m' = ?m" "r = Inr None" using True Inr assms(4) by (simp_all add: init_planning_def)
    have same: "temporary_ids ?m = temporary_ids m" "candidates ?m = candidates m" "record_ids ?m = record_ids m"
      "candidates_made ?m = candidates_made m" "adding ?m" "om_pending ?m \<noteq> None"
      using po by (simp_all add: temporary_ids_def candidates_def record_ids_def candidates_made_def adding_def upd_pending_def)
    have k: "kept m ?m" using po by (simp add: kept_def pending_kept_def upd_pending_def)
    have "bp_planned b = []" using Inr by (auto simp: start_plan_def res_simps)
    then have "planned_specs ?m = []" using po by (simp add: planned_specs_def upd_pending_def)
    with same no assms(3) have "staged ?m" by (simp add: staged_def specs_match_def)
    moreover have "om_inv F ?m"
      using assms(1) kept_side [OF _ k] same by (simp add: om_inv_def owned_def candidate_ids_def om_simps)
    ultimately show ?thesis using k same no m' by auto
  qed
qed

lemma plan_slice_complete:
  "fst (plan_slice expired sm gs q existing t b) = Inr (True, b') \<Longrightarrow> length (bp_modes b') \<le> bp_next_index b'"
proof (induction expired sm gs q existing t b rule: plan_slice.induct)
  case (1 expired sm gs q existing t b)
  then show ?case
    by (simp add: plan_slice.simps [of _ _ _ _ _ _ b] split: if_splits sum.splits)
qed

lemma plan_phase_keeps:
  assumes "om_inv F m" and "adding m" and "staged m" and "plan_phase e q m = (r, m')"
    and "Option.bind (om_pending m) po_plan \<noteq> None"
  shows "om_inv F m' \<and> kept m m' \<and> (candidates m \<noteq> [] \<longrightarrow> m' = m) \<and> (om_pending m' = None \<or> adding m' \<and> staged m' \<and> candidates m' = candidates m)
    \<and> (r = Inr None \<longrightarrow> om_pending m' \<noteq> None \<and> plan_complete m')"
proof -
  from assms(2,5) obtain po ids b where po: "om_pending m = Some po" "po_temporary po = Some ids" "po_plan po = Some b"
    by (auto simp: adding_def)
  let ?slice = "plan_slice (me_expired e) (me_sampling e) (me_settings e) q (map or_spec (om_records m)) (om_clock m) b"
  obtain s t where slice: "?slice = (s, t)" by fastforce
  show ?thesis
  proof (cases "bp_next_index b < length (bp_modes b)")
    case False
    then have "s = Inr (True, b)" "t = om_clock m" using slice by (simp_all add: plan_slice.simps [of _ _ _ _ _ _ b])
    moreover have "upd_pending (\<lambda>po. po\<lparr>po_plan := Some b\<rparr>) (m\<lparr>om_clock := om_clock m\<rparr>) = m"
      using po by (simp add: upd_pending_def)
    ultimately have "m' = m" "r = Inr None" using assms(4) po slice by (simp_all add: plan_phase_def)
    moreover have "plan_complete m" using po False by (simp add: plan_complete_def)
    ultimately show ?thesis using assms po by (simp add: kept_refl)
  next
    case True
    then have "\<not> plan_complete m" using po by (auto simp: plan_complete_def)
    with assms(3) have no: "temporary_ids m = []" "candidates m = []" by (auto simp: staged_def)
    show ?thesis
    proof (cases s)
      case (Inl exc)
      then have "(r, m') = stop_add (exception_reason exc) (m\<lparr>om_clock := t\<rparr>)" using assms(4) po slice by (simp add: plan_phase_def)
      moreover have "om_inv F (m\<lparr>om_clock := t\<rparr>)" using assms(1) by (simp add: om_inv_def owned_def om_side_def om_simps)
      moreover have "kept m (m\<lparr>om_clock := t\<rparr>)" by (simp add: kept_def pending_kept_def)
      ultimately show ?thesis using stop_add_staged [of F "m\<lparr>om_clock := t\<rparr>" r m'] no by (auto simp: om_simps intro: kept_trans)
    next
      case (Inr wb)
      obtain whole b' where wb: "wb = (whole, b')" by fastforce
      let ?m = "upd_pending (\<lambda>po. po\<lparr>po_plan := Some b'\<rparr>) (m\<lparr>om_clock := t\<rparr>)"
      have m': "m' = ?m" "r = Inr (if whole then None else Some (pending_result ''add'' 0))"
        using assms(4) po slice Inr wb by (simp_all add: plan_phase_def)
      have same: "temporary_ids ?m = []" "candidates ?m = []" "record_ids ?m = record_ids m" "candidates_made ?m = candidates_made m"
        "adding ?m" "om_pending ?m \<noteq> None"
        using po no by (simp_all add: temporary_ids_def candidates_def record_ids_def candidates_made_def adding_def upd_pending_def)
      have k: "kept m ?m" using po by (simp add: kept_def pending_kept_def upd_pending_def)
      have inv: "om_inv F ?m"
        using assms(1) kept_side [OF _ k] same no by (simp add: om_inv_def owned_def candidate_ids_def om_simps)
      have "staged ?m" using assms(3) same no by (simp add: staged_def specs_match_def)
      moreover have "whole \<longrightarrow> plan_complete ?m"
        using plan_slice_complete [of "me_expired e" "me_sampling e" "me_settings e" q "map or_spec (om_records m)" "om_clock m" b b']
          slice Inr wb po by (auto simp: plan_complete_def upd_pending_def)
      ultimately show ?thesis using inv k same no m' by (cases whole) auto
    qed
  qed
qed

subsection \<open>The frames of an addition\<close>

definition plan_matches :: "obstacle_request \<Rightarrow> obstacle_manager \<Rightarrow> bool" where
  \<comment> \<open>there is a planned obstacle for each mode up to the next one\<close>
  "plan_matches q m \<longleftrightarrow> (\<forall>b. plan_of m = Some b \<longrightarrow> length (bp_planned b) = bp_next_index b
     \<and> bp_next_index b \<le> length (bp_modes b) \<and> modes_for_request q = Inr (bp_modes b))"

definition add_ok :: "nat set \<Rightarrow> obstacle_request \<Rightarrow> obstacle_manager \<Rightarrow> bool" where
  "add_ok F q m \<longleftrightarrow> om_inv F m \<and> (om_pending m = None \<or> adding m \<and> staged m \<and> plan_matches q m)"

lemma plan_matches_cong: "plan_of m' = plan_of m \<Longrightarrow> plan_matches q m' = plan_matches q m"
  by (simp add: plan_matches_def)

lemma ready_staged: "ready m \<Longrightarrow> specs_match m \<Longrightarrow> staged m"
  by (simp add: ready_def staged_def)

lemma plan_slice_matches:
  assumes "fst (plan_slice expired sm gs q existing t b) = Inr (whole, b')"
    and "length (bp_planned b) = bp_next_index b" and "bp_next_index b \<le> length (bp_modes b)"
  shows "length (bp_planned b') = bp_next_index b' \<and> bp_next_index b' \<le> length (bp_modes b') \<and> bp_modes b' = bp_modes b"
  using assms
proof (induction expired sm gs q existing t b rule: plan_slice.induct)
  case (1 expired sm gs q existing t b)
  show ?case
  proof (cases "bp_next_index b < length (bp_modes b)")
    case False
    with 1(2-) show ?thesis by (simp add: plan_slice.simps [of _ _ _ _ _ _ b])
  next
    case True
    with 1(2) obtain b1 where b1: "plan_attempt sm gs q existing b = Inr b1"
      by (cases "plan_attempt sm gs q existing b") (auto simp: plan_slice.simps [of _ _ _ _ _ _ b])
    have m1: "length (bp_planned b1) = bp_next_index b1" "bp_next_index b1 \<le> length (bp_modes b1)" "bp_modes b1 = bp_modes b"
      using plan_attempt_cases [OF b1] 1(3,4) True by auto
    show ?thesis
    proof (cases "expired t")
      case True
      with 1(2) \<open>bp_next_index b < length (bp_modes b)\<close> b1 m1 show ?thesis by (simp add: plan_slice.simps [of _ _ _ _ _ _ b])
    next
      case False
      with 1(2) True b1 have "fst (plan_slice expired sm gs q existing (Suc t) b1) = Inr (whole, b')"
        by (simp add: plan_slice.simps [of _ _ _ _ _ _ b])
      from 1(1) [OF True b1 False this m1(1,2)] m1(3) show ?thesis by metis
    qed
  qed
qed

lemma init_planning_matches:
  assumes "plan_matches q m" and "init_planning e q m = (r, m')"
  shows "plan_matches q m' \<and> (r = Inr None \<and> om_pending m \<noteq> None \<longrightarrow> plan_of m' \<noteq> None)"
proof (cases "Option.bind (om_pending m) po_plan = None")
  case False
  with assms show ?thesis by (auto simp: init_planning_def plan_of_def)
next
  case True
  show ?thesis
  proof (cases "start_plan (me_settings e) q (map or_spec (om_records m))")
    case (Inl exc)
    with True assms show ?thesis by (auto simp: init_planning_def stop_add_def plan_matches_def plan_of_def)
  next
    case (Inr b)
    then have "length (bp_planned b) = bp_next_index b" "bp_next_index b = 0" "modes_for_request q = Inr (bp_modes b)"
      by (auto simp: start_plan_def res_simps)
    with True assms Inr show ?thesis
      by (auto simp: init_planning_def plan_matches_def plan_of_def upd_pending_def map_option_case split: option.splits)
  qed
qed

lemma plan_phase_matches:
  assumes "plan_matches q m" and "plan_phase e q m = (r, m')"
  shows "plan_matches q m'"
proof (cases "plan_of m")
  case None
  with assms show ?thesis by (simp add: plan_phase_def plan_of_def)
next
  case (Some b)
  then obtain po where po: "om_pending m = Some po" "po_plan po = Some b" by (auto simp: plan_of_def bind_eq_Some_conv)
  obtain s t where slice: "plan_slice (me_expired e) (me_sampling e) (me_settings e) q (map or_spec (om_records m)) (om_clock m) b = (s, t)"
    by fastforce
  show ?thesis
  proof (cases s)
    case (Inl exc)
    with assms po slice show ?thesis by (auto simp: plan_phase_def stop_add_def plan_matches_def plan_of_def)
  next
    case (Inr wb)
    obtain whole b' where wb: "wb = (whole, b')" by fastforce
    from assms(1) Some have "length (bp_planned b) = bp_next_index b" "bp_next_index b \<le> length (bp_modes b)"
      "modes_for_request q = Inr (bp_modes b)" by (simp_all add: plan_matches_def)
    with plan_slice_matches [of "me_expired e" "me_sampling e" "me_settings e" q "map or_spec (om_records m)" "om_clock m" b whole b']
      assms(2) po slice Inr wb show ?thesis
      by (auto simp: plan_phase_def plan_matches_def plan_of_def upd_pending_def)
  qed
qed

lemma temporary_phase_keeps:
  assumes "identified (me_physics e)" and "om_inv F m" and "adding m" and "staged m" and "plan_complete m"
    and "temporary_phase e m = (r, m')"
  shows "om_inv F m' \<and> kept m m' \<and> (candidates m \<noteq> [] \<longrightarrow> m' = m \<and> r = Inr None)
    \<and> (om_pending m' = None \<or> adding m' \<and> staged m' \<and> plan_of m' = plan_of m \<and> candidates m' = candidates m)
    \<and> (r = Inr None \<longrightarrow> om_pending m' \<noteq> None \<and> ready m')"
proof -
  let ?ss = "drop (temporaries_made m) (planned_specs m)"
  from assms(6) have run: "make_temporaries e ?ss m = (r, m')" by (simp add: temporary_phase_def temporaries_made_def)
  have cands: "candidates m \<noteq> [] \<longrightarrow> ?ss = []" using assms(4) by (simp add: staged_def)
  then have "?ss \<noteq> [] \<longrightarrow> candidates m = []" by blast
  note keeps = make_temporaries_keeps [OF assms(1,2,3,5) this run]
  show ?thesis
  proof (cases "?ss = []")
    case True
    with run have "m' = m" "r = Inr None" by simp_all
    with True assms keeps show ?thesis by (auto simp: ready_def)
  next
    case False
    with cands have none: "candidates m = []" by blast
    have "staged m'" if "om_pending m' \<noteq> None"
    proof -
      from that keeps have "adding m'" "plan_complete m'" "plan_of m' = plan_of m" "candidates m' = []" using none by auto
      moreover have "candidates_made m' = 0" using that keeps none assms(4) by (auto simp: staged_def specs_match_def)
      ultimately show ?thesis by (simp add: staged_def specs_match_def)
    qed
    moreover have "ready m'" if "r = Inr None"
    proof -
      from that keeps have k: "om_pending m' \<noteq> None" "temporaries_made m' = temporaries_made m + length ?ss" by auto
      with keeps have "adding m'" "plan_complete m'" "planned_specs m' = planned_specs m" by (auto dest: planned_of)
      with k show ?thesis by (simp add: ready_def)
    qed
    ultimately show ?thesis using keeps none by auto
  qed
qed

lemma vehicle_phase_keeps:
  assumes "om_inv F m" and "ready m" and "specs_match m" and "vehicle_clear e m" and "vehicle_phase e m = (r, m')"
  shows "om_inv F m' \<and> kept m m' \<and> (om_pending m' = None \<or> ready m' \<and> specs_match m' \<and> plan_of m' = plan_of m)
    \<and> (r = Inr None \<longrightarrow> om_pending m' \<noteq> None)"
proof -
  have same: "om_inv F (tick m)" "kept m (tick m)" "om_pending (tick m) \<noteq> None"
    using assms(1,2) kept_side [of F m "tick m"] tick_kept [OF kept_refl]
    by (auto simp: om_inv_def om_simps ready_def adding_def)
  show ?thesis
  proof (cases "vehicle_box e (om_clock m)")
    case (Inl err)
    with assms same show ?thesis by (auto simp: vehicle_phase_def)
  next
    case (Inr box)
    show ?thesis
    proof (cases "batch_overlaps_vehicle (sm_planar (me_sampling e)) (me_settings e) (planned_specs m) box")
      case False
      with Inr assms same show ?thesis by (auto simp: vehicle_phase_def)
    next
      case True
      with Inr assms(4) have none: "candidates m = []" by (simp add: vehicle_clear_def)
      have "holds F (om_client (tick m)) ([] @ record_ids (tick m) @ temporary_ids (tick m) @ om_debt (tick m))"
        using same(1) none by (simp add: om_inv_def owned_def om_simps candidate_ids_def)
      from cleanup_temporary_effect [OF this, of e] obtain fs m1 where m1: "cleanup_pending_temporary e (tick m) = (Inr fs, m1)"
        "holds F (om_client m1) (record_ids m1 @ om_debt m1)" "kept (tick m) m1" by auto
      have k: "kept m m1" using same(2) m1(3) kept_trans by blast
      have "om_side F m" using assms(1) by (simp add: om_inv_def)
      moreover have "(r, m') = stop_add (with_failures (lit ''vehicle AABB overlaps planned obstacle batch'') ''temporary'' fs) m1"
        using assms(5) Inr True m1(1) by (simp add: vehicle_phase_def bind_op_def)
      ultimately show ?thesis using stop_add_effect [OF m1(2) kept_side [OF _ k]] k by (blast intro: kept_trans)
    qed
  qed
qed

lemma candidate_phase_keeps:
  assumes "identified (me_physics e)" and "om_inv F m" and "ready m" and "specs_match m" and "candidate_phase e m = (r, m')"
  shows "om_inv F m' \<and> kept m m' \<and> (om_pending m' = None \<or> ready m' \<and> specs_match m' \<and> plan_of m' = plan_of m)
    \<and> (r = Inr None \<longrightarrow> om_pending m' \<noteq> None \<and> map or_spec (candidates m') = planned_specs m')"
proof -
  let ?m = "upd_pending (\<lambda>po. po\<lparr>po_candidates := Some (case po_candidates po of None \<Rightarrow> [] | Some rs \<Rightarrow> rs)\<rparr>) m"
  from assms(3) obtain po ids where po: "om_pending m = Some po" "po_temporary po = Some ids" by (auto simp: ready_def adding_def)
  have same: "temporary_ids ?m = temporary_ids m" "candidates ?m = candidates m" "candidates_made ?m = candidates_made m"
    "planned_specs ?m = planned_specs m" "plan_of ?m = plan_of m" "adding ?m" "plan_complete ?m = plan_complete m"
    "temporaries_made ?m = temporaries_made m" "Option.bind (om_pending ?m) po_candidates \<noteq> None"
    using po by (simp_all add: temporary_ids_def candidates_def candidates_made_def planned_specs_def plan_of_def adding_def
        plan_complete_def temporaries_made_def upd_pending_def split: option.split)
  have k: "kept m ?m" using po by (simp add: kept_def pending_kept_def upd_pending_def)
  have inv: "om_inv F ?m"
    using assms(2) kept_side [OF _ k] same by (simp add: om_inv_def owned_def candidate_ids_def om_simps)
  have "ready ?m" "specs_match ?m" using assms(3,4) same by (simp_all add: ready_def specs_match_def)
  moreover have "make_candidates e (drop (candidates_made ?m) (planned_specs ?m)) ?m = (r, m')"
    using assms(5) same po by (simp add: candidate_phase_def candidates_made_def)
  ultimately have "om_inv F m' \<and> kept ?m m' \<and> (om_pending m' = None \<or> ready m' \<and> specs_match m' \<and> plan_of m' = plan_of ?m)
    \<and> (r = Inr None \<longrightarrow> om_pending m' \<noteq> None \<and> map or_spec (candidates m') = planned_specs ?m)"
    using make_candidates_keeps [OF assms(1) inv _ same(9) refl] by blast
  with k same show ?thesis using planned_of [of m' ?m] by (auto intro: kept_trans)
qed

lemma publish_phase_keeps:
  assumes "om_inv F m" and "ready m" and "specs_match m" and "temporary_ids m = []" and "publish_phase m = (r, m')"
  shows "om_inv F m' \<and> (m' = m \<and> (\<exists>err. r = Inl err)
    \<or> om_pending m' = None \<and> r = Inr (Some (success_result ''add'' (length (candidates m)) 0)) \<and> om_records m' = om_records m @ candidates m)"
proof (cases "publish_records (om_records m @ candidates m) None m")
  case (Pair res m1)
  then have "(\<exists>err. res = Inl err) \<and> m1 = m \<or> res = Inr () \<and> (om_fault m \<noteq> None \<longrightarrow> om_records m @ candidates m = [])
      \<and> om_client m1 = om_client m \<and> om_debt m1 = om_debt m \<and> om_fault m1 = om_fault m \<and> om_records m1 = om_records m @ candidates m"
    by (auto simp: publish_records_def Let_def split: if_splits)
  then show ?thesis
  proof
    assume "(\<exists>err. res = Inl err) \<and> m1 = m"
    with Pair assms show ?thesis by (auto simp: publish_phase_def bind_op_def)
  next
    assume ok: "res = Inr () \<and> (om_fault m \<noteq> None \<longrightarrow> om_records m @ candidates m = [])
      \<and> om_client m1 = om_client m \<and> om_debt m1 = om_debt m \<and> om_fault m1 = om_fault m \<and> om_records m1 = om_records m @ candidates m"
    with Pair assms(5) have r: "r = Inr (Some (success_result ''add'' (length (candidates m)) 0))" "m' = m1\<lparr>om_pending := None\<rparr>"
      by (simp_all add: publish_phase_def bind_op_def)
    have "holds F (om_client m) (record_ids m @ candidate_ids m @ om_debt m)" using assms(1,4) by (simp add: om_inv_def owned_def)
    then have "om_inv F m'"
      using ok assms(1) by (simp add: r(2) om_inv_def owned_def om_simps om_side_def record_ids_def candidate_ids_def)
    with r ok show ?thesis by simp
  qed
qed

lemma next_phase_cases:
  assumes "next_phase f g m = (r, m')"
  obtains m1 where "f m = (Inr None, m1)" "g m1 = (r, m')" | "f m = (r, m')" "r \<noteq> Inr None"
proof (cases "f m")
  case (Pair x m1)
  show ?thesis
  proof (cases "x = Inr None")
    case True
    with Pair assms that(1) show ?thesis by (simp add: next_phase_def bind_op_def)
  next
    case False
    with Pair assms have "x = r" "m1 = m'"
      by (auto simp: next_phase_def bind_op_def split: sum.splits option.splits)
    with Pair False that(2) show ?thesis by simp
  qed
qed

lemma plan_matches_none: "om_pending m = None \<Longrightarrow> plan_matches q m"
  by (simp add: plan_matches_def plan_of_def)

lemma ready_count:
  assumes "ready m" and "plan_matches q m"
  shows "int (length (planned_specs m)) = max 0 (oq_count q)"
proof -
  from assms(1) obtain po b where b: "om_pending m = Some po" "po_plan po = Some b" "length (bp_modes b) \<le> bp_next_index b"
    by (auto simp: ready_def plan_complete_def)
  with assms(2) have "length (planned_specs m) = length (bp_modes b)" "modes_for_request q = Inr (bp_modes b)"
    by (simp_all add: plan_matches_def plan_of_def planned_specs_def)
  with modes_for_request_length show ?thesis by metis
qed

lemma advance_add_keeps:
  assumes id: "identified (me_physics e)" and ok: "add_ok F q m" and add: "adding m" and clear: "vehicle_clear e m"
    and run: "advance_add e q m = (r, m')"
  shows "add_ok F q m' \<and> r \<noteq> Inr None
     \<and> (\<forall>po'. om_pending m' = Some po' \<longrightarrow> (\<exists>po. om_pending m = Some po \<and> po_operation po' = po_operation po))
     \<and> (om_records m' = om_records m \<or> om_pending m' = None \<and> (\<exists>rs. om_records m' = om_records m @ rs \<and> int (length rs) = max 0 (oq_count q)
        \<and> r = Inr (Some (success_result ''add'' (length rs) 0))))"
proof -
  have stop: ?thesis if "kept m mi" "kept mi m'" "om_inv F m'" "r \<noteq> Inr None"
    "om_pending m' = None \<or> adding m' \<and> staged m' \<and> plan_matches q m'" for mi
    using that kept_trans [OF that(1,2)] by (auto simp: add_ok_def kept_def pending_kept_def)
  from ok add have inv0: "om_inv F m" "staged m" "plan_matches q m" by (auto simp: add_ok_def adding_def)
  show ?thesis
    using run [unfolded advance_add_def]
  proof (cases rule: next_phase_cases)
    case 2
    with init_planning_keeps [OF inv0(1) add inv0(2) 2(1)] init_planning_matches [OF inv0(3) 2(1)] show ?thesis
      by (intro stop [OF kept_refl]) auto
  next
    case (1 m1)
    note k1 = init_planning_keeps [OF inv0(1) add inv0(2) 1(1)]
    then have a1: "om_inv F m1" "adding m1" "staged m1" "plan_matches q m1" "plan_of m1 \<noteq> None" "kept m m1"
      "candidates m1 = candidates m" "candidates m \<noteq> [] \<longrightarrow> m1 = m"
      using init_planning_matches [OF inv0(3) 1(1)] add by (auto simp: adding_def)
    have p1: "Option.bind (om_pending m1) po_plan \<noteq> None" using a1(5) by (simp add: plan_of_def)
    show ?thesis
      using 1(2)
    proof (cases rule: next_phase_cases)
      case 2
      with plan_phase_keeps [OF a1(1,2,3) 2(1) p1] plan_phase_matches [OF a1(4) 2(1)] show ?thesis by (intro stop [OF a1(6)]) auto
    next
      case (1 m2)
      note k2 = plan_phase_keeps [OF a1(1,2,3) 1(1) p1]
      then have a2: "om_inv F m2" "adding m2" "staged m2" "plan_complete m2" "plan_matches q m2" "kept m m2"
        "candidates m2 = candidates m" "candidates m \<noteq> [] \<longrightarrow> m2 = m"
        using plan_phase_matches [OF a1(4) 1(1)] a1(6,7,8) by (auto intro: kept_trans)
      show ?thesis
        using 1(2)
      proof (cases rule: next_phase_cases)
        case 2
        with temporary_phase_keeps [OF id a2(1,2,3,4) 2(1)] a2(5) plan_matches_cong [of m' m2 q] show ?thesis by (intro stop [OF a2(6)]) auto
      next
        case (1 m3)
        note k3 = temporary_phase_keeps [OF id a2(1,2,3,4) 1(1)]
        then have a3: "om_inv F m3" "ready m3" "staged m3" "plan_matches q m3" "kept m m3"
          "candidates m3 = candidates m" "candidates m \<noteq> [] \<longrightarrow> m3 = m"
          using a2(5,6,7,8) plan_matches_cong [of m3 m2 q] by (auto intro: kept_trans)
        have s3: "specs_match m3" using a3(3) by (simp add: staged_def)
        have c3: "vehicle_clear e m3" using a3(6,7) clear by (cases "candidates m = []") (auto simp: vehicle_clear_def)
        show ?thesis
          using 1(2)
        proof (cases rule: next_phase_cases)
          case 2
          with vehicle_phase_keeps [OF a3(1,2) s3 c3 2(1)] a3(4) plan_matches_cong [of m' m3 q] ready_staged [of m'] show ?thesis
            by (intro stop [OF a3(5)]) (auto simp: ready_def)
        next
          case (1 m4)
          note k4 = vehicle_phase_keeps [OF a3(1,2) s3 c3 1(1)]
          then have a4: "om_inv F m4" "ready m4" "specs_match m4" "plan_matches q m4" "kept m m4"
            using a3(4,5) plan_matches_cong [of m4 m3 q] by (auto intro: kept_trans)
          show ?thesis
            using 1(2)
          proof (cases rule: next_phase_cases)
            case 2
            with candidate_phase_keeps [OF id a4(1,2,3) 2(1)] a4(4) plan_matches_cong [of m' m4 q] ready_staged [of m'] show ?thesis
              by (intro stop [OF a4(5)]) (auto simp: ready_def)
          next
            case (1 m5)
            note k5 = candidate_phase_keeps [OF id a4(1,2,3) 1(1)]
            then have a5: "om_inv F m5" "ready m5" "specs_match m5" "plan_matches q m5" "kept m m5"
              "map or_spec (candidates m5) = planned_specs m5"
              using a4(4,5) plan_matches_cong [of m5 m4 q] by (auto intro: kept_trans)
            show ?thesis
              using 1(2)
            proof (cases rule: next_phase_cases)
              case 2
              with drop_temporaries_keeps [OF a5(1,2,3) refl 2(1) [unfolded removal_phase_def]] a5(4) plan_matches_cong [of m' m5 q] ready_staged [of m']
              show ?thesis by (intro stop [OF a5(5)]) (auto simp: ready_def)
            next
              case (1 m6)
              note k6 = drop_temporaries_keeps [OF a5(1,2,3) refl 1(1) [unfolded removal_phase_def]]
              then have a6: "om_inv F m6" "ready m6" "specs_match m6" "plan_matches q m6" "kept m m6" "temporary_ids m6 = []"
                "candidates m6 = candidates m5"
                using a5(4,5) plan_matches_cong [of m6 m5 q] by (auto intro: kept_trans)
              have n6: "int (length (candidates m6)) = max 0 (oq_count q)"
                using ready_count [OF a5(2,4)] a5(6) a6(7) by (metis length_map)
              have same: "om_records m6 = om_records m" using a6(5) by (simp add: kept_def)
              from publish_phase_keeps [OF a6(1,2,3,6) 1(2)] show ?thesis
              proof (elim conjE disjE)
                assume "m' = m6" "\<exists>err. r = Inl err"
                with a6 ready_staged [of m6] show ?thesis by (intro stop [OF a6(5)]) (auto simp: ready_def kept_refl)
              next
                assume "om_inv F m'" "om_pending m' = None" "r = Inr (Some (success_result ''add'' (length (candidates m6)) 0))"
                  "om_records m' = om_records m6 @ candidates m6"
                with n6 same show ?thesis by (auto simp: add_ok_def)
              qed
            qed
          qed
        qed
      qed
    qed
  qed
qed

end
