(* ===== verification/ObstacleLifecycle.thy ===== *)
theory ObstacleLifecycle
  imports ObstacleOwnership
begin

text \<open>
  All operations of the obstacle manager together: none of them, whatever fails in it, loses a body, gives
  one two owners or touches a foreign one; restoring a snapshot is all or nothing; the cached specs are the
  current ones.  The one way a body is lost, a vehicle that moves into the batch while its bodies are being
  made, is stated as such.
\<close>

subsection \<open>The fault state and the debt\<close>

lemma holds_grow:
  "holds F p xs \<Longrightarrow> set xs \<subseteq> set ys \<Longrightarrow> distinct ys \<Longrightarrow> set ys \<inter> F = {} \<Longrightarrow> \<forall>b\<in>set ys. b < ph_next p \<Longrightarrow> holds F p ys"
  by (auto simp: holds_def)

lemma enter_fault_effect:
  assumes known: "holds F (om_client m) (from_keys (record_ids m @ temporary_ids m @ candidate_ids m @ om_debt m @ ids))"
  shows "\<exists>m'. enter_fault e reason ids m = (Inr (), m') \<and> om_inv F m' \<and> om_records m' = [] \<and> om_fault m' = Some reason
    \<and> om_pending m' = None \<and> ph_next (om_client m') = ph_next (om_client m)"
proof -
  let ?known = "from_keys (record_ids m @ temporary_ids m @ candidate_ids m @ om_debt m @ ids)"
  let ?m0 = "m\<lparr>om_pending := None\<rparr>"
  obtain m1 where pub: "publish_records [] None ?m0 = (Inr (), m1)" and m1: "om_client m1 = om_client m" "om_records m1 = []"
      "om_pending m1 = None"
    by (auto simp: publish_records_def Let_def from_keys_def)
  obtain listing p where l: "list_bodies (me_physics e) (om_client m) = (listing, p)" by fastforce
  note listed = holds_listed [OF known l]
  let ?left = "case listing of Inl d \<Rightarrow> ?known | Inr current \<Rightarrow> filter (\<lambda>b. b \<in> set current) ?known"
  let ?m2 = "m1\<lparr>om_fault := Some reason, om_client := p, om_debt := []\<rparr>"
  have left: "distinct ?left" by (simp split: sum.split)
  have rec: "record_ids ?m2 = []" using m1 by (simp add: record_ids_def)
  have "register_cleanup_ids ?left ?m2 = (Inr (), ?m2\<lparr>om_debt := ?left\<rparr>)"
    using register_effect [of ?left ?m2] left rec by simp
  then have run: "enter_fault e reason ids m = (Inr (), ?m2\<lparr>om_debt := ?left\<rparr>)"
    using pub l m1(1) by (simp add: enter_fault_def Let_def bind_op_def on_client_def)
  have "holds F p ?left"
  proof (cases listing)
    case (Inl d)
    with listed show ?thesis by simp
  next
    case (Inr current)
    with listed have "current = ph_bodies p" by simp
    with Inr show ?thesis by (simp, intro holds_shrink [OF conjunct1 [OF listed]]) auto
  qed
  then have "om_inv F (?m2\<lparr>om_debt := ?left\<rparr>)"
    using m1 rec by (simp add: om_inv_def owned_def om_side_def temporary_ids_def candidate_ids_def candidates_def clear_ids_def record_ids_def)
  with run m1 listed show ?thesis by simp
qed

definition idle :: "obstacle_manager \<Rightarrow> bool" where
  "idle m \<longleftrightarrow> om_pending m = None \<and> om_debt m = [] \<and> om_fault m = None"

lemma idle_owned: "om_pending m = None \<Longrightarrow> owned m = record_ids m @ om_debt m"
  by (simp add: owned_def temporary_ids_def candidate_ids_def candidates_def)

lemma require_no_pending_effect:
  assumes inv: "om_inv F m" and run: "require_no_pending e m = (r, m')"
  shows "om_inv F m' \<and> om_records m' = om_records m \<and> om_pending m' = om_pending m \<and> (r = Inr () \<longrightarrow> idle m')
    \<and> ph_next (om_client m) \<le> ph_next (om_client m')"
proof (cases "om_pending m = None")
  case False
  with run inv show ?thesis by (auto simp: require_no_pending_def)
next
  case True
  from inv have h: "holds F (om_client m) (record_ids m @ om_debt m)" by (simp add: om_inv_def idle_owned [OF True])
  then have "filter (\<lambda>b. b \<in> set (om_debt m)) (from_keys (record_ids m)) = []" by (auto simp: holds_def filter_empty_conv)
  then have ok: "overlap_fault e m = (Inr (), m)" by (simp add: overlap_fault_def)
  obtain s m1 where settle: "settle_debt e m = (s, m1)" by fastforce
  have settled: "om_inv F m1 \<and> om_records m1 = om_records m \<and> om_pending m1 = None \<and> om_fault m1 = om_fault m
    \<and> (s = Inr () \<longrightarrow> om_debt m1 = []) \<and> ph_next (om_client m1) = ph_next (om_client m)"
  proof (cases "om_debt m = []")
    case True
    with settle inv \<open>om_pending m = None\<close> show ?thesis by (auto simp: settle_debt_def)
  next
    case False
    obtain fs p where fs: "remove_each_strict (me_physics e) (om_debt m) (om_client m) = (fs, p)" by fastforce
    have "holds F (om_client m) (om_debt m @ record_ids m)" using h by (elim holds_mset) simp
    note h' = holds_remove_each [OF this fs]
    from settle False fs have m1: "m1 = m\<lparr>om_client := p, om_debt := failed_ids fs\<rparr>" "s = Inr () \<longrightarrow> fs = []"
      by (auto simp: settle_debt_def on_client_def split: if_splits)
    have "holds F p (record_ids m @ failed_ids fs)" using h' by (auto elim: holds_mset)
    with inv h' True show ?thesis
      by (simp add: m1 om_inv_def om_side_def idle_owned om_simps clear_ids_def)
  qed
  have "r = Inr () \<longrightarrow> s = Inr () \<and> om_fault m1 = None" "m' = m1"
    using run True ok settle by (auto simp: require_no_pending_def bind_op_def split: sum.splits option.splits)
  with settled True show ?thesis by (simp add: idle_def)
qed

lemma publish_effect:
  assumes run: "publish_records rs n m = (r, m')" and idle: "om_pending m = None \<or> om_fault m = None"
  shows "m' = m \<and> (\<exists>err. r = Inl err) \<or> r = Inr () \<and> om_records m' = rs \<and> om_client m' = om_client m \<and> om_debt m' = om_debt m
    \<and> om_fault m' = om_fault m \<and> om_pending m' = om_pending m \<and> (om_fault m \<noteq> None \<longrightarrow> rs = [])"
  using run by (auto simp: publish_records_def Let_def split: if_splits)

lemma publish_ok:
  assumes "distinct (map or_body rs @ om_debt m)" and "om_fault m = None"
  shows "\<exists>m'. publish_records rs n m = (Inr (), m')"
proof -
  have "filter (\<lambda>b. b \<in> set (om_debt m)) (from_keys (map or_body rs)) = []" using assms(1) by (auto simp: filter_empty_conv)
  with assms show ?thesis by (simp add: publish_records_def Let_def)
qed

subsection \<open>Starting, clearing, deleting\<close>

lemma start_operation:
  assumes inv: "om_inv F m" and none: "om_pending m = None" and "temporary = Some [] \<or> temporary = None \<and> operation = ClearOp"
    and clear: "set ids \<subseteq> set (record_ids m)"
  shows "om_inv F (m\<lparr>om_pending := Some (new_pending operation temporary ids)\<rparr>)"
proof -
  let ?m = "m\<lparr>om_pending := Some (new_pending operation temporary ids)\<rparr>"
  have "temporary_ids ?m = []" "candidate_ids ?m = []" "clear_ids ?m = ids"
    using assms(3) by (auto simp: temporary_ids_def candidate_ids_def candidates_def clear_ids_def new_pending_def)
  moreover from inv have h: "holds F (om_client m) (record_ids m @ om_debt m)" by (simp add: om_inv_def idle_owned [OF none])
  moreover have "set ids \<inter> F = {}" "\<forall>b\<in>set ids. b < ph_next (om_client m)" using h clear by (auto simp: holds_def)
  ultimately show ?thesis
    using inv assms(3) by (auto simp: om_inv_def om_side_def owned_def om_simps new_pending_def)
qed

lemma begin_add_effect:
  assumes "om_inv F m" and "begin_add e q m = (r, m')"
  shows "om_inv F m' \<and> om_records m' = om_records m \<and> (om_pending m' = om_pending m
    \<or> om_pending m' = Some (new_pending (AddOp q) (Some []) []))"
proof -
  obtain s m1 where req: "require_no_pending e m = (s, m1)" by fastforce
  note k = require_no_pending_effect [OF assms(1) req]
  show ?thesis
  proof (cases s)
    case (Inl err)
    with assms(2) req k show ?thesis by (auto simp: begin_add_def bind_op_def)
  next
    case (Inr u)
    with assms(2) req have m': "m' = m1\<lparr>om_pending := Some (new_pending (AddOp q) (Some []) [])\<rparr>" by (auto simp: begin_add_def bind_op_def)
    from k Inr have "om_pending m1 = None" by (auto simp: idle_def)
    with k m' start_operation [of F m1 "Some []" "AddOp q" "[]"] show ?thesis by auto
  qed
qed

lemma begin_clear_effect:
  assumes "om_inv F m" and "begin_clear e m = (r, m')"
  shows "om_inv F m' \<and> om_records m' = om_records m \<and> (om_pending m' = om_pending m
    \<or> om_pending m' = Some (new_pending ClearOp None (record_ids m)))"
proof -
  obtain s m1 where req: "require_no_pending e m = (s, m1)" by fastforce
  note k = require_no_pending_effect [OF assms(1) req]
  show ?thesis
  proof (cases s)
    case (Inl err)
    with assms(2) req k show ?thesis by (auto simp: begin_clear_def bind_op_def)
  next
    case (Inr u)
    with assms(2) req have m': "m' = m1\<lparr>om_pending := Some (new_pending ClearOp None (record_ids m1))\<rparr>"
      by (auto simp: begin_clear_def bind_op_def)
    from k have ids: "record_ids m1 = record_ids m" by (simp add: record_ids_def)
    from k Inr have "om_pending m1 = None" by (auto simp: idle_def)
    from start_operation [OF conjunct1 [OF k] this, of None ClearOp "record_ids m1"] k m' ids show ?thesis by auto
  qed
qed

lemma record_ids_filter: "map or_body (filter (\<lambda>r. or_body r \<noteq> b) rs) = removeAll b (map or_body rs)"
  by (induction rs) auto

lemma on_removed:
  assumes inv: "om_inv F m" and b: "b \<notin> F" and run: "on_client (remove_committed_strict px b) m = (r, m1)"
  shows "\<exists>p. m1 = m\<lparr>om_client := p\<rparr> \<and> om_inv F m1 \<and> ph_next p = ph_next (om_client m)
    \<and> (r = Inr () \<longrightarrow> holds F p (removeAll b (owned m1)))"
proof -
  from run obtain p where p: "remove_committed_strict px b (om_client m) = (r, p)" "m1 = m\<lparr>om_client := p\<rparr>" by (auto simp: on_client_eq)
  from inv have h: "holds F (om_client m) (owned m)" by (simp add: om_inv_def)
  note k = holds_remove [OF h b p(1)]
  have "owned m1 = owned m" "om_side F m1"
    using inv k by (simp_all add: p(2) owned_def om_simps om_inv_def om_side_def)
  with k p(2) show ?thesis by (auto simp: om_inv_def)
qed

lemma publish_without:
  \<comment> \<open>the record of a body that has gone is taken out\<close>
  assumes inv: "om_inv F m" and gone: "holds F (om_client m) (removeAll b (owned m))"
    and none: "temporary_ids m = []" "candidates m = []"
    and run: "publish_records (filter (\<lambda>x. or_body x \<noteq> b) (om_records m)) n m = (r, m')"
  shows "om_inv F m' \<and> om_pending m' = om_pending m
    \<and> (m' = m \<and> (\<exists>err. r = Inl err) \<or> r = Inr () \<and> om_records m' = filter (\<lambda>x. or_body x \<noteq> b) (om_records m))"
proof (cases r)
  case (Inl err)
  with run have "m' = m" by (auto simp: publish_records_def Let_def split: if_splits)
  with inv Inl show ?thesis by simp
next
  case (Inr u)
  with run have m': "om_records m' = filter (\<lambda>x. or_body x \<noteq> b) (om_records m)" "om_client m' = om_client m"
    "om_debt m' = om_debt m" "om_fault m' = om_fault m" "om_pending m' = om_pending m"
    by (auto simp: publish_records_def Let_def split: if_splits)
  then have ids: "record_ids m' = removeAll b (record_ids m)" by (simp add: record_ids_def record_ids_filter)
  have same: "temporary_ids m' = []" "candidate_ids m' = []" "clear_ids m' = clear_ids m"
    using m'(5) none by (simp_all add: temporary_ids_def candidate_ids_def candidates_def clear_ids_def)
  have "owned m' = removeAll b (record_ids m) @ om_debt m" "owned m = record_ids m @ om_debt m"
    using ids same none m'(3) by (simp_all add: owned_def candidate_ids_def)
  then have "set (removeAll b (owned m)) \<subseteq> set (owned m')" "set (owned m') \<subseteq> set (owned m)"
    "distinct (owned m) \<longrightarrow> distinct (owned m')" by (auto simp: distinct_removeAll)
  moreover have "holds F (om_client m) (owned m)" using inv by (simp add: om_inv_def)
  ultimately have ok: "distinct (owned m')" "set (owned m') \<inter> F = {}" "\<forall>b\<in>set (owned m'). b < ph_next (om_client m)"
    "set (removeAll b (owned m)) \<subseteq> set (owned m')"
    unfolding holds_def by blast+
  have "holds F (om_client m) (owned m')" by (rule holds_grow [OF gone ok(4,1,2,3)])
  moreover have "om_side F m'" using inv m' same(3) by (simp add: om_inv_def om_side_def)
  ultimately show ?thesis using Inr m' by (simp add: om_inv_def)
qed

lemma delete_effect:
  assumes inv: "om_inv F m" and run: "delete e target m = (r, m')"
  shows "om_inv F m' \<and> om_pending m' = om_pending m
    \<and> (om_records m' = om_records m \<or> (\<exists>b. om_records m' = filter (\<lambda>x. or_body x \<noteq> b) (om_records m)))"
proof -
  obtain s m1 where req: "require_no_pending e m = (s, m1)" by fastforce
  note k = require_no_pending_effect [OF inv req]
  show ?thesis
  proof (cases "s = Inr () \<and> (\<exists>n. ob_integral (lit ''logical_id'') target = Inr n)")
    case False
    with run req have "m' = m1" by (auto simp: delete_def bind_op_def lift_res_def split: sum.splits)
    with k show ?thesis by simp
  next
    case True
    then obtain n where n: "s = Inr ()" "ob_integral (lit ''logical_id'') target = Inr n" by blast
    let ?P = "\<lambda>r. os_logical_id (or_spec r) \<noteq> n"
    show ?thesis
    proof (cases "dropWhile ?P (om_records m1)")
      case Nil
      with run req n have "m' = m1" by (simp add: delete_def bind_op_def lift_res_def)
      with k show ?thesis by simp
    next
      case (Cons x after)
      have split: "om_records m1 = takeWhile ?P (om_records m1) @ x # after" using Cons by (metis takeWhile_dropWhile_id)
      have inv1: "om_inv F m1" and p1: "om_pending m1 = None" using k n by (auto simp: idle_def)
      then have d: "distinct (record_ids m1)" "or_body x \<notin> F"
        using split by (auto simp: om_inv_def holds_def owned_def record_ids_def) (metis IntI UnCI emptyE imageI in_set_conv_decomp)
      have "distinct (map or_body (takeWhile ?P (om_records m1) @ x # after))" using d(1) split by (simp add: record_ids_def)
      then have filt: "filter (\<lambda>y. or_body y \<noteq> or_body x) (takeWhile ?P (om_records m1) @ x # after) = takeWhile ?P (om_records m1) @ after"
        by (auto simp: image_iff intro!: arg_cong2 [of _ _ _ _ append] filter_True)
      obtain c m2 where c: "on_client (remove_committed_strict (me_physics e) (or_body x)) m1 = (c, m2)" by fastforce
      from on_removed [OF inv1 d(2) c] obtain p where p: "m2 = m1\<lparr>om_client := p\<rparr>" "om_inv F m2"
        "c = Inr () \<longrightarrow> holds F (om_client m2) (removeAll (or_body x) (owned m2))" by auto
      show ?thesis
      proof (cases c)
        case (Inl exc)
        with run req n Cons c have "m' = m2" by (simp add: delete_def bind_op_def lift_res_def)
        with p k show ?thesis by simp
      next
        case (Inr u)
        obtain t m3 where pub: "publish_records (takeWhile ?P (om_records m1) @ after) None m2 = (t, m3)" by fastforce
        with run req n Cons c Inr have m': "m' = m3" by (cases t) (simp_all add: delete_def bind_op_def lift_res_def)
        have pub': "publish_records (filter (\<lambda>y. or_body y \<noteq> or_body x) (om_records m2)) None m2 = (t, m3)"
          using pub filt split p(1) by simp
        have none: "temporary_ids m2 = []" "candidates m2 = []" and gone: "holds F (om_client m2) (removeAll (or_body x) (owned m2))"
          using p1 p(3) Inr by (simp_all add: p(1) temporary_ids_def candidates_def)
        have "om_inv F m3 \<and> om_pending m3 = om_pending m2
            \<and> (m3 = m2 \<and> (\<exists>err. t = Inl err) \<or> t = Inr () \<and> om_records m3 = filter (\<lambda>y. or_body y \<noteq> or_body x) (om_records m2))"
          by (rule publish_without [OF p(2) gone none pub'])
        with m' k p(1) show ?thesis by auto
      qed
    qed
  qed
qed

lemma clear_bodies_effect:
  assumes "om_inv F m" and "set bs \<subseteq> set (clear_ids m)" and "temporary_ids m = []" and "candidates m = []"
    and "clear_bodies e bs m = (r, m')"
  shows "om_inv F m' \<and> (om_pending m' = None \<or> temporary_ids m' = [] \<and> candidates m' = [] \<and> (\<exists>po po'. om_pending m = Some po
      \<and> om_pending m' = Some po' \<and> po_operation po' = po_operation po))
    \<and> (\<exists>P. om_records m' = filter P (om_records m))"
  using assms
proof (induction bs arbitrary: m r m')
  case Nil
  have "om_inv F (m\<lparr>om_pending := None\<rparr>)"
    using Nil.prems(1,3,4) by (simp add: om_inv_def owned_def om_side_def om_simps candidate_ids_def)
  with Nil.prems(5) show ?case by (auto intro: exI [of _ "\<lambda>_. True"])
next
  case (Cons b bs)
  have b: "b \<notin> F" using Cons.prems(1,2) by (auto simp: om_inv_def om_side_def)
  obtain c m1 where c: "on_client (remove_committed_strict (me_physics e) b) m = (c, m1)" by fastforce
  from on_removed [OF Cons.prems(1) b c] obtain p where p: "m1 = m\<lparr>om_client := p\<rparr>" "om_inv F m1"
    "c = Inr () \<longrightarrow> holds F (om_client m1) (removeAll b (owned m1))" by auto
  have none1: "temporary_ids m1 = []" "candidates m1 = []" using Cons.prems(3,4) by (simp_all add: p(1) om_simps)
  from Cons.prems(2) obtain po where po: "om_pending m = Some po" by (cases "om_pending m") (auto simp: clear_ids_def)
  show ?case
  proof (cases c)
    case (Inl exc)
    with Cons.prems(5) c have "m' = m1\<lparr>om_pending := None\<rparr>" by simp
    moreover have "om_inv F (m1\<lparr>om_pending := None\<rparr>)"
      using p(2) none1 by (simp add: om_inv_def owned_def om_side_def om_simps candidate_ids_def)
    ultimately show ?thesis by (auto simp: p(1) intro: exI [of _ "\<lambda>_. True"])
  next
    case (Inr u)
    obtain s m2 where pub: "publish_records (filter (\<lambda>x. or_body x \<noteq> b) (om_records m1)) None m1 = (s, m2)" by fastforce
    have gone: "holds F (om_client m1) (removeAll b (owned m1))" using p(3) Inr by simp
    note pe = publish_without [OF p(2) gone none1 pub]
    let ?m3 = "upd_pending (\<lambda>po. po\<lparr>po_deleted := po_deleted po + 1, po_next_clear := po_next_clear po + 1\<rparr>) m2"
    have po2: "om_pending m2 = Some po" using pe p(1) po by simp
    have none2: "temporary_ids m2 = []" "candidates m2 = []"
      using po po2 none1 p(1) by (simp_all add: temporary_ids_def candidates_def)
    show ?thesis
    proof (cases s)
      case (Inl err)
      with Cons.prems(5) c Inr pub have "m' = m2" by (simp add: bind_op_def)
      with pe Inl po po2 none2 show ?thesis by (auto simp: p(1) intro: exI [of _ "\<lambda>_. True"])
    next
      case s: (Inr u')
      with pe have rec: "om_records m2 = filter (\<lambda>x. or_body x \<noteq> b) (om_records m)" by (auto simp: p(1))
      have none3: "temporary_ids (tick ?m3) = []" "candidates (tick ?m3) = []" "clear_ids (tick ?m3) = clear_ids m"
        "om_pending (tick ?m3) = Some (po\<lparr>po_deleted := po_deleted po + 1, po_next_clear := po_next_clear po + 1\<rparr>)"
        "om_records (tick ?m3) = om_records m2"
        using po po2 none2 by (simp_all add: om_simps temporary_ids_def candidates_def clear_ids_def upd_pending_def tick_def)
      have inv3: "om_inv F (tick ?m3)"
      proof -
        have "kept m2 (tick ?m3)" using po2 by (simp add: kept_def pending_kept_def om_simps)
        moreover have "owned (tick ?m3) = owned m2" using none2 none3 by (simp add: owned_def candidate_ids_def om_simps)
        ultimately show ?thesis using pe kept_side by (auto simp: om_inv_def om_simps)
      qed
      show ?thesis
      proof (cases "me_expired e (om_clock ?m3)")
        case True
        with Cons.prems(5) c Inr pub s have "m' = tick ?m3" by (simp add: bind_op_def Let_def)
        with inv3 none3 rec po show ?thesis by auto
      next
        case False
        with Cons.prems(5) c Inr pub s have "clear_bodies e bs (tick ?m3) = (r, m')" by (simp add: bind_op_def Let_def)
        from Cons.IH [OF inv3 _ none3(1,2) this] Cons.prems(2) none3 rec po show ?thesis
          by auto
      qed
    qed
  qed
qed

subsection \<open>Restoring\<close>

lemma holds_from_keys: "holds F p xs \<Longrightarrow> set ys = set xs \<Longrightarrow> holds F p (from_keys ys)"
  by (auto simp: holds_def)

lemma create_all_effect:
  assumes "holds F p xs" and "identified px" and "create_all px ss p = ((failure, rs), p')"
  shows "ph_next p \<le> ph_next p' \<and> (case failure of
      None \<Rightarrow> holds F p' (map or_body rs @ xs) \<and> map or_spec rs = ss
    | Some (err, residual) \<Rightarrow> holds F p' (residual @ map or_body rs @ xs))"
  using assms(1,3)
proof (induction ss arbitrary: p xs failure rs p')
  case Nil
  then show ?case by auto
next
  case (Cons s ss)
  obtain c p1 where c: "create_body px p = (c, p1)" by fastforce
  note k = holds_create [OF Cons.prems(1) assms(2) c]
  show ?case
  proof (cases c)
    case (Inl err)
    with Cons.prems(2) c k show ?thesis by (cases err) auto
  next
    case (Inr b)
    obtain fl rs' p2 where r: "create_all px ss p1 = ((fl, rs'), p2)" by (metis prod.exhaust)
    from k Inr have h1: "holds F p1 (b # xs)" by simp
    note ih = Cons.IH [OF h1 r]
    from Cons.prems(2) c Inr r have out: "failure = fl" "rs = \<lparr>or_spec = s, or_body = b\<rparr> # rs'" "p' = p2" by auto
    show ?thesis
    proof (cases fl)
      case None
      with ih have "holds F p2 (map or_body rs' @ b # xs)" by simp
      then have "holds F p2 (map or_body rs @ xs)" by (rule holds_mset) (simp add: out)
      with ih k None out show ?thesis by simp
    next
      case (Some er)
      obtain err residual where er: "er = (err, residual)" by fastforce
      with ih Some have "holds F p2 (residual @ map or_body rs' @ b # xs)" by simp
      then have "holds F p2 (residual @ map or_body rs @ xs)" by (rule holds_mset) (simp add: out)
      with ih k Some er out show ?thesis by simp
    qed
  qed
qed

lemma remove_until_effect:
  assumes "holds F p (bs @ xs)" and "remove_until px bs p = (failure, p')"
  shows "holds F p' (bs @ xs) \<and> ph_next p' = ph_next p \<and> (failure = None \<longrightarrow> holds F p' xs)"
  using assms
proof (induction bs arbitrary: p xs)
  case Nil
  then show ?case by simp
next
  case (Cons b bs)
  have h: "holds F p (bs @ b # xs)" "b \<notin> F" "b \<notin> set (bs @ xs)"
    using Cons.prems(1) by (auto simp: holds_def)
  obtain c p1 where c: "remove_committed_strict px b p = (c, p1)" by fastforce
  note k = holds_remove [OF h(1,2) c]
  show ?case
  proof (cases c)
    case (Inl exc)
    with Cons.prems(2) c k show ?thesis by (auto elim: holds_mset)
  next
    case (Inr u)
    with Cons.prems(2) c have run: "remove_until px bs p1 = (failure, p')" by simp
    from k have "holds F p1 (bs @ b # xs)" by simp
    note ih = Cons.IH [OF this run]
    from k h(3) Inr have "holds F p1 (bs @ xs)" by (simp add: removeAll_id)
    note ih' = Cons.IH [OF this run]
    from ih have "holds F p' ((b # bs) @ xs)" by (auto elim: holds_mset)
    with ih ih' k show ?thesis by simp
  qed
qed

lemma bring_back_effect:
  assumes "holds F p ys" and "identified px" and "bring_back px ours current rs p = (rb, p')"
  shows "\<exists>made. holds F p' (made @ rb_residual rb @ ys) \<and> ph_next p \<le> ph_next p'
    \<and> set made \<subseteq> set (map or_body (rb_restored rb))
    \<and> set (map or_body (rb_restored rb)) \<subseteq> set made \<union> (set (map or_body rs) \<inter> set current)
    \<and> (rb_complete rb \<longrightarrow> rb_residual rb = [] \<and> map or_spec (rb_restored rb) = map or_spec rs
        \<and> mset (map or_body (rb_restored rb)) = mset (made @ filter (\<lambda>b. b \<in> set current) (map or_body rs)))"
  using assms(1,3)
proof (induction rs arbitrary: p ys rb p')
  case Nil
  then show ?case by auto
next
  case (Cons r rs)
  show ?case
  proof (cases "or_body r \<in> set current")
    case True
    obtain rb1 p1 where b: "bring_back px ours current rs p = (rb1, p1)" by fastforce
    from Cons.IH [OF Cons.prems(1) b] obtain made where made: "holds F p1 (made @ rb_residual rb1 @ ys)" "ph_next p \<le> ph_next p1"
      "set made \<subseteq> set (map or_body (rb_restored rb1))"
      "set (map or_body (rb_restored rb1)) \<subseteq> set made \<union> (set (map or_body rs) \<inter> set current)"
      "rb_complete rb1 \<longrightarrow> rb_residual rb1 = [] \<and> map or_spec (rb_restored rb1) = map or_spec rs
        \<and> mset (map or_body (rb_restored rb1)) = mset (made @ filter (\<lambda>b. b \<in> set current) (map or_body rs))" by blast
    have keep: "map or_body (rb_restored rb1) = ids \<Longrightarrow> set ids \<subseteq> set made \<union> (set (map or_body rs) \<inter> set current) \<Longrightarrow>
        set (or_body r # ids) \<subseteq> set made \<union> (set (map or_body (r # rs)) \<inter> set current)
        \<and> set ids \<subseteq> set made \<union> (set (map or_body (r # rs)) \<inter> set current)" for ids
      using True by (auto simp del: set_map)
    note keep' = keep [OF refl made(4)]
    show ?thesis
    proof (cases "ours (or_body r)")
      case True
      with Cons.prems(2) \<open>or_body r \<in> set current\<close> b have "rb = rb1\<lparr>rb_restored := r # rb_restored rb1\<rparr>" "p' = p1" by auto
      with made keep' \<open>or_body r \<in> set current\<close> show ?thesis by (intro exI [of _ made]) (simp, blast)
    next
      case False
      with Cons.prems(2) \<open>or_body r \<in> set current\<close> b have "rb_restored rb = rb_restored rb1" "rb_residual rb = rb_residual rb1"
        "\<not> rb_complete rb" "p' = p1" by auto
      with made keep' show ?thesis by (intro exI [of _ made]) simp
    qed
  next
    case False
    obtain c p1 where c: "create_body px p = (c, p1)" by fastforce
    note k = holds_create [OF Cons.prems(1) assms(2) c]
    show ?thesis
    proof (cases c)
      case (Inl er)
      obtain err residual where er: "er = (err, residual)" by fastforce
      with k Inl have h1: "holds F p1 (residual @ ys)" by simp
      obtain rb1 p2 where b: "bring_back px ours current rs p1 = (rb1, p2)" by fastforce
      from Cons.IH [OF h1 b] obtain made where made: "holds F p2 (made @ rb_residual rb1 @ residual @ ys)" "ph_next p1 \<le> ph_next p2"
        "set made \<subseteq> set (map or_body (rb_restored rb1))"
        "set (map or_body (rb_restored rb1)) \<subseteq> set made \<union> (set (map or_body rs) \<inter> set current)" by blast
      from Cons.prems(2) False c Inl er b have out: "rb_restored rb = rb_restored rb1" "rb_residual rb = residual @ rb_residual rb1"
        "\<not> rb_complete rb" "p' = p2" by auto
      have "holds F p' (made @ rb_residual rb @ ys)" unfolding out by (rule holds_mset [OF made(1)]) simp
      with made k out show ?thesis by (intro exI [of _ made]) auto
    next
      case (Inr b)
      with k have h1: "holds F p1 (b # ys)" by simp
      obtain rb1 p2 where bb: "bring_back px ours current rs p1 = (rb1, p2)" by fastforce
      from Cons.IH [OF h1 bb] obtain made where made: "holds F p2 (made @ rb_residual rb1 @ b # ys)" "ph_next p1 \<le> ph_next p2"
        "set made \<subseteq> set (map or_body (rb_restored rb1))"
        "set (map or_body (rb_restored rb1)) \<subseteq> set made \<union> (set (map or_body rs) \<inter> set current)"
        "rb_complete rb1 \<longrightarrow> rb_residual rb1 = [] \<and> map or_spec (rb_restored rb1) = map or_spec rs
          \<and> mset (map or_body (rb_restored rb1)) = mset (made @ filter (\<lambda>b. b \<in> set current) (map or_body rs))" by blast
      from Cons.prems(2) False c Inr bb have out: "rb = rb1\<lparr>rb_restored := r\<lparr>or_body := b\<rparr> # rb_restored rb1\<rparr>" "p' = p2" by auto
      have "holds F p' ((b # made) @ rb_residual rb @ ys)" unfolding out by (rule holds_mset [OF made(1)]) simp
      with made k out False show ?thesis by (intro exI [of _ "b # made"]) auto
    qed
  qed
qed

definition restore_outcome :: "nat set \<Rightarrow> obstacle_spec list \<Rightarrow> obstacle_manager \<Rightarrow> (exc, obstacle_result) res \<Rightarrow> obstacle_manager \<Rightarrow> bool" where
  \<comment> \<open>the new specs, or the old ones, or a manager that is faulted and empty\<close>
  "restore_outcome F specs m r m' \<longleftrightarrow> om_inv F m' \<and> om_pending m' = None
     \<and> (r = Inr (success_result ''restore'' (length specs) 0) \<and> map or_spec (om_records m') = specs
        \<or> (\<forall>s. r = Inr s \<longrightarrow> \<not> ob_succeeded s) \<and> map or_spec (om_records m') = map or_spec (om_records m)
        \<or> (\<exists>err. r = Inl err) \<and> om_fault m' \<noteq> None \<and> om_records m' = [])"

lemma fault_and_raise_effect:
  assumes "holds F (om_client m) (from_keys (record_ids m @ temporary_ids m @ candidate_ids m @ om_debt m @ ids))"
    and "fault_and_raise e reason ids m = (r, m')"
  shows "restore_outcome F specs m0 r m'"
  using enter_fault_effect [OF assms(1), of e reason] assms(2)
  by (auto simp: fault_and_raise_def bind_op_def restore_outcome_def)

lemma idle_ids: "om_pending m = None \<Longrightarrow> temporary_ids m = [] \<and> candidate_ids m = [] \<and> clear_ids m = []"
  by (simp add: temporary_ids_def candidate_ids_def candidates_def clear_ids_def)

lemma inv_of_holds:
  "om_pending m = None \<Longrightarrow> om_fault m = None \<Longrightarrow> holds F (om_client m) (record_ids m @ om_debt m) \<Longrightarrow> om_inv F m"
  by (simp add: om_inv_def om_side_def idle_owned idle_ids)

lemma verify_rollback_effect:
  "verify_rollback px n debt rb p = (rb', p') \<Longrightarrow> rb_restored rb' = rb_restored rb \<and> rb_residual rb' = rb_residual rb
    \<and> (rb_complete rb' \<longrightarrow> rb_complete rb) \<and> (p' = p \<or> p' = count_call p)"
  using list_bodies_effect [of px p] by (auto simp: verify_rollback_def Let_def split: if_splits prod.splits)

lemma roll_back_effect:
  assumes none: "om_pending m = None" "om_fault m = None" and h: "holds F (om_client m) (record_ids m @ om_debt m)"
    and C: "set (map or_body created) \<inter> F = {}" "\<forall>b\<in>set (map or_body created). b < ph_next (om_client m)"
    and id: "identified (me_physics e)"
    and rb: "roll_back e created start fs m = (rb, m1)" and con: "conclude_rollback e created removal rb m1 = (r, m')"
  shows "restore_outcome F specs m r m'"
proof -
  obtain listing p where l: "list_bodies (me_physics e) (om_client m) = (listing, p)" by fastforce
  note listed = holds_listed [OF h l]
  have grow: "holds F c (from_keys known)"
    if "holds F c xs" "set xs \<subseteq> set known" "set known \<subseteq> set xs \<union> set (record_ids m) \<union> set (om_debt m) \<union> set (map or_body created)"
      "ph_next (om_client m) \<le> ph_next c" for c xs known
  proof -
    have "set xs \<inter> F = {}" "(set (record_ids m) \<union> set (om_debt m)) \<inter> F = {}" using that(1) h by (simp_all add: holds_def)
    then have away: "set known \<inter> F = {}" using that(3) C(1) by blast
    have below: "\<forall>b\<in>set known. b < ph_next c"
    proof -
      have "\<forall>b\<in>set xs. b < ph_next c" "\<forall>b\<in>set (record_ids m) \<union> set (om_debt m). b < ph_next (om_client m)"
        using that(1) h by (simp_all add: holds_def)
      moreover have "\<forall>b\<in>set (map or_body created). b < ph_next c" using C(2) that(4) order_less_le_trans by blast
      ultimately show ?thesis using that(3,4) order_less_le_trans by blast
    qed
    show ?thesis by (rule holds_grow [OF that(1)]) (use that(2) away below in simp_all)
  qed
  show ?thesis
  proof (cases listing)
    case (Inl d)
    with rb l have m1: "m1 = m\<lparr>om_client := p\<rparr>" "rb = \<lparr>rb_restored = [], rb_failures = fs @ [(None, d)], rb_residual = [], rb_complete = False\<rparr>"
      by (simp_all add: roll_back_def on_client_def)
    have "holds F p (from_keys (record_ids m @ om_debt m @ record_ids m @ map or_body created))"
      by (rule grow [OF conjunct1 [OF listed]]) (use listed in auto)
    then have "holds F (om_client m1) (from_keys (record_ids m1 @ temporary_ids m1 @ candidate_ids m1 @ om_debt m1
        @ record_ids m1 @ map or_body created @ map or_body (rb_restored rb) @ rb_residual rb))"
      using none idle_ids [OF none(1)] by (simp add: m1 om_simps)
    from fault_and_raise_effect [OF this] con show ?thesis by (auto simp: conclude_rollback_def m1(2) Let_def)
  next
    case (Inr current)
    let ?ours = "\<lambda>b. b \<in> set start \<and> b \<in> set (record_ids m) \<and> b \<notin> set (map or_body created) \<and> b \<notin> set (om_debt m)"
    obtain rb0 p0 where b: "bring_back (me_physics e) ?ours current (om_records m) p = (rb0, p0)" by fastforce
    let ?rb0 = "rb0\<lparr>rb_failures := fs @ rb_failures rb0\<rparr>"
    obtain rb1 p1 where v: "verify_rollback (me_physics e) (length (om_records m)) (om_debt m) ?rb0 p0 = (rb1, p1)" by fastforce
    from rb l Inr b v have m1: "m1 = m\<lparr>om_client := p1\<rparr>" "rb = rb1"
      by (simp_all add: roll_back_def on_client_def om_simps Let_def)
    note ve = verify_rollback_effect [OF v]
    have cur: "current = ph_bodies p" using listed Inr by simp
    let ?kept = "filter (\<lambda>b. b \<in> set current) (record_ids m)"
    have "holds F p (?kept @ om_debt m)"
      by (rule holds_shrink [OF conjunct1 [OF listed]]) (use h cur in \<open>auto simp: holds_def\<close>)
    from bring_back_effect [OF this id b] obtain made where made: "holds F p0 (made @ rb_residual rb0 @ ?kept @ om_debt m)"
      "ph_next p \<le> ph_next p0" "set made \<subseteq> set (map or_body (rb_restored rb0))"
      "set (map or_body (rb_restored rb0)) \<subseteq> set made \<union> (set (map or_body (om_records m)) \<inter> set current)"
      "rb_complete rb0 \<longrightarrow> rb_residual rb0 = [] \<and> map or_spec (rb_restored rb0) = map or_spec (om_records m)
        \<and> mset (map or_body (rb_restored rb0)) = mset (made @ filter (\<lambda>b. b \<in> set current) (map or_body (om_records m)))" by blast
    have h1: "holds F p1 (made @ rb_residual rb0 @ ?kept @ om_debt m)" and n1: "ph_next (om_client m) \<le> ph_next p1"
      using ve made(1,2) listed by auto
    show ?thesis
    proof (cases "rb_complete rb")
      case True
      with ve m1(2) made(5) have c: "rb_residual rb0 = []" "map or_spec (rb_restored rb) = map or_spec (om_records m)"
        "mset (map or_body (rb_restored rb)) = mset (made @ ?kept)" by (simp_all add: record_ids_def)
      from h1 c have h2: "holds F p1 (map or_body (rb_restored rb) @ om_debt m)" by (auto elim!: holds_mset)
      then have "distinct (map or_body (rb_restored rb) @ om_debt m1)" by (simp add: holds_def m1(1))
      from publish_ok [OF this, of None] none obtain m2 where pub: "publish_records (rb_restored rb) None m1 = (Inr (), m2)"
        by (auto simp: m1(1))
      from publish_effect [OF pub] none have m2: "om_records m2 = rb_restored rb" "om_client m2 = p1" "om_debt m2 = om_debt m"
        "om_fault m2 = None" "om_pending m2 = None" by (auto simp: m1(1))
      have "om_inv F m2" using h2 m2 by (intro inv_of_holds) (simp_all add: record_ids_def)
      moreover have "m' = m2" "\<forall>s. r = Inr s \<longrightarrow> \<not> ob_succeeded s"
        using con True pub by (auto simp: conclude_rollback_def bind_op_def Let_def split: if_splits)
      ultimately show ?thesis using m2 c(2) by (simp add: restore_outcome_def)
    next
      case False
      have "holds F p1 (from_keys (record_ids m @ om_debt m @ record_ids m @ map or_body created
          @ map or_body (rb_restored rb) @ rb_residual rb))"
        by (rule grow [OF h1 _ _ n1]) (use made(3,4) ve m1(2) in \<open>auto simp: record_ids_def simp del: set_map\<close>)
      then have "holds F (om_client m1) (from_keys (record_ids m1 @ temporary_ids m1 @ candidate_ids m1 @ om_debt m1
          @ record_ids m1 @ map or_body created @ map or_body (rb_restored rb) @ rb_residual rb))"
        using none idle_ids [OF none(1)] by (simp add: m1(1) om_simps)
      from fault_and_raise_effect [OF this] con False show ?thesis by (auto simp: conclude_rollback_def Let_def)
    qed
  qed
qed

lemma swap_records_effect:
  assumes none: "om_pending m = None" "om_fault m = None" "om_debt m = []" and id: "identified (me_physics e)"
    and h: "holds F (om_client m) (map or_body created @ record_ids m)" and run: "swap_records e created start m = (r, m')"
  shows "restore_outcome F (map or_spec created) m r m'"
proof -
  have "holds F (om_client m) (record_ids m @ map or_body created)" using h by (elim holds_mset) simp
  moreover obtain failure p where rm: "remove_until (me_physics e) (record_ids m) (om_client m) = (failure, p)" by fastforce
  ultimately have k: "holds F p (record_ids m @ map or_body created)" "ph_next p = ph_next (om_client m)"
    "failure = None \<longrightarrow> holds F p (map or_body created)" using remove_until_effect by blast+
  let ?m1 = "m\<lparr>om_client := p\<rparr>"
  show ?thesis
  proof (cases failure)
    case None
    with k have h1: "holds F p (map or_body created)" by simp
    then have "distinct (map or_body created @ om_debt ?m1)" using none by (simp add: holds_def)
    from publish_ok [OF this, of None] none obtain m2 where pub: "publish_records created None ?m1 = (Inr (), m2)" by auto
    from publish_effect [OF pub] none have m2: "om_records m2 = created" "om_client m2 = p" "om_debt m2 = []"
      "om_fault m2 = None" "om_pending m2 = None" by auto
    have "om_inv F m2" using h1 m2 by (intro inv_of_holds) (simp_all add: record_ids_def)
    moreover have "m' = m2" "r = Inr (success_result ''restore'' (length created) 0)"
      using run rm None pub by (simp_all add: swap_records_def on_client_def bind_op_def)
    ultimately show ?thesis using m2 by (simp add: restore_outcome_def)
  next
    case (Some removal)
    have "holds F (om_client ?m1) (map or_body created @ record_ids ?m1 @ temporary_ids ?m1 @ om_debt ?m1)"
      using k(1) none idle_ids [of m] by (auto simp: om_simps elim!: holds_mset)
    from cleanup_ids_effect [OF this, of e] obtain fs p2 where
      cl: "cleanup_candidates e (map or_body created) ?m1 = (Inr fs, ?m1\<lparr>om_client := p2, om_debt := om_debt ?m1 @ failed_ids fs\<rparr>)"
        "holds F p2 (record_ids ?m1 @ temporary_ids ?m1 @ om_debt ?m1 @ failed_ids fs)" "ph_next p2 = ph_next p" by auto
    let ?m2 = "?m1\<lparr>om_client := p2, om_debt := om_debt ?m1 @ failed_ids fs\<rparr>"
    obtain rb m3 where rb: "roll_back e created start fs ?m2 = (rb, m3)" by fastforce
    have con: "conclude_rollback e created removal rb m3 = (r, m')"
      using run rm Some cl(1) rb by (simp add: swap_records_def on_client_def bind_op_def)
    have h2: "holds F (om_client ?m2) (record_ids ?m2 @ om_debt ?m2)"
      using cl(2) none idle_ids [of m] by (simp add: om_simps)
    have C: "set (map or_body created) \<inter> F = {}" "\<forall>b\<in>set (map or_body created). b < ph_next (om_client ?m2)"
      using k cl(3) by (auto simp: holds_def)
    from none have "om_pending ?m2 = None" "om_fault ?m2 = None" by simp_all
    from roll_back_effect [OF this h2 C id rb con, where specs = "map or_spec created"] show ?thesis by (simp add: restore_outcome_def)
  qed
qed

lemma restore_records_effect:
  assumes inv: "om_inv F m" and idle: "idle m" and id: "identified (me_physics e)" and run: "restore_records e specs m = (r, m')"
  shows "restore_outcome F specs m r m'"
proof -
  from idle have none: "om_pending m = None" "om_fault m = None" "om_debt m = []" by (simp_all add: idle_def)
  with inv have h: "holds F (om_client m) (record_ids m)" by (simp add: om_inv_def idle_owned)
  obtain listing p where l: "list_bodies (me_physics e) (om_client m) = (listing, p)" by fastforce
  note listed = holds_listed [OF h l]
  let ?m1 = "m\<lparr>om_client := p\<rparr>"
  have fault: "restore_outcome F specs m r m'" if "fault_and_raise e reason ids ?m1 = (r, m')" "set ids \<subseteq> set (record_ids m)" for reason ids
  proof (rule fault_and_raise_effect [OF _ that(1)])
    show "holds F (om_client ?m1) (from_keys (record_ids ?m1 @ temporary_ids ?m1 @ candidate_ids ?m1 @ om_debt ?m1 @ ids))"
      using listed none idle_ids [OF none(1)] that(2) by (auto simp: om_simps intro!: holds_from_keys [of F p "record_ids m"])
  qed
  show ?thesis
  proof (cases listing)
    case (Inl d)
    with run l show ?thesis by (intro fault) (auto simp: restore_records_def on_client_def om_simps)
  next
    case (Inr start)
    show ?thesis
    proof (cases "filter (\<lambda>b. b \<notin> set start) (record_ids m) = []")
      case False
      with run l Inr show ?thesis by (intro fault) (auto simp: restore_records_def on_client_def om_simps Let_def)
    next
      case True
      with run l Inr have run1: "replace_records e specs start ?m1 = (r, m')"
        by (simp add: restore_records_def on_client_def om_simps)
      obtain failure created p2 where c: "create_all (me_physics e) specs p = ((failure, created), p2)" by (metis prod.exhaust)
      note ce = create_all_effect [OF conjunct1 [OF listed] id c]
      let ?m2 = "?m1\<lparr>om_client := p2\<rparr>"
      show ?thesis
      proof (cases failure)
        case None
        with run1 c have "swap_records e created start ?m2 = (r, m')" by (simp add: replace_records_def on_client_def)
        with ce None none swap_records_effect [of ?m2 e F created start r m'] id show ?thesis
          by (auto simp: restore_outcome_def om_simps)
      next
        case (Some er)
        obtain err residual where er: "er = (err, residual)" by fastforce
        with ce Some have h2: "holds F (om_client ?m2) (residual @ map or_body created @ record_ids m)" by simp
        then have "distinct (residual @ record_ids ?m2)" "distinct (om_debt ?m2 @ residual)"
          using none by (auto simp: holds_def om_simps)
        note reg = register_effect [OF this]
        let ?m3 = "?m2\<lparr>om_debt := om_debt ?m2 @ residual\<rparr>"
        have "holds F (om_client ?m3) (map or_body created @ record_ids ?m3 @ temporary_ids ?m3 @ om_debt ?m3)"
          using h2 none idle_ids [OF none(1)] by (auto simp: om_simps elim!: holds_mset)
        from cleanup_ids_effect [OF this, of e] obtain fs p4 where
          cl: "cleanup_candidates e (map or_body created) ?m3 = (Inr fs, ?m3\<lparr>om_client := p4, om_debt := om_debt ?m3 @ failed_ids fs\<rparr>)"
            "holds F p4 (record_ids ?m3 @ temporary_ids ?m3 @ om_debt ?m3 @ failed_ids fs)" by auto
        from run1 c Some er have "undo_created e (err, residual) created ?m2 = (r, m')" by (simp add: replace_records_def on_client_def)
        with reg cl(1) have m': "m' = ?m3\<lparr>om_client := p4, om_debt := om_debt ?m3 @ failed_ids fs\<rparr>" "\<exists>x. r = Inl x"
          by (auto simp: undo_created_def bind_op_def)
        have "om_inv F m'"
          using cl(2) none idle_ids [OF none(1)] by (intro inv_of_holds) (simp_all add: m' om_simps)
        with m' none show ?thesis by (auto simp: restore_outcome_def)
      qed
    qed
  qed
qed

lemma restore_effect:
  assumes inv: "om_inv F m" and id: "identified (me_physics e)" and run: "restore e snapshots m = (r, m')"
  shows "om_inv F m' \<and> om_pending m' = om_pending m \<and> (case restored_specs e snapshots of
      Inl err \<Rightarrow> om_records m' = om_records m \<and> (\<exists>x. r = Inl x)
    | Inr specs \<Rightarrow> om_records m' = om_records m \<and> (\<exists>x. r = Inl x) \<or> restore_outcome F specs m r m')"
proof -
  obtain s m1 where req: "require_no_pending e m = (s, m1)" by fastforce
  note k = require_no_pending_effect [OF inv req]
  show ?thesis
  proof (cases s)
    case (Inl err)
    with run req have "m' = m1" "r = Inl err" by (simp_all add: restore_def bind_op_def)
    with k show ?thesis by (simp split: sum.split)
  next
    case (Inr u)
    show ?thesis
    proof (cases "restored_specs e snapshots")
      case (Inl err)
      with run req Inr have "m' = m1" "r = Inl err" by (simp_all add: restore_def bind_op_def lift_res_def)
      with k Inl show ?thesis by simp
    next
      case specs: (Inr specs)
      with run req Inr have "restore_records e specs m1 = (r, m')" by (simp add: restore_def bind_op_def lift_res_def)
      with restore_records_effect [of F m1 e specs r m'] k id Inr specs show ?thesis
        by (auto simp: restore_outcome_def idle_def)
    qed
  qed
qed

subsection \<open>Motion\<close>

lemma update_kinematic_clock: "\<exists>t. snd (update_kinematic e position orientation velocity m) = m\<lparr>om_clock := t\<rparr>"
  by (auto simp: update_kinematic_def reset_call_def bind_op_def lift_res_def tick_def split: sum.split option.split prod.split
      intro: exI [of _ "om_clock m"])

lemma clock_same: "\<exists>t. m = m\<lparr>om_clock := t\<rparr>"
  by (rule exI [of _ "om_clock m"]) simp

lemma move_all_effect:
  "move_all e dt rs us probes m = (r, m') \<Longrightarrow> (\<exists>t. m' = m\<lparr>om_clock := t\<rparr>) \<and> (\<forall>rs'. r = Inr rs' \<longrightarrow> map or_body rs' = map or_body rs)"
proof (induction e dt rs us probes m arbitrary: r m' rule: move_all.induct)
  case (1 e dt x rs path at_xy heading us probe probes m)
  show ?case
  proof (cases "spec_with_sampled_pose (me_sampling e) (or_spec x) at_xy heading probe (Some path)")
    case (Inl err)
    with 1(2) show ?thesis by (auto simp: bind_op_def lift_res_def intro: exI [of _ "om_clock m"])
  next
    case (Inr s)
    obtain k m1 where k: "update_kinematic e (os_position s) (os_orientation s)
      (displacement_velocity (os_position (or_spec x)) (os_position s) dt) m = (k, m1)" by fastforce
    then obtain t where m1: "m1 = m\<lparr>om_clock := t\<rparr>" using update_kinematic_clock by (metis snd_conv)
    show ?thesis
    proof (cases k)
      case (Inl err)
      with 1(2) \<open>spec_with_sampled_pose _ _ _ _ _ _ = _\<close> k m1 show ?thesis by (auto simp: bind_op_def lift_res_def)
    next
      case k': (Inr u)
      obtain c m2 where c: "move_all e dt rs us probes m1 = (c, m2)" by fastforce
      from 1(1) [OF c] m1 have "\<exists>t. m2 = m\<lparr>om_clock := t\<rparr>" "\<forall>rs'. c = Inr rs' \<longrightarrow> map or_body rs' = map or_body rs" by auto
      with 1(2) Inr k k' c show ?thesis by (cases c) (auto simp: bind_op_def lift_res_def)
    qed
  qed
next
  case (2 e dt x rs us probes m)
  obtain c m2 where c: "move_all e dt rs us probes m = (c, m2)" by fastforce
  from 2(1) [OF c] 2(2) c show ?case by (cases c) (auto simp: bind_op_def)
qed (auto simp: clock_same)

lemma update_moving_effect:
  assumes inv: "om_inv F m" and run: "update_moving e dt m = (r, m')"
  shows "om_inv F m' \<and> om_pending m' = om_pending m \<and> record_ids m' = record_ids m \<and> (r = Inr () \<or> om_records m' = om_records m)"
proof -
  have clock: "om_inv F (m\<lparr>om_clock := t\<rparr>)" for t
    using inv by (simp add: om_inv_def owned_def om_side_def om_simps)
  have same: ?thesis if "m' = m\<lparr>om_clock := t\<rparr>" for t
    using that clock by (simp add: om_simps)
  let ?first = "bind_res (ob_finite_float (lit ''dt'') dt) (\<lambda>t. ensure (\<not> f_lt t f_zero) (value_error ''dt must not be negative'')
     (bind_res (map_res (\<lambda>r. moved_path (sm_planar (me_sampling e)) t (or_spec r)) (om_records m)) (\<lambda>us. Inr (t, us))))"
  show ?thesis
  proof (cases ?first)
    case (Inl err)
    with run same [of "om_clock m"] show ?thesis by (simp add: update_moving_def bind_op_def lift_res_def)
  next
    case (Inr tu)
    obtain t us where tu: "tu = (t, us)" by fastforce
    show ?thesis
    proof (cases "list_all (\<lambda>u. u = None) us")
      case True
      with run Inr tu same [of "om_clock m"] show ?thesis by (simp add: update_moving_def bind_op_def lift_res_def)
    next
      case False
      obtain s m1 where s: "sample_moving e (List.map_filter (map_option (fst \<circ> snd)) us) m = (s, m1)" by fastforce
      then have m1: "m1 = tick m" by (simp add: sample_moving_def)
      show ?thesis
      proof (cases s)
        case (Inl err)
        with run Inr tu False s m1 same [of "Suc (om_clock m)"] show ?thesis
          by (simp add: update_moving_def bind_op_def lift_res_def tick_def)
      next
        case probes: (Inr probes)
        obtain c m2 where c: "move_all e t (om_records m) us probes m1 = (c, m2)" by fastforce
        from move_all_effect [OF c] obtain t2 where m2: "m2 = m1\<lparr>om_clock := t2\<rparr>"
          "\<forall>rs'. c = Inr rs' \<longrightarrow> map or_body rs' = map or_body (om_records m)" by blast
        then have m2': "m2 = m\<lparr>om_clock := t2\<rparr>" by (simp add: m1 tick_def)
        show ?thesis
        proof (cases c)
          case (Inl err)
          with run Inr tu False s probes c same [of t2] m2' show ?thesis
            by (simp add: update_moving_def bind_op_def lift_res_def)
        next
          case rs: (Inr rs)
          obtain d m3 where d: "publish_records rs (Some (om_moving_count m)) m2 = (d, m3)" by fastforce
          with run Inr tu False s probes c rs have out: "r = d" "m' = m3"
            by (simp_all add: update_moving_def bind_op_def lift_res_def)
          have ids: "map or_body rs = record_ids m" using m2(2) rs by (simp add: record_ids_def)
          from d have "m3 = m2 \<or> d = Inr () \<and> om_records m3 = rs \<and> om_client m3 = om_client m2 \<and> om_debt m3 = om_debt m2
              \<and> om_fault m3 = om_fault m2 \<and> om_pending m3 = om_pending m2 \<and> (om_fault m2 \<noteq> None \<longrightarrow> rs = [])"
            by (auto simp: publish_records_def Let_def split: if_splits)
          then show ?thesis
          proof
            assume "m3 = m2"
            with same [of t2] m2' out show ?thesis by simp
          next
            assume m3: "d = Inr () \<and> om_records m3 = rs \<and> om_client m3 = om_client m2 \<and> om_debt m3 = om_debt m2
              \<and> om_fault m3 = om_fault m2 \<and> om_pending m3 = om_pending m2 \<and> (om_fault m2 \<noteq> None \<longrightarrow> rs = [])"
            then have "record_ids m3 = record_ids m" "temporary_ids m3 = temporary_ids m" "candidate_ids m3 = candidate_ids m"
              "clear_ids m3 = clear_ids m"
              using ids by (simp_all add: m2' record_ids_def temporary_ids_def candidate_ids_def candidates_def clear_ids_def)
            with inv m3 m2' out show ?thesis by (simp add: om_inv_def owned_def om_side_def)
          qed
        qed
      qed
    qed
  qed
qed

subsection \<open>All operations\<close>

text \<open>
  The manager's operations in any order, with the rest of the program creating and removing bodies of its
  own in between; \<open>F\<close> are these.  A step of the pending operation is taken with the vehicle clear of the
  batch once its bodies are being made.
\<close>

inductive manager_step :: "manager_env \<Rightarrow> nat set \<times> obstacle_manager \<Rightarrow> nat set \<times> obstacle_manager \<Rightarrow> bool"
  for e :: manager_env where
  start_add: "begin_add e q m = (r, m') \<Longrightarrow> manager_step e (F, m) (F, m')"
| start_clear: "begin_clear e m = (r, m') \<Longrightarrow> manager_step e (F, m) (F, m')"
| advance: "advance_pending_operation e m = (r, m') \<Longrightarrow> vehicle_clear e (tick m) \<Longrightarrow> manager_step e (F, m) (F, m')"
| delete_one: "delete e target m = (r, m') \<Longrightarrow> manager_step e (F, m) (F, m')"
| move: "update_moving e dt m = (r, m') \<Longrightarrow> manager_step e (F, m) (F, m')"
| restore_all: "restore e snapshots m = (r, m') \<Longrightarrow> manager_step e (F, m) (F, m')"
| read_specs: "manager_step e (F, m) (F, snd (logical_specs m))"
| foreign_new: "manager_step e (F, m) (insert (ph_next (om_client m)) F, m\<lparr>om_client := register_body (om_client m)\<rparr>)"
| foreign_gone: "b \<in> F \<Longrightarrow> manager_step e (F, m) (F - {b}, m\<lparr>om_client := (om_client m)\<lparr>ph_bodies := removeAll b (ph_bodies (om_client m))\<rparr>\<rparr>)"

inductive manager_reachable :: "manager_env \<Rightarrow> nat set \<times> obstacle_manager \<Rightarrow> bool" for e :: manager_env where
  fresh: "new_manager client terrain_ids = Inr m \<Longrightarrow> physics_ok client \<Longrightarrow> manager_reachable e (set (ph_bodies client), m)"
| next_state: "manager_reachable e s \<Longrightarrow> manager_step e s s' \<Longrightarrow> manager_reachable e s'"

definition operation_ok :: "obstacle_manager \<Rightarrow> bool" where
  "operation_ok m \<longleftrightarrow> (\<forall>po. om_pending m = Some po \<longrightarrow>
     (case po_operation po of
        AddOp q \<Rightarrow> adding m \<and> staged m \<and> plan_matches q m
      | ClearOp \<Rightarrow> temporary_ids m = [] \<and> candidates m = []))"

lemma operation_ok_same:
  assumes "om_pending m' = om_pending m"
  shows "operation_ok m' = operation_ok m"
proof -
  have "adding m' = adding m" "plan_of m' = plan_of m" "temporary_ids m' = temporary_ids m" "candidates m' = candidates m"
    "candidates_made m' = candidates_made m" "temporaries_made m' = temporaries_made m" "plan_complete m' = plan_complete m"
    using assms by (simp_all add: adding_def plan_of_def temporary_ids_def candidates_def candidates_made_def temporaries_made_def
        plan_complete_def)
  moreover from this have "staged m' = staged m" "plan_matches q m' = plan_matches q m" for q
    using planned_of [of m' m] by (simp_all add: staged_def specs_match_def plan_matches_def)
  ultimately show ?thesis using assms by (simp add: operation_ok_def split: obstacle_operation.split)
qed

lemma operation_ok_new: "om_pending m = Some (new_pending (AddOp q) (Some []) []) \<Longrightarrow> operation_ok m"
  "om_pending m = Some (new_pending ClearOp None ids) \<Longrightarrow> operation_ok m" "om_pending m = None \<Longrightarrow> operation_ok m"
  by (simp_all add: operation_ok_def adding_def staged_def plan_matches_def plan_of_def temporary_ids_def candidates_def
      specs_match_def candidates_made_def planned_specs_def new_pending_def)

lemma advance_effect:
  assumes inv: "om_inv F m" and ok: "operation_ok m" and id: "identified (me_physics e)" and clear: "vehicle_clear e (tick m)"
    and run: "advance_pending_operation e m = (r, m')"
  shows "om_inv F m' \<and> operation_ok m'"
proof (cases "om_pending m")
  case None
  with run inv ok show ?thesis by (simp add: advance_pending_operation_def)
next
  case (Some po)
  have inv1: "om_inv F (tick m)" using inv by (simp add: om_inv_def om_side_def om_simps)
  show ?thesis
  proof (cases "po_operation po")
    case (AddOp q)
    with run Some have go: "advance_add e q (tick m) = (r, m')" by (simp add: advance_pending_operation_def)
    from ok Some AddOp have pre: "adding m" "staged m" "plan_matches q m" by (simp_all add: operation_ok_def)
    then have pre1: "add_ok F q (tick m)" "adding (tick m)"
      using inv1 by (simp_all add: add_ok_def plan_matches_def)
    from advance_add_keeps [OF id pre1 clear go] have post: "add_ok F q m'"
      "\<forall>po'. om_pending m' = Some po' \<longrightarrow> po_operation po' = AddOp q" using Some AddOp by (auto simp: om_simps)
    then show ?thesis by (auto simp: add_ok_def operation_ok_def)
  next
    case ClearOp
    with run Some obtain x where go: "clear_bodies e (drop (po_next_clear po) (po_clear_bodies po)) (tick m) = (x, m')"
      by (auto simp: advance_pending_operation_def advance_clear_def bind_op_def split: prod.splits sum.splits)
    from ok Some ClearOp have "temporary_ids (tick m) = []" "candidates (tick m) = []" by (simp_all add: operation_ok_def om_simps)
    moreover have "set (drop (po_next_clear po) (po_clear_bodies po)) \<subseteq> set (clear_ids (tick m))"
      using Some by (simp add: om_simps clear_ids_def set_drop_subset)
    ultimately have "om_inv F m' \<and> (om_pending m' = None \<or> temporary_ids m' = [] \<and> candidates m' = []
        \<and> (\<exists>po'. om_pending m' = Some po' \<and> po_operation po' = ClearOp))"
      using clear_bodies_effect [OF inv1 _ _ _ go] Some ClearOp by (auto simp: om_simps)
    then show ?thesis by (auto simp: operation_ok_def)
  qed
qed

lemma manager_step_inv:
  assumes id: "identified (me_physics e)" and inv: "om_inv F m" "operation_ok m" and st: "manager_step e (F, m) (F', m')"
  shows "om_inv F' m' \<and> operation_ok m'"
  using st
proof (cases rule: manager_step.cases)
  case (start_add q r)
  with begin_add_effect [OF inv(1)] inv(2) operation_ok_new(1) operation_ok_same show ?thesis by metis
next
  case (start_clear r)
  with begin_clear_effect [OF inv(1)] inv(2) operation_ok_new(2) operation_ok_same show ?thesis by metis
next
  case (advance r)
  with advance_effect [OF inv id] show ?thesis by simp
next
  case (delete_one target r)
  with delete_effect [OF inv(1)] inv(2) operation_ok_same show ?thesis by metis
next
  case (move dt r)
  with update_moving_effect [OF inv(1)] inv(2) operation_ok_same show ?thesis by metis
next
  case (restore_all snapshots r)
  with restore_effect [OF inv(1) id] inv(2) operation_ok_same show ?thesis by metis
next
  case read_specs
  then have same: "om_client m' = om_client m" "om_records m' = om_records m" "om_pending m' = om_pending m" "om_debt m' = om_debt m"
    "om_fault m' = om_fault m" by (auto simp: logical_specs_def Let_def split: if_splits)
  then have "owned m' = owned m" "clear_ids m' = clear_ids m"
    by (simp_all add: owned_def record_ids_def temporary_ids_def candidate_ids_def candidates_def clear_ids_def)
  with inv same read_specs operation_ok_same [OF same(3)] show ?thesis by (simp add: om_inv_def om_side_def)
next
  case foreign_new
  let ?n = "ph_next (om_client m)"
  from inv(1) have h: "holds F (om_client m) (owned m)" and side: "om_side F m" by (auto simp: om_inv_def)
  have "owned m' = owned m" "clear_ids m' = clear_ids m" "om_pending m' = om_pending m"
    using foreign_new by (simp_all add: owned_def om_simps)
  moreover have "holds (insert ?n F) (register_body (om_client m)) (owned m)"
    using h by (auto simp: holds_def register_body_def physics_ok_def less_Suc_eq)
  moreover have "om_side (insert ?n F) m'"
    using side foreign_new by (auto simp: om_side_def om_simps register_body_def less_Suc_eq)
  ultimately show ?thesis using foreign_new inv(2) operation_ok_same [of m' m] by (simp add: om_inv_def)
next
  case (foreign_gone b)
  from inv(1) have h: "holds F (om_client m) (owned m)" and side: "om_side F m" by (auto simp: om_inv_def)
  have "owned m' = owned m" "clear_ids m' = clear_ids m" "om_pending m' = om_pending m"
    using foreign_gone by (simp_all add: owned_def om_simps)
  moreover have "holds (F - {b}) (om_client m') (owned m)"
    using h foreign_gone by (auto simp: holds_def physics_ok_def distinct_removeAll)
  moreover have "om_side (F - {b}) m'"
    using side foreign_gone by (auto simp: om_side_def om_simps)
  ultimately show ?thesis using foreign_gone inv(2) operation_ok_same [of m' m] by (simp add: om_inv_def)
qed

lemma manager_reachable_inv:
  assumes id: "identified (me_physics e)" and r: "manager_reachable e s"
  shows "om_inv (fst s) (snd s) \<and> operation_ok (snd s)"
  using r
proof (induction rule: manager_reachable.induct)
  case (fresh client terrain_ids m)
  then have m: "om_client m = client" "om_records m = []" "om_pending m = None" "om_debt m = []" "om_fault m = None"
    by (auto simp: new_manager_def res_simps)
  from fresh m have "holds (set (ph_bodies client)) (om_client m) (record_ids m @ om_debt m)"
    by (auto simp: holds_def physics_ok_def record_ids_def)
  from inv_of_holds [OF m(3,5) this] operation_ok_new(3) [OF m(3)] show ?case by simp
next
  case (next_state s s')
  obtain F m F' m' where "s = (F, m)" "s' = (F', m')" by fastforce
  with next_state manager_step_inv [OF id, of F m F' m'] show ?case by simp
qed


text \<open>
  What the restriction of \<open>advance\<close> is for: when the vehicle's box reaches the batch between two frames, and
  some of the batch's collision bodies have been made, \<^verbatim>\<open>_advance_add\<close> removes the temporary bodies and
  ends the operation, and nobody owns the collision bodies any more.
\<close>

lemma vehicle_overlap_loses_candidates:
  assumes inv: "om_inv F m" and b: "b \<in> set (candidate_ids m)" "b \<in> set (ph_bodies (om_client m))"
    and box: "vehicle_box e (om_clock m) = Inr box"
      "batch_overlaps_vehicle (sm_planar (me_sampling e)) (me_settings e) (planned_specs m) box"
  shows "\<exists>r m'. vehicle_phase e m = (Inr (Some r), m') \<and> om_pending m' = None
    \<and> b \<in> set (ph_bodies (om_client m')) \<and> b \<notin> F \<union> set (owned m')"
proof -
  from inv have h: "holds F (om_client m) (owned m)" by (simp add: om_inv_def)
  then have "holds F (om_client (tick m)) (candidate_ids m @ record_ids (tick m) @ temporary_ids (tick m) @ om_debt (tick m))"
    by (auto simp: owned_def om_simps elim!: holds_mset)
  from cleanup_temporary_effect [OF this, of e] obtain fs m1 where m1: "cleanup_pending_temporary e (tick m) = (Inr fs, m1)"
    "holds F (om_client m1) (candidate_ids m @ record_ids m1 @ om_debt m1)"
    "set (ph_bodies (om_client (tick m))) - set (temporary_ids (tick m)) \<subseteq> set (ph_bodies (om_client m1))" by blast
  let ?final = "stop_add (with_failures (lit ''vehicle AABB overlaps planned obstacle batch'') ''temporary'' fs) m1"
  have "vehicle_phase e m = ?final" using box m1(1) by (simp add: vehicle_phase_def bind_op_def)
  moreover have "b \<notin> set (temporary_ids m)" using h b(1) by (auto simp: holds_def owned_def)
  then have "b \<in> set (ph_bodies (om_client m1))" using b(2) m1(3) by (auto simp: om_simps)
  moreover have "b \<notin> F \<union> set (record_ids m1 @ om_debt m1)" using m1(2) b(1) by (auto simp: holds_def)
  ultimately show ?thesis by (simp add: stop_add_def idle_owned om_simps)
qed

subsection \<open>Whole or nothing\<close>


text \<open>
  C28. Restoring a snapshot gives the whole scene of the snapshot, or leaves the logical scene as it was, or
  the manager is faulted and has no formal records: there is no mixture of old and new obstacles, whichever
  physics call fails in the restore or in its rollback.
\<close>

theorem restore_whole_or_nothing:
  assumes "identified (me_physics e)" and "manager_reachable e (F, m)" and "restore e snapshots m = (r, m')"
  shows "(\<exists>specs. restored_specs e snapshots = Inr specs \<and> r = Inr (success_result ''restore'' (length specs) 0)
        \<and> map or_spec (om_records m') = specs)
    \<or> (\<forall>s. r = Inr s \<longrightarrow> \<not> ob_succeeded s) \<and> map or_spec (om_records m') = map or_spec (om_records m)
    \<or> (\<exists>err. r = Inl err) \<and> om_fault m' \<noteq> None \<and> om_records m' = []"
proof -
  from manager_reachable_inv [OF assms(1,2)] have inv: "om_inv F m" by simp
  from restore_effect [OF this assms(1,3)] show ?thesis
    by (cases "restored_specs e snapshots") (auto simp: restore_outcome_def)
qed

subsection \<open>An example\<close>

definition failing_physics :: physics_env where
  \<comment> \<open>creating a body raises after it was registered, and removing it has no effect\<close>
  "failing_physics =
     \<lparr>px_list = (\<lambda>_. None), px_remove = (\<lambda>_. (False, None)),
      px_create = (\<lambda>_. CreateFails True True False (runtime_error ''createMultiBody'')), px_remove_shape = (\<lambda>_. None)\<rparr>"

definition example_env :: manager_env where
  "example_env =
     \<lparr>me_physics = failing_physics, me_sampling = example_sampling, me_settings = example_settings, me_expired = (\<lambda>_. False),
      me_vehicle = None, me_rays = (\<lambda>_ _. Inr []), me_reset = (\<lambda>_. None)\<rparr>"

definition example_manager :: obstacle_manager where
  "example_manager =
     \<lparr>om_client = \<lparr>ph_bodies = [0], ph_next = 1, ph_calls = 0\<rparr>, om_records = [], om_revision = 0, om_moving_count = 0,
      om_specs_cache = [], om_specs_revision = 0, om_debt = [], om_fault = None, om_pending = None, om_clock = 0\<rparr>"

definition example_snapshot :: obstacle_snapshot where
  "example_snapshot =
     \<lparr>sn_logical_id = 1, sn_body = None, sn_mode = ''static'', sn_shape = ''box'', sn_position = [Fin 7, Fin 7, Fin 1],
      sn_orientation = [Fin 0, Fin 0, Fin 0, Fin 1], sn_path = None,
      sn_geometry = Some \<lparr>og_shape = ''box'', og_half_extents = [Fin 1, Fin 1, Fin 1]\<rparr>\<rparr>"

lemma example_identified: "identified (me_physics example_env)"
  by (simp add: identified_def example_env_def failing_physics_def)

lemma example_reachable: "manager_reachable example_env ({0}, example_manager)"
  using manager_reachable.fresh [of "\<lparr>ph_bodies = [0], ph_next = 1, ph_calls = 0\<rparr>" "[0]" example_manager example_env]
  by (simp add: new_manager_def example_manager_def physics_ok_def)

lemma example_restored: "restored_specs example_env [example_snapshot] = Inr [example_spec 1 (Fin 7)]"
proof -
  have lower: "py_lower ''box'' = ''box''" "py_lower ''static'' = ''static''" by code_simp+
  have "mk_obstacle_spec (sm_planar example_sampling) (PInt 1) ''static''
      (Instance \<lparr>og_shape = ''box'', og_half_extents = [Fin 1, Fin 1, Fin 1]\<rparr>) [PFloat (Fin 7), PFloat (Fin 7), PFloat (Fin 1)]
      [PFloat (Fin 0), PFloat (Fin 0), PFloat (Fin 0), PFloat (Fin 1)] None = Inr (example_spec 1 (Fin 7))"
    by (simp add: mk_obstacle_spec_def ob_integral_def lower_choice_def mk_obstacle_geometry_def obstacle_shapes_def lower
        normalize_orientation_def example_sampling_def example_spec_def example_simps Let_def)
  moreover have "probe_terrain example_sampling example_settings (Fin 7, Fin 7)
      = Inr \<lparr>tp_valid = True, tp_out_of_bounds = False, tp_height = Fin 0, tp_normal = (Fin 0, Fin 0, Fin 1)\<rparr>"
    by (simp add: probe_terrain_def example_sampling_def example_settings_def bounds_contain_def)
  ultimately show ?thesis
    by (simp add: restored_specs_def restored_spec_def example_snapshot_def example_env_def spec_with_sampled_pose_def
        heading_for_spec_def example_orientation example_simps)
       (simp add: example_spec_def example_settings_def example_orientation example_simps)
qed

lemma example_restore:
  "\<exists>err m1. restore example_env [example_snapshot] example_manager = (Inl err, m1)
     \<and> om_debt m1 = [1] \<and> ph_bodies (om_client m1) = [0, 1] \<and> om_records m1 = []"
proof -
  have "case restore_records example_env [example_spec 1 (Fin 7)] example_manager of
      (Inl err, m1) \<Rightarrow> om_debt m1 = [1] \<and> ph_bodies (om_client m1) = [0, 1] \<and> om_records m1 = [] | (Inr x, m1) \<Rightarrow> False"
    by code_simp
  moreover have "require_no_pending example_env example_manager = (Inr (), example_manager)" by code_simp
  moreover obtain r m1 where run: "restore_records example_env [example_spec 1 (Fin 7)] example_manager = (r, m1)" by fastforce
  ultimately show ?thesis
    by (cases r) (simp_all add: restore_def example_restored bind_op_def lift_res_def)
qed


theorem restore_whole_or_nothing_witness:
  "\<exists>err m1. restore example_env [example_snapshot] example_manager = (Inl err, m1)
     \<and> (map or_spec (om_records m1) = [] \<or> om_fault m1 \<noteq> None)"
proof -
  from example_restore obtain err m1 where m1: "restore example_env [example_snapshot] example_manager = (Inl err, m1)" by blast
  from restore_whole_or_nothing [OF example_identified example_reachable m1] m1 show ?thesis
    by (auto simp: example_manager_def)
qed


end
