(* ===== verification/WorldBuilding.thy ===== *)
theory WorldBuilding
  imports SceneModels ObstacleLifecycle
begin

text \<open>
  Building and removing a whole physical world, as \<^verbatim>\<open>slope_sim/coordinator.py\<close> does it: the terrain, the
  vehicle on its spawn point and the obstacles of a scene document, with the clean-up of everything made so
  far when a later step fails, and the strict removal of the world in use.  Also the classification of ray
  hits the sensor backend is given for the new world (\<^verbatim>\<open>bind_scene\<close> of \<^verbatim>\<open>slope_sim/sensor_backend.py\<close>).
  What PyBullet does when the terrain or the vehicle is made is the environment.
\<close>

subsection \<open>The world\<close>

record scene_info =
  si_bodies :: "nat list"
  si_spawn :: "pyfloat list"
  si_bounds :: "(pyfloat \<times> pyfloat \<times> pyfloat \<times> pyfloat) option"

record active_robot =
  ar_body :: nat
  ar_spec :: robot_model_spec
  ar_model :: string
  ar_wheel_radius :: pyfloat

record active_world =
  aw_scene :: scene_info
  aw_robot :: active_robot
  aw_terrain :: terrain_selection

datatype scene_outcome =
  SceneReady nat "pyfloat list" "(pyfloat \<times> pyfloat \<times> pyfloat \<times> pyfloat) option"
    \<comment> \<open>the terrain bodies beyond the first, the spawn point and the bounds\<close>
| SceneFails bool nat exc  \<comment> \<open>was the client reset, and how many bodies were left\<close>

datatype robot_outcome = RobotReady | RobotFails bool exc  \<comment> \<open>was a body registered\<close>

record world_env =
  we_physics :: physics_env
  we_planar :: planar
  we_manager :: "scene_info \<Rightarrow> manager_env"  \<comment> \<open>the surroundings of the obstacle manager on a terrain\<close>
  we_scene :: "nat \<Rightarrow> terrain_selection \<Rightarrow> scene_outcome"
  we_robot :: "nat \<Rightarrow> string \<Rightarrow> robot_outcome"
  we_friction :: "nat \<Rightarrow> exc option"
  we_backend :: "nat \<Rightarrow> exc option"

definition cleaning :: "('e, 's, 'a) op \<Rightarrow> ('s \<Rightarrow> 's) \<Rightarrow> ('e, 's, 'a) op" where
  \<comment> \<open>\<^verbatim>\<open>try: f() except Exception: g(); raise\<close>, for a \<open>g\<close> that does not raise\<close>
  "cleaning f g s = (case f s of (Inl x, s1) \<Rightarrow> (Inl x, g s1) | (Inr v, s1) \<Rightarrow> (Inr v, s1))"

definition call_may_raise :: "(nat \<Rightarrow> exc option) \<Rightarrow> (exc, physics, unit) op" where
  "call_may_raise outcome p = (case outcome (ph_calls p) of None \<Rightarrow> Inr () | Some x \<Rightarrow> Inl x, count_call p)"

definition remove_safely :: "physics_env \<Rightarrow> nat \<Rightarrow> physics \<Rightarrow> physics" where
  \<comment> \<open>\<^verbatim>\<open>_remove_body_safely\<close>\<close>
  "remove_safely px b p = snd (remove_body px b p)"

definition remove_all_safely :: "physics_env \<Rightarrow> nat list \<Rightarrow> physics \<Rightarrow> physics" where
  "remove_all_safely px bs = fold (remove_safely px) bs"

fun remove_bodies :: "physics_env \<Rightarrow> nat list \<Rightarrow> (exc, physics, unit) op" where
  \<comment> \<open>stops at the first exception\<close>
  "remove_bodies px [] p = (Inr (), p)"
| "remove_bodies px (b # bs) p = bind_op (remove_body px b) (\<lambda>_. remove_bodies px bs) p"

definition sweeping :: "physics_env \<Rightarrow> nat list \<Rightarrow> (exc, physics, 'a) op \<Rightarrow> (exc, physics, 'a) op" where
  \<comment> \<open>a handler that removes every body beyond the \<open>existing\<close> ones; a failing listing replaces the exception\<close>
  "sweeping px existing f p =
     (case f p of
        (Inr v, p1) \<Rightarrow> (Inr v, p1)
      | (Inl x, p1) \<Rightarrow>
          bind_op (list_bodies px) (\<lambda>current p2.
            (Inl x, remove_all_safely px (filter (\<lambda>b. b \<notin> set existing) current) p2)) p1)"

subsection \<open>Terrain and vehicle\<close>

definition reset_client :: "physics \<Rightarrow> physics" where
  \<comment> \<open>\<^verbatim>\<open>p.resetSimulation\<close>: all bodies go, and their ids begin anew\<close>
  "reset_client p = p\<lparr>ph_bodies := [], ph_next := 0\<rparr>"

definition create_scene :: "world_env \<Rightarrow> terrain_selection \<Rightarrow> (exc, physics, scene_info) op" where
  \<comment> \<open>\<^verbatim>\<open>create_slope_scene\<close>, which begins with \<^verbatim>\<open>resetSimulation\<close>\<close>
  "create_scene e terrain p =
     (case we_scene e (ph_calls p) terrain of
        SceneReady n spawn bounds \<Rightarrow>
          (Inr \<lparr>si_bodies = [0..<Suc n], si_spawn = spawn, si_bounds = bounds\<rparr>,
           (register_body ^^ Suc n) (reset_client (count_call p)))
      | SceneFails was_reset left x \<Rightarrow>
          (Inl x, (register_body ^^ left) (if was_reset then reset_client (count_call p) else count_call p)))"

definition construct_robot :: "world_env \<Rightarrow> string \<Rightarrow> nat list \<Rightarrow> (exc, physics, nat) op" where
  \<comment> \<open>the constructor, and the handler that removes what it left beyond the \<open>existing\<close> bodies\<close>
  "construct_robot e model existing p =
     (case we_robot e (ph_calls p) model of
        RobotReady \<Rightarrow> (Inr (ph_next p), register_body (count_call p))
      | RobotFails registered x \<Rightarrow>
          bind_op (list_bodies (we_physics e)) (\<lambda>current.
          bind_op (remove_bodies (we_physics e) (filter (\<lambda>b. b \<notin> set existing) current)) (\<lambda>_ p. (Inl x, p)))
            (if registered then register_body (count_call p) else count_call p))"

definition create_robot :: "world_env \<Rightarrow> string \<Rightarrow> (exc, physics, nat) op" where
  "create_robot e model =
     bind_op (lift_res (get_robot_model model)) (\<lambda>_.
     bind_op (list_bodies (we_physics e)) (construct_robot e model))"

definition load_robot :: "world_env \<Rightarrow> string \<Rightarrow> (exc, physics, active_robot) op" where
  \<comment> \<open>\<^verbatim>\<open>load_manual_robot\<close>\<close>
  "load_robot e robot_model =
     (let model = py_lower robot_model in
      bind_op (lift_res (get_robot_model model)) (\<lambda>spec.
      bind_op (create_robot e model) (\<lambda>b.
      bind_op (cleaning (call_may_raise (we_friction e)) (remove_safely (we_physics e) b)) (\<lambda>_ p.
        (Inr \<lparr>ar_body = b, ar_spec = spec, ar_model = model, ar_wheel_radius = rm_wheel_radius spec\<rparr>, p)))))"

definition load_world :: "world_env \<Rightarrow> terrain_selection \<Rightarrow> string \<Rightarrow> (exc, physics, active_world) op" where
  \<comment> \<open>\<^verbatim>\<open>load_manual_world\<close>\<close>
  "load_world e terrain robot_model =
     bind_op (create_scene e terrain) (\<lambda>scene.
     bind_op (cleaning (load_robot e robot_model) (remove_all_safely (we_physics e) (si_bodies scene))) (\<lambda>robot p.
       (Inr \<lparr>aw_scene = scene, aw_robot = robot, aw_terrain = terrain\<rparr>, p)))"

subsection \<open>The obstacle manager of a world\<close>

definition default_bounds :: "pyfloat \<times> pyfloat \<times> pyfloat \<times> pyfloat" where
  "default_bounds = (Fin (- 8), Fin 8, Fin (- 4), Fin 4)"

definition validate_bounds :: "pyfloat \<times> pyfloat \<times> pyfloat \<times> pyfloat \<Rightarrow> (exc, unit) res" where
  "validate_bounds b =
     (case b of (min_x, max_x, min_y, max_y) \<Rightarrow>
        bind_res (ob_finite_float (lit ''bounds.min_x'') (PFloat min_x)) (\<lambda>_.
        bind_res (ob_finite_float (lit ''bounds.max_x'') (PFloat max_x)) (\<lambda>_.
        bind_res (ob_finite_float (lit ''bounds.min_y'') (PFloat min_y)) (\<lambda>_.
        bind_res (ob_finite_float (lit ''bounds.max_y'') (PFloat max_y)) (\<lambda>_.
          ensure (\<not> (f_le max_x min_x \<or> f_le max_y min_y)) (value_error ''bounds must have positive width and height'') (Inr ()))))))"

definition default_settings :: placement_settings where
  "default_settings =
     \<lparr>gs_bounds = default_bounds, gs_spawn = (Fin 0, Fin 0), gs_spawn_protection_radius = fl (8/10), gs_vehicle_aabb = None,
      gs_minimum_clearance = fl (1/10),
      gs_half_extent_ranges = [(fl (12/100), fl (35/100)), (fl (12/100), fl (35/100)), (fl (20/100), fl (55/100))],
      gs_path_length_range = (fl (8/10), fl 2), gs_max_attempts = 300, gs_max_batch = 50, gs_max_scene = 100\<rparr>"

definition settings_for :: "placement_settings \<Rightarrow> scene_info \<Rightarrow> (exc, placement_settings) res" where
  \<comment> \<open>bounds and spawn point of the scene; the other fields passed the checks of the constructor before\<close>
  "settings_for base scene =
     (let b = (case si_bounds scene of None \<Rightarrow> default_bounds | Some b \<Rightarrow> b) in
      bind_res (validate_bounds b) (\<lambda>_.
      bind_res (ob_finite_vector ''spawn_position'' 3 (map PFloat (si_spawn scene))) (\<lambda>spawn.
        Inr (base\<lparr>gs_bounds := b, gs_spawn := (spawn ! 0, spawn ! 1)\<rparr>))))"

definition create_manager ::
  "placement_settings option \<Rightarrow> active_world \<Rightarrow> physics \<Rightarrow> (exc, placement_settings \<times> obstacle_manager) res" where
  \<comment> \<open>\<^verbatim>\<open>create_obstacle_manager\<close>; \<open>template\<close> is the settings of the manager it is given\<close>
  "create_manager template world p =
     bind_res (settings_for (case template of None \<Rightarrow> default_settings | Some s \<Rightarrow> s) (aw_scene world)) (\<lambda>settings.
     bind_res (new_manager p (si_bodies (aw_scene world))) (\<lambda>m. Inr (settings, m)))"

definition manager_env_for :: "world_env \<Rightarrow> scene_info \<Rightarrow> placement_settings \<Rightarrow> manager_env" where
  "manager_env_for e scene settings = (we_manager e scene)\<lparr>me_physics := we_physics e, me_settings := settings\<rparr>"

definition snapshot_of_spec :: "obstacle_spec \<Rightarrow> obstacle_snapshot" where
  \<comment> \<open>\<^verbatim>\<open>_snapshot_from_document\<close>\<close>
  "snapshot_of_spec s =
     \<lparr>sn_logical_id = os_logical_id s, sn_body = None, sn_mode = os_mode s, sn_shape = og_shape (os_geometry s),
      sn_position = os_position s, sn_orientation = os_orientation s, sn_path = os_path s, sn_geometry = Some (os_geometry s)\<rparr>"

definition restore_obstacles ::
  "world_env \<Rightarrow> scene_document \<Rightarrow> active_world \<Rightarrow> placement_settings \<times> obstacle_manager \<Rightarrow>
   (exc, physics, placement_settings \<times> obstacle_manager) op" where
  \<comment> \<open>\<open>p\<close> is the client of the manager\<close>
  "restore_obstacles e d world sm p =
     (case restore (manager_env_for e (aw_scene world) (fst sm)) (map snapshot_of_spec (doc_obstacles d)) ((snd sm)\<lparr>om_client := p\<rparr>) of
        (r, m) \<Rightarrow>
          (bind_res r (\<lambda>result.
             ensure (ob_succeeded result)
               (Exc RuntimeErr (if ob_message result = [] then lit ''scene obstacle restore failed'' else ob_message result))
               (Inr (fst sm, m))),
           om_client m))"

definition build_world ::
  "world_env \<Rightarrow> placement_settings option \<Rightarrow> scene_document inst \<Rightarrow>
   (exc, physics, active_world \<times> placement_settings \<times> obstacle_manager) op" where
  \<comment> \<open>\<^verbatim>\<open>build_world_from_scene_document\<close>\<close>
  "build_world e template document =
     (case document of
        Foreign \<Rightarrow> lift_res (Inl (value_error ''document must be a SceneDocument''))
      | Instance d \<Rightarrow>
          bind_op (lift_res (mk_scene_document (we_planar e) (PInt (doc_schema_version d)) (PStr (doc_robot_model d))
            (Instance (doc_terrain d)) (Instance (map Instance (doc_obstacles d))) (Instance (doc_sensors d)))) (\<lambda>v.
          bind_op (lift_res (mk_terrain_selection (td_model (doc_terrain v)) (PFloat (td_slope_deg (doc_terrain v)))
            (PInt (td_golf_seed (doc_terrain v))) (td_golf_relief (doc_terrain v)))) (\<lambda>terrain.
          bind_op (list_bodies (we_physics e)) (\<lambda>existing.
          sweeping (we_physics e) existing
            (bind_op (load_world e terrain (doc_robot_model v)) (\<lambda>world.
             bind_op (\<lambda>p. lift_res (create_manager template world p) p) (\<lambda>sm.
             bind_op (restore_obstacles e v world sm) (\<lambda>sm p. (Inr (world, sm), p)))))))))"

subsection \<open>The classification of ray hits\<close>

datatype hit_category = Terrain | StaticObstacle | MovingObstacle

fun obstacle_categories :: "nat \<Rightarrow> obstacle_snapshot list \<Rightarrow> (nat \<times> hit_category) list \<Rightarrow> (exc, (nat \<times> hit_category) list) res" where
  \<comment> \<open>the loop over the obstacles of \<^verbatim>\<open>bind_scene\<close>, from the \<open>i\<close>th on\<close>
  "obstacle_categories i [] cs = Inr cs"
| "obstacle_categories i (sn # sns) cs =
     ensure (sn_mode sn \<in> {''static'', ''moving''})
       (Exc ValueErr [Lit ''obstacles['', IntRepr (int i), Lit ''].mode must be a string: static or moving''])
       (case sn_body sn of
          None \<Rightarrow> obstacle_categories (Suc i) sns cs
        | Some b \<Rightarrow>
            (let c = (if sn_mode sn = ''moving'' then MovingObstacle else StaticObstacle) in
             ensure (map_of cs b = None \<or> map_of cs b = Some c)
               (Exc ValueErr [Lit ''body id '', IntRepr (int b), Lit '' has conflicting scene categories''])
               (obstacle_categories (Suc i) sns (dict_put b c cs))))"

definition bind_scene :: "nat list \<Rightarrow> obstacle_snapshot list \<Rightarrow> (exc, (nat \<times> hit_category) list) res" where
  "bind_scene terrain_ids obstacles = obstacle_categories 0 obstacles (fold (\<lambda>b. dict_put b Terrain) terrain_ids [])"

subsection \<open>Building a candidate scene\<close>

record built_scene =
  bs_world :: active_world
  bs_settings :: placement_settings
  bs_manager :: obstacle_manager
  bs_backend :: "(nat \<times> hit_category) list option"  \<comment> \<open>the categories its sensor backend holds\<close>
  bs_document :: scene_document

definition world_body_ids :: "active_world \<Rightarrow> obstacle_manager \<Rightarrow> nat list" where
  "world_body_ids world m =
     from_keys (pending_body_ids m @ record_ids m @ [ar_body (aw_robot world)] @ si_bodies (aw_scene world))"

definition cleanup_world :: "physics_env \<Rightarrow> active_world \<Rightarrow> obstacle_manager \<Rightarrow> physics \<Rightarrow> physics" where
  \<comment> \<open>\<^verbatim>\<open>_cleanup_world_best_effort\<close>; collecting the ids does not raise here\<close>
  "cleanup_world px world m = remove_all_safely px (world_body_ids world m)"

definition document_for_world ::
  "planar \<Rightarrow> active_world \<Rightarrow> obstacle_manager \<Rightarrow> sensor_document \<Rightarrow> (exc, scene_document) res" where
  \<comment> \<open>\<^verbatim>\<open>_logical_document_for_world\<close>\<close>
  "document_for_world pl world m sensors =
     scene_from_runtime pl (ar_model (aw_robot world)) (Inr (Instance (aw_terrain world))) (map SpecItem (fst (logical_specs m)))
       (Instance (sd_mounts sensors)) (Some (Instance (sd_lidar sensors)))"

definition sensor_backend_for ::
  "world_env \<Rightarrow> bool \<Rightarrow> active_world \<Rightarrow> obstacle_manager \<Rightarrow> (exc, physics, (nat \<times> hit_category) list option) op" where
  \<comment> \<open>only made when there is a runtime\<close>
  "sensor_backend_for e wanted world m =
     (if \<not> wanted then lift_res (Inr None)
      else bind_op (call_may_raise (we_backend e)) (\<lambda>_.
             lift_res (bind_res (bind_scene (si_bodies (aw_scene world)) (snapshot True m)) (\<lambda>cs. Inr (Some cs)))))"

definition finish_scene ::
  "world_env \<Rightarrow> bool \<Rightarrow> scene_document \<Rightarrow> active_world \<times> placement_settings \<times> obstacle_manager \<Rightarrow> (exc, physics, built_scene) op" where
  \<comment> \<open>what \<^verbatim>\<open>_build_scene\<close> does with a world that was built\<close>
  "finish_scene e wanted d wsm =
     (case wsm of (world, settings, m) \<Rightarrow>
        bind_op (sensor_backend_for e wanted world m) (\<lambda>backend.
          lift_res (bind_res (document_for_world (we_planar e) world m (doc_sensors d)) (\<lambda>document.
            Inr \<lparr>bs_world = world, bs_settings = settings, bs_manager = snd (logical_specs m), bs_backend = backend,
                 bs_document = document\<rparr>))))"

definition build_scene ::
  "world_env \<Rightarrow> bool \<Rightarrow> scene_document \<Rightarrow> placement_settings \<Rightarrow> (exc, physics, built_scene) op" where
  "build_scene e wanted d template =
     bind_op (list_bodies (we_physics e)) (\<lambda>existing.
     sweeping (we_physics e) existing
       (bind_op (build_world e (Some template) (Instance d)) (\<lambda>(world, settings, m).
          cleaning (finish_scene e wanted d (world, settings, m)) (cleanup_world (we_physics e) world m))))"

subsection \<open>Removing the world in use\<close>

definition remove_active_body :: "physics_env \<Rightarrow> nat \<Rightarrow> (exc, physics, unit) op" where
  "remove_active_body px b p =
     (case remove_body px b p of
        (Inl x, p1) \<Rightarrow> (Inl (Exc RuntimeErr (Lit ''failed to remove active body '' # body_label b @ Lit '': '' # exception_reason x)), p1)
      | (Inr _, p1) \<Rightarrow>
          bind_op (list_bodies px) (\<lambda>current p2.
            (ensure (b \<notin> set current)
               (Exc RuntimeErr (Lit ''active body '' # body_label b @ lit '' remained after removeBody'')) (Inr ()), p2)) p1)"

fun remove_present :: "physics_env \<Rightarrow> nat list \<Rightarrow> (exc, physics, unit) op" where
  \<comment> \<open>\<^verbatim>\<open>_remove_active_world_strict\<close> with \<^verbatim>\<open>known_present_body_ids\<close>\<close>
  "remove_present px [] p = (Inr (), p)"
| "remove_present px (b # bs) p = bind_op (remove_active_body px b) (\<lambda>_. remove_present px bs) p"

fun remove_listed :: "physics_env \<Rightarrow> nat list \<Rightarrow> (exc, physics, unit) op" where
  \<comment> \<open>the same without them: a body that is not listed is passed over\<close>
  "remove_listed px [] p = (Inr (), p)"
| "remove_listed px (b # bs) p =
     bind_op (list_bodies px) (\<lambda>current.
     bind_op (if b \<in> set current then remove_active_body px b else lift_res (Inr ())) (\<lambda>_. remove_listed px bs)) p"

subsection \<open>What was built\<close>

lemma registered: "(register_body ^^ n) (reset_client p) = p\<lparr>ph_bodies := [0..<n], ph_next := n\<rparr>"
  by (induction n) (simp_all add: reset_client_def register_body_def)

lemma create_scene_Inr:
  assumes "create_scene e terrain p = (Inr scene, p')"
  shows "\<exists>n. si_bodies scene = [0..<Suc n] \<and> ph_bodies p' = [0..<Suc n] \<and> ph_next p' = Suc n"
proof (cases "we_scene e (ph_calls p) terrain")
  case (SceneReady n spawn bounds)
  with assms have "si_bodies scene = [0..<Suc n]" "p' = (register_body ^^ Suc n) (reset_client (count_call p))"
    by (auto simp: create_scene_def)
  then show ?thesis unfolding registered by auto
qed (use assms in \<open>simp add: create_scene_def\<close>)

lemma bind_op_Inr: "bind_op f k s = (Inr y, s'') \<longleftrightarrow> (\<exists>x s'. f s = (Inr x, s') \<and> k x s' = (Inr y, s''))"
  by (auto simp: bind_op_def split: prod.splits sum.splits)

lemma cleaning_Inr: "cleaning f g s = (Inr y, s') \<longleftrightarrow> f s = (Inr y, s')"
  by (auto simp: cleaning_def split: prod.splits sum.splits)

lemma lift_res_Inr: "lift_res r s = (Inr y, s') \<longleftrightarrow> r = Inr y \<and> s' = s"
  by (auto simp: lift_res_def)

lemma sweeping_Inr: "sweeping px existing f s = (Inr y, s') \<longleftrightarrow> f s = (Inr y, s')"
  by (auto simp: sweeping_def bind_op_def split: prod.splits sum.splits)

lemmas op_Inr = bind_op_Inr cleaning_Inr sweeping_Inr lift_res_Inr

lemma list_bodies_Inr: "list_bodies px p = (Inr bs, p') \<Longrightarrow> p' = count_call p \<and> bs = ph_bodies p"
  using list_bodies_effect by blast

lemma call_may_raise_effect: "call_may_raise oc p = (r, p') \<Longrightarrow> p' = count_call p"
  by (simp add: call_may_raise_def)

lemma construct_robot_Inr:
  "construct_robot e model existing p = (Inr b, p') \<Longrightarrow> b = ph_next p \<and> ph_bodies p' = ph_bodies p @ [b] \<and> ph_next p' = Suc b"
  by (auto simp: construct_robot_def register_body_def op_Inr split: robot_outcome.splits)

lemma load_robot_Inr:
  assumes "load_robot e robot_model p = (Inr robot, p')"
  shows "ar_body robot = ph_next p \<and> ph_bodies p' = ph_bodies p @ [ph_next p] \<and> ph_next p' = Suc (ph_next p)
    \<and> ar_model robot = py_lower robot_model \<and> get_robot_model (py_lower robot_model) = Inr (ar_spec robot)"
  using assms
  by (auto simp: load_robot_def create_robot_def op_Inr Let_def dest!: list_bodies_Inr construct_robot_Inr call_may_raise_effect)

lemma load_world_Inr:
  assumes "load_world e terrain robot_model p = (Inr world, p')"
  shows "set (ph_bodies p') = insert (ar_body (aw_robot world)) (set (si_bodies (aw_scene world))) \<and> physics_ok p'
    \<and> ar_body (aw_robot world) \<notin> set (si_bodies (aw_scene world)) \<and> aw_terrain world = terrain
    \<and> ar_model (aw_robot world) = py_lower robot_model
    \<and> get_robot_model (py_lower robot_model) = Inr (ar_spec (aw_robot world))"
proof -
  from assms obtain scene p1 robot where s: "create_scene e terrain p = (Inr scene, p1)"
    "load_robot e robot_model p1 = (Inr robot, p')" "world = \<lparr>aw_scene = scene, aw_robot = robot, aw_terrain = terrain\<rparr>"
    by (auto simp: load_world_def op_Inr)
  from create_scene_Inr [OF s(1)] obtain n where n: "si_bodies scene = [0..<Suc n]" "ph_bodies p1 = [0..<Suc n]" "ph_next p1 = Suc n"
    by blast
  have b: "ar_body robot = Suc n" "ph_bodies p' = [0..<Suc n] @ [Suc n]" "ph_next p' = Suc (Suc n)"
    using load_robot_Inr [OF s(2)] unfolding n(2,3) by simp_all
  have "physics_ok p'" unfolding physics_ok_def b by simp
  then show ?thesis using load_robot_Inr [OF s(2)] by (auto simp: s(3) n(1) b)
qed

definition world_bodies :: "active_world \<Rightarrow> nat set" where
  "world_bodies world = insert (ar_body (aw_robot world)) (set (si_bodies (aw_scene world)))"

definition built_from ::
  "world_env \<Rightarrow> scene_document \<Rightarrow> active_world \<Rightarrow> placement_settings \<Rightarrow> obstacle_manager \<Rightarrow> bool" where
  \<comment> \<open>terrain, vehicle and obstacles are those of the document, the obstacles put on the terrain\<close>
  "built_from e d world settings m \<longleftrightarrow>
     (\<exists>v. mk_scene_document (we_planar e) (PInt (doc_schema_version d)) (PStr (doc_robot_model d)) (Instance (doc_terrain d))
            (Instance (map Instance (doc_obstacles d))) (Instance (doc_sensors d)) = Inr v
        \<and> mk_terrain_selection (td_model (doc_terrain v)) (PFloat (td_slope_deg (doc_terrain v)))
            (PInt (td_golf_seed (doc_terrain v))) (td_golf_relief (doc_terrain v)) = Inr (aw_terrain world)
        \<and> ar_model (aw_robot world) = py_lower (doc_robot_model v)
        \<and> get_robot_model (ar_model (aw_robot world)) = Inr (ar_spec (aw_robot world))
        \<and> restored_specs (manager_env_for e (aw_scene world) settings) (map snapshot_of_spec (doc_obstacles v))
            = Inr (map or_spec (om_records m)))"

lemma build_world_Inr:
  assumes id: "identified (we_physics e)"
    and run: "build_world e template (Instance d) p = (Inr (world, settings, m), p')"
  shows "om_client m = p' \<and> om_inv (world_bodies world) m \<and> om_pending m = None
    \<and> ar_body (aw_robot world) \<notin> set (si_bodies (aw_scene world)) \<and> built_from e d world settings m"
proof -
  let ?mk = "mk_scene_document (we_planar e) (PInt (doc_schema_version d)) (PStr (doc_robot_model d))
    (Instance (doc_terrain d)) (Instance (map Instance (doc_obstacles d))) (Instance (doc_sensors d))"
  from run obtain v terrain p1 p2 sm where v: "?mk = Inr v"
    and t: "mk_terrain_selection (td_model (doc_terrain v)) (PFloat (td_slope_deg (doc_terrain v)))
            (PInt (td_golf_seed (doc_terrain v))) (td_golf_relief (doc_terrain v)) = Inr terrain"
    and w: "load_world e terrain (doc_robot_model v) p1 = (Inr world, p2)"
    and c: "create_manager template world p2 = Inr sm"
    and r: "restore_obstacles e v world sm p2 = (Inr (settings, m), p')"
    by (auto simp: build_world_def op_Inr)
  obtain m0 where sm: "sm = (settings, m0)" using r by (cases sm) (auto simp: restore_obstacles_def res_simps split: prod.splits)
  note c = c [unfolded sm] and r = r [unfolded sm]
  note lw = load_world_Inr [OF w]
  from c have m0: "new_manager p2 (si_bodies (aw_scene world)) = Inr m0" by (auto simp: create_manager_def res_simps)
  then have m0': "m0\<lparr>om_client := p2\<rparr> = m0" "om_pending m0 = None"
    by (auto simp: new_manager_def ensure_Inr_iff)
  let ?e = "manager_env_for e (aw_scene world) settings" and ?snapshots = "map snapshot_of_spec (doc_obstacles v)"
  from r m0'(1) obtain result where rs: "restore ?e ?snapshots m0 = (Inr result, m)" "p' = om_client m" "ob_succeeded result"
    by (auto simp: restore_obstacles_def res_simps split: prod.splits)
  have id': "identified (me_physics ?e)" using id by (simp add: manager_env_for_def)
  have reach: "manager_reachable ?e (set (ph_bodies p2), m0)" using m0 lw by (intro manager_reachable.fresh) simp_all
  have inv: "om_inv (set (ph_bodies p2)) m0" using manager_reachable_inv [OF id' reach] by simp
  note eff = restore_effect [OF inv id' rs(1)]
  obtain specs where specs: "restored_specs ?e ?snapshots = Inr specs" "map or_spec (om_records m) = specs"
    using eff rs(3) by (cases "restored_specs ?e ?snapshots") (auto simp: restore_outcome_def)
  have same: "py_lower (py_lower n) = py_lower n" for n by (simp add: py_lower_def lower_char_idem)
  have "built_from e d world settings m"
    unfolding built_from_def using v t lw specs by (intro exI [of _ v]) (simp add: same)
  then show ?thesis using eff m0'(2) lw rs(2) by (simp add: world_bodies_def)
qed

definition category_of :: "obstacle_snapshot \<Rightarrow> hit_category" where
  "category_of sn = (if sn_mode sn = ''moving'' then MovingObstacle else StaticObstacle)"

lemma obstacle_categories_Inr:
  assumes "obstacle_categories i sns cs = Inr cs'"
  shows "map_of cs \<subseteq>\<^sub>m map_of cs' \<and> (\<forall>sn\<in>set sns. \<forall>b. sn_body sn = Some b \<longrightarrow> map_of cs' b = Some (category_of sn))
    \<and> dom (map_of cs') = dom (map_of cs) \<union> {b. \<exists>sn\<in>set sns. sn_body sn = Some b}"
  using assms
proof (induction sns arbitrary: i cs)
  case (Cons sn sns)
  show ?case
  proof (cases "sn_body sn")
    case None
    with Cons.prems have "obstacle_categories (Suc i) sns cs = Inr cs'" by (simp add: ensure_Inr_iff)
    from Cons.IH [OF this] None show ?thesis by simp
  next
    case (Some b)
    with Cons.prems have "obstacle_categories (Suc i) sns (dict_put b (category_of sn) cs) = Inr cs'"
      and old: "map_of cs b = None \<or> map_of cs b = Some (category_of sn)"
      by (auto simp: ensure_Inr_iff category_of_def Let_def split: if_splits)
    note ih = Cons.IH [OF this(1)]
    have "map_of cs \<subseteq>\<^sub>m (map_of cs)(b \<mapsto> category_of sn)" using old by (auto simp: map_le_def)
    with ih have "map_of cs \<subseteq>\<^sub>m map_of cs'" unfolding map_of_dict_put by (meson map_le_trans)
    moreover have "map_of cs' b = Some (category_of sn)" using ih unfolding map_of_dict_put map_le_def
      by (metis domI fun_upd_same)
    moreover have "dom (map_of cs') = insert b (dom (map_of cs)) \<union> {b. \<exists>sn\<in>set sns. sn_body sn = Some b}"
    proof -
      have "dom (map_of cs') = dom ((map_of cs)(b \<mapsto> category_of sn)) \<union> {b. \<exists>sn\<in>set sns. sn_body sn = Some b}"
        using ih unfolding map_of_dict_put by blast
      then show ?thesis unfolding dom_fun_upd by simp
    qed
    moreover have "{b. \<exists>sn'\<in>set (sn # sns). sn_body sn' = Some b} = insert b {b. \<exists>sn\<in>set sns. sn_body sn = Some b}"
      using Some by auto
    ultimately show ?thesis using ih Some by simp
  qed
qed simp

lemma terrain_categories: "map_of (fold (\<lambda>b. dict_put b Terrain) ids cs) b = (if b \<in> set ids then Some Terrain else map_of cs b)"
  by (induction ids arbitrary: cs) auto

text \<open>
  The categories a backend is given are complete and right: the terrain bodies are terrain, every obstacle
  body has the category of its mode, and no other body has one (a hit on it is the vehicle or unknown).
\<close>

lemma bind_scene_classifies:
  assumes "bind_scene terrain_ids (snapshot True m) = Inr cs"
  shows "(\<forall>b\<in>set terrain_ids. map_of cs b = Some Terrain)
    \<and> (\<forall>r\<in>set (om_records m). map_of cs (or_body r) =
         Some (if os_mode (or_spec r) = ''moving'' then MovingObstacle else StaticObstacle))
    \<and> dom (map_of cs) = set terrain_ids \<union> set (record_ids m)"
proof -
  note c = obstacle_categories_Inr [OF assms [unfolded bind_scene_def]]
  have snap: "\<exists>sn\<in>set (snapshot True m). sn_body sn = Some (or_body r) \<and> category_of sn =
      (if os_mode (or_spec r) = ''moving'' then MovingObstacle else StaticObstacle)" if "r \<in> set (om_records m)" for r
    using that by (force simp: snapshot_def category_of_def Let_def)
  have bodies: "{b. \<exists>sn\<in>set (snapshot True m). sn_body sn = Some b} = set (record_ids m)"
    by (force simp: snapshot_def record_ids_def Let_def)
  have "map_of cs b = Some Terrain" if "b \<in> set terrain_ids" for b
    using c that by (auto simp: map_le_def terrain_categories dom_def)
  moreover have "dom (map_of cs) = set terrain_ids \<union> set (record_ids m)"
    using c unfolding bodies by (auto simp: terrain_categories split: if_splits)
  moreover have "map_of cs (or_body r) = Some (if os_mode (or_spec r) = ''moving'' then MovingObstacle else StaticObstacle)"
    if "r \<in> set (om_records m)" for r
    using c snap [OF that] by fastforce
  ultimately show ?thesis by blast
qed

lemma logical_specs_same [simp]:
  "om_inv F (snd (logical_specs m)) = om_inv F m" "om_client (snd (logical_specs m)) = om_client m"
  "om_records (snd (logical_specs m)) = om_records m" "om_pending (snd (logical_specs m)) = om_pending m"
  by (simp_all add: logical_specs_def Let_def om_inv_def owned_def om_side_def record_ids_def temporary_ids_def candidate_ids_def
      candidates_def clear_ids_def)

lemma om_inv_count [simp]: "om_inv F (m\<lparr>om_client := count_call (om_client m)\<rparr>) = om_inv F m"
  by (simp add: om_inv_def owned_def om_side_def record_ids_def temporary_ids_def candidate_ids_def candidates_def clear_ids_def)

text \<open>What is true of every candidate that was built.\<close>

definition built_ok :: "world_env \<Rightarrow> bool \<Rightarrow> scene_document \<Rightarrow> built_scene \<Rightarrow> physics \<Rightarrow> bool" where
  "built_ok e wanted d b p \<longleftrightarrow>
     om_inv (world_bodies (bs_world b)) ((bs_manager b)\<lparr>om_client := p\<rparr>) \<and> om_pending (bs_manager b) = None
     \<and> ar_body (aw_robot (bs_world b)) \<notin> set (si_bodies (aw_scene (bs_world b)))
     \<and> built_from e d (bs_world b) (bs_settings b) (bs_manager b)
     \<and> document_for_world (we_planar e) (bs_world b) (bs_manager b) (doc_sensors d) = Inr (bs_document b)
     \<and> (if wanted then \<exists>cs. bs_backend b = Some cs \<and> bind_scene (si_bodies (aw_scene (bs_world b))) (snapshot True (bs_manager b)) = Inr cs
        else bs_backend b = None)"

lemma build_scene_ok:
  assumes "identified (we_physics e)" and "build_scene e wanted d template p = (Inr b, p')"
  shows "built_ok e wanted d b p'"
proof -
  from assms(2) obtain existing p1 world settings m p2 backend document where
    w: "build_world e (Some template) (Instance d) p1 = (Inr (world, settings, m), p2)"
    and k: "sensor_backend_for e wanted world m p2 = (Inr backend, p')"
    and doc: "document_for_world (we_planar e) world m (doc_sensors d) = Inr document"
    and b: "b = \<lparr>bs_world = world, bs_settings = settings, bs_manager = snd (logical_specs m), bs_backend = backend, bs_document = document\<rparr>"
    by (auto simp: build_scene_def op_Inr finish_scene_def res_simps)
  note bw = build_world_Inr [OF assms(1) w]
  have p': "p' = p2 \<or> p' = count_call p2"
    using k by (auto simp: sensor_backend_for_def op_Inr dest: call_may_raise_effect split: if_splits)
  have same: "logical_specs (snd (logical_specs m)) = (fst (logical_specs m), snd (logical_specs m))"
    by (simp add: logical_specs_def Let_def)
  have snap: "snapshot True (snd (logical_specs m)) = snapshot True m" by (simp add: snapshot_def)
  have "om_inv (world_bodies world) ((snd (logical_specs m))\<lparr>om_client := p'\<rparr>)"
    using p'
  proof
    assume "p' = p2"
    moreover have "om_client (snd (logical_specs m)) = p2" using bw by simp
    ultimately have "(snd (logical_specs m))\<lparr>om_client := p'\<rparr> = snd (logical_specs m)" by simp
    with bw show ?thesis by simp
  next
    assume p': "p' = count_call p2"
    have c: "om_client (snd (logical_specs m)) = p2" using bw by simp
    show ?thesis using om_inv_count [of "world_bodies world" "snd (logical_specs m)", unfolded c] bw by (simp add: p')
  qed
  moreover have "document_for_world (we_planar e) world (snd (logical_specs m)) (doc_sensors d) = Inr document"
    using doc by (simp add: document_for_world_def same)
  moreover have "built_from e d world settings (snd (logical_specs m))" using bw by (simp add: built_from_def)
  moreover have "if wanted then \<exists>cs. backend = Some cs \<and> bind_scene (si_bodies (aw_scene world)) (snapshot True m) = Inr cs
      else backend = None"
    using k by (auto simp: sensor_backend_for_def op_Inr res_simps split: if_splits)
  ultimately show ?thesis using bw by (simp add: built_ok_def b snap)
qed

subsection \<open>What was removed\<close>

definition same_bodies :: "physics \<Rightarrow> physics \<Rightarrow> bool" where
  "same_bodies p p' \<longleftrightarrow> physics_ok p' \<and> ph_next p' = ph_next p \<and> set (ph_bodies p') = set (ph_bodies p)"

lemma same_bodies_inv: "om_inv F m \<Longrightarrow> same_bodies (om_client m) p \<Longrightarrow> om_inv F (m\<lparr>om_client := p\<rparr>)"
  by (simp add: same_bodies_def om_inv_def holds_def owned_def om_side_def record_ids_def temporary_ids_def candidate_ids_def
      candidates_def clear_ids_def)

lemma same_bodies_refl: "physics_ok p \<Longrightarrow> same_bodies p p"
  by (simp add: same_bodies_def)

lemma same_bodies_trans: "same_bodies p q \<Longrightarrow> same_bodies q r \<Longrightarrow> same_bodies p r"
  by (simp add: same_bodies_def)

lemma same_bodies_count: "physics_ok p \<Longrightarrow> same_bodies p (count_call p)"
  by (simp add: same_bodies_def)

lemma removes_nothing: "removes A p p' \<Longrightarrow> A \<inter> set (ph_bodies p) \<subseteq> set (ph_bodies p') \<Longrightarrow> same_bodies p p'"
  by (auto simp: removes_def same_bodies_def)

lemma remove_active_body_effect:
  assumes "physics_ok p" and "remove_active_body px b p = (r, p')"
  shows "removes {b} p p' \<and> (r = Inr () \<longrightarrow> b \<notin> set (ph_bodies p'))"
proof -
  obtain r1 p1 where r1: "remove_body px b p = (r1, p1)" by fastforce
  note e = remove_body_effect [OF assms(1) r1]
  show ?thesis
  proof (cases r1)
    case (Inl x)
    with assms(2) r1 e show ?thesis by (auto simp: remove_active_body_def)
  next
    case (Inr u)
    obtain l p2 where l: "list_bodies px p1 = (l, p2)" by fastforce
    with assms(2) r1 Inr e list_bodies_effect [OF l] show ?thesis
      by (cases l) (auto simp: remove_active_body_def bind_op_def ensure_Inr_iff)
  qed
qed

lemma remove_present_effect:
  assumes "physics_ok p" and "remove_present px bs p = (r, p')"
  shows "removes (set bs) p p'"
  using assms
proof (induction bs arbitrary: p)
  case (Cons b bs)
  obtain r1 p1 where r1: "remove_active_body px b p = (r1, p1)" by fastforce
  note e = remove_active_body_effect [OF Cons.prems(1) r1]
  show ?case
  proof (cases r1)
    case (Inl x)
    with Cons.prems(2) r1 have "p' = p1" by (simp add: bind_op_def)
    with e show ?thesis by (auto elim: removes_mono)
  next
    case (Inr u)
    with Cons.prems(2) r1 have "remove_present px bs p1 = (r, p')" by (simp add: bind_op_def)
    from Cons.IH [OF removes_ok [OF conjunct1 [OF e]] this] e show ?thesis by (auto dest: removes_trans)
  qed
qed (simp add: removes_refl)

end
