(* ===== verification/InterfaceModels.thy ===== *)
theory InterfaceModels
  imports RobotModels
begin

text \<open>
  The v1 messages of \<^verbatim>\<open>slope_sim/interfaces/models.py\<close>: frozen data classes whose constructors
  check and normalise every field, and the whole-command check of a wheel command against a vehicle.
  A constructor takes the raw Python values and returns the message or the exception it raises.
\<close>

subsection \<open>Field checks\<close>

definition v1_require_uint :: "string \<Rightarrow> pyval \<Rightarrow> int \<Rightarrow> string \<Rightarrow> (exc, int) res" where
  "v1_require_uint name value maximum type_name =
     (case as_int value of
        Some n \<Rightarrow> ensure (0 \<le> n \<and> n \<le> maximum) (value_error (name @ '' must be a '' @ type_name)) (Inr n)
      | None \<Rightarrow> Inl (value_error (name @ '' must be a '' @ type_name)))"

definition v1_require_finite_float :: "msg \<Rightarrow> pyval \<Rightarrow> (exc, pyfloat) res" where
  "v1_require_finite_float name value =
     ensure (is_real_number value) (Exc ValueErr (name @ lit '' must be a finite number''))
       (bind_res (py_float value) (\<lambda>normalized.
          ensure (f_isfinite normalized) (Exc ValueErr (name @ lit '' must be a finite number''))
            (Inr normalized)))"

definition indexed_name :: "string \<Rightarrow> nat \<Rightarrow> msg" where
  \<comment> \<open>\<^verbatim>\<open>f"{name}[{index}]"\<close>\<close>
  "indexed_name name i = [Lit (name @ ''[''), IntRepr (int i), Lit '']'']"

definition v1_normalize_float_sequence :: "string \<Rightarrow> pyval \<Rightarrow> (exc, pyfloat list) res" where
  "v1_normalize_float_sequence name values =
     (case ordered_sequence values of
        None \<Rightarrow> Inl (value_error (name @ '' must be an ordered sequence of finite numbers''))
      | Some items \<Rightarrow>
          map_res (\<lambda>(i, v). v1_require_finite_float (indexed_name name i) v) (enumerate 0 items))"

lemma v1_require_uint_Inr [res_simps]:
  "v1_require_uint name v mx t = Inr n \<longleftrightarrow> v = PInt n \<and> 0 \<le> n \<and> n \<le> mx"
  by (cases v) (auto simp: v1_require_uint_def ensure_def)

lemma v1_require_finite_float_Inr:
  "v1_require_finite_float name v = Inr x \<Longrightarrow> f_isfinite x \<and> is_real_number v \<and> py_float v = Inr x"
  by (auto simp: v1_require_finite_float_def res_simps)

lemma v1_require_finite_float_PFloat [simp]:
  "v1_require_finite_float name (PFloat x) =
     (if f_isfinite x then Inr x else Inl (Exc ValueErr (name @ lit '' must be a finite number'')))"
  by (simp add: v1_require_finite_float_def)

lemma v1_normalize_float_sequence_finite:
  assumes "v1_normalize_float_sequence name v = Inr xs" and "x \<in> set xs"
  shows "f_isfinite x"
  using assms
  by (auto simp: v1_normalize_float_sequence_def split: option.splits
      dest!: map_res_origin v1_require_finite_float_Inr)

lemma map_res_enumerate_Inr:
  "(\<And>i x. x \<in> set xs \<Longrightarrow> f (i, x) = Inr (g x)) \<Longrightarrow> map_res f (enumerate n xs) = Inr (map g xs)"
  by (induction xs arbitrary: n) simp_all

lemma v1_normalize_floats:
  "(\<forall>x\<in>set xs. f_isfinite x) \<Longrightarrow> v1_normalize_float_sequence name (PTuple (map PFloat xs)) = Inr xs"
proof -
  assume fin: "\<forall>x\<in>set xs. f_isfinite x"
  define g where "g = (\<lambda>v. case v of PFloat x \<Rightarrow> x | _ \<Rightarrow> NaN)"
  have "map_res (\<lambda>(i, v). v1_require_finite_float (indexed_name name i) v) (enumerate 0 (map PFloat xs))
      = Inr (map g (map PFloat xs))"
    using fin by (intro map_res_enumerate_Inr) (auto simp: g_def)
  then show ?thesis by (simp add: v1_normalize_float_sequence_def g_def comp_def)
qed

subsection \<open>Messages\<close>

record wheel_command =
  wc_timestamp_ns :: int
  wc_drive :: "pyfloat list"
  wc_steering :: "pyfloat list"

definition mk_wheel_command :: "pyval \<Rightarrow> pyval \<Rightarrow> pyval \<Rightarrow> (exc, wheel_command) res" where
  "mk_wheel_command timestamp_ns drive steering =
     bind_res (v1_require_uint ''timestamp_ns'' timestamp_ns uint64_max ''uint64'') (\<lambda>ts.
     bind_res (v1_normalize_float_sequence ''drive_wheel_speed_rad_s'' drive) (\<lambda>dr.
     bind_res (v1_normalize_float_sequence ''steering_wheel_speed_rad_s'' steering) (\<lambda>st.
       Inr \<lparr>wc_timestamp_ns = ts, wc_drive = dr, wc_steering = st\<rparr>)))"

record wheel_state =
  ws_timestamp_ns :: int
  ws_drive :: "pyfloat list"
  ws_steering_angle :: "pyfloat list"

definition mk_wheel_state :: "pyval \<Rightarrow> pyval \<Rightarrow> pyval \<Rightarrow> (exc, wheel_state) res" where
  "mk_wheel_state timestamp_ns drive steering =
     bind_res (v1_require_uint ''timestamp_ns'' timestamp_ns uint64_max ''uint64'') (\<lambda>ts.
     bind_res (v1_normalize_float_sequence ''drive_wheel_speed_rad_s'' drive) (\<lambda>dr.
     bind_res (v1_normalize_float_sequence ''steering_wheel_angle_rad'' steering) (\<lambda>st.
       Inr \<lparr>ws_timestamp_ns = ts, ws_drive = dr, ws_steering_angle = st\<rparr>)))"

record lidar_point =
  lp_offset_time_ns :: int
  lp_x :: pyfloat
  lp_y :: pyfloat
  lp_z :: pyfloat
  lp_reflectivity :: int
  lp_tag :: int
  lp_line :: int

definition lidar_point_fast ::
  "pyval \<Rightarrow> pyval \<Rightarrow> pyval \<Rightarrow> pyval \<Rightarrow> pyval \<Rightarrow> pyval \<Rightarrow> pyval \<Rightarrow> lidar_point option" where
  \<comment> \<open>the hot path: exact built-in types already in range are kept as they are\<close>
  "lidar_point_fast off x y z rf tag line =
     (case (as_int off, as_float x, as_float y, as_float z, as_int rf, as_int tag, as_int line) of
        (Some off', Some x', Some y', Some z', Some rf', Some tag', Some line') \<Rightarrow>
          if 0 \<le> off' \<and> off' \<le> uint32_max \<and> f_isfinite x' \<and> f_isfinite y' \<and> f_isfinite z'
            \<and> 0 \<le> rf' \<and> rf' \<le> uint32_max \<and> 0 \<le> tag' \<and> tag' \<le> 3 \<and> 0 \<le> line' \<and> line' \<le> 15
          then Some \<lparr>lp_offset_time_ns = off', lp_x = x', lp_y = y', lp_z = z', lp_reflectivity = rf',
                     lp_tag = tag', lp_line = line'\<rparr>
          else None
      | _ \<Rightarrow> None)"

definition lidar_point_checked ::
  "pyval \<Rightarrow> pyval \<Rightarrow> pyval \<Rightarrow> pyval \<Rightarrow> pyval \<Rightarrow> pyval \<Rightarrow> pyval \<Rightarrow> (exc, lidar_point) res" where
  \<comment> \<open>the field-by-field path\<close>
  "lidar_point_checked off x y z rf tag line =
     bind_res (v1_require_uint ''offset_time_ns'' off uint32_max ''uint32'') (\<lambda>off'.
     bind_res (v1_require_finite_float (lit ''x'') x) (\<lambda>x'.
     bind_res (v1_require_finite_float (lit ''y'') y) (\<lambda>y'.
     bind_res (v1_require_finite_float (lit ''z'') z) (\<lambda>z'.
     bind_res (v1_require_uint ''reflectivity'' rf uint32_max ''uint32'') (\<lambda>rf'.
     bind_res (v1_require_uint ''tag'' tag uint32_max ''uint32'') (\<lambda>tag'.
     bind_res (v1_require_uint ''line'' line uint32_max ''uint32'') (\<lambda>line'.
     ensure (tag' \<le> 3) (value_error ''tag must be in range 0..3'')
     (ensure (line' \<le> 15) (value_error ''line must be in range 0..15'')
       (Inr \<lparr>lp_offset_time_ns = off', lp_x = x', lp_y = y', lp_z = z', lp_reflectivity = rf',
             lp_tag = tag', lp_line = line'\<rparr>)))))))))"

definition mk_lidar_point ::
  "pyval \<Rightarrow> pyval \<Rightarrow> pyval \<Rightarrow> pyval \<Rightarrow> pyval \<Rightarrow> pyval \<Rightarrow> pyval \<Rightarrow> (exc, lidar_point) res" where
  "mk_lidar_point off x y z rf tag line =
     (case lidar_point_fast off x y z rf tag line of
        Some p \<Rightarrow> Inr p
      | None \<Rightarrow> lidar_point_checked off x y z rf tag line)"

record lidar_point_cloud =
  lc_timebase_ns :: int
  lc_frame_id :: string
  lc_point_num :: int
  lc_lidar_id :: int
  lc_points :: "lidar_point list"

fun nonempty_str :: "string \<Rightarrow> pyval \<Rightarrow> (exc, string) res" where
  \<comment> \<open>\<^verbatim>\<open>if not isinstance(s, str) or not s: raise ValueError(m)\<close>\<close>
  "nonempty_str m (PStr (c # s)) = Inr (c # s)"
| "nonempty_str m _ = Inl (value_error m)"

definition mk_lidar_point_cloud ::
  "pyval \<Rightarrow> pyval \<Rightarrow> pyval \<Rightarrow> pyval \<Rightarrow> lidar_point inst list option \<Rightarrow> (exc, lidar_point_cloud) res" where
  \<comment> \<open>\<open>points\<close> is \<open>None\<close> for an argument that is not an ordered sequence\<close>
  "mk_lidar_point_cloud timebase frame_id point_num lidar_id points =
     bind_res (v1_require_uint ''timebase_ns'' timebase uint64_max ''uint64'') (\<lambda>tb.
     bind_res (nonempty_str ''frame_id must be a nonempty string'' frame_id) (\<lambda>fid.
     bind_res (v1_require_uint ''point_num'' point_num uint32_max ''uint32'') (\<lambda>n.
     bind_res (v1_require_uint ''lidar_id'' lidar_id uint32_max ''uint32'') (\<lambda>lid.
     case points of
       None \<Rightarrow> Inl (value_error ''points must be an ordered sequence of LidarPoint'')
     | Some ps \<Rightarrow>
         ensure (Foreign \<notin> set ps) (value_error ''points must contain only LidarPoint values'')
         (ensure (n = int (length ps)) (value_error ''point_num must equal len(points)'')
           (Inr \<lparr>lc_timebase_ns = tb, lc_frame_id = fid, lc_point_num = n, lc_lidar_id = lid,
                 lc_points = map the_instance ps\<rparr>))))))"

record rtk_state =
  rk_timestamp_ns :: int
  rk_main_x :: pyfloat
  rk_main_y :: pyfloat
  rk_main_z :: pyfloat
  rk_baseline_yaw :: pyfloat

definition mk_rtk_state ::
  "pyval \<Rightarrow> pyval \<Rightarrow> pyval \<Rightarrow> pyval \<Rightarrow> pyval \<Rightarrow> (exc, rtk_state) res" where
  "mk_rtk_state timestamp_ns x y z yaw =
     bind_res (v1_require_uint ''timestamp_ns'' timestamp_ns uint64_max ''uint64'') (\<lambda>ts.
     bind_res (v1_require_finite_float (lit ''main_x'') x) (\<lambda>x'.
     bind_res (v1_require_finite_float (lit ''main_y'') y) (\<lambda>y'.
     bind_res (v1_require_finite_float (lit ''main_z'') z) (\<lambda>z'.
     bind_res (v1_require_finite_float (lit ''baseline_yaw_rad'') yaw) (\<lambda>yaw'.
       Inr \<lparr>rk_timestamp_ns = ts, rk_main_x = x', rk_main_y = y', rk_main_z = z',
            rk_baseline_yaw = yaw'\<rparr>)))))"

record imu_attitude =
  im_timestamp_ns :: int
  im_roll :: pyfloat
  im_pitch :: pyfloat

definition mk_imu_attitude :: "pyval \<Rightarrow> pyval \<Rightarrow> pyval \<Rightarrow> (exc, imu_attitude) res" where
  "mk_imu_attitude timestamp_ns roll pitch =
     bind_res (v1_require_uint ''timestamp_ns'' timestamp_ns uint64_max ''uint64'') (\<lambda>ts.
     bind_res (v1_require_finite_float (lit ''roll_rad'') roll) (\<lambda>r.
     bind_res (v1_require_finite_float (lit ''pitch_rad'') pitch) (\<lambda>p.
       Inr \<lparr>im_timestamp_ns = ts, im_roll = r, im_pitch = p\<rparr>)))"

subsection \<open>The command check\<close>

definition exceeds_limit :: "pyfloat \<Rightarrow> pyfloat \<Rightarrow> bool" where
  "exceeds_limit limit v \<longleftrightarrow> f_lt limit (f_abs v)"

fun require_bounded_items :: "string \<Rightarrow> pyfloat \<Rightarrow> nat \<Rightarrow> pyfloat list \<Rightarrow> (exc, unit) res" where
  \<comment> \<open>the loop over the wheel speeds\<close>
  "require_bounded_items name limit i [] = Inr ()"
| "require_bounded_items name limit i (v # vs) =
     bind_res (v1_require_finite_float (indexed_name name i) (PFloat v)) (\<lambda>normalized.
     ensure (\<not> exceeds_limit limit normalized)
       (Exc MechanicalLimitErr
          [Lit (name @ '' wheel speed exceeds limit ''), FloatRepr limit, Lit '' rad/s''])
       (require_bounded_items name limit (Suc i) vs))"

definition require_bounded ::
  "string \<Rightarrow> pyfloat list \<Rightarrow> string \<Rightarrow> pyfloat \<Rightarrow> (exc, unit) res" where
  "require_bounded name values limit_name limit =
     bind_res (v1_require_finite_float (lit limit_name) (PFloat limit)) (\<lambda>normalized_limit.
     ensure (\<not> f_lt normalized_limit f_zero) (value_error (limit_name @ '' must be non-negative''))
       (require_bounded_items name normalized_limit 0 values))"

definition wheel_count_error :: "robot_model_spec \<Rightarrow> nat \<Rightarrow> string \<Rightarrow> exc" where
  "wheel_count_error model n what =
     Exc ModelMismatchErr [Lit (rm_name model @ '' requires ''), IntRepr (int n), Lit what]"

definition validate_wheel_command ::
  "wheel_command \<Rightarrow> robot_model_spec \<Rightarrow> (exc, wheel_command) res" where
  "validate_wheel_command command model =
     bind_res (expected_wheels model) (\<lambda>(expected_drive, expected_steering).
     ensure (length (wc_drive command) = expected_drive)
       (wheel_count_error model expected_drive '' drive wheel speeds'')
     (ensure (length (wc_steering command) = expected_steering)
       (wheel_count_error model expected_steering '' steering wheel speeds'')
     (bind_res (require_bounded ''drive'' (wc_drive command) ''max_drive_wheel_speed_rad_s''
                  (rm_max_drive_wheel_speed model)) (\<lambda>_.
      bind_res (require_bounded ''steering'' (wc_steering command) ''max_steering_speed_rad_s''
                  (rm_max_steering_speed model)) (\<lambda>_.
        Inr command)))))"

subsection \<open>What the constructors guarantee\<close>

definition wf_wheel_command :: "wheel_command \<Rightarrow> bool" where
  "wf_wheel_command c \<longleftrightarrow>
     0 \<le> wc_timestamp_ns c \<and> wc_timestamp_ns c \<le> uint64_max
     \<and> list_all f_isfinite (wc_drive c) \<and> list_all f_isfinite (wc_steering c)"

lemma mk_wheel_command_wf: "mk_wheel_command t d s = Inr c \<Longrightarrow> wf_wheel_command c"
  by (auto simp: mk_wheel_command_def wf_wheel_command_def res_simps list_all_iff
      dest: v1_normalize_float_sequence_finite)

lemma mk_wheel_command_id:
  "wf_wheel_command c \<Longrightarrow>
     mk_wheel_command (PInt (wc_timestamp_ns c)) (PTuple (map PFloat (wc_drive c)))
       (PTuple (map PFloat (wc_steering c))) = Inr c"
  by (simp add: mk_wheel_command_def wf_wheel_command_def res_simps list_all_iff v1_normalize_floats)

definition wf_lidar_point :: "lidar_point \<Rightarrow> bool" where
  "wf_lidar_point p \<longleftrightarrow>
     0 \<le> lp_offset_time_ns p \<and> lp_offset_time_ns p \<le> uint32_max
     \<and> f_isfinite (lp_x p) \<and> f_isfinite (lp_y p) \<and> f_isfinite (lp_z p)
     \<and> 0 \<le> lp_reflectivity p \<and> lp_reflectivity p \<le> uint32_max
     \<and> 0 \<le> lp_tag p \<and> lp_tag p \<le> 3 \<and> 0 \<le> lp_line p \<and> lp_line p \<le> 15"

lemma v1_require_uint_PInt [simp]:
  "0 \<le> n \<Longrightarrow> n \<le> mx \<Longrightarrow> v1_require_uint name (PInt n) mx t = Inr n"
  by (simp add: v1_require_uint_def)

lemma lidar_point_fast_checked:
  "lidar_point_fast off x y z rf tag line = Some p \<Longrightarrow> lidar_point_checked off x y z rf tag line = Inr p"
  by (auto simp: lidar_point_fast_def lidar_point_checked_def split: option.splits if_splits)

lemma lidar_point_checked_wf:
  "lidar_point_checked off x y z rf tag line = Inr p \<Longrightarrow> wf_lidar_point p"
  by (auto simp: lidar_point_checked_def wf_lidar_point_def res_simps dest: v1_require_finite_float_Inr)

text \<open>
  The hot path of the LiDAR point constructor is a pure optimisation: for every combination of
  arguments, of whatever type and range, the constructor with the early return gives exactly the
  outcome (the same point or the same exception) of the field-by-field validation.
\<close>

theorem lidar_point_fast_path_equiv:
  "mk_lidar_point off x y z rf tag line = lidar_point_checked off x y z rf tag line"
  by (simp add: mk_lidar_point_def lidar_point_fast_checked split: option.split)

lemma mk_lidar_point_wf: "mk_lidar_point off x y z rf tag line = Inr p \<Longrightarrow> wf_lidar_point p"
  by (cases "lidar_point_fast off x y z rf tag line")
    (auto simp: mk_lidar_point_def intro: lidar_point_checked_wf lidar_point_fast_checked)

subsection \<open>The command check, characterised\<close>

definition within_limit :: "pyfloat \<Rightarrow> pyfloat \<Rightarrow> bool" where
  "within_limit limit v \<longleftrightarrow> f_isfinite v \<and> f_le (f_abs v) limit"

lemma not_exceeds_limit_iff: "f_isfinite v \<Longrightarrow> \<not> exceeds_limit (Fin l) v \<longleftrightarrow> within_limit (Fin l) v"
  by (cases v) (auto simp: exceeds_limit_def within_limit_def)

lemma require_bounded_items_Inr:
  "require_bounded_items name (Fin l) i vs = Inr () \<longleftrightarrow> list_all (within_limit (Fin l)) vs"
proof (induction vs arbitrary: i)
  case (Cons v vs)
  show ?case
  proof (cases "f_isfinite v")
    case True
    then show ?thesis by (simp add: Cons.IH ensure_Inr_iff not_exceeds_limit_iff)
  next
    case False
    then show ?thesis by (simp add: within_limit_def)
  qed
qed simp

lemma require_bounded_Inr:
  "require_bounded name vs lname limit = Inr () \<longleftrightarrow>
     (\<exists>l. limit = Fin l \<and> 0 \<le> l) \<and> list_all (within_limit limit) vs"
  by (cases limit) (auto simp: require_bounded_def res_simps require_bounded_items_Inr)

lemma require_bounded_error:
  "require_bounded name vs lname limit = Inl e \<Longrightarrow> is_value_error e"
proof -
  have items: "require_bounded_items name l i vs = Inl e \<Longrightarrow> is_value_error e" for l i
    by (induction vs arbitrary: i)
      (auto simp: bind_res_Inl_iff ensure_Inl_iff split: if_splits)
  assume "require_bounded name vs lname limit = Inl e"
  then show ?thesis
    by (auto simp: require_bounded_def bind_res_Inl_iff ensure_Inl_iff split: if_splits dest: items)
qed

lemma validate_wheel_command_same: "validate_wheel_command c m = Inr c' \<Longrightarrow> c' = c"
  by (auto simp: validate_wheel_command_def res_simps)

lemma validate_wheel_command_error:
  "validate_wheel_command c m = Inl e \<Longrightarrow> is_value_error e"
  by (auto simp: validate_wheel_command_def bind_res_Inl_iff ensure_Inl_iff expected_wheels_def
      wheel_count_error_def split: if_splits dest: require_bounded_error)

definition valid_limit :: "pyfloat \<Rightarrow> bool" where
  "valid_limit l \<longleftrightarrow> f_isfinite l \<and> f_le f_zero l"

lemma valid_limit_iff: "valid_limit l \<longleftrightarrow> (\<exists>q\<ge>0. l = Fin q)"
  by (cases l) (auto simp: valid_limit_def)

definition accepts_command :: "robot_model_spec \<Rightarrow> wheel_command \<Rightarrow> bool" where
  \<comment> \<open>the contract of the check: the vehicle's wheel counts, and every speed within its limit\<close>
  "accepts_command m c \<longleftrightarrow>
     expected_wheels m = Inr (length (wc_drive c), length (wc_steering c))
     \<and> valid_limit (rm_max_drive_wheel_speed m) \<and> valid_limit (rm_max_steering_speed m)
     \<and> list_all (within_limit (rm_max_drive_wheel_speed m)) (wc_drive c)
     \<and> list_all (within_limit (rm_max_steering_speed m)) (wc_steering c)"

lemma validate_wheel_command_iff: "validate_wheel_command c m = Inr c' \<longleftrightarrow> c' = c \<and> accepts_command m c"
  by (auto simp: validate_wheel_command_def accepts_command_def res_simps require_bounded_Inr valid_limit_iff)

text \<open>
  The check of a wheel command against a vehicle accepts exactly the commands whose wheel counts
  are those of the vehicle's controller kind and whose every drive and steering speed is a finite
  number within the vehicle's symmetric mechanical limit; it then returns the command unchanged, and
  in every other case it raises an exception that \<^verbatim>\<open>except ValueError\<close> catches.
\<close>

theorem validate_wheel_command_spec:
  "(if accepts_command m c then validate_wheel_command c m = Inr c
    else \<exists>e. validate_wheel_command c m = Inl e \<and> is_value_error e)"
proof (cases "validate_wheel_command c m")
  case (Inl e)
  then show ?thesis using validate_wheel_command_iff [of c m c] validate_wheel_command_error [OF Inl] by auto
next
  case (Inr c')
  then show ?thesis using validate_wheel_command_iff [of c m c'] by simp
qed

end
