(* ===== verification/ModelsV2.thy ===== *)
theory ModelsV2
  imports InterfaceModels
begin

text \<open>
  The v2 messages of \<^verbatim>\<open>slope_sim/interfaces/v2/models.py\<close>: wheel command and state, IMU, RTK and
  LiDAR frames, each with the identity of its session and world.  As in the v1 models a constructor
  takes raw Python values; the order of the checks is the code's, so the exception is the code's.
\<close>

subsection \<open>Field checks\<close>

datatype authority_state = WAITING | CLAIMABLE | ACTIVE | CONFLICT

fun authority_state_code :: "authority_state \<Rightarrow> int" where
  "authority_state_code WAITING = 1"
| "authority_state_code CLAIMABLE = 2"
| "authority_state_code ACTIVE = 3"
| "authority_state_code CONFLICT = 4"

definition authority_state_of_code :: "int \<Rightarrow> (exc, authority_state) res" where
  \<comment> \<open>\<^verbatim>\<open>CommandAuthorityState(n)\<close>\<close>
  "authority_state_of_code n =
     (if n = 1 then Inr WAITING else if n = 2 then Inr CLAIMABLE
      else if n = 3 then Inr ACTIVE else if n = 4 then Inr CONFLICT
      else Inl (Exc ValueErr [IntRepr n, Lit '' is not a valid CommandAuthorityState'']))"

definition require_fixed_bytes :: "string \<Rightarrow> pyval \<Rightarrow> nat \<Rightarrow> (exc, bytes) res" where
  "require_fixed_bytes name value n =
     (case bytes_like value of
        None \<Rightarrow> Inl (value_error (name @ '' must be bytes-like''))
      | Some copied \<Rightarrow>
          ensure (length copied = n)
            (Exc ValueErr [Lit (name @ '' must be exactly ''), IntRepr (int n), Lit '' bytes''])
            (Inr copied))"

definition require_uint :: "string \<Rightarrow> pyval \<Rightarrow> int \<Rightarrow> (exc, int) res" where
  "require_uint name value maximum =
     (case as_int value of
        Some n \<Rightarrow> ensure (0 \<le> n \<and> n \<le> maximum)
          (value_error (name @ '' is outside its unsigned integer range'')) (Inr n)
      | None \<Rightarrow> Inl (value_error (name @ '' is outside its unsigned integer range'')))"

definition finite_number :: "string \<Rightarrow> pyval \<Rightarrow> (exc, pyfloat) res" where
  \<comment> \<open>the condition both float checks share: a real number, not a bool, finite as a float\<close>
  "finite_number m value =
     ensure (is_real_number value) (value_error m)
       (bind_res (py_float value) (\<lambda>x. ensure (f_isfinite x) (value_error m) (Inr x)))"

definition require_float_tuple :: "string \<Rightarrow> pyval \<Rightarrow> (exc, pyfloat list) res" where
  "require_float_tuple name value =
     (case tuple_or_list value of
        None \<Rightarrow> Inl (value_error (name @ '' must be an ordered sequence''))
      | Some items \<Rightarrow> map_res (finite_number (name @ '' must contain finite numbers'')) items)"

definition require_finite_float :: "string \<Rightarrow> pyval \<Rightarrow> (exc, pyfloat) res" where
  "require_finite_float name value = finite_number (name @ '' must be finite'') value"

definition pack_float32 :: "rat \<Rightarrow> rat option" where
  \<comment> \<open>\<^verbatim>\<open>unpack("<f", pack("<f", x))\<close>: the nearest binary32, \<open>None\<close> for OverflowError\<close>
  "pack_float32 q =
     (let r = round_to 24 (- 126) q in if r \<noteq> 0 \<and> 127 < floor_log2 \<bar>r\<bar> then None else Some r)"

definition require_float32 :: "string \<Rightarrow> pyval \<Rightarrow> (exc, pyfloat) res" where
  "require_float32 name value =
     bind_res (require_finite_float name value) (\<lambda>normalized.
       case normalized of
         Fin q \<Rightarrow> (case pack_float32 q of
                     Some r \<Rightarrow> Inr (Fin r)
                   | None \<Rightarrow> Inl (value_error (name @ '' is outside float32 range'')))
       | _ \<Rightarrow> Inr normalized)"

definition require_generation :: "string \<Rightarrow> pyval \<Rightarrow> (exc, int) res" where
  "require_generation name value =
     bind_res (require_uint name value uint64_max) (\<lambda>n.
       ensure (n \<noteq> 0) (value_error (name @ '' must be positive'')) (Inr n))"

definition source_id_ok :: "string \<Rightarrow> bool" where
  \<comment> \<open>\<^verbatim>\<open>re.compile(r"[A-Za-z0-9._-]{1,64}\Z").fullmatch\<close>\<close>
  "source_id_ok s \<longleftrightarrow> 1 \<le> length s \<and> length s \<le> 64 \<and> list_all source_id_char s"

fun require_source_id :: "string \<Rightarrow> pyval \<Rightarrow> (exc, string) res" where
  "require_source_id m (PStr s) = (if source_id_ok s then Inr s else Inl (value_error m))"
| "require_source_id m _ = Inl (value_error m)"

subsection \<open>Wheel command\<close>

record wheel_command_v2 =
  cv_timestamp_ns :: int
  cv_drive :: "pyfloat list"
  cv_steering :: "pyfloat list"
  cv_sequence :: int
  cv_world_generation :: int
  cv_command_generation :: int
  cv_source_id :: string
  cv_source_session_id :: bytes
  cv_robot_model :: string
  cv_simulation_session_id :: bytes
  cv_descriptor_sha256 :: bytes

definition mk_wheel_command_v2 ::
  "pyval \<Rightarrow> pyval \<Rightarrow> pyval \<Rightarrow> pyval \<Rightarrow> pyval \<Rightarrow> pyval \<Rightarrow> pyval \<Rightarrow> pyval \<Rightarrow> pyval \<Rightarrow> pyval \<Rightarrow> pyval
     \<Rightarrow> (exc, wheel_command_v2) res" where
  "mk_wheel_command_v2 timestamp_ns drive steering sequence world_generation command_generation
       source_id source_session_id robot_model simulation_session_id descriptor_sha256 =
     bind_res (require_uint ''timestamp_ns'' timestamp_ns uint64_max) (\<lambda>ts.
     bind_res (require_uint ''sequence'' sequence uint64_max) (\<lambda>sq.
     bind_res (require_generation ''world_generation'' world_generation) (\<lambda>wg.
     bind_res (require_generation ''command_generation'' command_generation) (\<lambda>cg.
     bind_res (require_source_id ''source_id must match [A-Za-z0-9._-]{1,64}'' source_id) (\<lambda>sid.
     bind_res (nonempty_str ''robot_model must be nonempty'' robot_model) (\<lambda>rm.
     bind_res (require_fixed_bytes ''source_session_id'' source_session_id 16) (\<lambda>ssid.
     bind_res (require_fixed_bytes ''simulation_session_id'' simulation_session_id 16) (\<lambda>sim.
     bind_res (require_fixed_bytes ''descriptor_sha256'' descriptor_sha256 32) (\<lambda>sha.
     bind_res (require_float_tuple ''drive_wheel_speed_rad_s'' drive) (\<lambda>dr.
     bind_res (require_float_tuple ''steering_wheel_speed_rad_s'' steering) (\<lambda>st.
       Inr \<lparr>cv_timestamp_ns = ts, cv_drive = dr, cv_steering = st, cv_sequence = sq,
            cv_world_generation = wg, cv_command_generation = cg, cv_source_id = sid,
            cv_source_session_id = ssid, cv_robot_model = rm, cv_simulation_session_id = sim,
            cv_descriptor_sha256 = sha\<rparr>)))))))))))"

definition to_v1_motion :: "wheel_command_v2 \<Rightarrow> (exc, wheel_command) res" where
  \<comment> \<open>the v1 constructor checks the motion fields again\<close>
  "to_v1_motion c =
     mk_wheel_command (PInt (cv_timestamp_ns c)) (PTuple (map PFloat (cv_drive c)))
       (PTuple (map PFloat (cv_steering c)))"

subsection \<open>Wheel state\<close>

record wheel_state_v2 =
  sv_timestamp_ns :: int
  sv_drive :: "pyfloat list"
  sv_steering_angle :: "pyfloat list"
  sv_sequence :: int
  sv_world_generation :: int
  sv_command_generation :: int
  sv_robot_model :: string
  sv_simulation_session_id :: bytes
  sv_descriptor_sha256 :: bytes
  sv_authority_state :: authority_state
  sv_owner_source_id :: pyval
  sv_owner_source_session_id :: bytes
  sv_peer_count :: int

fun state_matches_peers :: "authority_state \<Rightarrow> int \<Rightarrow> bool" where
  "state_matches_peers WAITING n = (n = 0)"
| "state_matches_peers CLAIMABLE n = (n = 1)"
| "state_matches_peers ACTIVE n = (n = 1)"
| "state_matches_peers CONFLICT n = (1 < n)"

definition check_state_owner :: "authority_state \<Rightarrow> pyval \<Rightarrow> bytes \<Rightarrow> (exc, bytes) res" where
  "check_state_owner state owner_id owner_session =
     (if state = ACTIVE
      then bind_res (require_source_id ''ACTIVE requires a valid owner source_id'' owner_id) (\<lambda>_.
             require_fixed_bytes ''command_owner_source_session_id'' (PBytes owner_session) 16)
      else ensure (\<not> (truthy owner_id \<or> owner_session \<noteq> []))
             (value_error ''non-ACTIVE state must not expose an owner'') (Inr owner_session))"

definition mk_wheel_state_v2 ::
  "pyval \<Rightarrow> pyval \<Rightarrow> pyval \<Rightarrow> pyval \<Rightarrow> pyval \<Rightarrow> pyval \<Rightarrow> pyval \<Rightarrow> pyval \<Rightarrow> pyval
     \<Rightarrow> authority_state inst \<Rightarrow> pyval \<Rightarrow> pyval \<Rightarrow> pyval \<Rightarrow> (exc, wheel_state_v2) res" where
  "mk_wheel_state_v2 timestamp_ns drive steering sequence world_generation command_generation
       robot_model simulation_session_id descriptor_sha256 authority_state owner_id owner_session
       peer_count =
     bind_res (require_uint ''timestamp_ns'' timestamp_ns uint64_max) (\<lambda>ts.
     bind_res (require_uint ''sequence'' sequence uint64_max) (\<lambda>sq.
     bind_res (require_generation ''world_generation'' world_generation) (\<lambda>wg.
     bind_res (require_generation ''command_generation'' command_generation) (\<lambda>cg.
     bind_res (require_uint ''command_peer_count'' peer_count uint32_max) (\<lambda>pc.
     bind_res (require_fixed_bytes ''simulation_session_id'' simulation_session_id 16) (\<lambda>sim.
     bind_res (require_fixed_bytes ''descriptor_sha256'' descriptor_sha256 32) (\<lambda>sha.
     bind_res (require_float_tuple ''drive_wheel_speed_rad_s'' drive) (\<lambda>dr.
     bind_res (require_float_tuple ''steering_wheel_angle_rad'' steering) (\<lambda>st.
     bind_res (nonempty_str ''robot_model must be nonempty'' robot_model) (\<lambda>rm.
     case authority_state of
       Foreign \<Rightarrow> Inl (value_error ''command_authority_state must be a CommandAuthorityState'')
     | Instance state \<Rightarrow>
         ensure (state_matches_peers state pc)
           (value_error ''command authority state does not match exact peer count'')
         (bind_res (py_bytes owner_session) (\<lambda>session0.
          bind_res (check_state_owner state owner_id session0) (\<lambda>session.
            Inr \<lparr>sv_timestamp_ns = ts, sv_drive = dr, sv_steering_angle = st, sv_sequence = sq,
                 sv_world_generation = wg, sv_command_generation = cg, sv_robot_model = rm,
                 sv_simulation_session_id = sim, sv_descriptor_sha256 = sha,
                 sv_authority_state = state, sv_owner_source_id = owner_id,
                 sv_owner_source_session_id = session, sv_peer_count = pc\<rparr>)))))))))))))"

subsection \<open>Sensor frames\<close>

record imu_attitude_v2 =
  iv_timestamp_ns :: int
  iv_roll :: pyfloat
  iv_pitch :: pyfloat
  iv_sequence :: int
  iv_world_generation :: int
  iv_frame_id :: string
  iv_simulation_session_id :: bytes
  iv_descriptor_sha256 :: bytes

definition mk_imu_attitude_v2 ::
  "pyval \<Rightarrow> pyval \<Rightarrow> pyval \<Rightarrow> pyval \<Rightarrow> pyval \<Rightarrow> pyval \<Rightarrow> pyval \<Rightarrow> pyval \<Rightarrow> (exc, imu_attitude_v2) res" where
  "mk_imu_attitude_v2 timestamp_ns roll pitch sequence world_generation frame_id
       simulation_session_id descriptor_sha256 =
     bind_res (require_uint ''timestamp_ns'' timestamp_ns uint64_max) (\<lambda>ts.
     bind_res (require_uint ''sequence'' sequence uint64_max) (\<lambda>sq.
     bind_res (require_generation ''world_generation'' world_generation) (\<lambda>wg.
     bind_res (require_finite_float ''roll_rad'' roll) (\<lambda>r.
     bind_res (require_finite_float ''pitch_rad'' pitch) (\<lambda>p.
     bind_res (nonempty_str ''frame_id must be nonempty'' frame_id) (\<lambda>fid.
     bind_res (require_fixed_bytes ''simulation_session_id'' simulation_session_id 16) (\<lambda>sim.
     bind_res (require_fixed_bytes ''descriptor_sha256'' descriptor_sha256 32) (\<lambda>sha.
       Inr \<lparr>iv_timestamp_ns = ts, iv_roll = r, iv_pitch = p, iv_sequence = sq,
            iv_world_generation = wg, iv_frame_id = fid, iv_simulation_session_id = sim,
            iv_descriptor_sha256 = sha\<rparr>))))))))"

record point3d_v2 =
  p3_x :: pyfloat
  p3_y :: pyfloat
  p3_z :: pyfloat

definition mk_point3d_v2 :: "pyval \<Rightarrow> pyval \<Rightarrow> pyval \<Rightarrow> (exc, point3d_v2) res" where
  "mk_point3d_v2 x y z =
     bind_res (require_finite_float ''x_m'' x) (\<lambda>x'.
     bind_res (require_finite_float ''y_m'' y) (\<lambda>y'.
     bind_res (require_finite_float ''z_m'' z) (\<lambda>z'.
       Inr \<lparr>p3_x = x', p3_y = y', p3_z = z'\<rparr>)))"

record rtk_state_v2 =
  rv_timestamp_ns :: int
  rv_sequence :: int
  rv_world_generation :: int
  rv_frame_id :: string
  rv_left :: point3d_v2
  rv_center :: point3d_v2
  rv_right :: point3d_v2
  rv_heading :: pyfloat
  rv_simulation_session_id :: bytes
  rv_descriptor_sha256 :: bytes

fun require_point :: "string \<Rightarrow> point3d_v2 inst \<Rightarrow> (exc, point3d_v2) res" where
  "require_point name (Instance p) = Inr p"
| "require_point name Foreign = Inl (value_error (name @ '' must be a Point3dV2''))"

definition mk_rtk_state_v2 ::
  "pyval \<Rightarrow> pyval \<Rightarrow> pyval \<Rightarrow> pyval \<Rightarrow> point3d_v2 inst \<Rightarrow> point3d_v2 inst \<Rightarrow> point3d_v2 inst \<Rightarrow> pyval
     \<Rightarrow> pyval \<Rightarrow> pyval \<Rightarrow> (exc, rtk_state_v2) res" where
  "mk_rtk_state_v2 timestamp_ns sequence world_generation frame_id left center right heading
       simulation_session_id descriptor_sha256 =
     bind_res (require_uint ''timestamp_ns'' timestamp_ns uint64_max) (\<lambda>ts.
     bind_res (require_uint ''sequence'' sequence uint64_max) (\<lambda>sq.
     bind_res (require_generation ''world_generation'' world_generation) (\<lambda>wg.
     bind_res (nonempty_str ''frame_id must be nonempty'' frame_id) (\<lambda>fid.
     bind_res (require_point ''left'' left) (\<lambda>l.
     bind_res (require_point ''center'' center) (\<lambda>c.
     bind_res (require_point ''right'' right) (\<lambda>r.
     bind_res (require_finite_float ''heading_rad'' heading) (\<lambda>h.
     bind_res (require_fixed_bytes ''simulation_session_id'' simulation_session_id 16) (\<lambda>sim.
     bind_res (require_fixed_bytes ''descriptor_sha256'' descriptor_sha256 32) (\<lambda>sha.
       Inr \<lparr>rv_timestamp_ns = ts, rv_sequence = sq, rv_world_generation = wg, rv_frame_id = fid,
            rv_left = l, rv_center = c, rv_right = r, rv_heading = h,
            rv_simulation_session_id = sim, rv_descriptor_sha256 = sha\<rparr>))))))))))"

definition mk_lidar_point_v2 ::
  "pyval \<Rightarrow> pyval \<Rightarrow> pyval \<Rightarrow> pyval \<Rightarrow> pyval \<Rightarrow> pyval \<Rightarrow> pyval \<Rightarrow> (exc, lidar_point) res" where
  "mk_lidar_point_v2 off x y z rf tag line =
     bind_res (require_uint ''offset_time_ns'' off uint32_max) (\<lambda>off'.
     bind_res (require_float32 ''x'' x) (\<lambda>x'.
     bind_res (require_float32 ''y'' y) (\<lambda>y'.
     bind_res (require_float32 ''z'' z) (\<lambda>z'.
     bind_res (require_uint ''reflectivity'' rf uint32_max) (\<lambda>rf'.
     bind_res (require_uint ''tag'' tag uint32_max) (\<lambda>tag'.
     bind_res (require_uint ''line'' line uint32_max) (\<lambda>line'.
     ensure (tag' \<le> 3) (value_error ''tag must be in range 0..3'')
     (ensure (line' \<le> 15) (value_error ''line must be in range 0..15'')
       (Inr \<lparr>lp_offset_time_ns = off', lp_x = x', lp_y = y', lp_z = z', lp_reflectivity = rf',
             lp_tag = tag', lp_line = line'\<rparr>)))))))))"

record lidar_point_cloud_v2 =
  lv_timebase_ns :: int
  lv_frame_id :: string
  lv_point_num :: int
  lv_lidar_id :: int
  lv_points :: "lidar_point list"
  lv_sequence :: int
  lv_world_generation :: int
  lv_simulation_session_id :: bytes
  lv_descriptor_sha256 :: bytes

definition mk_lidar_point_cloud_v2 ::
  "pyval \<Rightarrow> pyval \<Rightarrow> pyval \<Rightarrow> pyval \<Rightarrow> lidar_point inst list option \<Rightarrow> pyval \<Rightarrow> pyval \<Rightarrow> pyval \<Rightarrow> pyval
     \<Rightarrow> (exc, lidar_point_cloud_v2) res" where
  \<comment> \<open>\<open>points\<close> is \<open>None\<close> for an argument that is neither a tuple nor a list\<close>
  "mk_lidar_point_cloud_v2 timebase frame_id point_num lidar_id points sequence world_generation
       simulation_session_id descriptor_sha256 =
     bind_res (require_uint ''timebase_ns'' timebase uint64_max) (\<lambda>tb.
     bind_res (nonempty_str ''frame_id must be nonempty'' frame_id) (\<lambda>fid.
     bind_res (require_uint ''point_num'' point_num uint32_max) (\<lambda>n.
     bind_res (require_uint ''lidar_id'' lidar_id uint32_max) (\<lambda>lid.
     case points of
       None \<Rightarrow> Inl (value_error ''points must be an ordered sequence of LidarPointV2'')
     | Some ps \<Rightarrow>
         ensure (Foreign \<notin> set ps) (value_error ''points must contain only LidarPointV2 values'')
         (ensure (n = int (length ps)) (value_error ''point_num must equal len(points)'')
         (bind_res (require_uint ''sequence'' sequence uint64_max) (\<lambda>sq.
          bind_res (require_generation ''world_generation'' world_generation) (\<lambda>wg.
          bind_res (require_fixed_bytes ''simulation_session_id'' simulation_session_id 16) (\<lambda>sim.
          bind_res (require_fixed_bytes ''descriptor_sha256'' descriptor_sha256 32) (\<lambda>sha.
            Inr \<lparr>lv_timebase_ns = tb, lv_frame_id = fid, lv_point_num = n, lv_lidar_id = lid,
                 lv_points = map the_instance ps, lv_sequence = sq, lv_world_generation = wg,
                 lv_simulation_session_id = sim, lv_descriptor_sha256 = sha\<rparr>))))))))))"

subsection \<open>Checked fields\<close>

lemma require_uint_Inr [res_simps]: "require_uint name v mx = Inr n \<longleftrightarrow> v = PInt n \<and> 0 \<le> n \<and> n \<le> mx"
  by (cases v) (auto simp: require_uint_def ensure_def)

lemma require_generation_Inr [res_simps]:
  "require_generation name v = Inr n \<longleftrightarrow> v = PInt n \<and> 1 \<le> n \<and> n \<le> uint64_max"
  by (auto simp: require_generation_def res_simps)

lemma require_fixed_bytes_Inr [res_simps]:
  "require_fixed_bytes name v k = Inr b \<longleftrightarrow> bytes_like v = Some b \<and> length b = k"
  by (cases "bytes_like v") (auto simp: require_fixed_bytes_def res_simps)

lemma nonempty_str_Inr [res_simps]: "nonempty_str m v = Inr s \<longleftrightarrow> v = PStr s \<and> s \<noteq> []"
  by (cases "(m, v)" rule: nonempty_str.cases) auto

lemma require_source_id_Inr [res_simps]:
  "require_source_id m v = Inr s \<longleftrightarrow> v = PStr s \<and> source_id_ok s"
  by (cases v) auto

lemma finite_number_Inr:
  "finite_number m v = Inr x \<longleftrightarrow> is_real_number v \<and> py_float v = Inr x \<and> f_isfinite x"
  by (auto simp: finite_number_def res_simps)

lemma finite_number_PFloat [simp]:
  "finite_number m (PFloat x) = (if f_isfinite x then Inr x else Inl (value_error m))"
  by (simp add: finite_number_def)

lemma require_finite_float_PFloat [simp]:
  "f_isfinite x \<Longrightarrow> require_finite_float name (PFloat x) = Inr x"
  by (simp add: require_finite_float_def)

lemma require_finite_float_finite: "require_finite_float name v = Inr x \<Longrightarrow> f_isfinite x"
  by (simp add: require_finite_float_def finite_number_Inr)

lemma require_float_tuple_finite: "require_float_tuple name v = Inr xs \<Longrightarrow> list_all f_isfinite xs"
  by (auto simp: require_float_tuple_def list_all_iff finite_number_Inr split: option.splits
      dest!: map_res_origin)

lemma require_float_tuple_floats:
  "list_all f_isfinite xs \<Longrightarrow> require_float_tuple name (PTuple (map PFloat xs)) = Inr xs"
  using map_res_cong_Inr [of xs "\<lambda>x. finite_number (name @ '' must contain finite numbers'') (PFloat x)" id]
  by (simp add: require_float_tuple_def map_res_map list_all_iff)

definition is_float32 :: "pyfloat \<Rightarrow> bool" where
  "is_float32 x \<longleftrightarrow> (\<exists>q. x = Fin q \<and> pack_float32 q = Some q)"

lemma pack_float32_idem: "pack_float32 q = Some r \<Longrightarrow> pack_float32 r = Some r"
  by (auto simp: pack_float32_def Let_def round_to_idem split: if_splits)

lemma require_float32_is_float32:
  assumes "require_float32 name v = Inr x"
  shows "is_float32 x"
proof -
  from assms obtain y where y: "require_finite_float name v = Inr y"
    by (auto simp: require_float32_def res_simps)
  then obtain q where "y = Fin q" using require_finite_float_finite f_isfinite_iff by blast
  with assms y obtain r where "pack_float32 q = Some r" "x = Fin r"
    by (auto simp: require_float32_def split: option.splits)
  then show ?thesis using pack_float32_idem by (auto simp: is_float32_def)
qed

lemma require_float32_id: "is_float32 x \<Longrightarrow> require_float32 name (PFloat x) = Inr x"
  by (auto simp: require_float32_def is_float32_def)

subsection \<open>Well-formed messages are the fixed points of the constructors\<close>

definition wf_identity :: "int \<Rightarrow> int \<Rightarrow> bytes \<Rightarrow> bytes \<Rightarrow> bool" where
  \<comment> \<open>sequence, world generation, session and descriptor identity of any v2 message\<close>
  "wf_identity sq wg sim sha \<longleftrightarrow>
     0 \<le> sq \<and> sq \<le> uint64_max \<and> 1 \<le> wg \<and> wg \<le> uint64_max \<and> length sim = 16 \<and> length sha = 32"

definition wf_command_v2 :: "wheel_command_v2 \<Rightarrow> bool" where
  "wf_command_v2 c \<longleftrightarrow>
     0 \<le> cv_timestamp_ns c \<and> cv_timestamp_ns c \<le> uint64_max
     \<and> wf_identity (cv_sequence c) (cv_world_generation c) (cv_simulation_session_id c) (cv_descriptor_sha256 c)
     \<and> 1 \<le> cv_command_generation c \<and> cv_command_generation c \<le> uint64_max
     \<and> source_id_ok (cv_source_id c) \<and> cv_robot_model c \<noteq> [] \<and> length (cv_source_session_id c) = 16
     \<and> list_all f_isfinite (cv_drive c) \<and> list_all f_isfinite (cv_steering c)"

definition wf_state_v2 :: "wheel_state_v2 \<Rightarrow> bool" where
  "wf_state_v2 s \<longleftrightarrow>
     0 \<le> sv_timestamp_ns s \<and> sv_timestamp_ns s \<le> uint64_max
     \<and> wf_identity (sv_sequence s) (sv_world_generation s) (sv_simulation_session_id s) (sv_descriptor_sha256 s)
     \<and> 1 \<le> sv_command_generation s \<and> sv_command_generation s \<le> uint64_max
     \<and> 0 \<le> sv_peer_count s \<and> sv_peer_count s \<le> uint32_max \<and> sv_robot_model s \<noteq> []
     \<and> list_all f_isfinite (sv_drive s) \<and> list_all f_isfinite (sv_steering_angle s)
     \<and> state_matches_peers (sv_authority_state s) (sv_peer_count s)
     \<and> (if sv_authority_state s = ACTIVE
        then (\<exists>i. sv_owner_source_id s = PStr i \<and> source_id_ok i) \<and> length (sv_owner_source_session_id s) = 16
        else \<not> truthy (sv_owner_source_id s) \<and> sv_owner_source_session_id s = [])"

definition wf_imu_v2 :: "imu_attitude_v2 \<Rightarrow> bool" where
  "wf_imu_v2 m \<longleftrightarrow>
     0 \<le> iv_timestamp_ns m \<and> iv_timestamp_ns m \<le> uint64_max
     \<and> wf_identity (iv_sequence m) (iv_world_generation m) (iv_simulation_session_id m) (iv_descriptor_sha256 m)
     \<and> f_isfinite (iv_roll m) \<and> f_isfinite (iv_pitch m) \<and> iv_frame_id m \<noteq> []"

definition wf_point3d_v2 :: "point3d_v2 \<Rightarrow> bool" where
  "wf_point3d_v2 p \<longleftrightarrow> f_isfinite (p3_x p) \<and> f_isfinite (p3_y p) \<and> f_isfinite (p3_z p)"

definition wf_rtk_v2 :: "rtk_state_v2 \<Rightarrow> bool" where
  "wf_rtk_v2 m \<longleftrightarrow>
     0 \<le> rv_timestamp_ns m \<and> rv_timestamp_ns m \<le> uint64_max
     \<and> wf_identity (rv_sequence m) (rv_world_generation m) (rv_simulation_session_id m) (rv_descriptor_sha256 m)
     \<and> rv_frame_id m \<noteq> [] \<and> wf_point3d_v2 (rv_left m) \<and> wf_point3d_v2 (rv_center m)
     \<and> wf_point3d_v2 (rv_right m) \<and> f_isfinite (rv_heading m)"

definition wf_lidar_point_v2 :: "lidar_point \<Rightarrow> bool" where
  "wf_lidar_point_v2 p \<longleftrightarrow>
     0 \<le> lp_offset_time_ns p \<and> lp_offset_time_ns p \<le> uint32_max
     \<and> is_float32 (lp_x p) \<and> is_float32 (lp_y p) \<and> is_float32 (lp_z p)
     \<and> 0 \<le> lp_reflectivity p \<and> lp_reflectivity p \<le> uint32_max
     \<and> 0 \<le> lp_tag p \<and> lp_tag p \<le> 3 \<and> 0 \<le> lp_line p \<and> lp_line p \<le> 15"

definition wf_cloud_v2 :: "lidar_point_cloud_v2 \<Rightarrow> bool" where
  "wf_cloud_v2 m \<longleftrightarrow>
     0 \<le> lv_timebase_ns m \<and> lv_timebase_ns m \<le> uint64_max \<and> lv_frame_id m \<noteq> []
     \<and> lv_point_num m = int (length (lv_points m)) \<and> lv_point_num m \<le> uint32_max
     \<and> 0 \<le> lv_lidar_id m \<and> lv_lidar_id m \<le> uint32_max
     \<and> wf_identity (lv_sequence m) (lv_world_generation m) (lv_simulation_session_id m) (lv_descriptor_sha256 m)
     \<and> list_all wf_lidar_point_v2 (lv_points m)"

lemma mk_wheel_command_v2_wf:
  "mk_wheel_command_v2 a b c d e f g h i j k = Inr m \<Longrightarrow> wf_command_v2 m"
  by (auto simp: mk_wheel_command_v2_def wf_command_v2_def wf_identity_def res_simps
      dest: require_float_tuple_finite)

lemma check_state_owner_Inr:
  "check_state_owner st oid b = Inr b' \<longleftrightarrow> b' = b \<and>
     (if st = ACTIVE then (\<exists>i. oid = PStr i \<and> source_id_ok i) \<and> length b = 16
      else \<not> truthy oid \<and> b = [])"
  by (auto simp: check_state_owner_def res_simps)

lemma mk_wheel_state_v2_wf:
  "mk_wheel_state_v2 a b c d e f g h i (Instance st) j k l = Inr m \<Longrightarrow> wf_state_v2 m"
  by (cases "st = ACTIVE"; clarsimp simp: mk_wheel_state_v2_def res_simps check_state_owner_Inr)
     (simp_all add: wf_state_v2_def wf_identity_def require_float_tuple_finite)

lemma mk_imu_attitude_v2_wf: "mk_imu_attitude_v2 a b c d e f g h = Inr m \<Longrightarrow> wf_imu_v2 m"
  by (auto simp: mk_imu_attitude_v2_def wf_imu_v2_def wf_identity_def res_simps
      dest: require_finite_float_finite)

lemma mk_point3d_v2_wf: "mk_point3d_v2 a b c = Inr p \<Longrightarrow> wf_point3d_v2 p"
  by (auto simp: mk_point3d_v2_def wf_point3d_v2_def res_simps dest: require_finite_float_finite)

lemma mk_lidar_point_v2_wf: "mk_lidar_point_v2 a b c d e f g = Inr p \<Longrightarrow> wf_lidar_point_v2 p"
  by (auto simp: mk_lidar_point_v2_def wf_lidar_point_v2_def res_simps dest: require_float32_is_float32)

end
