(* ===== verification/Session.thy ===== *)
theory Session
  imports ModelsV2
begin

text \<open>
  The protocol session of \<^verbatim>\<open>slope_sim/interfaces/v2/session.py\<close> with the topic contract of
  \<^verbatim>\<open>v2/topics.py\<close> and the descriptor identity of \<^verbatim>\<open>v2/descriptor.py\<close>: process identity, world
  and command generations, one sequence counter per output topic, and the two-phase world rebuild.
  Every public method runs under the session lock, so a method is one atomic operation.
\<close>

subsection \<open>Topics and descriptor\<close>

record v2_topic_contract =
  tc_topic :: string
  tc_type_name :: string
  tc_rate_hz :: int
  tc_direction :: string

definition v2_topics :: "v2_topic_contract list" where
  "v2_topics =
     [\<lparr>tc_topic = ''/sim/wheel/command'', tc_type_name = ''slope_sim.interfaces.v2.WheelCommand'',
       tc_rate_hz = 100, tc_direction = ''subscribe''\<rparr>,
      \<lparr>tc_topic = ''/sim/wheel/state'', tc_type_name = ''slope_sim.interfaces.v2.WheelState'',
       tc_rate_hz = 100, tc_direction = ''publish''\<rparr>,
      \<lparr>tc_topic = ''/sim/lidar/points'', tc_type_name = ''slope_sim.interfaces.v2.LidarPointCloud'',
       tc_rate_hz = 10, tc_direction = ''publish''\<rparr>,
      \<lparr>tc_topic = ''/sim/rtk/state'', tc_type_name = ''slope_sim.interfaces.v2.RtkState'',
       tc_rate_hz = 10, tc_direction = ''publish''\<rparr>,
      \<lparr>tc_topic = ''/sim/imu/attitude'', tc_type_name = ''slope_sim.interfaces.v2.ImuAttitude'',
       tc_rate_hz = 10, tc_direction = ''publish''\<rparr>]"

definition v2_output_topics :: "string list" where
  "v2_output_topics = map tc_topic (filter (\<lambda>c. tc_direction c = ''publish'') v2_topics)"

lemma v2_output_topics_eq [simp]:
  "v2_output_topics = [''/sim/wheel/state'', ''/sim/lidar/points'', ''/sim/rtk/state'', ''/sim/imu/attitude'']"
  by (simp add: v2_output_topics_def v2_topics_def)

record descriptor_identity =
  di_payload :: bytes
  di_sha256 :: bytes

definition load_v2_descriptor ::
  "(bytes \<Rightarrow> bytes) \<Rightarrow> bytes \<Rightarrow> bytes \<Rightarrow> (exc, descriptor_identity) res" where
  \<comment> \<open>\<open>sha256\<close> is the hash function of hashlib, \<open>payload\<close> and \<open>expected\<close> what the two files hold\<close>
  "load_v2_descriptor sha256 payload expected =
     (let digest = sha256 payload
      in if length expected \<noteq> 32 \<or> digest \<noteq> expected
         then Inl (runtime_error ''v2 descriptor SHA-256 mismatch'')
         else Inr \<lparr>di_payload = payload, di_sha256 = digest\<rparr>)"

subsection \<open>State and operations\<close>

record protocol_session =
  ps_descriptor :: descriptor_identity
  ps_simulation_session_id :: bytes
  ps_world_generation :: int
  ps_command_generation :: int
  ps_next_sequence :: "(string \<times> int) list"
  ps_rebuild_prepared :: bool

record output_identity =
  oi_topic :: string
  oi_simulation_session_id :: bytes
  oi_descriptor_sha256 :: bytes
  oi_world_generation :: int
  oi_sequence :: int

definition fresh_sequences :: "(string \<times> int) list" where
  "fresh_sequences = map (\<lambda>t. (t, 0)) v2_output_topics"

definition new_protocol_session :: "descriptor_identity \<Rightarrow> pyval \<Rightarrow> (exc, protocol_session) res" where
  \<comment> \<open>\<open>session_id\<close> is what \<^verbatim>\<open>session_id_factory()\<close> returned\<close>
  "new_protocol_session descriptor session_id =
     bind_res (require_fixed_bytes ''simulation_session_id'' session_id 16) (\<lambda>sid.
       Inr \<lparr>ps_descriptor = descriptor, ps_simulation_session_id = sid, ps_world_generation = 1,
            ps_command_generation = 1, ps_next_sequence = fresh_sequences,
            ps_rebuild_prepared = False\<rparr>)"

definition reserve_output :: "string \<Rightarrow> (exc, protocol_session, output_identity) op" where
  "reserve_output topic s =
     (case map_of (ps_next_sequence s) topic of
        None \<Rightarrow> (Inl (value_error (''unknown v2 output topic: '' @ topic)), s)
      | Some sequence \<Rightarrow>
          if sequence > uint64_max then (Inl (overflow_error ''v2 output sequence exhausted''), s)
          else (Inr \<lparr>oi_topic = topic, oi_simulation_session_id = ps_simulation_session_id s,
                     oi_descriptor_sha256 = di_sha256 (ps_descriptor s),
                     oi_world_generation = ps_world_generation s, oi_sequence = sequence\<rparr>,
                s\<lparr>ps_next_sequence := dict_put topic (sequence + 1) (ps_next_sequence s)\<rparr>))"

definition advance_command_generation :: "(exc, protocol_session, int) op" where
  "advance_command_generation s =
     (if ps_command_generation s = uint64_max
      then (Inl (overflow_error ''command_generation exhausted''), s)
      else let s' = s\<lparr>ps_command_generation := ps_command_generation s + 1\<rparr>
           in (Inr (ps_command_generation s'), s'))"

definition session_prepare_rebuild :: "(exc, protocol_session, int) op" where
  "session_prepare_rebuild s =
     (if ps_rebuild_prepared s then (Inl (runtime_error ''world rebuild is already prepared''), s)
      else bind_op advance_command_generation
             (\<lambda>g s'. (Inr g, s'\<lparr>ps_rebuild_prepared := True\<rparr>)) s)"

definition session_commit_rebuild :: "(exc, protocol_session, int) op" where
  "session_commit_rebuild s =
     (if \<not> ps_rebuild_prepared s then (Inl (runtime_error ''world rebuild is not prepared''), s)
      else if ps_world_generation s = uint64_max
      then (Inl (overflow_error ''world_generation exhausted''), s)
      else let s' = s\<lparr>ps_world_generation := ps_world_generation s + 1,
                      ps_next_sequence := fresh_sequences, ps_rebuild_prepared := False\<rparr>
           in (Inr (ps_world_generation s'), s'))"

definition session_abort_rebuild :: "(exc, protocol_session, unit) op" where
  "session_abort_rebuild s =
     (if \<not> ps_rebuild_prepared s then (Inl (runtime_error ''world rebuild is not prepared''), s)
      else (Inr (), s\<lparr>ps_rebuild_prepared := False\<rparr>))"

definition session_fault_rebuild :: "(exc, protocol_session, unit) op" where
  "session_fault_rebuild s =
     (if \<not> ps_rebuild_prepared s then (Inl (runtime_error ''world rebuild is not prepared''), s)
      else (Inr (), s\<lparr>ps_rebuild_prepared := False\<rparr>))"

lemmas session_op_defs = reserve_output_def advance_command_generation_def
  session_prepare_rebuild_def session_commit_rebuild_def session_abort_rebuild_def
  session_fault_rebuild_def bind_op_def Let_def

subsection \<open>Invariant\<close>

definition session_inv :: "protocol_session \<Rightarrow> bool" where
  "session_inv s \<longleftrightarrow>
     length (ps_simulation_session_id s) = 16
     \<and> 1 \<le> ps_world_generation s \<and> ps_world_generation s \<le> uint64_max
     \<and> 1 \<le> ps_command_generation s \<and> ps_command_generation s \<le> uint64_max
     \<and> distinct (map fst (ps_next_sequence s))
     \<and> fst ` set (ps_next_sequence s) = set v2_output_topics
     \<and> (\<forall>n \<in> snd ` set (ps_next_sequence s). 0 \<le> n \<and> n \<le> uint64_max + 1)"

datatype session_call =
    CReserve string | CAdvance | CPrepare | CCommit | CAbort | CFault

definition discard :: "(exc, 'a) res \<times> 's \<Rightarrow> (exc, 'b option) res \<times> 's" where
  "discard r = (case r of (Inl e, s) \<Rightarrow> (Inl e, s) | (Inr _, s) \<Rightarrow> (Inr None, s))"

fun session_do :: "session_call \<Rightarrow> (exc, protocol_session, output_identity option) op" where
  \<comment> \<open>one call of any public method; a reservation returns its identity\<close>
  "session_do (CReserve t) s = (case reserve_output t s of (Inl e, s') \<Rightarrow> (Inl e, s') | (Inr i, s') \<Rightarrow> (Inr (Some i), s'))"
| "session_do CAdvance s = discard (advance_command_generation s)"
| "session_do CPrepare s = discard (session_prepare_rebuild s)"
| "session_do CCommit s = discard (session_commit_rebuild s)"
| "session_do CAbort s = discard (session_abort_rebuild s)"
| "session_do CFault s = discard (session_fault_rebuild s)"

fun session_run :: "session_call list \<Rightarrow> protocol_session \<Rightarrow> output_identity list \<times> protocol_session" where
  \<comment> \<open>any sequence of calls, in any order, from any thread; a call that raises leaves its state\<close>
  "session_run [] s = ([], s)"
| "session_run (c # cs) s =
     (case session_do c s of
        (Inr (Some i), s') \<Rightarrow> (let (is, s'') = session_run cs s' in (i # is, s''))
      | (_, s') \<Rightarrow> session_run cs s')"

lemma discard_simps [simp]:
  "discard (Inl e, s) = (Inl e, s)" "discard (Inr x, s) = (Inr None, s)"
  by (simp_all add: discard_def)

lemma snd_discard [simp]: "snd (discard r) = snd r"
  by (cases r; cases "fst r") (auto simp: discard_def split: sum.splits)

lemma dict_put_values:
  "snd ` set (dict_put k v d) \<subseteq> insert v (snd ` set d)"
  by (induction k v d rule: dict_put.induct) auto

lemma new_protocol_session_inv: "new_protocol_session d sid = Inr s \<Longrightarrow> session_inv s"
  by (auto simp: new_protocol_session_def session_inv_def fresh_sequences_def res_simps)

lemma reserve_output_inv [inv_intros]:
  assumes inv: "session_inv s"
  shows "session_inv (snd (reserve_output t s))"
proof (cases "map_of (ps_next_sequence s) t")
  case None
  with inv show ?thesis by (simp add: reserve_output_def)
next
  case (Some n)
  let ?d = "ps_next_sequence s" and ?d' = "dict_put t (n + 1) (ps_next_sequence s)"
  from Some have mem: "(t, n) \<in> set ?d" by (rule map_of_SomeD)
  then have "t \<in> fst ` set ?d" by force
  then have keys: "fst ` set ?d' = fst ` set ?d" using keys_dict_put [of t "n + 1" ?d] by blast
  show ?thesis
  proof (cases "n > uint64_max")
    case True
    with inv Some show ?thesis by (simp add: reserve_output_def)
  next
    case False
    have range: "\<forall>m \<in> snd ` set ?d. 0 \<le> m \<and> m \<le> uint64_max + 1" and dist: "distinct (map fst ?d)"
      using inv unfolding session_inv_def by blast+
    from range mem have "0 \<le> n" by force
    with False range have "\<forall>m \<in> snd ` set ?d'. 0 \<le> m \<and> m \<le> uint64_max + 1"
      using dict_put_values [of t "n + 1" ?d] by fastforce
    with dist keys have "session_inv (s\<lparr>ps_next_sequence := ?d'\<rparr>)"
      using inv distinct_dict_put [of ?d t "n + 1"] unfolding session_inv_def by simp
    with Some False show ?thesis by (simp add: reserve_output_def)
  qed
qed

lemma advance_command_generation_inv [inv_intros]:
  "session_inv s \<Longrightarrow> session_inv (snd (advance_command_generation s))"
  by (simp add: session_inv_def advance_command_generation_def Let_def)

lemma session_prepare_rebuild_inv [inv_intros]:
  "session_inv s \<Longrightarrow> session_inv (snd (session_prepare_rebuild s))"
  by (simp add: session_inv_def session_op_defs)

lemma session_commit_rebuild_inv [inv_intros]:
  "session_inv s \<Longrightarrow> session_inv (snd (session_commit_rebuild s))"
  by (simp add: session_inv_def session_op_defs fresh_sequences_def)

lemma session_abort_rebuild_inv [inv_intros]:
  "session_inv s \<Longrightarrow> session_inv (snd (session_abort_rebuild s))"
  by (simp add: session_inv_def session_op_defs)

lemma session_fault_rebuild_inv [inv_intros]:
  "session_inv s \<Longrightarrow> session_inv (snd (session_fault_rebuild s))"
  by (simp add: session_inv_def session_op_defs)

lemma session_do_inv: "session_inv s \<Longrightarrow> session_inv (snd (session_do c s))"
proof (cases c)
  case (CReserve t)
  assume "session_inv s"
  then have "session_inv (snd (reserve_output t s))" by (rule reserve_output_inv)
  with CReserve show ?thesis by (auto split: prod.splits sum.splits)
qed (auto intro: inv_intros)

subsection \<open>Identities are never reused\<close>

lemma session_do_reserve_some:
  "session_do c s = (Inr (Some i), s') \<Longrightarrow>
     \<exists>n. map_of (ps_next_sequence s) (oi_topic i) = Some n \<and> oi_sequence i = n
       \<and> oi_world_generation i = ps_world_generation s
       \<and> ps_world_generation s' = ps_world_generation s
       \<and> map_of (ps_next_sequence s') = (map_of (ps_next_sequence s))(oi_topic i \<mapsto> n + 1)"
  by (cases c) (auto simp: session_op_defs discard_def split: option.splits if_splits prod.splits sum.splits)

lemma session_do_other:
  assumes "session_do c s = (r, s')" and "\<And>i. r \<noteq> Inr (Some i)"
  shows "(ps_world_generation s' = ps_world_generation s \<and> ps_next_sequence s' = ps_next_sequence s)
    \<or> (ps_world_generation s' = ps_world_generation s + 1 \<and> ps_next_sequence s' = fresh_sequences)"
proof (cases c)
  case (CReserve t)
  with assms show ?thesis by (auto simp: reserve_output_def split: option.splits if_splits)
qed (use assms in \<open>auto simp: session_op_defs discard_def split: if_splits prod.splits\<close>)

lemma session_run_Cons:
  assumes "session_run (c # cs) s = (is, s')"
  obtains (reserve) i js s1 where "session_do c s = (Inr (Some i), s1)" "session_run cs s1 = (js, s')" "is = i # js"
  | (other) r s1 where "session_do c s = (r, s1)" "\<And>i. r \<noteq> Inr (Some i)" "session_run cs s1 = (is, s')"
proof (cases "session_do c s")
  case (Pair r s1)
  show ?thesis
  proof (cases "\<exists>i. r = Inr (Some i)")
    case True
    then obtain i where i: "r = Inr (Some i)" by blast
    obtain js s2 where "session_run cs s1 = (js, s2)" by fastforce
    with assms Pair i show ?thesis by (intro reserve) auto
  next
    case False
    with assms Pair show ?thesis by (intro other) (auto split: sum.splits option.splits)
  qed
qed

lemma session_run_world_mono:
  "session_run cs s = (is, s') \<Longrightarrow> i \<in> set is \<Longrightarrow> ps_world_generation s \<le> oi_world_generation i"
proof (induction cs arbitrary: s "is")
  case (Cons c cs)
  from Cons.prems(1) show ?case
  proof (cases rule: session_run_Cons)
    case (reserve j js s1)
    from session_do_reserve_some [OF reserve(1)]
    have "oi_world_generation j = ps_world_generation s" "ps_world_generation s1 = ps_world_generation s"
      by auto
    with Cons.IH [OF reserve(2)] Cons.prems(2) reserve(3) show ?thesis by auto
  next
    case (other r s1)
    then have "ps_world_generation s \<le> ps_world_generation s1" using session_do_other by fastforce
    with Cons.IH [OF other(3) Cons.prems(2)] show ?thesis by simp
  qed
qed simp

definition first_sequence :: "protocol_session \<Rightarrow> string \<Rightarrow> int \<Rightarrow> int" where
  "first_sequence s t g =
     (if g = ps_world_generation s then (case map_of (ps_next_sequence s) t of Some n \<Rightarrow> n | None \<Rightarrow> 0) else 0)"

definition identities_of :: "string \<Rightarrow> int \<Rightarrow> output_identity list \<Rightarrow> output_identity list" where
  "identities_of t g is = filter (\<lambda>i. oi_topic i = t \<and> oi_world_generation i = g) is"

lemma fresh_sequences_first: "map_of fresh_sequences t = Some n \<Longrightarrow> n = 0"
  by (auto simp: fresh_sequences_def simp del: v2_output_topics_eq dest!: map_of_SomeD)

lemma session_run_counts_up:
  "session_run cs s = (is, s') \<Longrightarrow> ps_world_generation s \<le> g \<Longrightarrow>
     counts_up (first_sequence s t g) (map oi_sequence (identities_of t g is))"
proof (induction cs arbitrary: s "is")
  case Nil
  then show ?case by (simp add: identities_of_def)
next
  case (Cons c cs)
  from Cons.prems(1) show ?case
  proof (cases rule: session_run_Cons)
    case (reserve i js s1)
    from session_do_reserve_some [OF reserve(1)] obtain n where
      n: "map_of (ps_next_sequence s) (oi_topic i) = Some n" "oi_sequence i = n"
        "oi_world_generation i = ps_world_generation s" "ps_world_generation s1 = ps_world_generation s"
        "map_of (ps_next_sequence s1) = (map_of (ps_next_sequence s))(oi_topic i \<mapsto> n + 1)" by blast
    have "counts_up (first_sequence s1 t g) (map oi_sequence (identities_of t g js))"
      using Cons.IH [OF reserve(2)] Cons.prems(2) n(4) by simp
    then show ?thesis using n reserve(3)
      by (cases "g = ps_world_generation s"; cases "oi_topic i = t")
        (auto simp: identities_of_def first_sequence_def)
  next
    case (other r s1)
    from session_do_other [OF other(1,2)] show ?thesis
    proof
      assume same: "ps_world_generation s1 = ps_world_generation s \<and> ps_next_sequence s1 = ps_next_sequence s"
      then have "first_sequence s1 t g = first_sequence s t g" by (simp add: first_sequence_def)
      with same Cons.IH [OF other(3), of] Cons.prems(2) show ?thesis by simp
    next
      assume new: "ps_world_generation s1 = ps_world_generation s + 1 \<and> ps_next_sequence s1 = fresh_sequences"
      show ?thesis
      proof (cases "g = ps_world_generation s")
        case True
        then have "identities_of t g is = []"
          using session_run_world_mono [OF other(3)] new by (force simp: identities_of_def filter_empty_conv)
        then show ?thesis by simp
      next
        case False
        then have "first_sequence s1 t g = 0 \<and> first_sequence s t g = 0"
          using new fresh_sequences_first by (auto simp: first_sequence_def split: option.split)
        with Cons.IH [OF other(3)] False new Cons.prems(2) show ?thesis by simp
      qed
    qed
  qed
qed

text \<open>
  C3. Whatever sequence of reservations, token advances and world-rebuild calls is made on a new
  protocol session (a call that raises leaves the session as it was and the caller goes on), the
  sequence numbers handed out for any topic in any one world are 0, 1, 2, \<dots> in the order
  of the reservations: no identity (topic, world generation, sequence) is ever skipped or reused.
\<close>

theorem session_sequences_contiguous:
  assumes "new_protocol_session d sid = Inr s" and "session_run cs s = (is, s')"
  shows "map oi_sequence (identities_of t g is) = map int [0..<length (identities_of t g is)]"
proof (cases "ps_world_generation s \<le> g")
  case True
  have "first_sequence s t g = 0"
    using assms(1) by (auto simp: new_protocol_session_def first_sequence_def res_simps
        split: option.split dest: fresh_sequences_first)
  with session_run_counts_up [OF assms(2) True, of t]
  show ?thesis by (simp add: counts_up_iff)
next
  case False
  then have "identities_of t g is = []"
    using session_run_world_mono [OF assms(2)] by (force simp: identities_of_def filter_empty_conv)
  then show ?thesis by simp
qed

definition example_sid :: bytes where
  "example_sid = replicate 16 7"

definition example_descriptor :: descriptor_identity where
  "example_descriptor = \<lparr>di_payload = [1, 2], di_sha256 = replicate 32 9\<rparr>"

definition example_session :: protocol_session where
  "example_session = \<lparr>ps_descriptor = example_descriptor, ps_simulation_session_id = example_sid,
     ps_world_generation = 1, ps_command_generation = 1, ps_next_sequence = fresh_sequences,
     ps_rebuild_prepared = False\<rparr>"

lemma example_session_new: "new_protocol_session example_descriptor (PBytes example_sid) = Inr example_session"
  by (simp add: new_protocol_session_def require_fixed_bytes_def example_session_def example_sid_def)

theorem session_sequences_contiguous_witness:
  "map oi_sequence (identities_of ''/sim/rtk/state'' 1
     (fst (session_run [CReserve ''/sim/rtk/state'', CPrepare, CReserve ''/sim/rtk/state'', CCommit,
        CReserve ''/sim/rtk/state''] example_session))) = [0, 1]"
proof -
  let ?r = "session_run [CReserve ''/sim/rtk/state'', CPrepare, CReserve ''/sim/rtk/state'', CCommit,
        CReserve ''/sim/rtk/state''] example_session"
  have len: "length (identities_of ''/sim/rtk/state'' 1 (fst ?r)) = 2"
    by (simp add: example_session_def session_op_defs fresh_sequences_def identities_of_def)
  have "map oi_sequence (identities_of ''/sim/rtk/state'' 1 (fst ?r)) = map int [0..<2]"
    unfolding len [symmetric]
    by (rule session_sequences_contiguous [OF example_session_new surjective_pairing])
  then show ?thesis by (simp add: upt_rec)
qed

subsection \<open>Generations only grow\<close>

lemma session_do_generations:
  "ps_command_generation s \<le> ps_command_generation (snd (session_do c s))
   \<and> ps_world_generation s \<le> ps_world_generation (snd (session_do c s))
   \<and> ps_world_generation (snd (session_do c s)) - ps_world_generation s
       + (if ps_rebuild_prepared (snd (session_do c s)) then 1 else 0)
     \<le> ps_command_generation (snd (session_do c s)) - ps_command_generation s
       + (if ps_rebuild_prepared s then 1 else 0)"
  by (cases c) (auto simp: session_op_defs discard_def split: option.splits)

lemma session_run_generations:
  "session_run cs s = (is, s') \<Longrightarrow>
     ps_command_generation s \<le> ps_command_generation s'
     \<and> ps_world_generation s \<le> ps_world_generation s'
     \<and> ps_world_generation s' - ps_world_generation s + (if ps_rebuild_prepared s' then 1 else 0)
       \<le> ps_command_generation s' - ps_command_generation s + (if ps_rebuild_prepared s then 1 else 0)"
proof (induction cs arbitrary: s "is")
  case (Cons c cs)
  obtain r s1 where d: "session_do c s = (r, s1)" by fastforce
  then obtain js where "session_run cs s1 = (js, s')"
    using Cons.prems by (auto split: sum.splits option.splits prod.splits)
  from Cons.IH [OF this] session_do_generations [of s c] d show ?case by simp
qed simp

end
