(* ===== verification/CodecV2.thy ===== *)
theory CodecV2
  imports Session
begin

text \<open>
  \<^verbatim>\<open>V2ProtoCodec\<close> of \<^verbatim>\<open>slope_sim/interfaces/v2/codec.py\<close>.  The messages have the fields declared in
  \<^verbatim>\<open>proto/slope_sim_interfaces_v2.proto\<close>.  The protobuf library is an argument: \<open>narrow\<close> is the value a
  \<open>float\<close> field holds after a double was assigned to it, \<open>serialize\<close> and \<open>parse\<close> are
  \<^verbatim>\<open>SerializeToString\<close> and \<^verbatim>\<open>ParseFromString\<close> (\<open>None\<close> for a DecodeError), and \<open>sha256\<close> is the digest of
  hashlib.
\<close>

subsection \<open>Messages\<close>

record wheel_state_message =
  wm_timestamp_ns :: int
  wm_drive :: "pyfloat list"
  wm_steering_angle :: "pyfloat list"
  wm_sequence :: int
  wm_world_generation :: int
  wm_command_generation :: int
  wm_robot_model :: string
  wm_simulation_session_id :: bytes
  wm_descriptor_sha256 :: bytes
  wm_authority_state :: int  \<comment> \<open>an open enum on the wire\<close>
  wm_owner_source_id :: string
  wm_owner_source_session_id :: bytes
  wm_peer_count :: int

datatype v2_model =
    VmCommand wheel_command_v2
  | VmState wheel_state_v2
  | VmImu imu_attitude_v2
  | VmRtk rtk_state_v2
  | VmCloud lidar_point_cloud_v2
  | VmOther string

datatype wire_message =
    WmCommand wheel_command_v2
  | WmState wheel_state_message
  | WmImu imu_attitude_v2
  | WmRtk rtk_state_v2
  | WmCloud lidar_point_cloud_v2

datatype message_type = MtCommand | MtState | MtImu | MtRtk | MtCloud

fun message_type_of :: "wire_message \<Rightarrow> message_type" where
  "message_type_of (WmCommand _) = MtCommand"
| "message_type_of (WmState _) = MtState"
| "message_type_of (WmImu _) = MtImu"
| "message_type_of (WmRtk _) = MtRtk"
| "message_type_of (WmCloud _) = MtCloud"

fun full_name :: "message_type \<Rightarrow> string" where
  "full_name MtCommand = ''slope_sim.interfaces.v2.WheelCommand''"
| "full_name MtState = ''slope_sim.interfaces.v2.WheelState''"
| "full_name MtImu = ''slope_sim.interfaces.v2.ImuAttitude''"
| "full_name MtRtk = ''slope_sim.interfaces.v2.RtkState''"
| "full_name MtCloud = ''slope_sim.interfaces.v2.LidarPointCloud''"

fun message_sha :: "wire_message \<Rightarrow> bytes" where
  "message_sha (WmCommand m) = cv_descriptor_sha256 m"
| "message_sha (WmState m) = wm_descriptor_sha256 m"
| "message_sha (WmImu m) = iv_descriptor_sha256 m"
| "message_sha (WmRtk m) = rv_descriptor_sha256 m"
| "message_sha (WmCloud m) = lv_descriptor_sha256 m"

fun message_session :: "wire_message \<Rightarrow> bytes" where
  "message_session (WmCommand m) = cv_simulation_session_id m"
| "message_session (WmState m) = wm_simulation_session_id m"
| "message_session (WmImu m) = iv_simulation_session_id m"
| "message_session (WmRtk m) = rv_simulation_session_id m"
| "message_session (WmCloud m) = lv_simulation_session_id m"

abbreviation type_error :: "string \<Rightarrow> exc" where
  "type_error m \<equiv> Exc TypeErr (lit m)"

fun text_field :: "pyval \<Rightarrow> (exc, string) res" where
  \<comment> \<open>assigning to a string field; \<^verbatim>\<open>None\<close> leaves it unset\<close>
  "text_field (PStr s) = Inr s"
| "text_field PNone = Inr []"
| "text_field _ = Inl (type_error ''bad argument type for a string field'')"

definition narrow_point :: "(pyfloat \<Rightarrow> pyfloat) \<Rightarrow> lidar_point \<Rightarrow> lidar_point" where
  "narrow_point narrow p = p\<lparr>lp_x := narrow (lp_x p), lp_y := narrow (lp_y p), lp_z := narrow (lp_z p)\<rparr>"

fun message_of :: "(pyfloat \<Rightarrow> pyfloat) \<Rightarrow> v2_model \<Rightarrow> (exc, wire_message) res" where
  "message_of narrow (VmCommand c) =
     Inr (WmCommand (c\<lparr>cv_drive := map narrow (cv_drive c), cv_steering := map narrow (cv_steering c)\<rparr>))"
| "message_of narrow (VmState s) =
     bind_res (text_field (sv_owner_source_id s)) (\<lambda>owner.
       Inr (WmState \<lparr>wm_timestamp_ns = sv_timestamp_ns s, wm_drive = map narrow (sv_drive s),
         wm_steering_angle = map narrow (sv_steering_angle s), wm_sequence = sv_sequence s,
         wm_world_generation = sv_world_generation s, wm_command_generation = sv_command_generation s,
         wm_robot_model = sv_robot_model s, wm_simulation_session_id = sv_simulation_session_id s,
         wm_descriptor_sha256 = sv_descriptor_sha256 s,
         wm_authority_state = authority_state_code (sv_authority_state s), wm_owner_source_id = owner,
         wm_owner_source_session_id = sv_owner_source_session_id s, wm_peer_count = sv_peer_count s\<rparr>))"
| "message_of narrow (VmImu m) = Inr (WmImu m)"
| "message_of narrow (VmRtk m) = Inr (WmRtk m)"
| "message_of narrow (VmCloud m) = Inr (WmCloud (m\<lparr>lv_points := map (narrow_point narrow) (lv_points m)\<rparr>))"
| "message_of narrow (VmOther n) = Inl (type_error (''unsupported v2 model: '' @ n))"

subsection \<open>Encoding\<close>

record encoded_v2_frame =
  ef_type_name :: string
  ef_payload :: bytes
  ef_payload_sha256 :: bytes

definition v2_encode ::
  "(pyfloat \<Rightarrow> pyfloat) \<Rightarrow> (wire_message \<Rightarrow> bytes) \<Rightarrow> (bytes \<Rightarrow> bytes) \<Rightarrow> descriptor_identity \<Rightarrow> v2_model \<Rightarrow>
   (exc, encoded_v2_frame) res" where
  "v2_encode narrow serialize sha256 descriptor model =
     bind_res (message_of narrow model) (\<lambda>message.
     ensure (message_sha message = di_sha256 descriptor) (value_error ''v2 descriptor SHA-256 mismatch'')
     (let payload = serialize message
      in Inr \<lparr>ef_type_name = full_name (message_type_of message), ef_payload = payload,
              ef_payload_sha256 = sha256 payload\<rparr>))"

subsection \<open>Decoding\<close>

definition v2_parse ::
  "(message_type \<Rightarrow> bytes \<Rightarrow> wire_message option) \<Rightarrow> descriptor_identity \<Rightarrow> message_type \<Rightarrow> pyval \<Rightarrow> (exc, wire_message) res" where
  "v2_parse parse descriptor t payload =
     (case bytes_like payload of
        None \<Rightarrow> Inl (type_error ''v2 payload must be bytes-like'')
      | Some b \<Rightarrow>
          (case parse t b of
             None \<Rightarrow> Inl (value_error ''failed to decode v2 payload'')
           | Some message \<Rightarrow>
               ensure (message_sha message = di_sha256 descriptor) (value_error ''v2 descriptor SHA-256 mismatch'')
               (ensure (length (message_session message) = 16)
                  (value_error ''simulation_session_id must be exactly 16 bytes'') (Inr message))))"

definition command_of_message :: "wheel_command_v2 \<Rightarrow> (exc, wheel_command_v2) res" where
  "command_of_message m =
     mk_wheel_command_v2 (PInt (cv_timestamp_ns m)) (PTuple (map PFloat (cv_drive m)))
       (PTuple (map PFloat (cv_steering m))) (PInt (cv_sequence m)) (PInt (cv_world_generation m))
       (PInt (cv_command_generation m)) (PStr (cv_source_id m)) (PBytes (cv_source_session_id m))
       (PStr (cv_robot_model m)) (PBytes (cv_simulation_session_id m)) (PBytes (cv_descriptor_sha256 m))"

definition state_of_message :: "wheel_state_message \<Rightarrow> (exc, wheel_state_v2) res" where
  "state_of_message m =
     (case authority_state_of_code (wm_authority_state m) of
        Inl e \<Rightarrow> Inl (value_error ''invalid command_authority_state'')
      | Inr state \<Rightarrow>
          mk_wheel_state_v2 (PInt (wm_timestamp_ns m)) (PTuple (map PFloat (wm_drive m)))
            (PTuple (map PFloat (wm_steering_angle m))) (PInt (wm_sequence m)) (PInt (wm_world_generation m))
            (PInt (wm_command_generation m)) (PStr (wm_robot_model m)) (PBytes (wm_simulation_session_id m))
            (PBytes (wm_descriptor_sha256 m)) (Instance state) (PStr (wm_owner_source_id m))
            (PBytes (wm_owner_source_session_id m)) (PInt (wm_peer_count m)))"

definition imu_of_message :: "imu_attitude_v2 \<Rightarrow> (exc, imu_attitude_v2) res" where
  "imu_of_message m =
     mk_imu_attitude_v2 (PInt (iv_timestamp_ns m)) (PFloat (iv_roll m)) (PFloat (iv_pitch m))
       (PInt (iv_sequence m)) (PInt (iv_world_generation m)) (PStr (iv_frame_id m))
       (PBytes (iv_simulation_session_id m)) (PBytes (iv_descriptor_sha256 m))"

definition point_of_message :: "point3d_v2 \<Rightarrow> (exc, point3d_v2) res" where
  "point_of_message p = mk_point3d_v2 (PFloat (p3_x p)) (PFloat (p3_y p)) (PFloat (p3_z p))"

definition rtk_of_message :: "rtk_state_v2 \<Rightarrow> (exc, rtk_state_v2) res" where
  "rtk_of_message m =
     bind_res (point_of_message (rv_left m)) (\<lambda>l.
     bind_res (point_of_message (rv_center m)) (\<lambda>c.
     bind_res (point_of_message (rv_right m)) (\<lambda>r.
       mk_rtk_state_v2 (PInt (rv_timestamp_ns m)) (PInt (rv_sequence m)) (PInt (rv_world_generation m))
         (PStr (rv_frame_id m)) (Instance l) (Instance c) (Instance r) (PFloat (rv_heading m))
         (PBytes (rv_simulation_session_id m)) (PBytes (rv_descriptor_sha256 m)))))"

definition lidar_point_of_message :: "lidar_point \<Rightarrow> (exc, lidar_point) res" where
  "lidar_point_of_message p =
     mk_lidar_point_v2 (PInt (lp_offset_time_ns p)) (PFloat (lp_x p)) (PFloat (lp_y p)) (PFloat (lp_z p))
       (PInt (lp_reflectivity p)) (PInt (lp_tag p)) (PInt (lp_line p))"

definition cloud_of_message :: "lidar_point_cloud_v2 \<Rightarrow> (exc, lidar_point_cloud_v2) res" where
  "cloud_of_message m =
     bind_res (map_res lidar_point_of_message (lv_points m)) (\<lambda>ps.
       mk_lidar_point_cloud_v2 (PInt (lv_timebase_ns m)) (PStr (lv_frame_id m)) (PInt (lv_point_num m))
         (PInt (lv_lidar_id m)) (Some (map Instance ps)) (PInt (lv_sequence m)) (PInt (lv_world_generation m))
         (PBytes (lv_simulation_session_id m)) (PBytes (lv_descriptor_sha256 m)))"

fun model_of_message :: "wire_message \<Rightarrow> (exc, v2_model) res" where
  "model_of_message (WmCommand m) = bind_res (command_of_message m) (\<lambda>c. Inr (VmCommand c))"
| "model_of_message (WmState m) = bind_res (state_of_message m) (\<lambda>s. Inr (VmState s))"
| "model_of_message (WmImu m) = bind_res (imu_of_message m) (\<lambda>i. Inr (VmImu i))"
| "model_of_message (WmRtk m) = bind_res (rtk_of_message m) (\<lambda>r. Inr (VmRtk r))"
| "model_of_message (WmCloud m) = bind_res (cloud_of_message m) (\<lambda>c. Inr (VmCloud c))"

definition v2_decode ::
  "(message_type \<Rightarrow> bytes \<Rightarrow> wire_message option) \<Rightarrow> descriptor_identity \<Rightarrow> message_type \<Rightarrow> pyval \<Rightarrow> (exc, v2_model) res" where
  \<comment> \<open>\<^verbatim>\<open>decode_wheel_command\<close> and its four siblings, by the type of the message\<close>
  "v2_decode parse descriptor t payload = bind_res (v2_parse parse descriptor t payload) model_of_message"

subsection \<open>Constructors on well-formed fields\<close>

lemma nonempty_str_id: "s \<noteq> [] \<Longrightarrow> nonempty_str m (PStr s) = Inr s"
  by (cases s) simp_all

lemma fixed_bytes_id: "length b = n \<Longrightarrow> require_fixed_bytes name (PBytes b) n = Inr b"
  by (simp add: require_fixed_bytes_Inr)

lemma uint_id: "0 \<le> n \<Longrightarrow> n \<le> mx \<Longrightarrow> require_uint name (PInt n) mx = Inr n"
  by (simp add: require_uint_Inr)

lemma generation_id: "1 \<le> n \<Longrightarrow> n \<le> uint64_max \<Longrightarrow> require_generation name (PInt n) = Inr n"
  by (simp add: require_generation_Inr)

lemmas field_ids = nonempty_str_id fixed_bytes_id uint_id generation_id require_float_tuple_floats require_float32_id

lemma command_of_message_id: "wf_command_v2 c \<Longrightarrow> command_of_message c = Inr c"
  by (simp add: command_of_message_def mk_wheel_command_v2_def wf_command_v2_def wf_identity_def field_ids)

lemma imu_of_message_id: "wf_imu_v2 m \<Longrightarrow> imu_of_message m = Inr m"
  by (simp add: imu_of_message_def mk_imu_attitude_v2_def wf_imu_v2_def wf_identity_def field_ids)

lemma point_of_message_id: "wf_point3d_v2 p \<Longrightarrow> point_of_message p = Inr p"
  by (simp add: point_of_message_def mk_point3d_v2_def wf_point3d_v2_def)

lemma rtk_of_message_id: "wf_rtk_v2 m \<Longrightarrow> rtk_of_message m = Inr m"
  by (simp add: rtk_of_message_def mk_rtk_state_v2_def wf_rtk_v2_def wf_identity_def field_ids point_of_message_id)

lemma lidar_point_of_message_id: "wf_lidar_point_v2 p \<Longrightarrow> lidar_point_of_message p = Inr p"
  by (simp add: lidar_point_of_message_def mk_lidar_point_v2_def wf_lidar_point_v2_def field_ids)

lemma map_the_instance [simp]: "map (the_instance \<circ> Instance) ps = ps" "Foreign \<notin> Instance ` A"
  by (induction ps) auto

lemma cloud_of_message_id: "wf_cloud_v2 m \<Longrightarrow> cloud_of_message m = Inr m"
  using map_res_cong_Inr [of "lv_points m" lidar_point_of_message id]
  by (simp add: cloud_of_message_def mk_lidar_point_cloud_v2_def wf_cloud_v2_def wf_identity_def field_ids
      lidar_point_of_message_id list_all_iff)

lemma authority_state_code_inverse [simp]: "authority_state_of_code (authority_state_code st) = Inr st"
  by (cases st) (simp_all add: authority_state_of_code_def)

lemma state_of_message_id:
  assumes "wf_state_v2 s" and "sv_owner_source_id s = PStr owner"
  shows "bind_res (message_of (\<lambda>x. x) (VmState s)) model_of_message = Inr (VmState s)"
  using assms
  by (auto simp add: state_of_message_def mk_wheel_state_v2_def wf_state_v2_def wf_identity_def field_ids
      check_state_owner_Inr bind_res_Inr_iff split: if_splits)

subsection \<open>Round trip\<close>

fun wf_model :: "v2_model \<Rightarrow> bool" where
  "wf_model (VmCommand c) = wf_command_v2 c"
| "wf_model (VmState s) = wf_state_v2 s"
| "wf_model (VmImu m) = wf_imu_v2 m"
| "wf_model (VmRtk m) = wf_rtk_v2 m"
| "wf_model (VmCloud m) = wf_cloud_v2 m"
| "wf_model (VmOther _) = False"

fun model_sha :: "v2_model \<Rightarrow> bytes" where
  "model_sha (VmCommand c) = cv_descriptor_sha256 c"
| "model_sha (VmState s) = sv_descriptor_sha256 s"
| "model_sha (VmImu m) = iv_descriptor_sha256 m"
| "model_sha (VmRtk m) = rv_descriptor_sha256 m"
| "model_sha (VmCloud m) = lv_descriptor_sha256 m"
| "model_sha (VmOther _) = []"

fun wire_exact :: "v2_model \<Rightarrow> bool" where
  \<comment> \<open>the fields whose type on the wire is narrower hold values it represents\<close>
  "wire_exact (VmCommand c) = (list_all is_float32 (cv_drive c) \<and> list_all is_float32 (cv_steering c))"
| "wire_exact (VmState s) =
     (list_all is_float32 (sv_drive s) \<and> list_all is_float32 (sv_steering_angle s)
      \<and> (\<exists>owner. sv_owner_source_id s = PStr owner))"
| "wire_exact _ = True"

lemma map_narrow_id: "(\<And>x. is_float32 x \<Longrightarrow> narrow x = x) \<Longrightarrow> list_all is_float32 xs \<Longrightarrow> map narrow xs = xs"
  by (induction xs) simp_all

lemma narrow_points_id:
  assumes "\<And>x. is_float32 x \<Longrightarrow> narrow x = x" and "list_all wf_lidar_point_v2 ps"
  shows "map (narrow_point narrow) ps = ps"
  using assms(2) by (induction ps) (simp_all add: narrow_point_def wf_lidar_point_v2_def assms(1))

lemma message_of_exact:
  assumes "\<And>x. is_float32 x \<Longrightarrow> narrow x = x" and "wf_model m" and "wire_exact m"
  shows "message_of narrow m = message_of (\<lambda>x. x) m"
  using assms(2,3)
  by (cases m) (auto simp: map_narrow_id [OF assms(1)] narrow_points_id [OF assms(1)] narrow_points_id [of "\<lambda>x. x"]
      wf_cloud_v2_def)

lemma model_of_exact_message:
  assumes "wf_model m" and "wire_exact m"
  shows "bind_res (message_of (\<lambda>x. x) m) model_of_message = Inr m"
proof (cases m)
  case (VmState st)
  with assms obtain owner where "wf_state_v2 st" "sv_owner_source_id st = PStr owner" by auto
  with VmState state_of_message_id show ?thesis by blast
next
  case (VmCloud c)
  with assms have "map (narrow_point (\<lambda>x. x)) (lv_points c) = lv_points c"
    by (intro narrow_points_id) (simp_all add: wf_cloud_v2_def)
  with VmCloud assms show ?thesis by (simp add: cloud_of_message_id)
qed (use assms in \<open>simp_all add: command_of_message_id imu_of_message_id rtk_of_message_id\<close>)

lemma message_identity:
  "message_of narrow m = Inr w \<Longrightarrow> message_sha w = model_sha m"
  by (cases m) (auto simp: bind_res_Inr_iff)

lemma message_session_16: "message_of narrow m = Inr w \<Longrightarrow> wf_model m \<Longrightarrow> length (message_session w) = 16"
  by (cases m) (auto simp: bind_res_Inr_iff wf_command_v2_def wf_state_v2_def wf_imu_v2_def wf_rtk_v2_def
      wf_cloud_v2_def wf_identity_def)

text \<open>
  C34. What the codec encodes it decodes: for every kind of message, a well-formed model whose wheel
  speeds are 32-bit floats (the wire type), encoded under a descriptor, is decoded from the payload
  under that descriptor as exactly the same model, and the frame carries the type name of its kind;
  given that the protobuf library parses what it serialised and keeps 32-bit floats as they are.
\<close>

theorem v2_codec_round_trip:
  assumes "\<And>x. is_float32 x \<Longrightarrow> narrow x = x"
    and "\<And>w. message_of narrow model = Inr w \<Longrightarrow> parse (message_type_of w) (serialize w) = Some w"
    and "wf_model model" and "wire_exact model" and "v2_encode narrow serialize digest descriptor model = Inr frame"
  shows "\<exists>t. ef_type_name frame = full_name t \<and> v2_decode parse descriptor t (PBytes (ef_payload frame)) = Inr model"
proof -
  from assms(5) obtain w where w: "message_of narrow model = Inr w" "message_sha w = di_sha256 descriptor"
    and frame: "ef_type_name frame = full_name (message_type_of w)" "ef_payload frame = serialize w"
    by (auto simp: v2_encode_def bind_res_Inr_iff ensure_Inr_iff Let_def)
  have "message_of (\<lambda>x. x) model = Inr w"
    by (rule trans [OF sym [OF message_of_exact [OF assms(1,3,4)]] w(1)])
  with model_of_exact_message [OF assms(3,4)] have "model_of_message w = Inr model" by simp
  moreover have "v2_parse parse descriptor (message_type_of w) (PBytes (serialize w)) = Inr w"
    using assms(2) [OF w(1)] w message_session_16 [OF w(1) assms(3)] by (simp add: v2_parse_def)
  ultimately have "v2_decode parse descriptor (message_type_of w) (PBytes (ef_payload frame)) = Inr model"
    by (simp add: v2_decode_def frame)
  with frame(1) show ?thesis by blast
qed

lemma command_of_message_wf: "command_of_message m = Inr c \<Longrightarrow> wf_command_v2 c \<and> cv_descriptor_sha256 c = cv_descriptor_sha256 m"
  unfolding command_of_message_def
  by (frule mk_wheel_command_v2_wf) (auto simp: mk_wheel_command_v2_def res_simps)

lemma state_of_message_wf: "state_of_message m = Inr s \<Longrightarrow> wf_state_v2 s \<and> sv_descriptor_sha256 s = wm_descriptor_sha256 m"
  unfolding state_of_message_def
  by (cases "authority_state_of_code (wm_authority_state m)")
    (auto dest: mk_wheel_state_v2_wf, auto simp: mk_wheel_state_v2_def res_simps)

lemma imu_of_message_wf: "imu_of_message m = Inr i \<Longrightarrow> wf_imu_v2 i \<and> iv_descriptor_sha256 i = iv_descriptor_sha256 m"
  unfolding imu_of_message_def
  by (frule mk_imu_attitude_v2_wf) (auto simp: mk_imu_attitude_v2_def res_simps)

lemma rtk_of_message_wf:
  assumes "rtk_of_message m = Inr r"
  shows "wf_rtk_v2 r \<and> rv_descriptor_sha256 r = rv_descriptor_sha256 m"
proof -
  from assms obtain a b c where "point_of_message (rv_left m) = Inr a" "point_of_message (rv_center m) = Inr b"
    "point_of_message (rv_right m) = Inr c" by (auto simp: rtk_of_message_def res_simps)
  moreover from this have "wf_point3d_v2 a" "wf_point3d_v2 b" "wf_point3d_v2 c"
    by (auto simp: point_of_message_def dest: mk_point3d_v2_wf)
  ultimately show ?thesis using assms
    by (auto simp: rtk_of_message_def mk_rtk_state_v2_def wf_rtk_v2_def wf_identity_def res_simps
        dest: require_finite_float_finite)
qed

lemma cloud_of_message_wf:
  assumes "cloud_of_message m = Inr c"
  shows "wf_cloud_v2 c \<and> lv_descriptor_sha256 c = lv_descriptor_sha256 m"
proof -
  from assms obtain ps where ps: "map_res lidar_point_of_message (lv_points m) = Inr ps"
    by (auto simp: cloud_of_message_def res_simps)
  have "list_all wf_lidar_point_v2 ps"
    using map_res_origin [OF ps] mk_lidar_point_v2_wf unfolding list_all_iff lidar_point_of_message_def by metis
  with ps assms show ?thesis
    by (auto simp: cloud_of_message_def mk_lidar_point_cloud_v2_def wf_cloud_v2_def wf_identity_def res_simps)
qed

lemma model_of_message_wf: "model_of_message w = Inr m \<Longrightarrow> wf_model m \<and> model_sha m = message_sha w"
  by (cases w) (auto simp: res_simps dest: command_of_message_wf state_of_message_wf imu_of_message_wf
      rtk_of_message_wf cloud_of_message_wf)

text \<open>
  C35. The decoder only lets well-formed messages of its own descriptor through, whatever the bytes
  and whatever the protobuf library makes of them: a decoded model satisfies every check of its
  constructor and carries the decoder's descriptor hash, and a decoder for any other descriptor
  refuses the same payload with a ValueError.
\<close>

theorem v2_decode_own_descriptor:
  assumes "v2_decode parse descriptor t payload = Inr model"
  shows "wf_model model \<and> model_sha model = di_sha256 descriptor
    \<and> (di_sha256 other \<noteq> di_sha256 descriptor \<longrightarrow>
        v2_decode parse other t payload = Inl (value_error ''v2 descriptor SHA-256 mismatch''))"
proof -
  from assms obtain w where w: "v2_parse parse descriptor t payload = Inr w" "model_of_message w = Inr model"
    by (auto simp: v2_decode_def res_simps)
  from w(1) obtain b where b: "bytes_like payload = Some b" "parse t b = Some w" "message_sha w = di_sha256 descriptor"
    by (auto simp: v2_parse_def res_simps split: option.splits)
  then have "di_sha256 other \<noteq> di_sha256 descriptor \<Longrightarrow>
      v2_decode parse other t payload = Inl (value_error ''v2 descriptor SHA-256 mismatch'')"
    by (auto simp: v2_decode_def v2_parse_def)
  with model_of_message_wf [OF w(2)] b(3) show ?thesis by simp
qed

definition example_imu :: imu_attitude_v2 where
  "example_imu = \<lparr>iv_timestamp_ns = 7, iv_roll = Fin (1/2), iv_pitch = Fin 0, iv_sequence = 3, iv_world_generation = 1,
     iv_frame_id = ''base_link'', iv_simulation_session_id = replicate 16 1, iv_descriptor_sha256 = replicate 32 2\<rparr>"

definition example_descriptor :: descriptor_identity where
  "example_descriptor = \<lparr>di_payload = [], di_sha256 = replicate 32 2\<rparr>"

abbreviation (input) narrow_single :: "pyfloat \<Rightarrow> pyfloat" where
  "narrow_single x \<equiv> (case x of Fin q \<Rightarrow> (case pack_float32 q of Some r \<Rightarrow> Fin r | None \<Rightarrow> PosInf) | y \<Rightarrow> y)"

theorem v2_codec_round_trip_witness:
  "\<exists>t. v2_decode (\<lambda>_ b. if b = [9] then Some (WmImu example_imu) else None) example_descriptor t (PBytes [9])
     = Inr (VmImu example_imu)"
proof -
  let ?parse = "\<lambda>_ b. if b = [9] then Some (WmImu example_imu) else None"
  have wf: "wf_model (VmImu example_imu)" by (simp add: example_imu_def wf_imu_v2_def wf_identity_def)
  have narrow: "narrow_single x = x" if "is_float32 x" for x using that by (auto simp: is_float32_def)
  have encoded: "v2_encode narrow_single (\<lambda>_. [9]) (\<lambda>b. b) example_descriptor (VmImu example_imu)
      = Inr \<lparr>ef_type_name = full_name MtImu, ef_payload = [9], ef_payload_sha256 = [9]\<rparr>"
    by (simp add: v2_encode_def example_imu_def example_descriptor_def Let_def)
  from v2_codec_round_trip [where parse = ?parse, OF narrow _ wf _ encoded] show ?thesis by auto
qed

theorem v2_decode_own_descriptor_witness:
  "v2_decode (\<lambda>_ b. Some (WmImu example_imu)) (example_descriptor\<lparr>di_sha256 := replicate 32 3\<rparr>) MtImu (PBytes [])
     = Inl (value_error ''v2 descriptor SHA-256 mismatch'')"
proof -
  have "wf_imu_v2 example_imu" by (simp add: example_imu_def wf_imu_v2_def wf_identity_def)
  then have "v2_decode (\<lambda>_ b. Some (WmImu example_imu)) example_descriptor MtImu (PBytes []) = Inr (VmImu example_imu)"
    using imu_of_message_id [of example_imu]
    by (simp add: v2_decode_def v2_parse_def example_descriptor_def, simp add: example_imu_def)
  from v2_decode_own_descriptor [OF this, of "example_descriptor\<lparr>di_sha256 := replicate 32 3\<rparr>"]
  show ?thesis by (simp add: example_descriptor_def numeral_eq_Suc)
qed

end
