(* ===== verification/CommandReceiver.thy ===== *)
theory CommandReceiver
  imports PyValues "HOL-Library.Word"
begin

text \<open>
  The command receiver of \<^verbatim>\<open>slope_sim/interfaces/v2/runsim_command_receiver.py\<close>: a process outside the
  GUI stores the newest command payload in shared memory, and the physics thread takes a snapshot of it.
  The shared cells keep their C widths; each side's critical section is one operation.
\<close>

subsection \<open>Shared memory and its two sides\<close>

definition max_command_payload_bytes :: nat where
  "max_command_payload_bytes = 65536"

record receiver_memory =
  sm_buffer :: bytes
  sm_length :: "32 word"
  sm_version :: "64 word"
  sm_received_at :: pyfloat

definition new_receiver_memory :: receiver_memory where
  "new_receiver_memory = \<lparr>sm_buffer = replicate max_command_payload_bytes 0, sm_length = 0, sm_version = 0,
     sm_received_at = f_zero\<rparr>"

definition store_latest :: "bytes \<Rightarrow> pyval \<Rightarrow> (exc, receiver_memory, unit) op" where
  \<comment> \<open>the slice assignment overwrites a prefix; a time that is no float leaves the prefix written\<close>
  "store_latest wire observed_at m =
     (if length wire > max_command_payload_bytes
      then (Inl (value_error ''WheelCommand payload exceeds shared buffer''), m)
      else let m1 = m\<lparr>sm_buffer := wire @ drop (length wire) (sm_buffer m), sm_length := of_nat (length wire)\<rparr>
           in case py_float observed_at of
                Inl e \<Rightarrow> (Inl e, m1)
              | Inr t \<Rightarrow> (Inr (), m1\<lparr>sm_received_at := t, sm_version := sm_version m + 1\<rparr>))"

datatype receiver_status = StatusEof | StatusReport string

record receiver_handle =
  rh_closed :: bool
  rh_status :: "receiver_status option"  \<comment> \<open>what the status pipe holds\<close>
  rh_alive :: bool

definition receiver_running :: "receiver_handle \<Rightarrow> (exc, unit) res" where
  "receiver_running h =
     (if rh_closed h then Inl (runtime_error ''Command receiver is closed'')
      else case rh_status h of
             Some StatusEof \<Rightarrow> Inl (runtime_error ''Command receiver exited unexpectedly'')
           | Some (StatusReport detail) \<Rightarrow> Inl (runtime_error (''Command receiver failed: '' @ detail))
           | None \<Rightarrow> ensure (rh_alive h) (runtime_error ''Command receiver exited unexpectedly'') (Inr ()))"

definition take_latest ::
  "pyval \<Rightarrow> receiver_handle \<Rightarrow> receiver_memory \<Rightarrow> (exc, (int \<times> bytes \<times> pyfloat) option) res" where
  "take_latest after_version h m =
     (case as_int after_version of
        None \<Rightarrow> Inl (value_error ''after_version must be a nonnegative int'')
      | Some after \<Rightarrow>
          ensure (0 \<le> after) (value_error ''after_version must be a nonnegative int'')
          (bind_res (receiver_running h) (\<lambda>_.
             let version = uint (sm_version m)
             in if version \<le> after then Inr None
                else Inr (Some (version, take (unat (sm_length m)) (sm_buffer m), sm_received_at m)))))"

definition receiver_close :: "bool \<Rightarrow> receiver_handle \<Rightarrow> receiver_handle" where
  \<comment> \<open>whether the process outlived the stop event, the join and the terminate\<close>
  "receiver_close alive h = (if rh_closed h then h else h\<lparr>rh_closed := True, rh_alive := alive\<rparr>)"

subsection \<open>Any interleaving of callbacks and takes\<close>

text \<open>
  The history lists what the callback stored, in order; the physics thread remembers the last version
  it took, as \<^verbatim>\<open>V2ManualWorldRuntime.command_decision\<close> does, and the frames it got are collected.
\<close>

datatype receiver_event = Stored bytes pyval | Taken

type_synonym received = "(int \<times> bytes \<times> pyfloat) list"

record receiver_system =
  ry_memory :: receiver_memory
  ry_after :: int
  ry_history :: "(bytes \<times> pyfloat) list"
  ry_received :: received

definition new_receiver_system :: receiver_system where
  "new_receiver_system = \<lparr>ry_memory = new_receiver_memory, ry_after = 0, ry_history = [], ry_received = []\<rparr>"

fun receiver_do :: "receiver_handle \<Rightarrow> receiver_event \<Rightarrow> receiver_system \<Rightarrow> receiver_system" where
  "receiver_do h (Stored wire t) y =
     (case store_latest wire t (ry_memory y) of
        (Inr u, m) \<Rightarrow> y\<lparr>ry_memory := m, ry_history := ry_history y @ [(wire, sm_received_at m)]\<rparr>
      | (Inl e, m) \<Rightarrow> y\<lparr>ry_memory := m\<rparr>)"
| "receiver_do h Taken y =
     (case take_latest (PInt (ry_after y)) h (ry_memory y) of
        Inr (Some (v, frame)) \<Rightarrow> y\<lparr>ry_after := v, ry_received := ry_received y @ [(v, frame)]\<rparr>
      | _ \<Rightarrow> y)"

definition receiver_run :: "receiver_handle \<Rightarrow> receiver_event list \<Rightarrow> receiver_system \<Rightarrow> receiver_system" where
  "receiver_run h es y = fold (receiver_do h) es y"

definition timed :: "receiver_event \<Rightarrow> bool" where
  \<comment> \<open>the transport stamps each payload with a float\<close>
  "timed e \<longleftrightarrow> (\<forall>wire t. e = Stored wire t \<longrightarrow> returns (py_float t))"

definition memory_holds :: "(bytes \<times> pyfloat) list \<Rightarrow> receiver_memory \<Rightarrow> bool" where
  "memory_holds history m \<longleftrightarrow>
     length (sm_buffer m) = max_command_payload_bytes \<and> sm_version m = of_nat (length history)
     \<and> (history \<noteq> [] \<longrightarrow> (take (unat (sm_length m)) (sm_buffer m), sm_received_at m) = last history)"

definition receiver_inv :: "receiver_system \<Rightarrow> bool" where
  "receiver_inv y \<longleftrightarrow>
     memory_holds (ry_history y) (ry_memory y) \<and> 0 \<le> ry_after y \<and> ry_after y \<le> int (length (ry_history y))
     \<and> sorted_wrt (<) (map fst (ry_received y)) \<and> (\<forall>(v, frame) \<in> set (ry_received y).
          1 \<le> v \<and> v \<le> ry_after y \<and> ry_history y ! (nat v - 1) = frame)"

lemma store_latest_holds:
  assumes "memory_holds history m" and "store_latest wire t m = (r, m')" and "returns (py_float t)"
  shows "case r of Inr u \<Rightarrow> memory_holds (history @ [(wire, sm_received_at m')]) m' | Inl e \<Rightarrow> m' = m"
proof (cases "length wire > max_command_payload_bytes")
  case True
  with assms(2) show ?thesis by (auto simp: store_latest_def)
next
  case False
  from assms(3) obtain x where "py_float t = Inr x" by (auto simp: returns_iff)
  with assms(2) False have r: "r = Inr ()" "m' = m\<lparr>sm_buffer := wire @ drop (length wire) (sm_buffer m),
      sm_length := of_nat (length wire), sm_received_at := x, sm_version := sm_version m + 1\<rparr>"
    by (auto simp: store_latest_def Let_def)
  have "unat (of_nat (length wire) :: 32 word) = length wire"
    using False by (simp add: max_command_payload_bytes_def unat_of_nat)
  with r False assms(1) show ?thesis
    by (simp add: memory_holds_def add.commute)
qed

lemma take_latest_holds:
  assumes "memory_holds history m" and "length history < 2 ^ 64" and "0 \<le> after"
    and "receiver_running h = Inr ()"
  shows "take_latest (PInt after) h m =
    Inr (if int (length history) \<le> after then None else Some (int (length history), last history))"
proof -
  have v: "uint (sm_version m) = int (length history)"
    using assms(1,2) by (simp add: memory_holds_def uint_nat unat_of_nat)
  have "history \<noteq> []" if "\<not> int (length history) \<le> after" using that assms(3) by auto
  with assms v show ?thesis by (auto simp: take_latest_def memory_holds_def Let_def)
qed

lemma receiver_do_inv:
  assumes inv: "receiver_inv y" and "timed e" and small: "length (ry_history y) < 2 ^ 64"
    and running: "receiver_running h = Inr ()"
  shows "receiver_inv (receiver_do h e y)"
proof (cases e)
  case (Stored wire t)
  obtain r m' where s: "store_latest wire t (ry_memory y) = (r, m')" by fastforce
  have t: "returns (py_float t)" using \<open>timed e\<close> Stored by (simp add: timed_def)
  have holds: "memory_holds (ry_history y) (ry_memory y)" using inv by (simp add: receiver_inv_def)
  note stored = store_latest_holds [OF holds s t]
  show ?thesis
  proof (cases r)
    case (Inl e')
    with stored s Stored inv show ?thesis by simp
  next
    case (Inr u)
    let ?h = "ry_history y @ [(wire, sm_received_at m')]"
    have old: "?h ! (nat v - 1) = ry_history y ! (nat v - 1)" if "1 \<le> v" "v \<le> ry_after y" for v
      using that inv by (auto simp: receiver_inv_def nth_append)
    have "receiver_inv (y\<lparr>ry_memory := m', ry_history := ?h\<rparr>)"
      using inv stored Inr old by (fastforce simp: receiver_inv_def)
    with Stored s Inr show ?thesis by simp
  qed
next
  case Taken
  let ?n = "int (length (ry_history y))"
  have holds: "memory_holds (ry_history y) (ry_memory y)" and after: "0 \<le> ry_after y"
    using inv by (simp_all add: receiver_inv_def)
  note taken = take_latest_holds [OF holds small after running]
  show ?thesis
  proof (cases "?n \<le> ry_after y")
    case True
    with taken Taken inv show ?thesis by simp
  next
    case False
    then have "ry_history y \<noteq> []" using after by auto
    then have newest: "ry_history y ! (nat ?n - 1) = last (ry_history y)" by (simp add: last_conv_nth)
    have fresh: "v < ?n" if "(v, frame) \<in> set (ry_received y)" for v frame
      using that inv False by (auto simp: receiver_inv_def)
    have do_it: "receiver_do h e y = y\<lparr>ry_after := ?n, ry_received := ry_received y @ [(?n, last (ry_history y))]\<rparr>"
      using taken False Taken by (cases "last (ry_history y)") simp
    have "sorted_wrt (<) (map fst (ry_received y @ [(?n, last (ry_history y))]))"
      using inv fresh by (auto simp: receiver_inv_def sorted_wrt_append)
    moreover have "1 \<le> ?n" using \<open>ry_history y \<noteq> []\<close> by (cases "ry_history y") auto
    ultimately show ?thesis
      using inv newest fresh holds unfolding do_it by (fastforce simp: receiver_inv_def)
  qed
qed

lemma receiver_do_history: "length (ry_history y) \<le> length (ry_history (receiver_do h e y))"
  by (cases e) (auto split: prod.split sum.split option.split)

lemma receiver_run_history: "length (ry_history y) \<le> length (ry_history (receiver_run h es y))"
proof (induction es arbitrary: y)
  case (Cons e es)
  from receiver_do_history [of y h e] Cons.IH [of "receiver_do h e y"] show ?case
    unfolding receiver_run_def by simp
qed (simp add: receiver_run_def)

lemma receiver_run_inv:
  assumes "receiver_inv y" and "list_all timed es" and "length (ry_history (receiver_run h es y)) < 2 ^ 64"
    and "receiver_running h = Inr ()"
  shows "receiver_inv (receiver_run h es y)"
  using assms
proof (induction es arbitrary: y)
  case (Cons e es)
  have "length (ry_history y) \<le> length (ry_history (receiver_run h (e # es) y))" by (rule receiver_run_history)
  with Cons.prems receiver_do_inv [of y e h] show ?case by (auto simp: receiver_run_def intro: Cons.IH [unfolded receiver_run_def])
qed (simp add: receiver_run_def)

lemma new_receiver_system_inv: "receiver_inv new_receiver_system"
  by (simp add: receiver_inv_def new_receiver_system_def memory_holds_def new_receiver_memory_def)

text \<open>
  C9. Latest only and never torn: however callbacks and takes interleave, the versions the physics
  thread gets strictly increase, each with exactly the payload and time stored under that version, and
  a take at the end gives the newest payload unless that one was already taken.
\<close>

theorem receiver_latest_only:
  assumes "list_all timed es" and "receiver_running h = Inr ()" and "y = receiver_run h es new_receiver_system"
    and "length (ry_history y) < 2 ^ 64"
  shows "sorted_wrt (<) (map fst (ry_received y))
    \<and> (\<forall>(v, frame) \<in> set (ry_received y). 1 \<le> v \<and> nat v \<le> length (ry_history y) \<and> ry_history y ! (nat v - 1) = frame)
    \<and> take_latest (PInt (ry_after y)) h (ry_memory y)
        = Inr (if int (length (ry_history y)) \<le> ry_after y then None
               else Some (int (length (ry_history y)), last (ry_history y)))"
proof -
  have inv: "receiver_inv y"
    using receiver_run_inv [OF new_receiver_system_inv assms(1) _ assms(2)] assms(3,4) by simp
  then have "take_latest (PInt (ry_after y)) h (ry_memory y)
        = Inr (if int (length (ry_history y)) \<le> ry_after y then None
               else Some (int (length (ry_history y)), last (ry_history y)))"
    using assms(2,4) by (intro take_latest_holds) (simp_all add: receiver_inv_def)
  with inv show ?thesis by (auto simp: receiver_inv_def)
qed


subsection \<open>The property at work\<close>

definition example_receiver_events :: "receiver_event list" where
  "example_receiver_events =
     [Stored [1, 2, 3] (PFloat (Fin 5)), Taken, Stored [4] (PFloat (Fin 6)), Stored [7, 8] (PFloat (Fin 7)), Taken, Taken]"

definition running_handle :: receiver_handle where
  "running_handle = \<lparr>rh_closed = False, rh_status = None, rh_alive = True\<rparr>"

theorem receiver_latest_only_witness:
  "take_latest (PInt 3) running_handle (ry_memory (receiver_run running_handle example_receiver_events new_receiver_system))
    = Inr None"
proof -
  let ?y = "receiver_run running_handle example_receiver_events new_receiver_system"
  have timed: "list_all timed example_receiver_events" by (simp add: example_receiver_events_def timed_def)
  have run: "receiver_running running_handle = Inr ()" by (simp add: receiver_running_def running_handle_def)
  have y: "ry_history ?y = [([1, 2, 3], Fin 5), ([4], Fin 6), ([7, 8], Fin 7)]" "ry_after ?y = 3"
    "ry_received ?y = [(1, [1, 2, 3], Fin 5), (3, [7, 8], Fin 7)]"
    by (simp_all add: receiver_run_def example_receiver_events_def new_receiver_system_def store_latest_def
        take_latest_def new_receiver_memory_def max_command_payload_bytes_def run Let_def)
  with receiver_latest_only [OF timed run refl] show ?thesis by simp
qed

end
