(* ===== verification/Authority.thy ===== *)
theory Authority
  imports Session
begin

text \<open>
  The command authority of \<^verbatim>\<open>slope_sim/interfaces/v2/authority.py\<close>: with exactly one peer on the
  command topic, the first valid command claims the right to drive, and that right is revoked by
  peer changes, protocol changes, world rebuilds and a second source.  The session object the
  authority shares with its owner is a field of its state; every public method holds the lock, so
  each is one atomic operation.
\<close>

subsection \<open>State\<close>

record authority =
  au_session :: protocol_session
  au_peer_count :: int
  au_state :: authority_state
  au_owner :: "(string \<times> bytes) option"
  au_last_sequence :: "int option"
  au_rebuild_prepared :: bool

record acceptance =
  ac_accepted :: bool
  ac_reason :: msg
  ac_clear_mailbox :: bool
  ac_safe_stop :: bool
  ac_claimed_owner :: bool

record authority_snapshot =
  as_state :: authority_state
  as_peer_count :: int
  as_command_generation :: int
  as_owner_source_id :: "string option"
  as_owner_source_session_id :: "bytes option"
  as_last_sequence :: "int option"

definition refusal :: "msg \<Rightarrow> acceptance" where
  \<comment> \<open>\<^verbatim>\<open>CommandAcceptance(False, reason)\<close>\<close>
  "refusal reason = \<lparr>ac_accepted = False, ac_reason = reason, ac_clear_mailbox = False,
     ac_safe_stop = False, ac_claimed_owner = False\<rparr>"

definition revocation :: "msg \<Rightarrow> acceptance" where
  \<comment> \<open>\<^verbatim>\<open>CommandAcceptance(False, reason, True, True)\<close>\<close>
  "revocation reason = \<lparr>ac_accepted = False, ac_reason = reason, ac_clear_mailbox = True,
     ac_safe_stop = True, ac_claimed_owner = False\<rparr>"

definition new_authority :: "protocol_session inst \<Rightarrow> (exc, authority) res" where
  "new_authority session =
     (case session of
        Foreign \<Rightarrow> Inl (value_error ''session must be a ProtocolSession'')
      | Instance s \<Rightarrow>
          Inr \<lparr>au_session = s, au_peer_count = 0, au_state = WAITING, au_owner = None,
               au_last_sequence = None, au_rebuild_prepared = False\<rparr>)"

definition authority_snapshot_of :: "authority \<Rightarrow> authority_snapshot" where
  "authority_snapshot_of a =
     \<lparr>as_state = au_state a, as_peer_count = au_peer_count a,
      as_command_generation = ps_command_generation (au_session a),
      as_owner_source_id = map_option fst (au_owner a),
      as_owner_source_session_id = map_option snd (au_owner a),
      as_last_sequence = au_last_sequence a\<rparr>"

subsection \<open>Revocation\<close>

definition unowned_state :: "int \<Rightarrow> authority_state" where
  "unowned_state peer_count =
     (if peer_count = 0 then WAITING else if peer_count = 1 then CLAIMABLE else CONFLICT)"

definition au_clear_owner :: "authority \<Rightarrow> authority" where
  "au_clear_owner a = a\<lparr>au_owner := None, au_last_sequence := None\<rparr>"

definition au_revoke :: "authority \<Rightarrow> authority" where
  \<comment> \<open>\<^verbatim>\<open>_clear_owner_locked()\<close> and then the state derived from the peer count\<close>
  "au_revoke a = (au_clear_owner a)\<lparr>au_state := unowned_state (au_peer_count a)\<rparr>"

definition with_session :: "(exc, protocol_session, 'a) op \<Rightarrow> (exc, authority, 'a) op" where
  \<comment> \<open>a call on the shared session\<close>
  "with_session f a = (case f (au_session a) of (r, s) \<Rightarrow> (r, a\<lparr>au_session := s\<rparr>))"

definition observe_peer_count :: "pyval \<Rightarrow> (exc, authority, acceptance) op" where
  "observe_peer_count count a =
     (case require_uint ''command_peer_count'' count uint32_max of
        Inl e \<Rightarrow> (Inl e, a)
      | Inr normalized \<Rightarrow>
          if au_peer_count a = 1 \<and> normalized \<noteq> 1
          then bind_op (with_session advance_command_generation)
                 (\<lambda>_ a1. (Inr (revocation (lit ''command peer edge'')),
                          au_revoke (a1\<lparr>au_peer_count := normalized\<rparr>))) a
          else
            let a1 = a\<lparr>au_peer_count := normalized\<rparr>
            in (Inr (refusal (lit ''peer observation'')),
                if normalized = 1
                then a1\<lparr>au_state := if au_owner a1 \<noteq> None then ACTIVE else CLAIMABLE\<rparr>
                else au_revoke a1))"

definition suspend_protocol :: "pyval \<Rightarrow> (exc, authority, acceptance) op" where
  "suspend_protocol count a =
     (case require_uint ''command_peer_count'' count uint32_max of
        Inl e \<Rightarrow> (Inl e, a)
      | Inr normalized \<Rightarrow>
          bind_op (with_session advance_command_generation)
            (\<lambda>_ a1. (Inr (revocation (lit ''command protocol suspended'')),
                     au_revoke (a1\<lparr>au_peer_count := normalized\<rparr>))) a)"

subsection \<open>Accepting a command\<close>

definition rejection_reason ::
  "wheel_command_v2 inst \<Rightarrow> robot_model_spec inst \<Rightarrow> authority \<Rightarrow> (exc, msg option) res" where
  "rejection_reason command model a =
     (case command of
        Foreign \<Rightarrow> Inr (Some (lit ''command must be a WheelCommandV2''))
      | Instance c \<Rightarrow>
     (case model of
        Foreign \<Rightarrow> Inr (Some (lit ''model must be a RobotModelSpec''))
      | Instance m \<Rightarrow>
          let s = au_session a
          in if cv_simulation_session_id c \<noteq> ps_simulation_session_id s
             then Inr (Some (lit ''simulation session does not match''))
             else if cv_descriptor_sha256 c \<noteq> di_sha256 (ps_descriptor s)
             then Inr (Some (lit ''descriptor SHA-256 does not match''))
             else if cv_world_generation c \<noteq> ps_world_generation s
             then Inr (Some (lit ''world generation does not match''))
             else if cv_command_generation c \<noteq> ps_command_generation s
             then Inr (Some (lit ''command generation does not match''))
             else if cv_robot_model c \<noteq> rm_name m
             then Inr (Some (lit ''robot model does not match''))
             else case bind_res (to_v1_motion c) (\<lambda>w. validate_wheel_command w m) of
                    Inl e \<Rightarrow> if is_value_error e then Inr (Some (exc_msg e)) else Inl e
                  | Inr _ \<Rightarrow> Inr None))"

definition command_owner :: "wheel_command_v2 \<Rightarrow> string \<times> bytes" where
  "command_owner c = (cv_source_id c, cv_source_session_id c)"

definition au_accept ::
  "wheel_command_v2 inst \<Rightarrow> robot_model_spec inst \<Rightarrow> (exc, 'm, bool) op
     \<Rightarrow> (exc, authority \<times> 'm, acceptance) op" where
  \<comment> \<open>\<open>commit\<close> is the callback, an operation on the caller's state\<close>
  "au_accept command model commit am =
     (let (a, mm) = am
      in if au_rebuild_prepared a then (Inr (refusal (lit ''world rebuild is prepared'')), am)
         else if au_peer_count a \<noteq> 1
         then (Inr (refusal (lit ''command peer count is not uniquely claimable'')), am)
         else case rejection_reason command model a of
                Inl e \<Rightarrow> (Inl e, am)
              | Inr (Some reason) \<Rightarrow> (Inr (refusal reason), am)
              | Inr None \<Rightarrow>
                  let c = the_instance command
                  in if au_owner a = None
                     then (case commit mm of
                             (Inl e, mm') \<Rightarrow> (Inl e, (a, mm'))
                           | (Inr False, mm') \<Rightarrow> (Inr (refusal (lit ''mailbox commit rejected'')), (a, mm'))
                           | (Inr True, mm') \<Rightarrow>
                               (Inr \<lparr>ac_accepted = True, ac_reason = lit ''command owner claimed'',
                                     ac_clear_mailbox = False, ac_safe_stop = False,
                                     ac_claimed_owner = True\<rparr>,
                                (a\<lparr>au_owner := Some (command_owner c),
                                   au_last_sequence := Some (cv_sequence c),
                                   au_state := ACTIVE\<rparr>, mm')))
                     else if Some (command_owner c) \<noteq> au_owner a
                     then (case with_session advance_command_generation a of
                             (Inl e, a1) \<Rightarrow> (Inl e, (a1, mm))
                           | (Inr _, a1) \<Rightarrow>
                               (Inr (revocation (lit ''command owner changed'')), (au_revoke a1, mm)))
                     else if cv_sequence c \<le> the (au_last_sequence a)
                     then (Inr (refusal (lit ''command sequence must advance'')), am)
                     else (case commit mm of
                             (Inl e, mm') \<Rightarrow> (Inl e, (a, mm'))
                           | (Inr False, mm') \<Rightarrow> (Inr (refusal (lit ''mailbox commit rejected'')), (a, mm'))
                           | (Inr True, mm') \<Rightarrow>
                               (Inr \<lparr>ac_accepted = True, ac_reason = lit ''command accepted'',
                                     ac_clear_mailbox = False, ac_safe_stop = False,
                                     ac_claimed_owner = False\<rparr>,
                                (a\<lparr>au_last_sequence := Some (cv_sequence c)\<rparr>, mm'))))"

subsection \<open>World rebuild\<close>

definition au_prepare_rebuild :: "(exc, authority, acceptance) op" where
  "au_prepare_rebuild =
     bind_op (with_session session_prepare_rebuild)
       (\<lambda>_ a. (Inr (revocation (lit ''world rebuild prepared'')),
               au_revoke (a\<lparr>au_rebuild_prepared := True\<rparr>)))"

definition au_commit_rebuild :: "(exc, authority, int) op" where
  "au_commit_rebuild =
     bind_op (with_session session_commit_rebuild)
       (\<lambda>generation a. (Inr generation, au_revoke (a\<lparr>au_rebuild_prepared := False\<rparr>)))"

definition au_abort_rebuild :: "(exc, authority, unit) op" where
  "au_abort_rebuild =
     bind_op (with_session session_abort_rebuild)
       (\<lambda>_ a. (Inr (), au_revoke (a\<lparr>au_rebuild_prepared := False\<rparr>)))"

definition au_fault_rebuild :: "(exc, authority, unit) op" where
  "au_fault_rebuild =
     bind_op (with_session session_fault_rebuild)
       (\<lambda>_ a. (Inr (), au_revoke (a\<lparr>au_rebuild_prepared := False\<rparr>)))"

definition enter_fatal :: "authority \<Rightarrow> authority" where
  "enter_fatal a = (au_clear_owner (a\<lparr>au_peer_count := 0\<rparr>))\<lparr>au_state := WAITING\<rparr>"

lemmas authority_op_defs = observe_peer_count_def suspend_protocol_def au_prepare_rebuild_def
  au_commit_rebuild_def au_abort_rebuild_def au_fault_rebuild_def with_session_def au_revoke_def
  au_clear_owner_def bind_op_def

subsection \<open>Invariant\<close>

definition authority_inv :: "authority \<Rightarrow> bool" where
  "authority_inv a \<longleftrightarrow>
     session_inv (au_session a)
     \<and> 0 \<le> au_peer_count a \<and> au_peer_count a \<le> uint32_max
     \<and> au_rebuild_prepared a = ps_rebuild_prepared (au_session a)
     \<and> (case au_owner a of
          None \<Rightarrow> au_last_sequence a = None \<and> au_state a = unowned_state (au_peer_count a)
        | Some (sid, ssid) \<Rightarrow>
            au_state a = ACTIVE \<and> au_peer_count a = 1 \<and> \<not> au_rebuild_prepared a
            \<and> source_id_ok sid \<and> length ssid = 16
            \<and> (\<exists>n. au_last_sequence a = Some n \<and> 0 \<le> n \<and> n \<le> uint64_max))"

lemma au_revoke_simps [simp]:
  "au_session (au_revoke a) = au_session a" "au_peer_count (au_revoke a) = au_peer_count a"
  "au_owner (au_revoke a) = None" "au_last_sequence (au_revoke a) = None"
  "au_rebuild_prepared (au_revoke a) = au_rebuild_prepared a"
  "au_state (au_revoke a) = unowned_state (au_peer_count a)"
  by (simp_all add: au_revoke_def au_clear_owner_def)

lemma au_revoke_inv:
  "session_inv (au_session a) \<Longrightarrow> 0 \<le> au_peer_count a \<Longrightarrow> au_peer_count a \<le> uint32_max \<Longrightarrow>
   au_rebuild_prepared a = ps_rebuild_prepared (au_session a) \<Longrightarrow> authority_inv (au_revoke a)"
  by (simp add: authority_inv_def)

lemma authority_inv_parts:
  assumes "authority_inv a"
  shows "session_inv (au_session a)" "0 \<le> au_peer_count a" "au_peer_count a \<le> uint32_max"
    "au_rebuild_prepared a = ps_rebuild_prepared (au_session a)"
  using assms unfolding authority_inv_def by blast+

lemma with_session_cases:
  obtains (error) e where "with_session f a = (Inl e, a\<lparr>au_session := snd (f (au_session a))\<rparr>)"
      "fst (f (au_session a)) = Inl e"
  | (ok) x where "with_session f a = (Inr x, a\<lparr>au_session := snd (f (au_session a))\<rparr>)"
      "fst (f (au_session a)) = Inr x"
  by (cases "f (au_session a)"; cases "fst (f (au_session a))") (auto simp: with_session_def)

lemma session_error_same:
  "fst (advance_command_generation s) = Inl e \<Longrightarrow> snd (advance_command_generation s) = s"
  "fst (session_prepare_rebuild s) = Inl e \<Longrightarrow> snd (session_prepare_rebuild s) = s"
  "fst (session_commit_rebuild s) = Inl e \<Longrightarrow> snd (session_commit_rebuild s) = s"
  "fst (session_abort_rebuild s) = Inl e \<Longrightarrow> snd (session_abort_rebuild s) = s"
  "fst (session_fault_rebuild s) = Inl e \<Longrightarrow> snd (session_fault_rebuild s) = s"
  by (auto simp: session_op_defs split: if_splits)

lemma session_prepared_after:
  "fst (session_prepare_rebuild s) = Inr x \<Longrightarrow> ps_rebuild_prepared (snd (session_prepare_rebuild s))"
  "fst (session_commit_rebuild s) = Inr x \<Longrightarrow> \<not> ps_rebuild_prepared (snd (session_commit_rebuild s))"
  "fst (session_abort_rebuild s) = Inr y \<Longrightarrow> \<not> ps_rebuild_prepared (snd (session_abort_rebuild s))"
  "fst (session_fault_rebuild s) = Inr y \<Longrightarrow> \<not> ps_rebuild_prepared (snd (session_fault_rebuild s))"
  "ps_rebuild_prepared (snd (advance_command_generation s)) = ps_rebuild_prepared s"
  by (auto simp: session_op_defs split: if_splits)

lemma revoking_op_inv:
  \<comment> \<open>a session call followed, when it returns, by a revocation\<close>
  assumes inv: "authority_inv a"
    and err: "\<And>e. fst (f (au_session a)) = Inl e \<Longrightarrow> snd (f (au_session a)) = au_session a"
    and sess: "session_inv (snd (f (au_session a)))"
    and ok: "\<And>x. fst (f (au_session a)) = Inr x \<Longrightarrow>
       au_session (g x (a\<lparr>au_session := snd (f (au_session a))\<rparr>)) = snd (f (au_session a))
       \<and> 0 \<le> au_peer_count (g x (a\<lparr>au_session := snd (f (au_session a))\<rparr>))
       \<and> au_peer_count (g x (a\<lparr>au_session := snd (f (au_session a))\<rparr>)) \<le> uint32_max
       \<and> au_rebuild_prepared (g x (a\<lparr>au_session := snd (f (au_session a))\<rparr>))
           = ps_rebuild_prepared (snd (f (au_session a)))"
  shows "authority_inv (snd (bind_op (with_session f) (\<lambda>x a1. (r x, au_revoke (g x a1))) a))"
proof (cases rule: with_session_cases [of f a])
  case (error e)
  with err [OF error(2)] inv show ?thesis by (simp add: bind_op_def)
next
  case (ok x)
  have "authority_inv (au_revoke (g x (a\<lparr>au_session := snd (f (au_session a))\<rparr>)))"
    using assms(4) [OF ok(2)] sess by (intro au_revoke_inv) auto
  with ok show ?thesis by (simp add: bind_op_def)
qed

lemma require_uint_range: "require_uint name v mx = Inr n \<Longrightarrow> 0 \<le> n \<and> n \<le> mx"
  by (auto simp: require_uint_def res_simps split: option.splits)

lemma new_authority_inv:
  "new_authority (Instance s) = Inr a \<Longrightarrow> session_inv s \<Longrightarrow> \<not> ps_rebuild_prepared s \<Longrightarrow> authority_inv a"
  by (auto simp: new_authority_def authority_inv_def unowned_state_def)

lemma suspend_protocol_inv [inv_intros]:
  assumes inv: "authority_inv a" shows "authority_inv (snd (suspend_protocol v a))"
proof (cases "require_uint ''command_peer_count'' v uint32_max")
  case (Inl e)
  with inv show ?thesis by (simp add: suspend_protocol_def)
next
  case (Inr n)
  note parts = authority_inv_parts [OF inv] require_uint_range [OF Inr]
  have "authority_inv (snd (bind_op (with_session advance_command_generation)
      (\<lambda>x a1. (Inr (revocation (lit ''command protocol suspended'')), au_revoke (a1\<lparr>au_peer_count := n\<rparr>))) a))"
    using parts by (intro revoking_op_inv inv)
      (simp_all add: advance_command_generation_inv session_prepared_after session_error_same)
  with Inr show ?thesis by (simp add: suspend_protocol_def)
qed

lemma observe_peer_count_inv [inv_intros]:
  assumes inv: "authority_inv a" shows "authority_inv (snd (observe_peer_count v a))"
proof (cases "require_uint ''command_peer_count'' v uint32_max")
  case (Inl e)
  with inv show ?thesis by (simp add: observe_peer_count_def)
next
  case (Inr n)
  note parts = authority_inv_parts [OF inv] require_uint_range [OF Inr]
  have edge: "authority_inv (snd (bind_op (with_session advance_command_generation)
      (\<lambda>x a1. (Inr (revocation (lit ''command peer edge'')), au_revoke (a1\<lparr>au_peer_count := n\<rparr>))) a))"
    using parts by (intro revoking_op_inv inv)
      (simp_all add: advance_command_generation_inv session_prepared_after session_error_same)
  have other: "authority_inv (au_revoke (a\<lparr>au_peer_count := n\<rparr>))"
    using parts by (intro au_revoke_inv) simp_all
  have one: "authority_inv (a\<lparr>au_peer_count := 1, au_state := if au_owner a \<noteq> None then ACTIVE else CLAIMABLE\<rparr>)"
    using inv by (auto simp: authority_inv_def unowned_state_def split: option.splits prod.splits)
  show ?thesis
    using edge other one Inr by (simp add: observe_peer_count_def Let_def)
qed

lemma au_rebuild_inv [inv_intros]:
  assumes inv: "authority_inv a"
  shows "authority_inv (snd (au_prepare_rebuild a))" "authority_inv (snd (au_commit_rebuild a))"
    "authority_inv (snd (au_abort_rebuild a))" "authority_inv (snd (au_fault_rebuild a))"
  unfolding au_prepare_rebuild_def au_commit_rebuild_def au_abort_rebuild_def au_fault_rebuild_def
  using authority_inv_parts [OF inv]
  by (intro revoking_op_inv inv; simp add: inv_intros session_prepared_after session_error_same)+

lemma enter_fatal_inv [inv_intros]: "authority_inv a \<Longrightarrow> authority_inv (enter_fatal a)"
  by (auto simp: authority_inv_def enter_fatal_def au_clear_owner_def unowned_state_def)

subsection \<open>The outcomes of accept\<close>

definition motion_of :: "wheel_command_v2 \<Rightarrow> wheel_command" where
  "motion_of c = \<lparr>wc_timestamp_ns = cv_timestamp_ns c, wc_drive = cv_drive c, wc_steering = cv_steering c\<rparr>"

lemma wf_motion_of: "wf_command_v2 c \<Longrightarrow> wf_wheel_command (motion_of c)"
  by (simp add: wf_command_v2_def wf_wheel_command_def motion_of_def)

lemma to_v1_motion_wf: "wf_command_v2 c \<Longrightarrow> to_v1_motion c = Inr (motion_of c)"
  using mk_wheel_command_id [OF wf_motion_of] by (simp add: to_v1_motion_def motion_of_def)

definition current_command :: "authority \<Rightarrow> robot_model_spec \<Rightarrow> wheel_command_v2 \<Rightarrow> bool" where
  \<comment> \<open>the command carries the identity of this session, world and token, and the vehicle accepts it\<close>
  "current_command a m c \<longleftrightarrow>
     cv_simulation_session_id c = ps_simulation_session_id (au_session a)
     \<and> cv_descriptor_sha256 c = di_sha256 (ps_descriptor (au_session a))
     \<and> cv_world_generation c = ps_world_generation (au_session a)
     \<and> cv_command_generation c = ps_command_generation (au_session a)
     \<and> cv_robot_model c = rm_name m \<and> accepts_command m (motion_of c)"

lemma rejection_reason_wf:
  assumes "wf_command_v2 c"
  shows "\<exists>r. rejection_reason (Instance c) (Instance m) a = Inr r \<and> (r = None \<longleftrightarrow> current_command a m c)"
proof (cases "validate_wheel_command (motion_of c) m")
  case (Inl e)
  then have "is_value_error e" "\<not> accepts_command m (motion_of c)"
    using validate_wheel_command_error [OF Inl] validate_wheel_command_iff [of "motion_of c" m "motion_of c"]
    by simp_all
  with Inl to_v1_motion_wf [OF assms] show ?thesis
    by (simp add: rejection_reason_def current_command_def Let_def)
next
  case (Inr w)
  then have "accepts_command m (motion_of c)" by (simp add: validate_wheel_command_iff)
  with Inr to_v1_motion_wf [OF assms] show ?thesis
    by (auto simp: rejection_reason_def current_command_def Let_def)
qed

lemma rejection_reason_InlD:
  "rejection_reason command model a = Inl e \<Longrightarrow> \<exists>c m. command = Instance c \<and> model = Instance m"
  by (auto simp: rejection_reason_def split: inst.splits)

definition may_commit :: "authority \<Rightarrow> wheel_command_v2 \<Rightarrow> bool" where
  \<comment> \<open>who may drive: anybody while unowned, afterwards the owner with a later sequence\<close>
  "may_commit a c \<longleftrightarrow>
     (au_owner a = None \<or> (au_owner a = Some (command_owner c) \<and> the (au_last_sequence a) < cv_sequence c))"

definition after_commit :: "authority \<Rightarrow> wheel_command_v2 \<Rightarrow> authority" where
  "after_commit a c = a\<lparr>au_owner := Some (command_owner c), au_last_sequence := Some (cv_sequence c),
     au_state := ACTIVE\<rparr>"

lemma authority_inv_owned_state: "authority_inv a \<Longrightarrow> au_owner a = Some x \<Longrightarrow> au_state a = ACTIVE"
  by (cases x) (simp add: authority_inv_def)

lemma au_accept_cases:
  assumes inv: "authority_inv a"
  obtains (refused) reason where "au_accept command model commit (a, mm) = (Inr (refusal reason), (a, mm))"
  | (raised) e where "au_accept command model commit (a, mm) = (Inl e, (a, mm))"
  | (uncommitted) c r mm' where "command = Instance c" "may_commit a c" "commit mm = (r, mm')" "r \<noteq> Inr True"
      "au_accept command model commit (a, mm)
        = (case r of Inl e \<Rightarrow> Inl e | Inr _ \<Rightarrow> Inr (refusal (lit ''mailbox commit rejected'')), (a, mm'))"
  | (accepted) c m mm' acc where "command = Instance c" "model = Instance m"
      "rejection_reason (Instance c) (Instance m) a = Inr None" "\<not> au_rebuild_prepared a"
      "au_peer_count a = 1" "may_commit a c" "commit mm = (Inr True, mm')"
      "ac_accepted acc" "\<not> ac_clear_mailbox acc"
      "au_accept command model commit (a, mm) = (Inr acc, (after_commit a c, mm'))"
  | (revoked) a1 g where "au_owner a \<noteq> None" "with_session advance_command_generation a = (Inr g, a1)"
      "au_accept command model commit (a, mm) = (Inr (revocation (lit ''command owner changed'')), (au_revoke a1, mm))"
proof (cases "au_rebuild_prepared a \<or> au_peer_count a \<noteq> 1")
  case True
  then have "au_accept command model commit (a, mm) = (Inr (refusal (if au_rebuild_prepared a
      then lit ''world rebuild is prepared'' else lit ''command peer count is not uniquely claimable'')), (a, mm))"
    by (auto simp: au_accept_def)
  then show thesis by (rule refused)
next
  case ready: False
  show thesis
  proof (cases "rejection_reason command model a")
    case (Inl e)
    with ready show thesis by (intro raised) (auto simp: au_accept_def)
  next
    case (Inr rs)
    show thesis
    proof (cases rs)
      case (Some reason)
      with ready Inr show thesis by (intro refused) (auto simp: au_accept_def)
    next
      case None
      with Inr obtain c m where cm: "command = Instance c" "model = Instance m"
        by (auto simp: rejection_reason_def split: inst.splits)
      have none: "rejection_reason (Instance c) (Instance m) a = Inr None" using Inr None cm by simp
      obtain r mm' where com: "commit mm = (r, mm')" by fastforce
      show thesis
      proof (cases "may_commit a c")
        case True
        have rdy: "\<not> au_rebuild_prepared a" "au_peer_count a = 1" using ready by simp_all
        have own: "au_owner a = None \<or> (au_owner a = Some (command_owner c)
            \<and> \<not> cv_sequence c \<le> the (au_last_sequence a))"
          using True by (auto simp: may_commit_def)
        show thesis
        proof (cases "r = Inr True")
          case yes: True
          define acc where "acc = \<lparr>ac_accepted = True,
            ac_reason = (if au_owner a = None then lit ''command owner claimed'' else lit ''command accepted''),
            ac_clear_mailbox = False, ac_safe_stop = False, ac_claimed_owner = (au_owner a = None)\<rparr>"
          have "au_accept command model commit (a, mm) = (Inr acc, (after_commit a c, mm'))"
          proof (cases "au_owner a = None")
            case True
            then show ?thesis by (simp add: au_accept_def rdy none cm com yes acc_def after_commit_def)
          next
            case False
            with own have o: "au_owner a = Some (command_owner c)" "\<not> cv_sequence c \<le> the (au_last_sequence a)"
              by auto
            have "after_commit a c = a\<lparr>au_last_sequence := Some (cv_sequence c)\<rparr>"
              using o authority_inv_owned_state [OF inv o(1)] by (simp add: after_commit_def)
            with o show ?thesis by (simp add: au_accept_def rdy none cm com yes acc_def)
          qed
          with True ready none cm com yes show thesis by (intro accepted) (auto simp: acc_def)
        next
          case no: False
          from no have r: "(\<exists>e. r = Inl e) \<or> r = Inr False" by (cases r) auto
          from r own
          have "au_accept command model commit (a, mm)
            = (case r of Inl e \<Rightarrow> Inl e | Inr _ \<Rightarrow> Inr (refusal (lit ''mailbox commit rejected'')), (a, mm'))"
            by (elim disjE exE conjE; simp add: au_accept_def rdy none cm com)
          with True no cm com show thesis by (intro uncommitted)
        qed
      next
        case nope: False
        show thesis
        proof (cases "au_owner a = Some (command_owner c)")
          case True
          with nope ready none cm show thesis
            by (intro refused [of "lit ''command sequence must advance''"]) (auto simp: au_accept_def may_commit_def)
        next
          case False
          with nope have owned: "au_owner a \<noteq> None" by (simp add: may_commit_def)
          show thesis
          proof (cases rule: with_session_cases [of advance_command_generation a])
            case (error e)
            with session_error_same(1) [OF error(2)] False owned ready none cm show thesis
              by (intro raised) (auto simp: au_accept_def)
          next
            case (ok g)
            with False owned ready none cm show thesis
              by (intro revoked [OF owned ok(1)]) (auto simp: au_accept_def)
          qed
        qed
      qed
    qed
  qed
qed

lemma after_commit_inv:
  assumes inv: "authority_inv a" and c: "wf_command_v2 c" "\<not> au_rebuild_prepared a" "au_peer_count a = 1"
  shows "authority_inv (after_commit a c)"
  using inv c by (simp add: authority_inv_def after_commit_def command_owner_def wf_command_v2_def wf_identity_def)

lemma with_session_advance:
  "with_session advance_command_generation a = (Inr g, a1) \<Longrightarrow>
     a1 = a\<lparr>au_session := (au_session a)\<lparr>ps_command_generation := ps_command_generation (au_session a) + 1\<rparr>\<rparr>
     \<and> ps_command_generation (au_session a) \<noteq> uint64_max"
  by (auto simp: with_session_def advance_command_generation_def Let_def split: if_splits)

definition v2_command_ok :: "wheel_command_v2 inst \<Rightarrow> bool" where
  "v2_command_ok cmd \<longleftrightarrow> (\<forall>c. cmd = Instance c \<longrightarrow> wf_command_v2 c)"

lemma au_accept_inv [inv_intros]:
  assumes inv: "authority_inv a" and cmd: "v2_command_ok command"
  shows "authority_inv (fst (snd (au_accept command model commit (a, mm))))"
using inv
proof (cases rule: au_accept_cases [where command = command and model = model and commit = commit and mm = mm])
  case (accepted c m mm' acc)
  with after_commit_inv [OF inv _ accepted(4,5), of c] cmd show ?thesis by (simp add: v2_command_ok_def)
next
  case (revoked a1 g)
  have "session_inv (au_session a1)"
    using advance_command_generation_inv [OF authority_inv_parts(1) [OF inv]] revoked(2)
    by (auto simp: with_session_def split: prod.splits)
  then have "authority_inv (au_revoke a1)"
    using authority_inv_parts [OF inv] with_session_advance [OF revoked(2)] by (intro au_revoke_inv) auto
  with revoked show ?thesis by simp
qed (use inv in simp_all)

subsection \<open>Tokens\<close>

definition token :: "authority \<Rightarrow> int" where
  "token a = ps_command_generation (au_session a)"

definition authority_le :: "authority \<Rightarrow> authority \<Rightarrow> bool" where
  \<comment> \<open>the token never goes back, and while it stands the owner keeps driving with later sequences\<close>
  "authority_le a a' \<longleftrightarrow>
     token a \<le> token a'
     \<and> (au_owner a \<noteq> None \<and> token a = token a' \<longrightarrow>
          au_owner a' = au_owner a \<and> the (au_last_sequence a) \<le> the (au_last_sequence a'))"

lemma authority_le_refl: "authority_le a a"
  by (simp add: authority_le_def)

lemma authority_le_trans: "authority_le a b \<Longrightarrow> authority_le b c \<Longrightarrow> authority_le a c"
  unfolding authority_le_def by fastforce

lemma session_generation_mono:
  "ps_command_generation s \<le> ps_command_generation (snd (session_commit_rebuild s))"
  "ps_command_generation s \<le> ps_command_generation (snd (session_abort_rebuild s))"
  "ps_command_generation s \<le> ps_command_generation (snd (session_fault_rebuild s))"
  "ps_command_generation s \<le> ps_command_generation (snd (reserve_output t s))"
  "fst (session_prepare_rebuild s) = Inr g \<Longrightarrow>
     ps_command_generation (snd (session_prepare_rebuild s)) = ps_command_generation s + 1"
  by (auto simp: session_op_defs split: option.splits if_splits)

lemma unowned_le: "au_owner a = None \<Longrightarrow> token a \<le> token a' \<Longrightarrow> authority_le a a'"
  by (simp add: authority_le_def)

lemma advanced_le: "token a < token a' \<Longrightarrow> authority_le a a'"
  by (simp add: authority_le_def)

lemma prepared_unowned: "authority_inv a \<Longrightarrow> au_rebuild_prepared a \<Longrightarrow> au_owner a = None"
  by (cases "au_owner a") (auto simp: authority_inv_def)

lemma owned_one_peer: "authority_inv a \<Longrightarrow> au_owner a \<noteq> None \<Longrightarrow> au_peer_count a = 1"
  by (auto simp: authority_inv_def)

lemma advance_op_le:
  assumes "bind_op (with_session advance_command_generation) k a = (r, a')"
    and "\<And>g a1. au_session (snd (k g a1)) = au_session a1"
  shows "authority_le a a'"
proof (cases rule: with_session_cases [of advance_command_generation a])
  case (error e)
  with session_error_same(1) [OF error(2)] assms(1) show ?thesis
    by (auto simp: bind_op_def authority_le_refl)
next
  case (ok g)
  let ?a1 = "a\<lparr>au_session := snd (advance_command_generation (au_session a))\<rparr>"
  from ok assms(1) have "k g ?a1 = (r, a')" by (simp add: bind_op_def)
  with assms(2) [of g ?a1] ok(2) have "token a' = token a + 1"
    by (auto simp: token_def advance_command_generation_def Let_def split: if_splits)
  then show ?thesis by (simp add: advanced_le)
qed

lemma observe_peer_count_le:
  assumes inv: "authority_inv a" shows "authority_le a (snd (observe_peer_count v a))"
proof (cases "require_uint ''command_peer_count'' v uint32_max")
  case (Inl e)
  then show ?thesis by (simp add: observe_peer_count_def authority_le_refl)
next
  case (Inr n)
  show ?thesis
  proof (cases "au_peer_count a = 1 \<and> n \<noteq> 1")
    case True
    with Inr show ?thesis
      by (auto simp: observe_peer_count_def intro!: advance_op_le [OF surjective_pairing])
  next
    case other: False
    show ?thesis
    proof (cases "au_owner a = None")
      case True
      with other Inr show ?thesis
        by (auto simp: observe_peer_count_def Let_def token_def intro!: unowned_le)
    next
      case False
      with other owned_one_peer [OF inv False] have "n = 1" by simp
      with other Inr False show ?thesis
        by (simp add: observe_peer_count_def Let_def authority_le_def token_def)
    qed
  qed
qed

lemma suspend_protocol_le: "authority_le a (snd (suspend_protocol v a))"
  by (cases "require_uint ''command_peer_count'' v uint32_max")
    (auto simp: suspend_protocol_def authority_le_refl intro!: advance_op_le [OF surjective_pairing])

lemma au_prepare_le: "authority_le a (snd (au_prepare_rebuild a))"
proof (cases rule: with_session_cases [of session_prepare_rebuild a])
  case (error e)
  with session_error_same(2) [OF error(2)] show ?thesis
    by (simp add: au_prepare_rebuild_def bind_op_def authority_le_refl)
next
  case (ok g)
  then show ?thesis using session_generation_mono(5) [OF ok(2)]
    by (intro advanced_le) (simp add: au_prepare_rebuild_def bind_op_def token_def)
qed

lemma session_end_rebuild_prepared:
  "fst (session_commit_rebuild s) = Inr x \<Longrightarrow> ps_rebuild_prepared s"
  "fst (session_abort_rebuild s) = Inr y \<Longrightarrow> ps_rebuild_prepared s"
  "fst (session_fault_rebuild s) = Inr y \<Longrightarrow> ps_rebuild_prepared s"
  by (auto simp: session_op_defs split: if_splits)

lemma end_rebuild_le:
  assumes inv: "authority_inv a"
    and err: "\<And>e. fst (f (au_session a)) = Inl e \<Longrightarrow> snd (f (au_session a)) = au_session a"
    and ok: "\<And>x. fst (f (au_session a)) = Inr x \<Longrightarrow> ps_rebuild_prepared (au_session a)"
    and mono: "ps_command_generation (au_session a) \<le> ps_command_generation (snd (f (au_session a)))"
  shows "authority_le a (snd (bind_op (with_session f) (\<lambda>x a. (r x, au_revoke (a\<lparr>au_rebuild_prepared := False\<rparr>))) a))"
proof (cases rule: with_session_cases [of f a])
  case (error e)
  with err [OF error(2)] show ?thesis by (simp add: bind_op_def authority_le_refl)
next
  case (ok x)
  have "au_owner a = None"
    using prepared_unowned [OF inv] assms(3) [OF ok(2)] authority_inv_parts(4) [OF inv] by simp
  with ok mono show ?thesis by (intro unowned_le) (simp_all add: bind_op_def token_def)
qed

lemma au_rebuild_le:
  assumes inv: "authority_inv a"
  shows "authority_le a (snd (au_commit_rebuild a))" "authority_le a (snd (au_abort_rebuild a))"
    "authority_le a (snd (au_fault_rebuild a))"
  unfolding au_commit_rebuild_def au_abort_rebuild_def au_fault_rebuild_def
  by (rule end_rebuild_le [OF inv];
      auto simp: session_error_same session_end_rebuild_prepared session_generation_mono)+

lemma au_accept_le:
  assumes inv: "authority_inv a"
  shows "authority_le a (fst (snd (au_accept command model commit (a, mm))))"
using inv
proof (cases rule: au_accept_cases [where command = command and model = model and commit = commit and mm = mm])
  case (accepted c m mm' acc)
  then show ?thesis by (auto simp: authority_le_def after_commit_def token_def may_commit_def)
next
  case (revoked a1 g)
  with with_session_advance [OF revoked(2)] show ?thesis
    by (intro advanced_le) (simp add: token_def)
qed (simp_all add: authority_le_refl)

subsection \<open>Any sequence of calls\<close>

datatype authority_call =
    AObserve pyval
  | ASuspend pyval
  | AAccept "wheel_command_v2 inst" "robot_model_spec inst" "(exc, bool) res"
  | APrepare | ACommit | AAbort | AFault | AFatal
  | AReserve string

fun authority_do :: "authority_call \<Rightarrow> authority \<Rightarrow> authority" where
  \<comment> \<open>the state after one call; \<open>AAccept\<close> carries what the commit callback does, and
      \<open>AReserve\<close> is another user of the shared session\<close>
  "authority_do (AObserve v) a = snd (observe_peer_count v a)"
| "authority_do (ASuspend v) a = snd (suspend_protocol v a)"
| "authority_do (AAccept c m r) a = fst (snd (au_accept c m (lift_res r) (a, ())))"
| "authority_do APrepare a = snd (au_prepare_rebuild a)"
| "authority_do ACommit a = snd (au_commit_rebuild a)"
| "authority_do AAbort a = snd (au_abort_rebuild a)"
| "authority_do AFault a = snd (au_fault_rebuild a)"
| "authority_do AFatal a = enter_fatal a"
| "authority_do (AReserve t) a = snd (with_session (reserve_output t) a)"

fun accepted_command :: "authority_call \<Rightarrow> authority \<Rightarrow> wheel_command_v2 list" where
  \<comment> \<open>the command the call accepts, if it does\<close>
  "accepted_command (AAccept (Instance c) m r) a =
     (case fst (au_accept (Instance c) m (lift_res r) (a, ())) of
        Inr acc \<Rightarrow> if ac_accepted acc then [c] else []
      | Inl _ \<Rightarrow> [])"
| "accepted_command _ a = []"

fun authority_run :: "authority_call list \<Rightarrow> authority \<Rightarrow> wheel_command_v2 list \<times> authority" where
  "authority_run [] a = ([], a)"
| "authority_run (c # cs) a =
     (let (ds, a') = authority_run cs (authority_do c a) in (accepted_command c a @ ds, a'))"

fun call_ok :: "authority_call \<Rightarrow> bool" where
  \<comment> \<open>every command object was made by its constructor; the fatal projection is left out\<close>
  "call_ok (AAccept c m r) = v2_command_ok c"
| "call_ok AFatal = False"
| "call_ok _ = True"

lemma reserve_frame:
  "ps_rebuild_prepared (snd (reserve_output t s)) = ps_rebuild_prepared s"
  "ps_command_generation (snd (reserve_output t s)) = ps_command_generation s"
  "ps_world_generation (snd (reserve_output t s)) = ps_world_generation s"
  "ps_descriptor (snd (reserve_output t s)) = ps_descriptor s"
  "ps_simulation_session_id (snd (reserve_output t s)) = ps_simulation_session_id s"
  by (auto simp: reserve_output_def split: option.splits)

lemma reserve_authority:
  "snd (with_session (reserve_output t) a) = a\<lparr>au_session := snd (reserve_output t (au_session a))\<rparr>"
  by (simp add: with_session_def split: prod.split)

lemma authority_do_inv: "authority_inv a \<Longrightarrow> call_ok c \<Longrightarrow> authority_inv (authority_do c a)"
proof (cases c)
  case (AReserve t)
  assume "authority_inv a"
  with AReserve show ?thesis
    by (auto simp: authority_inv_def reserve_authority reserve_frame reserve_output_inv split: option.splits)
qed (auto intro: inv_intros)

lemma authority_do_le: "authority_inv a \<Longrightarrow> call_ok c \<Longrightarrow> authority_le a (authority_do c a)"
proof (cases c)
  case (AReserve t)
  then show ?thesis by (simp add: authority_le_def token_def reserve_authority reserve_frame)
qed (auto intro: observe_peer_count_le suspend_protocol_le au_prepare_le au_rebuild_le au_accept_le)

lemma authority_run_inv:
  "authority_run cs a = (ds, a') \<Longrightarrow> authority_inv a \<Longrightarrow> list_all call_ok cs \<Longrightarrow>
     authority_inv a' \<and> authority_le a a'"
proof (induction cs arbitrary: a ds)
  case Nil
  then show ?case by (simp add: authority_le_refl)
next
  case (Cons c cs)
  obtain es where es: "authority_run cs (authority_do c a) = (es, a')"
    using Cons.prems(1) by (auto split: prod.splits)
  from Cons.prems have c: "authority_inv a" "call_ok c" "list_all call_ok cs" by simp_all
  from Cons.IH [OF es authority_do_inv [OF c(1,2)] c(3)] authority_do_le [OF c(1,2)]
  show ?case by (auto intro: authority_le_trans)
qed

lemma accepted_commandD:
  assumes inv: "authority_inv a" and c: "d \<in> set (accepted_command c a)" and ok: "call_ok c"
  shows "may_commit a d \<and> au_peer_count a = 1 \<and> \<not> au_rebuild_prepared a
    \<and> (\<exists>m. current_command a m d) \<and> authority_do c a = after_commit a d"
proof -
  from c obtain m r where call: "c = AAccept (Instance d) m r"
    by (cases "(c, a)" rule: accepted_command.cases) (auto split: sum.splits if_splits)
  with ok have wf: "wf_command_v2 d" by (simp add: v2_command_ok_def)
  from inv show ?thesis
  proof (cases rule: au_accept_cases
      [where command = "Instance d" and model = m and commit = "lift_res r" and mm = "()"])
    case (accepted c' m' mm' acc)
    with call rejection_reason_wf [OF wf, of m' a] show ?thesis by auto
  qed (use c call in \<open>auto simp: refusal_def revocation_def split: sum.splits if_splits\<close>)
qed

definition precedes :: "wheel_command_v2 \<Rightarrow> wheel_command_v2 \<Rightarrow> bool" where
  "precedes c d \<longleftrightarrow>
     cv_command_generation c < cv_command_generation d
     \<or> (cv_command_generation c = cv_command_generation d
        \<and> command_owner c = command_owner d \<and> cv_sequence c < cv_sequence d)"

lemma authority_run_accepted_after:
  assumes "authority_run cs a = (ds, a')" and "authority_inv a" and "list_all call_ok cs"
    and "au_owner a = Some (command_owner c)" "au_last_sequence a = Some (cv_sequence c)"
    and "token a = cv_command_generation c" and "d \<in> set ds"
  shows "precedes c d"
  using assms
proof -
  have gen: "authority_run cs a = (ds, a') \<Longrightarrow> authority_inv a \<Longrightarrow> list_all call_ok cs \<Longrightarrow> authority_le b a
      \<Longrightarrow> d \<in> set ds \<Longrightarrow> \<exists>a1. authority_le b a1 \<and> may_commit a1 d \<and> token a1 = cv_command_generation d" for b
  proof (induction cs arbitrary: a ds)
    case (Cons x cs)
    obtain es where es: "authority_run cs (authority_do x a) = (es, a')" "ds = accepted_command x a @ es"
      using Cons.prems(1) by (auto split: prod.splits)
    from Cons.prems have x: "authority_inv a" "call_ok x" "list_all call_ok cs" by simp_all
    show ?case
    proof (cases "d \<in> set es")
      case True
      from Cons.IH [OF es(1) authority_do_inv [OF x(1,2)] x(3) _ True]
        authority_le_trans [OF Cons.prems(4) authority_do_le [OF x(1,2)]]
      show ?thesis by blast
    next
      case False
      with es Cons.prems(5) have "d \<in> set (accepted_command x a)" by simp
      from accepted_commandD [OF x(1) this x(2)] Cons.prems(4) show ?thesis
        by (auto simp: current_command_def token_def)
    qed
  qed simp
  from gen [OF assms(1-3) authority_le_refl assms(7)] obtain a1 where
    "authority_le a a1" "may_commit a1 d" "token a1 = cv_command_generation d" by blast
  with assms(4-6) show ?thesis by (auto simp: precedes_def authority_le_def may_commit_def)
qed

lemma authority_run_ordered:
  "authority_run cs a = (ds, a') \<Longrightarrow> authority_inv a \<Longrightarrow> list_all call_ok cs \<Longrightarrow> sorted_wrt precedes ds"
proof (induction cs arbitrary: a ds)
  case (Cons c cs)
  obtain es where es: "authority_run cs (authority_do c a) = (es, a')" "ds = accepted_command c a @ es"
    using Cons.prems(1) by (auto split: prod.splits)
  from Cons.prems have c: "authority_inv a" "call_ok c" "list_all call_ok cs" by simp_all
  note inv1 = authority_do_inv [OF c(1,2)]
  from Cons.IH [OF es(1) inv1 c(3)] have sorted: "sorted_wrt precedes es" .
  show ?case
  proof (cases "accepted_command c a")
    case Nil
    with sorted es show ?thesis by simp
  next
    case (Cons x xs)
    then have one: "accepted_command c a = [x]"
      by (cases "(c, a)" rule: accepted_command.cases) (auto split: sum.splits if_splits)
    with accepted_commandD [OF c(1) _ c(2), of x]
    have x: "authority_do c a = after_commit a x" "token a = cv_command_generation x"
      by (auto simp: current_command_def token_def)
    have "precedes x d" if "d \<in> set es" for d
      using authority_run_accepted_after [OF es(1) inv1 c(3) _ _ _ that, of x] x
      by (simp add: after_commit_def token_def)
    with sorted es one show ?thesis by simp
  qed
qed simp

subsection \<open>The mailbox behind the authority\<close>

text \<open>
  What the authority's caller relies on from the store its commit callback writes: an accepted
  submission is what the store then holds, any other outcome leaves what it held, and a clear empties
  it.  A caller that clears the store whenever an acceptance asks for it keeps it empty exactly while
  nobody owns the command.
\<close>

locale command_sink =
  fixes submit :: "'q \<Rightarrow> (exc, 'm, bool) op" and payload :: "'q \<Rightarrow> 'w"
    and clear :: "'m \<Rightarrow> 'm" and held :: "'m \<Rightarrow> 'w option"
  assumes submit_held: "submit q m = (r, m') \<Longrightarrow> held m' = (if r = Inr True then Some (payload q) else held m)"
    and clear_held: "held (clear m) = None"
begin

lemma observe_linked:
  assumes inv: "authority_inv a" and link: "au_owner a = None \<longleftrightarrow> held m = None"
    and obs: "observe_peer_count v a = (Inr acc, a')"
  shows "au_owner a' = None \<longleftrightarrow> held (if ac_clear_mailbox acc then clear m else m) = None"
proof -
  from obs obtain n where n: "require_uint ''command_peer_count'' v uint32_max = Inr n"
    by (auto simp: observe_peer_count_def split: sum.splits)
  show ?thesis
  proof (cases "au_peer_count a = 1 \<and> n \<noteq> 1")
    case True
    with obs n show ?thesis
      by (cases rule: with_session_cases [of advance_command_generation a])
        (auto simp: observe_peer_count_def bind_op_def revocation_def clear_held)
  next
    case False
    have "au_owner a \<noteq> None \<Longrightarrow> n = 1" using False owned_one_peer [OF inv] by auto
    with False obs n link show ?thesis
      by (auto simp: observe_peer_count_def Let_def refusal_def split: if_splits)
  qed
qed

lemma suspend_linked:
  assumes "suspend_protocol v a = (Inr acc, a')"
  shows "ac_clear_mailbox acc \<and> au_owner a' = None \<and> held (clear m) = None"
  using assms
  by (cases rule: with_session_cases [of advance_command_generation a])
    (auto simp: suspend_protocol_def bind_op_def revocation_def clear_held split: sum.splits)

lemma prepare_linked:
  assumes "au_prepare_rebuild a = (Inr acc, a')"
  shows "ac_clear_mailbox acc \<and> au_owner a' = None \<and> held (clear m) = None"
  using assms
  by (cases rule: with_session_cases [of session_prepare_rebuild a])
    (auto simp: au_prepare_rebuild_def bind_op_def revocation_def clear_held)

lemma accept_linked:
  assumes inv: "authority_inv a" and link: "au_owner a = None \<longleftrightarrow> held m = None"
    and acc: "au_accept command model (submit q) (a, m) = (r, (a', m'))"
  shows "au_owner a' = None \<longleftrightarrow>
    held (case r of Inr c \<Rightarrow> if ac_clear_mailbox c then clear m' else m' | Inl _ \<Rightarrow> m') = None"
  using inv
proof (cases rule: au_accept_cases
    [where command = command and model = model and commit = "submit q" and mm = m])
  case (uncommitted c r' mm')
  with submit_held [OF uncommitted(3)] acc link show ?thesis
    by (auto simp: refusal_def split: sum.splits)
next
  case (accepted c mo mm' ac)
  with submit_held [OF accepted(7)] acc link show ?thesis by (auto simp: after_commit_def)
next
  case (revoked a1 g)
  with acc show ?thesis by (auto simp: revocation_def clear_held)
qed (use acc link in \<open>auto simp: refusal_def\<close>)

end

subsection \<open>Properties\<close>

text \<open>
  C7. Through any sequence of peer observations, protocol suspensions, world rebuilds and commands on
  a new authority, the commands it accepts form one ordered history: commands accepted under the same
  command generation all come from one source (id and session) with strictly increasing sequence
  numbers, and any change of driver happens only under a strictly later generation.
\<close>

theorem accepted_commands_ordered:
  assumes "new_authority (Instance s) = Inr a0" and "session_inv s" and "\<not> ps_rebuild_prepared s"
    and "list_all call_ok cs" and "authority_run cs a0 = (accepted, a)"
  shows "sorted_wrt precedes accepted"
  using authority_run_ordered [OF assms(5) new_authority_inv [OF assms(1-3)] assms(4)] .

text \<open>
  C8. Revocation is final: once a driver has lost the command (by whatever sequence of calls), every
  command that carries a generation up to the one under which it drove, its own commands in flight
  included, is refused for ever after, without the commit callback being run and with no change of
  state.
\<close>

theorem revoked_generation_refused:
  assumes "authority_inv a" and "au_owner a = Some owner" and "list_all call_ok cs"
    and "authority_run cs a = (accepted, a')" and "au_owner a' \<noteq> Some owner"
    and "cv_command_generation c \<le> token a" and "wf_command_v2 c"
  shows "\<exists>reason. au_accept (Instance c) (Instance m) commit (a', mm) = (Inr (refusal reason), (a', mm))"
proof -
  from authority_run_inv [OF assms(4,1,3)] have le: "authority_inv a'" "authority_le a a'" by auto
  then have "token a < token a'" using assms(2,5) by (auto simp: authority_le_def)
  with assms(6) have stale: "\<not> current_command a' m c" by (simp add: current_command_def token_def)
  obtain r where r: "rejection_reason (Instance c) (Instance m) a' = Inr r" "r \<noteq> None"
    using rejection_reason_wf [OF assms(7), of m a'] stale by auto
  show ?thesis
  proof (cases "au_rebuild_prepared a' \<or> au_peer_count a' \<noteq> 1")
    case True
    then show ?thesis by (auto simp: au_accept_def)
  next
    case False
    with r show ?thesis by (auto simp: au_accept_def)
  qed
qed

text \<open>
  The authority's snapshot can always be published: in every state the authority can reach, the
  WheelStateV2 constructor's tests of state against peer count and of the owner fields pass for the
  snapshot (\<^verbatim>\<open>""\<close> and \<^verbatim>\<open>b""\<close> for no owner), and the last sequence is known exactly while there is an
  owner.
\<close>

theorem authority_snapshot_publishable:
  assumes "new_authority (Instance s) = Inr a0" and "session_inv s" and "\<not> ps_rebuild_prepared s"
    and "list_all call_ok cs" and "authority_run cs a0 = (accepted, a)"
    and "snap = authority_snapshot_of a"
    and "owner = (case as_owner_source_id snap of None \<Rightarrow> [] | Some i \<Rightarrow> i)"
    and "owner_session = (case as_owner_source_session_id snap of None \<Rightarrow> [] | Some b \<Rightarrow> b)"
  shows "state_matches_peers (as_state snap) (as_peer_count snap)
    \<and> check_state_owner (as_state snap) (PStr owner) owner_session = Inr owner_session
    \<and> (as_last_sequence snap \<noteq> None \<longleftrightarrow> as_state snap = ACTIVE)"
proof -
  have inv: "authority_inv a"
    using authority_run_inv [OF assms(5) new_authority_inv [OF assms(1-3)] assms(4)] by simp
  then show ?thesis
    using assms(6-8) by (cases "au_owner a")
      (auto simp: authority_inv_def authority_snapshot_of_def unowned_state_def check_state_owner_Inr)
qed

lemma au_accept_commits:
  assumes inv: "authority_inv a" and wf: "wf_command_v2 c"
    and P: "\<not> au_rebuild_prepared a" "au_peer_count a = 1" "current_command a m c" "may_commit a c"
    and commit: "commit mm = (Inr True, mm')"
  shows "\<exists>acc. au_accept (Instance c) (Instance m) commit (a, mm) = (Inr acc, (after_commit a c, mm'))
    \<and> ac_accepted acc \<and> ac_claimed_owner acc = (au_owner a = None)"
proof -
  have none: "rejection_reason (Instance c) (Instance m) a = Inr None"
    using rejection_reason_wf [OF wf, of m a] P(3) by auto
  show ?thesis
  proof (cases "au_owner a")
    case None
    then show ?thesis by (simp add: au_accept_def P none commit after_commit_def)
  next
    case (Some x)
    with P(4) have o: "au_owner a = Some (command_owner c)" "\<not> cv_sequence c \<le> the (au_last_sequence a)"
      by (auto simp: may_commit_def)
    have "after_commit a c = a\<lparr>au_last_sequence := Some (cv_sequence c)\<rparr>"
      using o authority_inv_owned_state [OF inv o(1)] by (simp add: after_commit_def)
    with o show ?thesis by (simp add: au_accept_def P none commit)
  qed
qed

text \<open>
  A command is accepted exactly when no rebuild is prepared, exactly one peer is seen, the
  command carries this session's identity, world and token and is one the vehicle accepts, it comes
  from the owner with a later sequence (or nobody owns the command yet), and the commit callback
  returns True.  Then its source owns the command and its sequence is the last one, and the result
  says whether it claimed the command just now; otherwise the authority is left as it was or without
  an owner.
\<close>

theorem authority_accept_spec:
  assumes inv: "authority_inv a" and wf: "wf_command_v2 c"
  shows "if \<not> au_rebuild_prepared a \<and> au_peer_count a = 1 \<and> current_command a m c
      \<and> may_commit a c \<and> fst (commit mm) = Inr True
    then \<exists>acc. au_accept (Instance c) (Instance m) commit (a, mm) = (Inr acc, (after_commit a c, snd (commit mm)))
      \<and> ac_accepted acc \<and> ac_claimed_owner acc = (au_owner a = None)
    else \<not> (\<exists>acc. fst (au_accept (Instance c) (Instance m) commit (a, mm)) = Inr acc \<and> ac_accepted acc)
      \<and> (fst (snd (au_accept (Instance c) (Instance m) commit (a, mm))) = a
         \<or> au_owner (fst (snd (au_accept (Instance c) (Instance m) commit (a, mm)))) = None)"
    (is "if ?P then ?yes else ?no")
proof (cases ?P)
  case True
  then have run: "commit mm = (Inr True, snd (commit mm))" by (metis prod.collapse)
  have ?yes
    by (rule au_accept_commits [where commit = commit and mm = mm, OF inv wf _ _ _ _ run]) (use True in auto)
  with True show ?thesis by simp
next
  case False
  from inv have ?no
  proof (cases rule: au_accept_cases
      [where command = "Instance c" and model = "Instance m" and commit = commit and mm = mm])
    case (accepted c' m' mm' acc)
    with rejection_reason_wf [OF wf, of m a] False show ?thesis by auto
  qed (auto simp: refusal_def revocation_def split: sum.splits)
  then show ?thesis by (subst if_not_P [OF False])
qed

subsection \<open>The properties at work\<close>

definition example_v2_command :: "int \<Rightarrow> int \<Rightarrow> wheel_command_v2" where
  "example_v2_command generation sequence = \<lparr>cv_timestamp_ns = 5, cv_drive = [Fin 3, Fin 4], cv_steering = [],
     cv_sequence = sequence, cv_world_generation = 1, cv_command_generation = generation,
     cv_source_id = ''driver'', cv_source_session_id = replicate 16 1, cv_robot_model = ''df_mid'',
     cv_simulation_session_id = example_sid, cv_descriptor_sha256 = replicate 32 9\<rparr>"

definition example_authority :: authority where
  "example_authority = \<lparr>au_session = example_session, au_peer_count = 0, au_state = WAITING, au_owner = None,
     au_last_sequence = None, au_rebuild_prepared = False\<rparr>"

lemma example_v2_command_wf:
  "1 \<le> g \<Longrightarrow> g \<le> uint64_max \<Longrightarrow> 0 \<le> n \<Longrightarrow> n \<le> uint64_max \<Longrightarrow> wf_command_v2 (example_v2_command g n)"
  by (simp add: wf_command_v2_def wf_identity_def example_v2_command_def example_sid_def
      source_id_ok_def source_id_char_def of_char_def)

definition example_calls :: "authority_call list" where
  "example_calls =
     [AObserve (PInt 1), AAccept (Instance (example_v2_command 1 4)) (Instance df_mid) (Inr True),
      AAccept (Instance (example_v2_command 1 6)) (Instance df_mid) (Inr True),
      AObserve (PInt 2), AObserve (PInt 1),
      AAccept (Instance (example_v2_command 2 0)) (Instance df_mid) (Inr True)]"

lemma example_run: "fst (authority_run example_calls example_authority) =
    [example_v2_command 1 4, example_v2_command 1 6, example_v2_command 2 0]"
  by code_simp

lemma example_authority_new: "new_authority (Instance example_session) = Inr example_authority"
  by (simp add: new_authority_def example_authority_def)

lemma example_session_inv: "session_inv example_session" "\<not> ps_rebuild_prepared example_session"
  using new_protocol_session_inv [OF example_session_new] by (simp_all add: example_session_def)

lemma example_calls_ok: "list_all call_ok example_calls"
  using example_v2_command_wf [of 1 4] example_v2_command_wf [of 1 6] example_v2_command_wf [of 2 0]
  by (simp add: example_calls_def v2_command_ok_def)

theorem accepted_commands_ordered_witness:
  "sorted_wrt precedes [example_v2_command 1 4, example_v2_command 1 6, example_v2_command 2 0]"
  using accepted_commands_ordered [OF example_authority_new example_session_inv example_calls_ok
      surjective_pairing] unfolding example_run .

text \<open>The driver of the second half of the run lost the command to the peer edge.\<close>

definition example_owned :: authority where
  "example_owned = \<lparr>au_session = example_session, au_peer_count = 1, au_state = ACTIVE,
     au_owner = Some (''driver'', replicate 16 1), au_last_sequence = Some 6, au_rebuild_prepared = False\<rparr>"

lemma example_owned_run: "authority_run (take 3 example_calls) example_authority
    = ([example_v2_command 1 4, example_v2_command 1 6], example_owned)"
  by code_simp

lemma example_prefix_ok: "list_all call_ok (take 3 example_calls)"
  using example_calls_ok by (simp add: example_calls_def)

lemma example_owned_inv: "authority_inv example_owned"
  using authority_run_inv [OF example_owned_run
      new_authority_inv [OF example_authority_new example_session_inv] example_prefix_ok] by simp

definition example_conflict :: authority where
  "example_conflict = snd (observe_peer_count (PInt 2) example_owned)"

lemma example_conflict_run: "authority_run [AObserve (PInt 2)] example_owned = ([], example_conflict)"
  by (simp add: example_conflict_def)

lemma example_conflict_owner: "au_owner example_conflict = None"
  by (simp add: example_conflict_def example_owned_def observe_peer_count_def require_uint_def
      bind_op_def with_session_def advance_command_generation_def example_session_def Let_def)

theorem revoked_generation_refused_witness:
  "\<exists>reason. au_accept (Instance (example_v2_command 1 9)) (Instance df_mid) (lift_res (Inr True))
      (example_conflict, ()) = (Inr (refusal reason), (example_conflict, ()))"
proof (rule revoked_generation_refused [OF example_owned_inv _ _ example_conflict_run])
  show "au_owner example_owned = Some (''driver'', replicate 16 1)" by (simp add: example_owned_def)
qed (use example_v2_command_wf [of 1 9] in \<open>simp_all add: example_conflict_owner token_def
  example_owned_def example_session_def example_v2_command_def\<close>)

theorem authority_snapshot_publishable_witness:
  "state_matches_peers ACTIVE 1
    \<and> check_state_owner ACTIVE (PStr ''driver'') (replicate 16 1) = Inr (replicate 16 1)"
proof -
  have snap: "authority_snapshot_of example_owned = \<lparr>as_state = ACTIVE, as_peer_count = 1,
      as_command_generation = 1, as_owner_source_id = Some ''driver'',
      as_owner_source_session_id = Some (replicate 16 1), as_last_sequence = Some 6\<rparr>"
    by (simp add: authority_snapshot_of_def example_owned_def example_session_def)
  from authority_snapshot_publishable [OF example_authority_new example_session_inv example_prefix_ok
      example_owned_run refl refl refl]
  show ?thesis by (simp add: snap)
qed

theorem authority_accept_spec_witness:
  "\<exists>acc. au_accept (Instance (example_v2_command 1 7)) (Instance df_mid) (lift_res (Inr True)) (example_owned, ())
      = (Inr acc, (after_commit example_owned (example_v2_command 1 7), ()))
    \<and> ac_accepted acc \<and> ac_claimed_owner acc = (au_owner example_owned = None)"
proof -
  have "\<not> au_rebuild_prepared example_owned \<and> au_peer_count example_owned = 1
      \<and> current_command example_owned df_mid (example_v2_command 1 7)
      \<and> may_commit example_owned (example_v2_command 1 7) \<and> fst (lift_res (Inr True :: (exc, bool) res) ()) = Inr True"
    by code_simp
  with authority_accept_spec [OF example_owned_inv example_v2_command_wf,
      of 1 7 df_mid "lift_res (Inr True)" "()"]
  show ?thesis by (simp add: lift_res_def)
qed

end
