(* ===== verification/Status.thy ===== *)
theory Status
  imports InterfaceModels
begin

text \<open>
  The status objects of \<^verbatim>\<open>slope_sim/interfaces/status.py\<close>: the checked snapshots the Dashboard
  reads, and the rolling frequency estimator over a sliding window of monotonic wall-clock events.
  The estimator's incremental eviction is shown to keep exactly the events of the window.
\<close>

subsection \<open>Field checks\<close>

definition st_require_finite_float :: "string \<Rightarrow> pyval \<Rightarrow> bool \<Rightarrow> (exc, pyfloat) res" where
  "st_require_finite_float name value positive =
     ensure (is_real_number value) (value_error (name @ '' must be a finite number''))
       (case py_float value of
          Inl _ \<Rightarrow> Inl (value_error (name @ '' must be a finite number''))
        | Inr normalized \<Rightarrow>
            ensure (f_isfinite normalized) (value_error (name @ '' must be a finite number''))
            (ensure (\<not> (positive \<and> f_le normalized f_zero)) (value_error (name @ '' must be positive''))
            (ensure (\<not> (\<not> positive \<and> f_lt normalized f_zero)) (value_error (name @ '' must be nonnegative''))
              (Inr normalized))))"

definition st_require_optional_uint64 :: "string \<Rightarrow> pyval \<Rightarrow> (exc, int option) res" where
  "st_require_optional_uint64 name value =
     (if value = PNone then Inr None
      else case as_int value of
        Some n \<Rightarrow> ensure (0 \<le> n \<and> n \<le> uint64_max)
          (value_error (name @ '' must be None or a uint64 integer'')) (Inr (Some n))
      | None \<Rightarrow> Inl (value_error (name @ '' must be None or a uint64 integer'')))"

definition st_require_nonnegative_int :: "string \<Rightarrow> pyval \<Rightarrow> (exc, int) res" where
  "st_require_nonnegative_int name value =
     (case as_int value of
        Some n \<Rightarrow> ensure (0 \<le> n) (value_error (name @ '' must be a nonnegative integer'')) (Inr n)
      | None \<Rightarrow> Inl (value_error (name @ '' must be a nonnegative integer'')))"

fun require_str_in :: "string \<Rightarrow> string list \<Rightarrow> pyval \<Rightarrow> (exc, string) res" where
  \<comment> \<open>\<^verbatim>\<open>if not isinstance(v, str) or v not in choices: raise ValueError(m)\<close>\<close>
  "require_str_in m choices (PStr s) = (if s \<in> set choices then Inr s else Inl (value_error m))"
| "require_str_in m choices _ = Inl (value_error m)"

fun require_str :: "string \<Rightarrow> pyval \<Rightarrow> (exc, string) res" where
  "require_str m (PStr s) = Inr s"
| "require_str m _ = Inl (value_error m)"

definition topic_states :: "string list" where
  "topic_states = [''active'', ''waiting_peer'', ''timed_out'', ''degraded'', ''disconnected'', ''error'']"

definition command_states :: "string list" where
  "command_states = [''waiting_command'', ''active'', ''invalid_command'', ''timed_out'', ''disconnected'']"

definition directions :: "string list" where
  "directions = [''publish'', ''subscribe'']"

definition transport_modes :: "string list" where
  "transport_modes = [''auto'', ''ecal'', ''local'']"

subsection \<open>Snapshots\<close>

record topic_status =
  ts_topic :: string
  ts_direction :: string
  ts_state :: string
  ts_target_hz :: pyfloat
  ts_actual_hz :: pyfloat
  ts_latest_timestamp_ns :: "int option"
  ts_message_count :: int
  ts_error_count :: int
  ts_dropped_count :: int
  ts_detail :: string

definition mk_topic_status ::
  "pyval \<Rightarrow> pyval \<Rightarrow> pyval \<Rightarrow> pyval \<Rightarrow> pyval \<Rightarrow> pyval \<Rightarrow> pyval \<Rightarrow> pyval \<Rightarrow> pyval \<Rightarrow> pyval
     \<Rightarrow> (exc, topic_status) res" where
  "mk_topic_status topic direction state target_hz actual_hz latest message_count error_count
       dropped_count detail =
     bind_res (nonempty_str ''topic must be a nonempty string'' topic) (\<lambda>tp.
     bind_res (require_str_in (''direction must be '' @ quoted ''publish'' @ '' or '' @ quoted ''subscribe'')
                directions direction) (\<lambda>dir.
     bind_res (require_str_in ''state must be a valid topic state'' topic_states state) (\<lambda>st.
     bind_res (st_require_finite_float ''target_hz'' target_hz True) (\<lambda>thz.
     bind_res (st_require_finite_float ''actual_hz'' actual_hz False) (\<lambda>ahz.
     bind_res (st_require_optional_uint64 ''latest_timestamp_ns'' latest) (\<lambda>lt.
     bind_res (st_require_nonnegative_int ''message_count'' message_count) (\<lambda>mc.
     bind_res (st_require_nonnegative_int ''error_count'' error_count) (\<lambda>ec.
     bind_res (st_require_nonnegative_int ''dropped_count'' dropped_count) (\<lambda>dc.
     bind_res (require_str ''detail must be a string'' detail) (\<lambda>dt.
       Inr \<lparr>ts_topic = tp, ts_direction = dir, ts_state = st, ts_target_hz = thz, ts_actual_hz = ahz,
            ts_latest_timestamp_ns = lt, ts_message_count = mc, ts_error_count = ec,
            ts_dropped_count = dc, ts_detail = dt\<rparr>))))))))))"

record wheel_command_status =
  ks_state :: string
  ks_valid_hz :: pyfloat
  ks_latest_timestamp_ns :: "int option"
  ks_valid_count :: int
  ks_invalid_count :: int
  ks_last_error :: "msg option"

definition mk_wheel_command_status ::
  "string \<Rightarrow> pyval \<Rightarrow> pyval \<Rightarrow> pyval \<Rightarrow> pyval \<Rightarrow> msg option \<Rightarrow> (exc, wheel_command_status) res" where
  \<comment> \<open>\<open>last_error\<close> is \<open>None\<close> or a string, the text of an exception\<close>
  "mk_wheel_command_status state valid_hz latest valid_count invalid_count last_error =
     bind_res (require_str_in ''state must be a valid command state'' command_states (PStr state)) (\<lambda>st.
     bind_res (st_require_finite_float ''valid_hz'' valid_hz False) (\<lambda>hz.
     bind_res (st_require_optional_uint64 ''latest_timestamp_ns'' latest) (\<lambda>lt.
     bind_res (st_require_nonnegative_int ''valid_count'' valid_count) (\<lambda>vc.
     bind_res (st_require_nonnegative_int ''invalid_count'' invalid_count) (\<lambda>ic.
       Inr \<lparr>ks_state = st, ks_valid_hz = hz, ks_latest_timestamp_ns = lt, ks_valid_count = vc,
            ks_invalid_count = ic, ks_last_error = last_error\<rparr>)))))"

record interface_status_snapshot =
  is_captured_at :: pyfloat
  is_transport_mode :: string
  is_ecal_connected :: bool
  is_command :: wheel_command_status
  is_wheel_state :: "wheel_state option"
  is_topics :: "(string \<times> topic_status) list"

fun check_topic_entry :: "pyval \<times> topic_status inst \<Rightarrow> (exc, string \<times> topic_status) res" where
  "check_topic_entry (PStr k, Instance s) =
     (if k = ts_topic s then Inr (k, s) else Inl (value_error ''topics key must equal TopicStatus.topic''))"
| "check_topic_entry (PStr k, Foreign) = Inl (value_error ''topics values must be TopicStatus instances'')"
| "check_topic_entry _ = Inl (value_error ''topics key must be a string'')"

fun copy_topics :: "(pyval \<times> topic_status inst) list \<Rightarrow> (string \<times> topic_status) list
    \<Rightarrow> (exc, (string \<times> topic_status) list) res" where
  \<comment> \<open>the loop that copies the caller's mapping entry by entry\<close>
  "copy_topics [] copied = Inr copied"
| "copy_topics (e # es) copied =
     bind_res (check_topic_entry e) (\<lambda>(k, s). copy_topics es (dict_put k s copied))"

definition mk_interface_status_snapshot ::
  "pyval \<Rightarrow> pyval \<Rightarrow> pyval \<Rightarrow> wheel_command_status inst \<Rightarrow> wheel_state inst option
     \<Rightarrow> (pyval \<times> topic_status inst) list option \<Rightarrow> (exc, interface_status_snapshot) res" where
  \<comment> \<open>\<open>wheel_state\<close> is \<open>None\<close> for Python's None; \<open>topics\<close> is \<open>None\<close> when it is not a mapping\<close>
  "mk_interface_status_snapshot captured_at mode conn0 command wheel_state topics =
     bind_res (st_require_finite_float ''captured_at'' captured_at False) (\<lambda>cap.
     bind_res (require_str_in (''transport_mode must be '' @ quoted ''auto'' @ '', '' @ quoted ''ecal''
                 @ '', or '' @ quoted ''local'') transport_modes mode) (\<lambda>md.
     bind_res (case conn0 of PBool b \<Rightarrow> Inr b
               | _ \<Rightarrow> Inl (value_error ''ecal_connected must be a bool'')) (\<lambda>conn.
     bind_res (case command of Instance c \<Rightarrow> Inr c
               | Foreign \<Rightarrow> Inl (value_error ''command must be a WheelCommandStatus'')) (\<lambda>cmd.
     bind_res (case wheel_state of None \<Rightarrow> Inr None | Some (Instance w) \<Rightarrow> Inr (Some w)
               | Some Foreign \<Rightarrow> Inl (value_error ''wheel_state must be None or a WheelState'')) (\<lambda>ws.
     bind_res (case topics of Some es \<Rightarrow> copy_topics es []
               | None \<Rightarrow> Inl (value_error ''topics must be a mapping'')) (\<lambda>tps.
       Inr \<lparr>is_captured_at = cap, is_transport_mode = md, is_ecal_connected = conn, is_command = cmd,
            is_wheel_state = ws, is_topics = tps\<rparr>))))))"

subsection \<open>Rolling frequency\<close>

record rolling_frequency =
  rf_window :: pyfloat
  rf_events :: "pyfloat list"
  rf_latest_event :: "pyfloat option"
  rf_latest_query :: "pyfloat option"

definition new_rolling_frequency :: "pyval \<Rightarrow> (exc, rolling_frequency) res" where
  "new_rolling_frequency window_sec =
     bind_res (st_require_finite_float ''window_sec'' window_sec True) (\<lambda>w.
       Inr \<lparr>rf_window = w, rf_events = [], rf_latest_event = None, rf_latest_query = None\<rparr>)"

definition evict_before :: "pyfloat \<Rightarrow> rolling_frequency \<Rightarrow> rolling_frequency" where
  "evict_before now s =
     (let cutoff = f_sub now (rf_window s)
      in s\<lparr>rf_events := dropWhile (\<lambda>e. f_lt e cutoff) (rf_events s)\<rparr>)"

definition earlier_than :: "pyfloat \<Rightarrow> pyfloat option \<Rightarrow> bool" where
  \<comment> \<open>\<^verbatim>\<open>prev is not None and t < prev\<close>\<close>
  "earlier_than t prev = (case prev of None \<Rightarrow> False | Some l \<Rightarrow> f_lt t l)"

definition rf_record :: "pyval \<Rightarrow> (exc, rolling_frequency, unit) op" where
  "rf_record timestamp s =
     (case st_require_finite_float ''timestamp'' timestamp False of
        Inl e \<Rightarrow> (Inl e, s)
      | Inr normalized \<Rightarrow>
          if earlier_than normalized (rf_latest_event s)
          then (Inl (value_error ''timestamp must not move backwards''), s)
          else
            let s1 = s\<lparr>rf_events := rf_events s @ [normalized], rf_latest_event := Some normalized\<rparr>;
                horizon = (case rf_latest_query s of None \<Rightarrow> normalized | Some q \<Rightarrow> f_max normalized q)
            in (Inr (), evict_before horizon s1))"

definition rf_hz :: "pyval \<Rightarrow> (exc, rolling_frequency, pyfloat) op" where
  "rf_hz now s =
     (case st_require_finite_float ''now'' now False of
        Inl e \<Rightarrow> (Inl e, s)
      | Inr normalized \<Rightarrow>
          if earlier_than normalized (rf_latest_event s)
          then (Inl (value_error ''now must not be earlier than the latest event''), s)
          else if earlier_than normalized (rf_latest_query s)
          then (Inl (value_error ''now must not move backwards''), s)
          else
            let s1 = evict_before normalized (s\<lparr>rf_latest_query := Some normalized\<rparr>)
            in case rf_events s1 of
                 e # _ # _ \<Rightarrow>
                   let elapsed = f_sub normalized e
                   in if f_eq elapsed f_zero then (Inr f_zero, s1)
                      else (case f_div (Fin (of_nat (length (rf_events s1) - 1))) elapsed of
                              Some hz \<Rightarrow> (Inr hz, s1)
                            | None \<Rightarrow> (Inl (Exc ZeroDivisionErr (lit ''float division by zero'')), s1))
               | _ \<Rightarrow> (Inr f_zero, s1))"

subsection \<open>Checked fields\<close>

lemma st_require_finite_float_Inr:
  assumes "st_require_finite_float name v pos = Inr x"
  shows "\<exists>q. x = Fin q \<and> 0 \<le> q \<and> (pos \<longrightarrow> 0 < q)"
proof -
  from assms have "f_isfinite x" "\<not> (pos \<and> f_le x f_zero)" "\<not> (\<not> pos \<and> f_lt x f_zero)"
    by (auto simp: st_require_finite_float_def res_simps split: sum.splits)
  then show ?thesis by (cases x) auto
qed

lemma st_require_finite_float_Fin:
  "st_require_finite_float name (PFloat (Fin q)) pos =
     (if pos \<and> q \<le> 0 then Inl (value_error (name @ '' must be positive''))
      else if \<not> pos \<and> q < 0 then Inl (value_error (name @ '' must be nonnegative''))
      else Inr (Fin q))"
  by (auto simp: st_require_finite_float_def)

lemma st_require_finite_float_error:
  "st_require_finite_float name v pos = Inl e \<Longrightarrow> is_value_error e"
  by (auto simp: st_require_finite_float_def ensure_def split: sum.splits if_splits)

subsection \<open>The window as a specification\<close>

text \<open>
  The specification keeps every accepted timestamp.  An event is in the window of a query at \<open>t\<close>
  when it is not below the cutoff \<open>t - window\<close>, computed as the code computes it, in doubles.
\<close>

definition in_window :: "rat \<Rightarrow> rat \<Rightarrow> rat \<Rightarrow> bool" where
  "in_window w t e \<longleftrightarrow> \<not> f_lt (Fin e) (f_sub (Fin t) (Fin w))"

definition window_hz :: "rat list \<Rightarrow> rat \<Rightarrow> rat \<Rightarrow> pyfloat" where
  "window_hz history w t =
     (case filter (in_window w t) history of
        e # e' # es \<Rightarrow>
          let elapsed = f_sub (Fin t) (Fin e)
          in if elapsed = Fin 0 then Fin 0 else f_quot (Fin (of_nat (Suc (length es)))) elapsed
      | _ \<Rightarrow> Fin 0)"

lemma in_window_antimono: "t \<le> t' \<Longrightarrow> in_window w t' e \<Longrightarrow> in_window w t e"
  using f_lt_fl_mono [of "t - w" "t' - w" e] by (auto simp: in_window_def)

lemma in_window_up: "d \<le> e \<Longrightarrow> in_window w t d \<Longrightarrow> in_window w t e"
  using f_lt_Fin_antimono [of d e] by (auto simp: in_window_def)

lemma filter_in_window_twice:
  "t \<le> t' \<Longrightarrow> filter (in_window w t') (filter (in_window w t) h) = filter (in_window w t') h"
  by (auto simp: filter_filter intro!: filter_cong dest: in_window_antimono)

definition rf_horizon :: "rat list \<Rightarrow> pyfloat option \<Rightarrow> rat" where
  "rf_horizon h lq = max (if h = [] then 0 else last h) (case lq of Some (Fin t) \<Rightarrow> t | _ \<Rightarrow> 0)"

definition rf_rel :: "rat list \<Rightarrow> rat \<Rightarrow> rolling_frequency \<Rightarrow> bool" where
  \<comment> \<open>the estimator's state represents the history \<open>h\<close>\<close>
  "rf_rel h w s \<longleftrightarrow>
     rf_window s = Fin w \<and> sorted h \<and> (\<forall>e\<in>set h. 0 \<le> e)
     \<and> rf_latest_event s = (if h = [] then None else Some (Fin (last h)))
     \<and> (\<forall>q. rf_latest_query s = Some q \<longrightarrow> (\<exists>t\<ge>0. q = Fin t))
     \<and> rf_events s = map Fin (filter (in_window w (rf_horizon h (rf_latest_query s))) h)"

lemma evict_window:
  assumes "rf_window s = Fin w" "rf_events s = map Fin xs" "sorted xs"
  shows "rf_events (evict_before (Fin t) s) = map Fin (filter (in_window w t) xs)"
proof -
  have "dropWhile (\<lambda>e. f_lt e (f_sub (Fin t) (Fin w))) (map Fin xs)
      = map Fin (dropWhile (\<lambda>e. \<not> in_window w t e) xs)"
    by (simp add: dropWhile_map comp_def in_window_def)
  also have "dropWhile (\<lambda>e. \<not> in_window w t e) xs = filter (in_window w t) xs"
    using dropWhile_eq_filter [OF assms(3), of "\<lambda>e. \<not> in_window w t e"] in_window_up by auto
  finally show ?thesis using assms by (simp add: evict_before_def)
qed

lemma evict_before_frame [simp]:
  "rf_window (evict_before t s) = rf_window s" "rf_latest_event (evict_before t s) = rf_latest_event s"
  "rf_latest_query (evict_before t s) = rf_latest_query s"
  by (simp_all add: evict_before_def Let_def)

lemma rf_record_rel:
  assumes rel: "rf_rel h w s" and r: "rf_record v s = (Inr (), s')"
  obtains q where "st_require_finite_float ''timestamp'' v False = Inr (Fin q)" "rf_rel (h @ [q]) w s'"
proof -
  from r obtain x where x: "st_require_finite_float ''timestamp'' v False = Inr x"
    by (auto simp: rf_record_def split: sum.splits)
  from st_require_finite_float_Inr [OF x] obtain q where q: "x = Fin q" "0 \<le> q" by blast
  have late: "\<not> earlier_than (Fin q) (rf_latest_event s)"
    using r x q by (auto simp: rf_record_def Let_def split: if_splits)
  have last: "e \<le> q" if "e \<in> set h" for e
  proof -
    from rel that have "h \<noteq> []" "sorted h" by (auto simp: rf_rel_def)
    then have "e \<le> last h" using that by (metis append_butlast_last_id sorted_append in_set_conv_decomp
      list.set_intros(1) rotate1.simps(2) set_ConsD set_rotate1 order_refl)
    moreover have "last h \<le> q" using late rel \<open>h \<noteq> []\<close> by (simp add: rf_rel_def earlier_than_def)
    ultimately show ?thesis by simp
  qed
  let ?t = "rf_horizon h (rf_latest_query s)" and ?t' = "rf_horizon (h @ [q]) (rf_latest_query s)"
  have tt: "?t \<le> ?t'" using last [of "last h"] q(2) by (auto simp: rf_horizon_def)
  have hor: "(case rf_latest_query s of None \<Rightarrow> Fin q | Some y \<Rightarrow> f_max (Fin q) y) = Fin ?t'"
    using rel q(2) by (auto simp: rf_rel_def rf_horizon_def split: option.split)
  define s1 where "s1 = s\<lparr>rf_events := rf_events s @ [Fin q], rf_latest_event := Some (Fin q)\<rparr>"
  have s': "s' = evict_before (Fin ?t') s1"
    using r x q late hor by (auto simp: rf_record_def s1_def Let_def)
  have "sorted (filter (in_window w ?t) h @ [q])"
    using rel last by (auto simp: rf_rel_def sorted_append sorted_filter [of id, simplified])
  then have "rf_events s' = map Fin (filter (in_window w ?t') (filter (in_window w ?t) h @ [q]))"
    unfolding s' using rel by (intro evict_window) (auto simp: s1_def rf_rel_def)
  also have "\<dots> = map Fin (filter (in_window w ?t') (h @ [q]))"
    using filter_in_window_twice [OF tt] by simp
  finally have "rf_rel (h @ [q]) w s'"
    using rel last q by (auto simp: rf_rel_def s' s1_def sorted_append)
  with x q show thesis by (intro that) auto
qed

lemma rf_hz_rel:
  assumes rel: "rf_rel h w s" and r: "rf_hz v s = (Inr hz, s')"
  obtains t where "st_require_finite_float ''now'' v False = Inr (Fin t)" "rf_rel h w s'" "hz = window_hz h w t"
proof -
  from r obtain x where x: "st_require_finite_float ''now'' v False = Inr x"
    by (auto simp: rf_hz_def split: sum.splits)
  from st_require_finite_float_Inr [OF x] obtain t where t: "x = Fin t" "0 \<le> t" by blast
  have late: "\<not> earlier_than (Fin t) (rf_latest_event s)" "\<not> earlier_than (Fin t) (rf_latest_query s)"
    using r x t by (auto simp: rf_hz_def split: if_splits)
  let ?t = "rf_horizon h (rf_latest_query s)"
  have tt: "?t \<le> t" using late rel t(2)
    by (auto simp: rf_horizon_def rf_rel_def earlier_than_def split: option.split)
  have hor: "rf_horizon h (Some (Fin t)) = t"
    using late rel t(2) by (auto simp: rf_horizon_def rf_rel_def earlier_than_def)
  define s1 where "s1 = evict_before (Fin t) (s\<lparr>rf_latest_query := Some (Fin t)\<rparr>)"
  have "rf_events s1 = map Fin (filter (in_window w t) (filter (in_window w ?t) h))"
    unfolding s1_def using rel by (intro evict_window) (auto simp: rf_rel_def sorted_filter [of id, simplified])
  then have ev: "rf_events s1 = map Fin (filter (in_window w t) h)"
    using filter_in_window_twice [OF tt] by simp
  then have rel1: "rf_rel h w s1" using rel t(2) hor by (auto simp: rf_rel_def s1_def)
  have out: "hz = window_hz h w t \<and> s' = s1"
    using r x t late ev
    by (auto simp: rf_hz_def window_hz_def s1_def [symmetric] Let_def f_div_def f_eqD
        split: list.splits if_splits option.splits)
  show thesis using x t rel1 out by (intro that) auto
qed

datatype rf_call = RRecord pyval | RHz pyval

fun rf_run :: "rf_call list \<Rightarrow> rolling_frequency \<Rightarrow> rat list \<Rightarrow> rat list \<times> rolling_frequency" where
  \<comment> \<open>any sequence of calls, collecting the timestamps that were accepted; a raising call changes nothing\<close>
  "rf_run [] s h = (h, s)"
| "rf_run (RRecord v # cs) s h =
     (case rf_record v s of
        (Inl _, s') \<Rightarrow> rf_run cs s' h
      | (Inr _, s') \<Rightarrow>
          (case st_require_finite_float ''timestamp'' v False of
             Inr (Fin q) \<Rightarrow> rf_run cs s' (h @ [q])
           | _ \<Rightarrow> rf_run cs s' h))"
| "rf_run (RHz v # cs) s h = rf_run cs (snd (rf_hz v s)) h"

lemma rf_record_error_same: "rf_record v s = (Inl e, s') \<Longrightarrow> s' = s"
  by (auto simp: rf_record_def Let_def split: sum.splits if_splits)

lemma rf_hz_error_same: "rf_rel h w s \<Longrightarrow> rf_hz v s = (Inl e, s') \<Longrightarrow> s' = s"
  by (auto simp: rf_hz_def Let_def f_div_def split: sum.splits if_splits list.splits option.splits)

lemma rf_run_rel: "rf_rel h w s \<Longrightarrow> rf_run cs s h = (h', s') \<Longrightarrow> rf_rel h' w s'"
proof (induction cs s h rule: rf_run.induct)
  case (2 v cs s h)
  obtain r s1 where r: "rf_record v s = (r, s1)" by fastforce
  show ?case
  proof (cases r)
    case (Inl e)
    with r rf_record_error_same 2 show ?thesis by auto
  next
    case (Inr u)
    with r have "rf_record v s = (Inr (), s1)" by simp
    from rf_record_rel [OF "2.prems"(1) this]
    obtain q where q: "st_require_finite_float ''timestamp'' v False = Inr (Fin q)" "rf_rel (h @ [q]) w s1" .
    with r Inr 2 show ?thesis by auto
  qed
next
  case (3 v cs s h)
  obtain r s1 where r: "rf_hz v s = (r, s1)" by fastforce
  have "rf_rel h w s1"
  proof (cases r)
    case (Inl e)
    with r have "rf_hz v s = (Inl e, s1)" by simp
    then have "s1 = s" by (rule rf_hz_error_same [OF "3.prems"(1)])
    with "3.prems"(1) show ?thesis by simp
  next
    case (Inr hz)
    with r have "rf_hz v s = (Inr hz, s1)" by simp
    from rf_hz_rel [OF "3.prems"(1) this] show ?thesis by blast
  qed
  with r 3 show ?case by auto
qed simp

lemma new_rolling_frequency_rel:
  assumes "new_rolling_frequency v = Inr s"
  obtains w where "0 < w" "rf_window s = Fin w" "rf_rel [] w s"
proof -
  from assms obtain x where x: "st_require_finite_float ''window_sec'' v True = Inr x"
    "s = \<lparr>rf_window = x, rf_events = [], rf_latest_event = None, rf_latest_query = None\<rparr>"
    by (auto simp: new_rolling_frequency_def res_simps)
  from st_require_finite_float_Inr [OF x(1)] obtain w where "x = Fin w" "0 < w" by blast
  with x(2) show thesis by (intro that [of w]) (auto simp: rf_rel_def)
qed

text \<open>
  C4. The rolling frequency estimator, which evicts old events incrementally and forgets them,
  answers every query as if it had kept the whole history: after any sequence of record and query
  calls, with whatever arguments and with raising calls interleaved, a query at \<open>now\<close> returns the
  rate of exactly those accepted timestamps that lie in the window ending at \<open>now\<close> (and 0 for fewer
  than two of them), all in double arithmetic.
\<close>

theorem rolling_frequency_refines_history:
  assumes new: "new_rolling_frequency window = Inr s0" and run: "rf_run cs s0 [] = (history, s)"
    and query: "rf_hz now s = (Inr hz, s')"
  shows "\<exists>w t. rf_window s0 = Fin w \<and> st_require_finite_float ''now'' now False = Inr (Fin t)
    \<and> hz = window_hz history w t"
proof -
  obtain w where w: "rf_window s0 = Fin w" "rf_rel [] w s0" using new_rolling_frequency_rel [OF new] by blast
  from rf_run_rel [OF w(2) run] have "rf_rel history w s" .
  from rf_hz_rel [OF this query] w(1) show ?thesis by blast
qed

lemma fl_small_ints: "fl 2 = Fin 2" "fl 3 = Fin 3" "fl 4 = Fin 4" "fl (- 1) = Fin (- 1)"
  using fl_of_int [of 2] fl_of_int [of 3] fl_of_int [of 4] fl_of_int [of "- 1"] by simp_all

lemmas rf_eval = rf_record_def rf_hz_def st_require_finite_float_def earlier_than_def evict_before_def
  Let_def fl_small_ints f_div_def

theorem rolling_frequency_refines_history_witness:
  "\<exists>w t. Fin 2 = Fin w \<and> st_require_finite_float ''now'' (PFloat (Fin 4)) False = Inr (Fin t)
    \<and> Fin 1 = window_hz [1, 3, 4] w t"
proof -
  let ?new = "\<lparr>rf_window = Fin 2, rf_events = [], rf_latest_event = None, rf_latest_query = None\<rparr>"
  let ?s = "\<lparr>rf_window = Fin 2, rf_events = [Fin 3, Fin 4], rf_latest_event = Some (Fin 4),
      rf_latest_query = Some (Fin 3)\<rparr>"
  let ?cs = "[RRecord (PFloat (Fin 1)), RRecord (PFloat (Fin 3)), RHz (PFloat (Fin 3)), RRecord (PFloat (Fin 4))]"
  have new: "new_rolling_frequency (PFloat (Fin 2)) = Inr ?new"
    by (simp add: new_rolling_frequency_def st_require_finite_float_def)
  have run: "rf_run ?cs ?new [] = ([1, 3, 4], ?s)" by code_simp
  have hz: "rf_hz (PFloat (Fin 4)) ?s = (Inr (Fin 1), \<lparr>rf_window = Fin 2, rf_events = [Fin 3, Fin 4],
      rf_latest_event = Some (Fin 4), rf_latest_query = Some (Fin 4)\<rparr>)" by code_simp
  from rolling_frequency_refines_history [OF new run hz] show ?thesis by simp
qed

end
