(* ===== verification/Mailbox.thy ===== *)
theory Mailbox
  imports Status
begin

text \<open>
  The wheel-command mailbox of \<^verbatim>\<open>slope_sim/interfaces/wheel.py\<close>: the callback thread writes the
  latest validated command, the physics thread reads a decision, and a command that is too old, or
  a mailbox that was cleared, yields the vehicle's zero command.  \<^verbatim>\<open>accept\<close> releases the lock
  between capturing the generation and committing, so it is two atomic operations here; the other
  methods hold the lock throughout.
\<close>

subsection \<open>State\<close>

definition require_wall_time :: "string \<Rightarrow> pyval \<Rightarrow> bool \<Rightarrow> (exc, pyfloat) res" where
  "require_wall_time name value positive =
     (let qualifier = (if positive then ''positive'' else ''nonnegative'');
          err = value_error (name @ '' must be a '' @ qualifier @ '' finite number'')
      in ensure (is_real_number value) err
           (bind_res (py_float value) (\<lambda>normalized.
              let invalid_sign = (if positive then f_le normalized f_zero else f_lt normalized f_zero)
              in ensure (\<not> (\<not> f_isfinite normalized \<or> invalid_sign)) err (Inr normalized))))"

record wheel_decision =
  wd_drive :: "pyfloat list"
  wd_steering :: "pyfloat list"
  wd_waiting :: bool
  wd_timed_out :: bool

datatype mailbox_state = MbWaiting | MbActive | MbInvalid | MbTimedOut

fun mailbox_state_name :: "mailbox_state \<Rightarrow> string" where
  "mailbox_state_name MbWaiting = ''waiting_command''"
| "mailbox_state_name MbActive = ''active''"
| "mailbox_state_name MbInvalid = ''invalid_command''"
| "mailbox_state_name MbTimedOut = ''timed_out''"

record mailbox =
  mb_model :: robot_model_spec
  mb_timeout :: pyfloat
  mb_zero_drive :: "pyfloat list"
  mb_zero_steering :: "pyfloat list"
  mb_latest :: "wheel_command option"
  mb_last_valid_received_at :: "pyfloat option"
  mb_latest_valid_event_time :: "pyfloat option"
  mb_latest_accept_time :: "pyfloat option"
  mb_latest_query_time :: "pyfloat option"
  mb_generation :: int
  mb_valid_count :: int
  mb_invalid_count :: int
  mb_last_error :: "msg option"
  mb_state :: mailbox_state
  mb_frequency :: rolling_frequency

definition new_mailbox :: "robot_model_spec inst \<Rightarrow> pyval \<Rightarrow> pyval \<Rightarrow> (exc, mailbox) res" where
  "new_mailbox model timeout_sec frequency_window_sec =
     (case model of
        Foreign \<Rightarrow> Inl (value_error ''model must be a RobotModelSpec'')
      | Instance m \<Rightarrow>
          bind_res (expected_wheels m) (\<lambda>(drive_count, steering_count).
          bind_res (require_wall_time ''timeout_sec'' timeout_sec True) (\<lambda>timeout.
          bind_res (require_wall_time ''frequency_window_sec'' frequency_window_sec True) (\<lambda>window.
          bind_res (new_rolling_frequency (PFloat window)) (\<lambda>freq.
            Inr \<lparr>mb_model = m, mb_timeout = timeout, mb_zero_drive = replicate drive_count f_zero,
                 mb_zero_steering = replicate steering_count f_zero, mb_latest = None,
                 mb_last_valid_received_at = None, mb_latest_valid_event_time = None,
                 mb_latest_accept_time = None, mb_latest_query_time = None, mb_generation = 0,
                 mb_valid_count = 0, mb_invalid_count = 0, mb_last_error = None,
                 mb_state = MbWaiting, mb_frequency = freq\<rparr>)))))"

subsection \<open>Writing\<close>

definition mb_check_generation :: "pyval \<Rightarrow> (exc, int option) res" where
  \<comment> \<open>the argument check of \<^verbatim>\<open>accept\<close>: None, or a nonnegative int\<close>
  "mb_check_generation generation =
     (if generation = PNone then Inr None
      else case as_int generation of
             Some n \<Rightarrow> ensure (0 \<le> n) (value_error ''generation must be a nonnegative integer'') (Inr (Some n))
           | None \<Rightarrow> Inl (value_error ''generation must be a nonnegative integer''))"

definition mb_accept_begin :: "pyval \<Rightarrow> mailbox \<Rightarrow> (exc, int option) res" where
  \<comment> \<open>first critical section: the generation this accept is bound to, \<open>None\<close> when already stale\<close>
  "mb_accept_begin generation mb =
     bind_res (mb_check_generation generation) (\<lambda>g.
       let accepted_generation = (case g of None \<Rightarrow> mb_generation mb | Some n \<Rightarrow> n)
       in Inr (if accepted_generation \<noteq> mb_generation mb then None else Some accepted_generation))"

definition mb_validation_error :: "wheel_command inst \<Rightarrow> robot_model_spec \<Rightarrow> (exc, msg option) res" where
  \<comment> \<open>between the critical sections: the text of the ValueError, if any\<close>
  "mb_validation_error command model =
     (case command of
        Foreign \<Rightarrow> Inr (Some (lit ''command must be a WheelCommand''))
      | Instance c \<Rightarrow>
          (case validate_wheel_command c model of
             Inr _ \<Rightarrow> Inr None
           | Inl e \<Rightarrow> if is_value_error e then Inr (Some (exc_msg e)) else Inl e))"

definition mb_accept_commit ::
  "wheel_command inst \<Rightarrow> pyfloat \<Rightarrow> msg option \<Rightarrow> int \<Rightarrow> (exc, mailbox, bool) op" where
  \<comment> \<open>second critical section\<close>
  "mb_accept_commit command normalized_time validation_error accepted_generation mb =
     (if accepted_generation \<noteq> mb_generation mb then (Inr False, mb)
      else if earlier_than normalized_time (mb_latest_accept_time mb)
      then (Inl (value_error ''received_at must not move backwards''), mb)
      else case validation_error of
             Some err \<Rightarrow>
               (Inr False,
                mb\<lparr>mb_latest_accept_time := Some normalized_time,
                   mb_invalid_count := mb_invalid_count mb + 1,
                   mb_last_error := Some err, mb_state := MbInvalid\<rparr>)
           | None \<Rightarrow>
               (case rf_record (PFloat normalized_time) (mb_frequency mb) of
                  (Inl e, f) \<Rightarrow> (Inl e, mb\<lparr>mb_frequency := f\<rparr>)
                | (Inr _, f) \<Rightarrow>
                    (Inr True,
                     mb\<lparr>mb_frequency := f, mb_latest_accept_time := Some normalized_time,
                        mb_latest := Some (the_instance command),
                        mb_last_valid_received_at := Some normalized_time,
                        mb_latest_valid_event_time := Some normalized_time,
                        mb_valid_count := mb_valid_count mb + 1,
                        mb_last_error := None, mb_state := MbActive\<rparr>)))"

definition mb_accept ::
  "wheel_command inst \<Rightarrow> pyval \<Rightarrow> pyval \<Rightarrow> (exc, mailbox, bool) op" where
  \<comment> \<open>the whole method when no other thread runs between its two critical sections\<close>
  "mb_accept command received_at generation mb =
     (case mb_accept_begin generation mb of
        Inl e \<Rightarrow> (Inl e, mb)
      | Inr None \<Rightarrow> (Inr False, mb)
      | Inr (Some g) \<Rightarrow>
          (case bind_res (require_wall_time ''received_at'' received_at False) (\<lambda>t.
                  bind_res (mb_validation_error command (mb_model mb)) (\<lambda>err. Inr (t, err))) of
             Inl e \<Rightarrow> (Inl e, mb)
           | Inr (t, err) \<Rightarrow> mb_accept_commit command t err g mb))"

definition mb_clear :: "mailbox \<Rightarrow> mailbox" where
  "mb_clear mb = mb\<lparr>mb_generation := mb_generation mb + 1, mb_latest := None,
     mb_last_valid_received_at := None, mb_last_error := None, mb_state := MbWaiting\<rparr>"

subsection \<open>Reading\<close>

definition mb_timed_out :: "pyfloat \<Rightarrow> mailbox \<Rightarrow> bool" where
  "mb_timed_out now mb =
     (case mb_last_valid_received_at mb of
        None \<Rightarrow> False
      | Some t \<Rightarrow> f_le (mb_timeout mb) (f_sub now t))"

definition mb_refresh_state :: "pyfloat \<Rightarrow> mailbox \<Rightarrow> mailbox" where
  "mb_refresh_state now mb =
     (if mb_latest mb = None
      then (if mb_state mb \<noteq> MbInvalid then mb\<lparr>mb_state := MbWaiting\<rparr> else mb)
      else if mb_timed_out now mb then mb\<lparr>mb_state := MbTimedOut\<rparr>
      else if mb_state mb \<noteq> MbInvalid then mb\<lparr>mb_state := MbActive\<rparr> else mb)"

definition mb_decision_locked :: "pyfloat \<Rightarrow> mailbox \<Rightarrow> wheel_decision \<times> mailbox" where
  "mb_decision_locked now mb =
     (let mb' = mb_refresh_state now mb
      in case mb_latest mb' of
           None \<Rightarrow> (\<lparr>wd_drive = mb_zero_drive mb', wd_steering = mb_zero_steering mb',
                     wd_waiting = True, wd_timed_out = False\<rparr>, mb')
         | Some c \<Rightarrow>
             if mb_timed_out now mb'
             then (\<lparr>wd_drive = mb_zero_drive mb', wd_steering = mb_zero_steering mb',
                    wd_waiting = False, wd_timed_out = True\<rparr>, mb')
             else (\<lparr>wd_drive = wc_drive c, wd_steering = wc_steering c,
                    wd_waiting = False, wd_timed_out = False\<rparr>, mb'))"

definition mb_decision :: "pyval \<Rightarrow> (exc, mailbox, wheel_decision) op" where
  "mb_decision now mb =
     (case require_wall_time ''now'' now False of
        Inl e \<Rightarrow> (Inl e, mb)
      | Inr t \<Rightarrow>
          if earlier_than t (mb_latest_query_time mb)
          then (Inl (value_error ''now must not move backwards''), mb)
          else let (d, mb') = mb_decision_locked t mb
               in (Inr d, mb'\<lparr>mb_latest_query_time := Some t\<rparr>))"

definition mb_latest_timestamp_ns :: "mailbox \<Rightarrow> int option" where
  "mb_latest_timestamp_ns mb = map_option wc_timestamp_ns (mb_latest mb)"

definition opt_int :: "int option \<Rightarrow> pyval" where
  "opt_int x = (case x of None \<Rightarrow> PNone | Some n \<Rightarrow> PInt n)"

definition mb_snapshot :: "pyval \<Rightarrow> (exc, mailbox, wheel_command_status) op" where
  "mb_snapshot now mb =
     (case require_wall_time ''now'' now False of
        Inl e \<Rightarrow> (Inl e, mb)
      | Inr t \<Rightarrow>
          if earlier_than t (mb_latest_query_time mb)
          then (Inl (value_error ''now must not move backwards''), mb)
          else
            let horizon = (case mb_latest_valid_event_time mb of None \<Rightarrow> t | Some e \<Rightarrow> f_max t e)
            in case rf_hz (PFloat horizon) (mb_frequency mb) of
                 (Inl e, f) \<Rightarrow> (Inl e, mb\<lparr>mb_frequency := f\<rparr>)
               | (Inr hz, f) \<Rightarrow>
                   let mb' = (mb_refresh_state t (mb\<lparr>mb_frequency := f\<rparr>))\<lparr>mb_latest_query_time := Some t\<rparr>
                   in (mk_wheel_command_status (mailbox_state_name (mb_state mb')) (PFloat hz)
                         (opt_int (mb_latest_timestamp_ns mb')) (PInt (mb_valid_count mb'))
                         (PInt (mb_invalid_count mb')) (mb_last_error mb'), mb'))"

subsection \<open>Invariant\<close>

definition time_ok :: "pyfloat option \<Rightarrow> bool" where
  "time_ok t \<longleftrightarrow> (\<forall>x. t = Some x \<longrightarrow> (\<exists>q\<ge>0. x = Fin q))"

definition mailbox_inv :: "mailbox \<Rightarrow> bool" where
  "mailbox_inv mb \<longleftrightarrow>
     (\<exists>nd ns. expected_wheels (mb_model mb) = Inr (nd, ns)
        \<and> mb_zero_drive mb = replicate nd f_zero \<and> mb_zero_steering mb = replicate ns f_zero)
     \<and> (\<exists>t>0. mb_timeout mb = Fin t)
     \<and> (mb_latest mb = None \<longleftrightarrow> mb_last_valid_received_at mb = None)
     \<and> (\<forall>c. mb_latest mb = Some c \<longrightarrow> accepts_command (mb_model mb) c \<and> wf_wheel_command c)
     \<and> time_ok (mb_last_valid_received_at mb) \<and> time_ok (mb_latest_accept_time mb)
     \<and> time_ok (mb_latest_query_time mb)
     \<and> 0 \<le> mb_generation mb \<and> 0 \<le> mb_valid_count mb \<and> 0 \<le> mb_invalid_count mb"

lemma require_wall_time_Inr:
  assumes "require_wall_time name v pos = Inr x"
  shows "\<exists>q\<ge>0. x = Fin q \<and> (pos \<longrightarrow> 0 < q)"
proof -
  from assms have "f_isfinite x" "\<not> (if pos then f_le x f_zero else f_lt x f_zero)"
    by (auto simp: require_wall_time_def res_simps Let_def)
  then show ?thesis by (cases x) (auto split: if_splits)
qed

lemma expected_wheels_cases:
  "expected_wheels m = Inr (nd, ns) \<longleftrightarrow>
     (rm_controller_kind m = ''differential'' \<and> nd = 2 \<and> ns = 0)
     \<or> (rm_controller_kind m = ''active_steering'' \<and> nd = 4 \<and> ns = 2)"
  by (auto simp: expected_wheels_def)

lemma new_mailbox_inv: "new_mailbox m timeout window = Inr mb \<Longrightarrow> mailbox_inv mb"
  by (auto simp: new_mailbox_def mailbox_inv_def time_ok_def res_simps split: inst.splits
      dest!: require_wall_time_Inr)

lemma mb_clear_inv [inv_intros]: "mailbox_inv mb \<Longrightarrow> mailbox_inv (mb_clear mb)"
  by (auto simp: mailbox_inv_def mb_clear_def time_ok_def)

lemma mb_refresh_state_frame [simp]:
  "mb_model (mb_refresh_state t mb) = mb_model mb" "mb_timeout (mb_refresh_state t mb) = mb_timeout mb"
  "mb_latest (mb_refresh_state t mb) = mb_latest mb"
  "mb_last_valid_received_at (mb_refresh_state t mb) = mb_last_valid_received_at mb"
  "mb_generation (mb_refresh_state t mb) = mb_generation mb"
  "mb_zero_drive (mb_refresh_state t mb) = mb_zero_drive mb"
  "mb_zero_steering (mb_refresh_state t mb) = mb_zero_steering mb"
  by (simp_all add: mb_refresh_state_def)

lemma mb_refresh_state_inv: "mailbox_inv mb \<Longrightarrow> mailbox_inv (mb_refresh_state t mb)"
  by (auto simp: mb_refresh_state_def mailbox_inv_def)

lemma mb_timed_out_refresh [simp]: "mb_timed_out t (mb_refresh_state u mb) = mb_timed_out t mb"
  by (simp add: mb_timed_out_def split: option.split)

lemma mb_query_inv:
  "mailbox_inv mb \<Longrightarrow> require_wall_time name v False = Inr t \<Longrightarrow>
     mailbox_inv (mb\<lparr>mb_latest_query_time := Some t\<rparr>)"
  by (auto simp: mailbox_inv_def time_ok_def dest!: require_wall_time_Inr)

lemma mb_decision_locked_eq:
  "mb_decision_locked t mb =
     (\<lparr>wd_drive = (if mb_latest mb = None \<or> mb_timed_out t mb then mb_zero_drive mb
                   else wc_drive (the (mb_latest mb))),
       wd_steering = (if mb_latest mb = None \<or> mb_timed_out t mb then mb_zero_steering mb
                      else wc_steering (the (mb_latest mb))),
       wd_waiting = (mb_latest mb = None), wd_timed_out = (mb_latest mb \<noteq> None \<and> mb_timed_out t mb)\<rparr>,
      mb_refresh_state t mb)"
  by (auto simp: mb_decision_locked_def Let_def split: option.split)

lemma mb_decision_Inr:
  "mb_decision now mb = (Inr d, mb') \<longleftrightarrow>
     (\<exists>t. require_wall_time ''now'' now False = Inr t \<and> \<not> earlier_than t (mb_latest_query_time mb)
        \<and> d = fst (mb_decision_locked t mb)
        \<and> mb' = (mb_refresh_state t mb)\<lparr>mb_latest_query_time := Some t\<rparr>)"
  by (auto simp: mb_decision_def mb_decision_locked_eq split: sum.splits)

lemma mb_decision_inv [inv_intros]: "mailbox_inv mb \<Longrightarrow> mailbox_inv (snd (mb_decision now mb))"
  by (auto simp: mb_decision_def mb_decision_locked_eq split: sum.splits
      intro: mb_query_inv mb_refresh_state_inv)

lemma mb_snapshot_inv [inv_intros]: "mailbox_inv mb \<Longrightarrow> mailbox_inv (snd (mb_snapshot now mb))"
proof -
  assume inv: "mailbox_inv mb"
  have frq: "mailbox_inv (mb\<lparr>mb_frequency := f\<rparr>)" for f using inv by (simp add: mailbox_inv_def)
  show ?thesis
    using inv frq by (auto simp: mb_snapshot_def Let_def split: sum.splits prod.splits
        intro: mb_query_inv mb_refresh_state_inv)
qed

lemma mb_validation_error_None:
  "mb_validation_error cmd m = Inr None \<longleftrightarrow> (\<exists>c. cmd = Instance c \<and> accepts_command m c)"
proof (cases cmd)
  case (Instance c)
  then show ?thesis
    using validate_wheel_command_iff [of c m c] validate_wheel_command_same [of c m]
    by (auto simp: mb_validation_error_def split: sum.splits)
qed (simp add: mb_validation_error_def)

lemma mb_validation_error_returns: "\<exists>err. mb_validation_error cmd m = Inr err"
  using validate_wheel_command_error [of "the_instance cmd" m]
  by (auto simp: mb_validation_error_def split: inst.splits sum.splits)

definition command_ok :: "wheel_command inst \<Rightarrow> bool" where
  \<comment> \<open>an instance of \<^verbatim>\<open>WheelCommand\<close> was made by its constructor\<close>
  "command_ok cmd \<longleftrightarrow> (\<forall>c. cmd = Instance c \<longrightarrow> wf_wheel_command c)"

lemma mb_accept_commit_inv:
  assumes inv: "mailbox_inv mb" and cmd: "command_ok cmd" "mb_validation_error cmd (mb_model mb) = Inr err"
    and t: "t = Fin q" "0 \<le> q"
  shows "mailbox_inv (snd (mb_accept_commit cmd t err g mb))"
proof (cases err)
  case None
  with cmd obtain c where c: "cmd = Instance c" "accepts_command (mb_model mb) c" "wf_wheel_command c"
    by (auto simp: mb_validation_error_None command_ok_def)
  have "mailbox_inv (mb\<lparr>mb_frequency := f\<rparr>)" for f using inv by (simp add: mailbox_inv_def)
  with inv c None t show ?thesis
    by (auto simp: mb_accept_commit_def mailbox_inv_def time_ok_def split: prod.splits sum.splits)
next
  case (Some e)
  with inv t show ?thesis
    by (auto simp: mb_accept_commit_def mailbox_inv_def time_ok_def)
qed

subsection \<open>The threads that share a mailbox\<close>

text \<open>
  One step of any thread: the second critical section of some accept that began at any earlier time
  (with whatever generation it captured), a clear, or a query.
\<close>

inductive mailbox_step :: "mailbox \<Rightarrow> mailbox \<Rightarrow> bool" where
  commit: "require_wall_time ''received_at'' v False = Inr t \<Longrightarrow> command_ok cmd \<Longrightarrow>
     mb_validation_error cmd (mb_model mb) = Inr err \<Longrightarrow>
     mailbox_step mb (snd (mb_accept_commit cmd t err g mb))"
| clear: "mailbox_step mb (mb_clear mb)"
| decide: "mailbox_step mb (snd (mb_decision now mb))"
| snapshot: "mailbox_step mb (snd (mb_snapshot now mb))"

inductive_cases mailbox_stepE: "mailbox_step mb mb'"

abbreviation mailbox_steps :: "mailbox \<Rightarrow> mailbox \<Rightarrow> bool" where
  "mailbox_steps \<equiv> mailbox_step\<^sup>*\<^sup>*"

lemma mailbox_step_inv: "mailbox_step mb mb' \<Longrightarrow> mailbox_inv mb \<Longrightarrow> mailbox_inv mb'"
proof (induction rule: mailbox_step.induct)
  case (commit v t cmd mb err g)
  then show ?case using mb_accept_commit_inv require_wall_time_Inr [OF commit(1)] by blast
qed (auto intro: inv_intros)

lemma mailbox_steps_inv: "mailbox_steps mb mb' \<Longrightarrow> mailbox_inv mb \<Longrightarrow> mailbox_inv mb'"
  by (induction rule: rtranclp_induct) (auto intro: mailbox_step_inv)

lemma mb_accept_commit_frame:
  "mb_model (snd (mb_accept_commit cmd t err g mb)) = mb_model mb"
  "mb_timeout (snd (mb_accept_commit cmd t err g mb)) = mb_timeout mb"
  "mb_generation (snd (mb_accept_commit cmd t err g mb)) = mb_generation mb"
  by (auto simp: mb_accept_commit_def split: option.splits prod.splits sum.splits)

lemma mb_query_frame:
  "mb_model (snd (mb_decision now mb)) = mb_model mb" "mb_model (snd (mb_snapshot now mb)) = mb_model mb"
  "mb_timeout (snd (mb_decision now mb)) = mb_timeout mb" "mb_timeout (snd (mb_snapshot now mb)) = mb_timeout mb"
  "mb_generation (snd (mb_decision now mb)) = mb_generation mb"
  "mb_generation (snd (mb_snapshot now mb)) = mb_generation mb"
  "mb_latest (snd (mb_decision now mb)) = mb_latest mb" "mb_latest (snd (mb_snapshot now mb)) = mb_latest mb"
  by (auto simp: mb_decision_def mb_decision_locked_eq mb_snapshot_def Let_def split: sum.splits prod.splits)

lemma mb_clear_frame [simp]:
  "mb_model (mb_clear mb) = mb_model mb" "mb_timeout (mb_clear mb) = mb_timeout mb"
  "mb_generation (mb_clear mb) = mb_generation mb + 1" "mb_latest (mb_clear mb) = None"
  by (simp_all add: mb_clear_def)

lemma mailbox_steps_frame:
  "mailbox_steps mb mb' \<Longrightarrow> mb_model mb' = mb_model mb \<and> mb_timeout mb' = mb_timeout mb
     \<and> mb_generation mb \<le> mb_generation mb'"
  by (induction rule: rtranclp_induct)
    (auto elim!: mailbox_stepE simp: mb_accept_commit_frame mb_query_frame)

lemma mb_accept_commit_stale:
  "g \<noteq> mb_generation mb \<Longrightarrow> mb_accept_commit cmd t err g mb = (Inr False, mb)"
  by (simp add: mb_accept_commit_def)

lemma mb_accept_begin_current: "mb_accept_begin generation mb = Inr (Some g) \<Longrightarrow> g = mb_generation mb"
  by (auto simp: mb_accept_begin_def res_simps Let_def split: if_splits)

subsection \<open>What the physics thread gets\<close>

text \<open>
  C5. The mailbox is a fail-safe: after any interleaving of callback commits (however old the accept
  call they belong to), clears and queries on a new mailbox for a vehicle, every decision the physics
  thread gets has the vehicle's wheel counts; it is the all-zero command whenever no command is held
  or the held one is older than the timeout, and otherwise it is exactly the held command, which
  the vehicle's command check accepts and whose age, in doubles, is below the timeout.
\<close>

theorem mailbox_decision_safe:
  assumes "new_mailbox (Instance m) timeout window = Inr mb0" and "mailbox_steps mb0 mb"
    and "mb_decision now mb = (Inr d, mb')"
  shows "expected_wheels m = Inr (length (wd_drive d), length (wd_steering d))
    \<and> (if wd_waiting d \<or> wd_timed_out d
      then set (wd_drive d) \<subseteq> {f_zero} \<and> set (wd_steering d) \<subseteq> {f_zero}
      else \<exists>c t t0. mb_latest mb = Some c \<and> accepts_command m c
        \<and> wd_drive d = wc_drive c \<and> wd_steering d = wc_steering c
        \<and> require_wall_time ''now'' now False = Inr t \<and> mb_last_valid_received_at mb = Some t0
        \<and> \<not> f_le (mb_timeout mb0) (f_sub t t0))"
proof -
  have inv: "mailbox_inv mb" using mailbox_steps_inv [OF assms(2) new_mailbox_inv [OF assms(1)]] .
  have "mb_model mb0 = m" using assms(1) by (auto simp: new_mailbox_def res_simps)
  with mailbox_steps_frame [OF assms(2)]
  have model: "mb_model mb = m" "mb_timeout mb = mb_timeout mb0" by simp_all
  from inv obtain nd ns where zero: "expected_wheels m = Inr (nd, ns)"
    "mb_zero_drive mb = replicate nd f_zero" "mb_zero_steering mb = replicate ns f_zero"
    unfolding mailbox_inv_def model by blast
  have held: "accepts_command m c" if "mb_latest mb = Some c" for c
    using inv that unfolding mailbox_inv_def model by blast
  have recv: "mb_latest mb = None \<longleftrightarrow> mb_last_valid_received_at mb = None"
    using inv unfolding mailbox_inv_def by blast
  from assms(3) obtain t where t: "require_wall_time ''now'' now False = Inr t"
    "d = fst (mb_decision_locked t mb)" by (auto simp: mb_decision_Inr)
  have d: "d = fst (mb_decision_locked t mb)" by (rule t(2))
  have zeros: "set (replicate n f_zero) \<subseteq> {f_zero}" for n by (auto dest: in_set_replicate [THEN iffD1])
  show ?thesis
  proof (cases "mb_latest mb")
    case None
    with zero zeros d show ?thesis by (simp add: mb_decision_locked_eq)
  next
    case (Some c)
    then obtain t0 where t0: "mb_last_valid_received_at mb = Some t0" using recv by auto
    from held [OF Some] zero have counts: "length (wc_drive c) = nd" "length (wc_steering c) = ns"
      by (auto simp: accepts_command_def)
    show ?thesis
    proof (cases "mb_timed_out t mb")
      case True
      with zero d Some zeros show ?thesis by (simp add: mb_decision_locked_eq)
    next
      case False
      then have "\<not> f_le (mb_timeout mb0) (f_sub t t0)" by (simp add: mb_timed_out_def t0 model)
      with False zero d Some counts t(1) t0 held [OF Some] show ?thesis
        by (simp add: mb_decision_locked_eq)
    qed
  qed
qed

definition example_mailbox :: mailbox where
  "example_mailbox = \<lparr>mb_model = df_mid, mb_timeout = Fin 1,
     mb_zero_drive = [f_zero, f_zero], mb_zero_steering = [], mb_latest = None,
     mb_last_valid_received_at = None, mb_latest_valid_event_time = None,
     mb_latest_accept_time = None, mb_latest_query_time = None, mb_generation = 0,
     mb_valid_count = 0, mb_invalid_count = 0, mb_last_error = None, mb_state = MbWaiting,
     mb_frequency = \<lparr>rf_window = Fin 2, rf_events = [], rf_latest_event = None, rf_latest_query = None\<rparr>\<rparr>"

definition example_command :: wheel_command where
  "example_command = \<lparr>wc_timestamp_ns = 5, wc_drive = [Fin 3, Fin 4], wc_steering = []\<rparr>"

lemma example_mailbox_new:
  "new_mailbox (Instance df_mid) (PFloat (Fin 1)) (PFloat (Fin 2)) = Inr example_mailbox"
  by (simp add: new_mailbox_def example_mailbox_def expected_wheels_def df_mid_def
      require_wall_time_def new_rolling_frequency_def st_require_finite_float_def numeral_2_eq_2)

lemma example_command_accepted: "accepts_command df_mid example_command"
  by (auto simp: accepts_command_def example_command_def df_mid_def expected_wheels_def fl_2_20
      within_limit_def valid_limit_iff numeral_2_eq_2)

definition example_mailbox_active :: mailbox where
  "example_mailbox_active =
     snd (mb_accept_commit (Instance example_command) (Fin 7) None 0 example_mailbox)"

lemma example_mailbox_active_step: "mailbox_step example_mailbox example_mailbox_active"
  unfolding example_mailbox_active_def
  by (rule mailbox_step.commit [where v = "PFloat (Fin 7)"])
    (use example_command_accepted in \<open>simp_all add: require_wall_time_def command_ok_def
      wf_wheel_command_def mb_validation_error_None example_mailbox_def\<close>,
     simp_all add: example_command_def)

lemma example_mailbox_active_steps: "mailbox_steps example_mailbox example_mailbox_active"
  using example_mailbox_active_step by (rule r_into_rtranclp)

lemma example_decision:
  "fst (mb_decision (PFloat (Fin 7)) example_mailbox_active) =
     Inr \<lparr>wd_drive = [Fin 3, Fin 4], wd_steering = [], wd_waiting = False, wd_timed_out = False\<rparr>"
  by code_simp

theorem mailbox_decision_safe_witness:
  "expected_wheels df_mid = Inr (2, 0) \<and> (\<exists>c t t0. mb_latest example_mailbox_active = Some c
     \<and> accepts_command df_mid c \<and> [Fin 3, Fin 4] = wc_drive c \<and> [] = wc_steering c
     \<and> require_wall_time ''now'' (PFloat (Fin 7)) False = Inr t
     \<and> mb_last_valid_received_at example_mailbox_active = Some t0
     \<and> \<not> f_le (mb_timeout example_mailbox) (f_sub t t0))"
proof -
  have "mb_decision (PFloat (Fin 7)) example_mailbox_active =
      (Inr \<lparr>wd_drive = [Fin 3, Fin 4], wd_steering = [], wd_waiting = False, wd_timed_out = False\<rparr>,
       snd (mb_decision (PFloat (Fin 7)) example_mailbox_active))"
    using example_decision by (metis prod.collapse)
  from mailbox_decision_safe [OF example_mailbox_new example_mailbox_active_steps this]
  show ?thesis by (simp add: numeral_2_eq_2)
qed

text \<open>
  A command whose accept began before a clear can never reach the actuators after it: if the
  mailbox is cleared at any point between the two critical sections of an accept, whatever else the
  other threads do in between, the commit returns False and changes nothing.
\<close>

theorem mailbox_clear_invalidates_pending:
  assumes "mb_accept_begin generation mb = Inr (Some g)" and "mailbox_steps mb mb1"
    and "mailbox_steps (mb_clear mb1) mb2"
  shows "mb_accept_commit cmd t err g mb2 = (Inr False, mb2)"
proof (rule mb_accept_commit_stale)
  have "g = mb_generation mb" by (rule mb_accept_begin_current [OF assms(1)])
  with mailbox_steps_frame [OF assms(2)] mailbox_steps_frame [OF assms(3)]
  show "g \<noteq> mb_generation mb2" by simp
qed

theorem mailbox_clear_invalidates_pending_witness:
  "mb_accept_commit (Instance example_command) (Fin 8) None 0 (mb_clear example_mailbox_active)
     = (Inr False, mb_clear example_mailbox_active)"
proof (rule mailbox_clear_invalidates_pending)
  show "mb_accept_begin PNone example_mailbox = Inr (Some 0)"
    by (simp add: mb_accept_begin_def mb_check_generation_def example_mailbox_def)
  show "mailbox_steps example_mailbox example_mailbox_active"
    by (rule example_mailbox_active_steps)
qed simp

end
