(* ===== verification/RuntimeProtocol.thy ===== *)
theory RuntimeProtocol
  imports Authority Mailbox
begin

text \<open>
  The runtime protocol controller of \<^verbatim>\<open>slope_sim/interfaces/v2/runtime_protocol.py\<close>: it composes the
  session, the command authority and the mailbox under one condition variable, binds every callback
  to an ingress token captured before decoding, and projects transport quality, rebuilds, fatal
  exhaustion and shutdown on them.  The transport and the decoder are arguments: what
  \<^verbatim>\<open>poll_peer_state()\<close>, \<^verbatim>\<open>snapshot()\<close>, \<^verbatim>\<open>close()\<close> and the codec returned.
\<close>

subsection \<open>State\<close>

record ingress_token =
  it_lifecycle_generation :: int
  it_subscription_token :: int
  it_mailbox_generation :: int

record ingress_result =
  ir_accepted :: bool
  ir_reason :: msg
  ir_source_id :: "string option"
  ir_source_session_id :: "bytes option"
  ir_sequence :: "int option"
  ir_simulation_session_id :: "bytes option"
  ir_world_generation :: "int option"
  ir_received_at :: pyfloat

record topic_quality =
  tq_topic :: string
  tq_protocol_state :: string
  tq_peer_count :: pyval

record runtime_protocol =
  rp_model :: robot_model_spec
  rp_timeout_sec :: pyval
  rp_authority :: authority
  rp_mailbox :: mailbox
  rp_lifecycle_generation :: int
  rp_subscription_token :: int
  rp_command_protocol_state :: string
  rp_closed :: bool
  rp_fatal_error :: "msg option"

record runtime_snapshot =
  rs_simulation_session_id :: bytes
  rs_descriptor_sha256 :: bytes
  rs_world_generation :: int
  rs_command_generation :: int
  rs_lifecycle_generation :: int
  rs_subscription_token :: int
  rs_command_protocol_state :: string
  rs_authority :: authority_snapshot
  rs_closed :: bool
  rs_fatal_error :: "msg option"

definition default_frequency_window :: pyval where
  "default_frequency_window = PFloat (fl 2)"

definition new_runtime_protocol ::
  "robot_model_spec inst \<Rightarrow> descriptor_identity inst \<Rightarrow> pyval \<Rightarrow> pyval \<Rightarrow> (exc, runtime_protocol) res" where
  \<comment> \<open>\<open>session_id\<close> is what the session id factory returned; \<^verbatim>\<open>monotonic\<close> is callable\<close>
  "new_runtime_protocol model descriptor timeout_sec session_id =
     (case model of
        Foreign \<Rightarrow> Inl (value_error ''model must be a RobotModelSpec'')
      | Instance m \<Rightarrow>
     (case descriptor of
        Foreign \<Rightarrow> Inl (value_error ''descriptor must be a DescriptorIdentity'')
      | Instance d \<Rightarrow>
          bind_res (new_protocol_session d session_id) (\<lambda>s.
          bind_res (new_authority (Instance s)) (\<lambda>a.
          bind_res (new_mailbox (Instance m) timeout_sec default_frequency_window) (\<lambda>mb.
            Inr \<lparr>rp_model = m, rp_timeout_sec = timeout_sec, rp_authority = a, rp_mailbox = mb,
                 rp_lifecycle_generation = 0, rp_subscription_token = 0,
                 rp_command_protocol_state = ''not_checked'', rp_closed = False,
                 rp_fatal_error = None\<rparr>)))))"

definition runtime_snapshot_of :: "runtime_protocol \<Rightarrow> runtime_snapshot" where
  "runtime_snapshot_of rp =
     (let s = au_session (rp_authority rp)
      in \<lparr>rs_simulation_session_id = ps_simulation_session_id s,
          rs_descriptor_sha256 = di_sha256 (ps_descriptor s),
          rs_world_generation = ps_world_generation s,
          rs_command_generation = ps_command_generation s,
          rs_lifecycle_generation = rp_lifecycle_generation rp,
          rs_subscription_token = rp_subscription_token rp,
          rs_command_protocol_state = rp_command_protocol_state rp,
          rs_authority = authority_snapshot_of (rp_authority rp),
          rs_closed = rp_closed rp, rs_fatal_error = rp_fatal_error rp\<rparr>)"

subsection \<open>Fatal exhaustion\<close>

definition enter_fatal_locked :: "exc \<Rightarrow> runtime_protocol \<Rightarrow> runtime_protocol" where
  "enter_fatal_locked error rp =
     (if rp_fatal_error rp = None
      then rp\<lparr>rp_fatal_error := Some (exc_msg error),
              rp_lifecycle_generation := rp_lifecycle_generation rp + 1,
              rp_subscription_token := rp_subscription_token rp + 1,
              rp_mailbox := mb_clear (rp_mailbox rp),
              rp_authority := enter_fatal (rp_authority rp)\<rparr>
      else rp)"

definition catch_overflow :: "(exc, 'a) res \<times> runtime_protocol \<Rightarrow> (exc, 'a) res \<times> runtime_protocol" where
  \<comment> \<open>\<^verbatim>\<open>except OverflowError as error: self._enter_fatal_locked(error); raise\<close>\<close>
  "catch_overflow result =
     (case result of
        (Inl e, rp) \<Rightarrow> (Inl e, if is_overflow_error e then enter_fatal_locked e rp else rp)
      | (Inr x, rp) \<Rightarrow> (Inr x, rp))"

definition on_authority :: "(exc, authority, 'a) op \<Rightarrow> (exc, runtime_protocol, 'a) op" where
  "on_authority f rp = (case f (rp_authority rp) of (r, a) \<Rightarrow> (r, rp\<lparr>rp_authority := a\<rparr>))"

definition obey_clear :: "acceptance \<Rightarrow> runtime_protocol \<Rightarrow> runtime_protocol" where
  \<comment> \<open>\<^verbatim>\<open>if transition.clear_mailbox: self._mailbox.clear()\<close>\<close>
  "obey_clear transition rp =
     (if ac_clear_mailbox transition then rp\<lparr>rp_mailbox := mb_clear (rp_mailbox rp)\<rparr> else rp)"

subsection \<open>Transport\<close>

definition apply_transition ::
  "(exc, authority, acceptance) op \<Rightarrow> string \<Rightarrow> (exc, runtime_protocol, unit) op" where
  \<comment> \<open>the authority's transition, the clear it asks for, and the new protocol state\<close>
  "apply_transition f state =
     bind_op (on_authority f)
       (\<lambda>transition rp. (Inr (), (obey_clear transition rp)\<lparr>rp_command_protocol_state := state\<rparr>))"

definition apply_unverified_protocol :: "string \<Rightarrow> pyval \<Rightarrow> (exc, runtime_protocol, unit) op" where
  "apply_unverified_protocol state peer_count rp =
     (if peer_count = PNone
      then (Inl (runtime_error ''raw v2 command quality requires exact peer_count''), rp)
      else apply_transition
             (if rp_command_protocol_state rp = ''verified'' then suspend_protocol peer_count
              else observe_peer_count peer_count) state rp)"

definition apply_transport_snapshot :: "topic_quality list \<Rightarrow> (exc, runtime_protocol, unit) op" where
  "apply_transport_snapshot quality rp =
     (case find (\<lambda>q. tq_topic q = ''/sim/wheel/command'') quality of
        None \<Rightarrow> (Inl (Exc StopIterationErr []), rp)
      | Some q \<Rightarrow>
          catch_overflow
            (if tq_protocol_state q = ''verified''
             then if tq_peer_count q = PNone
                  then (Inl (runtime_error ''verified command topic requires exact peer_count''), rp)
                  else apply_transition (observe_peer_count (tq_peer_count q)) ''verified'' rp
             else apply_unverified_protocol (tq_protocol_state q) (tq_peer_count q) rp))"

definition refresh_allowed :: "runtime_protocol \<Rightarrow> (exc, unit) res" where
  "refresh_allowed rp =
     ensure (\<not> rp_closed rp) (runtime_error ''v2 runtime protocol is closed'')
       (case rp_fatal_error rp of
          Some m \<Rightarrow> Inl (Exc RuntimeErr (Lit ''v2 runtime protocol is fatal: '' # m))
        | None \<Rightarrow> Inr ())"

definition refresh_transport ::
  "(exc, unit) res \<Rightarrow> (exc, topic_quality list) res \<Rightarrow> (exc, runtime_protocol, topic_quality list) op" where
  \<comment> \<open>\<open>polled\<close> is what \<^verbatim>\<open>poll_peer_state()\<close> did and \<open>snapshot\<close> what \<^verbatim>\<open>snapshot()\<close> then gave\<close>
  "refresh_transport polled snapshot rp =
     (case refresh_allowed rp of
        Inl e \<Rightarrow> (Inl e, rp)
      | Inr _ \<Rightarrow>
     (case polled of
        Inl e \<Rightarrow>
          if exc_kind e = ProtocolConflictErr
          then (case snapshot of
                  Inl e' \<Rightarrow> (Inl e', rp)
                | Inr q \<Rightarrow> (case apply_transport_snapshot q rp of
                              (Inl e', rp') \<Rightarrow> (Inl e', rp')
                            | (Inr _, rp') \<Rightarrow> (Inl e, rp')))
          else (Inl e, rp)
      | Inr _ \<Rightarrow>
          (case snapshot of
             Inl e' \<Rightarrow> (Inl e', rp)
           | Inr q \<Rightarrow> (case apply_transport_snapshot q rp of
                         (Inl e', rp') \<Rightarrow> (Inl e', rp')
                       | (Inr _, rp') \<Rightarrow> (Inr q, rp')))))"

subsection \<open>Ingress\<close>

definition capture_ingress :: "runtime_protocol \<Rightarrow> ingress_token" where
  "capture_ingress rp =
     \<lparr>it_lifecycle_generation = rp_lifecycle_generation rp,
      it_subscription_token = rp_subscription_token rp,
      it_mailbox_generation = mb_generation (rp_mailbox rp)\<rparr>"

definition make_ingress_result ::
  "wheel_command_v2 inst \<Rightarrow> bool \<Rightarrow> msg \<Rightarrow> pyfloat \<Rightarrow> ingress_result" where
  \<comment> \<open>an object that is not a decoded command has none of the attributes\<close>
  "make_ingress_result command accepted reason received_at =
     (let get = (\<lambda>f. case command of Instance c \<Rightarrow> Some (f c) | Foreign \<Rightarrow> None)
      in \<lparr>ir_accepted = accepted, ir_reason = reason,
          ir_source_id = (case command of Instance c \<Rightarrow> Some (cv_source_id c) | Foreign \<Rightarrow> None),
          ir_source_session_id = (case command of Instance c \<Rightarrow> Some (cv_source_session_id c) | Foreign \<Rightarrow> None),
          ir_sequence = get cv_sequence,
          ir_simulation_session_id = (case command of Instance c \<Rightarrow> Some (cv_simulation_session_id c) | Foreign \<Rightarrow> None),
          ir_world_generation = get cv_world_generation,
          ir_received_at = received_at\<rparr>)"

definition ingress_current :: "ingress_token inst \<Rightarrow> runtime_protocol \<Rightarrow> bool" where
  "ingress_current ingress rp \<longleftrightarrow>
     \<not> (rp_closed rp \<or> rp_fatal_error rp \<noteq> None \<or> rp_command_protocol_state rp \<noteq> ''verified''
        \<or> (case ingress of
             Foreign \<Rightarrow> True
           | Instance t \<Rightarrow>
               it_lifecycle_generation t \<noteq> rp_lifecycle_generation rp
               \<or> it_subscription_token t \<noteq> rp_subscription_token rp
               \<or> it_mailbox_generation t \<noteq> mb_generation (rp_mailbox rp)))"

definition commit_to_mailbox ::
  "wheel_command_v2 inst \<Rightarrow> pyfloat \<Rightarrow> int \<Rightarrow> (exc, mailbox, bool) op" where
  \<comment> \<open>the commit callback; the authority runs it for a \<^verbatim>\<open>WheelCommandV2\<close> only\<close>
  "commit_to_mailbox command received_at generation mb =
     (case command of
        Foreign \<Rightarrow> (Inl (Exc AttributeErr (lit ''to_v1_motion'')), mb)
      | Instance c \<Rightarrow>
          (case to_v1_motion c of
             Inl e \<Rightarrow> (Inl e, mb)
           | Inr w \<Rightarrow> mb_accept (Instance w) (PFloat received_at) (PInt generation) mb))"

definition accept_decoded_command_result ::
  "wheel_command_v2 inst \<Rightarrow> pyfloat \<Rightarrow> ingress_token inst \<Rightarrow> (exc, runtime_protocol, ingress_result) op" where
  "accept_decoded_command_result command received_at ingress rp =
     (if \<not> ingress_current ingress rp
      then (Inr (make_ingress_result command False (lit ''command ingress is no longer current'') received_at), rp)
      else
        case au_accept command (Instance (rp_model rp))
               (commit_to_mailbox command received_at (it_mailbox_generation (the_instance ingress)))
               (rp_authority rp, rp_mailbox rp) of
          (r, (a, mb)) \<Rightarrow>
            bind_op (\<lambda>rp. catch_overflow (r, rp\<lparr>rp_authority := a, rp_mailbox := mb\<rparr>))
              (\<lambda>transition rp.
                (Inr (make_ingress_result command (ac_accepted transition) (ac_reason transition) received_at),
                 obey_clear transition rp)) rp)"

definition decode_failure_reason :: "exc \<Rightarrow> msg" where
  \<comment> \<open>\<^verbatim>\<open>f"{type(error).__name__}: {error}"\<close> for a TypeError, a ValueError or one of its subclasses\<close>
  "decode_failure_reason e =
     Lit (case exc_kind e of
            TypeErr \<Rightarrow> ''TypeError: ''
          | ModelMismatchErr \<Rightarrow> ''WheelCommandModelMismatchError: ''
          | MechanicalLimitErr \<Rightarrow> ''WheelCommandMechanicalLimitError: ''
          | _ \<Rightarrow> ''ValueError: '') # exc_msg e"

definition accept_payload_result ::
  "(bytes \<Rightarrow> (exc, wheel_command_v2) res) \<Rightarrow> bytes \<Rightarrow> pyfloat \<Rightarrow> (exc, runtime_protocol, ingress_result) op" where
  \<comment> \<open>without another thread between the capture and the accept\<close>
  "accept_payload_result decode payload received_at rp =
     (let ingress = capture_ingress rp
      in case decode payload of
           Inl e \<Rightarrow>
             if exc_kind e = TypeErr \<or> is_value_error e
             then (Inr (make_ingress_result Foreign False (decode_failure_reason e) received_at), rp)
             else (Inl e, rp)
         | Inr c \<Rightarrow> accept_decoded_command_result (Instance c) received_at (Instance ingress) rp)"

subsection \<open>World rebuild, outputs, shutdown\<close>

definition rp_prepare_rebuild :: "(exc, runtime_protocol, unit) op" where
  "rp_prepare_rebuild rp =
     (let rp1 = rp\<lparr>rp_lifecycle_generation := rp_lifecycle_generation rp + 1,
                   rp_subscription_token := rp_subscription_token rp + 1\<rparr>
      in bind_op (\<lambda>rp. catch_overflow (on_authority au_prepare_rebuild rp))
           (\<lambda>transition rp. (Inr (), obey_clear transition rp)) rp1)"

definition rp_abort_rebuild :: "(exc, runtime_protocol, unit) op" where
  "rp_abort_rebuild =
     bind_op (on_authority au_abort_rebuild)
       (\<lambda>_ rp. (Inr (), rp\<lparr>rp_subscription_token := rp_subscription_token rp + 1\<rparr>))"

definition rp_fault_rebuild :: "(exc, runtime_protocol, unit) op" where
  "rp_fault_rebuild =
     bind_op (on_authority au_fault_rebuild)
       (\<lambda>_ rp. (Inr (), rp\<lparr>rp_subscription_token := rp_subscription_token rp + 1\<rparr>))"

definition outputs_allowed :: "runtime_protocol \<Rightarrow> (exc, unit) res" where
  "outputs_allowed rp =
     ensure (\<not> rp_closed rp) (runtime_error ''v2 runtime protocol is closed'')
     (ensure (rp_fatal_error rp = None) (runtime_error ''v2 runtime protocol is unavailable'') (Inr ()))"

definition rp_reserve_output :: "string \<Rightarrow> (exc, runtime_protocol, output_identity) op" where
  "rp_reserve_output topic =
     bind_op (\<lambda>rp. (outputs_allowed rp, rp)) (\<lambda>_. on_authority (with_session (reserve_output topic)))"

fun reserve_each :: "string list \<Rightarrow> (exc, runtime_protocol, output_identity list) op" where
  \<comment> \<open>the generator expression: an exception keeps the reservations already made\<close>
  "reserve_each [] rp = (Inr [], rp)"
| "reserve_each (t # ts) rp =
     bind_op (on_authority (with_session (reserve_output t)))
       (\<lambda>i. bind_op (reserve_each ts) (\<lambda>is rp. (Inr (i # is), rp))) rp"

definition rp_reserve_outputs :: "string list \<Rightarrow> (exc, runtime_protocol, output_identity list) op" where
  \<comment> \<open>for a tuple of strings; any other argument is a ValueError before the state is read\<close>
  "rp_reserve_outputs topics rp =
     (if topics = [] then (Inl (value_error ''topics must be a nonempty tuple of topic strings''), rp)
      else if \<not> distinct topics then (Inl (value_error ''topics must not contain duplicates''), rp)
      else bind_op (\<lambda>rp. (outputs_allowed rp, rp)) (\<lambda>_. reserve_each topics) rp)"

definition rp_commit_rebuild :: "robot_model_spec inst option \<Rightarrow> (exc, runtime_protocol, int) op" where
  "rp_commit_rebuild model rp =
     (if model = Some Foreign then (Inl (value_error ''model must be a RobotModelSpec or None''), rp)
      else bind_op (on_authority au_commit_rebuild)
             (\<lambda>generation rp.
               case model of
                 Some (Instance m) \<Rightarrow>
                   if m \<noteq> rp_model rp
                   then (case new_mailbox (Instance m) (rp_timeout_sec rp) default_frequency_window of
                           Inl e \<Rightarrow> (Inl e, rp\<lparr>rp_model := m\<rparr>)
                         | Inr mb \<Rightarrow> (Inr generation, rp\<lparr>rp_model := m, rp_mailbox := mb\<rparr>))
                   else (Inr generation, rp)
               | _ \<Rightarrow> (Inr generation, rp)) rp)"

definition rp_close :: "(exc, unit) res \<Rightarrow> (exc, runtime_protocol, unit) op" where
  \<comment> \<open>\<open>closing\<close> is what \<^verbatim>\<open>transport.close()\<close> did, outside the lock\<close>
  "rp_close closing rp =
     (if rp_closed rp then (Inr (), rp)
      else
        let rp1 = rp\<lparr>rp_closed := True, rp_lifecycle_generation := rp_lifecycle_generation rp + 1,
                     rp_subscription_token := rp_subscription_token rp + 1\<rparr>;
            (overflow, rp2) =
              (case on_authority (suspend_protocol (PInt 0)) rp1 of
                 (Inr transition, rp2) \<Rightarrow> (None, obey_clear transition rp2)
               | (Inl e, rp2) \<Rightarrow> (Some e, enter_fatal_locked e rp2))
        in case closing of
             Inl e \<Rightarrow> (Inl e, rp2)
           | Inr _ \<Rightarrow> (case overflow of Some e \<Rightarrow> Inl e | None \<Rightarrow> Inr (), rp2))"

subsection \<open>The mailbox as the authority's sink\<close>

lemma mb_accept_held:
  "mb_accept cmd t g mb = (r, mb') \<Longrightarrow>
     mb_latest mb' = (if r = Inr True then Some (the_instance cmd) else mb_latest mb)"
  by (auto simp: mb_accept_def mb_accept_commit_def split: sum.splits option.splits prod.splits if_splits)

lemma commit_to_mailbox_held:
  "commit_to_mailbox cmd t g mb = (r, mb') \<Longrightarrow>
     mb_latest mb' = (if r = Inr True then Some (projr (to_v1_motion (the_instance cmd))) else mb_latest mb)"
  by (auto simp: commit_to_mailbox_def split: inst.splits sum.splits dest: mb_accept_held)

interpretation mailbox_sink: command_sink "\<lambda>(cmd, t, g). commit_to_mailbox cmd t g"
    "\<lambda>(cmd, t, g). projr (to_v1_motion (the_instance cmd))" mb_clear mb_latest
  by unfold_locales (auto dest: commit_to_mailbox_held)

lemma mb_accept_inv:
  assumes inv: "mailbox_inv mb" and ok: "command_ok cmd"
  shows "mailbox_inv (snd (mb_accept cmd t g mb)) \<and> mb_model (snd (mb_accept cmd t g mb)) = mb_model mb"
proof -
  have commit: "mailbox_inv (snd (mb_accept_commit cmd x err n mb))"
    if "require_wall_time ''received_at'' t False = Inr x" "mb_validation_error cmd (mb_model mb) = Inr err" for x err n
    using require_wall_time_Inr [OF that(1)] mb_accept_commit_inv [OF inv ok that(2)] by blast
  show ?thesis
    using inv commit by (auto simp: mb_accept_def res_simps mb_accept_commit_frame bind_res_Inr_iff
        split: sum.splits option.splits prod.splits)
qed

lemma commit_to_mailbox_inv:
  assumes inv: "mailbox_inv mb" and ok: "v2_command_ok cmd"
  shows "mailbox_inv (snd (commit_to_mailbox cmd t g mb))
    \<and> mb_model (snd (commit_to_mailbox cmd t g mb)) = mb_model mb"
proof (cases cmd)
  case (Instance c)
  with ok have wf: "wf_command_v2 c" by (simp add: v2_command_ok_def)
  then have "command_ok (Instance (motion_of c))" by (simp add: command_ok_def wf_motion_of)
  from mb_accept_inv [OF inv this] Instance to_v1_motion_wf [OF wf] show ?thesis
    by (simp add: commit_to_mailbox_def)
qed (use inv in \<open>simp add: commit_to_mailbox_def\<close>)

subsection \<open>Invariant\<close>

definition linked :: "authority \<Rightarrow> mailbox \<Rightarrow> bool" where
  "linked a mb \<longleftrightarrow> (au_owner a = None \<longleftrightarrow> mb_latest mb = None)"

definition dead :: "runtime_protocol \<Rightarrow> bool" where
  "dead rp \<longleftrightarrow> rp_closed rp \<or> rp_fatal_error rp \<noteq> None"

definition rp_inv :: "runtime_protocol \<Rightarrow> bool" where
  "rp_inv rp \<longleftrightarrow>
     authority_inv (rp_authority rp) \<and> mailbox_inv (rp_mailbox rp) \<and> mb_model (rp_mailbox rp) = rp_model rp
     \<and> linked (rp_authority rp) (rp_mailbox rp)
     \<and> (dead rp \<longrightarrow> au_owner (rp_authority rp) = None)
     \<and> returns (require_wall_time ''timeout_sec'' (rp_timeout_sec rp) True)"

definition protocol_le :: "runtime_protocol \<Rightarrow> runtime_protocol \<Rightarrow> bool" where
  \<comment> \<open>what never goes back: death, the lifecycle count, and while alive the authority\<close>
  "protocol_le rp rp' \<longleftrightarrow>
     (dead rp \<longrightarrow> dead rp') \<and> rp_lifecycle_generation rp \<le> rp_lifecycle_generation rp'
     \<and> (\<not> dead rp' \<longrightarrow> authority_le (rp_authority rp) (rp_authority rp'))"

lemma protocol_le_refl: "protocol_le rp rp"
  by (simp add: protocol_le_def authority_le_refl)

lemma protocol_le_trans: "protocol_le a b \<Longrightarrow> protocol_le b c \<Longrightarrow> protocol_le a c"
  unfolding protocol_le_def by (meson authority_le_trans order_trans)

lemma obey_clear_simps [simp]:
  "rp_authority (obey_clear t rp) = rp_authority rp" "rp_model (obey_clear t rp) = rp_model rp"
  "rp_closed (obey_clear t rp) = rp_closed rp" "rp_fatal_error (obey_clear t rp) = rp_fatal_error rp"
  "rp_lifecycle_generation (obey_clear t rp) = rp_lifecycle_generation rp"
  "rp_timeout_sec (obey_clear t rp) = rp_timeout_sec rp"
  "rp_command_protocol_state (obey_clear t rp) = rp_command_protocol_state rp"
  "rp_mailbox (obey_clear t rp) = (if ac_clear_mailbox t then mb_clear (rp_mailbox rp) else rp_mailbox rp)"
  "dead (obey_clear t rp) = dead rp"
  by (simp_all add: obey_clear_def dead_def)

lemma enter_fatal_locked_inv:
  assumes "rp_inv rp" shows "rp_inv (enter_fatal_locked e rp)"
  using assms enter_fatal_inv [of "rp_authority rp"] mb_clear_inv [of "rp_mailbox rp"]
  by (auto simp: rp_inv_def enter_fatal_locked_def linked_def dead_def)
    (simp_all add: enter_fatal_def au_clear_owner_def)

lemma enter_fatal_locked_dead: "dead (enter_fatal_locked e rp)"
  by (simp add: enter_fatal_locked_def dead_def)

lemma enter_fatal_locked_le: "protocol_le rp (enter_fatal_locked e rp)"
  by (simp add: protocol_le_def enter_fatal_locked_dead) (simp add: enter_fatal_locked_def)

lemma rp_inv_authority_op:
  \<comment> \<open>an authority operation whose result is obeyed\<close>
  assumes inv: "rp_inv rp" and a: "authority_inv a'"
    and link: "linked a' (if clear then mb_clear (rp_mailbox rp) else rp_mailbox rp)"
    and alive: "dead rp' \<Longrightarrow> au_owner a' = None"
    and rp': "rp_authority rp' = a'" "rp_model rp' = rp_model rp" "rp_timeout_sec rp' = rp_timeout_sec rp"
      "rp_mailbox rp' = (if clear then mb_clear (rp_mailbox rp) else rp_mailbox rp)"
  shows "rp_inv rp'"
  using assms mb_clear_inv [of "rp_mailbox rp"] by (auto simp: rp_inv_def)

definition lawful_transition :: "(exc, authority, acceptance) op \<Rightarrow> bool" where
  "lawful_transition f \<longleftrightarrow>
     (\<forall>a. authority_inv a \<longrightarrow>
        authority_inv (snd (f a)) \<and> authority_le a (snd (f a))
        \<and> (au_owner a = None \<longrightarrow> au_owner (snd (f a)) = None)
        \<and> (\<forall>e. fst (f a) = Inl e \<longrightarrow> snd (f a) = a)
        \<and> (\<forall>acc mb. fst (f a) = Inr acc \<longrightarrow> linked a mb \<longrightarrow>
             linked (snd (f a)) (if ac_clear_mailbox acc then mb_clear mb else mb)))"

lemma bind_op_error_same:
  assumes "\<And>e. fst (f (au_session a)) = Inl e \<Longrightarrow> snd (f (au_session a)) = au_session a"
    and "\<And>x a1. \<exists>y a2. k x a1 = (Inr y, a2)"
    and "fst (bind_op (with_session f) k a) = Inl e"
  shows "snd (bind_op (with_session f) k a) = a"
proof (cases rule: with_session_cases [of f a])
  case (error e')
  with assms(1) [OF error(2)] show ?thesis by (simp add: bind_op_def)
next
  case (ok x)
  from assms(2) obtain y a2 where "k x (a\<lparr>au_session := snd (f (au_session a))\<rparr>) = (Inr y, a2)" by blast
  with ok assms(3) show ?thesis by (simp add: bind_op_def)
qed

lemma observe_lawful: "lawful_transition (observe_peer_count v)"
proof -
  have owner: "au_owner a = None \<Longrightarrow> au_owner (snd (observe_peer_count v a)) = None" for a
    by (cases rule: with_session_cases [of advance_command_generation a])
      (auto simp: observe_peer_count_def bind_op_def Let_def split: sum.splits)
  have err: "fst (observe_peer_count v a) = Inl e \<Longrightarrow> snd (observe_peer_count v a) = a" for a e
    by (cases rule: with_session_cases [of advance_command_generation a])
      (auto simp: observe_peer_count_def bind_op_def Let_def session_error_same split: sum.splits if_splits)
  have link: "linked (snd (observe_peer_count v a)) (if ac_clear_mailbox acc then mb_clear mb else mb)"
    if "authority_inv a" "fst (observe_peer_count v a) = Inr acc" "linked a mb" for a acc mb
    using mailbox_sink.observe_linked [OF that(1), of mb v acc "snd (observe_peer_count v a)"] that
    by (simp add: linked_def prod_eq_iff)
  show ?thesis
    using owner err link observe_peer_count_inv observe_peer_count_le
    by (simp add: lawful_transition_def)
qed

lemma suspend_lawful: "lawful_transition (suspend_protocol v)"
proof -
  have owner: "au_owner a = None \<Longrightarrow> au_owner (snd (suspend_protocol v a)) = None" for a
    by (cases rule: with_session_cases [of advance_command_generation a])
      (auto simp: suspend_protocol_def bind_op_def split: sum.splits)
  have err: "fst (suspend_protocol v a) = Inl e \<Longrightarrow> snd (suspend_protocol v a) = a" for a e
    by (cases rule: with_session_cases [of advance_command_generation a])
      (auto simp: suspend_protocol_def bind_op_def session_error_same split: sum.splits)
  have link: "linked (snd (suspend_protocol v a)) (if ac_clear_mailbox acc then mb_clear mb else mb)"
    if "fst (suspend_protocol v a) = Inr acc" for a acc mb
    using mailbox_sink.suspend_linked [of v a acc "snd (suspend_protocol v a)" mb] that
    by (simp add: linked_def prod_eq_iff)
  show ?thesis
    using owner err link suspend_protocol_inv suspend_protocol_le
    by (simp add: lawful_transition_def)
qed

lemma prepare_lawful: "lawful_transition au_prepare_rebuild"
proof -
  have owner: "au_owner a = None \<Longrightarrow> au_owner (snd (au_prepare_rebuild a)) = None" for a
    by (cases rule: with_session_cases [of session_prepare_rebuild a])
      (auto simp: au_prepare_rebuild_def bind_op_def)
  have err: "fst (au_prepare_rebuild a) = Inl e \<Longrightarrow> snd (au_prepare_rebuild a) = a" for a e
    unfolding au_prepare_rebuild_def by (rule bind_op_error_same) (auto simp: session_error_same)
  have link: "linked (snd (au_prepare_rebuild a)) (if ac_clear_mailbox acc then mb_clear mb else mb)"
    if "fst (au_prepare_rebuild a) = Inr acc" for a acc mb
    using mailbox_sink.prepare_linked [of a acc "snd (au_prepare_rebuild a)" mb] that
    by (simp add: linked_def prod_eq_iff)
  show ?thesis
    using owner err link au_rebuild_inv(1) au_prepare_le by (simp add: lawful_transition_def)
qed

lemma transition_obeyed:
  assumes law: "lawful_transition f" and inv: "rp_inv rp"
    and run: "on_authority f rp = (r, rp1)"
  shows "case r of
      Inl e \<Rightarrow> rp1 = rp
    | Inr acc \<Rightarrow> rp_inv (obey_clear acc rp1) \<and> protocol_le rp (obey_clear acc rp1)"
proof -
  let ?a = "rp_authority rp"
  from inv have a: "authority_inv ?a" "linked ?a (rp_mailbox rp)" by (simp_all add: rp_inv_def)
  have r: "fst (f ?a) = r" and rp1: "rp1 = rp\<lparr>rp_authority := snd (f ?a)\<rparr>"
    using run by (auto simp: on_authority_def split: prod.splits)
  show ?thesis
  proof (cases r)
    case (Inl e)
    with law a(1) r rp1 show ?thesis by (simp add: lawful_transition_def)
  next
    case (Inr acc)
    with law a r have facts: "authority_inv (snd (f ?a))" "authority_le ?a (snd (f ?a))"
      "au_owner ?a = None \<longrightarrow> au_owner (snd (f ?a)) = None"
      "linked (snd (f ?a)) (if ac_clear_mailbox acc then mb_clear (rp_mailbox rp) else rp_mailbox rp)"
      by (auto simp: lawful_transition_def)
    have "dead rp \<longrightarrow> au_owner ?a = None" using inv by (simp add: rp_inv_def)
    then have "rp_inv (obey_clear acc rp1)"
      using facts rp1 by (intro rp_inv_authority_op [OF inv facts(1,4)]) (auto simp: dead_def)
    moreover have "protocol_le rp (obey_clear acc rp1)"
      using facts(2) rp1 by (simp add: protocol_le_def dead_def)
    ultimately show ?thesis using Inr by simp
  qed
qed

subsection \<open>Every operation keeps the invariant and moves forward\<close>

definition advances :: "runtime_protocol \<Rightarrow> runtime_protocol \<Rightarrow> bool" where
  "advances rp rp' \<longleftrightarrow> rp_inv rp' \<and> protocol_le rp rp'"

lemma advances_refl: "rp_inv rp \<Longrightarrow> advances rp rp"
  by (simp add: advances_def protocol_le_refl)

lemma advances_trans: "advances a b \<Longrightarrow> advances b c \<Longrightarrow> advances a c"
  by (auto simp: advances_def intro: protocol_le_trans)

lemma advances_counters:
  assumes "rp_inv rp" and "rp_authority rp' = rp_authority rp" "rp_mailbox rp' = rp_mailbox rp"
    "rp_model rp' = rp_model rp" "rp_timeout_sec rp' = rp_timeout_sec rp" "rp_closed rp' = rp_closed rp"
    "rp_fatal_error rp' = rp_fatal_error rp" "rp_lifecycle_generation rp \<le> rp_lifecycle_generation rp'"
  shows "advances rp rp'"
  using assms by (simp add: advances_def rp_inv_def protocol_le_def dead_def authority_le_refl)

lemma enter_fatal_advances: "rp_inv rp \<Longrightarrow> advances rp (enter_fatal_locked e rp)"
  by (simp add: advances_def enter_fatal_locked_inv enter_fatal_locked_le)

lemma catch_overflow_advances: "advances rp (snd result) \<Longrightarrow> advances rp (snd (catch_overflow result))"
proof -
  assume adv: "advances rp (snd result)"
  then have "advances (snd result) (enter_fatal_locked e (snd result))" for e
    by (intro enter_fatal_advances) (simp add: advances_def)
  with adv show ?thesis
    by (cases result) (auto simp: catch_overflow_def split: sum.splits intro: advances_trans)
qed

lemma obeyed_advances:
  assumes law: "lawful_transition f" and inv: "rp_inv rp"
  shows "advances rp (snd (bind_op (on_authority f)
    (\<lambda>t rp. (Inr x, (obey_clear t rp)\<lparr>rp_command_protocol_state := state\<rparr>)) rp))"
proof -
  obtain r rp1 where run: "on_authority f rp = (r, rp1)" by fastforce
  from transition_obeyed [OF law inv run] show ?thesis
  proof (cases r)
    case (Inr acc)
    with transition_obeyed [OF law inv run] have adv: "advances rp (obey_clear acc rp1)"
      by (simp add: advances_def)
    then have "rp_inv (obey_clear acc rp1)" by (simp add: advances_def)
    then have "advances (obey_clear acc rp1) ((obey_clear acc rp1)\<lparr>rp_command_protocol_state := state\<rparr>)"
      by (intro advances_counters) auto
    with adv run Inr show ?thesis by (auto simp: bind_op_def intro: advances_trans)
  qed (use inv run in \<open>simp add: bind_op_def advances_refl\<close>)
qed

lemma apply_transition_advances:
  "lawful_transition f \<Longrightarrow> rp_inv rp \<Longrightarrow> advances rp (snd (apply_transition f state rp))"
  unfolding apply_transition_def by (rule obeyed_advances)

lemma apply_transport_snapshot_advances:
  "rp_inv rp \<Longrightarrow> advances rp (snd (apply_transport_snapshot quality rp))"
  by (auto simp: apply_transport_snapshot_def apply_unverified_protocol_def split: option.splits
      intro!: catch_overflow_advances apply_transition_advances observe_lawful suspend_lawful advances_refl)

lemma rp_prepare_advances:
  assumes inv: "rp_inv rp" shows "advances rp (snd (rp_prepare_rebuild rp))"
proof -
  define rp1 where "rp1 = rp\<lparr>rp_lifecycle_generation := rp_lifecycle_generation rp + 1,
    rp_subscription_token := rp_subscription_token rp + 1\<rparr>"
  have adv1: "advances rp rp1" using inv by (intro advances_counters) (simp_all add: rp1_def)
  then have inv1: "rp_inv rp1" by (simp add: advances_def)
  obtain r rp2 where run: "on_authority au_prepare_rebuild rp1 = (r, rp2)" by fastforce
  have "advances rp1 (snd (rp_prepare_rebuild rp))"
  proof (cases r)
    case (Inl e)
    with transition_obeyed [OF prepare_lawful inv1 run] run show ?thesis
      by (auto simp: rp_prepare_rebuild_def rp1_def [symmetric] bind_op_def catch_overflow_def
          intro: advances_refl inv1 enter_fatal_advances)
  next
    case (Inr acc)
    with transition_obeyed [OF prepare_lawful inv1 run] run show ?thesis
      by (simp add: rp_prepare_rebuild_def rp1_def [symmetric] bind_op_def catch_overflow_def advances_def)
  qed
  with adv1 show ?thesis by (rule advances_trans)
qed

lemma on_authority_frame [simp]:
  "rp_lifecycle_generation (snd (on_authority f rp)) = rp_lifecycle_generation rp"
  "rp_mailbox (snd (on_authority f rp)) = rp_mailbox rp" "rp_model (snd (on_authority f rp)) = rp_model rp"
  "rp_authority (snd (on_authority f rp)) = snd (f (rp_authority rp))"
  "fst (on_authority f rp) = fst (f (rp_authority rp))"
  by (simp_all add: on_authority_def split: prod.split)

lemma catch_overflow_lifecycle:
  "rp_lifecycle_generation (snd result) \<le> rp_lifecycle_generation (snd (catch_overflow result))"
  by (cases result; cases "fst result") (auto simp: catch_overflow_def enter_fatal_locked_def)

lemma bind_op_snd: "snd (bind_op m k s) = (case fst (m s) of Inl e \<Rightarrow> snd (m s) | Inr x \<Rightarrow> snd (k x (snd (m s))))"
  by (simp add: bind_op_def split: prod.split sum.split)

lemma rp_prepare_lifecycle: "rp_lifecycle_generation rp < rp_lifecycle_generation (snd (rp_prepare_rebuild rp))"
proof -
  let ?rp = "rp\<lparr>rp_lifecycle_generation := rp_lifecycle_generation rp + 1,
    rp_subscription_token := rp_subscription_token rp + 1\<rparr>"
  have "rp_lifecycle_generation rp < rp_lifecycle_generation (snd (catch_overflow (on_authority au_prepare_rebuild ?rp)))"
    using catch_overflow_lifecycle [of "on_authority au_prepare_rebuild ?rp"] by simp
  then show ?thesis
    by (simp add: rp_prepare_rebuild_def bind_op_snd split: sum.split)
qed

lemma same_owner_advances:
  \<comment> \<open>commit, abort and fault of a rebuild, and reservations, leave the owner as it was\<close>
  assumes inv: "rp_inv rp" and a': "authority_inv a'" "authority_le (rp_authority rp) a'"
    and same: "au_owner a' = au_owner (rp_authority rp)"
  shows "advances rp (rp\<lparr>rp_authority := a'\<rparr>)"
  using assms by (auto simp: advances_def rp_inv_def protocol_le_def dead_def linked_def)

lemma ending_same_owner:
  assumes inv: "authority_inv a"
  shows "au_owner (snd (au_commit_rebuild a)) = au_owner a" "au_owner (snd (au_abort_rebuild a)) = au_owner a"
    "au_owner (snd (au_fault_rebuild a)) = au_owner a"
proof -
  have eq: "au_owner (snd (bind_op (with_session f) (\<lambda>x a. (r x, au_revoke (a\<lparr>au_rebuild_prepared := False\<rparr>))) a)) = au_owner a"
    if "\<And>x. fst (f (au_session a)) = Inr x \<Longrightarrow> ps_rebuild_prepared (au_session a)" for f r
  proof (cases rule: with_session_cases [of f a])
    case (ok x)
    with that [OF ok(2)] prepared_unowned [OF inv] authority_inv_parts(4) [OF inv] show ?thesis
      by (simp add: bind_op_def)
  qed (simp add: bind_op_def)
  show "au_owner (snd (au_commit_rebuild a)) = au_owner a"
    unfolding au_commit_rebuild_def by (rule eq) (rule session_end_rebuild_prepared)
  show "au_owner (snd (au_abort_rebuild a)) = au_owner a"
    unfolding au_abort_rebuild_def by (rule eq) (rule session_end_rebuild_prepared)
  show "au_owner (snd (au_fault_rebuild a)) = au_owner a"
    unfolding au_fault_rebuild_def by (rule eq) (rule session_end_rebuild_prepared)
qed

lemma on_authority_snd: "snd (on_authority f rp) = rp\<lparr>rp_authority := snd (f (rp_authority rp))\<rparr>"
  by (simp add: on_authority_def split: prod.split)

lemma ending_advances:
  assumes "rp_inv rp"
  shows "advances rp (snd (on_authority au_commit_rebuild rp))"
    "advances rp (snd (on_authority au_abort_rebuild rp))"
    "advances rp (snd (on_authority au_fault_rebuild rp))"
proof -
  have inv: "authority_inv (rp_authority rp)" using assms by (simp add: rp_inv_def)
  note facts = au_rebuild_inv [OF inv] au_rebuild_le [OF inv] ending_same_owner [OF inv]
  show "advances rp (snd (on_authority au_commit_rebuild rp))"
    using assms facts by (auto simp: on_authority_snd intro: same_owner_advances)
  show "advances rp (snd (on_authority au_abort_rebuild rp))"
    using assms facts by (auto simp: on_authority_snd intro: same_owner_advances)
  show "advances rp (snd (on_authority au_fault_rebuild rp))"
    using assms facts by (auto simp: on_authority_snd intro: same_owner_advances)
qed

lemma advances_bump:
  assumes "advances rp rp1"
  shows "advances rp (rp1\<lparr>rp_subscription_token := rp_subscription_token rp1 + 1\<rparr>)"
proof (rule advances_trans [OF assms])
  show "advances rp1 (rp1\<lparr>rp_subscription_token := rp_subscription_token rp1 + 1\<rparr>)"
    using assms by (intro advances_counters) (simp_all add: advances_def)
qed

lemma rp_abort_fault_advances:
  "rp_inv rp \<Longrightarrow> advances rp (snd (rp_abort_rebuild rp))"
  "rp_inv rp \<Longrightarrow> advances rp (snd (rp_fault_rebuild rp))"
  using ending_advances [of rp]
  by (auto simp: rp_abort_rebuild_def rp_fault_rebuild_def bind_op_snd split: sum.split intro: advances_bump)

lemma reserve_advances:
  assumes inv: "rp_inv rp" shows "advances rp (snd (on_authority (with_session (reserve_output t)) rp))"
proof -
  have a: "authority_inv (rp_authority rp)" using inv by (simp add: rp_inv_def)
  have "authority_do (AReserve t) (rp_authority rp) = snd (with_session (reserve_output t) (rp_authority rp))"
    by simp
  with authority_do_inv [OF a, of "AReserve t"] authority_do_le [OF a, of "AReserve t"] show ?thesis
    by (auto simp: on_authority_snd reserve_authority intro!: same_owner_advances [OF inv])
qed

lemma reserve_each_advances: "rp_inv rp \<Longrightarrow> advances rp (snd (reserve_each ts rp))"
proof (induction ts arbitrary: rp)
  case Nil
  then show ?case by (simp add: advances_refl)
next
  case (Cons t ts)
  let ?rp = "snd (on_authority (with_session (reserve_output t)) rp)"
  have one: "advances rp ?rp" by (rule reserve_advances [OF Cons.prems])
  then have "advances rp (snd (reserve_each ts ?rp))"
    using Cons.IH [of ?rp] by (auto simp: advances_def intro: protocol_le_trans)
  with one show ?case by (simp add: bind_op_snd split: sum.split)
qed

lemma rp_reserve_advances:
  "rp_inv rp \<Longrightarrow> advances rp (snd (rp_reserve_output t rp))"
  "rp_inv rp \<Longrightarrow> advances rp (snd (rp_reserve_outputs ts rp))"
  by (auto simp: rp_reserve_output_def rp_reserve_outputs_def bind_op_snd split: sum.split
      intro: advances_refl reserve_advances reserve_each_advances)

definition model_ok :: "robot_model_spec inst option \<Rightarrow> bool" where
  \<comment> \<open>a vehicle of a supported controller kind, as every registered vehicle is\<close>
  "model_ok model \<longleftrightarrow> (\<forall>m. model = Some (Instance m) \<longrightarrow> returns (expected_wheels m))"

lemma new_mailbox_returns:
  assumes "returns (expected_wheels m)" and "returns (require_wall_time ''timeout_sec'' t True)"
  shows "\<exists>mb. new_mailbox (Instance m) t default_frequency_window = Inr mb \<and> mailbox_inv mb
    \<and> mb_model mb = m \<and> mb_latest mb = None"
proof -
  from assms obtain w x where r: "expected_wheels m = Inr w" "require_wall_time ''timeout_sec'' t True = Inr x"
    by (auto simp: returns_iff)
  obtain mb where mb: "new_mailbox (Instance m) t default_frequency_window = Inr mb"
    "mb_model mb = m" "mb_latest mb = None"
    using r by (cases w) (auto simp: new_mailbox_def default_frequency_window_def require_wall_time_def
        new_rolling_frequency_def st_require_finite_float_def fl_small_ints)
  with new_mailbox_inv [OF mb(1)] show ?thesis by blast
qed

lemma rp_commit_advances:
  assumes inv: "rp_inv rp" and ok: "model_ok model"
  shows "advances rp (snd (rp_commit_rebuild model rp))"
proof -
  let ?rp = "snd (on_authority au_commit_rebuild rp)"
  have adv: "advances rp ?rp" by (rule ending_advances(1) [OF inv])
  then have inv1: "rp_inv ?rp" by (simp add: advances_def)
  have swap: "advances rp (?rp\<lparr>rp_model := m, rp_mailbox := mb\<rparr>)"
    if m: "model = Some (Instance m)" and ret: "fst (au_commit_rebuild (rp_authority rp)) = Inr g"
      and mb: "new_mailbox (Instance m) (rp_timeout_sec rp) default_frequency_window = Inr mb" for m g mb
  proof -
    have w: "returns (expected_wheels m)" "returns (require_wall_time ''timeout_sec'' (rp_timeout_sec rp) True)"
      using ok m inv by (auto simp: model_ok_def rp_inv_def)
    have mbs: "mailbox_inv mb" "mb_model mb = m" "mb_latest mb = None"
      using new_mailbox_returns [OF w] mb by auto
    have "au_owner (rp_authority ?rp) = None"
      using ret by (cases rule: with_session_cases [of session_commit_rebuild "rp_authority rp"])
        (auto simp: au_commit_rebuild_def bind_op_def)
    with inv1 mbs have "advances ?rp (?rp\<lparr>rp_model := m, rp_mailbox := mb\<rparr>)"
      by (auto simp: advances_def rp_inv_def protocol_le_def dead_def linked_def authority_le_refl)
    with adv show ?thesis by (rule advances_trans)
  qed
  have ret: "\<exists>mb. new_mailbox (Instance m) (rp_timeout_sec rp) default_frequency_window = Inr mb"
    if "model = Some (Instance m)" for m
    using new_mailbox_returns [of m "rp_timeout_sec rp"] ok that inv by (auto simp: model_ok_def rp_inv_def)
  have t: "rp_timeout_sec ?rp = rp_timeout_sec rp" by (simp add: on_authority_snd)
  show ?thesis
    using adv swap ret inv
    by (auto simp: rp_commit_rebuild_def bind_op_snd t advances_refl split: sum.split option.split inst.split)
qed

lemma suspend_unowned: "fst (suspend_protocol v a) = Inr acc \<Longrightarrow> au_owner (snd (suspend_protocol v a)) = None"
  using mailbox_sink.suspend_linked [of v a acc "snd (suspend_protocol v a)"] by (simp add: prod_eq_iff)

lemma rp_close_advances:
  assumes inv: "rp_inv rp"
  shows "advances rp (snd (rp_close closing rp))
    \<and> (\<not> rp_closed rp \<longrightarrow> rp_lifecycle_generation rp < rp_lifecycle_generation (snd (rp_close closing rp)))"
proof (cases "rp_closed rp")
  case True
  with inv show ?thesis by (simp add: rp_close_def advances_refl)
next
  case False
  let ?a = "rp_authority rp"
  define rp0 where "rp0 = rp\<lparr>rp_lifecycle_generation := rp_lifecycle_generation rp + 1,
    rp_subscription_token := rp_subscription_token rp + 1\<rparr>"
  define rp1 where "rp1 = rp\<lparr>rp_closed := True, rp_lifecycle_generation := rp_lifecycle_generation rp + 1,
    rp_subscription_token := rp_subscription_token rp + 1\<rparr>"
  have rp10: "rp1 = rp0\<lparr>rp_closed := True\<rparr>" by (simp add: rp1_def rp0_def)
  define rp2 where "rp2 = snd (rp_close closing rp)"
  have adv0: "advances rp rp0" using inv by (intro advances_counters) (simp_all add: rp0_def)
  then have inv0: "rp_inv rp0" by (simp add: advances_def)
  obtain r a where f: "suspend_protocol (PInt 0) ?a = (r, a)" by fastforce
  have run: "on_authority (suspend_protocol (PInt 0)) rp1 = (r, rp1\<lparr>rp_authority := a\<rparr>)"
    "on_authority (suspend_protocol (PInt 0)) rp0 = (r, rp0\<lparr>rp_authority := a\<rparr>)"
    using f by (simp_all add: on_authority_def rp10) (simp_all add: rp0_def)
  have "rp_inv rp2 \<and> rp_lifecycle_generation rp0 \<le> rp_lifecycle_generation rp2 \<and> dead rp2"
  proof (cases r)
    case (Inl e)
    with transition_obeyed [OF suspend_lawful inv0 run(2)] have same: "rp0\<lparr>rp_authority := a\<rparr> = rp0" by simp
    then have "rp_authority (rp0\<lparr>rp_authority := a\<rparr>) = rp_authority rp0" by simp
    then have a: "a = ?a" by (simp add: rp0_def)
    have "rp1\<lparr>rp_authority := a\<rparr> = rp1" using a by (simp add: rp1_def)
    then have rp2: "rp2 = enter_fatal_locked e rp1"
      using run(1) Inl False
      by (simp add: rp2_def rp_close_def rp1_def [symmetric] Let_def split: sum.split)
    have "rp_inv (enter_fatal_locked e rp0)" by (rule enter_fatal_locked_inv [OF inv0])
    moreover have "rp_fatal_error rp0 \<noteq> None \<Longrightarrow> au_owner (rp_authority rp0) = None"
      using inv0 by (simp add: rp_inv_def dead_def)
    ultimately have "rp_inv rp2"
      unfolding rp2 using inv0
      by (auto simp: rp_inv_def enter_fatal_locked_def rp10 dead_def)
    moreover have "dead rp2" unfolding rp2 by (rule enter_fatal_locked_dead)
    moreover have "rp_lifecycle_generation rp0 \<le> rp_lifecycle_generation rp2"
      unfolding rp2 by (simp add: enter_fatal_locked_def rp10)
    ultimately show ?thesis by simp
  next
    case (Inr acc)
    with transition_obeyed [OF suspend_lawful inv0 run(2)]
    have inv2: "rp_inv (obey_clear acc (rp0\<lparr>rp_authority := a\<rparr>))" by simp
    have none: "au_owner a = None" using suspend_unowned [of "PInt 0" ?a acc] f Inr by simp
    have rp2: "rp2 = obey_clear acc (rp1\<lparr>rp_authority := a\<rparr>)"
      using run(1) Inr False
      by (simp add: rp2_def rp_close_def rp1_def [symmetric] Let_def split: sum.split)
    show ?thesis using inv2 none unfolding rp2
      by (auto simp: rp_inv_def rp10 dead_def)
  qed
  moreover have "rp_lifecycle_generation rp < rp_lifecycle_generation rp0" by (simp add: rp0_def)
  ultimately show ?thesis by (auto simp: advances_def protocol_le_def rp2_def [symmetric])
qed

lemma ingress_current_alive: "ingress_current ingress rp \<Longrightarrow> \<not> dead rp"
  by (auto simp: ingress_current_def dead_def)

lemma au_accept_mailbox:
  assumes "authority_inv a" and "mailbox_inv mb" and "v2_command_ok cmd"
    and "au_accept cmd model (commit_to_mailbox cmd t g) (a, mb) = (r, (a', mb'))"
  shows "mailbox_inv mb' \<and> mb_model mb' = mb_model mb"
  using assms(1)
proof (cases rule: au_accept_cases
    [where command = cmd and model = model and commit = "commit_to_mailbox cmd t g" and mm = mb])
  case (uncommitted c r' mm')
  with commit_to_mailbox_inv [OF assms(2,3), of t g] assms(4) show ?thesis by simp
next
  case (accepted c m mm' acc)
  with commit_to_mailbox_inv [OF assms(2,3), of t g] assms(4) show ?thesis by simp
qed (use assms in simp_all)

lemma accept_decoded_advances:
  assumes inv: "rp_inv rp" and ok: "v2_command_ok cmd"
  shows "advances rp (snd (accept_decoded_command_result cmd t ingress rp))"
proof (cases "ingress_current ingress rp")
  case False
  with inv show ?thesis by (simp add: accept_decoded_command_result_def advances_refl)
next
  case True
  let ?g = "it_mailbox_generation (the_instance ingress)"
  from inv have parts: "authority_inv (rp_authority rp)" "mailbox_inv (rp_mailbox rp)"
    "linked (rp_authority rp) (rp_mailbox rp)" "mb_model (rp_mailbox rp) = rp_model rp" by (simp_all add: rp_inv_def)
  obtain r a mb where run: "au_accept cmd (Instance (rp_model rp)) (commit_to_mailbox cmd t ?g)
      (rp_authority rp, rp_mailbox rp) = (r, (a, mb))" by (metis prod_cases3)
  let ?rp = "rp\<lparr>rp_authority := a, rp_mailbox := mb\<rparr>"
  have a: "authority_inv a" "authority_le (rp_authority rp) a"
    using au_accept_inv [OF parts(1) ok, of "Instance (rp_model rp)" "commit_to_mailbox cmd t ?g" "rp_mailbox rp"]
      au_accept_le [OF parts(1), of cmd "Instance (rp_model rp)" "commit_to_mailbox cmd t ?g" "rp_mailbox rp"]
      run by simp_all
  have mb: "mailbox_inv mb" "mb_model mb = rp_model rp"
    using au_accept_mailbox [OF parts(1,2) ok run] parts(4) by simp_all
  have link: "au_owner a = None \<longleftrightarrow>
      mb_latest (case r of Inr c \<Rightarrow> if ac_clear_mailbox c then mb_clear mb else mb | Inl _ \<Rightarrow> mb) = None"
    using mailbox_sink.accept_linked [OF parts(1), of "rp_mailbox rp" cmd "Instance (rp_model rp)" "(cmd, t, ?g)"]
      parts(3) run by (simp add: linked_def)
  have alive: "\<not> dead rp" by (rule ingress_current_alive [OF True])
  show ?thesis
  proof (cases r)
    case (Inl e)
    then have "advances rp ?rp"
      using inv a mb link alive by (simp add: advances_def rp_inv_def protocol_le_def dead_def linked_def)
    then have "advances rp (snd (catch_overflow (r, ?rp)))" by (intro catch_overflow_advances) simp
    with True run Inl show ?thesis
      by (simp add: accept_decoded_command_result_def bind_op_snd catch_overflow_def)
  next
    case (Inr acc)
    then have "advances rp (obey_clear acc ?rp)"
      using inv a mb link alive mb_clear_inv [OF mb(1)]
      by (auto simp: advances_def rp_inv_def protocol_le_def dead_def linked_def)
    with True run Inr show ?thesis
      by (simp add: accept_decoded_command_result_def bind_op_snd catch_overflow_def)
  qed
qed

subsection \<open>All interleavings\<close>

text \<open>
  One atomic step of any thread, labelled with the commands it accepts.  An ingress step takes an
  arbitrary token: that of the callback, captured whenever it started.
\<close>

inductive protocol_step :: "runtime_protocol \<Rightarrow> wheel_command_v2 list \<Rightarrow> runtime_protocol \<Rightarrow> bool" where
  transport: "protocol_step rp [] (snd (apply_transport_snapshot quality rp))"
| ingress: "v2_command_ok cmd \<Longrightarrow> accept_decoded_command_result cmd t ing rp = (r, rp') \<Longrightarrow>
     protocol_step rp (case r of Inr res \<Rightarrow> if ir_accepted res then [the_instance cmd] else [] | Inl _ \<Rightarrow> []) rp'"
| prepare: "protocol_step rp [] (snd (rp_prepare_rebuild rp))"
| abort: "protocol_step rp [] (snd (rp_abort_rebuild rp))"
| fault: "protocol_step rp [] (snd (rp_fault_rebuild rp))"
| commit: "model_ok model \<Longrightarrow> protocol_step rp [] (snd (rp_commit_rebuild model rp))"
| reserve: "protocol_step rp [] (snd (rp_reserve_output topic rp))"
| reserve_many: "protocol_step rp [] (snd (rp_reserve_outputs topics rp))"
| close: "protocol_step rp [] (snd (rp_close closing rp))"
| decide: "protocol_step rp [] (rp\<lparr>rp_mailbox := snd (mb_decision now (rp_mailbox rp))\<rparr>)"
| look: "protocol_step rp [] (rp\<lparr>rp_mailbox := snd (mb_snapshot now (rp_mailbox rp))\<rparr>)"

inductive_cases protocol_step_labelledE: "protocol_step rp (c # cs) rp'"

inductive protocol_trace :: "runtime_protocol \<Rightarrow> wheel_command_v2 list \<Rightarrow> runtime_protocol \<Rightarrow> bool" where
  start: "protocol_trace rp [] rp"
| step: "protocol_trace rp cs rp1 \<Longrightarrow> protocol_step rp1 ds rp2 \<Longrightarrow> protocol_trace rp (cs @ ds) rp2"

lemma mailbox_read_advances:
  assumes inv: "rp_inv rp" and mb: "mailbox_inv mb" "mb_model mb = mb_model (rp_mailbox rp)"
    "mb_latest mb = mb_latest (rp_mailbox rp)"
  shows "advances rp (rp\<lparr>rp_mailbox := mb\<rparr>)"
  using assms by (auto simp: advances_def rp_inv_def protocol_le_def dead_def linked_def authority_le_refl)

lemma protocol_step_advances: "protocol_step rp cs rp' \<Longrightarrow> rp_inv rp \<Longrightarrow> advances rp rp'"
proof (induction rule: protocol_step.induct)
  case (ingress cmd t ing rp r rp')
  with accept_decoded_advances [of rp cmd t ing] show ?case by simp
next
  case (decide rp now)
  then show ?case
    by (intro mailbox_read_advances) (auto simp: mb_query_frame rp_inv_def intro: mb_decision_inv)
next
  case (look rp now)
  then show ?case
    by (intro mailbox_read_advances) (auto simp: mb_query_frame rp_inv_def intro: mb_snapshot_inv)
qed (auto intro: apply_transport_snapshot_advances rp_prepare_advances rp_abort_fault_advances
    rp_commit_advances rp_reserve_advances rp_close_advances [THEN conjunct1])

lemma protocol_trace_advances: "protocol_trace rp cs rp' \<Longrightarrow> rp_inv rp \<Longrightarrow> advances rp rp'"
proof (induction rule: protocol_trace.induct)
  case (step rp cs rp1 ds rp2)
  then have "advances rp rp1" by simp
  moreover from this have "rp_inv rp1" by (simp add: advances_def)
  ultimately show ?case using protocol_step_advances [OF step.hyps(2)] by (blast intro: advances_trans)
qed (rule advances_refl)

lemma new_runtime_protocol_inv:
  assumes "new_runtime_protocol model d timeout sid = Inr rp" shows "rp_inv rp"
proof -
  from assms obtain m de s a mb where new: "model = Instance m" "d = Instance de"
    "new_protocol_session de sid = Inr s" "new_authority (Instance s) = Inr a"
    "new_mailbox (Instance m) timeout default_frequency_window = Inr mb"
    and rp: "rp_authority rp = a" "rp_mailbox rp = mb" "rp_model rp = m" "rp_timeout_sec rp = timeout"
    by (auto simp: new_runtime_protocol_def res_simps split: inst.splits)
  have "\<not> ps_rebuild_prepared s" using new(3) by (auto simp: new_protocol_session_def res_simps)
  with new_authority_inv [OF new(4) new_protocol_session_inv [OF new(3)]] have "authority_inv a" .
  moreover have "au_owner a = None" using new(4) by (auto simp: new_authority_def)
  moreover have "mb_model mb = m" "mb_latest mb = None" "returns (require_wall_time ''timeout_sec'' timeout True)"
    using new(5) by (auto simp: new_mailbox_def res_simps returns_iff)
  ultimately show ?thesis using new_mailbox_inv [OF new(5)] rp by (simp add: rp_inv_def linked_def)
qed

lemma accepted_step:
  assumes inv: "rp_inv rp" and step: "protocol_step rp (d # ds) rp'"
  shows "ds = [] \<and> \<not> dead rp \<and> may_commit (rp_authority rp) d \<and> token (rp_authority rp) = cv_command_generation d
    \<and> rp_authority rp' = after_commit (rp_authority rp) d"
proof -
  from step obtain cmd t tk res where 1: "v2_command_ok cmd"
    "accept_decoded_command_result cmd t tk rp = (Inr res, rp')" "ir_accepted res"
    and d: "ds = []" "the_instance cmd = d"
    by (elim protocol_step_labelledE) (auto split: sum.splits if_splits)
  then have cur: "ingress_current tk rp"
    by (auto simp: accept_decoded_command_result_def make_ingress_result_def split: if_splits)
  have auth: "authority_inv (rp_authority rp)" using inv by (simp add: rp_inv_def)
  let ?commit = "commit_to_mailbox cmd t (it_mailbox_generation (the_instance tk))"
  obtain x a mb where run: "au_accept cmd (Instance (rp_model rp)) ?commit (rp_authority rp, rp_mailbox rp)
      = (x, (a, mb))" by (metis prod_cases3)
  from 1 run cur obtain acc where acc: "x = Inr acc" "ac_accepted acc"
    and rp': "rp' = obey_clear acc (rp\<lparr>rp_authority := a, rp_mailbox := mb\<rparr>)"
    by (cases x) (auto simp: accept_decoded_command_result_def bind_op_def catch_overflow_def make_ingress_result_def)
  from auth show ?thesis
  proof (cases rule: au_accept_cases [where command = cmd and model = "Instance (rp_model rp)"
      and commit = ?commit and mm = "rp_mailbox rp"])
    case (accepted c m mm' acc')
    have wf: "wf_command_v2 c" using 1 accepted(1) by (simp add: v2_command_ok_def)
    have "current_command (rp_authority rp) m c"
      using rejection_reason_wf [OF wf, of m "rp_authority rp"] accepted(3) by auto
    with accepted run acc rp' d ingress_current_alive [OF cur] show ?thesis
      by (auto simp: current_command_def token_def)
  qed (use run acc in \<open>auto simp: refusal_def revocation_def split: sum.splits\<close>)
qed

definition recorded :: "wheel_command_v2 \<Rightarrow> runtime_protocol \<Rightarrow> bool" where
  \<comment> \<open>what the state still knows of an accepted command\<close>
  "recorded c rp \<longleftrightarrow> dead rp \<or>
     (let a = rp_authority rp
      in cv_command_generation c \<le> token a
         \<and> (cv_command_generation c = token a \<longrightarrow>
              au_owner a = Some (command_owner c) \<and> cv_sequence c \<le> the (au_last_sequence a)))"

lemma recorded_mono: "recorded c rp \<Longrightarrow> protocol_le rp rp' \<Longrightarrow> recorded c rp'"
  unfolding recorded_def protocol_le_def authority_le_def Let_def by fastforce

lemma protocol_trace_ordered:
  "protocol_trace rp cs rp' \<Longrightarrow> rp_inv rp \<Longrightarrow> sorted_wrt precedes cs \<and> (\<forall>c\<in>set cs. recorded c rp')"
proof (induction rule: protocol_trace.induct)
  case (step rp cs rp1 ds rp2)
  have inv1: "rp_inv rp1" using protocol_trace_advances [OF step.hyps(1) step.prems] by (simp add: advances_def)
  have adv: "protocol_le rp1 rp2" using protocol_step_advances [OF step.hyps(2) inv1] by (simp add: advances_def)
  have old: "sorted_wrt precedes cs" "recorded c rp1" if "c \<in> set cs" for c
    using step.IH [OF step.prems] that by simp_all
  show ?case
  proof (cases ds)
    case Nil
    with step.IH [OF step.prems] recorded_mono [OF _ adv] show ?thesis by simp
  next
    case (Cons d ds')
    with step.hyps(2) have "protocol_step rp1 (d # ds') rp2" by simp
    from accepted_step [OF inv1 this] have d: "ds' = []" "\<not> dead rp1" "may_commit (rp_authority rp1) d"
      "token (rp_authority rp1) = cv_command_generation d" "rp_authority rp2 = after_commit (rp_authority rp1) d" by auto
    have before: "precedes c d" if "c \<in> set cs" for c
      using old(2) [OF that] d by (auto simp: recorded_def precedes_def may_commit_def Let_def)
    have new: "recorded d rp2"
      using d by (simp add: recorded_def after_commit_def token_def)
    from before new recorded_mono [OF _ adv] step.IH [OF step.prems] Cons d(1) show ?thesis
      by (auto simp: sorted_wrt_append)
  qed
qed simp

subsection \<open>Properties\<close>

lemma unowned_decision:
  assumes "rp_inv rp" and "au_owner (rp_authority rp) = None" and "mb_decision now (rp_mailbox rp) = (Inr d, mb')"
  shows "wd_waiting d \<and> set (wd_drive d) \<subseteq> {f_zero} \<and> set (wd_steering d) \<subseteq> {f_zero}
    \<and> expected_wheels (rp_model rp) = Inr (length (wd_drive d), length (wd_steering d))"
proof -
  have none: "mb_latest (rp_mailbox rp) = None" using assms(1,2) by (simp add: rp_inv_def linked_def)
  obtain nd ns where zero: "expected_wheels (rp_model rp) = Inr (nd, ns)"
    "mb_zero_drive (rp_mailbox rp) = replicate nd f_zero" "mb_zero_steering (rp_mailbox rp) = replicate ns f_zero"
    using assms(1) unfolding rp_inv_def mailbox_inv_def by metis
  from assms(3) none zero have d: "d = \<lparr>wd_drive = replicate nd f_zero, wd_steering = replicate ns f_zero,
      wd_waiting = True, wd_timed_out = False\<rparr>"
    by (auto simp: mb_decision_Inr mb_decision_locked_eq)
  have "set (replicate n f_zero) \<subseteq> {f_zero}" for n by (auto dest: in_set_replicate [THEN iffD1])
  with d zero show ?thesis by simp
qed

text \<open>
  C11. Safe stop across the whole controller: under every interleaving of transport rounds, ingress
  callbacks with tokens of any age, rebuilds (with any change of vehicle), reservations, shutdown and
  reads by the physics thread, whenever nobody owns the command the decision the physics thread gets
  is to wait with the all-zero command for the vehicle now simulated; and a closed or fatal
  controller never has an owner.
\<close>

theorem unowned_means_stopped:
  assumes "new_runtime_protocol model descriptor timeout sid = Inr rp0" and "protocol_trace rp0 cs rp"
    and "dead rp \<or> au_owner (rp_authority rp) = None"
    and "mb_decision now (rp_mailbox rp) = (Inr d, mb')"
  shows "wd_waiting d \<and> set (wd_drive d) \<subseteq> {f_zero} \<and> set (wd_steering d) \<subseteq> {f_zero}
    \<and> expected_wheels (rp_model rp) = Inr (length (wd_drive d), length (wd_steering d))"
proof -
  have inv: "rp_inv rp"
    using protocol_trace_advances [OF assms(2) new_runtime_protocol_inv [OF assms(1)]] by (simp add: advances_def)
  moreover from inv have "au_owner (rp_authority rp) = None" using assms(3) by (auto simp: rp_inv_def)
  ultimately show ?thesis using assms(4) by (rule unowned_decision)
qed

text \<open>
  C12. A callback that started before a rebuild was prepared or before the controller was closed can
  never deliver its command, whatever happens afterwards: its ingress token is refused with the
  controller's state untouched.
\<close>

theorem stale_ingress_refused:
  assumes "rp_inv rp" and "protocol_trace rp cs1 rp1"
    and "rp2 = snd (rp_prepare_rebuild rp1) \<or> (rp2 = snd (rp_close closing rp1) \<and> \<not> rp_closed rp1)"
    and "protocol_trace rp2 cs2 rp3"
  shows "accept_decoded_command_result cmd t (Instance (capture_ingress rp)) rp3
    = (Inr (make_ingress_result cmd False (lit ''command ingress is no longer current'') t), rp3)"
proof -
  from protocol_trace_advances [OF assms(2,1)] have inv1: "rp_inv rp1"
    and le1: "rp_lifecycle_generation rp \<le> rp_lifecycle_generation rp1"
    by (simp_all add: advances_def protocol_le_def)
  have inv2: "rp_inv rp2" and lt: "rp_lifecycle_generation rp1 < rp_lifecycle_generation rp2"
    using assms(3) rp_prepare_advances [OF inv1] rp_prepare_lifecycle [of rp1] rp_close_advances [OF inv1, of closing]
    by (auto simp: advances_def)
  from protocol_trace_advances [OF assms(4) inv2]
  have "rp_lifecycle_generation rp2 \<le> rp_lifecycle_generation rp3" by (simp add: advances_def protocol_le_def)
  with le1 lt have "\<not> ingress_current (Instance (capture_ingress rp)) rp3"
    by (auto simp: ingress_current_def capture_ingress_def)
  then show ?thesis by (simp add: accept_decoded_command_result_def)
qed

text \<open>
  C13. Through every interleaving, fatal exhaustion and shutdown included, the commands the
  controller accepts form one ordered history: within a command generation a single source with
  strictly increasing sequence numbers, and a new driver only under a later generation.
\<close>

theorem controller_history_ordered:
  assumes "new_runtime_protocol model descriptor timeout sid = Inr rp0" and "protocol_trace rp0 cs rp"
  shows "sorted_wrt precedes cs"
  using protocol_trace_ordered [OF assms(2) new_runtime_protocol_inv [OF assms(1)]] by simp

subsection \<open>The properties at work\<close>

definition example_protocol :: runtime_protocol where
  "example_protocol = \<lparr>rp_model = df_mid, rp_timeout_sec = PFloat (Fin 1), rp_authority = example_authority,
     rp_mailbox = example_mailbox, rp_lifecycle_generation = 0, rp_subscription_token = 0,
     rp_command_protocol_state = ''not_checked'', rp_closed = False, rp_fatal_error = None\<rparr>"

lemma example_protocol_new:
  "new_runtime_protocol (Instance df_mid) (Instance example_descriptor) (PFloat (Fin 1)) (PBytes example_sid)
     = Inr example_protocol"
proof -
  have window: "default_frequency_window = PFloat (Fin 2)"
    by (simp add: default_frequency_window_def fl_small_ints)
  show ?thesis
    by (simp add: new_runtime_protocol_def example_session_new example_authority_new example_mailbox_new
        example_protocol_def window)
qed

definition command_peers :: "int \<Rightarrow> topic_quality list" where
  "command_peers n =
     [\<lparr>tq_topic = ''/sim/wheel/command'', tq_protocol_state = ''verified'', tq_peer_count = PInt n\<rparr>]"

definition example_ready :: runtime_protocol where
  "example_ready = snd (apply_transport_snapshot (command_peers 1) example_protocol)"

definition example_driven :: runtime_protocol where
  "example_driven = snd (accept_decoded_command_result (Instance (example_v2_command 1 4)) (Fin 7)
     (Instance (capture_ingress example_ready)) example_ready)"

definition example_stopped :: runtime_protocol where
  "example_stopped = snd (rp_prepare_rebuild example_driven)"

lemma example_accepted:
  "\<exists>res. fst (accept_decoded_command_result (Instance (example_v2_command 1 4)) (Fin 7)
      (Instance (capture_ingress example_ready)) example_ready) = Inr res \<and> ir_accepted res"
proof -
  have "(case fst (accept_decoded_command_result (Instance (example_v2_command 1 4)) (Fin 7)
      (Instance (capture_ingress example_ready)) example_ready) of Inr res \<Rightarrow> ir_accepted res | Inl _ \<Rightarrow> False)"
    by code_simp
  then show ?thesis by (auto split: sum.splits)
qed

lemma example_driven_trace: "protocol_trace example_protocol [example_v2_command 1 4] example_driven"
proof -
  obtain res where res: "accept_decoded_command_result (Instance (example_v2_command 1 4)) (Fin 7)
      (Instance (capture_ingress example_ready)) example_ready = (Inr res, example_driven)" "ir_accepted res"
    using example_accepted by (auto simp: example_driven_def prod_eq_iff)
  have "v2_command_ok (Instance (example_v2_command 1 4))"
    by (simp add: v2_command_ok_def example_v2_command_wf)
  from protocol_step.ingress [OF this res(1)] res(2)
  have last: "protocol_step example_ready [example_v2_command 1 4] example_driven" by simp
  have "protocol_trace example_protocol ([] @ []) example_ready"
    unfolding example_ready_def by (rule protocol_trace.step [OF protocol_trace.start protocol_step.transport])
  from protocol_trace.step [OF this last] show ?thesis by simp
qed

lemma example_stopped_trace: "protocol_trace example_protocol [example_v2_command 1 4] example_stopped"
  using protocol_trace.step [OF example_driven_trace protocol_step.prepare] by (simp add: example_stopped_def)

lemma example_stopped_decision:
  "au_owner (rp_authority example_stopped) = None"
  "fst (mb_decision (PFloat (Fin 7)) (rp_mailbox example_stopped)) =
     Inr \<lparr>wd_drive = [Fin 0, Fin 0], wd_steering = [], wd_waiting = True, wd_timed_out = False\<rparr>"
  by code_simp+

theorem unowned_means_stopped_witness:
  "expected_wheels (rp_model example_stopped) = Inr (Suc (Suc 0), 0)"
proof -
  have d: "mb_decision (PFloat (Fin 7)) (rp_mailbox example_stopped)
    = (Inr \<lparr>wd_drive = [Fin 0, Fin 0], wd_steering = [], wd_waiting = True, wd_timed_out = False\<rparr>,
       snd (mb_decision (PFloat (Fin 7)) (rp_mailbox example_stopped)))"
    using example_stopped_decision(2) by (metis prod.collapse)
  from unowned_means_stopped [OF example_protocol_new example_stopped_trace disjI2 d]
  show ?thesis by (simp add: example_stopped_decision(1))
qed

theorem stale_ingress_refused_witness:
  "fst (accept_decoded_command_result (Instance (example_v2_command 2 5)) (Fin 8)
      (Instance (capture_ingress example_driven)) example_stopped)
    = Inr (make_ingress_result (Instance (example_v2_command 2 5)) False
        (lit ''command ingress is no longer current'') (Fin 8))"
proof -
  have "rp_inv example_driven"
    using protocol_trace_advances [OF example_driven_trace new_runtime_protocol_inv [OF example_protocol_new]]
    by (simp add: advances_def)
  from stale_ingress_refused [OF this protocol_trace.start disjI1 [OF refl] protocol_trace.start,
      of "Instance (example_v2_command 2 5)" "Fin 8"]
  show ?thesis by (simp add: example_stopped_def)
qed

theorem controller_history_ordered_witness: "sorted_wrt precedes [example_v2_command 1 4]"
  by (rule controller_history_ordered [OF example_protocol_new example_driven_trace])

end
