(* ===== verification/WorldRuntime.thy ===== *)
theory WorldRuntime
  imports RuntimeProtocol
begin

text \<open>
  The world lifecycle of \<^verbatim>\<open>slope_sim/interfaces/v2/world_runtime.py\<close> (\<^verbatim>\<open>V2WorldRuntime\<close>): replacing the
  LiDAR worker and moving the protocol controller to a new world generation are one transaction with
  prepare, commit, abort and fault.  Scene documents and workers are opaque; starting a worker and its
  shutdown methods are arguments.
\<close>

subsection \<open>State and operations\<close>

record ('s, 'w) world_runtime =
  wr_controller :: runtime_protocol
  wr_scene :: 's
  wr_worker :: 'w
  wr_prepared :: "('s \<times> 'w) option"

record worker_shutdown =
  \<comment> \<open>each method's outcome, \<open>None\<close> where the worker has no such method\<close>
  sd_begin_draining :: "(exc, unit) res option"
  sd_close_idle :: "(exc, unit) res option"
  sd_force_close :: "(exc, unit) res option"

definition close_worker :: "worker_shutdown \<Rightarrow> (exc, unit) res" where
  "close_worker w =
     (case (sd_begin_draining w, sd_close_idle w) of
        (Some draining, Some idle) \<Rightarrow> bind_res draining (\<lambda>_. idle)
      | _ \<Rightarrow> (case sd_force_close w of
                Some r \<Rightarrow> r
              | None \<Rightarrow> Inl (runtime_error ''v2 worker must provide close_idle or force_close'')))"

abbreviation world_generation :: "runtime_protocol \<Rightarrow> int" where
  "world_generation rp \<equiv> ps_world_generation (au_session (rp_authority rp))"

definition new_world_runtime ::
  "('s \<Rightarrow> int \<Rightarrow> (exc, 'w) res) \<Rightarrow> runtime_protocol inst \<Rightarrow> 's inst \<Rightarrow> (exc, ('s, 'w) world_runtime) res" where
  "new_world_runtime start controller scene_document =
     (case controller of
        Foreign \<Rightarrow> Inl (value_error ''controller must be a V2RuntimeProtocol'')
      | Instance rp \<Rightarrow>
          (case scene_document of
             Foreign \<Rightarrow> Inl (value_error ''scene_document must be a SceneDocument'')
           | Instance d \<Rightarrow>
               bind_res (start d (rs_world_generation (runtime_snapshot_of rp))) (\<lambda>w.
                 Inr \<lparr>wr_controller = rp, wr_scene = d, wr_worker = w, wr_prepared = None\<rparr>)))"

definition on_controller :: "(exc, runtime_protocol, 'a) op \<Rightarrow> (exc, ('s, 'w) world_runtime, 'a) op" where
  "on_controller f s = (case f (wr_controller s) of (r, rp) \<Rightarrow> (r, s\<lparr>wr_controller := rp\<rparr>))"

definition wr_update_moving :: "('s \<Rightarrow> 'v) \<Rightarrow> 's inst \<Rightarrow> (exc, ('s, 'w) world_runtime, unit) op" where
  \<comment> \<open>\<open>sensors\<close> is the sensor table of a scene document\<close>
  "wr_update_moving sensors scene_document s =
     (case scene_document of
        Foreign \<Rightarrow> (Inl (value_error ''scene_document must be a SceneDocument''), s)
      | Instance d \<Rightarrow>
          if sensors d \<noteq> sensors (wr_scene s)
          then (Inl (value_error ''scene_document sensors must match the active binding''), s)
          else (Inr (), s\<lparr>wr_scene := d\<rparr>))"

definition wr_prepare :: "('w \<Rightarrow> worker_shutdown) \<Rightarrow> (exc, ('s, 'w) world_runtime, unit) op" where
  "wr_prepare shutdown s =
     (if wr_prepared s \<noteq> None then (Inl (runtime_error ''v2 world rebuild is already prepared''), s)
      else bind_op (on_controller rp_prepare_rebuild)
             (\<lambda>_ s. (close_worker (shutdown (wr_worker s)),
                     s\<lparr>wr_prepared := Some (wr_scene s, wr_worker s)\<rparr>)) s)"

definition wr_commit ::
  "('s \<Rightarrow> int \<Rightarrow> (exc, 'w) res) \<Rightarrow> 's inst \<Rightarrow> robot_model_spec inst option \<Rightarrow> (exc, ('s, 'w) world_runtime, unit) op" where
  "wr_commit start scene_document model s =
     (case scene_document of
        Foreign \<Rightarrow> (Inl (value_error ''scene_document must be a SceneDocument''), s)
      | Instance d \<Rightarrow>
          if wr_prepared s = None then (Inl (runtime_error ''v2 world rebuild was not prepared''), s)
          else (case start d (rs_world_generation (runtime_snapshot_of (wr_controller s)) + 1) of
                  Inl e \<Rightarrow> (Inl e, s)
                | Inr w \<Rightarrow>
                    bind_op (on_controller (rp_commit_rebuild model)) (\<lambda>_ s. (Inr (), s))
                      (s\<lparr>wr_worker := w, wr_scene := d, wr_prepared := None\<rparr>)))"

definition wr_abort :: "('s \<Rightarrow> int \<Rightarrow> (exc, 'w) res) \<Rightarrow> (exc, ('s, 'w) world_runtime, unit) op" where
  \<comment> \<open>the controller is aborted in the \<^verbatim>\<open>finally\<close>; what that raises replaces an exception of the restart\<close>
  "wr_abort start s =
     (case wr_prepared s of
        None \<Rightarrow> (Inl (runtime_error ''v2 world rebuild was not prepared''), s)
      | Some (d, w) \<Rightarrow>
          let s1 = s\<lparr>wr_prepared := None\<rparr>;
              (restarted, s2) =
                (case start d (rs_world_generation (runtime_snapshot_of (wr_controller s1))) of
                   Inl e \<Rightarrow> (Inl e, s1)
                 | Inr w' \<Rightarrow> (Inr (), s1\<lparr>wr_worker := w', wr_scene := d\<rparr>))
          in bind_op (on_controller rp_abort_rebuild) (\<lambda>_ s. (restarted, s)) s2)"

definition wr_fault :: "(exc, ('s, 'w) world_runtime, unit) op" where
  "wr_fault s = on_controller rp_fault_rebuild (s\<lparr>wr_prepared := None\<rparr>)"

definition wr_update_scene ::
  "('w \<Rightarrow> worker_shutdown) \<Rightarrow> ('s \<Rightarrow> int \<Rightarrow> (exc, 'w) res) \<Rightarrow> 's inst \<Rightarrow> (exc, ('s, 'w) world_runtime, unit) op" where
  \<comment> \<open>an exception of the abort in the handler replaces the one being handled\<close>
  "wr_update_scene shutdown start scene_document s =
     (if scene_document = Foreign then (Inl (value_error ''scene_document must be a SceneDocument''), s)
      else
        case bind_op (wr_prepare shutdown) (\<lambda>_. wr_commit start scene_document None) s of
          (Inr u, s1) \<Rightarrow> (Inr (), s1)
        | (Inl e, s1) \<Rightarrow>
            if wr_prepared s1 = None then (Inl e, s1)
            else bind_op (wr_abort start) (\<lambda>_ s. (Inl e, s)) s1)"

definition wr_close ::
  "('w \<Rightarrow> worker_shutdown) \<Rightarrow> (exc, unit) res \<Rightarrow> (exc, ('s, 'w) world_runtime, unit) op" where
  "wr_close shutdown closing s =
     (case close_worker (shutdown (wr_worker s)) of
        Inl e \<Rightarrow> (Inl e, s)
      | Inr u \<Rightarrow> on_controller (rp_close closing) s)"

subsection \<open>What the controller's operations do to a transaction\<close>

definition in_rebuild :: "runtime_protocol \<Rightarrow> bool" where
  "in_rebuild rp \<longleftrightarrow> ps_rebuild_prepared (au_session (rp_authority rp))"

lemma obey_clear_authority [simp]: "rp_authority (obey_clear t rp) = rp_authority rp"
  by (simp add: obey_clear_def)

lemma enter_fatal_session [simp]:
  "au_session (rp_authority (enter_fatal_locked e rp)) = au_session (rp_authority rp)"
  by (simp add: enter_fatal_locked_def enter_fatal_def au_clear_owner_def)

lemma rp_prepare_cases:
  obtains (prepared) rp' where "rp_prepare_rebuild rp = (Inr (), rp')" "\<not> in_rebuild rp" "in_rebuild rp'"
      "world_generation rp' = world_generation rp"
  | (refused) e rp' where "rp_prepare_rebuild rp = (Inl e, rp')" "in_rebuild rp' = in_rebuild rp"
      "world_generation rp' = world_generation rp"
proof -
  define rp1 where "rp1 = rp\<lparr>rp_lifecycle_generation := rp_lifecycle_generation rp + 1,
    rp_subscription_token := rp_subscription_token rp + 1\<rparr>"
  let ?a = "rp_authority rp" let ?f = "session_prepare_rebuild (au_session ?a)"
  show thesis
  proof (cases "fst ?f")
    case (Inl e)
    then have "au_prepare_rebuild ?a = (Inl e, ?a)"
      using session_error_same(2) [OF Inl] by (simp add: au_prepare_rebuild_def with_session_def bind_op_def split_beta)
    then have "rp_prepare_rebuild rp = (Inl e, if is_overflow_error e then enter_fatal_locked e rp1 else rp1)"
      by (simp add: rp_prepare_rebuild_def rp1_def bind_op_def on_authority_def catch_overflow_def)
    then show thesis by (rule refused) (simp_all add: in_rebuild_def rp1_def)
  next
    case (Inr g)
    then have "\<not> in_rebuild rp" "ps_rebuild_prepared (snd ?f)" "ps_world_generation (snd ?f) = world_generation rp"
      by (auto simp: session_op_defs in_rebuild_def split: if_splits)
    moreover from Inr obtain acc where
      "au_prepare_rebuild ?a = (Inr acc, au_revoke (?a\<lparr>au_session := snd ?f, au_rebuild_prepared := True\<rparr>))"
      by (auto simp: au_prepare_rebuild_def with_session_def bind_op_def split_beta)
    moreover from this have "rp_prepare_rebuild rp = (Inr (), obey_clear acc
        (rp1\<lparr>rp_authority := au_revoke (?a\<lparr>au_session := snd ?f, au_rebuild_prepared := True\<rparr>)\<rparr>))"
      by (simp add: rp_prepare_rebuild_def rp1_def bind_op_def on_authority_def catch_overflow_def)
    ultimately show thesis by (intro prepared [where rp' = "obey_clear acc
        (rp1\<lparr>rp_authority := au_revoke (?a\<lparr>au_session := snd ?f, au_rebuild_prepared := True\<rparr>)\<rparr>)"])
      (simp_all add: in_rebuild_def)
  qed
qed

lemma rp_abort_effect:
  assumes "in_rebuild rp"
  shows "fst (rp_abort_rebuild rp) = Inr ()" "\<not> in_rebuild (snd (rp_abort_rebuild rp))"
    "world_generation (snd (rp_abort_rebuild rp)) = world_generation rp"
  using assms
  by (simp_all add: rp_abort_rebuild_def on_authority_def au_abort_rebuild_def with_session_def session_op_defs in_rebuild_def)

lemma rp_fault_effect:
  assumes "in_rebuild rp"
  shows "fst (rp_fault_rebuild rp) = Inr ()" "\<not> in_rebuild (snd (rp_fault_rebuild rp))"
    "world_generation (snd (rp_fault_rebuild rp)) = world_generation rp"
  using assms
  by (simp_all add: rp_fault_rebuild_def on_authority_def au_fault_rebuild_def with_session_def session_op_defs in_rebuild_def)

lemma rp_commit_effect:
  assumes "in_rebuild rp"
  shows "if world_generation rp = uint64_max
    then rp_commit_rebuild None rp = (Inl (overflow_error ''world_generation exhausted''), rp)
    else \<exists>rp'. rp_commit_rebuild None rp = (Inr (world_generation rp + 1), rp') \<and> \<not> in_rebuild rp'
      \<and> world_generation rp' = world_generation rp + 1"
  using assms
  by (auto simp: rp_commit_rebuild_def on_authority_def au_commit_rebuild_def with_session_def session_op_defs in_rebuild_def)

subsection \<open>The runtime and its controller agree on the transaction\<close>

definition consistent :: "('s, 'w) world_runtime \<Rightarrow> bool" where
  "consistent s \<longleftrightarrow> rp_inv (wr_controller s) \<and> (wr_prepared s \<noteq> None \<longleftrightarrow> in_rebuild (wr_controller s))"

abbreviation lifecycle :: "('s, 'w) world_runtime \<Rightarrow> int" where
  "lifecycle s \<equiv> rp_lifecycle_generation (wr_controller s)"

lemma advances_lifecycle: "advances rp rp' \<Longrightarrow> rp_inv rp' \<and> rp_lifecycle_generation rp \<le> rp_lifecycle_generation rp'"
  by (simp add: advances_def protocol_le_def)

lemma snapshot_world_generation [simp]: "rs_world_generation (runtime_snapshot_of rp) = world_generation rp"
  by (simp add: runtime_snapshot_of_def Let_def)

lemma wr_prepare_effect:
  assumes "consistent s" and "wr_prepared s = None" and "wr_prepare shutdown s = (r, s')"
  shows "rp_inv (wr_controller s') \<and> lifecycle s < lifecycle s' \<and> consistent s'
    \<and> wr_scene s' = wr_scene s \<and> wr_worker s' = wr_worker s
    \<and> world_generation (wr_controller s') = world_generation (wr_controller s)
    \<and> (wr_prepared s' = Some (wr_scene s, wr_worker s) \<and> r = close_worker (shutdown (wr_worker s))
       \<or> wr_prepared s' = None \<and> (\<exists>e. r = Inl e))"
proof -
  from assms(1) have inv: "rp_inv (wr_controller s)" by (simp add: consistent_def)
  note moves = advances_lifecycle [OF rp_prepare_advances [OF inv]] rp_prepare_lifecycle [of "wr_controller s"]
  show ?thesis
  proof (cases rule: rp_prepare_cases [of "wr_controller s"])
    case (prepared rp')
    with moves assms show ?thesis
      by (auto simp: wr_prepare_def on_controller_def bind_op_def consistent_def)
  next
    case (refused e rp')
    with moves assms show ?thesis
      by (auto simp: wr_prepare_def on_controller_def bind_op_def consistent_def)
  qed
qed

lemma wr_abort_effect:
  assumes "consistent s" and "wr_prepared s = Some (d, w)" and "wr_abort start s = (r, s')"
  shows "consistent s' \<and> lifecycle s \<le> lifecycle s' \<and> wr_prepared s' = None
    \<and> world_generation (wr_controller s') = world_generation (wr_controller s)
    \<and> (case start d (world_generation (wr_controller s)) of
         Inl e \<Rightarrow> r = Inl e \<and> wr_scene s' = wr_scene s \<and> wr_worker s' = wr_worker s
       | Inr w' \<Rightarrow> r = Inr () \<and> wr_scene s' = d \<and> wr_worker s' = w')"
proof -
  from assms(1,2) have inv: "rp_inv (wr_controller s)" "in_rebuild (wr_controller s)" by (simp_all add: consistent_def)
  obtain rp' where rp': "rp_abort_rebuild (wr_controller s) = (Inr (), rp')"
    using rp_abort_effect(1) [OF inv(2)] by (cases "rp_abort_rebuild (wr_controller s)") auto
  from rp_abort_effect [OF inv(2)] advances_lifecycle [OF rp_abort_fault_advances(1) [OF inv(1)]] rp' assms(2,3)
  show ?thesis
    by (auto simp: wr_abort_def on_controller_def bind_op_def consistent_def split: sum.splits)
qed

lemma wr_commit_effect:
  assumes "consistent s" and "wr_prepared s \<noteq> None" and "world_generation (wr_controller s) < uint64_max"
    and "wr_commit start (Instance d) None s = (r, s')"
  shows "consistent s' \<and> lifecycle s \<le> lifecycle s'
    \<and> (case start d (world_generation (wr_controller s) + 1) of
         Inl e \<Rightarrow> r = Inl e \<and> s' = s
       | Inr w \<Rightarrow> r = Inr () \<and> wr_prepared s' = None \<and> wr_scene s' = d \<and> wr_worker s' = w
           \<and> world_generation (wr_controller s') = world_generation (wr_controller s) + 1)"
proof -
  from assms(1,2) have inv: "rp_inv (wr_controller s)" "in_rebuild (wr_controller s)" by (simp_all add: consistent_def)
  from rp_commit_effect [OF inv(2)] assms(3) obtain rp' where
    rp': "rp_commit_rebuild None (wr_controller s) = (Inr (world_generation (wr_controller s) + 1), rp')"
    "\<not> in_rebuild rp'" "world_generation rp' = world_generation (wr_controller s) + 1"
    by auto
  have "model_ok None" by (simp add: model_ok_def)
  from advances_lifecycle [OF rp_commit_advances [OF inv(1) this]] rp' assms
  show ?thesis
    by (auto simp: wr_commit_def on_controller_def bind_op_def consistent_def split: sum.splits)
qed

lemma wr_fault_effect:
  assumes "consistent s" and "wr_fault s = (r, s')"
  shows "consistent s' \<and> wr_prepared s' = None \<and> world_generation (wr_controller s') = world_generation (wr_controller s)"
proof (cases "in_rebuild (wr_controller s)")
  case True
  with assms rp_fault_effect [OF True] rp_abort_fault_advances(2) [of "wr_controller s"] show ?thesis
    by (cases "rp_fault_rebuild (wr_controller s)") (auto simp: wr_fault_def on_controller_def consistent_def advances_def)
next
  case False
  then have "rp_fault_rebuild (wr_controller s) = (Inl (runtime_error ''world rebuild is not prepared''), wr_controller s)"
    by (simp add: rp_fault_rebuild_def on_authority_def au_fault_rebuild_def with_session_def session_op_defs in_rebuild_def)
  with assms False show ?thesis by (auto simp: wr_fault_def on_controller_def consistent_def)
qed

text \<open>After a prepare nobody owns the command, and ending the transaction brings no owner back.\<close>

abbreviation unowned :: "runtime_protocol \<Rightarrow> bool" where
  "unowned rp \<equiv> au_owner (rp_authority rp) = None"

lemma rp_prepare_unowned:
  assumes "rp_inv rp" and "\<not> in_rebuild rp"
  shows "unowned (snd (rp_prepare_rebuild rp))"
proof (cases "fst (session_prepare_rebuild (au_session (rp_authority rp)))")
  case (Inl e)
  with assms(2) have "is_overflow_error e"
    by (auto simp: session_op_defs in_rebuild_def is_overflow_error_def split: if_splits)
  moreover have "au_prepare_rebuild (rp_authority rp) = (Inl e, rp_authority rp)"
    using session_error_same(2) [OF Inl] Inl by (simp add: au_prepare_rebuild_def with_session_def bind_op_def split_beta)
  ultimately show ?thesis using assms(1)
    by (simp add: rp_prepare_rebuild_def bind_op_def on_authority_def catch_overflow_def enter_fatal_locked_def
        enter_fatal_def au_clear_owner_def Let_def rp_inv_def dead_def)
next
  case (Inr g)
  then show ?thesis
    by (simp add: rp_prepare_rebuild_def bind_op_def on_authority_def catch_overflow_def au_prepare_rebuild_def
        with_session_def au_revoke_def au_clear_owner_def split_beta)
qed

lemma rp_end_unowned:
  assumes "unowned rp"
  shows "unowned (snd (rp_commit_rebuild model rp))" "unowned (snd (rp_abort_rebuild rp))"
    "unowned (snd (rp_fault_rebuild rp))"
  using assms
  by (auto simp: rp_commit_rebuild_def rp_abort_rebuild_def rp_fault_rebuild_def on_authority_def
      authority_op_defs split: prod.splits sum.splits option.splits inst.splits)

lemma wr_commit_unowned:
  assumes "unowned (wr_controller s)" shows "unowned (wr_controller (snd (wr_commit start scene model s)))"
  using rp_end_unowned(1) [OF assms] assms
  by (auto simp: wr_commit_def on_controller_def bind_op_def split: prod.splits sum.splits inst.splits)
    (metis snd_conv)+

lemma wr_abort_unowned:
  assumes "unowned (wr_controller s)" shows "unowned (wr_controller (snd (wr_abort start s)))"
  using rp_end_unowned(2) [OF assms] assms
  by (auto simp: wr_abort_def on_controller_def bind_op_def Let_def split: prod.splits sum.splits option.splits)

lemma wr_update_unowned:
  assumes "consistent s" and "wr_prepared s = None"
  shows "unowned (wr_controller (snd (wr_update_scene shutdown start (Instance d) s)))"
proof -
  have "rp_inv (wr_controller s)" "\<not> in_rebuild (wr_controller s)" using assms by (simp_all add: consistent_def)
  from rp_prepare_unowned [OF this] have prepared: "unowned (wr_controller (snd (wr_prepare shutdown s)))"
    using assms(2) by (auto simp: wr_prepare_def on_controller_def bind_op_def split: prod.splits sum.splits)
  obtain r1 s1 where p: "wr_prepare shutdown s = (r1, s1)" by fastforce
  obtain r2 s2 where c: "wr_commit start (Instance d) None s1 = (r2, s2)" by fastforce
  note un = prepared [unfolded p snd_conv]
  note un' = wr_commit_unowned [OF un, of start "Instance d" None, unfolded c snd_conv]
  show ?thesis
    using un un' wr_abort_unowned [OF un, of start] wr_abort_unowned [OF un', of start] p c
    by (cases r1; cases r2) (auto simp: wr_update_scene_def bind_op_def split: prod.splits sum.splits)
qed

lemma scene_update_parts:
  assumes "consistent s" and "wr_prepared s = None" and "world_generation (wr_controller s) < uint64_max"
    and "wr_update_scene shutdown start (Instance d) s = (r, s')"
  shows "consistent s' \<and> wr_prepared s' = None \<and> lifecycle s < lifecycle s'
    \<and> (case r of
         Inr u \<Rightarrow> wr_scene s' = d \<and> world_generation (wr_controller s') = world_generation (wr_controller s) + 1
           \<and> start d (world_generation (wr_controller s')) = Inr (wr_worker s')
       | Inl e \<Rightarrow> wr_scene s' = wr_scene s \<and> world_generation (wr_controller s') = world_generation (wr_controller s)
           \<and> (start (wr_scene s) (world_generation (wr_controller s)) = Inr (wr_worker s') \<or> wr_worker s' = wr_worker s))"
proof -
  obtain r1 s1 where prep: "wr_prepare shutdown s = (r1, s1)" by fastforce
  note p = wr_prepare_effect [OF assms(1,2) prep]
  let ?undone = "consistent s' \<and> wr_prepared s' = None \<and> lifecycle s < lifecycle s' \<and> wr_scene s' = wr_scene s
    \<and> world_generation (wr_controller s') = world_generation (wr_controller s)
    \<and> (start (wr_scene s) (world_generation (wr_controller s)) = Inr (wr_worker s') \<or> wr_worker s' = wr_worker s)"
  have failed: "\<exists>e. r = Inl e \<and> ?undone"
    if f: "(if wr_prepared s1 = None then (Inl e, s1) else bind_op (wr_abort start) (\<lambda>_ s. (Inl e, s)) s1) = (r, s')" for e
  proof (cases "wr_prepared s1 = None")
    case True
    with f p show ?thesis by auto
  next
    case False
    with p have s1: "wr_prepared s1 = Some (wr_scene s, wr_worker s)" "consistent s1" by auto
    obtain r2 s2 where ab: "wr_abort start s1 = (r2, s2)" by fastforce
    have s': "s' = s2" and r: "\<exists>e. r = Inl e" using f False ab by (auto simp: bind_op_def split: sum.splits)
    from wr_abort_effect [OF s1(2,1) ab] p have "?undone"
      unfolding s' by (cases "start (wr_scene s) (world_generation (wr_controller s1))") auto
    with r show ?thesis by blast
  qed
  have undone: ?thesis if "\<exists>e. r = Inl e \<and> ?undone"
    using that by auto
  show ?thesis
  proof (cases r1)
    case (Inl e)
    with prep assms(4) have "(if wr_prepared s1 = None then (Inl e, s1)
        else bind_op (wr_abort start) (\<lambda>_ s. (Inl e, s)) s1) = (r, s')"
      by (simp add: wr_update_scene_def bind_op_def)
    from undone [OF failed [OF this]] show ?thesis .
  next
    case (Inr u)
    with p have s1: "wr_prepared s1 \<noteq> None" "consistent s1" "world_generation (wr_controller s1) < uint64_max"
      using assms(3) by auto
    obtain r2 s2 where commit: "wr_commit start (Instance d) None s1 = (r2, s2)" by fastforce
    note c = wr_commit_effect [OF s1(2,1,3) commit]
    have upd: "wr_update_scene shutdown start (Instance d) s = (case (r2, s2) of (Inr u, s1) \<Rightarrow> (Inr (), s1)
        | (Inl e, s1) \<Rightarrow> if wr_prepared s1 = None then (Inl e, s1) else bind_op (wr_abort start) (\<lambda>_ s. (Inl e, s)) s1)"
      using prep Inr commit by (simp add: wr_update_scene_def bind_op_def)
    show ?thesis
    proof (cases "start d (world_generation (wr_controller s1) + 1)")
      case (Inl e)
      with c have "r2 = Inl e" "s2 = s1" by simp_all
      with upd assms(4) have "(if wr_prepared s1 = None then (Inl e, s1)
          else bind_op (wr_abort start) (\<lambda>_ s. (Inl e, s)) s1) = (r, s')"
        by simp
      from undone [OF failed [OF this]] show ?thesis .
    next
      case started: (Inr w)
      with c have c': "r2 = Inr ()" "consistent s2" "wr_prepared s2 = None" "wr_scene s2 = d" "wr_worker s2 = w"
        "lifecycle s1 \<le> lifecycle s2" "world_generation (wr_controller s2) = world_generation (wr_controller s1) + 1"
        by simp_all
      with upd assms(4) have "r = Inr ()" "s' = s2" by simp_all
      with c' p started show ?thesis by simp
    qed
  qed
qed

text \<open>
  C38. Replacing the scene is all or nothing for the protocol: whatever starting and stopping workers
  raises, no half transaction is left behind and every callback of the old world is stale; it returns
  only with the new scene, the world generation moved on by one and a worker started for exactly that
  generation, and it raises only with the world generation where it was and the old scene, whose worker
  was started again unless starting it failed too.
\<close>

theorem scene_update_atomic:
  assumes "consistent s" and "wr_prepared s = None" and "world_generation (wr_controller s) < uint64_max"
    and "wr_update_scene shutdown start (Instance d) s = (r, s')"
  shows "consistent s' \<and> wr_prepared s' = None \<and> lifecycle s < lifecycle s'
    \<and> (case r of
         Inr u \<Rightarrow> wr_scene s' = d \<and> world_generation (wr_controller s') = world_generation (wr_controller s) + 1
           \<and> start d (world_generation (wr_controller s')) = Inr (wr_worker s')
       | Inl e \<Rightarrow> wr_scene s' = wr_scene s \<and> world_generation (wr_controller s') = world_generation (wr_controller s)
           \<and> (start (wr_scene s) (world_generation (wr_controller s)) = Inr (wr_worker s') \<or> wr_worker s' = wr_worker s))"
  using scene_update_parts [OF assms] .

text \<open>
  When the world generations are used up, the commit itself fails after the runtime has dropped its
  record of the transaction, so the handler does not abort and the controller stays prepared.
\<close>

lemma exhausted_commit_stays_prepared:
  assumes "consistent s" and "wr_prepared s \<noteq> None" and "world_generation (wr_controller s) = uint64_max"
    and "start d (uint64_max + 1) = Inr w"
  shows "\<exists>e s'. wr_commit start (Instance d) None s = (Inl e, s') \<and> wr_prepared s' = None \<and> in_rebuild (wr_controller s')"
proof -
  from assms(1,2) have "in_rebuild (wr_controller s)" by (simp add: consistent_def)
  with rp_commit_effect [OF this] assms(2-4) show ?thesis
    by (auto simp: wr_commit_def on_controller_def bind_op_def)
qed

text \<open>An update during a transaction somebody else prepared ends that transaction.\<close>

lemma nested_update_aborts_outer:
  assumes "consistent s" and "wr_prepared s = Some (d0, w0)"
    and "wr_update_scene shutdown start (Instance d) s = (r, s')"
  shows "(\<exists>e. r = Inl e) \<and> wr_prepared s' = None \<and> \<not> in_rebuild (wr_controller s')"
proof -
  let ?e = "runtime_error ''v2 world rebuild is already prepared''"
  obtain r2 s2 where ab: "wr_abort start s = (r2, s2)" by fastforce
  have "wr_update_scene shutdown start (Instance d) s = bind_op (wr_abort start) (\<lambda>_ s. (Inl ?e, s)) s"
    using assms(2) by (simp add: wr_update_scene_def wr_prepare_def bind_op_def)
  with assms(3) ab have "s' = s2" "\<exists>e. r = Inl e" by (auto simp: bind_op_def split: sum.splits)
  with wr_abort_effect [OF assms(1,2) ab] show ?thesis by (auto simp: consistent_def)
qed

subsection \<open>The property at work\<close>

definition example_shutdown :: "nat \<times> int \<Rightarrow> worker_shutdown" where
  "example_shutdown w = \<lparr>sd_begin_draining = Some (Inr ()), sd_close_idle = Some (Inr ()), sd_force_close = None\<rparr>"

definition example_start :: "nat \<Rightarrow> int \<Rightarrow> (exc, nat \<times> int) res" where
  \<comment> \<open>scene 9 cannot be started\<close>
  "example_start d g = (if d = 9 then Inl (runtime_error ''worker failed'') else Inr (d, g))"

definition example_world :: "(nat, nat \<times> int) world_runtime" where
  "example_world = \<lparr>wr_controller = example_driven, wr_scene = 1, wr_worker = (1, 1), wr_prepared = None\<rparr>"

lemma example_world_outcomes:
  "fst (wr_update_scene example_shutdown example_start (Instance 5) example_world) = Inr ()"
  "fst (wr_update_scene example_shutdown example_start (Instance 9) example_world) = Inl (runtime_error ''worker failed'')"
  "world_generation (wr_controller example_world) = 1" "\<not> in_rebuild (wr_controller example_world)"
  "wr_prepared example_world = None" "wr_scene example_world = 1"
  by code_simp+

theorem scene_update_atomic_witness:
  "wr_worker (snd (wr_update_scene example_shutdown example_start (Instance 5) example_world)) = (5, 2)
   \<and> wr_scene (snd (wr_update_scene example_shutdown example_start (Instance 9) example_world)) = 1"
proof -
  have "rp_inv example_driven"
    using protocol_trace_advances [OF example_driven_trace new_runtime_protocol_inv [OF example_protocol_new]]
    by (simp add: advances_def)
  then have c: "consistent example_world"
    using example_world_outcomes(4,5) by (simp add: consistent_def example_world_def)
  have g: "world_generation (wr_controller example_world) < uint64_max"
    using example_world_outcomes(3) by simp
  note at = scene_update_atomic [OF c example_world_outcomes(5) g surjective_pairing]
  from at [of example_shutdown example_start 5]
  have "(5, 2) = wr_worker (snd (wr_update_scene example_shutdown example_start (Instance 5) example_world))"
    by (auto simp: example_world_outcomes example_start_def)
  moreover from at [of example_shutdown example_start 9]
  have "wr_scene (snd (wr_update_scene example_shutdown example_start (Instance 9) example_world)) = 1"
    by (simp add: example_world_outcomes)
  ultimately show ?thesis by simp
qed

end
