(* ===== verification/SimClock.thy ===== *)
theory SimClock
  imports PyValues
begin

text \<open>
  Simulated time of \<^verbatim>\<open>slope_sim/interfaces/clock.py\<close>: the clock that sums exact fractions, the
  periodic scheduler that pops every deadline crossed, and the cadence of
  \<^verbatim>\<open>slope_sim/interfaces/v2/sensor_frames.py\<close> that drives the wheel and sensor topics from them.
  Fractions are \<open>rat\<close>; the timestamps are the rounded integers the code publishes.
\<close>

subsection \<open>Fractions\<close>

abbreviation ns_per_second :: int where
  "ns_per_second \<equiv> 1000000000"

definition max_catch_up_deadlines :: int where
  "max_catch_up_deadlines = 10000"

function limit_loop :: "int \<Rightarrow> int \<Rightarrow> int \<Rightarrow> int \<Rightarrow> int \<Rightarrow> int \<Rightarrow> int \<Rightarrow> int \<times> int \<times> int \<times> int" where
  \<comment> \<open>the continued-fraction loop of \<^verbatim>\<open>Fraction.limit_denominator\<close>; it breaks before \<open>d\<close> is 0\<close>
  "limit_loop mx p0 q0 p1 q1 n d =
     (if d \<le> 0 then (p0, q0, p1, q1)
      else let a = n div d; q2 = q0 + a * q1
           in if mx < q2 then (p0, q0, p1, q1)
              else limit_loop mx p1 q1 (p0 + a * p1) q2 d (n - a * d))"
  by pat_completeness auto
termination
proof (relation "measure (\<lambda>(mx, p0, q0, p1, q1, n, d). nat d)")
  fix mx p0 q0 p1 q1 n d a q2 :: int
  assume "\<not> d \<le> 0" "a = n div d"
  moreover from this have "n - a * d = n mod d" by (simp add: minus_div_mult_eq_mod)
  ultimately show "((mx, p1, q1, p0 + a * p1, q2, d, n - a * d), mx, p0, q0, p1, q1, n, d)
      \<in> measure (\<lambda>(mx, p0, q0, p1, q1, n, d). nat d)" by simp
qed simp

declare limit_loop.simps [simp del]

definition limit_denominator :: "int \<Rightarrow> rat \<Rightarrow> rat" where
  "limit_denominator mx q =
     (case quotient_of q of
        (n, d) \<Rightarrow>
          if d \<le> mx then q
          else case limit_loop mx 0 1 1 0 n d of
                 (p0, q0, p1, q1) \<Rightarrow>
                   let k = (mx - q0) div q1;
                       bound1 = Fract (p0 + k * p1) (q0 + k * q1);
                       bound2 = Fract p1 q1
                   in if \<bar>bound2 - q\<bar> \<le> \<bar>bound1 - q\<bar> then bound2 else bound1)"

definition time_error :: "string \<Rightarrow> exc" where
  "time_error name = value_error (name @ '' must be a positive finite number'')"

definition positive_time_fraction :: "string \<Rightarrow> pyval \<Rightarrow> (exc, rat) res" where
  "positive_time_fraction name value =
     bind_res
       (case value of
          PFraction q \<Rightarrow> Inr q
        | PInt n \<Rightarrow> Inr (of_int n)
        | PFloat (Fin q) \<Rightarrow> Inr (limit_denominator ns_per_second q)
        | _ \<Rightarrow> Inl (time_error name))
       (\<lambda>step. ensure (0 < step) (time_error name) (Inr step))"

definition require_uint64_now :: "pyval \<Rightarrow> (exc, int) res" where
  "require_uint64_now now_ns =
     (case as_int now_ns of
        Some n \<Rightarrow> ensure (0 \<le> n \<and> n \<le> uint64_max) (value_error ''now_ns must be a uint64 integer'') (Inr n)
      | None \<Rightarrow> Inl (value_error ''now_ns must be a uint64 integer''))"

definition round_deadline_ns :: "rat \<Rightarrow> int" where
  "round_deadline_ns deadline_seconds =
     (case quotient_of deadline_seconds of
        (num, denominator) \<Rightarrow>
          let numerator = num * ns_per_second;
              quotient = numerator div denominator;
              remainder = numerator mod denominator;
              doubled = remainder * 2
          in if denominator < doubled \<or> (doubled = denominator \<and> quotient mod 2 = 1)
             then quotient + 1 else quotient)"

definition round_ns :: "rat \<Rightarrow> int" where
  \<comment> \<open>\<^verbatim>\<open>round(seconds * 1_000_000_000)\<close>\<close>
  "round_ns seconds = round_half_even (seconds * of_int ns_per_second)"

subsection \<open>Simulation clock\<close>

record sim_clock =
  ck_seconds :: rat

definition new_sim_clock :: sim_clock where
  "new_sim_clock = \<lparr>ck_seconds = 0\<rparr>"

definition ck_now_ns :: "sim_clock \<Rightarrow> int" where
  "ck_now_ns c = round_ns (ck_seconds c)"

definition ck_candidate_seconds :: "pyval \<Rightarrow> sim_clock \<Rightarrow> (exc, rat) res" where
  "ck_candidate_seconds dt c =
     bind_res (positive_time_fraction ''dt'' dt) (\<lambda>step.
       let candidate = ck_seconds c + step
       in ensure (candidate * of_int ns_per_second \<le> of_int uint64_max)
            (value_error ''simulation time must fit in uint64 nanoseconds'') (Inr candidate))"

definition ck_preview_advance :: "pyval \<Rightarrow> sim_clock \<Rightarrow> (exc, int) res" where
  "ck_preview_advance dt c = bind_res (ck_candidate_seconds dt c) (\<lambda>s. Inr (round_ns s))"

definition ck_advance :: "pyval \<Rightarrow> (exc, sim_clock, int) op" where
  "ck_advance dt c =
     (case ck_candidate_seconds dt c of
        Inl e \<Rightarrow> (Inl e, c)
      | Inr s \<Rightarrow> (Inr (round_ns s), c\<lparr>ck_seconds := s\<rparr>))"

subsection \<open>Periodic scheduler\<close>

record periodic_scheduler =
  sc_rate_hz :: int
  sc_period_seconds :: rat
  sc_first_deadline_seconds :: rat
  sc_next_deadline_seconds :: rat
  sc_next_deadline_index :: int
  sc_last_now_ns :: "int option"

definition new_scheduler :: "pyval \<Rightarrow> pyval \<Rightarrow> (exc, periodic_scheduler) res" where
  \<comment> \<open>\<open>PNone\<close> for the default first deadline\<close>
  "new_scheduler rate_hz first_deadline_sec =
     (let err = value_error ''rate_hz must be an integer in range 1..1000000000''
      in case as_int rate_hz of
           None \<Rightarrow> Inl err
         | Some rate \<Rightarrow>
             ensure (1 \<le> rate \<and> rate \<le> ns_per_second) err
             (let period = 1 / of_int rate
              in bind_res (if first_deadline_sec = PNone then Inr period
                           else positive_time_fraction ''first_deadline_sec'' first_deadline_sec) (\<lambda>first.
                 ensure (first \<le> period) (value_error ''first_deadline_sec must not exceed one period'')
                 (Inr \<lparr>sc_rate_hz = rate, sc_period_seconds = period, sc_first_deadline_seconds = first,
                       sc_next_deadline_seconds = first, sc_next_deadline_index = 0,
                       sc_last_now_ns = None\<rparr>))))"

definition sc_due_count :: "int \<Rightarrow> periodic_scheduler \<Rightarrow> int" where
  "sc_due_count now s =
     (let now_seconds = of_int now / of_int ns_per_second
      in if sc_next_deadline_seconds s \<le> now_seconds
         then \<lfloor>(now_seconds - sc_next_deadline_seconds s) / sc_period_seconds s\<rfloor> + 1
         else 0)"

definition sc_deadline :: "periodic_scheduler \<Rightarrow> int \<Rightarrow> rat" where
  "sc_deadline s i = sc_first_deadline_seconds s + of_int i * sc_period_seconds s"

definition sc_calculate_due :: "pyval \<Rightarrow> periodic_scheduler \<Rightarrow> (exc, int \<times> int list) res" where
  "sc_calculate_due now_ns s =
     bind_res (require_uint64_now now_ns) (\<lambda>now.
     ensure (\<not> (case sc_last_now_ns s of None \<Rightarrow> False | Some l \<Rightarrow> now < l))
       (value_error ''now_ns must not move backwards'')
     (let due_count = sc_due_count now s; first = sc_next_deadline_index s
      in ensure (due_count \<le> max_catch_up_deadlines)
           (Exc ValueErr [Lit ''scheduler catch-up limit exceeded: '', IntRepr due_count,
              Lit '' deadlines is greater than '', IntRepr max_catch_up_deadlines])
           (Inr (now, map (\<lambda>i. round_deadline_ns (sc_deadline s i)) [first .. first + due_count - 1]))))"

definition sc_preview_due :: "pyval \<Rightarrow> periodic_scheduler \<Rightarrow> (exc, int list) res" where
  "sc_preview_due now_ns s = bind_res (sc_calculate_due now_ns s) (\<lambda>(now, due). Inr due)"

definition sc_pop_due :: "pyval \<Rightarrow> (exc, periodic_scheduler, int list) op" where
  "sc_pop_due now_ns s =
     (case sc_calculate_due now_ns s of
        Inl e \<Rightarrow> (Inl e, s)
      | Inr (now, due) \<Rightarrow>
          let index = sc_next_deadline_index s + int (length due)
          in (Inr due,
              s\<lparr>sc_next_deadline_index := index, sc_next_deadline_seconds := sc_deadline s index,
                sc_last_now_ns := Some now\<rparr>))"

subsection \<open>Publish cadence\<close>

record publish_cadence =
  pc_clock :: sim_clock
  pc_wheel :: periodic_scheduler
  pc_sensor :: periodic_scheduler

record publish_batch =
  pb_wheel_timestamps_ns :: "int list"
  pb_sensor_timestamps_ns :: "int list"

definition new_publish_cadence :: "(exc, publish_cadence) res" where
  "new_publish_cadence =
     bind_res (new_scheduler (PInt 100) PNone) (\<lambda>wheel.
     bind_res (new_scheduler (PInt 10) PNone) (\<lambda>sensor.
       Inr \<lparr>pc_clock = new_sim_clock, pc_wheel = wheel, pc_sensor = sensor\<rparr>))"

definition on_clock :: "(exc, sim_clock, 'a) op \<Rightarrow> (exc, publish_cadence, 'a) op" where
  "on_clock f c = (case f (pc_clock c) of (r, x) \<Rightarrow> (r, c\<lparr>pc_clock := x\<rparr>))"

definition on_wheel :: "(exc, periodic_scheduler, 'a) op \<Rightarrow> (exc, publish_cadence, 'a) op" where
  "on_wheel f c = (case f (pc_wheel c) of (r, x) \<Rightarrow> (r, c\<lparr>pc_wheel := x\<rparr>))"

definition on_sensor :: "(exc, periodic_scheduler, 'a) op \<Rightarrow> (exc, publish_cadence, 'a) op" where
  "on_sensor f c = (case f (pc_sensor c) of (r, x) \<Rightarrow> (r, c\<lparr>pc_sensor := x\<rparr>))"

definition check_same :: "'a \<Rightarrow> string \<Rightarrow> 'a \<Rightarrow> (exc, publish_cadence, unit) op" where
  "check_same expected m x c = (ensure (x = expected) (runtime_error m) (Inr ()), c)"

definition cadence_advance :: "pyval \<Rightarrow> (exc, publish_cadence, publish_batch) op" where
  "cadence_advance dt c =
     (case bind_res (ck_preview_advance dt (pc_clock c)) (\<lambda>candidate.
            bind_res (sc_preview_due (PInt candidate) (pc_wheel c)) (\<lambda>wheel_due.
            bind_res (sc_preview_due (PInt candidate) (pc_sensor c)) (\<lambda>sensor_due.
              Inr (candidate, wheel_due, sensor_due)))) of
        Inl e \<Rightarrow> (Inl e, c)
      | Inr (candidate, wheel_due, sensor_due) \<Rightarrow>
          bind_op (bind_op (on_wheel (sc_pop_due (PInt candidate)))
                     (check_same wheel_due ''v2 wheel scheduler preview and commit diverged'')) (\<lambda>_.
          bind_op (bind_op (on_sensor (sc_pop_due (PInt candidate)))
                     (check_same sensor_due ''v2 sensor scheduler preview and commit diverged'')) (\<lambda>_.
          bind_op (bind_op (on_clock (ck_advance dt))
                     (check_same candidate ''v2 simulation clock preview and commit diverged'')) (\<lambda>_ c.
            (Inr \<lparr>pb_wheel_timestamps_ns = wheel_due, pb_sensor_timestamps_ns = sensor_due\<rparr>, c)))) c)"

subsection \<open>Rounding\<close>

lemma half_split:
  fixes n d :: int assumes "0 < d"
  shows "round_half_even (of_int n / of_int d)
    = (if d < n mod d * 2 \<or> (n mod d * 2 = d \<and> n div d mod 2 = 1) then n div d + 1 else n div d)"
proof -
  have f: "\<lfloor>of_int n / of_int d :: rat\<rfloor> = n div d" by (rule floor_divide_of_int_eq)
  have "(of_int n :: rat) = of_int (n div d) * of_int d + of_int (n mod d)"
    by (metis div_mult_mod_eq of_int_add of_int_mult)
  then have r: "of_int n / of_int d - of_int (n div d) = (of_int (n mod d) / of_int d :: rat)"
    using assms by (simp add: field_simps)
  have half: "(of_int m / of_int d :: rat) < 1/2 \<longleftrightarrow> m * 2 < d"
    "(1/2 :: rat) < of_int m / of_int d \<longleftrightarrow> d < m * 2" for m
  proof -
    have "(of_int m / of_int d :: rat) < 1/2 \<longleftrightarrow> (of_int (m * 2) :: rat) < of_int d"
      using assms by (simp add: field_simps)
    then show "(of_int m / of_int d :: rat) < 1/2 \<longleftrightarrow> m * 2 < d" by (simp only: of_int_less_iff)
    have "(1/2 :: rat) < of_int m / of_int d \<longleftrightarrow> (of_int d :: rat) < of_int (m * 2)"
      using assms by (simp add: field_simps)
    then show "(1/2 :: rat) < of_int m / of_int d \<longleftrightarrow> d < m * 2" by (simp only: of_int_less_iff)
  qed
  have par: "even (n div d) \<longleftrightarrow> n div d mod 2 \<noteq> 1" by presburger
  show ?thesis
    unfolding round_half_even_def f Let_def r half par by (simp add: not_less)
qed

lemma round_deadline_ns_eq: "round_deadline_ns q = round_half_even (q * of_int ns_per_second)"
proof -
  obtain n d where nd: "quotient_of q = (n, d)" by fastforce
  then have d: "0 < d" "q = of_int n / of_int d" by (auto dest: quotient_of_denom_pos quotient_of_div)
  then have "q * of_int ns_per_second = of_int (n * ns_per_second) / of_int d" by simp
  then show ?thesis
    using half_split [OF d(1), of "n * ns_per_second"]
    by (simp only: round_deadline_ns_def nd Let_def prod.case)
qed

text \<open>
  The integer quotient-and-remainder rounding the scheduler uses for a deadline is exactly
  Python's ties-to-even rounding of the deadline in nanoseconds, for every fraction.
\<close>

theorem round_deadline_ns_equiv: "round_deadline_ns q = round_ns q"
  by (simp only: round_deadline_ns_eq round_ns_def)

subsection \<open>The scheduler's invariant\<close>

definition now_seconds :: "int \<Rightarrow> rat" where
  "now_seconds now = of_int now / of_int ns_per_second"

definition scheduler_inv :: "periodic_scheduler \<Rightarrow> bool" where
  "scheduler_inv s \<longleftrightarrow>
     1 \<le> sc_rate_hz s \<and> sc_period_seconds s = 1 / of_int (sc_rate_hz s)
     \<and> 0 < sc_first_deadline_seconds s \<and> sc_first_deadline_seconds s \<le> sc_period_seconds s
     \<and> 0 \<le> sc_next_deadline_index s
     \<and> sc_next_deadline_seconds s = sc_deadline s (sc_next_deadline_index s)
     \<and> (sc_last_now_ns s = None \<longrightarrow> sc_next_deadline_index s = 0)
     \<and> (\<forall>now. sc_last_now_ns s = Some now \<longrightarrow>
          now_seconds now < sc_next_deadline_seconds s
          \<and> (sc_next_deadline_index s = 0 \<or> sc_deadline s (sc_next_deadline_index s - 1) \<le> now_seconds now))"

lemma positive_time_fraction_pos: "positive_time_fraction name v = Inr q \<Longrightarrow> 0 < q"
  by (auto simp: positive_time_fraction_def res_simps)

lemma new_scheduler_inv:
  assumes "new_scheduler rate first = Inr s" shows "scheduler_inv s \<and> sc_next_deadline_index s = 0 \<and> sc_last_now_ns s = None"
  using assms
  by (auto simp: new_scheduler_def scheduler_inv_def sc_deadline_def res_simps Let_def
      split: option.splits if_splits dest: positive_time_fraction_pos)

lemma sc_deadline_add: "sc_deadline s (i + j) = sc_deadline s i + of_int j * sc_period_seconds s"
  by (simp add: sc_deadline_def algebra_simps)

lemma scheduler_period_pos: "scheduler_inv s \<Longrightarrow> 0 < sc_period_seconds s"
  by (simp add: scheduler_inv_def)

lemma sc_deadline_mono: "scheduler_inv s \<Longrightarrow> i \<le> j \<Longrightarrow> sc_deadline s i \<le> sc_deadline s j"
  using scheduler_period_pos [of s] by (simp add: sc_deadline_def mult_right_mono)

lemma sc_due_count_spec:
  assumes inv: "scheduler_inv s"
    and c_def: "c = sc_due_count now s" and i_def: "i = sc_next_deadline_index s"
  shows "0 \<le> c" "now_seconds now < sc_deadline s (i + c)" "c \<noteq> 0 \<Longrightarrow> sc_deadline s (i + c - 1) \<le> now_seconds now"
proof -
  let ?t = "now_seconds now" and ?p = "sc_period_seconds s" and ?n = "sc_deadline s i"
  have p: "0 < ?p" by (rule scheduler_period_pos [OF inv])
  have nxt: "sc_next_deadline_seconds s = ?n" using inv by (simp add: scheduler_inv_def i_def)
  have c: "c = (if ?n \<le> ?t then \<lfloor>(?t - ?n) / ?p\<rfloor> + 1 else 0)"
    by (simp add: c_def sc_due_count_def now_seconds_def nxt Let_def)
  have "of_int \<lfloor>(?t - ?n) / ?p\<rfloor> \<le> (?t - ?n) / ?p" by (rule of_int_floor_le)
  then have lo: "of_int \<lfloor>(?t - ?n) / ?p\<rfloor> * ?p \<le> ?t - ?n"
    unfolding pos_le_divide_eq [OF p] .
  have "(?t - ?n) / ?p < of_int \<lfloor>(?t - ?n) / ?p\<rfloor> + 1" by linarith
  then have hi: "?t - ?n < (of_int \<lfloor>(?t - ?n) / ?p\<rfloor> + 1) * ?p"
    unfolding pos_divide_less_eq [OF p] .
  show "0 \<le> c" using c p by (auto simp: zero_le_floor)
  show "?t < sc_deadline s (i + c)"
  proof (cases "?n \<le> ?t")
    case True
    with c hi show ?thesis by (simp add: sc_deadline_add)
  qed (simp add: c)
  assume "c \<noteq> 0"
  then have le: "?n \<le> ?t" using c by (simp split: if_splits)
  with c have "i + c - 1 = i + \<lfloor>(?t - ?n) / ?p\<rfloor>" by simp
  with lo show "sc_deadline s (i + c - 1) \<le> ?t" by (simp only: sc_deadline_add)
qed

lemma sc_calculate_due_Inr:
  "sc_calculate_due v s = Inr (now, due) \<longleftrightarrow>
     require_uint64_now v = Inr now \<and> \<not> (\<exists>l. sc_last_now_ns s = Some l \<and> now < l)
     \<and> sc_due_count now s \<le> max_catch_up_deadlines
     \<and> due = map (\<lambda>i. round_deadline_ns (sc_deadline s i))
         [sc_next_deadline_index s .. sc_next_deadline_index s + sc_due_count now s - 1]"
  by (auto simp: sc_calculate_due_def res_simps Let_def split: option.splits)

lemma sc_deadline_update [simp]:
  "sc_deadline (s\<lparr>sc_next_deadline_index := i, sc_next_deadline_seconds := x, sc_last_now_ns := l\<rparr>) = sc_deadline s"
  by (simp add: sc_deadline_def fun_eq_iff)

lemma sc_pop_due_spec:
  assumes inv: "scheduler_inv s" and pop: "sc_pop_due v s = (Inr due, s')"
  shows "scheduler_inv s' \<and> sc_deadline s' = sc_deadline s \<and> sc_next_deadline_index s \<le> sc_next_deadline_index s'
    \<and> due = map (\<lambda>i. round_deadline_ns (sc_deadline s i)) [sc_next_deadline_index s .. sc_next_deadline_index s' - 1]
    \<and> (\<exists>now. require_uint64_now v = Inr now \<and> sc_last_now_ns s' = Some now)"
proof -
  let ?i = "sc_next_deadline_index s"
  from pop obtain now where calc: "sc_calculate_due v s = Inr (now, due)"
    and s': "s' = s\<lparr>sc_next_deadline_index := ?i + int (length due),
      sc_next_deadline_seconds := sc_deadline s (?i + int (length due)), sc_last_now_ns := Some now\<rparr>"
    by (auto simp: sc_pop_due_def Let_def split: sum.splits)
  let ?c = "sc_due_count now s"
  note c = sc_due_count_spec [OF inv refl refl, of now]
  from calc have due: "due = map (\<lambda>i. round_deadline_ns (sc_deadline s i)) [?i .. ?i + ?c - 1]"
    and v: "require_uint64_now v = Inr now" by (simp_all add: sc_calculate_due_Inr)
  then have len: "int (length due) = ?c" using c(1) by simp
  have last: "?i + ?c = 0 \<or> sc_deadline s (?i + ?c - 1) \<le> now_seconds now"
  proof (cases "?c = 0")
    case True
    have "sc_deadline s (?i - 1) \<le> now_seconds now" if "sc_last_now_ns s = Some l" "?i \<noteq> 0" for l
    proof -
      have "l \<le> now" using calc that by (auto simp: sc_calculate_due_Inr)
      then have "now_seconds l \<le> now_seconds now" by (simp add: now_seconds_def divide_right_mono)
      with inv that show ?thesis by (force simp: scheduler_inv_def)
    qed
    moreover have "?i = 0" if "sc_last_now_ns s = None" using inv that by (simp add: scheduler_inv_def)
    ultimately show ?thesis using True by (cases "sc_last_now_ns s") auto
  next
    case False
    with c(3) show ?thesis by simp
  qed
  have "scheduler_inv s'"
    using inv c(1,2) last unfolding s' len by (simp add: scheduler_inv_def)
  then show ?thesis using s' len due v c(1) by simp
qed

subsection \<open>No drift, no gap, no duplicate\<close>

fun sched_run :: "pyval list \<Rightarrow> periodic_scheduler \<Rightarrow> int list \<times> periodic_scheduler" where
  \<comment> \<open>any sequence of pops; one that raises leaves the scheduler and the caller goes on\<close>
  "sched_run [] s = ([], s)"
| "sched_run (v # vs) s =
     (case sc_pop_due v s of
        (Inl e, s') \<Rightarrow> sched_run vs s'
      | (Inr due, s') \<Rightarrow> (let (ts, s'') = sched_run vs s' in (due @ ts, s'')))"

lemma sc_pop_due_error: "sc_pop_due v s = (Inl e, s') \<Longrightarrow> s' = s"
  by (auto simp: sc_pop_due_def Let_def split: sum.splits)

lemma sched_run_spec:
  "sched_run vs s = (ts, s') \<Longrightarrow> scheduler_inv s \<Longrightarrow>
     scheduler_inv s' \<and> sc_deadline s' = sc_deadline s \<and> sc_next_deadline_index s \<le> sc_next_deadline_index s'
     \<and> ts = map (\<lambda>i. round_deadline_ns (sc_deadline s i)) [sc_next_deadline_index s .. sc_next_deadline_index s' - 1]"
proof (induction vs arbitrary: s ts)
  case Nil
  then show ?case by simp
next
  case (Cons v vs)
  obtain r s1 where r: "sc_pop_due v s = (r, s1)" by fastforce
  show ?case
  proof (cases r)
    case (Inl e)
    with r have "sc_pop_due v s = (Inl e, s1)" by simp
    then have "s1 = s" by (rule sc_pop_due_error)
    with r Inl Cons show ?thesis by simp
  next
    case (Inr due)
    obtain us where us: "sched_run vs s1 = (us, s')" using Cons.prems(1) r Inr by (auto split: prod.splits)
    have ts: "ts = due @ us" using Cons.prems(1) r Inr us by simp
    have pop: "sc_pop_due v s = (Inr due, s1)" using r Inr by simp
    note one = sc_pop_due_spec [OF Cons.prems(2) pop]
    from one Cons.IH [OF us] have rest: "scheduler_inv s'" "sc_deadline s' = sc_deadline s"
      "sc_next_deadline_index s1 \<le> sc_next_deadline_index s'"
      "us = map (\<lambda>i. round_deadline_ns (sc_deadline s i)) [sc_next_deadline_index s1 .. sc_next_deadline_index s' - 1]"
      by auto
    have "[sc_next_deadline_index s .. sc_next_deadline_index s' - 1]
        = [sc_next_deadline_index s .. sc_next_deadline_index s1 - 1] @ [sc_next_deadline_index s1 .. sc_next_deadline_index s' - 1]"
      using upto_split1 [of "sc_next_deadline_index s" "sc_next_deadline_index s1" "sc_next_deadline_index s' - 1"]
        one rest(3) upto_split2 [of "sc_next_deadline_index s" "sc_next_deadline_index s1 - 1" "sc_next_deadline_index s' - 1"]
      by (cases "sc_next_deadline_index s1 = sc_next_deadline_index s'") auto
    with one rest ts show ?thesis by simp
  qed
qed

text \<open>
  Through any sequence of pops of a new scheduler, with whatever arguments and however irregular
  the times, the timestamps popped are exactly the rounded deadlines \<open>first + i * period\<close> for
  \<open>i = 0, 1, 2, \<dots>\<close>: nothing is skipped, repeated or shifted by accumulated rounding; and after a pop
  at \<open>now\<close> exactly the deadlines up to \<open>now\<close> have been popped.
\<close>

theorem scheduler_deadlines_exact:
  assumes "new_scheduler rate first = Inr s0" and "sched_run vs s0 = (popped, s)"
  shows "popped = map (\<lambda>i. round_deadline_ns (sc_deadline s0 i)) [0 .. sc_next_deadline_index s - 1]
    \<and> (\<forall>now. sc_last_now_ns s = Some now \<longrightarrow>
         (\<forall>i\<ge>0. i < sc_next_deadline_index s \<longleftrightarrow> sc_deadline s0 i \<le> now_seconds now))"
proof -
  note new = new_scheduler_inv [OF assms(1)]
  then have inv0: "scheduler_inv s0" by simp
  from sched_run_spec [OF assms(2) inv0] new
  have inv: "scheduler_inv s" and dl: "sc_deadline s = sc_deadline s0"
    and ts: "popped = map (\<lambda>i. round_deadline_ns (sc_deadline s0 i)) [0 .. sc_next_deadline_index s - 1]" by auto
  have "i < sc_next_deadline_index s \<longleftrightarrow> sc_deadline s0 i \<le> now_seconds now"
    if now: "sc_last_now_ns s = Some now" and i: "0 \<le> i" for now i
  proof
    assume lt: "i < sc_next_deadline_index s"
    then have "sc_deadline s i \<le> sc_deadline s (sc_next_deadline_index s - 1)"
      by (intro sc_deadline_mono [OF inv]) simp
    moreover have "sc_deadline s (sc_next_deadline_index s - 1) \<le> now_seconds now"
      using inv now i lt by (auto simp: scheduler_inv_def)
    ultimately show "sc_deadline s0 i \<le> now_seconds now" by (simp add: dl)
  next
    assume le: "sc_deadline s0 i \<le> now_seconds now"
    have "now_seconds now < sc_deadline s (sc_next_deadline_index s)"
      using inv now by (simp add: scheduler_inv_def)
    with le dl have "sc_deadline s i < sc_deadline s (sc_next_deadline_index s)" by simp
    then show "i < sc_next_deadline_index s"
      using sc_deadline_mono [OF inv, of "sc_next_deadline_index s" i] by (meson not_le)
  qed
  with ts show ?thesis by blast
qed

definition example_scheduler :: periodic_scheduler where
  "example_scheduler = \<lparr>sc_rate_hz = 3, sc_period_seconds = 1/3, sc_first_deadline_seconds = 1/3,
     sc_next_deadline_seconds = 1/3, sc_next_deadline_index = 0, sc_last_now_ns = None\<rparr>"

theorem scheduler_deadlines_exact_witness:
  "fst (sched_run [PInt 400000000, PInt 300000000, PInt 1000000000] example_scheduler)
     = map (\<lambda>i. round_deadline_ns (sc_deadline example_scheduler i)) [0 .. 2]"
proof -
  have new: "new_scheduler (PInt 3) PNone = Inr example_scheduler"
    by (simp add: new_scheduler_def example_scheduler_def Let_def)
  have "sc_next_deadline_index (snd (sched_run [PInt 400000000, PInt 300000000, PInt 1000000000] example_scheduler)) = 3"
    by code_simp
  with scheduler_deadlines_exact [OF new surjective_pairing,
      of "[PInt 400000000, PInt 300000000, PInt 1000000000]"] show ?thesis by simp
qed

subsection \<open>The cadence\<close>

lemma sc_pop_preview: "sc_preview_due v s = Inr due \<longleftrightarrow> fst (sc_pop_due v s) = Inr due"
  by (auto simp: sc_preview_due_def sc_pop_due_def Let_def res_simps split: sum.splits)

lemma ck_preview_advance_eq: "ck_preview_advance dt c = fst (ck_advance dt c)"
  by (simp add: ck_preview_advance_def ck_advance_def bind_res_def split: sum.splits)

lemma check_same_ok: "check_same x m x c = (Inr (), c)"
  by (simp add: check_same_def)

lemma cadence_advance_Inr:
  assumes "ck_advance dt (pc_clock c) = (Inr now, ck)" and "sc_pop_due (PInt now) (pc_wheel c) = (Inr wd, wheel)"
    and "sc_pop_due (PInt now) (pc_sensor c) = (Inr sd, sensor)"
  shows "cadence_advance dt c
    = (Inr \<lparr>pb_wheel_timestamps_ns = wd, pb_sensor_timestamps_ns = sd\<rparr>,
       \<lparr>pc_clock = ck, pc_wheel = wheel, pc_sensor = sensor\<rparr>)"
proof -
  have "ck_preview_advance dt (pc_clock c) = Inr now" "sc_preview_due (PInt now) (pc_wheel c) = Inr wd"
    "sc_preview_due (PInt now) (pc_sensor c) = Inr sd"
    using assms by (simp_all add: ck_preview_advance_eq sc_pop_preview)
  with assms show ?thesis
    by (simp add: cadence_advance_def bind_op_def on_wheel_def on_sensor_def on_clock_def check_same_ok)
qed

lemma positive_time_fraction_error: "positive_time_fraction name v = Inl e \<Longrightarrow> is_value_error e"
  by (auto simp: positive_time_fraction_def time_error_def bind_res_Inl_iff ensure_Inl_iff
      split: pyval.splits pyfloat.splits if_splits)

lemma ck_advance_error: "ck_advance dt c = (Inl e, c') \<Longrightarrow> c' = c \<and> is_value_error e"
  by (auto simp: ck_advance_def ck_candidate_seconds_def bind_res_Inl_iff ensure_Inl_iff Let_def
      split: sum.splits if_splits dest: positive_time_fraction_error)

lemma sc_pop_due_value_error: "sc_pop_due v s = (Inl e, s') \<Longrightarrow> is_value_error e"
  by (auto simp: sc_pop_due_def sc_calculate_due_def require_uint64_now_def bind_res_Inl_iff ensure_Inl_iff Let_def
      split: sum.splits if_splits option.splits)

lemma cadence_advance_cases:
  obtains (error) e where "cadence_advance dt c = (Inl e, c)" "is_value_error e"
  | (ok) now ck wd wheel sd sensor where "ck_advance dt (pc_clock c) = (Inr now, ck)"
      "sc_pop_due (PInt now) (pc_wheel c) = (Inr wd, wheel)" "sc_pop_due (PInt now) (pc_sensor c) = (Inr sd, sensor)"
proof -
  obtain r ck where ck: "ck_advance dt (pc_clock c) = (r, ck)" by fastforce
  show thesis
  proof (cases r)
    case (Inl e)
    with ck have "ck_preview_advance dt (pc_clock c) = Inl e" by (simp add: ck_preview_advance_eq)
    then have "cadence_advance dt c = (Inl e, c)" by (simp add: cadence_advance_def)
    with ck Inl ck_advance_error show thesis by (intro error) auto
  next
    case now: (Inr now)
    then have pre: "ck_preview_advance dt (pc_clock c) = Inr now" using ck by (simp add: ck_preview_advance_eq)
    obtain rw wheel where w: "sc_pop_due (PInt now) (pc_wheel c) = (rw, wheel)" by fastforce
    obtain rs sensor where s: "sc_pop_due (PInt now) (pc_sensor c) = (rs, sensor)" by fastforce
    have pw: "sc_preview_due (PInt now) (pc_wheel c) = rw" and ps: "sc_preview_due (PInt now) (pc_sensor c) = rs"
      using w s by (auto simp: sc_preview_due_def sc_pop_due_def Let_def split: sum.splits)
    show thesis
    proof (cases rw)
      case (Inl e)
      then have "cadence_advance dt c = (Inl e, c)" using pre pw by (simp add: cadence_advance_def)
      then show thesis by (rule error) (use w Inl sc_pop_due_value_error in auto)
    next
      case wd: (Inr wd)
      show thesis
      proof (cases rs)
        case (Inl e)
        then have "cadence_advance dt c = (Inl e, c)" using pre pw ps wd by (simp add: cadence_advance_def)
        then show thesis by (rule error) (use s Inl sc_pop_due_value_error in auto)
      next
        case (Inr sd)
        with ck now w wd s show thesis by (intro ok) auto
      qed
    qed
  qed
qed

text \<open>
  Advancing the cadence is atomic: when it raises (a bad step, a clock past 64 bits, too many
  deadlines at once) the clock and both schedulers are exactly as before and the exception is a
  ValueError; the internal "preview and commit diverged" errors cannot happen.
\<close>

theorem cadence_advance_atomic:
  assumes "cadence_advance dt c = (Inl e, c')"
  shows "c' = c \<and> is_value_error e"
proof (cases rule: cadence_advance_cases [of dt c])
  case (error e')
  with assms show ?thesis by simp
next
  case (ok now ck wd wheel sd sensor)
  with assms cadence_advance_Inr show ?thesis by simp
qed

fun cadence_run :: "pyval list \<Rightarrow> publish_cadence \<Rightarrow> int list \<times> int list \<times> publish_cadence" where
  \<comment> \<open>the timestamps published by any sequence of physics steps\<close>
  "cadence_run [] c = ([], [], c)"
| "cadence_run (dt # dts) c =
     (case cadence_advance dt c of
        (Inl e, c') \<Rightarrow> cadence_run dts c'
      | (Inr b, c') \<Rightarrow>
          (case cadence_run dts c' of
             (ws, ss, c'') \<Rightarrow> (pb_wheel_timestamps_ns b @ ws, pb_sensor_timestamps_ns b @ ss, c'')))"

definition runs_at :: "int \<Rightarrow> int \<Rightarrow> periodic_scheduler \<Rightarrow> bool" where
  \<comment> \<open>a scheduler of this rate that has popped everything up to \<open>now\<close>\<close>
  "runs_at rate now s \<longleftrightarrow>
     scheduler_inv s \<and> 0 \<le> now \<and> sc_rate_hz s = rate \<and> sc_first_deadline_seconds s = sc_period_seconds s
     \<and> (sc_last_now_ns s = Some now \<or> (sc_last_now_ns s = None \<and> now = 0))"

lemma runs_at_deadline:
  "runs_at rate now s \<Longrightarrow> sc_deadline s i = of_int (i + 1) / of_int rate"
  by (simp add: runs_at_def scheduler_inv_def sc_deadline_def add_divide_distrib)

lemma runs_at_timestamp:
  assumes "runs_at rate now s" and "rate * step = ns_per_second"
  shows "round_deadline_ns (sc_deadline s i) = (i + 1) * step"
proof -
  have "rate \<noteq> 0" using assms(2) by auto
  have "(of_int ns_per_second :: rat) = of_int rate * of_int step" using assms(2) by (metis of_int_mult)
  then have "sc_deadline s i * of_int ns_per_second = of_int ((i + 1) * step)"
    using \<open>rate \<noteq> 0\<close> unfolding runs_at_deadline [OF assms(1)] by (simp add: field_simps)
  then show ?thesis by (simp only: round_deadline_ns_eq round_half_even_of_int)
qed

lemma runs_at_index:
  assumes at: "runs_at rate now s" and step: "rate * step = ns_per_second" "0 < step"
  shows "sc_next_deadline_index s = now div step"
proof -
  let ?i = "sc_next_deadline_index s"
  have inv: "scheduler_inv s" using at by (simp add: runs_at_def)
  then have i: "0 \<le> ?i" and rate: "0 < rate" using at by (auto simp: scheduler_inv_def runs_at_def)
  have eq: "of_int k / of_int rate \<le> now_seconds now \<longleftrightarrow> k * step \<le> now" for k
  proof -
    have "of_int k / of_int rate = (of_int (k * step) / of_int ns_per_second :: rat)"
      using rate step by (simp add: divide_simps flip: step(1))
    then show ?thesis unfolding now_seconds_def by (simp add: divide_le_cancel flip: of_int_mult)
  qed
  show ?thesis
  proof (cases "sc_last_now_ns s")
    case None
    with at inv show ?thesis by (simp add: runs_at_def scheduler_inv_def)
  next
    case (Some l)
    with at have l: "l = now" by (simp add: runs_at_def)
    from inv Some l have "now_seconds now < sc_deadline s ?i"
      "?i = 0 \<or> sc_deadline s (?i - 1) \<le> now_seconds now" by (auto simp: scheduler_inv_def)
    then have "\<not> (?i + 1) * step \<le> now" "?i = 0 \<or> ?i * step \<le> now"
      using eq [of "?i + 1"] eq [of ?i] by (simp_all add: runs_at_deadline [OF at] del: of_int_add)
    moreover have "0 \<le> now" using at by (simp add: runs_at_def)
    ultimately have "0 \<le> now - step * ?i" "now - step * ?i < step"
      by (auto simp: algebra_simps not_le)
    then have "now div step = ?i"
      by (intro int_div_pos_eq [where r = "now - step * ?i"]) simp_all
    then show ?thesis by simp
  qed
qed

lemma sc_pop_due_runs_at:
  assumes at: "runs_at rate old s" and pop: "sc_pop_due (PInt now) s = (Inr due, s')"
    and step: "rate * step = ns_per_second" "0 < step"
  shows "runs_at rate now s' \<and> due = map (\<lambda>k. k * step) [old div step + 1 .. now div step]"
proof -
  have inv: "scheduler_inv s" using at by (simp add: runs_at_def)
  note spec = sc_pop_due_spec [OF inv pop]
  have keep: "sc_rate_hz s' = sc_rate_hz s" "sc_first_deadline_seconds s' = sc_first_deadline_seconds s"
    "sc_period_seconds s' = sc_period_seconds s"
    using pop by (auto simp: sc_pop_due_def Let_def split: sum.splits)
  have "0 \<le> now" "sc_last_now_ns s' = Some now"
    using spec by (auto simp: require_uint64_now_def res_simps)
  with spec keep at have at': "runs_at rate now s'" by (simp add: runs_at_def)
  have "due = map (\<lambda>i. (i + 1) * step) [old div step .. now div step - 1]"
    using spec runs_at_timestamp [OF at step(1)] runs_at_index [OF at step] runs_at_index [OF at' step] by simp
  also have "\<dots> = map (\<lambda>k. k * step) (map (\<lambda>i. i + 1) [old div step .. now div step - 1])" by simp
  also have "map (\<lambda>i. i + 1) [old div step .. now div step - 1] = [old div step + 1 .. now div step]"
    by (rule nth_equalityI) (auto simp: nth_upto)
  finally show ?thesis using at' by simp
qed

definition cadence_inv :: "publish_cadence \<Rightarrow> bool" where
  "cadence_inv c \<longleftrightarrow>
     0 \<le> ck_seconds (pc_clock c)
     \<and> runs_at 100 (ck_now_ns (pc_clock c)) (pc_wheel c) \<and> runs_at 10 (ck_now_ns (pc_clock c)) (pc_sensor c)"

lemma round_ns_mono: "a \<le> b \<Longrightarrow> round_ns a \<le> round_ns b"
  by (simp add: round_ns_def round_half_even_mono)

lemma ck_advance_Inr:
  "ck_advance dt c = (Inr now, c') \<Longrightarrow> ck_seconds c < ck_seconds c' \<and> now = ck_now_ns c'"
  by (auto simp: ck_advance_def ck_candidate_seconds_def ck_now_ns_def Let_def res_simps
      split: sum.splits dest: positive_time_fraction_pos)

lemma cadence_advance_step:
  assumes inv: "cadence_inv c" and adv: "cadence_advance dt c = (Inr b, c')"
  shows "cadence_inv c' \<and> ck_now_ns (pc_clock c) \<le> ck_now_ns (pc_clock c')
    \<and> pb_wheel_timestamps_ns b = map (\<lambda>k. k * 10000000)
        [ck_now_ns (pc_clock c) div 10000000 + 1 .. ck_now_ns (pc_clock c') div 10000000]
    \<and> pb_sensor_timestamps_ns b = map (\<lambda>k. k * 100000000)
        [ck_now_ns (pc_clock c) div 100000000 + 1 .. ck_now_ns (pc_clock c') div 100000000]"
proof (cases rule: cadence_advance_cases [of dt c])
  case (error e)
  with adv show ?thesis by simp
next
  case (ok now ck wd wheel sd sensor)
  from cadence_advance_Inr [OF ok] adv
  have b: "b = \<lparr>pb_wheel_timestamps_ns = wd, pb_sensor_timestamps_ns = sd\<rparr>"
    and c': "c' = \<lparr>pc_clock = ck, pc_wheel = wheel, pc_sensor = sensor\<rparr>" by simp_all
  from ck_advance_Inr [OF ok(1)] have ck: "ck_seconds (pc_clock c) < ck_seconds ck" "now = ck_now_ns ck" by simp_all
  from inv have at: "runs_at 100 (ck_now_ns (pc_clock c)) (pc_wheel c)"
    "runs_at 10 (ck_now_ns (pc_clock c)) (pc_sensor c)" by (simp_all add: cadence_inv_def)
  have "ck_now_ns (pc_clock c) \<le> ck_now_ns ck" using ck(1) by (simp add: ck_now_ns_def round_ns_mono)
  with sc_pop_due_runs_at [OF at(1) ok(2), of 10000000] sc_pop_due_runs_at [OF at(2) ok(3), of 100000000]
    b c' ck inv show ?thesis by (simp add: cadence_inv_def)
qed

lemma upto_join: "a \<le> b \<Longrightarrow> b \<le> c \<Longrightarrow> [a + 1 .. b] @ [b + 1 .. c] = [a + 1 .. c]" for a b c :: int
proof -
  assume "a \<le> b" "b \<le> c"
  show ?thesis
  proof (cases "a = b")
    case False
    with \<open>a \<le> b\<close> \<open>b \<le> c\<close> show ?thesis by (intro upto_split2 [symmetric]) auto
  qed simp
qed

lemma cadence_run_spec:
  "cadence_run dts c = (ws, ss, c') \<Longrightarrow> cadence_inv c \<Longrightarrow>
     cadence_inv c' \<and> ck_now_ns (pc_clock c) \<le> ck_now_ns (pc_clock c')
     \<and> ws = map (\<lambda>k. k * 10000000) [ck_now_ns (pc_clock c) div 10000000 + 1 .. ck_now_ns (pc_clock c') div 10000000]
     \<and> ss = map (\<lambda>k. k * 100000000) [ck_now_ns (pc_clock c) div 100000000 + 1 .. ck_now_ns (pc_clock c') div 100000000]"
proof (induction dts arbitrary: c ws ss)
  case Nil
  then show ?case by simp
next
  case (Cons dt dts)
  obtain r c1 where r: "cadence_advance dt c = (r, c1)" by fastforce
  obtain ws1 ss1 where run: "cadence_run dts c1 = (ws1, ss1, c')"
    using Cons.prems(1) r by (cases r) (auto split: prod.splits)
  show ?case
  proof (cases r)
    case (Inl e)
    with r have "cadence_advance dt c = (Inl e, c1)" by simp
    then have "c1 = c" by (cases rule: cadence_advance_cases [of dt c]) (auto simp: cadence_advance_Inr)
    with r Inl Cons show ?thesis by simp
  next
    case (Inr b)
    let ?t = "ck_now_ns (pc_clock c)" and ?u = "ck_now_ns (pc_clock c1)" and ?v = "ck_now_ns (pc_clock c')"
    from r Inr cadence_advance_step [OF Cons.prems(2), of dt b c1]
    have one: "cadence_inv c1" "?t \<le> ?u"
      "pb_wheel_timestamps_ns b = map (\<lambda>k. k * 10000000) [?t div 10000000 + 1 .. ?u div 10000000]"
      "pb_sensor_timestamps_ns b = map (\<lambda>k. k * 100000000) [?t div 100000000 + 1 .. ?u div 100000000]" by simp_all
    from Cons.IH [OF run one(1)] have rest: "cadence_inv c'" "?u \<le> ?v"
      "ws1 = map (\<lambda>k. k * 10000000) [?u div 10000000 + 1 .. ?v div 10000000]"
      "ss1 = map (\<lambda>k. k * 100000000) [?u div 100000000 + 1 .. ?v div 100000000]" by simp_all
    have "ws = pb_wheel_timestamps_ns b @ ws1" "ss = pb_sensor_timestamps_ns b @ ss1"
      using Cons.prems(1) r Inr run by simp_all
    moreover note upto_join [OF zdiv_mono1 [OF one(2), of 10000000] zdiv_mono1 [OF rest(2), of 10000000]]
      upto_join [OF zdiv_mono1 [OF one(2), of 100000000] zdiv_mono1 [OF rest(2), of 100000000]]
    ultimately show ?thesis
      using one rest by (simp flip: map_append)
  qed
qed

lemma new_publish_cadence_inv: "new_publish_cadence = Inr c \<Longrightarrow> cadence_inv c \<and> ck_now_ns (pc_clock c) = 0"
proof -
  assume new: "new_publish_cadence = Inr c"
  then obtain w s where ws: "new_scheduler (PInt 100) PNone = Inr w" "new_scheduler (PInt 10) PNone = Inr s"
    and c: "c = \<lparr>pc_clock = new_sim_clock, pc_wheel = w, pc_sensor = s\<rparr>"
    by (auto simp: new_publish_cadence_def res_simps)
  from ws have "sc_rate_hz w = 100 \<and> sc_first_deadline_seconds w = sc_period_seconds w"
    "sc_rate_hz s = 10 \<and> sc_first_deadline_seconds s = sc_period_seconds s"
    by (auto simp: new_scheduler_def Let_def)
  moreover have "ck_now_ns new_sim_clock = 0"
    by (simp add: ck_now_ns_def new_sim_clock_def round_ns_def round_half_even_def)
  ultimately show ?thesis
    using new_scheduler_inv [OF ws(1)] new_scheduler_inv [OF ws(2)]
    by (simp add: c cadence_inv_def runs_at_def) (simp add: new_sim_clock_def)
qed

text \<open>
  C17. Over any run of physics steps, of whatever sizes, and with steps that raise in between, the
  wheel timestamps published are exactly 10 ms, 20 ms, 30 ms, \<dots> up to the simulation time and the
  sensor timestamps exactly 100 ms, 200 ms, \<dots>, each once and in order.
\<close>

theorem cadence_publishes_every_deadline:
  assumes "new_publish_cadence = Inr c0" and "cadence_run dts c0 = (wheel, sensor, c)"
  shows "wheel = map (\<lambda>k. k * 10000000) [1 .. ck_now_ns (pc_clock c) div 10000000]
    \<and> sensor = map (\<lambda>k. k * 100000000) [1 .. ck_now_ns (pc_clock c) div 100000000]"
  using cadence_run_spec [OF assms(2)] new_publish_cadence_inv [OF assms(1)] by simp

definition example_cadence :: publish_cadence where
  "example_cadence = projr new_publish_cadence"

lemma example_cadence_new: "new_publish_cadence = Inr example_cadence"
  by (simp add: example_cadence_def new_publish_cadence_def new_scheduler_def Let_def)

theorem cadence_advance_atomic_witness:
  "snd (cadence_advance (PInt 0) example_cadence) = example_cadence"
proof -
  have "cadence_advance (PInt 0) example_cadence
      = (Inl (time_error ''dt''), snd (cadence_advance (PInt 0) example_cadence))"
    by (simp add: cadence_advance_def ck_preview_advance_def ck_candidate_seconds_def positive_time_fraction_def)
  from cadence_advance_atomic [OF this] show ?thesis by simp
qed

theorem cadence_publishes_every_deadline_witness:
  "fst (cadence_run [PFraction (1/60), PInt 0, PFraction (1/60)] example_cadence) = [10000000, 20000000, 30000000]"
proof -
  let ?r = "cadence_run [PFraction (1/60), PInt 0, PFraction (1/60)] example_cadence"
  have now: "ck_now_ns (pc_clock (snd (snd ?r))) div 10000000 = 3" by code_simp
  have "?r = (fst ?r, fst (snd ?r), snd (snd ?r))" by simp
  from cadence_publishes_every_deadline [OF example_cadence_new this]
  have "fst ?r = map (\<lambda>k. k * 10000000) [1 .. 3]" unfolding now by simp
  also have "\<dots> = [10000000, 20000000, 30000000]" by code_simp
  finally show ?thesis .
qed

subsection \<open>Bounded denominators\<close>

lemma limit_loop_bounds:
  "limit_loop mx p0 q0 p1 q1 n d = (p0', q0', p1', q1') \<Longrightarrow>
     0 \<le> q0 \<Longrightarrow> q0 \<le> mx \<Longrightarrow> 1 \<le> q1 \<Longrightarrow> q1 \<le> mx \<Longrightarrow> d \<le> n \<Longrightarrow> 0 \<le> q0' \<and> q0' \<le> mx \<and> 1 \<le> q1' \<and> q1' \<le> mx"
proof (induction mx p0 q0 p1 q1 n d rule: limit_loop.induct)
  case (1 mx p0 q0 p1 q1 n d)
  let ?a = "n div d"
  show ?case
  proof (cases "d \<le> 0 \<or> mx < q0 + ?a * q1")
    case True
    with "1.prems" show ?thesis by (subst (asm) limit_loop.simps) (auto simp: Let_def split: if_splits)
  next
    case False
    then have d: "0 < d" by simp
    then have "1 \<le> ?a" using "1.prems" zdiv_mono1 [of d n d] by simp
    then have "1 * 1 \<le> ?a * q1" using "1.prems" by (intro mult_mono) simp_all
    then have q2: "1 \<le> q0 + ?a * q1" using "1.prems" by simp
    have rec: "limit_loop mx p1 q1 (p0 + ?a * p1) (q0 + ?a * q1) d (n - ?a * d) = (p0', q0', p1', q1')"
      using "1.prems"(1) False by (subst (asm) limit_loop.simps) (simp add: Let_def)
    have "n mod d < d" using d by simp
    then have "n - ?a * d \<le> d" by (simp add: minus_div_mult_eq_mod)
    with "1.IH" [OF _ refl refl _ rec] False "1.prems" q2 show ?thesis by simp
  qed
qed

lemma denominator_le: "0 < b \<Longrightarrow> snd (quotient_of (Fract a b)) \<le> b"
proof -
  assume b: "0 < b"
  have "snd (quotient_of (Fract a b)) = b div gcd a b"
    using b by (simp add: quotient_of_Fract normalize_def Let_def)
  also have "\<dots> \<le> b div 1"
    using b by (intro zdiv_mono2) (simp_all add: int_one_le_iff_zero_less)
  also have "\<dots> = b" by simp
  finally show ?thesis .
qed

text \<open>
  C18. A floating-point step enters the simulated clock as a fraction whose denominator is at most
  10^9, whatever the float (the numerators and denominators of the accumulated time stay bounded).
\<close>

theorem time_fraction_denominator:
  assumes "positive_time_fraction name (PFloat x) = Inr q"
  shows "snd (quotient_of q) \<le> ns_per_second"
proof -
  obtain r where r: "x = Fin r" "q = limit_denominator ns_per_second r"
    using assms by (cases x) (auto simp: positive_time_fraction_def res_simps)
  obtain n d where nd: "quotient_of r = (n, d)" by fastforce
  then have d: "0 < d" by (rule quotient_of_denom_pos)
  show ?thesis
  proof (cases "d \<le> ns_per_second")
    case True
    with r nd show ?thesis by (simp add: limit_denominator_def)
  next
    case False
    obtain p0 q0 p1 q1 where loop: "limit_loop ns_per_second 0 1 1 0 n d = (p0, q0, p1, q1)" by (metis prod_cases4)
    have "limit_loop ns_per_second 0 1 1 0 n d = limit_loop ns_per_second 1 0 (n div d) 1 d (n - n div d * d)"
      using d by (subst limit_loop.simps) (simp add: Let_def)
    moreover have "n mod d < d" using d by simp
    ultimately have b: "0 \<le> q0" "q0 \<le> ns_per_second" "1 \<le> q1" "q1 \<le> ns_per_second"
      using limit_loop_bounds [of ns_per_second 1 0 "n div d" 1 d "n - n div d * d" p0 q0 p1 q1] loop
      by (auto simp: minus_div_mult_eq_mod)
    let ?k = "(ns_per_second - q0) div q1"
    have "?k * q1 \<le> ns_per_second - q0" using b by (metis div_mult_mod_eq le_add_same_cancel1 pos_mod_sign less_le_trans zero_less_one)
    then have hi: "q0 + ?k * q1 \<le> ns_per_second" by simp
    have "0 \<le> ?k" using b by (intro div_int_pos_iff [THEN iffD2]) simp
    have lo: "0 < q0 + ?k * q1"
    proof (cases "q0 = 0")
      case True
      then have "1 \<le> ?k" using b zdiv_mono1 [of q1 ns_per_second q1] by simp
      then have "1 * 1 \<le> ?k * q1" using b by (intro mult_mono) simp_all
      with True show ?thesis by simp
    next
      case False
      with b \<open>0 \<le> ?k\<close> show ?thesis by (simp add: add_pos_nonneg)
    qed
    from False nd loop have "limit_denominator ns_per_second r = Fract p1 q1
        \<or> limit_denominator ns_per_second r = Fract (p0 + ?k * p1) (q0 + ?k * q1)"
      by (simp add: limit_denominator_def Let_def)
    then show ?thesis
      using denominator_le [of q1 p1] denominator_le [OF lo, of "p0 + ?k * p1"] b hi r
      by (auto intro: order_trans)
  qed
qed

theorem time_fraction_denominator_witness: "snd (quotient_of (1/240)) \<le> ns_per_second"
proof -
  have "positive_time_fraction ''dt'' (PFloat (fl (1/240))) = Inr (1/240)" by code_simp
  from time_fraction_denominator [OF this] show ?thesis .
qed

end
