(* ===== verification/SensorFrames.thy ===== *)
theory SensorFrames
  imports RuntimeProtocol CodecV2
begin

text \<open>
  The frame factories and the publisher of \<^verbatim>\<open>slope_sim/interfaces/v2/sensor_frames.py\<close>: one sampling
  time becomes a LiDAR, an RTK and an IMU message with identities reserved together, either at once or
  through the asynchronous LiDAR worker; wheel feedback becomes a wheel state that echoes the command
  authority.  What the sensors, the worker and the transport return are arguments.
\<close>

subsection \<open>Sensor readings and frames\<close>

type_synonym vec3 = "pyfloat \<times> pyfloat \<times> pyfloat"

record stage4_rtk =
  sr_timestamp_ns :: int
  sr_left :: vec3
  sr_center :: vec3
  sr_right :: vec3
  sr_heading :: pyfloat

record sensor_frames =
  sf_lidar :: lidar_point_cloud_v2
  sf_rtk :: rtk_state_v2
  sf_imu :: imu_attitude_v2

record prepared_frames =
  pf_lidar_payload :: bytes
  pf_lidar_timestamp_ns :: int
  pf_rtk :: rtk_state_v2
  pf_imu :: imu_attitude_v2
  pf_lidar_identity :: output_identity

definition point_of_vec :: "vec3 \<Rightarrow> (exc, point3d_v2) res" where
  "point_of_vec p = (case p of (x, y, z) \<Rightarrow> mk_point3d_v2 (PFloat x) (PFloat y) (PFloat z))"

definition rtk_frame :: "stage4_rtk \<Rightarrow> output_identity \<Rightarrow> (exc, rtk_state_v2) res" where
  "rtk_frame rtk i =
     bind_res (point_of_vec (sr_left rtk)) (\<lambda>l.
     bind_res (point_of_vec (sr_center rtk)) (\<lambda>c.
     bind_res (point_of_vec (sr_right rtk)) (\<lambda>r.
       mk_rtk_state_v2 (PInt (sr_timestamp_ns rtk)) (PInt (oi_sequence i)) (PInt (oi_world_generation i))
         (PStr ''world'') (Instance l) (Instance c) (Instance r) (PFloat (sr_heading rtk))
         (PBytes (oi_simulation_session_id i)) (PBytes (oi_descriptor_sha256 i)))))"

definition imu_frame :: "imu_attitude \<Rightarrow> output_identity \<Rightarrow> (exc, imu_attitude_v2) res" where
  "imu_frame imu i =
     mk_imu_attitude_v2 (PInt (im_timestamp_ns imu)) (PFloat (im_roll imu)) (PFloat (im_pitch imu))
       (PInt (oi_sequence i)) (PInt (oi_world_generation i)) (PStr ''base_link'')
       (PBytes (oi_simulation_session_id i)) (PBytes (oi_descriptor_sha256 i))"

definition lidar_frame :: "lidar_point_cloud \<Rightarrow> output_identity \<Rightarrow> (exc, lidar_point_cloud_v2) res" where
  "lidar_frame scan i =
     bind_res (map_res (\<lambda>p. mk_lidar_point_v2 (PInt (lp_offset_time_ns p)) (PFloat (lp_x p)) (PFloat (lp_y p))
         (PFloat (lp_z p)) (PInt (lp_reflectivity p)) (PInt (lp_tag p)) (PInt (lp_line p))) (lc_points scan)) (\<lambda>ps.
       mk_lidar_point_cloud_v2 (PInt (lc_timebase_ns scan)) (PStr (lc_frame_id scan)) (PInt (lc_point_num scan))
         (PInt (lc_lidar_id scan)) (Some (map Instance ps)) (PInt (oi_sequence i)) (PInt (oi_world_generation i))
         (PBytes (oi_simulation_session_id i)) (PBytes (oi_descriptor_sha256 i)))"

definition sensor_topics :: "string list" where
  \<comment> \<open>\<^verbatim>\<open>V2_OUTPUT_TOPICS[1:]\<close>\<close>
  "sensor_topics = tl v2_output_topics"

definition three_identities :: "output_identity list \<Rightarrow> (exc, output_identity \<times> output_identity \<times> output_identity) res" where
  \<comment> \<open>unpacking into three names\<close>
  "three_identities is =
     (case is of [a, b, c] \<Rightarrow> Inr (a, b, c) | _ \<Rightarrow> Inl (value_error ''wrong number of values to unpack''))"

definition build_frames ::
  "(exc, lidar_point_cloud inst) res \<Rightarrow> (exc, stage4_rtk inst) res \<Rightarrow> (exc, imu_attitude inst) res \<Rightarrow>
   output_identity \<times> output_identity \<times> output_identity \<Rightarrow> (exc, sensor_frames) res" where
  "build_frames scanned rtk_read imu_read ids =
     (case ids of (li, ri, ii) \<Rightarrow>
        bind_res scanned (\<lambda>scan. bind_res rtk_read (\<lambda>rtk. bind_res imu_read (\<lambda>imu.
          case scan of Foreign \<Rightarrow> Inl (runtime_error ''center lidar scan must return LidarPointCloud'')
          | Instance s \<Rightarrow>
          (case rtk of Foreign \<Rightarrow> Inl (runtime_error ''truth sensor suite must return Stage4RtkState'')
          | Instance r \<Rightarrow>
          (case imu of Foreign \<Rightarrow> Inl (runtime_error ''truth sensor suite must return ImuAttitude'')
          | Instance m \<Rightarrow>
             ensure (lc_timebase_ns s = sr_timestamp_ns r \<and> lc_timebase_ns s = im_timestamp_ns m)
               (runtime_error ''v2 sensor sample timestamps must match'')
             (bind_res (lidar_frame s li) (\<lambda>lidar. bind_res (rtk_frame r ri) (\<lambda>rtk_v2. bind_res (imu_frame m ii) (\<lambda>imu_v2.
                Inr \<lparr>sf_lidar = lidar, sf_rtk = rtk_v2, sf_imu = imu_v2\<rparr>))))))))))"

definition sync_capture ::
  "(exc, lidar_point_cloud inst) res \<Rightarrow> (exc, stage4_rtk inst) res \<Rightarrow> (exc, imu_attitude inst) res \<Rightarrow>
   (exc, runtime_protocol, sensor_frames) op" where
  "sync_capture scanned rtk_read imu_read rp =
     (case rp_reserve_outputs sensor_topics rp of
        (Inl e, rp') \<Rightarrow> (Inl e, rp')
      | (Inr is, rp') \<Rightarrow> (bind_res (three_identities is) (build_frames scanned rtk_read imu_read), rp'))"

subsection \<open>Asynchronous factory\<close>

record lidar_service_snapshot =
  ls_state :: string
  ls_in_flight :: bool
  ls_pending :: bool
  ls_error_code :: string
  ls_error_detail :: string

record lidar_event =
  le_kind :: string
  le_topic :: "string option"
  le_job :: "(string \<times> int) option"  \<comment> \<open>topic and timestamp of the job identity\<close>
  le_error_code :: string
  le_detail :: string

record lidar_prepared =
  pd_topic :: pyval
  pd_timestamp_ns :: pyval
  pd_payload :: pyval

record async_factory =
  af_pending :: "(int \<times> (output_identity \<times> rtk_state_v2 \<times> imu_attitude_v2)) list"
  af_last_failure :: "string option"

definition new_async_factory :: async_factory where
  "new_async_factory = \<lparr>af_pending = [], af_last_failure = None\<rparr>"

definition by_backpressure :: "lidar_service_snapshot option \<Rightarrow> bool" where
  \<comment> \<open>\<open>None\<close> for a service without snapshots\<close>
  "by_backpressure snapshot =
     (case snapshot of None \<Rightarrow> False | Some s \<Rightarrow> ls_state s = ''ready'' \<and> ls_in_flight s \<and> ls_pending s)"

definition or_none :: "string \<Rightarrow> string" where
  "or_none s = (if s = [] then ''none'' else s)"

definition rejection_detail :: "lidar_service_snapshot option \<Rightarrow> async_factory \<Rightarrow> string" where
  "rejection_detail snapshot f =
     (case snapshot of
        None \<Rightarrow> ''state=unknown''
      | Some s \<Rightarrow>
          ''state='' @ ls_state s @ '', error='' @ or_none (ls_error_code s) @ '', detail='' @ or_none (ls_error_detail s)
          @ (case af_last_failure f of None \<Rightarrow> [] | Some d \<Rightarrow> '', previous_frame_failure='' @ d))"

definition check_sample ::
  "int \<Rightarrow> (exc, stage4_rtk inst) res \<Rightarrow> (exc, imu_attitude inst) res \<Rightarrow> (exc, stage4_rtk \<times> imu_attitude) res" where
  "check_sample timestamp rtk_read imu_read =
     bind_res rtk_read (\<lambda>rtk. bind_res imu_read (\<lambda>imu.
       case (rtk, imu) of
         (Instance r, Instance m) \<Rightarrow>
           ensure (sr_timestamp_ns r = timestamp \<and> im_timestamp_ns m = timestamp)
             (runtime_error ''v2 async sensor sample timestamps must match'') (Inr (r, m))
       | _ \<Rightarrow> Inl (runtime_error ''truth sensor suite returned an invalid Stage4 sample'')))"

definition submit_capture ::
  "(exc, bool) res \<Rightarrow> (exc, bool) res \<Rightarrow> lidar_service_snapshot option \<Rightarrow> async_factory \<Rightarrow> (exc, bool) res" where
  \<comment> \<open>\<open>context\<close>: whether the context is a pair, \<open>submitted\<close>: whether the worker took the scan;
     False is the frame given up under back-pressure\<close>
  "submit_capture ctx submitted snapshot f =
     bind_res ctx (\<lambda>pair.
     ensure pair (runtime_error ''capture_context must return world mount pose and snapshots'')
     (bind_res submitted (\<lambda>accepted.
        ensure (accepted \<or> by_backpressure snapshot)
          (runtime_error (''Stage4 lidar worker rejected a due capture: '' @ rejection_detail snapshot f))
          (Inr accepted))))"

definition async_frames ::
  "int \<Rightarrow> (exc, stage4_rtk inst) res \<Rightarrow> (exc, imu_attitude inst) res \<Rightarrow> (exc, bool) res \<Rightarrow> (exc, bool) res \<Rightarrow>
   lidar_service_snapshot option \<Rightarrow> async_factory \<Rightarrow> output_identity \<times> output_identity \<times> output_identity \<Rightarrow>
   (exc, (output_identity \<times> rtk_state_v2 \<times> imu_attitude_v2) option) res" where
  "async_frames timestamp rtk_read imu_read ctx submitted snapshot f ids =
     (case ids of (li, ri, ii) \<Rightarrow>
        bind_res (check_sample timestamp rtk_read imu_read) (\<lambda>(r, m).
        ensure (timestamp \<notin> fst ` set (af_pending f)) (runtime_error ''v2 async lidar timestamp is already pending'')
        (bind_res (submit_capture ctx submitted snapshot f) (\<lambda>accepted.
           if \<not> accepted then Inr None
           else bind_res (rtk_frame r ri) (\<lambda>rtk. bind_res (imu_frame m ii) (\<lambda>imu. Inr (Some (li, rtk, imu))))))))"

definition async_capture ::
  "int \<Rightarrow> (exc, stage4_rtk inst) res \<Rightarrow> (exc, imu_attitude inst) res \<Rightarrow> (exc, bool) res \<Rightarrow> (exc, bool) res \<Rightarrow>
   lidar_service_snapshot option \<Rightarrow> (exc, runtime_protocol \<times> async_factory, unit) op" where
  "async_capture timestamp rtk_read imu_read ctx submitted snapshot s =
     (case s of (rp, f) \<Rightarrow>
        (case rp_reserve_outputs sensor_topics rp of
           (Inl e, rp') \<Rightarrow> (Inl e, (rp', f))
         | (Inr is, rp') \<Rightarrow>
             (case bind_res (three_identities is)
                     (async_frames timestamp rtk_read imu_read ctx submitted snapshot f) of
                Inl e \<Rightarrow> (Inl e, (rp', f))
              | Inr None \<Rightarrow> (Inr (), (rp', f))
              | Inr (Some entry) \<Rightarrow> (Inr (), (rp', f\<lparr>af_pending := dict_put timestamp entry (af_pending f)\<rparr>)))))"

fun discard_events :: "lidar_event inst list \<Rightarrow> (exc, async_factory, unit) op" where
  "discard_events [] f = (Inr (), f)"
| "discard_events (Foreign # es) f =
     (Inl (runtime_error ''Stage4 lidar worker returned an invalid service event''), f)"
| "discard_events (Instance e # es) f =
     discard_events es
       (if le_kind e \<noteq> ''frame_failed'' then f
        else let f = f\<lparr>af_last_failure := Some (le_error_code e @ '': '' @ le_detail e)\<rparr>
             in case le_job e of
                  Some (topic, timestamp) \<Rightarrow>
                    if le_topic e = Some ''lidar_link'' \<and> topic = ''lidar_link''
                    then f\<lparr>af_pending := dict_del timestamp (af_pending f)\<rparr> else f
                | None \<Rightarrow> f)"

definition discard_terminal_events :: "(exc, lidar_event inst list option) res \<Rightarrow> (exc, async_factory, unit) op" where
  \<comment> \<open>\<open>Inr None\<close>: the service did not return a tuple\<close>
  "discard_terminal_events drained f =
     (case drained of
        Inl e \<Rightarrow> (Inl e, f)
      | Inr None \<Rightarrow> (Inl (runtime_error ''Stage4 lidar worker drain_events must return an exact tuple''), f)
      | Inr (Some es) \<Rightarrow> discard_events es f)"

definition take_prepared :: "lidar_prepared \<Rightarrow> (exc, async_factory, prepared_frames list) op" where
  "take_prepared p f =
     (case (pd_topic p, pd_timestamp_ns p, pd_payload p) of
        (PStr topic, PInt timestamp, PBytes payload) \<Rightarrow>
          if topic \<noteq> ''lidar_link''
          then (Inl (runtime_error ''Stage4 lidar worker returned an invalid prepared payload''), f)
          else (case map_of (af_pending f) timestamp of
                  None \<Rightarrow> (Inl (runtime_error ''Stage4 lidar worker returned an unknown timestamp''), f)
                | Some (li, rtk, imu) \<Rightarrow>
                    (Inr [\<lparr>pf_lidar_payload = payload, pf_lidar_timestamp_ns = timestamp, pf_rtk = rtk, pf_imu = imu,
                           pf_lidar_identity = li\<rparr>],
                     f\<lparr>af_pending := dict_del timestamp (af_pending f)\<rparr>))
      | _ \<Rightarrow> (Inl (runtime_error ''Stage4 lidar worker returned an invalid prepared payload''), f))"

definition poll_completed ::
  "(exc, lidar_prepared option) res \<Rightarrow> (exc, lidar_event inst list option) res \<Rightarrow> (exc, async_factory, prepared_frames list) op" where
  "poll_completed polled drained f =
     (case polled of
        Inl e \<Rightarrow> (Inl e, f)
      | Inr p \<Rightarrow>
          bind_op (discard_terminal_events drained)
            (\<lambda>_ f. case p of None \<Rightarrow> (Inr [], f) | Some prepared \<Rightarrow> take_prepared prepared f) f)"

definition has_pending :: "async_factory \<Rightarrow> bool" where
  "has_pending f \<longleftrightarrow> af_pending f \<noteq> []"

subsection \<open>Publisher\<close>

record published_frame =
  pu_topic :: string
  pu_payload :: bytes
  pu_type_name :: string
  pu_timestamp_ns :: int

definition check_wall_time :: "pyval \<Rightarrow> (exc, pyfloat) res" where
  "check_wall_time = finite_number ''wall_time must be finite''"

definition transport_publish :: "(string \<Rightarrow> (exc, bool) res) \<Rightarrow> string \<Rightarrow> published_frame \<Rightarrow> (exc, unit) res" where
  \<comment> \<open>\<open>outcome\<close> gives, by topic, whether the transport took the message; anything but True is an error\<close>
  "transport_publish outcome rejected p =
     bind_res (outcome (pu_topic p)) (\<lambda>taken. ensure taken (runtime_error rejected) (Inr ()))"

fun publish_each ::
  "(v2_model \<Rightarrow> (exc, encoded_v2_frame) res) \<Rightarrow> (string \<Rightarrow> (exc, bool) res) \<Rightarrow> (string \<times> v2_model \<times> int) list \<Rightarrow>
   (exc, unit) res \<times> published_frame list" where
  \<comment> \<open>the result and what was handed to the transport\<close>
  "publish_each encode outcome [] = (Inr (), [])"
| "publish_each encode outcome ((topic, model, timestamp) # rest) =
     (case encode model of
        Inl e \<Rightarrow> (Inl e, [])
      | Inr frame \<Rightarrow>
          let p = \<lparr>pu_topic = topic, pu_payload = ef_payload frame, pu_type_name = ef_type_name frame,
                   pu_timestamp_ns = timestamp\<rparr>
          in case transport_publish outcome (''v2 transport rejected '' @ topic @ '' sensor frame'') p of
               Inl e \<Rightarrow> (Inl e, [p])
             | Inr u \<Rightarrow> (case publish_each encode outcome rest of (r, ps) \<Rightarrow> (r, p # ps)))"

definition publish_frames ::
  "(v2_model \<Rightarrow> (exc, encoded_v2_frame) res) \<Rightarrow> (string \<Rightarrow> (exc, bool) res) \<Rightarrow> sensor_frames inst \<Rightarrow> pyval \<Rightarrow>
   (exc, unit) res \<times> published_frame list" where
  "publish_frames encode outcome frames wall_time =
     (case frames of
        Foreign \<Rightarrow> (Inl (value_error ''frames must be a V2SensorFrames''), [])
      | Instance f \<Rightarrow>
          (case check_wall_time wall_time of
             Inl e \<Rightarrow> (Inl e, [])
           | Inr t \<Rightarrow>
               publish_each encode outcome
                 [(''/sim/lidar/points'', VmCloud (sf_lidar f), lv_timebase_ns (sf_lidar f)),
                  (''/sim/rtk/state'', VmRtk (sf_rtk f), rv_timestamp_ns (sf_rtk f)),
                  (''/sim/imu/attitude'', VmImu (sf_imu f), iv_timestamp_ns (sf_imu f))]))"

definition publish_prepared ::
  "(v2_model \<Rightarrow> (exc, encoded_v2_frame) res) \<Rightarrow> (string \<Rightarrow> (exc, bool) res) \<Rightarrow> prepared_frames inst \<Rightarrow> pyval \<Rightarrow>
   (exc, unit) res \<times> published_frame list" where
  "publish_prepared encode outcome frames wall_time =
     (case frames of
        Foreign \<Rightarrow> (Inl (value_error ''frames must be a V2PreparedSensorFrames''), [])
      | Instance f \<Rightarrow>
          (case bind_res (check_wall_time wall_time) (\<lambda>_.
                  ensure (pf_lidar_payload f \<noteq> []) (value_error ''prepared lidar payload must be nonempty exact bytes'')
                  (ensure (pf_lidar_timestamp_ns f = rv_timestamp_ns (pf_rtk f)
                           \<and> pf_lidar_timestamp_ns f = iv_timestamp_ns (pf_imu f))
                     (value_error ''prepared v2 sensor timestamps must match'') (Inr ()))) of
             Inl e \<Rightarrow> (Inl e, [])
           | Inr u \<Rightarrow>
               let p = \<lparr>pu_topic = ''/sim/lidar/points'', pu_payload = pf_lidar_payload f,
                        pu_type_name = ''slope_sim.interfaces.v2.LidarPointCloud'',
                        pu_timestamp_ns = pf_lidar_timestamp_ns f\<rparr>
               in case transport_publish outcome ''v2 transport rejected prepared lidar frame'' p of
                    Inl e \<Rightarrow> (Inl e, [p])
                  | Inr u \<Rightarrow>
                      (case publish_each encode outcome
                              [(''/sim/rtk/state'', VmRtk (pf_rtk f), rv_timestamp_ns (pf_rtk f)),
                               (''/sim/imu/attitude'', VmImu (pf_imu f), iv_timestamp_ns (pf_imu f))] of
                         (r, ps) \<Rightarrow> (r, p # ps))))"

definition publish_wheel_state ::
  "(v2_model \<Rightarrow> (exc, encoded_v2_frame) res) \<Rightarrow> (string \<Rightarrow> (exc, bool) res) \<Rightarrow> wheel_state_v2 inst \<Rightarrow> pyval \<Rightarrow>
   (exc, unit) res \<times> published_frame list" where
  "publish_wheel_state encode outcome frame wall_time =
     (case frame of
        Foreign \<Rightarrow> (Inl (value_error ''frame must be a WheelStateV2''), [])
      | Instance s \<Rightarrow>
          (case bind_res (check_wall_time wall_time) (\<lambda>_. encode (VmState s)) of
             Inl e \<Rightarrow> (Inl e, [])
           | Inr f \<Rightarrow>
               let p = \<lparr>pu_topic = ''/sim/wheel/state'', pu_payload = ef_payload f, pu_type_name = ef_type_name f,
                        pu_timestamp_ns = sv_timestamp_ns s\<rparr>
               in (transport_publish outcome ''v2 transport rejected wheel state frame'' p, [p])))"

subsection \<open>Wheel state\<close>

definition wheel_state_of :: "string \<Rightarrow> wheel_state \<Rightarrow> output_identity \<Rightarrow> runtime_snapshot \<Rightarrow> (exc, wheel_state_v2) res" where
  "wheel_state_of robot_model feedback i snapshot =
     (let authority = rs_authority snapshot
      in mk_wheel_state_v2 (PInt (ws_timestamp_ns feedback)) (PTuple (map PFloat (ws_drive feedback)))
           (PTuple (map PFloat (ws_steering_angle feedback))) (PInt (oi_sequence i)) (PInt (oi_world_generation i))
           (PInt (rs_command_generation snapshot)) (PStr robot_model) (PBytes (oi_simulation_session_id i))
           (PBytes (oi_descriptor_sha256 i)) (Instance (as_state authority))
           (PStr (case as_owner_source_id authority of Some n \<Rightarrow> n | None \<Rightarrow> []))
           (PBytes (case as_owner_source_session_id authority of Some b \<Rightarrow> b | None \<Rightarrow> []))
           (PInt (as_peer_count authority)))"

definition build_wheel_state ::
  "string \<Rightarrow> wheel_state inst \<Rightarrow> (runtime_protocol \<Rightarrow> runtime_protocol) \<Rightarrow> (exc, runtime_protocol, wheel_state_v2) op" where
  \<comment> \<open>\<open>others\<close> is what other threads do between the reservation and the snapshot\<close>
  "build_wheel_state robot_model feedback others rp =
     (case feedback of
        Foreign \<Rightarrow> (Inl (value_error ''feedback must be a WheelState''), rp)
      | Instance w \<Rightarrow>
          (case rp_reserve_output ''/sim/wheel/state'' rp of
             (Inl e, rp1) \<Rightarrow> (Inl e, rp1)
           | (Inr i, rp1) \<Rightarrow>
               let rp2 = others rp1; snapshot = runtime_snapshot_of rp2
               in (if oi_simulation_session_id i \<noteq> rs_simulation_session_id snapshot
                      \<or> oi_descriptor_sha256 i \<noteq> rs_descriptor_sha256 snapshot
                      \<or> oi_world_generation i \<noteq> rs_world_generation snapshot
                   then Inl (runtime_error ''v2 wheel state identity changed during construction'')
                   else wheel_state_of robot_model w i snapshot, rp2)))"

subsection \<open>Frames of one capture belong together\<close>

abbreviation session_of :: "runtime_protocol \<Rightarrow> protocol_session" where
  "session_of rp \<equiv> au_session (rp_authority rp)"

definition same_origin :: "output_identity \<Rightarrow> output_identity \<Rightarrow> bool" where
  "same_origin i j \<longleftrightarrow>
     oi_world_generation i = oi_world_generation j \<and> oi_simulation_session_id i = oi_simulation_session_id j
     \<and> oi_descriptor_sha256 i = oi_descriptor_sha256 j"

definition identity_of_session :: "protocol_session \<Rightarrow> output_identity \<Rightarrow> bool" where
  "identity_of_session s i \<longleftrightarrow>
     oi_world_generation i = ps_world_generation s \<and> oi_simulation_session_id i = ps_simulation_session_id s
     \<and> oi_descriptor_sha256 i = di_sha256 (ps_descriptor s)"

lemma reserve_output_identity:
  assumes "on_authority (with_session (reserve_output t)) rp = (Inr i, rp')"
  shows "oi_topic i = t \<and> identity_of_session (session_of rp) i
    \<and> identity_of_session (session_of rp') = identity_of_session (session_of rp)"
  using assms
  by (auto simp: on_authority_def with_session_def reserve_output_def identity_of_session_def fun_eq_iff
      split: option.splits if_splits)

lemma reserve_each_identities:
  "reserve_each ts rp = (Inr is, rp') \<Longrightarrow>
   map oi_topic is = ts \<and> list_all (identity_of_session (session_of rp)) is"
proof (induction ts arbitrary: rp "is")
  case (Cons t ts)
  from Cons.prems obtain i rp1 js where "on_authority (with_session (reserve_output t)) rp = (Inr i, rp1)"
    "reserve_each ts rp1 = (Inr js, rp')" "is = i # js"
    by (auto simp: bind_op_def split: prod.splits sum.splits)
  with Cons.IH [of rp1 js] reserve_output_identity [of t rp i rp1] show ?case by simp
qed simp

lemma sensor_topics_eq: "sensor_topics = [''/sim/lidar/points'', ''/sim/rtk/state'', ''/sim/imu/attitude'']"
  by (simp add: sensor_topics_def)

lemma sensor_identities:
  assumes "rp_reserve_outputs sensor_topics rp = (Inr is, rp')"
  obtains li ri ii where "is = [li, ri, ii]" "oi_topic li = ''/sim/lidar/points''" "oi_topic ri = ''/sim/rtk/state''"
    "oi_topic ii = ''/sim/imu/attitude''" "identity_of_session (session_of rp) li"
    "identity_of_session (session_of rp) ri" "identity_of_session (session_of rp) ii"
proof -
  from assms have "reserve_each sensor_topics rp = (Inr is, rp')"
    by (auto simp: rp_reserve_outputs_def bind_op_def sensor_topics_eq split: prod.splits sum.splits if_splits)
  from reserve_each_identities [OF this] obtain li ri ii where "is = [li, ri, ii]"
    by (auto simp: sensor_topics_eq map_eq_Cons_conv)
  with reserve_each_identities [OF \<open>reserve_each sensor_topics rp = (Inr is, rp')\<close>] that show ?thesis
    by (auto simp: sensor_topics_eq)
qed

lemma rtk_frame_fields:
  "rtk_frame r i = Inr f \<Longrightarrow> rv_timestamp_ns f = sr_timestamp_ns r \<and> rv_sequence f = oi_sequence i
     \<and> rv_world_generation f = oi_world_generation i \<and> rv_simulation_session_id f = oi_simulation_session_id i
     \<and> rv_descriptor_sha256 f = oi_descriptor_sha256 i"
  by (auto simp: rtk_frame_def mk_rtk_state_v2_def res_simps)

lemma imu_frame_fields:
  "imu_frame m i = Inr f \<Longrightarrow> iv_timestamp_ns f = im_timestamp_ns m \<and> iv_sequence f = oi_sequence i
     \<and> iv_world_generation f = oi_world_generation i \<and> iv_simulation_session_id f = oi_simulation_session_id i
     \<and> iv_descriptor_sha256 f = oi_descriptor_sha256 i"
  by (auto simp: imu_frame_def mk_imu_attitude_v2_def res_simps)

lemma lidar_frame_fields:
  "lidar_frame s i = Inr f \<Longrightarrow> lv_timebase_ns f = lc_timebase_ns s \<and> lv_sequence f = oi_sequence i
     \<and> lv_world_generation f = oi_world_generation i \<and> lv_simulation_session_id f = oi_simulation_session_id i
     \<and> lv_descriptor_sha256 f = oi_descriptor_sha256 i"
  by (auto simp: lidar_frame_def mk_lidar_point_cloud_v2_def res_simps)

definition coherent_entry :: "int \<Rightarrow> output_identity \<Rightarrow> rtk_state_v2 \<Rightarrow> imu_attitude_v2 \<Rightarrow> bool" where
  "coherent_entry t li rtk imu \<longleftrightarrow>
     oi_topic li = ''/sim/lidar/points'' \<and> rv_timestamp_ns rtk = t \<and> iv_timestamp_ns imu = t
     \<and> rv_world_generation rtk = oi_world_generation li \<and> iv_world_generation imu = oi_world_generation li
     \<and> rv_simulation_session_id rtk = oi_simulation_session_id li \<and> iv_simulation_session_id imu = oi_simulation_session_id li
     \<and> rv_descriptor_sha256 rtk = oi_descriptor_sha256 li \<and> iv_descriptor_sha256 imu = oi_descriptor_sha256 li"

definition factory_inv :: "async_factory \<Rightarrow> bool" where
  "factory_inv f \<longleftrightarrow> (\<forall>(t, li, rtk, imu) \<in> set (af_pending f). coherent_entry t li rtk imu)"

lemma set_dict_put: "set (dict_put k v d) \<subseteq> insert (k, v) (set d)"
  by (induction k v d rule: dict_put.induct) auto

lemma factory_inv_put:
  "factory_inv f \<Longrightarrow> coherent_entry t li rtk imu \<Longrightarrow>
   factory_inv (f\<lparr>af_pending := dict_put t (li, rtk, imu) (af_pending f)\<rparr>)"
  using set_dict_put [of t "(li, rtk, imu)" "af_pending f"] by (auto simp: factory_inv_def)

lemma factory_inv_del: "factory_inv f \<Longrightarrow> factory_inv (f\<lparr>af_pending := dict_del t (af_pending f)\<rparr>)"
  by (auto simp: factory_inv_def dict_del_def)

lemma factory_inv_failure: "factory_inv (f\<lparr>af_last_failure := d\<rparr>) = factory_inv f"
  by (simp add: factory_inv_def)

lemma factory_inv_failure_del:
  "factory_inv f \<Longrightarrow> factory_inv (f\<lparr>af_last_failure := d, af_pending := dict_del t (af_pending f)\<rparr>)"
  by (auto simp: factory_inv_def dict_del_def)

lemma new_factory_inv: "factory_inv new_async_factory"
  by (simp add: factory_inv_def new_async_factory_def)

lemma check_sample_ok:
  assumes "check_sample t rtk_read imu_read = Inr (r, m)"
  shows "sr_timestamp_ns r = t" "im_timestamp_ns m = t"
proof -
  from assms obtain x y where "rtk_read = Inr x" "imu_read = Inr y" by (auto simp: check_sample_def res_simps)
  with assms have "sr_timestamp_ns r = t \<and> im_timestamp_ns m = t"
    by (cases x; cases y) (auto simp: check_sample_def res_simps)
  then show "sr_timestamp_ns r = t" "im_timestamp_ns m = t" by simp_all
qed

lemma async_frames_coherent:
  assumes "async_frames t rtk_read imu_read ctx submitted snapshot f (li, ri, ii) = Inr (Some (l, rtk, imu))"
    and "oi_topic li = ''/sim/lidar/points''" "identity_of_session s li" "identity_of_session s ri" "identity_of_session s ii"
  shows "l = li \<and> coherent_entry t li rtk imu"
proof -
  from assms(1) obtain r m where "sr_timestamp_ns r = t" "im_timestamp_ns m = t" "l = li"
    and frames: "rtk_frame r ri = Inr rtk" "imu_frame m ii = Inr imu"
    by (auto simp: async_frames_def res_simps dest: check_sample_ok split: if_splits)
  moreover from assms(3-5) have "oi_world_generation ri = oi_world_generation li"
    "oi_world_generation ii = oi_world_generation li" "oi_simulation_session_id ri = oi_simulation_session_id li"
    "oi_simulation_session_id ii = oi_simulation_session_id li" "oi_descriptor_sha256 ri = oi_descriptor_sha256 li"
    "oi_descriptor_sha256 ii = oi_descriptor_sha256 li"
    by (simp_all add: identity_of_session_def)
  ultimately show ?thesis
    using rtk_frame_fields [OF frames(1)] imu_frame_fields [OF frames(2)] assms(2) by (simp add: coherent_entry_def)
qed

lemma async_capture_inv:
  assumes "factory_inv f"
  shows "factory_inv (snd (snd (async_capture t rtk_read imu_read ctx submitted snapshot (rp, f))))"
proof (cases "rp_reserve_outputs sensor_topics rp")
  case (Pair r rp')
  show ?thesis
  proof (cases r)
    case (Inl e)
    with Pair assms show ?thesis by (simp add: async_capture_def)
  next
    case (Inr js)
    with Pair obtain li ri ii where ids: "js = [li, ri, ii]" "oi_topic li = ''/sim/lidar/points''"
      "identity_of_session (session_of rp) li" "identity_of_session (session_of rp) ri"
      "identity_of_session (session_of rp) ii"
      using sensor_identities [of rp js rp'] by metis
    let ?frames = "async_frames t rtk_read imu_read ctx submitted snapshot f (li, ri, ii)"
    have "factory_inv (f\<lparr>af_pending := dict_put t (l, rtk, imu) (af_pending f)\<rparr>)"
      if "?frames = Inr (Some (l, rtk, imu))" for l rtk imu
      using async_frames_coherent [OF that ids(2-5)] factory_inv_put [OF assms] by simp
    with Pair Inr ids(1) assms show ?thesis
      by (auto simp: async_capture_def three_identities_def split: sum.split option.split)
  qed
qed

lemma discard_events_inv: "factory_inv f \<Longrightarrow> factory_inv (snd (discard_events es f))"
  by (induction es f rule: discard_events.induct)
     (auto simp: Let_def factory_inv_failure factory_inv_failure_del split: option.split prod.split if_splits)

definition coherent_prepared :: "prepared_frames \<Rightarrow> bool" where
  "coherent_prepared p \<longleftrightarrow>
     coherent_entry (pf_lidar_timestamp_ns p) (pf_lidar_identity p) (pf_rtk p) (pf_imu p)"

lemma take_prepared_inv:
  assumes "factory_inv f"
  shows "factory_inv (snd (take_prepared p f)) \<and> (\<forall>ps. fst (take_prepared p f) = Inr ps \<longrightarrow> list_all coherent_prepared ps)"
proof (cases "\<exists>topic t payload. pd_topic p = PStr topic \<and> pd_timestamp_ns p = PInt t \<and> pd_payload p = PBytes payload")
  case True
  then obtain topic t payload where p: "pd_topic p = PStr topic" "pd_timestamp_ns p = PInt t" "pd_payload p = PBytes payload"
    by blast
  have "coherent_entry t li rtk imu" if "map_of (af_pending f) t = Some (li, rtk, imu)" for li rtk imu
    using assms map_of_SomeD [OF that] by (auto simp: factory_inv_def)
  with p assms factory_inv_del [OF assms, of t] show ?thesis
    by (auto simp: take_prepared_def coherent_prepared_def split: option.split)
next
  case False
  then have "take_prepared p f = (Inl (runtime_error ''Stage4 lidar worker returned an invalid prepared payload''), f)"
    by (auto simp: take_prepared_def split: pyval.split)
  with assms show ?thesis by simp
qed

lemma discard_terminal_inv: "factory_inv f \<Longrightarrow> factory_inv (snd (discard_terminal_events drained f))"
  by (auto simp: discard_terminal_events_def discard_events_inv split: sum.split option.split)

lemma poll_completed_inv:
  assumes "factory_inv f"
  shows "factory_inv (snd (poll_completed polled drained f))
    \<and> (\<forall>ps. fst (poll_completed polled drained f) = Inr ps \<longrightarrow> list_all coherent_prepared ps)"
proof (cases polled)
  case (Inl e)
  with assms show ?thesis by (simp add: poll_completed_def)
next
  case (Inr p)
  obtain r f' where d: "discard_terminal_events drained f = (r, f')" by fastforce
  with discard_terminal_inv [OF assms, of drained] have f': "factory_inv f'" by simp
  show ?thesis
  proof (cases r)
    case (Inl e)
    with Inr d f' show ?thesis by (simp add: poll_completed_def bind_op_def)
  next
    case r: (Inr u)
    show ?thesis
    proof (cases p)
      case None
      with Inr r d f' show ?thesis by (simp add: poll_completed_def bind_op_def)
    next
      case (Some prepared)
      with Inr r d take_prepared_inv [OF f', of prepared] show ?thesis by (simp add: poll_completed_def bind_op_def)
    qed
  qed
qed

subsection \<open>A life of the asynchronous factory\<close>

text \<open>
  The physics thread captures and polls; the controller it reserves from may have been changed in any
  way by other threads before each capture, and the worker may answer anything at all.
\<close>

inductive async_run :: "prepared_frames list \<Rightarrow> async_factory \<Rightarrow> bool" where
  async_new: "async_run [] new_async_factory"
| async_captured: "async_run ps f \<Longrightarrow> async_capture t rtk_read imu_read ctx submitted snapshot (rp, f) = (r, rp', f')
    \<Longrightarrow> async_run ps f'"
| async_delivered: "async_run ps f \<Longrightarrow> poll_completed polled drained f = (Inr qs, f') \<Longrightarrow> async_run (ps @ qs) f'"
| async_poll_failed: "async_run ps f \<Longrightarrow> poll_completed polled drained f = (Inl e, f') \<Longrightarrow> async_run ps f'"

lemma async_run_coherent: "async_run ps f \<Longrightarrow> factory_inv f \<and> list_all coherent_prepared ps"
proof (induction rule: async_run.induct)
  case async_new
  show ?case by (simp add: new_factory_inv)
next
  case (async_captured ps f t rtk_read imu_read ctx submitted snapshot rp r rp' f')
  then show ?case using async_capture_inv [of f t rtk_read imu_read ctx submitted snapshot rp] by simp
next
  case (async_delivered ps f polled drained qs f')
  then show ?case using poll_completed_inv [of f polled drained] by simp
next
  case (async_poll_failed ps f polled drained e f')
  then show ?case using poll_completed_inv [of f polled drained] by simp
qed

lemma publish_each_timestamps:
  "q \<in> set (snd (publish_each encode outcome items)) \<Longrightarrow> \<exists>model. (pu_topic q, model, pu_timestamp_ns q) \<in> set items"
  by (induction encode outcome items rule: publish_each.induct)
     (auto simp: Let_def split: sum.splits prod.splits)

subsection \<open>Properties\<close>

lemma sync_frames_coherent:
  assumes "sync_capture scanned rtk_read imu_read rp = (Inr f, rp')"
  shows "lv_timebase_ns (sf_lidar f) = rv_timestamp_ns (sf_rtk f) \<and> lv_timebase_ns (sf_lidar f) = iv_timestamp_ns (sf_imu f)
    \<and> (let s = session_of rp in
       {lv_world_generation (sf_lidar f), rv_world_generation (sf_rtk f), iv_world_generation (sf_imu f)}
         = {ps_world_generation s}
       \<and> {lv_simulation_session_id (sf_lidar f), rv_simulation_session_id (sf_rtk f), iv_simulation_session_id (sf_imu f)}
         = {ps_simulation_session_id s}
       \<and> {lv_descriptor_sha256 (sf_lidar f), rv_descriptor_sha256 (sf_rtk f), iv_descriptor_sha256 (sf_imu f)}
         = {di_sha256 (ps_descriptor s)})"
proof -
  from assms obtain js where reserved: "rp_reserve_outputs sensor_topics rp = (Inr js, rp')"
    and built: "bind_res (three_identities js) (build_frames scanned rtk_read imu_read) = Inr f"
    by (auto simp: sync_capture_def split: prod.splits sum.splits)
  from sensor_identities [OF reserved] obtain li ri ii where ids: "js = [li, ri, ii]"
    "identity_of_session (session_of rp) li" "identity_of_session (session_of rp) ri"
    "identity_of_session (session_of rp) ii" by metis
  with built have b: "build_frames scanned rtk_read imu_read (li, ri, ii) = Inr f"
    by (simp add: three_identities_def)
  then obtain x y z where "scanned = Inr x" "rtk_read = Inr y" "imu_read = Inr z"
    by (auto simp: build_frames_def res_simps)
  with b obtain s r m where "lc_timebase_ns s = sr_timestamp_ns r" "lc_timebase_ns s = im_timestamp_ns m"
    and frames: "lidar_frame s li = Inr (sf_lidar f)" "rtk_frame r ri = Inr (sf_rtk f)" "imu_frame m ii = Inr (sf_imu f)"
    by (cases x; cases y; cases z) (auto simp: build_frames_def res_simps)
  with lidar_frame_fields [OF frames(1)] rtk_frame_fields [OF frames(2)] imu_frame_fields [OF frames(3)] ids(2-4)
  show ?thesis by (simp add: identity_of_session_def)
qed

text \<open>
  C36. Frames of one capture belong together: whatever other threads do to the controller between
  captures and whatever the worker answers, each frame the asynchronous factory delivers has the RTK
  and IMU sample of the LiDAR scan's own time, world and session, so publishing it never mixes
  sampling times, and with a finite wall time and a payload the scan goes out first and unchanged.
\<close>

theorem prepared_frames_coherent:
  assumes "async_run ps f" and "p \<in> set ps"
  shows "coherent_prepared p
    \<and> (\<forall>q \<in> set (snd (publish_prepared encode outcome (Instance p) wall_time)). pu_timestamp_ns q = pf_lidar_timestamp_ns p)
    \<and> (check_wall_time wall_time = Inr w \<and> pf_lidar_payload p \<noteq> [] \<longrightarrow>
        (\<exists>q rest. snd (publish_prepared encode outcome (Instance p) wall_time) = q # rest
           \<and> pu_payload q = pf_lidar_payload p \<and> pu_topic q = ''/sim/lidar/points''))"
proof -
  from async_run_coherent [OF assms(1)] assms(2) have p: "coherent_prepared p" by (simp add: list_all_iff)
  let ?rest = "publish_each encode outcome [(''/sim/rtk/state'', VmRtk (pf_rtk p), rv_timestamp_ns (pf_rtk p)),
    (''/sim/imu/attitude'', VmImu (pf_imu p), iv_timestamp_ns (pf_imu p))]"
  have "pu_timestamp_ns q = pf_lidar_timestamp_ns p" if "q \<in> set (snd ?rest)" for q
    using publish_each_timestamps [OF that] p by (auto simp: coherent_prepared_def coherent_entry_def)
  with p show ?thesis
    by (auto simp: publish_prepared_def coherent_prepared_def coherent_entry_def res_simps Let_def
        simp del: publish_each.simps split: sum.splits prod.splits)
qed

lemma reserve_output_range:
  assumes "reserve_output t s = (Inr i, s')" and "session_inv s"
  shows "0 \<le> oi_sequence i \<and> oi_sequence i \<le> uint64_max"
proof -
  from assms(1) obtain n where "map_of (ps_next_sequence s) t = Some n" "oi_sequence i = n" "n \<le> uint64_max"
    by (auto simp: reserve_output_def split: option.splits if_splits)
  with map_of_SomeD [OF this(1)] assms(2) show ?thesis by (force simp: session_inv_def)
qed

lemma rp_reserve_output_ok:
  assumes "rp_reserve_output t rp = (Inr i, rp1)" and "rp_inv rp"
  shows "identity_of_session (session_of rp) i" "0 \<le> oi_sequence i" "oi_sequence i \<le> uint64_max"
proof -
  from assms(1) have on: "on_authority (with_session (reserve_output t)) rp = (Inr i, rp1)"
    by (auto simp: rp_reserve_output_def bind_op_def split: sum.splits)
  then obtain s' where s': "reserve_output t (session_of rp) = (Inr i, s')"
    by (auto simp: on_authority_def with_session_def split: prod.splits)
  from assms(2) have "session_inv (session_of rp)" by (simp add: rp_inv_def authority_inv_def)
  from reserve_output_range [OF s' this] reserve_output_identity [OF on]
  show "identity_of_session (session_of rp) i" "0 \<le> oi_sequence i" "oi_sequence i \<le> uint64_max" by auto
qed

lemma snapshot_owner_ok:
  assumes "authority_inv a"
  shows "state_matches_peers (au_state a) (au_peer_count a)"
    and "check_state_owner (au_state a) (PStr (case map_option fst (au_owner a) of Some n \<Rightarrow> n | None \<Rightarrow> []))
      (case map_option snd (au_owner a) of Some b \<Rightarrow> b | None \<Rightarrow> [])
      = Inr (case map_option snd (au_owner a) of Some b \<Rightarrow> b | None \<Rightarrow> [])"
  using assms
  by (auto simp: authority_inv_def unowned_state_def check_state_owner_Inr split: option.splits prod.splits)

definition wheel_state_matches :: "wheel_state \<Rightarrow> runtime_protocol \<Rightarrow> wheel_state_v2 \<Rightarrow> bool" where
  \<comment> \<open>the feedback under the identity and the command authority of one controller state\<close>
  "wheel_state_matches w rp sv \<longleftrightarrow>
     sv_timestamp_ns sv = ws_timestamp_ns w \<and> sv_drive sv = ws_drive w \<and> sv_steering_angle sv = ws_steering_angle w
     \<and> sv_world_generation sv = ps_world_generation (session_of rp)
     \<and> sv_command_generation sv = ps_command_generation (session_of rp)
     \<and> sv_simulation_session_id sv = ps_simulation_session_id (session_of rp)
     \<and> sv_descriptor_sha256 sv = di_sha256 (ps_descriptor (session_of rp))
     \<and> sv_authority_state sv = au_state (rp_authority rp) \<and> sv_peer_count sv = au_peer_count (rp_authority rp)
     \<and> (case au_owner (rp_authority rp) of
          None \<Rightarrow> sv_owner_source_id sv = PStr [] \<and> sv_owner_source_session_id sv = []
        | Some (n, b) \<Rightarrow> sv_owner_source_id sv = PStr n \<and> sv_owner_source_session_id sv = b)"

lemma wheel_state_of_ok:
  assumes w: "mk_wheel_state t d s = Inr w" and inv: "rp_inv rp" and "robot_model \<noteq> []"
    and i: "identity_of_session (session_of rp) i" "0 \<le> oi_sequence i" "oi_sequence i \<le> uint64_max"
    and sha: "length (oi_descriptor_sha256 i) = 32"
  shows "\<exists>sv. wheel_state_of robot_model w i (runtime_snapshot_of rp) = Inr sv \<and> wheel_state_matches w rp sv"
proof -
  from w have feedback: "0 \<le> ws_timestamp_ns w" "ws_timestamp_ns w \<le> uint64_max"
    "list_all f_isfinite (ws_drive w)" "list_all f_isfinite (ws_steering_angle w)"
    by (auto simp: mk_wheel_state_def res_simps list_all_iff dest: v1_normalize_float_sequence_finite)
  from inv have a: "authority_inv (rp_authority rp)" by (simp add: rp_inv_def)
  then have "session_inv (session_of rp)" "0 \<le> au_peer_count (rp_authority rp)"
    "au_peer_count (rp_authority rp) \<le> uint32_max"
    by (simp_all add: authority_inv_def)
  with feedback i sha \<open>robot_model \<noteq> []\<close> snapshot_owner_ok [OF a] show ?thesis
    by (auto simp: wheel_state_of_def mk_wheel_state_v2_def runtime_snapshot_of_def authority_snapshot_of_def Let_def
        field_ids session_inv_def identity_of_session_def wheel_state_matches_def ensure_def
        split: option.splits prod.splits)
qed

text \<open>
  C37. A wheel state is published under one consistent moment of the controller: the build either
  raises what the reservation raised (closed, fatal, exhausted), or raises RuntimeError because other
  threads moved the controller to another session, world or descriptor in between, or returns the
  feedback with the identity, the command generation and the authority of the controller as it is when
  the snapshot is taken; the constructor's own ValueErrors are never raised.
\<close>

theorem wheel_state_consistent:
  assumes "mk_wheel_state t d s = Inr w" and "rp_inv rp" and "length (di_sha256 (ps_descriptor (session_of rp))) = 32"
    and "robot_model \<noteq> []" and "\<And>rp1. rp_inv rp1 \<Longrightarrow> rp_inv (others rp1)"
    and "build_wheel_state robot_model (Instance w) others rp = (r, rp2)"
  shows "(\<exists>e. r = Inl e \<and> rp_reserve_output ''/sim/wheel/state'' rp = (Inl e, rp2))
    \<or> (\<exists>i. fst (rp_reserve_output ''/sim/wheel/state'' rp) = Inr i
         \<and> (if identity_of_session (session_of rp2) i
            then \<exists>sv. r = Inr sv \<and> wheel_state_matches w rp2 sv
            else r = Inl (runtime_error ''v2 wheel state identity changed during construction'')))"
proof (cases "rp_reserve_output ''/sim/wheel/state'' rp")
  case (Pair reserved rp1)
  show ?thesis
  proof (cases reserved)
    case (Inl e)
    with Pair assms(6) show ?thesis by (simp add: build_wheel_state_def)
  next
    case (Inr i)
    with Pair have res: "rp_reserve_output ''/sim/wheel/state'' rp = (Inr i, rp1)" by simp
    note i = rp_reserve_output_ok [OF this assms(2)]
    have inv: "rp_inv (others rp1)"
      using rp_reserve_advances(1) [OF assms(2), of "''/sim/wheel/state''"] res assms(5) by (simp add: advances_def)
    from assms(6) res have r: "rp2 = others rp1"
      "r = (if identity_of_session (session_of rp2) i then wheel_state_of robot_model w i (runtime_snapshot_of rp2)
            else Inl (runtime_error ''v2 wheel state identity changed during construction''))"
      by (auto simp: build_wheel_state_def Let_def identity_of_session_def runtime_snapshot_of_def)
    have "length (oi_descriptor_sha256 i) = 32" using i(1) assms(3) by (simp add: identity_of_session_def)
    with wheel_state_of_ok [OF assms(1) inv assms(4) _ i(2,3)] r res show ?thesis by auto
  qed
qed

subsection \<open>The properties at work\<close>

definition example_rtk :: "int \<Rightarrow> stage4_rtk" where
  "example_rtk t = \<lparr>sr_timestamp_ns = t, sr_left = (Fin 0, Fin 1, Fin 0), sr_center = (Fin 0, Fin 0, Fin 0),
     sr_right = (Fin 0, Fin 1, Fin 0), sr_heading = Fin 0\<rparr>"

definition example_imu :: "int \<Rightarrow> imu_attitude" where
  "example_imu t = \<lparr>im_timestamp_ns = t, im_roll = Fin 0, im_pitch = Fin 0\<rparr>"

definition example_captured :: "(exc, unit) res \<times> runtime_protocol \<times> async_factory" where
  "example_captured = async_capture 100 (Inr (Instance (example_rtk 100))) (Inr (Instance (example_imu 100)))
     (Inr True) (Inr True) None (example_ready, new_async_factory)"

definition example_polled :: "(exc, prepared_frames list) res \<times> async_factory" where
  "example_polled = poll_completed
     (Inr (Some \<lparr>pd_topic = PStr ''lidar_link'', pd_timestamp_ns = PInt 100, pd_payload = PBytes [7, 8]\<rparr>))
     (Inr (Some [])) (snd (snd example_captured))"

lemma example_polled_frame:
  "(case fst example_polled of Inr [p] \<Rightarrow> pf_lidar_payload p = [7, 8] | _ \<Rightarrow> False)"
  by code_simp

lemma example_polled_run:
  obtains p where "async_run [p] (snd example_polled)" "pf_lidar_payload p = [7, 8]"
proof -
  obtain p where p: "fst example_polled = Inr [p]" "pf_lidar_payload p = [7, 8]"
    using example_polled_frame by (auto split: sum.splits list.splits)
  have "async_run [] (snd (snd example_captured))"
    by (rule async_captured [OF async_new, where r = "fst example_captured" and rp' = "fst (snd example_captured)"])
       (simp add: example_captured_def)
  from async_delivered [OF this, of _ _ "[p]" "snd example_polled"] p that show ?thesis
    unfolding example_polled_def by (metis append_Nil prod.collapse)
qed

theorem prepared_frames_coherent_witness:
  "\<exists>p q rest. snd (publish_prepared (\<lambda>_. Inl (value_error ''no codec'')) (\<lambda>_. Inr True) (Instance p) (PFloat (Fin 0)))
    = q # rest \<and> pu_payload q = [7, 8] \<and> pu_timestamp_ns q = pf_lidar_timestamp_ns p"
proof -
  obtain p where run: "async_run [p] (snd example_polled)" and payload: "pf_lidar_payload p = [7, 8]"
    by (rule example_polled_run)
  have "p \<in> set [p]" by simp
  have "check_wall_time (PFloat (Fin 0)) = Inr (Fin 0)" by (simp add: check_wall_time_def)
  with prepared_frames_coherent [OF run \<open>p \<in> set [p]\<close>, of "\<lambda>_. Inl (value_error ''no codec'')" "\<lambda>_. Inr True"
      "PFloat (Fin 0)" "Fin 0"] payload
  show ?thesis by fastforce
qed

definition example_feedback :: wheel_state where
  "example_feedback = \<lparr>ws_timestamp_ns = 50, ws_drive = [Fin 1, Fin 2], ws_steering_angle = []\<rparr>"

theorem wheel_state_consistent_witness:
  "\<exists>sv. fst (build_wheel_state ''df_mid'' (Instance example_feedback) id example_driven) = Inr sv
    \<and> wheel_state_matches example_feedback (snd (build_wheel_state ''df_mid'' (Instance example_feedback) id example_driven)) sv"
proof -
  have w: "mk_wheel_state (PInt 50) (PTuple [PFloat (Fin 1), PFloat (Fin 2)]) (PTuple []) = Inr example_feedback"
    by code_simp
  have inv: "rp_inv example_driven"
    using protocol_trace_advances [OF example_driven_trace new_runtime_protocol_inv [OF example_protocol_new]]
    by (simp add: advances_def)
  have sha: "length (di_sha256 (ps_descriptor (session_of example_driven))) = 32" by code_simp
  have reserved: "(case rp_reserve_output ''/sim/wheel/state'' example_driven of
      (Inr i, rp1) \<Rightarrow> identity_of_session (session_of rp1) i | _ \<Rightarrow> False)"
    by code_simp
  let ?b = "build_wheel_state ''df_mid'' (Instance example_feedback) id example_driven"
  have "snd ?b = snd (rp_reserve_output ''/sim/wheel/state'' example_driven)"
    using reserved by (auto simp: build_wheel_state_def Let_def split: prod.splits sum.splits)
  with reserved wheel_state_consistent [OF w inv sha, of "''df_mid''" id "fst ?b" "snd ?b"]
  show ?thesis by (auto split: prod.splits sum.splits)
qed

end
