(* ===== verification/DashboardStore.thy ===== *)
theory DashboardStore
  imports SensorFrames
begin

text \<open>
  The telemetry store of \<^verbatim>\<open>slope_sim/interfaces/v2/dashboard_snapshot.py\<close>: the physics thread writes the
  newest frames, counts sequence gaps and measures topic rates; the GUI reads whole snapshots.  Writers
  hold the store's lock throughout, so each is one operation.  The update callback is an argument.
\<close>

subsection \<open>Data\<close>

record topic_observation =
  to_topic :: string
  to_target_hz :: int
  to_actual_hz :: "pyfloat option"
  to_peer_count :: "int option"
  to_protocol_state :: string
  to_error_count :: int
  to_dropped_count :: int
  to_sequence_gap_count :: int
  to_latest_sequence :: "int option"
  to_latest_timestamp_ns :: "int option"
  to_point_count :: "int option"
  to_telemetry_observed_at :: "pyfloat option"
  to_transport_observed_at :: "pyfloat option"
  to_authority_error_count :: int
  to_observer_error_count :: int

definition new_observation :: "string \<Rightarrow> int \<Rightarrow> topic_observation" where
  "new_observation topic target_hz =
     \<lparr>to_topic = topic, to_target_hz = target_hz, to_actual_hz = None, to_peer_count = None,
      to_protocol_state = ''not_checked'', to_error_count = 0, to_dropped_count = 0, to_sequence_gap_count = 0,
      to_latest_sequence = None, to_latest_timestamp_ns = None, to_point_count = None,
      to_telemetry_observed_at = None, to_transport_observed_at = None, to_authority_error_count = 0,
      to_observer_error_count = 0\<rparr>"

record command_rejection =
  cj_topic :: string
  cj_source_id :: "string option"
  cj_source_session_id :: "bytes option"
  cj_sequence :: "int option"
  cj_simulation_session_id :: "bytes option"
  cj_world_generation :: "int option"
  cj_reason :: msg
  cj_received_at :: pyfloat

type_synonym dash_identity = "bytes \<times> bytes \<times> int"  \<comment> \<open>session, descriptor, world generation\<close>

record dashboard_snapshot =
  dn_simulation_session_id :: bytes
  dn_descriptor_sha256 :: bytes
  dn_world_generation :: int
  dn_wheel_state :: "wheel_state_v2 option"
  dn_lidar_timestamp_ns :: "int option"
  dn_lidar_sequence :: "int option"
  dn_lidar_point_count :: "int option"
  dn_rtk :: "rtk_state_v2 option"
  dn_imu :: "imu_attitude_v2 option"
  dn_topic_observations :: "topic_observation list"
  dn_robot_model :: string
  dn_authority_rejections :: "command_rejection list"
  dn_observer_rejections :: "command_rejection list"

definition dn_topic_observation :: "string \<Rightarrow> dashboard_snapshot \<Rightarrow> (exc, topic_observation) res" where
  "dn_topic_observation topic snap =
     (case find (\<lambda>ob. to_topic ob = topic) (dn_topic_observations snap) of
        Some ob \<Rightarrow> Inr ob
      | None \<Rightarrow> Inl (value_error ''topic is not part of the v2 dashboard contract''))"

definition dn_telemetry_age :: "pyval \<Rightarrow> string \<Rightarrow> dashboard_snapshot \<Rightarrow> (exc, pyfloat option) res" where
  "dn_telemetry_age now topic snap =
     bind_res (dn_topic_observation topic snap) (\<lambda>ob.
       case to_telemetry_observed_at ob of
         None \<Rightarrow> Inr None
       | Some t \<Rightarrow> bind_res (py_float now) (\<lambda>n. Inr (Some (f_sub n t))))"

record dashboard_store =
  ds_identity :: "dash_identity option"
  ds_snapshot :: "dashboard_snapshot option"
  ds_robot_model :: string
  ds_events :: "(string \<times> pyfloat list) list"
  ds_observed :: "(string \<times> topic_observation) list"
  ds_authority_rejections :: "command_rejection list"
  ds_observer_rejections :: "command_rejection list"

definition v2_by_topic :: "string \<Rightarrow> v2_topic_contract option" where
  "v2_by_topic topic = find (\<lambda>c. tc_topic c = topic) v2_topics"

definition new_dashboard_store :: "pyval \<Rightarrow> (exc, dashboard_store) res" where
  \<comment> \<open>the callback is callable or None\<close>
  "new_dashboard_store robot_model =
     bind_res (nonempty_str ''robot_model must be a nonempty string'' robot_model) (\<lambda>m.
       Inr \<lparr>ds_identity = None, ds_snapshot = None, ds_robot_model = m,
            ds_events = map (\<lambda>c. (tc_topic c, [])) v2_topics,
            ds_observed = map (\<lambda>c. (tc_topic c, new_observation (tc_topic c) (tc_rate_hz c))) v2_topics,
            ds_authority_rejections = [], ds_observer_rejections = []\<rparr>)"

definition lookup_key :: "string \<Rightarrow> (string \<times> 'a) list \<Rightarrow> (exc, 'a) res" where
  \<comment> \<open>\<^verbatim>\<open>d[key]\<close>\<close>
  "lookup_key k d = (case map_of d k of Some v \<Rightarrow> Inr v | None \<Rightarrow> Inl (Exc KeyErr (lit k)))"

definition observation_values :: "dashboard_store \<Rightarrow> (exc, topic_observation list) res" where
  "observation_values s = map_res (\<lambda>c. lookup_key (tc_topic c) (ds_observed s)) v2_topics"

subsection \<open>Rates\<close>

definition window_start :: "pyfloat \<Rightarrow> pyfloat" where
  "window_start now = f_sub now (Fin 2)"

definition window_rate :: "pyfloat list \<Rightarrow> pyfloat option" where
  \<comment> \<open>at least three events that are apart; the quotient of an int and a nonzero difference\<close>
  "window_rate events =
     (if 3 \<le> length events \<and> f_lt (hd events) (last events)
      then f_div (fl (of_nat (length events - 1))) (f_sub (last events) (hd events)) else None)"

definition observation_at :: "pyfloat \<Rightarrow> pyfloat list \<Rightarrow> topic_observation \<Rightarrow> topic_observation" where
  \<comment> \<open>one topic of \<^verbatim>\<open>_observations_at\<close>; an equal rate keeps the object\<close>
  "observation_at now stamps previous =
     (let events = filter (\<lambda>t. f_le (window_start now) t) stamps;
          actual_hz =
            (if events \<noteq> [] then window_rate events
             else case to_telemetry_observed_at previous of
                    None \<Rightarrow> None
                  | Some t \<Rightarrow> if f_lt (Fin 2) (f_sub now t) then None else to_actual_hz previous)
      in previous\<lparr>to_actual_hz := actual_hz\<rparr>)"

definition observations_at ::
  "pyfloat \<Rightarrow> topic_observation list \<Rightarrow> (string \<times> pyfloat list) list \<Rightarrow> (exc, topic_observation list) res" where
  "observations_at now observations event_times =
     map_res (\<lambda>ob. bind_res (lookup_key (to_topic ob) event_times) (\<lambda>stamps. Inr (observation_at now stamps ob))) observations"

subsection \<open>Writing telemetry\<close>

definition sequence_gaps :: "topic_observation \<Rightarrow> int \<Rightarrow> int" where
  "sequence_gaps previous sequence =
     (case to_latest_sequence previous of
        Some latest \<Rightarrow>
          if latest + 1 < sequence then to_sequence_gap_count previous + (sequence - latest - 1)
          else to_sequence_gap_count previous
      | None \<Rightarrow> to_sequence_gap_count previous)"

definition record_telemetry ::
  "string \<Rightarrow> pyfloat \<Rightarrow> int \<Rightarrow> int \<Rightarrow> int option \<Rightarrow> (exc, dashboard_store, unit) op" where
  \<comment> \<open>the window is updated before the observation is looked up\<close>
  "record_telemetry topic observed_at sequence timestamp_ns point_count s =
     (case (if f_lt observed_at f_zero then None else v2_by_topic topic) of
        None \<Rightarrow> (Inl (value_error ''invalid dashboard telemetry observation''), s)
      | Some contract \<Rightarrow>
          (case lookup_key topic (ds_events s) of
             Inl e \<Rightarrow> (Inl e, s)
           | Inr events \<Rightarrow>
               if events \<noteq> [] \<and> f_lt observed_at (last events)
               then (Inl (value_error ''telemetry observed_at must not move backwards''), s)
               else
                 let events' = dropWhile (\<lambda>t. f_lt t (window_start observed_at)) (events @ [observed_at]);
                     s1 = s\<lparr>ds_events := dict_put topic events' (ds_events s)\<rparr>
                 in case lookup_key topic (ds_observed s1) of
                      Inl e \<Rightarrow> (Inl e, s1)
                    | Inr previous \<Rightarrow>
                        (Inr (), s1\<lparr>ds_observed := dict_put topic
                           (previous\<lparr>to_topic := topic, to_target_hz := tc_rate_hz contract,
                              to_actual_hz := window_rate events', to_sequence_gap_count := sequence_gaps previous sequence,
                              to_latest_sequence := Some sequence, to_latest_timestamp_ns := Some timestamp_ns,
                              to_point_count := point_count, to_telemetry_observed_at := Some observed_at\<rparr>) (ds_observed s1)\<rparr>)))"

subsection \<open>Snapshots\<close>

definition make_snapshot ::
  "dash_identity \<Rightarrow> wheel_state_v2 option \<Rightarrow> int option \<Rightarrow> int option \<Rightarrow> int option \<Rightarrow> rtk_state_v2 option \<Rightarrow>
   imu_attitude_v2 option \<Rightarrow> topic_observation list option \<Rightarrow> string option \<Rightarrow> dashboard_store \<Rightarrow>
   (exc, dashboard_snapshot) res" where
  "make_snapshot identity wheel lidar_timestamp lidar_seq lidar_count rtk imu observations robot_model s =
     (case identity of (session, sha, world) \<Rightarrow>
        bind_res (case observations of None \<Rightarrow> observation_values s | Some obs \<Rightarrow> Inr obs) (\<lambda>obs.
          Inr \<lparr>dn_simulation_session_id = session, dn_descriptor_sha256 = sha, dn_world_generation = world,
               dn_wheel_state = wheel, dn_lidar_timestamp_ns = lidar_timestamp, dn_lidar_sequence = lidar_seq,
               dn_lidar_point_count = lidar_count, dn_rtk = rtk, dn_imu = imu, dn_topic_observations = obs,
               dn_robot_model = (case robot_model of None \<Rightarrow> ds_robot_model s | Some m \<Rightarrow> m),
               dn_authority_rejections = ds_authority_rejections s,
               dn_observer_rejections = ds_observer_rejections s\<rparr>))"

type_synonym notify = "dashboard_snapshot \<Rightarrow> (exc, unit) res"  \<comment> \<open>the update callback\<close>

definition replace_snapshot :: "notify \<Rightarrow> (exc, dashboard_snapshot) res \<Rightarrow> (exc, dashboard_store, unit) op" where
  \<comment> \<open>the snapshot is in place when the callback runs\<close>
  "replace_snapshot notify made s =
     (case made of
        Inl e \<Rightarrow> (Inl e, s)
      | Inr snap \<Rightarrow> (notify snap, s\<lparr>ds_snapshot := Some snap\<rparr>))"

definition require_identity :: "dash_identity \<Rightarrow> (exc, dashboard_store, unit) op" where
  "require_identity identity s =
     (case ds_identity s of
        None \<Rightarrow> (Inr (), s\<lparr>ds_identity := Some identity\<rparr>)
      | Some current \<Rightarrow>
          (if fst identity \<noteq> fst current
           then Inl (value_error ''simulation_session_id does not match dashboard snapshot'')
           else if fst (snd identity) \<noteq> fst (snd current)
           then Inl (value_error ''descriptor_sha256 does not match dashboard snapshot'')
           else if snd (snd identity) \<noteq> snd (snd current)
           then Inl (value_error ''world_generation does not match dashboard snapshot'')
           else Inr (), s))"

definition lidar_identity_of :: "lidar_point_cloud_v2 \<Rightarrow> dash_identity" where
  "lidar_identity_of m = (lv_simulation_session_id m, lv_descriptor_sha256 m, lv_world_generation m)"

definition rtk_identity_of :: "rtk_state_v2 \<Rightarrow> dash_identity" where
  "rtk_identity_of m = (rv_simulation_session_id m, rv_descriptor_sha256 m, rv_world_generation m)"

definition imu_identity_of :: "imu_attitude_v2 \<Rightarrow> dash_identity" where
  "imu_identity_of m = (iv_simulation_session_id m, iv_descriptor_sha256 m, iv_world_generation m)"

definition wheel_identity_of :: "wheel_state_v2 \<Rightarrow> dash_identity" where
  "wheel_identity_of m = (sv_simulation_session_id m, sv_descriptor_sha256 m, sv_world_generation m)"

definition output_identity_of :: "output_identity \<Rightarrow> dash_identity" where
  "output_identity_of i = (oi_simulation_session_id i, oi_descriptor_sha256 i, oi_world_generation i)"

definition observation_time :: "pyfloat \<Rightarrow> pyval option \<Rightarrow> (exc, pyfloat) res" where
  \<comment> \<open>the given time as a float, or what the monotonic clock shows\<close>
  "observation_time clock observed_at = (case observed_at of None \<Rightarrow> Inr clock | Some v \<Rightarrow> py_float v)"

definition at_time :: "(exc, pyfloat) res \<Rightarrow> (pyfloat \<Rightarrow> (exc, dashboard_store, 'a) op) \<Rightarrow> (exc, dashboard_store, 'a) op" where
  "at_time t f s = (case t of Inl e \<Rightarrow> (Inl e, s) | Inr x \<Rightarrow> f x s)"

definition previous_wheel :: "dashboard_store \<Rightarrow> wheel_state_v2 option" where
  "previous_wheel s = Option.bind (ds_snapshot s) dn_wheel_state"

definition record_frames ::
  "pyfloat \<Rightarrow> int \<Rightarrow> int \<Rightarrow> int option \<Rightarrow> rtk_state_v2 \<Rightarrow> imu_attitude_v2 \<Rightarrow> (exc, dashboard_store, unit) op" where
  \<comment> \<open>the telemetry of the three topics of one sample\<close>
  "record_frames t lidar_seq lidar_timestamp lidar_count rtk imu =
     bind_op (record_telemetry ''/sim/lidar/points'' t lidar_seq lidar_timestamp lidar_count) (\<lambda>_.
     bind_op (record_telemetry ''/sim/rtk/state'' t (rv_sequence rtk) (rv_timestamp_ns rtk) None) (\<lambda>_.
       record_telemetry ''/sim/imu/attitude'' t (iv_sequence imu) (iv_timestamp_ns imu) None))"

definition store_frames ::
  "notify \<Rightarrow> (exc, pyfloat) res \<Rightarrow> dash_identity \<Rightarrow> int \<Rightarrow> int \<Rightarrow> int option \<Rightarrow> rtk_state_v2 \<Rightarrow> imu_attitude_v2 \<Rightarrow>
   (exc, dashboard_store, unit) op" where
  \<comment> \<open>what both frame updates do once the frame is known to be coherent\<close>
  "store_frames notify t identity lidar_seq lidar_timestamp lidar_count rtk imu =
     bind_op (require_identity identity) (\<lambda>_. at_time t (\<lambda>x.
     bind_op (record_frames x lidar_seq lidar_timestamp lidar_count rtk imu) (\<lambda>_ s.
       replace_snapshot notify (make_snapshot identity (previous_wheel s) (Some lidar_timestamp) (Some lidar_seq)
         lidar_count (Some rtk) (Some imu) None None s) s)))"

definition update_sensor_frames ::
  "notify \<Rightarrow> pyfloat \<Rightarrow> sensor_frames inst \<Rightarrow> pyval option \<Rightarrow> (exc, dashboard_store, unit) op" where
  "update_sensor_frames notify clock frames observed_at s =
     (case frames of
        Foreign \<Rightarrow> (Inl (value_error ''frames must be an exact V2SensorFrames''), s)
      | Instance f \<Rightarrow>
          let identity = lidar_identity_of (sf_lidar f)
          in if rtk_identity_of (sf_rtk f) \<noteq> identity \<or> imu_identity_of (sf_imu f) \<noteq> identity
             then (Inl (value_error ''v2 sensor frames must share one session/world identity''), s)
             else store_frames notify (observation_time clock observed_at) identity (lv_sequence (sf_lidar f))
                    (lv_timebase_ns (sf_lidar f)) (Some (lv_point_num (sf_lidar f))) (sf_rtk f) (sf_imu f) s)"

definition check_prepared :: "prepared_frames \<Rightarrow> (exc, unit) res" where
  "check_prepared f =
     ensure (oi_topic (pf_lidar_identity f) = ''/sim/lidar/points'')
       (value_error ''prepared lidar identity must use the v2 lidar topic'')
     (ensure (pf_lidar_payload f \<noteq> []) (value_error ''prepared lidar payload must be nonempty exact bytes'')
     (ensure (pf_lidar_timestamp_ns f = rv_timestamp_ns (pf_rtk f) \<and> pf_lidar_timestamp_ns f = iv_timestamp_ns (pf_imu f))
       (value_error ''prepared v2 sensor timestamps must match'')
     (ensure (rtk_identity_of (pf_rtk f) = output_identity_of (pf_lidar_identity f)
              \<and> imu_identity_of (pf_imu f) = output_identity_of (pf_lidar_identity f))
       (value_error ''prepared v2 sensor frames must share one session/world identity'') (Inr ()))))"

definition update_prepared_sensor_frames ::
  "notify \<Rightarrow> pyfloat \<Rightarrow> prepared_frames inst \<Rightarrow> pyval option \<Rightarrow> (exc, dashboard_store, unit) op" where
  "update_prepared_sensor_frames notify clock frames observed_at s =
     (case frames of
        Foreign \<Rightarrow> (Inl (value_error ''frames must be an exact V2PreparedSensorFrames''), s)
      | Instance f \<Rightarrow>
          (case check_prepared f of
             Inl e \<Rightarrow> (Inl e, s)
           | Inr u \<Rightarrow>
               store_frames notify (observation_time clock observed_at) (output_identity_of (pf_lidar_identity f))
                 (oi_sequence (pf_lidar_identity f)) (pf_lidar_timestamp_ns f) None (pf_rtk f) (pf_imu f) s))"

definition check_robot_model :: "string \<Rightarrow> (exc, dashboard_store, unit) op" where
  "check_robot_model model s =
     (if ds_robot_model s = ''unknown'' then (Inr (), s\<lparr>ds_robot_model := model\<rparr>)
      else if model \<noteq> ds_robot_model s
      then (Inl (value_error ''wheel state robot_model does not match dashboard snapshot''), s)
      else (Inr (), s))"

definition update_wheel_state ::
  "notify \<Rightarrow> pyfloat \<Rightarrow> wheel_state_v2 inst \<Rightarrow> pyval option \<Rightarrow> (exc, dashboard_store, unit) op" where
  "update_wheel_state notify clock wheel_state observed_at s =
     (case wheel_state of
        Foreign \<Rightarrow> (Inl (value_error ''wheel_state must be an exact WheelStateV2''), s)
      | Instance w \<Rightarrow>
          let identity = wheel_identity_of w
          in bind_op (require_identity identity) (\<lambda>_.
             bind_op (check_robot_model (sv_robot_model w)) (\<lambda>_. at_time (observation_time clock observed_at) (\<lambda>t.
             bind_op (record_telemetry ''/sim/wheel/state'' t (sv_sequence w) (sv_timestamp_ns w) None) (\<lambda>_ s.
               let previous = ds_snapshot s
               in replace_snapshot notify
                    (make_snapshot identity (Some w) (Option.bind previous dn_lidar_timestamp_ns)
                       (Option.bind previous dn_lidar_sequence) (Option.bind previous dn_lidar_point_count)
                       (Option.bind previous dn_rtk) (Option.bind previous dn_imu) None None s) s)))) s)"

definition refresh_current_snapshot :: "notify \<Rightarrow> (exc, dashboard_store, unit) op" where
  \<comment> \<open>the same members again with the current observations; nothing before the first snapshot\<close>
  "refresh_current_snapshot notify s =
     (case ds_snapshot s of
        None \<Rightarrow> (Inr (), s)
      | Some snap \<Rightarrow>
          (case ds_identity s of
             None \<Rightarrow> (Inl (Exc TypeErr (lit ''argument after * must be an iterable'')), s)
           | Some identity \<Rightarrow>
               replace_snapshot notify
                 (make_snapshot identity (dn_wheel_state snap) (dn_lidar_timestamp_ns snap) (dn_lidar_sequence snap)
                    (dn_lidar_point_count snap) (dn_rtk snap) (dn_imu snap) None None s) s))"

definition record_accepted_command ::
  "notify \<Rightarrow> int \<Rightarrow> int \<Rightarrow> pyval \<Rightarrow> bool \<Rightarrow> (exc, dashboard_store, unit) op" where
  "record_accepted_command notify sequence timestamp_ns received_at accepted s =
     (if \<not> accepted then (Inr (), s)
      else at_time (py_float received_at) (\<lambda>t.
             bind_op (record_telemetry ''/sim/wheel/command'' t sequence timestamp_ns None)
               (\<lambda>_. refresh_current_snapshot notify)) s)"

definition count_observer_error :: "topic_observation \<Rightarrow> topic_observation" where
  "count_observer_error ob =
     ob\<lparr>to_error_count := to_error_count ob + 1, to_observer_error_count := to_observer_error_count ob + 1\<rparr>"

definition count_authority_error :: "topic_observation \<Rightarrow> topic_observation" where
  "count_authority_error ob = ob\<lparr>to_authority_error_count := to_authority_error_count ob + 1\<rparr>"

definition with_observation ::
  "string \<Rightarrow> (topic_observation \<Rightarrow> (exc, dashboard_store, 'a) op) \<Rightarrow> (exc, dashboard_store, 'a) op" where
  "with_observation topic f s =
     (case lookup_key topic (ds_observed s) of Inl e \<Rightarrow> (Inl e, s) | Inr previous \<Rightarrow> f previous s)"

definition record_protocol_error :: "notify \<Rightarrow> string \<Rightarrow> (exc, dashboard_store, unit) op" where
  "record_protocol_error notify topic s =
     (if v2_by_topic topic = None
      then (Inl (value_error ''topic is not part of the v2 dashboard contract''), s)
      else with_observation topic (\<lambda>previous s.
             refresh_current_snapshot notify
               (s\<lparr>ds_observed := dict_put topic (count_observer_error previous) (ds_observed s)\<rparr>)) s)"

definition bounded_append :: "nat \<Rightarrow> 'a \<Rightarrow> 'a list \<Rightarrow> 'a list" where
  \<comment> \<open>\<^verbatim>\<open>deque(maxlen=n).append\<close>\<close>
  "bounded_append n x q = (if length q < n then q @ [x] else tl q @ [x])"

definition max_rejections :: nat where
  "max_rejections = 64"

datatype rejection_domain = AuthorityDomain | ObserverDomain

definition record_rejection ::
  "notify \<Rightarrow> rejection_domain \<Rightarrow> command_rejection \<Rightarrow> pyval \<Rightarrow> (exc, dashboard_store, unit) op" where
  \<comment> \<open>\<open>rejection\<close> holds the keyword arguments, with the time replaced by its float\<close>
  "record_rejection notify domain rejection received_at s =
     (if v2_by_topic (cj_topic rejection) = None \<or> list_all (\<lambda>part. part = Lit []) (cj_reason rejection)
      then (Inl (value_error ''rejection topic and reason must be valid''), s)
      else if as_int received_at = None \<and> as_float received_at = None
      then (Inl (value_error ''rejection received_at must be nonnegative''), s)
      else if (case received_at of PInt n \<Rightarrow> n < 0 | PFloat x \<Rightarrow> f_lt x f_zero | _ \<Rightarrow> False)
      then (Inl (value_error ''rejection received_at must be nonnegative''), s)
      else
        (case py_float received_at of
           Inl e \<Rightarrow> (Inl e, s)
         | Inr t \<Rightarrow>
             let topic = cj_topic rejection; kept = rejection\<lparr>cj_received_at := t\<rparr>
             in with_observation topic (\<lambda>previous s.
                  refresh_current_snapshot notify
                    (case domain of
                       AuthorityDomain \<Rightarrow>
                         s\<lparr>ds_authority_rejections := bounded_append max_rejections kept (ds_authority_rejections s),
                           ds_observed := dict_put topic (count_authority_error previous) (ds_observed s)\<rparr>
                     | ObserverDomain \<Rightarrow>
                         s\<lparr>ds_observer_rejections := bounded_append max_rejections kept (ds_observer_rejections s),
                           ds_observed := dict_put topic (count_observer_error previous) (ds_observed s)\<rparr>)) s))"

record quality_report =
  qr_topic :: string
  qr_peer_count :: "int option"
  qr_protocol_state :: string
  qr_error_count :: int
  qr_dropped_count :: int

definition merge_quality :: "quality_report option \<Rightarrow> pyfloat \<Rightarrow> topic_observation \<Rightarrow> topic_observation" where
  "merge_quality quality t previous =
     (case quality of
        None \<Rightarrow> previous
      | Some q \<Rightarrow> previous\<lparr>to_peer_count := qr_peer_count q, to_protocol_state := qr_protocol_state q,
                   to_error_count := qr_error_count q, to_dropped_count := qr_dropped_count q\<rparr>)
     \<lparr>to_transport_observed_at := Some t\<rparr>"

definition ds_refresh_transport ::
  "notify \<Rightarrow> pyfloat \<Rightarrow> quality_report list \<Rightarrow> pyval option \<Rightarrow> (exc, dashboard_store, unit) op" where
  \<comment> \<open>of two reports on a topic the later one counts\<close>
  "ds_refresh_transport notify clock reports observed_at =
     at_time (observation_time clock observed_at) (\<lambda>t s.
       let qualities = map_of (rev (map (\<lambda>q. (qr_topic q, q)) reports))
       in refresh_current_snapshot notify
            (s\<lparr>ds_observed := map (\<lambda>(topic, previous). (topic, merge_quality (qualities topic) t previous)) (ds_observed s)\<rparr>))"

definition snapshot_identity :: "dashboard_snapshot \<Rightarrow> dash_identity" where
  "snapshot_identity snap = (dn_simulation_session_id snap, dn_descriptor_sha256 snap, dn_world_generation snap)"

definition members_match :: "dashboard_snapshot \<Rightarrow> bool" where
  "members_match snap \<longleftrightarrow>
     pred_option (\<lambda>w. wheel_identity_of w = snapshot_identity snap) (dn_wheel_state snap)
     \<and> pred_option (\<lambda>m. rtk_identity_of m = snapshot_identity snap) (dn_rtk snap)
     \<and> pred_option (\<lambda>m. imu_identity_of m = snapshot_identity snap) (dn_imu snap)"

definition adopt_observations :: "dashboard_snapshot \<Rightarrow> dashboard_store \<Rightarrow> dashboard_store" where
  \<comment> \<open>the dict comprehension over the observations, unless there are none\<close>
  "adopt_observations snap s =
     (if dn_topic_observations snap = [] then s
      else s\<lparr>ds_observed := fold (\<lambda>ob. dict_put (to_topic ob) ob) (dn_topic_observations snap) []\<rparr>)"

definition update_snapshot :: "notify \<Rightarrow> dashboard_snapshot inst \<Rightarrow> (exc, dashboard_store, unit) op" where
  "update_snapshot notify snapshot s =
     (case snapshot of
        Foreign \<Rightarrow> (Inl (value_error ''snapshot must be an exact V2DashboardSnapshot''), s)
      | Instance snap \<Rightarrow>
          if \<not> members_match snap
          then (Inl (value_error ''snapshot member world_generation does not match snapshot''), s)
          else bind_op (require_identity (snapshot_identity snap)) (\<lambda>_ s.
                 let model = dn_robot_model snap
                 in if model \<noteq> ''unknown'' \<and> ds_robot_model s \<noteq> ''unknown'' \<and> model \<noteq> ds_robot_model s
                    then (Inl (value_error ''snapshot robot_model does not match dashboard store''), s)
                    else let s1 = (if model \<noteq> ''unknown'' then s\<lparr>ds_robot_model := model\<rparr> else s)
                         in replace_snapshot notify (Inr snap) (adopt_observations snap s1)) s)"

definition ds_read :: "pyval option \<Rightarrow> dashboard_store \<Rightarrow> dashboard_store \<Rightarrow> (exc, dashboard_snapshot option) res" where
  \<comment> \<open>the lock covers the first store; the rejections are read after its release, from \<open>later\<close>\<close>
  "ds_read now s later =
     (case (ds_snapshot s, now) of
        (Some current, Some v) \<Rightarrow>
          bind_res (observation_values s) (\<lambda>observations.
          bind_res (py_float v) (\<lambda>t.
          bind_res (observations_at t observations (ds_events s)) (\<lambda>derived.
            if derived = dn_topic_observations current then Inr (Some current)
            else case ds_identity s of
                   None \<Rightarrow> Inl (Exc TypeErr (lit ''argument after * must be an iterable''))
                 | Some identity \<Rightarrow>
                     bind_res (make_snapshot identity (dn_wheel_state current) (dn_lidar_timestamp_ns current)
                         (dn_lidar_sequence current) (dn_lidar_point_count current) (dn_rtk current) (dn_imu current)
                         (Some derived) (Some (ds_robot_model s)) later) (\<lambda>snap. Inr (Some snap)))))
      | _ \<Rightarrow> Inr (ds_snapshot s))"

subsection \<open>One store, one world\<close>

definition store_inv :: "dashboard_store \<Rightarrow> bool" where
  "store_inv s \<longleftrightarrow>
     pred_option (\<lambda>snap. ds_identity s = Some (snapshot_identity snap) \<and> members_match snap) (ds_snapshot s)"

definition store_le :: "dashboard_store \<Rightarrow> dashboard_store \<Rightarrow> bool" where
  "store_le s s' \<longleftrightarrow> store_inv s' \<and> pred_option (\<lambda>i. ds_identity s' = Some i) (ds_identity s)"

lemma store_le_refl: "store_inv s \<Longrightarrow> store_le s s"
  by (cases "ds_identity s") (simp_all add: store_le_def)

lemma store_le_trans: "store_le a b \<Longrightarrow> store_le b c \<Longrightarrow> store_le a c"
  by (cases "ds_identity a") (auto simp: store_le_def)

lemma store_le_frame:
  "store_inv s \<Longrightarrow> ds_identity s' = ds_identity s \<Longrightarrow> ds_snapshot s' = ds_snapshot s \<Longrightarrow> store_le s s'"
  by (cases "ds_identity s") (simp_all add: store_le_def store_inv_def)

lemma store_le_inv: "store_le s s' \<Longrightarrow> store_inv s'"
  by (simp add: store_le_def)

lemma store_le_bind:
  assumes "store_le s (snd (f s))" and "\<And>x s1. f s = (Inr x, s1) \<Longrightarrow> store_le s s1 \<Longrightarrow> store_le s1 (snd (k x s1))"
  shows "store_le s (snd (bind_op f k s))"
proof (cases "f s")
  case (Pair r s1)
  show ?thesis
  proof (cases r)
    case (Inl e)
    with Pair assms(1) show ?thesis by (simp add: bind_op_def)
  next
    case (Inr x)
    with Pair assms(1) assms(2) [of x s1] show ?thesis by (auto simp: bind_op_def intro: store_le_trans)
  qed
qed

lemma store_le_at_time:
  "store_inv s \<Longrightarrow> (\<And>x. store_le s (snd (f x s))) \<Longrightarrow> store_le s (snd (at_time t f s))"
  by (cases t) (simp_all add: at_time_def store_le_refl)

lemma record_telemetry_le: "store_inv s \<Longrightarrow> store_le s (snd (record_telemetry topic t n ts c s))"
  by (intro store_le_frame) (auto simp: record_telemetry_def Let_def split: option.split sum.split)

lemma require_identity_le: "store_inv s \<Longrightarrow> store_le s (snd (require_identity i s))"
  by (cases "ds_snapshot s"; cases "ds_identity s") (auto simp: require_identity_def store_le_def store_inv_def)

lemma require_identity_ok: "require_identity i s = (Inr x, s') \<Longrightarrow> ds_identity s' = Some i"
  by (cases i) (auto simp: require_identity_def split: option.splits if_splits)

lemma replace_snapshot_le:
  assumes "store_inv s"
    and "\<And>snap. made = Inr snap \<Longrightarrow> ds_identity s = Some (snapshot_identity snap) \<and> members_match snap"
  shows "store_le s (snd (replace_snapshot notify made s))"
proof (cases made)
  case (Inl e)
  with assms(1) show ?thesis by (simp add: replace_snapshot_def store_le_refl)
next
  case (Inr snap)
  with assms(2) [of snap] show ?thesis by (simp add: replace_snapshot_def store_le_def store_inv_def)
qed

lemma make_snapshot_fields:
  assumes "make_snapshot i wheel a b c rtk imu obs model s = Inr snap"
  shows "snapshot_identity snap = i" "dn_wheel_state snap = wheel" "dn_rtk snap = rtk" "dn_imu snap = imu"
  using assms by (cases i; auto simp: make_snapshot_def snapshot_identity_def res_simps)+

lemma make_snapshot_replace_le:
  assumes "store_inv s" and "ds_identity s = Some i"
    and "pred_option (\<lambda>w. wheel_identity_of w = i) wheel" "pred_option (\<lambda>m. rtk_identity_of m = i) rtk"
      "pred_option (\<lambda>m. imu_identity_of m = i) imu"
  shows "store_le s (snd (replace_snapshot notify (make_snapshot i wheel a b c rtk imu obs model s') s))"
proof (rule replace_snapshot_le [OF assms(1)])
  fix snap assume made: "make_snapshot i wheel a b c rtk imu obs model s' = Inr snap"
  from make_snapshot_fields [OF made] assms(2-5) show "ds_identity s = Some (snapshot_identity snap) \<and> members_match snap"
    by (simp add: members_match_def)
qed

lemma previous_members:
  assumes "store_inv s" and "ds_identity s = Some i"
  shows "pred_option (\<lambda>w. wheel_identity_of w = i) (Option.bind (ds_snapshot s) dn_wheel_state)"
    "pred_option (\<lambda>m. rtk_identity_of m = i) (Option.bind (ds_snapshot s) dn_rtk)"
    "pred_option (\<lambda>m. imu_identity_of m = i) (Option.bind (ds_snapshot s) dn_imu)"
  using assms by (cases "ds_snapshot s"; auto simp: store_inv_def members_match_def)+

lemma refresh_current_le: "store_inv s \<Longrightarrow> store_le s (snd (refresh_current_snapshot notify s))"
  using previous_members [of s]
  by (cases "ds_snapshot s"; cases "ds_identity s")
     (auto simp: refresh_current_snapshot_def store_le_refl intro!: make_snapshot_replace_le)

lemma refresh_changed_le:
  "store_inv s \<Longrightarrow> ds_identity s' = ds_identity s \<Longrightarrow> ds_snapshot s' = ds_snapshot s \<Longrightarrow>
   store_le s (snd (refresh_current_snapshot notify s'))"
  by (rule store_le_trans [OF store_le_frame refresh_current_le]) (auto simp: store_inv_def)

lemma record_frames_le: "store_inv s \<Longrightarrow> store_le s (snd (record_frames t a b c rtk imu s))"
  unfolding record_frames_def
  by (intro store_le_bind record_telemetry_le) (auto dest: store_le_inv)

lemma store_frames_le:
  assumes "store_inv s" and "rtk_identity_of rtk = i" "imu_identity_of imu = i"
  shows "store_le s (snd (store_frames notify t i a b c rtk imu s))"
  unfolding store_frames_def
proof (rule store_le_bind [where f = "require_identity i" and s = s, OF require_identity_le [OF assms(1)]])
  fix x s1
  assume req: "require_identity i s = (Inr x, s1)" and "store_le s s1"
  then have s1: "store_inv s1" "ds_identity s1 = Some i" by (auto simp: store_le_def dest: require_identity_ok)
  show "store_le s1 (snd (at_time t (\<lambda>x. bind_op (record_frames x a b c rtk imu) (\<lambda>_ s. replace_snapshot notify
      (make_snapshot i (previous_wheel s) (Some b) (Some a) c (Some rtk) (Some imu) None None s) s)) s1))"
  proof (intro store_le_at_time s1(1) store_le_bind record_frames_le)
    fix t y s2
    assume "store_le s1 s2"
    with s1(2) have s2: "store_inv s2" "ds_identity s2 = Some i" by (auto simp: store_le_def)
    with previous_members(1) [OF s2] assms(2,3)
    show "store_le s2 (snd (replace_snapshot notify
        (make_snapshot i (previous_wheel s2) (Some b) (Some a) c (Some rtk) (Some imu) None None s2) s2))"
      by (intro make_snapshot_replace_le) (simp_all add: previous_wheel_def)
  qed
qed

lemma update_sensor_frames_le: "store_inv s \<Longrightarrow> store_le s (snd (update_sensor_frames notify clock f t s))"
  by (cases f) (auto simp: update_sensor_frames_def Let_def store_le_refl intro: store_frames_le)

lemma update_prepared_le: "store_inv s \<Longrightarrow> store_le s (snd (update_prepared_sensor_frames notify clock f t s))"
  by (cases f) (auto simp: update_prepared_sensor_frames_def check_prepared_def res_simps store_le_refl
      split: sum.split intro: store_frames_le)

lemma check_robot_model_le: "store_inv s \<Longrightarrow> store_le s (snd (check_robot_model m s))"
  by (intro store_le_frame) (auto simp: check_robot_model_def)

lemma update_wheel_state_le:
  assumes inv: "store_inv s"
  shows "store_le s (snd (update_wheel_state notify clock w t s))"
proof (cases w)
  case Foreign
  with inv show ?thesis by (simp add: update_wheel_state_def store_le_refl)
next
  case (Instance v)
  let ?i = "wheel_identity_of v"
  have "store_le s (snd (bind_op (require_identity ?i) (\<lambda>_.
      bind_op (check_robot_model (sv_robot_model v)) (\<lambda>_. at_time (observation_time clock t) (\<lambda>x.
      bind_op (record_telemetry ''/sim/wheel/state'' x (sv_sequence v) (sv_timestamp_ns v) None) (\<lambda>_ s.
        replace_snapshot notify
             (make_snapshot ?i (Some v) (Option.bind (ds_snapshot s) dn_lidar_timestamp_ns)
                (Option.bind (ds_snapshot s) dn_lidar_sequence) (Option.bind (ds_snapshot s) dn_lidar_point_count)
                (Option.bind (ds_snapshot s) dn_rtk) (Option.bind (ds_snapshot s) dn_imu) None None s) s)))) s))"
  proof (rule store_le_bind [where f = "require_identity ?i" and s = s, OF require_identity_le [OF inv]])
    fix x s1
    assume "require_identity ?i s = (Inr x, s1)" and "store_le s s1"
    then have s1: "store_inv s1" "ds_identity s1 = Some ?i" by (auto simp: store_le_def dest: require_identity_ok)
    show "store_le s1 (snd (bind_op (check_robot_model (sv_robot_model v)) (\<lambda>_. at_time (observation_time clock t) (\<lambda>x.
      bind_op (record_telemetry ''/sim/wheel/state'' x (sv_sequence v) (sv_timestamp_ns v) None) (\<lambda>_ s.
        replace_snapshot notify
             (make_snapshot ?i (Some v) (Option.bind (ds_snapshot s) dn_lidar_timestamp_ns)
                (Option.bind (ds_snapshot s) dn_lidar_sequence) (Option.bind (ds_snapshot s) dn_lidar_point_count)
                (Option.bind (ds_snapshot s) dn_rtk) (Option.bind (ds_snapshot s) dn_imu) None None s) s))) s1))"
    proof (intro store_le_bind check_robot_model_le s1(1) store_le_at_time record_telemetry_le)
      fix s2 assume "store_le s1 s2"
      then show "store_inv s2" by (rule store_le_inv)
      then show "store_inv s2" .
    next
      fix y s2 x z s3
      assume "store_le s1 s2" and "store_le s2 s3"
      with s1(2) have s3: "store_inv s3" "ds_identity s3 = Some ?i" by (auto simp: store_le_def)
      with previous_members(2,3) [OF s3]
      show "store_le s3 (snd (replace_snapshot notify
             (make_snapshot ?i (Some v) (Option.bind (ds_snapshot s3) dn_lidar_timestamp_ns)
                (Option.bind (ds_snapshot s3) dn_lidar_sequence) (Option.bind (ds_snapshot s3) dn_lidar_point_count)
                (Option.bind (ds_snapshot s3) dn_rtk) (Option.bind (ds_snapshot s3) dn_imu) None None s3) s3))"
        by (intro make_snapshot_replace_le) simp_all
    qed
  qed
  with Instance show ?thesis by (simp add: update_wheel_state_def Let_def)
qed

lemma record_accepted_le: "store_inv s \<Longrightarrow> store_le s (snd (record_accepted_command notify n ts t ok s))"
  by (auto simp: record_accepted_command_def store_le_refl
      intro!: store_le_at_time store_le_bind record_telemetry_le refresh_current_le dest: store_le_inv)

lemma with_observation_le:
  "store_inv s \<Longrightarrow> (\<And>ob. store_le s (snd (f ob s))) \<Longrightarrow> store_le s (snd (with_observation topic f s))"
  by (auto simp: with_observation_def store_le_refl split: sum.split)

lemma record_protocol_error_le: "store_inv s \<Longrightarrow> store_le s (snd (record_protocol_error notify topic s))"
  by (auto simp: record_protocol_error_def store_le_refl intro!: with_observation_le refresh_changed_le)

lemma record_rejection_le: "store_inv s \<Longrightarrow> store_le s (snd (record_rejection notify d rejection t s))"
  by (auto simp: record_rejection_def store_le_refl Let_def split: sum.split rejection_domain.split
      intro!: with_observation_le refresh_changed_le)

lemma ds_refresh_transport_le: "store_inv s \<Longrightarrow> store_le s (snd (ds_refresh_transport notify clock q t s))"
  by (auto simp: ds_refresh_transport_def Let_def intro!: store_le_at_time refresh_changed_le)

lemma update_snapshot_le:
  assumes inv: "store_inv s"
  shows "store_le s (snd (update_snapshot notify snapshot s))"
proof (cases snapshot)
  case Foreign
  with inv show ?thesis by (simp add: update_snapshot_def store_le_refl)
next
  case (Instance snap)
  show ?thesis
  proof (cases "members_match snap")
    case False
    with Instance inv show ?thesis by (simp add: update_snapshot_def store_le_refl)
  next
    case True
    have put: "store_le s1 (snd (replace_snapshot notify (Inr snap) s2))"
      if "require_identity (snapshot_identity snap) s = (Inr x, s1)" "ds_identity s2 = ds_identity s1" for x s1 s2
      using True that require_identity_ok [OF that(1)] by (simp add: replace_snapshot_def store_le_def store_inv_def)
    have "ds_identity (adopt_observations snap s2) = ds_identity s2" for s2
      by (simp add: adopt_observations_def)
    then show ?thesis
      using True Instance require_identity_le [OF inv, of "snapshot_identity snap"]
      by (auto simp: update_snapshot_def Let_def store_le_refl [OF store_le_inv] intro!: store_le_bind put)
  qed
qed

datatype store_call =
    SFrames pyfloat "sensor_frames inst" "pyval option"
  | SPrepared pyfloat "prepared_frames inst" "pyval option"
  | SWheel pyfloat "wheel_state_v2 inst" "pyval option"
  | SAccepted int int pyval bool
  | SProtocolError string
  | SRejected rejection_domain command_rejection pyval
  | STransport pyfloat "quality_report list" "pyval option"
  | SSnapshot "dashboard_snapshot inst"

fun store_do :: "notify \<Rightarrow> store_call \<Rightarrow> dashboard_store \<Rightarrow> dashboard_store" where
  "store_do notify (SFrames clock f t) s = snd (update_sensor_frames notify clock f t s)"
| "store_do notify (SPrepared clock f t) s = snd (update_prepared_sensor_frames notify clock f t s)"
| "store_do notify (SWheel clock w t) s = snd (update_wheel_state notify clock w t s)"
| "store_do notify (SAccepted n ts t ok) s = snd (record_accepted_command notify n ts t ok s)"
| "store_do notify (SProtocolError topic) s = snd (record_protocol_error notify topic s)"
| "store_do notify (SRejected d rejection t) s = snd (record_rejection notify d rejection t s)"
| "store_do notify (STransport clock q t) s = snd (ds_refresh_transport notify clock q t s)"
| "store_do notify (SSnapshot snap) s = snd (update_snapshot notify snap s)"

definition store_run :: "notify \<Rightarrow> store_call list \<Rightarrow> dashboard_store \<Rightarrow> dashboard_store" where
  "store_run notify cs s = fold (store_do notify) cs s"

lemma store_do_le: "store_inv s \<Longrightarrow> store_le s (store_do notify c s)"
  by (cases c)
     (simp_all add: update_sensor_frames_le update_prepared_le update_wheel_state_le record_accepted_le
       record_protocol_error_le record_rejection_le ds_refresh_transport_le update_snapshot_le)

lemma store_run_le: "store_inv s \<Longrightarrow> store_le s (store_run notify cs s)"
proof (induction cs arbitrary: s)
  case (Cons c cs)
  from store_do_le [OF Cons.prems] Cons.IH [of "store_do notify c s"] show ?case
    by (auto simp: store_run_def intro: store_le_trans dest: store_le_inv)
qed (simp add: store_run_def store_le_refl)

lemma new_store_inv: "new_dashboard_store m = Inr s \<Longrightarrow> store_inv s"
  by (auto simp: new_dashboard_store_def store_inv_def res_simps)

lemma ds_read_members:
  assumes "store_inv s" and "ds_read now s later = Inr (Some snap)"
  shows "members_match snap \<and> ds_identity s = Some (snapshot_identity snap)"
proof -
  from assms(2) obtain current where current: "ds_snapshot s = Some current"
    by (auto simp: ds_read_def split: option.splits)
  with assms(1) have inv: "ds_identity s = Some (snapshot_identity current)" "members_match current"
    by (simp_all add: store_inv_def)
  show ?thesis
  proof (cases "snap = current")
    case True
    with inv show ?thesis by simp
  next
    case False
    with assms(2) current inv(1) obtain obs model where
      "make_snapshot (snapshot_identity current) (dn_wheel_state current) (dn_lidar_timestamp_ns current)
         (dn_lidar_sequence current) (dn_lidar_point_count current) (dn_rtk current) (dn_imu current) (Some obs) model later
       = Inr snap"
      by (auto simp: ds_read_def res_simps split: option.splits if_splits)
    from make_snapshot_fields [OF this] inv show ?thesis by (simp add: members_match_def)
  qed
qed

text \<open>A frame the asynchronous factory delivers is refused only for its world or its time.\<close>

lemma delivered_frame_checks:
  assumes "async_run ps f" and "p \<in> set ps" and "pf_lidar_payload p \<noteq> []"
  shows "check_prepared p = Inr ()"
proof -
  have "coherent_prepared p" using async_run_coherent [OF assms(1)] assms(2) by (simp add: list_all_iff)
  with assms(3) show ?thesis
    by (simp add: check_prepared_def coherent_prepared_def coherent_entry_def rtk_identity_of_def imu_identity_of_def
        output_identity_of_def)
qed

subsection \<open>Gap counting\<close>

definition note_sequence :: "int \<Rightarrow> topic_observation \<Rightarrow> topic_observation" where
  "note_sequence n ob = ob\<lparr>to_sequence_gap_count := sequence_gaps ob n, to_latest_sequence := Some n\<rparr>"

lemma record_telemetry_sequence:
  assumes "record_telemetry topic t n ts c s = (Inr (), s')"
  shows "\<exists>ob ob'. map_of (ds_observed s) topic = Some ob \<and> map_of (ds_observed s') topic = Some ob'
    \<and> to_sequence_gap_count ob' = to_sequence_gap_count (note_sequence n ob)
    \<and> to_latest_sequence ob' = to_latest_sequence (note_sequence n ob)"
  using assms
  by (auto simp: record_telemetry_def lookup_key_def Let_def note_sequence_def split: option.splits if_splits)

lemma note_sequences_exact:
  assumes "sorted_wrt (<) (k # ns)" and "to_latest_sequence ob = Some k"
  shows "to_sequence_gap_count (fold note_sequence ns ob) + int (length ns) = to_sequence_gap_count ob + last (k # ns) - k
    \<and> to_latest_sequence (fold note_sequence ns ob) = Some (last (k # ns))"
  using assms
proof (induction ns arbitrary: k ob)
  case (Cons n ns)
  have "to_latest_sequence (note_sequence n ob) = Some n" by (simp add: note_sequence_def)
  with Cons.IH [of n "note_sequence n ob"] Cons.prems show ?case
    by (auto simp: note_sequence_def sequence_gaps_def)
qed simp

text \<open>Of sequences that only increase, the count is exactly the numbers that never arrived.\<close>

lemma gap_count_exact:
  assumes "sorted_wrt (<) (k # ns)" and "to_latest_sequence ob = None" "to_sequence_gap_count ob = 0"
  shows "to_sequence_gap_count (fold note_sequence (k # ns) ob) = last (k # ns) - k + 1 - int (length (k # ns))"
  using note_sequences_exact [OF assms(1), of "note_sequence k ob"] assms(2,3)
  by (simp add: note_sequence_def sequence_gaps_def)

subsection \<open>Properties\<close>

text \<open>
  C39. The dashboard never mixes two worlds: whatever frames, commands, transport reports and relayed
  snapshots are written, in whatever order and with whatever failures, every snapshot the GUI reads has
  its wheel state, RTK and IMU from the one session, descriptor and world generation it names, and all
  snapshots one store ever shows name the same.
\<close>

theorem dashboard_single_world:
  assumes "new_dashboard_store m = Inr s0" and "s1 = store_run notify cs1 s0" and "s2 = store_run notify cs2 s1"
    and "ds_read now1 s1 later1 = Inr (Some a)" and "ds_read now2 s2 later2 = Inr (Some b)"
  shows "members_match a \<and> members_match b \<and> snapshot_identity a = snapshot_identity b"
proof -
  have s1: "store_inv s1" using store_run_le [OF new_store_inv [OF assms(1)], of notify cs1] assms(2) by (simp add: store_le_def)
  have le: "store_le s1 s2" using store_run_le [OF s1, of notify cs2] assms(3) by simp
  have a: "members_match a \<and> ds_identity s1 = Some (snapshot_identity a)" by (rule ds_read_members [OF s1 assms(4)])
  have b: "members_match b \<and> ds_identity s2 = Some (snapshot_identity b)"
    by (rule ds_read_members [OF store_le_inv [OF le] assms(5)])
  from a le have "ds_identity s2 = Some (snapshot_identity a)" by (simp add: store_le_def)
  with a b show ?thesis by simp
qed

text \<open>
  The rejections of a derived snapshot are read after the lock is released: they can be newer than
  the observations beside them.
\<close>

definition example_store :: dashboard_store where
  "example_store =
     \<lparr>ds_identity = Some ([1], [2], 1),
      ds_snapshot = Some \<lparr>dn_simulation_session_id = [1], dn_descriptor_sha256 = [2], dn_world_generation = 1,
        dn_wheel_state = None, dn_lidar_timestamp_ns = None, dn_lidar_sequence = None, dn_lidar_point_count = None,
        dn_rtk = None, dn_imu = None, dn_topic_observations = [], dn_robot_model = ''df_mid'',
        dn_authority_rejections = [], dn_observer_rejections = []\<rparr>,
      ds_robot_model = ''df_mid'', ds_events = map (\<lambda>c. (tc_topic c, [])) v2_topics,
      ds_observed = map (\<lambda>c. (tc_topic c, new_observation (tc_topic c) (tc_rate_hz c))) v2_topics,
      ds_authority_rejections = [], ds_observer_rejections = []\<rparr>"

definition example_rejection :: command_rejection where
  "example_rejection = \<lparr>cj_topic = ''/sim/wheel/command'', cj_source_id = None, cj_source_session_id = None,
     cj_sequence = None, cj_simulation_session_id = None, cj_world_generation = None, cj_reason = lit ''refused'',
     cj_received_at = Fin 0\<rparr>"

definition example_later :: dashboard_store where
  "example_later = snd (record_rejection (\<lambda>_. Inr ()) AuthorityDomain example_rejection (PInt 3) example_store)"

lemma read_mixes_newer_rejections:
  "(case ds_read (Some (PInt 5)) example_store example_later of
      Inr (Some snap) \<Rightarrow>
        dn_authority_rejections snap = [example_rejection\<lparr>cj_received_at := Fin 3\<rparr>]
        \<and> list_all (\<lambda>ob. to_authority_error_count ob = 0) (dn_topic_observations snap)
    | _ \<Rightarrow> False)"
  by code_simp

definition example_prepared :: prepared_frames where
  "example_prepared = hd (projr (fst example_polled))"

definition example_writes :: "store_call list" where
  "example_writes = [SPrepared (Fin 9) (Instance example_prepared) (Some (PInt 3)), SProtocolError ''/sim/wheel/state'']"

definition example_fresh_store :: dashboard_store where
  "example_fresh_store = projr (new_dashboard_store (PStr ''df_mid''))"

lemma example_reads:
  "new_dashboard_store (PStr ''df_mid'') = Inr example_fresh_store"
  "(case ds_read None (store_run (\<lambda>_. Inr ()) (take 1 example_writes) example_fresh_store) example_fresh_store of
      Inr (Some a) \<Rightarrow> dn_lidar_timestamp_ns a = Some 100 | _ \<Rightarrow> False)"
  "(case ds_read (Some (PInt 4)) (store_run (\<lambda>_. Inr ()) (drop 1 example_writes)
        (store_run (\<lambda>_. Inr ()) (take 1 example_writes) example_fresh_store)) example_fresh_store of
      Inr (Some b) \<Rightarrow> dn_rtk b \<noteq> None | _ \<Rightarrow> False)"
  by code_simp+

theorem dashboard_single_world_witness:
  "\<exists>a b. ds_read None (store_run (\<lambda>_. Inr ()) (take 1 example_writes) example_fresh_store) example_fresh_store = Inr (Some a)
    \<and> dn_lidar_timestamp_ns a = Some 100 \<and> dn_rtk b \<noteq> None \<and> members_match b \<and> snapshot_identity a = snapshot_identity b"
proof -
  obtain a where a: "ds_read None (store_run (\<lambda>_. Inr ()) (take 1 example_writes) example_fresh_store) example_fresh_store
      = Inr (Some a)" "dn_lidar_timestamp_ns a = Some 100"
    using example_reads(2) by (auto split: sum.splits option.splits)
  obtain b where b: "ds_read (Some (PInt 4)) (store_run (\<lambda>_. Inr ()) (drop 1 example_writes)
        (store_run (\<lambda>_. Inr ()) (take 1 example_writes) example_fresh_store)) example_fresh_store = Inr (Some b)"
      "dn_rtk b \<noteq> None"
    using example_reads(3) by (auto split: sum.splits option.splits)
  from dashboard_single_world [OF example_reads(1) refl refl a(1) b(1)] a b(2) show ?thesis by blast
qed

end
