(* ===== verification/SimulationRuntime.thy ===== *)
theory SimulationRuntime
  imports SimClock DashboardStore
begin

text \<open>
  The per-step runtime of \<^verbatim>\<open>slope_sim/interfaces/v2/simulation_runtime.py\<close>: after each physics step the
  cadence says which outputs are due, and the frame factories, the publisher, the controller and the
  dashboard store are called in the code's order.  Everything published is logged.  What the sensors,
  the worker, the transport, the codec and the clock return is the environment.
\<close>

subsection \<open>State and environment\<close>

datatype frame_factory = SyncFactory | AsyncFactory async_factory

record simulator_runtime =
  vr_controller :: runtime_protocol
  vr_cadence :: publish_cadence
  vr_factory :: frame_factory
  vr_robot_model :: string
  vr_store :: "dashboard_store option"
  vr_log :: "published_frame list"

type_synonym worker_poll = "(exc, lidar_prepared option) res \<times> (exc, lidar_event inst list option) res"

record runtime_env =
  en_feedback :: "int \<Rightarrow> (exc, wheel_state inst) res"
  en_scan :: "int \<Rightarrow> (exc, lidar_point_cloud inst) res"
  en_rtk :: "int \<Rightarrow> (exc, stage4_rtk inst) res"
  en_imu :: "int \<Rightarrow> (exc, imu_attitude inst) res"
  en_context :: "int \<Rightarrow> (exc, bool) res"
  en_submitted :: "int \<Rightarrow> (exc, bool) res"
  en_worker :: "int \<Rightarrow> lidar_service_snapshot option"
  en_others :: "int \<Rightarrow> runtime_protocol \<Rightarrow> runtime_protocol"
  en_encode :: "v2_model \<Rightarrow> (exc, encoded_v2_frame) res"
  en_outcome :: "string \<Rightarrow> (exc, bool) res"
  en_notify :: notify
  en_clock :: "int \<Rightarrow> pyfloat"  \<comment> \<open>the monotonic clock when a frame of that time is stored\<close>

type_synonym 'a sim_op = "(exc, simulator_runtime, 'a) op"

fun for_each :: "('a \<Rightarrow> ('e, 's, unit) op) \<Rightarrow> 'a list \<Rightarrow> ('e, 's, unit) op" where
  \<comment> \<open>a \<^verbatim>\<open>for\<close> loop over a tuple; an exception ends it\<close>
  "for_each f [] s = (Inr (), s)"
| "for_each f (x # xs) s = bind_op (f x) (\<lambda>_. for_each f xs) s"

definition raising :: "(exc, 'a) res \<Rightarrow> 'a sim_op" where
  "raising r s = (r, s)"

definition emit :: "(exc, unit) res \<times> published_frame list \<Rightarrow> unit sim_op" where
  "emit p s = (fst p, s\<lparr>vr_log := vr_log s @ snd p\<rparr>)"

definition on_store :: "(exc, dashboard_store, unit) op \<Rightarrow> unit sim_op" where
  \<comment> \<open>\<^verbatim>\<open>if self._dashboard_snapshot_store is not None\<close>\<close>
  "on_store f s =
     (case vr_store s of
        None \<Rightarrow> (Inr (), s)
      | Some st \<Rightarrow> (case f st of (r, st') \<Rightarrow> (r, s\<lparr>vr_store := Some st'\<rparr>)))"

subsection \<open>Outputs of a step\<close>

definition wheel_output :: "runtime_env \<Rightarrow> pyval \<Rightarrow> int \<Rightarrow> unit sim_op" where
  "wheel_output env wall_time timestamp =
     bind_op (raising (en_feedback env timestamp)) (\<lambda>feedback s.
       case feedback of
         Foreign \<Rightarrow> (Inl (runtime_error ''wheel feedback reader must return WheelState''), s)
       | Instance w \<Rightarrow>
           if ws_timestamp_ns w \<noteq> timestamp
           then (Inl (runtime_error ''wheel feedback timestamp does not match deadline''), s)
           else (case build_wheel_state (vr_robot_model s) (Instance w) (en_others env timestamp) (vr_controller s) of
                   (Inl e, rp) \<Rightarrow> (Inl e, s\<lparr>vr_controller := rp\<rparr>)
                 | (Inr sv, rp) \<Rightarrow>
                     bind_op (emit (publish_wheel_state (en_encode env) (en_outcome env) (Instance sv) wall_time))
                       (\<lambda>_. on_store (update_wheel_state (en_notify env) (en_clock env timestamp) (Instance sv)
                              (Some (PFloat (en_clock env timestamp)))))
                       (s\<lparr>vr_controller := rp\<rparr>)))"

definition poll_factory :: "worker_poll \<Rightarrow> prepared_frames list sim_op" where
  "poll_factory poll s =
     (case vr_factory s of
        SyncFactory \<Rightarrow> (Inr [], s)
      | AsyncFactory f \<Rightarrow>
          (case poll_completed (fst poll) (snd poll) f of (r, f') \<Rightarrow> (r, s\<lparr>vr_factory := AsyncFactory f'\<rparr>)))"

definition deliver_prepared :: "runtime_env \<Rightarrow> pyval \<Rightarrow> prepared_frames \<Rightarrow> unit sim_op" where
  "deliver_prepared env wall_time p =
     bind_op (emit (publish_prepared (en_encode env) (en_outcome env) (Instance p) wall_time))
       (\<lambda>_. on_store (update_prepared_sensor_frames (en_notify env) (en_clock env (pf_lidar_timestamp_ns p)) (Instance p)
              (Some (PFloat (en_clock env (pf_lidar_timestamp_ns p))))))"

definition publish_completed :: "runtime_env \<Rightarrow> pyval \<Rightarrow> worker_poll \<Rightarrow> nat sim_op" where
  "publish_completed env wall_time poll =
     bind_op (poll_factory poll) (\<lambda>completed.
     bind_op (for_each (deliver_prepared env wall_time) completed) (\<lambda>_ s. (Inr (length completed), s)))"

definition sensor_output :: "runtime_env \<Rightarrow> pyval \<Rightarrow> int \<Rightarrow> unit sim_op" where
  \<comment> \<open>the asynchronous capture returns None\<close>
  "sensor_output env wall_time timestamp s =
     (case vr_factory s of
        SyncFactory \<Rightarrow>
          (case sync_capture (en_scan env timestamp) (en_rtk env timestamp) (en_imu env timestamp) (vr_controller s) of
             (Inl e, rp) \<Rightarrow> (Inl e, s\<lparr>vr_controller := rp\<rparr>)
           | (Inr frames, rp) \<Rightarrow>
               bind_op (emit (publish_frames (en_encode env) (en_outcome env) (Instance frames) wall_time))
                 (\<lambda>_. on_store (update_sensor_frames (en_notify env) (en_clock env timestamp) (Instance frames)
                        (Some (PFloat (en_clock env timestamp)))))
                 (s\<lparr>vr_controller := rp\<rparr>))
      | AsyncFactory f \<Rightarrow>
          (case async_capture timestamp (en_rtk env timestamp) (en_imu env timestamp) (en_context env timestamp)
                  (en_submitted env timestamp) (en_worker env timestamp) (vr_controller s, f) of
             (r, rp, f') \<Rightarrow> (r, s\<lparr>vr_controller := rp, vr_factory := AsyncFactory f'\<rparr>)))"

definition advance_cadence :: "pyval \<Rightarrow> publish_batch sim_op" where
  "advance_cadence dt s = (case cadence_advance dt (vr_cadence s) of (r, c) \<Rightarrow> (r, s\<lparr>vr_cadence := c\<rparr>))"

definition after_physics_step ::
  "runtime_env \<Rightarrow> worker_poll \<Rightarrow> worker_poll \<Rightarrow> pyval \<Rightarrow> pyval \<Rightarrow> publish_batch sim_op" where
  "after_physics_step env poll1 poll2 dt wall_time =
     bind_op (advance_cadence dt) (\<lambda>batch.
     bind_op (for_each (wheel_output env wall_time) (pb_wheel_timestamps_ns batch)) (\<lambda>_.
     bind_op (publish_completed env wall_time poll1) (\<lambda>_.
     bind_op (for_each (sensor_output env wall_time) (pb_sensor_timestamps_ns batch)) (\<lambda>_.
     bind_op (publish_completed env wall_time poll2) (\<lambda>_ s. (Inr batch, s))))))"

subsection \<open>Draining before shutdown\<close>

record drain_tick =
  \<comment> \<open>one turn of the loop: the publishing time, the worker's answer and the time of the deadline check\<close>
  dt_wall :: pyfloat
  dt_poll :: worker_poll
  dt_now :: pyfloat

definition factory_pending :: "simulator_runtime \<Rightarrow> bool" where
  "factory_pending s = (case vr_factory s of SyncFactory \<Rightarrow> False | AsyncFactory f \<Rightarrow> has_pending f)"

partial_function (option) drain_loop ::
  "runtime_env \<Rightarrow> (nat \<Rightarrow> drain_tick) \<Rightarrow> pyfloat \<Rightarrow> nat \<Rightarrow> nat \<Rightarrow> simulator_runtime \<Rightarrow>
   ((exc, nat) res \<times> simulator_runtime) option" where
  "drain_loop env ticks deadline i delivered s =
     (if \<not> factory_pending s then Some (Inr delivered, s)
      else case publish_completed env (PFloat (dt_wall (ticks i))) (dt_poll (ticks i)) s of
             (Inl e, s1) \<Rightarrow> Some (Inl e, s1)
           | (Inr n, s1) \<Rightarrow>
               if \<not> factory_pending s1 then Some (Inr (delivered + n), s1)
               else if f_le deadline (dt_now (ticks i))
               then Some (Inl (Exc TimeoutErr (lit ''Stage4 lidar worker did not drain before shutdown'')), s1)
               else drain_loop env ticks deadline (i + 1) (delivered + n) s1)"

declare drain_loop.simps [code]

definition positive_timeout :: "pyval \<Rightarrow> (exc, pyfloat) res" where
  "positive_timeout timeout_sec =
     (case timeout_sec of
        PInt n \<Rightarrow> ensure (0 < n) (value_error ''timeout_sec must be positive'') (py_float timeout_sec)
      | PFloat x \<Rightarrow> ensure (\<not> f_le x f_zero) (value_error ''timeout_sec must be positive'') (Inr x)
      | _ \<Rightarrow> Inl (value_error ''timeout_sec must be positive''))"

definition drain_sensor_outputs ::
  "runtime_env \<Rightarrow> (nat \<Rightarrow> drain_tick) \<Rightarrow> pyfloat \<Rightarrow> pyval \<Rightarrow> simulator_runtime \<Rightarrow>
   ((exc, nat) res \<times> simulator_runtime) option" where
  \<comment> \<open>\<open>start\<close> is the clock at the call; None is a call that never returns\<close>
  "drain_sensor_outputs env ticks start timeout_sec s =
     (case positive_timeout timeout_sec of
        Inl e \<Rightarrow> Some (Inl e, s)
      | Inr timeout \<Rightarrow> drain_loop env ticks (f_add start timeout) 0 0 s)"

subsection \<open>Commands and transport\<close>

definition on_protocol :: "(exc, runtime_protocol, 'a) op \<Rightarrow> 'a sim_op" where
  "on_protocol f s = (case f (vr_controller s) of (r, rp) \<Rightarrow> (r, s\<lparr>vr_controller := rp\<rparr>))"

definition quality_of :: "quality_report \<Rightarrow> topic_quality" where
  \<comment> \<open>the fields of one report the controller reads\<close>
  "quality_of q = \<lparr>tq_topic = qr_topic q, tq_protocol_state = qr_protocol_state q,
     tq_peer_count = (case qr_peer_count q of Some n \<Rightarrow> PInt n | None \<Rightarrow> PNone)\<rparr>"

definition vr_refresh_transport ::
  "notify \<Rightarrow> pyfloat \<Rightarrow> (exc, unit) res \<Rightarrow> (exc, quality_report list) res \<Rightarrow> unit sim_op" where
  "vr_refresh_transport notify clock polled snapshot =
     bind_op (on_protocol (refresh_transport polled (bind_res snapshot (\<lambda>q. Inr (map quality_of q))))) (\<lambda>_.
       on_store (case snapshot of
                   Inl e \<Rightarrow> (\<lambda>st. (Inl e, st))
                 | Inr q \<Rightarrow> ds_refresh_transport notify clock q (Some (PFloat clock))))"

definition rejection_of :: "ingress_result \<Rightarrow> command_rejection" where
  "rejection_of r = \<lparr>cj_topic = ''/sim/wheel/command'', cj_source_id = ir_source_id r,
     cj_source_session_id = ir_source_session_id r, cj_sequence = ir_sequence r,
     cj_simulation_session_id = ir_simulation_session_id r, cj_world_generation = ir_world_generation r,
     cj_reason = ir_reason r, cj_received_at = ir_received_at r\<rparr>"

definition note_ingress :: "notify \<Rightarrow> ingress_result \<Rightarrow> pyfloat \<Rightarrow> unit sim_op" where
  \<comment> \<open>what the dashboard is told of one command\<close>
  "note_ingress notify r received_at s =
     (if vr_store s = None then (Inr (), s)
      else if ir_accepted r
      then (case (as_last_sequence (authority_snapshot_of (rp_authority (vr_controller s))),
                  mb_latest_timestamp_ns (rp_mailbox (vr_controller s))) of
              (Some sequence, Some timestamp) \<Rightarrow>
                on_store (record_accepted_command notify sequence timestamp (PFloat received_at) True) s
            | _ \<Rightarrow> (Inl (runtime_error ''accepted command metadata is unavailable''), s))
      else on_store (record_rejection notify AuthorityDomain (rejection_of r) (PFloat (ir_received_at r))) s)"

definition accept_command_payload ::
  "(bytes \<Rightarrow> (exc, wheel_command_v2) res) \<Rightarrow> notify \<Rightarrow> (runtime_protocol \<Rightarrow> runtime_protocol) \<Rightarrow> bytes \<Rightarrow> pyfloat \<Rightarrow> bool sim_op" where
  \<comment> \<open>\<open>others\<close> is what other threads do to the controller once its lock is released\<close>
  "accept_command_payload decode notify others payload received_at =
     bind_op (on_protocol (accept_payload_result decode payload received_at)) (\<lambda>r s.
       bind_op (note_ingress notify r received_at) (\<lambda>_ s. (Inr (ir_accepted r), s))
         (s\<lparr>vr_controller := others (vr_controller s)\<rparr>))"

definition vr_command_decision :: "pyval \<Rightarrow> wheel_decision sim_op" where
  "vr_command_decision now =
     on_protocol (\<lambda>rp. case mb_decision now (rp_mailbox rp) of (r, mb) \<Rightarrow> (r, rp\<lparr>rp_mailbox := mb\<rparr>))"

subsection \<open>What a delivery publishes\<close>

lemma for_each_ok:
  assumes "for_each f xs s = (Inr u, s')" and "\<And>x s s'. f x s = (Inr (), s') \<Longrightarrow> P s x s'"
    and "\<And>s. Q [] s s" and "\<And>x xs a b c. P a x b \<Longrightarrow> Q xs b c \<Longrightarrow> Q (x # xs) a c"
  shows "Q xs s s'"
  using assms(1)
proof (induction xs arbitrary: s)
  case Nil
  with assms(3) show ?case by simp
next
  case (Cons x xs)
  from Cons.prems obtain s1 where "f x s = (Inr (), s1)" "for_each f xs s1 = (Inr u, s')"
    by (auto simp: bind_op_def split: prod.splits sum.splits)
  with Cons.IH assms(2,4) show ?case by blast
qed

lemma publish_each_all: "publish_each encode outcome items = (Inr u, ps) \<Longrightarrow> length ps = length items"
  by (induction encode outcome items arbitrary: ps rule: publish_each.induct)
     (auto simp: Let_def split: sum.splits prod.splits)

lemma publish_prepared_three:
  "publish_prepared encode outcome (Instance p) wall_time = (Inr u, ps) \<Longrightarrow> length ps = 3"
  by (auto simp: publish_prepared_def Let_def simp del: publish_each.simps
      dest!: publish_each_all split: sum.splits prod.splits)

lemma on_store_frame:
  "on_store f s = (r, s') \<Longrightarrow> vr_log s' = vr_log s \<and> vr_factory s' = vr_factory s \<and> vr_controller s' = vr_controller s"
  by (auto simp: on_store_def split: option.splits prod.splits)

lemma deliver_prepared_log:
  assumes "deliver_prepared env wall_time p s = (Inr (), s')"
  shows "length (vr_log s') = length (vr_log s) + 3 \<and> vr_factory s' = vr_factory s \<and> vr_controller s' = vr_controller s"
proof -
  obtain r ps where published: "publish_prepared (en_encode env) (en_outcome env) (Instance p) wall_time = (r, ps)"
    by fastforce
  with assms have "r = Inr ()" by (auto simp: deliver_prepared_def bind_op_def emit_def split: sum.splits)
  with published publish_prepared_three have "length ps = 3" by blast
  with assms published \<open>r = Inr ()\<close> show ?thesis
    by (auto simp: deliver_prepared_def bind_op_def emit_def dest: on_store_frame)
qed

lemma publish_completed_log:
  assumes "publish_completed env wall_time poll s = (Inr n, s')"
  shows "length (vr_log s') = length (vr_log s) + 3 * n \<and> vr_controller s' = vr_controller s"
proof -
  from assms obtain completed s1 where poll: "poll_factory poll s = (Inr completed, s1)"
    and each: "for_each (deliver_prepared env wall_time) completed s1 = (Inr (), s')" and n: "n = length completed"
    by (auto simp: publish_completed_def bind_op_def split: prod.splits sum.splits)
  have s1: "vr_log s1 = vr_log s" "vr_controller s1 = vr_controller s"
    using poll by (auto simp: poll_factory_def split: frame_factory.splits prod.splits)
  have "length (vr_log s') = length (vr_log s1) + 3 * length completed \<and> vr_controller s' = vr_controller s1"
    by (rule for_each_ok [OF each, where P = "\<lambda>a x b. length (vr_log b) = length (vr_log a) + 3 \<and> vr_controller b = vr_controller a"])
       (auto dest: deliver_prepared_log)
  with s1 n show ?thesis by simp
qed

lemma drain_loop_returns:
  assumes "i \<le> n" and "f_le deadline (dt_now (ticks n))"
  shows "\<exists>r s'. drain_loop env ticks deadline i delivered s = Some (r, s')
    \<and> (\<forall>k. r = Inr k \<longrightarrow> \<not> factory_pending s' \<and> delivered \<le> k
        \<and> length (vr_log s') = length (vr_log s) + 3 * (k - delivered) \<and> vr_controller s' = vr_controller s)"
  using assms(1)
proof (induction "n - i" arbitrary: i delivered s)
  case base: 0
  then have i: "i = n" by simp
  show ?case
  proof (cases "factory_pending s")
    case False
    then show ?thesis by (simp add: drain_loop.simps)
  next
    case True
    obtain r s1 where p: "publish_completed env (PFloat (dt_wall (ticks i))) (dt_poll (ticks i)) s = (r, s1)" by fastforce
    with True i assms(2) publish_completed_log show ?thesis
      by (cases r) (fastforce simp: drain_loop.simps)+
  qed
next
  case (Suc m)
  show ?case
  proof (cases "factory_pending s")
    case False
    then show ?thesis by (simp add: drain_loop.simps)
  next
    case pending: True
    obtain r s1 where p: "publish_completed env (PFloat (dt_wall (ticks i))) (dt_poll (ticks i)) s = (r, s1)" by fastforce
    show ?thesis
    proof (cases r)
      case (Inl e)
      with pending p show ?thesis by (simp add: drain_loop.simps)
    next
      case (Inr k)
      with p have log: "length (vr_log s1) = length (vr_log s) + 3 * k" "vr_controller s1 = vr_controller s"
        using publish_completed_log by blast+
      show ?thesis
      proof (cases "factory_pending s1 \<and> \<not> f_le deadline (dt_now (ticks i))")
        case True
        have "m = n - (i + 1)" "i + 1 \<le> n" using Suc.hyps(2) by auto
        from Suc.hyps(1) [OF this, of "delivered + k" s1] True log Inr pending p show ?thesis
          by (subst drain_loop.simps) fastforce
      next
        case False
        with pending p Inr log show ?thesis by (subst drain_loop.simps) auto
      qed
    qed
  qed
qed

text \<open>
  C40. Shutdown never hangs on the LiDAR worker: if the monotonic clock ever passes the deadline, the
  drain returns, whatever the worker answers.  It returns a count only with no capture pending, having
  published exactly three messages for each frame counted and left the controller alone; otherwise it
  raises what polling or publishing raised, or TimeoutError.
\<close>

theorem drain_terminates:
  assumes "positive_timeout timeout_sec = Inr timeout" and "f_le (f_add start timeout) (dt_now (ticks n))"
  shows "\<exists>r s'. drain_sensor_outputs env ticks start timeout_sec s = Some (r, s')
    \<and> (\<forall>k. r = Inr k \<longrightarrow> \<not> factory_pending s' \<and> length (vr_log s') = length (vr_log s) + 3 * k
        \<and> vr_controller s' = vr_controller s)"
  using drain_loop_returns [where i = 0 and n = n and ticks = ticks and deadline = "f_add start timeout"
      and env = env and delivered = 0 and s = s] assms
  by (simp add: drain_sensor_outputs_def)

subsection \<open>What a step publishes\<close>

definition on_topic :: "string \<Rightarrow> published_frame list \<Rightarrow> int list" where
  "on_topic topic ps = map pu_timestamp_ns (filter (\<lambda>p. pu_topic p = topic) ps)"

definition adds :: "string \<Rightarrow> int list \<Rightarrow> simulator_runtime \<Rightarrow> simulator_runtime \<Rightarrow> bool" where
  \<comment> \<open>between two states exactly these timestamps were published on the topic\<close>
  "adds topic ts s s' \<longleftrightarrow> on_topic topic (vr_log s') = on_topic topic (vr_log s) @ ts \<and> vr_cadence s' = vr_cadence s
     \<and> (vr_factory s' = SyncFactory \<longleftrightarrow> vr_factory s = SyncFactory)"

lemma on_topic_append [simp]: "on_topic topic (ps @ qs) = on_topic topic ps @ on_topic topic qs"
  by (simp add: on_topic_def)

lemma adds_trans: "adds topic ts a b \<Longrightarrow> adds topic us b c \<Longrightarrow> adds topic (ts @ us) a c"
  by (simp add: adds_def)

lemma publish_each_topics: "publish_each encode outcome items = (Inr u, ps) \<Longrightarrow>
   map (\<lambda>p. (pu_topic p, pu_timestamp_ns p)) ps = map (\<lambda>(topic, model, t). (topic, t)) items"
  by (induction encode outcome items arbitrary: ps rule: publish_each.induct)
     (auto simp: Let_def split: sum.splits prod.splits)

lemma on_topic_pairs: "on_topic topic ps = map snd (filter (\<lambda>x. fst x = topic) (map (\<lambda>p. (pu_topic p, pu_timestamp_ns p)) ps))"
  by (induction ps) (simp_all add: on_topic_def)

lemma publish_frames_topics:
  assumes "publish_frames encode outcome (Instance f) wall_time = (Inr u, ps)"
  shows "on_topic ''/sim/wheel/state'' ps = []" "on_topic ''/sim/lidar/points'' ps = [lv_timebase_ns (sf_lidar f)]"
  using assms
  by (auto simp: publish_frames_def on_topic_pairs simp del: publish_each.simps
      dest!: publish_each_topics split: sum.splits)

lemma publish_prepared_wheel:
  assumes "publish_prepared encode outcome (Instance f) wall_time = (Inr u, ps)"
  shows "on_topic ''/sim/wheel/state'' ps = []"
  using assms
  by (auto simp: publish_prepared_def Let_def on_topic_pairs simp del: publish_each.simps
      dest!: publish_each_topics split: sum.splits prod.splits)

lemma on_store_adds: "on_store f s = (r, s') \<Longrightarrow> adds topic [] s s'"
  by (auto simp: on_store_def adds_def split: option.splits prod.splits)

lemma emit_adds: "emit (r, ps) s = (r', s') \<Longrightarrow> adds topic (on_topic topic ps) s s'"
  by (auto simp: emit_def adds_def)

lemma emit_then_store:
  assumes "bind_op (emit p) (\<lambda>_. on_store f) s = (Inr (), s')"
  shows "fst p = Inr ()" "adds topic (on_topic topic (snd p)) s s'"
proof -
  from assms obtain s1 where e: "emit (fst p, snd p) s = (Inr (), s1)" and st: "on_store f s1 = (Inr (), s')"
    by (auto simp: bind_op_def split: prod.splits sum.splits)
  from e show "fst p = Inr ()" by (simp add: emit_def)
  from adds_trans [OF emit_adds [OF e] on_store_adds [OF st]] show "adds topic (on_topic topic (snd p)) s s'" by simp
qed

lemma adds_controller: "adds topic ts (s\<lparr>vr_controller := rp\<rparr>) s' = adds topic ts s s'"
  by (simp add: adds_def)

lemma wheel_output_adds:
  assumes "wheel_output env wall_time t s = (Inr (), s')"
  shows "adds ''/sim/wheel/state'' [t] s s' \<and> adds ''/sim/lidar/points'' [] s s'"
proof -
  from assms obtain w where "en_feedback env t = Inr (Instance w)" "ws_timestamp_ns w = t"
    by (auto simp: wheel_output_def bind_op_def raising_def split: sum.splits inst.splits if_splits prod.splits)
  with assms obtain sv rp where built: "build_wheel_state (vr_robot_model s) (Instance w) (en_others env t) (vr_controller s) = (Inr sv, rp)"
    and out: "bind_op (emit (publish_wheel_state (en_encode env) (en_outcome env) (Instance sv) wall_time))
       (\<lambda>_. on_store (update_wheel_state (en_notify env) (en_clock env t) (Instance sv) (Some (PFloat (en_clock env t)))))
       (s\<lparr>vr_controller := rp\<rparr>) = (Inr (), s')"
    by (auto simp: wheel_output_def bind_op_def [of "raising _"] raising_def split: sum.splits prod.splits)
  have "sv_timestamp_ns sv = t"
    using built \<open>ws_timestamp_ns w = t\<close>
    by (auto simp: build_wheel_state_def wheel_state_of_def mk_wheel_state_v2_def Let_def res_simps
        split: prod.splits sum.splits if_splits)
  moreover have "on_topic topic (snd (publish_wheel_state (en_encode env) (en_outcome env) (Instance sv) wall_time))
      = (if topic = ''/sim/wheel/state'' then [sv_timestamp_ns sv] else [])" for topic
    using emit_then_store(1) [OF out] by (auto simp: publish_wheel_state_def on_topic_def Let_def split: sum.splits)
  ultimately show ?thesis
    using emit_then_store(2) [OF out, of "''/sim/wheel/state''"] emit_then_store(2) [OF out, of "''/sim/lidar/points''"]
    by (simp add: adds_controller)
qed

lemma for_each_adds:
  assumes "for_each f xs s = (Inr u, s')" and "\<And>x a b. f x a = (Inr (), b) \<Longrightarrow> adds topic (g x) a b"
  shows "adds topic (concat (map g xs)) s s'"
proof (rule for_each_ok [OF assms(1), where P = "\<lambda>a x b. adds topic (g x) a b"])
  show "adds topic (concat (map g [])) a a" for a by (simp add: adds_def)
  show "adds topic (concat (map g (x # xs))) a c"
    if "adds topic (g x) a b" "adds topic (concat (map g xs)) b c" for x xs a b c
    using adds_trans [OF that] by simp
qed (rule assms(2))

lemma publish_completed_adds:
  assumes "publish_completed env wall_time poll s = (Inr n, s')"
  shows "adds ''/sim/wheel/state'' [] s s'"
proof -
  from assms obtain completed s1 where poll: "poll_factory poll s = (Inr completed, s1)"
    and each: "for_each (deliver_prepared env wall_time) completed s1 = (Inr (), s')"
    by (auto simp: publish_completed_def bind_op_def split: prod.splits sum.splits)
  have one: "adds ''/sim/wheel/state'' [] a b" if d: "deliver_prepared env wall_time p a = (Inr (), b)" for a p b
  proof -
    note out = emit_then_store [OF d [unfolded deliver_prepared_def]]
    have "on_topic ''/sim/wheel/state'' (snd (publish_prepared (en_encode env) (en_outcome env) (Instance p) wall_time)) = []"
      using out(1) by (intro publish_prepared_wheel [of _ _ p wall_time "()"]) (simp add: prod_eq_iff)
    with out(2) [of "''/sim/wheel/state''"] show ?thesis by simp
  qed
  have "adds ''/sim/wheel/state'' [] s1 s'"
    using for_each_adds [OF each, of "''/sim/wheel/state''" "\<lambda>_. []"] one by (simp add: map_replicate_const)
  moreover have "adds ''/sim/wheel/state'' [] s s1"
    using poll by (auto simp: poll_factory_def adds_def split: frame_factory.splits prod.splits)
  ultimately show ?thesis using adds_trans by fastforce
qed

lemma sensor_output_adds:
  assumes "sensor_output env wall_time t s = (Inr (), s')"
  shows "adds ''/sim/wheel/state'' [] s s'"
proof (cases "vr_factory s")
  case (AsyncFactory f)
  with assms show ?thesis by (auto simp: sensor_output_def adds_def split: prod.splits)
next
  case SyncFactory
  with assms obtain f rp where
    out: "bind_op (emit (publish_frames (en_encode env) (en_outcome env) (Instance f) wall_time))
       (\<lambda>_. on_store (update_sensor_frames (en_notify env) (en_clock env t) (Instance f) (Some (PFloat (en_clock env t)))))
       (s\<lparr>vr_controller := rp\<rparr>) = (Inr (), s')"
    by (auto simp: sensor_output_def split: prod.splits sum.splits)
  have "on_topic ''/sim/wheel/state'' (snd (publish_frames (en_encode env) (en_outcome env) (Instance f) wall_time)) = []"
    using emit_then_store(1) [OF out] by (intro publish_frames_topics(1) [of _ _ f wall_time "()"]) (simp add: prod_eq_iff)
  with emit_then_store(2) [OF out, of "''/sim/wheel/state''"] show ?thesis by (simp add: adds_controller)
qed

lemma each_wheel_adds:
  assumes "for_each (wheel_output env wall_time) ts s = (Inr (), s')"
  shows "adds ''/sim/wheel/state'' ts s s'"
  using for_each_adds [OF assms, of "''/sim/wheel/state''" "\<lambda>t. [t]"] wheel_output_adds by (simp add: concat_map_singleton)

lemma each_sensor_adds:
  assumes "for_each (sensor_output env wall_time) ts s = (Inr (), s')"
  shows "adds ''/sim/wheel/state'' [] s s'"
  using for_each_adds [OF assms, of "''/sim/wheel/state''" "\<lambda>_. []"] sensor_output_adds by (simp add: map_replicate_const)

lemma after_physics_step_adds:
  assumes "after_physics_step env poll1 poll2 dt wall_time s = (Inr b, s')"
  shows "\<exists>c. cadence_advance dt (vr_cadence s) = (Inr b, c) \<and> vr_cadence s' = c
    \<and> on_topic ''/sim/wheel/state'' (vr_log s') = on_topic ''/sim/wheel/state'' (vr_log s) @ pb_wheel_timestamps_ns b"
proof -
  from assms obtain s1 s2 n1 s3 s4 n2 where
    steps: "advance_cadence dt s = (Inr b, s1)" "for_each (wheel_output env wall_time) (pb_wheel_timestamps_ns b) s1 = (Inr (), s2)"
      "publish_completed env wall_time poll1 s2 = (Inr n1, s3)"
      "for_each (sensor_output env wall_time) (pb_sensor_timestamps_ns b) s3 = (Inr (), s4)"
      "publish_completed env wall_time poll2 s4 = (Inr n2, s')"
    by (auto simp: after_physics_step_def bind_op_def split: prod.splits sum.splits)
  from steps(1) obtain c where c: "cadence_advance dt (vr_cadence s) = (Inr b, c)" "s1 = s\<lparr>vr_cadence := c\<rparr>"
    by (auto simp: advance_cadence_def split: prod.splits)
  have "adds ''/sim/wheel/state'' (pb_wheel_timestamps_ns b @ []) s1 s'"
    using adds_trans [OF each_wheel_adds [OF steps(2)] adds_trans [OF publish_completed_adds [OF steps(3)]
        adds_trans [OF each_sensor_adds [OF steps(4)] publish_completed_adds [OF steps(5)]]]] by simp
  with c show ?thesis by (simp add: adds_def)
qed

subsection \<open>A whole simulation\<close>

type_synonym step_input = "runtime_env \<times> worker_poll \<times> worker_poll \<times> pyval \<times> pyval"

fun simulate :: "step_input list \<Rightarrow> simulator_runtime \<Rightarrow> simulator_runtime option" where
  \<comment> \<open>physics steps in a row, None once one of them raises\<close>
  "simulate [] s = Some s"
| "simulate ((env, poll1, poll2, dt, wall_time) # ins) s =
     (case after_physics_step env poll1 poll2 dt wall_time s of
        (Inl e, s') \<Rightarrow> None
      | (Inr b, s') \<Rightarrow> simulate ins s')"

lemma simulate_cadence:
  "simulate ins s = Some s' \<Longrightarrow>
   \<exists>wheel sensor. cadence_run (map (\<lambda>(env, p1, p2, dt, wall). dt) ins) (vr_cadence s) = (wheel, sensor, vr_cadence s')
     \<and> on_topic ''/sim/wheel/state'' (vr_log s') = on_topic ''/sim/wheel/state'' (vr_log s) @ wheel"
proof (induction ins arbitrary: s)
  case (Cons i ins)
  obtain env p1 p2 dt wall where i: "i = (env, p1, p2, dt, wall)" by (cases i)
  with Cons.prems obtain b s1 where step: "after_physics_step env p1 p2 dt wall s = (Inr b, s1)" and rest: "simulate ins s1 = Some s'"
    by (auto split: prod.splits sum.splits)
  from Cons.IH [OF rest] after_physics_step_adds [OF step] show ?case
    by (fastforce simp: i)
qed simp

text \<open>
  C15. A running simulator publishes its wheel states exactly on schedule: over any physics steps that
  all return, whatever their sizes, with either frame factory and whatever the LiDAR worker answers, the
  published wheel states carry the timestamps 10 ms, 20 ms, 30 ms, \<dots> up to the simulation time, each
  once and in order.
\<close>

theorem wheel_states_on_schedule:
  assumes "new_publish_cadence = Inr (vr_cadence s)" and "vr_log s = []" and "simulate ins s = Some s'"
  shows "on_topic ''/sim/wheel/state'' (vr_log s')
    = map (\<lambda>k. k * 10000000) [1 .. ck_now_ns (pc_clock (vr_cadence s')) div 10000000]"
proof -
  from simulate_cadence [OF assms(3)] obtain wheel sensor where
    run: "cadence_run (map (\<lambda>(env, p1, p2, dt, wall). dt) ins) (vr_cadence s) = (wheel, sensor, vr_cadence s')"
    and "on_topic ''/sim/wheel/state'' (vr_log s') = wheel"
    using assms(2) by (auto simp: on_topic_def)
  with cadence_run_spec [OF run] new_publish_cadence_inv [OF assms(1)] show ?thesis by simp
qed

subsection \<open>The properties at work\<close>

definition example_env :: runtime_env where
  "example_env = \<lparr>en_feedback = \<lambda>t. Inr (Instance \<lparr>ws_timestamp_ns = t, ws_drive = [Fin 1, Fin 2], ws_steering_angle = []\<rparr>),
     en_scan = \<lambda>t. Inr Foreign, en_rtk = \<lambda>t. Inr (Instance (example_rtk t)), en_imu = \<lambda>t. Inr (Instance (example_imu t)),
     en_context = \<lambda>t. Inr True, en_submitted = \<lambda>t. Inr True, en_worker = \<lambda>t. None, en_others = \<lambda>t rp. rp,
     en_encode = \<lambda>m. Inr \<lparr>ef_type_name = [], ef_payload = [1], ef_payload_sha256 = []\<rparr>, en_outcome = \<lambda>topic. Inr True,
     en_notify = \<lambda>snap. Inr (), en_clock = \<lambda>t. Fin 1\<rparr>"

abbreviation idle_poll :: worker_poll where
  "idle_poll \<equiv> (Inr None, Inr (Some []))"

definition example_simulator :: simulator_runtime where
  "example_simulator = \<lparr>vr_controller = example_ready, vr_cadence = example_cadence,
     vr_factory = AsyncFactory (snd (snd example_captured)), vr_robot_model = ''df_mid'', vr_store = None, vr_log = []\<rparr>"

definition example_steps :: "step_input list" where
  "example_steps = replicate 2 (example_env, idle_poll, idle_poll, PFraction (1/60), PFloat (Fin 0))"

lemma example_simulation:
  "(case simulate example_steps example_simulator of
      Some s' \<Rightarrow> ck_now_ns (pc_clock (vr_cadence s')) div 10000000 = 3 | None \<Rightarrow> False)"
  by code_simp

theorem wheel_states_on_schedule_witness:
  "\<exists>s'. simulate example_steps example_simulator = Some s'
    \<and> on_topic ''/sim/wheel/state'' (vr_log s') = [10000000, 20000000, 30000000]"
proof -
  obtain s' where s': "simulate example_steps example_simulator = Some s'"
    "ck_now_ns (pc_clock (vr_cadence s')) div 10000000 = 3"
    using example_simulation by (auto split: option.splits)
  have new: "new_publish_cadence = Inr (vr_cadence example_simulator)" "vr_log example_simulator = []"
    by (simp_all add: example_simulator_def example_cadence_new)
  have "on_topic ''/sim/wheel/state'' (vr_log s') = map (\<lambda>k. k * 10000000) [1 .. 3]"
    using wheel_states_on_schedule [OF new s'(1)] unfolding s'(2) .
  also have "\<dots> = [10000000, 20000000, 30000000]" by code_simp
  finally show ?thesis using s'(1) by blast
qed

definition example_ticks :: "nat \<Rightarrow> drain_tick" where
  \<comment> \<open>the worker answers in the second turn\<close>
  "example_ticks i = \<lparr>dt_wall = Fin (of_nat i),
     dt_poll = (if i = 1 then (Inr (Some \<lparr>pd_topic = PStr ''lidar_link'', pd_timestamp_ns = PInt 100, pd_payload = PBytes [7, 8]\<rparr>),
                               Inr (Some []))
                else idle_poll),
     dt_now = Fin (of_nat i)\<rparr>"

lemma example_drain:
  "(case drain_sensor_outputs example_env example_ticks (Fin 0) (PInt 5) example_simulator of
      Some (Inr k, s') \<Rightarrow> k = 1 | _ \<Rightarrow> False)"
  by code_simp

theorem drain_terminates_witness:
  "\<exists>s'. drain_sensor_outputs example_env example_ticks (Fin 0) (PInt 5) example_simulator = Some (Inr 1, s')
    \<and> length (vr_log s') = 3 \<and> \<not> factory_pending s'"
proof -
  obtain s' where s': "drain_sensor_outputs example_env example_ticks (Fin 0) (PInt 5) example_simulator = Some (Inr 1, s')"
    using example_drain by (auto split: option.splits prod.splits sum.splits)
  have t: "positive_timeout (PInt 5) = Inr (Fin 5)" by code_simp
  have late: "f_le (f_add (Fin 0) (Fin 5)) (dt_now (example_ticks 5))" by code_simp
  from drain_terminates [where ticks = example_ticks and n = 5 and env = example_env and s = example_simulator, OF t late] s'
  show ?thesis by (simp add: example_simulator_def)
qed

text \<open>
  A command accepted just before another thread ends the driver's command: the rejection of the missing
  metadata is an error of the accepting call, not a quiet False.
\<close>

lemma accepted_command_race:
  assumes "accept_payload_result decode payload t (vr_controller s) = (Inr r, rp)" and "ir_accepted r"
    and "vr_store s = Some st" and "au_last_sequence (rp_authority (others rp)) = None"
  shows "fst (accept_command_payload decode notify others payload t s)
    = Inl (runtime_error ''accepted command metadata is unavailable'')"
  using assms
  by (simp add: accept_command_payload_def on_protocol_def bind_op_def note_ingress_def authority_snapshot_of_def
      split: option.split)

end
