(* ===== verification/ManualWorld.thy ===== *)
theory ManualWorld
  imports CodecV2 CommandReceiver WorldRuntime SimulationRuntime
begin

text \<open>
  The GUI's adapter in \<^verbatim>\<open>slope_sim/interfaces/v2/world_runtime.py\<close> (\<^verbatim>\<open>V2ManualWorldRuntime\<close>): it holds the
  world runtime, the simulator runtime made for the current world, and the command receiver, feeds the
  newest payload to the authority once per physics frame, and makes a new simulator runtime and
  dashboard store whenever the world changes.  The controller is one object that both runtimes hold;
  here each has a copy, and every operation writes both.
\<close>

subsection \<open>State\<close>

record diagnostic_line =
  \<comment> \<open>the numbers of one \<^verbatim>\<open>v2-command-receiver\<close> line\<close>
  dl_version :: int
  dl_age_ms :: "pyfloat option"
  dl_accepted :: "bool option"
  dl_sequence :: "int option"
  dl_max_drive :: pyfloat
  dl_decision_max :: pyfloat
  dl_waiting :: bool
  dl_timed_out :: bool
  dl_protocol :: string
  dl_authority :: authority_snapshot

record ('s, 'w) manual_world =
  mw_developer :: bool
  mw_robot :: robot_model_spec
  mw_obstacle_manager :: nat
  mw_world :: "('s, 'w) world_runtime"
  mw_runtime :: simulator_runtime
  mw_bound_worker :: 'w  \<comment> \<open>the worker the runtime's frame factory polls\<close>
  mw_receiver :: "receiver_handle option"
  mw_receiver_version :: int
  mw_observers :: "nat list"
  mw_last_at :: "pyfloat option"
  mw_last_accepted :: "bool option"
  mw_last_sequence :: "int option"
  mw_last_drive_max :: pyfloat
  mw_next_diagnostic_at :: pyfloat
  mw_printed :: "diagnostic_line list"

type_synonym ('s, 'w, 'a) world_op = "(exc, ('s, 'w) manual_world, 'a) op"

definition on_world :: "(exc, ('s, 'w) world_runtime, 'a) op \<Rightarrow> ('s, 'w, 'a) world_op" where
  "on_world f s =
     (case f (mw_world s) of
        (r, w) \<Rightarrow> (r, s\<lparr>mw_world := w, mw_runtime := (mw_runtime s)\<lparr>vr_controller := wr_controller w\<rparr>\<rparr>))"

definition on_runtime :: "'a sim_op \<Rightarrow> ('s, 'w, 'a) world_op" where
  "on_runtime f s =
     (case f (mw_runtime s) of
        (r, v) \<Rightarrow> (r, s\<lparr>mw_runtime := v, mw_world := (mw_world s)\<lparr>wr_controller := vr_controller v\<rparr>\<rparr>))"

subsection \<open>Making the runtime of a world\<close>

definition make_runtime ::
  "robot_model_spec \<Rightarrow> runtime_protocol \<Rightarrow> published_frame list \<Rightarrow> (exc, simulator_runtime) res" where
  \<comment> \<open>a new dashboard store, cadence and frame factory; the transport keeps what was published\<close>
  "make_runtime spec rp published_so_far =
     bind_res (new_dashboard_store (PStr (rm_name spec))) (\<lambda>store.
     bind_res new_publish_cadence (\<lambda>cadence.
       Inr \<lparr>vr_controller = rp, vr_cadence = cadence, vr_factory = AsyncFactory new_async_factory,
            vr_robot_model = rm_name spec, vr_store = Some store, vr_log = published_so_far\<rparr>))"

definition rebind_runtime :: "('s, 'w, unit) world_op" where
  \<comment> \<open>\<^verbatim>\<open>_reset_dashboard_snapshot_store\<close> and \<^verbatim>\<open>_make_runtime\<close>\<close>
  "rebind_runtime s =
     (case make_runtime (mw_robot s) (wr_controller (mw_world s)) (vr_log (mw_runtime s)) of
        Inl e \<Rightarrow> (Inl e, s)
      | Inr v \<Rightarrow> (Inr (), s\<lparr>mw_runtime := v, mw_bound_worker := wr_worker (mw_world s)\<rparr>))"

record ('s, 'w) manual_arguments =
  \<comment> \<open>what the constructor is handed and what the outside answers it\<close>
  ma_config :: "bool inst"  \<comment> \<open>whether the config enables developer diagnostics\<close>
  ma_scene :: "'s inst"
  ma_robot :: "robot_model_spec inst"
  ma_backend :: "unit inst"
  ma_manager :: "nat inst"
  ma_given_transport :: bool
  ma_new_transport :: "(exc, unit) res"
  ma_receiver :: "(exc, receiver_handle) res"
  ma_descriptor :: descriptor_identity
  ma_session_id :: pyval
  ma_start :: "'s \<Rightarrow> int \<Rightarrow> (exc, 'w) res"
  ma_can_subscribe :: bool
  ma_subscribed :: "(exc, unit) res"

definition default_command_timeout :: pyval where
  "default_command_timeout = PFloat (fl (1/10))"

definition receiver_for :: "('s, 'w) manual_arguments \<Rightarrow> (exc, receiver_handle option) res" where
  \<comment> \<open>with a transport of its own the runtime launches a receiver; a failed launch closes the transport\<close>
  "receiver_for a =
     (if ma_given_transport a then Inr None
      else bind_res (ma_new_transport a) (\<lambda>_. bind_res (ma_receiver a) (\<lambda>h. Inr (Some h))))"

definition new_manual_world :: "('s, 'w) manual_arguments \<Rightarrow> (exc, ('s, 'w) manual_world) res" where
  "new_manual_world a =
     (case (ma_config a, ma_scene a, ma_robot a, ma_backend a, ma_manager a) of
        (Instance developer, Instance d, Instance spec, Instance _, Instance manager) \<Rightarrow>
          bind_res (receiver_for a) (\<lambda>receiver.
          bind_res (new_runtime_protocol (Instance spec) (Instance (ma_descriptor a)) default_command_timeout (ma_session_id a)) (\<lambda>rp.
          bind_res (new_world_runtime (ma_start a) (Instance rp) (Instance d)) (\<lambda>w.
          bind_res (make_runtime spec rp []) (\<lambda>v.
          bind_res
            (if \<not> ma_can_subscribe a then Inl (runtime_error ''v2 transport must provide subscribe'')
             else if receiver = None then ma_subscribed a else Inr ()) (\<lambda>_.
            Inr \<lparr>mw_developer = developer, mw_robot = spec, mw_obstacle_manager = manager, mw_world = w,
                 mw_runtime = v, mw_bound_worker = wr_worker w, mw_receiver = receiver,
                 mw_receiver_version = 0, mw_observers = [], mw_last_at = None, mw_last_accepted = None,
                 mw_last_sequence = None, mw_last_drive_max = f_zero, mw_next_diagnostic_at = f_zero,
                 mw_printed = []\<rparr>)))))
      | (Foreign, _, _, _, _) \<Rightarrow> Inl (value_error ''config must be an ExperimentConfig'')
      | (_, Foreign, _, _, _) \<Rightarrow> Inl (value_error ''scene_document must be a SceneDocument'')
      | (_, _, Foreign, _, _) \<Rightarrow> Inl (value_error ''robot must be a DifferentialDriveRobot'')
      | (_, _, _, Foreign, _) \<Rightarrow> Inl (value_error ''sensor_backend must be a PyBulletSensorBackend'')
      | (_, _, _, _, Foreign) \<Rightarrow> Inl (value_error ''obstacle_manager must be an ObstacleManager''))"

subsection \<open>Commands, once per physics frame\<close>

record frame_env =
  fe_decode :: "bytes \<Rightarrow> (exc, wheel_command_v2) res"
  fe_notify :: notify
  fe_others :: "runtime_protocol \<Rightarrow> runtime_protocol"
  fe_observe :: "nat \<Rightarrow> bytes \<Rightarrow> pyfloat \<Rightarrow> (exc, unit) res"

definition max_abs :: "pyfloat list \<Rightarrow> pyfloat" where
  \<comment> \<open>\<^verbatim>\<open>max((abs(v) for v in xs), default=0.0)\<close>\<close>
  "max_abs xs = (case map f_abs xs of [] \<Rightarrow> f_zero | y # ys \<Rightarrow> fold (\<lambda>v m. f_max m v) ys y)"

definition note_last_command :: "frame_env \<Rightarrow> bytes \<Rightarrow> ('s, 'w, unit) world_op" where
  \<comment> \<open>the second decoding, for the diagnostics\<close>
  "note_last_command fe payload s =
     (if mw_developer s
      then (case fe_decode fe payload of
              Inl e \<Rightarrow> (Inl e, s)
            | Inr c \<Rightarrow> (Inr (), s\<lparr>mw_last_sequence := Some (cv_sequence c), mw_last_drive_max := max_abs (cv_drive c)\<rparr>))
      else (Inr (), s))"

fun tell_observers :: "frame_env \<Rightarrow> nat list \<Rightarrow> bytes \<Rightarrow> pyfloat \<Rightarrow> (exc, unit) res" where
  "tell_observers fe [] payload received_at = Inr ()"
| "tell_observers fe (ob # obs) payload received_at =
     bind_res (fe_observe fe ob payload received_at) (\<lambda>_. tell_observers fe obs payload received_at)"

definition ingest_latest :: "frame_env \<Rightarrow> receiver_handle \<Rightarrow> receiver_memory \<Rightarrow> ('s, 'w, unit) world_op" where
  "ingest_latest fe h m s =
     (case take_latest (PInt (mw_receiver_version s)) h m of
        Inl e \<Rightarrow> (Inl e, s)
      | Inr None \<Rightarrow> (Inr (), s)
      | Inr (Some (version, payload, received_at)) \<Rightarrow>
          bind_op (on_runtime (accept_command_payload (fe_decode fe) (fe_notify fe) (fe_others fe) payload received_at))
            (\<lambda>accepted s.
               bind_op (note_last_command fe payload)
                 (\<lambda>_ s. (tell_observers fe (mw_observers s) payload received_at, s))
                 (s\<lparr>mw_last_at := Some received_at, mw_last_accepted := Some accepted\<rparr>))
            (s\<lparr>mw_receiver_version := version\<rparr>))"

definition diagnostic_age :: "pyfloat \<Rightarrow> pyfloat option \<Rightarrow> pyfloat option" where
  "diagnostic_age now last_at = map_option (\<lambda>t. f_mul (f_max f_zero (f_sub now t)) (fl 1000)) last_at"

definition due_diagnostic :: "pyfloat \<Rightarrow> ('s, 'w, pyfloat option option) world_op" where
  \<comment> \<open>the age to print, if a line is due in this frame\<close>
  "due_diagnostic now s =
     (if mw_receiver s \<noteq> None \<and> mw_developer s \<and> f_le (mw_next_diagnostic_at s) now
      then (Inr (Some (diagnostic_age now (mw_last_at s))), s\<lparr>mw_next_diagnostic_at := f_add now (fl 1)\<rparr>)
      else (Inr None, s))"

definition print_diagnostic :: "pyfloat option option \<Rightarrow> wheel_decision \<Rightarrow> ('s, 'w, wheel_decision) world_op" where
  "print_diagnostic age decision s =
     (Inr decision,
      case age of
        None \<Rightarrow> s
      | Some age_ms \<Rightarrow>
          let protocol = runtime_snapshot_of (wr_controller (mw_world s))
          in s\<lparr>mw_printed := mw_printed s @
               [\<lparr>dl_version = mw_receiver_version s, dl_age_ms = age_ms, dl_accepted = mw_last_accepted s,
                 dl_sequence = mw_last_sequence s, dl_max_drive = mw_last_drive_max s,
                 dl_decision_max = max_abs (wd_drive decision), dl_waiting = wd_waiting decision,
                 dl_timed_out = wd_timed_out decision, dl_protocol = rs_command_protocol_state protocol,
                 dl_authority = rs_authority protocol\<rparr>]\<rparr>)"

definition frame_decision :: "frame_env \<Rightarrow> receiver_memory \<Rightarrow> pyfloat \<Rightarrow> ('s, 'w, wheel_decision) world_op" where
  \<comment> \<open>\<^verbatim>\<open>V2ManualWorldRuntime.command_decision\<close>\<close>
  "frame_decision fe m now s =
     bind_op (\<lambda>s. case mw_receiver s of None \<Rightarrow> (Inr (), s) | Some h \<Rightarrow> ingest_latest fe h m s) (\<lambda>_.
     bind_op (due_diagnostic now) (\<lambda>age.
     bind_op (on_runtime (vr_command_decision (PFloat now))) (print_diagnostic age))) s"

definition mw_subscribe_observer :: "nat inst \<Rightarrow> (exc, unit) res \<Rightarrow> ('s, 'w, nat option) world_op" where
  \<comment> \<open>a subscription of this process names its callback; without a receiver the transport subscribes\<close>
  "mw_subscribe_observer callback subscribed s =
     (case callback of
        Foreign \<Rightarrow> (Inl (value_error ''callback must be callable''), s)
      | Instance ob \<Rightarrow>
          if mw_receiver s \<noteq> None then (Inr (Some ob), s\<lparr>mw_observers := mw_observers s @ [ob]\<rparr>)
          else (bind_res subscribed (\<lambda>_. Inr None), s))"

record observer_subscription =
  ob_callback :: nat
  ob_closed :: bool

definition subscription_close :: "observer_subscription \<times> nat list \<Rightarrow> observer_subscription \<times> nat list" where
  "subscription_close = (\<lambda>(sub, callbacks).
     if ob_closed sub then (sub, callbacks) else (sub\<lparr>ob_closed := True\<rparr>, remove1 (ob_callback sub) callbacks))"

subsection \<open>Physics, transport and lifecycle\<close>

definition mw_after_physics_step ::
  "runtime_env \<Rightarrow> worker_poll \<Rightarrow> worker_poll \<Rightarrow> pyval \<Rightarrow> pyval \<Rightarrow> ('s, 'w, publish_batch) world_op" where
  "mw_after_physics_step env poll1 poll2 dt wall_time = on_runtime (after_physics_step env poll1 poll2 dt wall_time)"

definition mw_refresh_transport ::
  "notify \<Rightarrow> pyfloat \<Rightarrow> (exc, unit) res \<Rightarrow> (exc, quality_report list) res \<Rightarrow> ('s, 'w, unit) world_op" where
  \<comment> \<open>\<^verbatim>\<open>refresh_transport\<close> and \<^verbatim>\<open>poll_transport\<close>\<close>
  "mw_refresh_transport notify clock polled snapshot = on_runtime (vr_refresh_transport notify clock polled snapshot)"

definition mw_prepare :: "('w \<Rightarrow> worker_shutdown) \<Rightarrow> ('s, 'w, unit) world_op" where
  "mw_prepare shutdown = on_world (wr_prepare shutdown)"

definition mw_commit ::
  "('s \<Rightarrow> int \<Rightarrow> (exc, 'w) res) \<Rightarrow> robot_model_spec inst \<Rightarrow> unit inst \<Rightarrow> 's inst \<Rightarrow> ('s, 'w, unit) world_op" where
  "mw_commit start robot backend scene_document s =
     (case (robot, backend, scene_document) of
        (Instance spec, Instance _, Instance d) \<Rightarrow>
          bind_op (on_world (wr_commit start (Instance d) (Some (Instance spec))))
            (\<lambda>_ s. rebind_runtime (s\<lparr>mw_robot := spec\<rparr>)) s
      | (Foreign, _, _) \<Rightarrow> (Inl (value_error ''robot must be a DifferentialDriveRobot''), s)
      | (_, Foreign, _) \<Rightarrow> (Inl (value_error ''sensor_backend must be a PyBulletSensorBackend''), s)
      | (_, _, Foreign) \<Rightarrow> (Inl (value_error ''scene_document must be a SceneDocument''), s))"

definition mw_abort :: "('s \<Rightarrow> int \<Rightarrow> (exc, 'w) res) \<Rightarrow> ('s, 'w, unit) world_op" where
  "mw_abort start = bind_op (on_world (wr_abort start)) (\<lambda>_. rebind_runtime)"

definition mw_fault :: "('s, 'w, unit) world_op" where
  "mw_fault = on_world wr_fault"

definition mw_update_scene ::
  "('w \<Rightarrow> worker_shutdown) \<Rightarrow> ('s \<Rightarrow> int \<Rightarrow> (exc, 'w) res) \<Rightarrow> 's inst \<Rightarrow> ('s, 'w, unit) world_op" where
  "mw_update_scene shutdown start scene_document s =
     (case scene_document of
        Foreign \<Rightarrow> (Inl (value_error ''scene_document must be a SceneDocument''), s)
      | Instance d \<Rightarrow>
          if d = wr_scene (mw_world s) then (Inr (), s)
          else bind_op (on_world (wr_update_scene shutdown start (Instance d))) (\<lambda>_. rebind_runtime) s)"

definition mw_update_moving :: "('s \<Rightarrow> 'v) \<Rightarrow> 's inst \<Rightarrow> ('s, 'w, unit) world_op" where
  "mw_update_moving sensors scene_document = on_world (wr_update_moving sensors scene_document)"

definition mw_refresh_bindings ::
  "('w \<Rightarrow> worker_shutdown) \<Rightarrow> ('s \<Rightarrow> int \<Rightarrow> (exc, 'w) res) \<Rightarrow> bool \<Rightarrow> bool \<Rightarrow> (exc, unit) res \<Rightarrow> 's inst \<Rightarrow>
   ('s, 'w, unit) world_op" where
  \<comment> \<open>whether the ids and the snapshots are exact tuples, and what \<^verbatim>\<open>bind_scene\<close> of the backend did\<close>
  "mw_refresh_bindings shutdown start ids_tuple snapshots_tuple bound scene_document s =
     (if \<not> ids_tuple then (Inl (value_error ''terrain_body_ids must be an exact tuple''), s)
      else if \<not> snapshots_tuple then (Inl (value_error ''obstacle_snapshots must be an exact tuple''), s)
      else case bound of
             Inl e \<Rightarrow> (Inl e, s)
           | Inr _ \<Rightarrow> mw_update_scene shutdown start scene_document s)"

definition mw_bind_obstacle_manager :: "nat inst \<Rightarrow> ('s, 'w, unit) world_op" where
  "mw_bind_obstacle_manager obstacle_manager s =
     (case obstacle_manager of
        Foreign \<Rightarrow> (Inl (value_error ''obstacle_manager must be an ObstacleManager''), s)
      | Instance manager \<Rightarrow> (Inr (), s\<lparr>mw_obstacle_manager := manager\<rparr>))"

definition mw_close ::
  "runtime_env \<Rightarrow> (nat \<Rightarrow> drain_tick) \<Rightarrow> pyfloat \<Rightarrow> bool \<Rightarrow> ('w \<Rightarrow> worker_shutdown) \<Rightarrow> (exc, unit) res \<Rightarrow>
   ('s, 'w) manual_world \<Rightarrow> ((exc, unit) res \<times> ('s, 'w) manual_world) option" where
  \<comment> \<open>\<open>alive\<close> is whether the receiver's process outlives its stop; None is a drain that never returns\<close>
  "mw_close env ticks clock alive shutdown closing s =
     (case drain_sensor_outputs env ticks clock (PFloat (fl 5)) (mw_runtime s) of
        None \<Rightarrow> None
      | Some (drained, v) \<Rightarrow>
          Some (bind_op (on_runtime (\<lambda>_. (drained, v)))
                  (\<lambda>_ s. on_world (wr_close shutdown closing)
                           (s\<lparr>mw_receiver := map_option (receiver_close alive) (mw_receiver s)\<rparr>)) s))"

subsection \<open>What a change of world leaves behind\<close>

definition shared :: "('s, 'w) manual_world \<Rightarrow> bool" where
  \<comment> \<open>both runtimes hold the same controller\<close>
  "shared s \<longleftrightarrow> vr_controller (mw_runtime s) = wr_controller (mw_world s)"

definition fresh_runtime :: "('s, 'w) manual_world \<Rightarrow> bool" where
  \<comment> \<open>the runtime is the one made for the current world: nothing pending, nothing shown, time zero\<close>
  "fresh_runtime s \<longleftrightarrow>
     mw_bound_worker s = wr_worker (mw_world s)
     \<and> make_runtime (mw_robot s) (wr_controller (mw_world s)) (vr_log (mw_runtime s)) = Inr (mw_runtime s)"

definition world_ok :: "('s, 'w) manual_world \<Rightarrow> bool" where
  "world_ok s \<longleftrightarrow> consistent (mw_world s) \<and> shared s \<and> rm_name (mw_robot s) \<noteq> []"

lemma returns_bind_Inr: "returns (bind_res r (\<lambda>x. Inr (f x))) = returns r"
  by (cases r) simp_all

lemma make_runtime_returns:
  assumes "rm_name spec \<noteq> []" shows "returns (make_runtime spec rp sent)"
proof -
  have "returns new_publish_cadence" unfolding returns_iff using example_cadence_new by blast
  then show ?thesis by (simp add: make_runtime_def new_dashboard_store_def nonempty_str_id [OF assms] returns_bind_Inr)
qed

lemma make_runtime_fields:
  "make_runtime spec rp sent = Inr v \<Longrightarrow>
   vr_controller v = rp \<and> vr_log v = sent \<and> vr_factory v = AsyncFactory new_async_factory \<and> \<not> factory_pending v"
  by (auto simp: make_runtime_def res_simps factory_pending_def has_pending_def new_async_factory_def)

lemma rebind_effect:
  assumes "rm_name (mw_robot s) \<noteq> []"
  shows "\<exists>s'. rebind_runtime s = (Inr (), s') \<and> fresh_runtime s' \<and> shared s' \<and> mw_world s' = mw_world s
    \<and> mw_robot s' = mw_robot s \<and> mw_receiver s' = mw_receiver s \<and> mw_receiver_version s' = mw_receiver_version s"
proof -
  from make_runtime_returns [OF assms] obtain v where
    v: "make_runtime (mw_robot s) (wr_controller (mw_world s)) (vr_log (mw_runtime s)) = Inr v"
    by (auto simp: returns_iff)
  with make_runtime_fields [OF v] show ?thesis by (simp add: rebind_runtime_def fresh_runtime_def shared_def)
qed

lemma on_world_frame:
  assumes "on_world f s = (r, s')" and "f (mw_world s) = (r1, w)"
  shows "r = r1" "mw_world s' = w" "shared s'" "mw_robot s' = mw_robot s" "mw_bound_worker s' = mw_bound_worker s"
    "mw_runtime s' = (mw_runtime s)\<lparr>vr_controller := wr_controller w\<rparr>"
    "mw_receiver s' = mw_receiver s" "mw_receiver_version s' = mw_receiver_version s"
  using assms by (auto simp: on_world_def shared_def)

lemma idle_frame_decision:
  \<comment> \<open>without a new payload a frame only reads the mailbox\<close>
  assumes "case mw_receiver s of None \<Rightarrow> True | Some h \<Rightarrow> take_latest (PInt (mw_receiver_version s)) h m = Inr None"
    and "shared s" and "frame_decision fe m now s = (Inr d, s')"
  shows "\<exists>mb. mb_decision (PFloat now) (rp_mailbox (wr_controller (mw_world s))) = (Inr d, mb)"
proof -
  let ?first = "\<lambda>s. case mw_receiver s of None \<Rightarrow> (Inr (), s) | Some h \<Rightarrow> ingest_latest fe h m s"
  have first: "?first s = (Inr (), s)"
    using assms(1) by (auto simp: ingest_latest_def split: option.splits)
  obtain age s1 where due: "due_diagnostic now s = (Inr age, s1)" "mw_runtime s1 = mw_runtime s"
    by (cases "due_diagnostic now s") (auto simp: due_diagnostic_def split: if_splits)
  from assms(3) first due(1) obtain s2 where "on_runtime (vr_command_decision (PFloat now)) s1 = (Inr d, s2)"
    by (auto simp: frame_decision_def bind_op_def print_diagnostic_def split: prod.splits sum.splits)
  with due(2) assms(2) show ?thesis
    by (auto simp: on_runtime_def vr_command_decision_def on_protocol_def shared_def split: prod.splits)
qed

text \<open>
  C16. A change of scene stops the vehicle and starts everything afresh: after an update to another
  scene, whether it succeeded or was rolled back, nobody owns the command, and every physics frame until
  a new payload arrives gets the all-zero waiting decision for the vehicle simulated; when it succeeded
  the runtime is a new one for the new scene and generation, on the worker started for them, with an
  empty dashboard store, no capture pending and the clock at zero.
\<close>

theorem world_change_stops_vehicle:
  assumes ok: "world_ok s" and idle: "wr_prepared (mw_world s) = None"
    and room: "world_generation (wr_controller (mw_world s)) < uint64_max" and new: "d \<noteq> wr_scene (mw_world s)"
    and upd: "mw_update_scene shutdown start (Instance d) s = (r, s')"
    and quiet: "case mw_receiver s' of None \<Rightarrow> True | Some h \<Rightarrow> take_latest (PInt (mw_receiver_version s')) h m = Inr None"
    and frame: "frame_decision fe m now s' = (Inr dec, s'')"
  shows "wd_waiting dec \<and> set (wd_drive dec) \<subseteq> {f_zero} \<and> set (wd_steering dec) \<subseteq> {f_zero}
    \<and> world_ok s' \<and> lifecycle (mw_world s) < lifecycle (mw_world s')
    \<and> (case r of
         Inr u \<Rightarrow> fresh_runtime s' \<and> \<not> factory_pending (mw_runtime s') \<and> wr_scene (mw_world s') = d
           \<and> world_generation (wr_controller (mw_world s')) = world_generation (wr_controller (mw_world s)) + 1
           \<and> start d (world_generation (wr_controller (mw_world s'))) = Inr (mw_bound_worker s')
       | Inl e \<Rightarrow> wr_scene (mw_world s') = wr_scene (mw_world s)
           \<and> world_generation (wr_controller (mw_world s')) = world_generation (wr_controller (mw_world s)))"
proof -
  have c: "consistent (mw_world s)" and named: "rm_name (mw_robot s) \<noteq> []" using ok by (simp_all add: world_ok_def)
  obtain r1 w where w: "wr_update_scene shutdown start (Instance d) (mw_world s) = (r1, w)" by fastforce
  obtain s1 where s1: "on_world (wr_update_scene shutdown start (Instance d)) s = (r1, s1)"
    using w by (simp add: on_world_def)
  note f = on_world_frame [OF s1 w]
  note atomic = scene_update_parts [OF c idle room w]
  have step: "mw_update_scene shutdown start (Instance d) s = (case r1 of Inl e \<Rightarrow> (Inl e, s1) | Inr u \<Rightarrow> rebind_runtime s1)"
    using new s1 by (simp add: mw_update_scene_def bind_op_def split: sum.split)
  from f(4) named obtain s2 where s2: "rebind_runtime s1 = (Inr (), s2)" "fresh_runtime s2" "shared s2"
    "mw_world s2 = mw_world s1" "mw_robot s2 = mw_robot s1" using rebind_effect [of s1] by auto
  have s': "mw_world s' = w" "shared s'" "mw_robot s' = mw_robot s"
    using step upd s2 f by (auto split: sum.splits)
  have "unowned (wr_controller w)" using wr_update_unowned [OF c idle] w by (metis snd_conv)
  moreover have "rp_inv (wr_controller w)" using atomic by (simp add: consistent_def)
  moreover obtain mb where "mb_decision (PFloat now) (rp_mailbox (wr_controller (mw_world s'))) = (Inr dec, mb)"
    using idle_frame_decision [OF quiet s'(2) frame] by blast
  ultimately have zero: "wd_waiting dec \<and> set (wd_drive dec) \<subseteq> {f_zero} \<and> set (wd_steering dec) \<subseteq> {f_zero}"
    using unowned_decision s'(1) by blast
  have ok': "world_ok s'" using atomic s' named by (simp add: world_ok_def)
  show ?thesis
  proof (cases r1)
    case (Inl e)
    with step upd have "r = Inl e" by simp
    with zero ok' atomic s'(1) Inl show ?thesis by simp
  next
    case (Inr u)
    with step upd s2 have "r = Inr ()" "s' = s2" by simp_all
    moreover have "mw_bound_worker s2 = wr_worker w" "\<not> factory_pending (mw_runtime s2)"
      using s2 f make_runtime_fields by (auto simp: fresh_runtime_def)
    ultimately show ?thesis using zero ok' atomic s'(1) s2 Inr by auto
  qed
qed

subsection \<open>What else modelling showed\<close>

text \<open>
  An update that failed and was rolled back has started the old scene's worker again, but the runtime
  still polls the one that was closed.
\<close>

lemma failed_update_keeps_closed_worker:
  assumes "world_ok s" and "wr_prepared (mw_world s) = None" and "d \<noteq> wr_scene (mw_world s)"
    and prep: "wr_prepare shutdown (mw_world s) = (Inr (), w1)"
    and "start d (world_generation (wr_controller (mw_world s)) + 1) = Inl e"
    and "start (wr_scene (mw_world s)) (world_generation (wr_controller (mw_world s))) = Inr worker"
    and upd: "mw_update_scene shutdown start (Instance d) s = (r, s')"
  shows "r = Inl e" "wr_worker (mw_world s') = worker" "mw_bound_worker s' = mw_bound_worker s"
proof -
  have c: "consistent (mw_world s)" using assms(1) by (simp add: world_ok_def)
  note p = wr_prepare_effect [OF c assms(2) prep]
  then have w1: "consistent w1" "wr_prepared w1 = Some (wr_scene (mw_world s), wr_worker (mw_world s))"
    "world_generation (wr_controller w1) = world_generation (wr_controller (mw_world s))" by auto
  obtain ra w2 where ab: "wr_abort start w1 = (ra, w2)" by fastforce
  note a = wr_abort_effect [OF w1(1,2) ab]
  have "wr_commit start (Instance d) None w1 = (Inl e, w1)"
    using w1 assms(5) by (simp add: wr_commit_def)
  then have "wr_update_scene shutdown start (Instance d) (mw_world s) = (Inl e, w2)"
    using prep w1 ab a assms(6) by (simp add: wr_update_scene_def bind_op_def)
  with upd assms(3) have "r = Inl e" "mw_world s' = w2" "mw_bound_worker s' = mw_bound_worker s"
    by (auto simp: mw_update_scene_def on_world_def bind_op_def)
  with a w1 assms(6) show "r = Inl e" "wr_worker (mw_world s') = worker" "mw_bound_worker s' = mw_bound_worker s"
    by simp_all
qed

text \<open>
  With developer diagnostics a payload that does not decode, which the authority quietly refuses, raises
  into the physics loop: the second decoding is not guarded.
\<close>

lemma diagnostics_raise_on_bad_payload:
  assumes "mw_developer s" and "mw_receiver s = Some h"
    and "take_latest (PInt (mw_receiver_version s)) h m = Inr (Some (version, payload, received_at))"
    and "fe_decode fe payload = Inl e"
    and "accept_command_payload (fe_decode fe) (fe_notify fe) (fe_others fe) payload received_at (mw_runtime s) = (Inr accepted, v)"
  shows "fst (frame_decision fe m now s) = Inl e"
  using assms by (simp add: frame_decision_def ingest_latest_def on_runtime_def note_last_command_def bind_op_def)

text \<open>A drain that times out ends the shutdown: receiver, worker and controller stay open.\<close>

lemma close_stops_at_failed_drain:
  assumes "drain_sensor_outputs env ticks clock (PFloat (fl 5)) (mw_runtime s) = Some (Inl e, v)"
    and "mw_close env ticks clock alive shutdown closing s = Some (r, s')"
  shows "r = Inl e" "mw_receiver s' = mw_receiver s" "wr_controller (mw_world s') = vr_controller v"
  using assms by (auto simp: mw_close_def on_runtime_def bind_op_def)

subsection \<open>The property at work\<close>

definition example_manual_world :: "(nat, nat \<times> int) manual_world" where
  "example_manual_world = \<lparr>mw_developer = False, mw_robot = df_mid, mw_obstacle_manager = 0, mw_world = example_world,
     mw_runtime = example_simulator\<lparr>vr_controller := example_driven\<rparr>, mw_bound_worker = (1, 1), mw_receiver = None,
     mw_receiver_version = 0, mw_observers = [], mw_last_at = None, mw_last_accepted = None, mw_last_sequence = None,
     mw_last_drive_max = f_zero, mw_next_diagnostic_at = f_zero, mw_printed = []\<rparr>"

definition example_frame_env :: frame_env where
  "example_frame_env = \<lparr>fe_decode = \<lambda>p. Inl (value_error ''payload''), fe_notify = \<lambda>snap. Inr (), fe_others = \<lambda>rp. rp,
     fe_observe = \<lambda>ob p t. Inr ()\<rparr>"

definition example_memory :: receiver_memory where
  "example_memory = \<lparr>sm_buffer = [], sm_length = 0, sm_version = 0, sm_received_at = f_zero\<rparr>"

lemma example_updated:
  "(case mw_update_scene example_shutdown example_start (Instance 5) example_manual_world of
      (Inr u, s) \<Rightarrow> mw_receiver s = None \<and> returns (fst (frame_decision example_frame_env example_memory (Fin 9) s))
    | _ \<Rightarrow> False)"
  "wr_prepared (mw_world example_manual_world) = None"
  "world_generation (wr_controller (mw_world example_manual_world)) = 1"
  "wr_scene (mw_world example_manual_world) = 1" "rm_name (mw_robot example_manual_world) \<noteq> []"
  by code_simp+

lemma example_world_consistent: "consistent example_world"
proof -
  have "rp_inv example_driven"
    using protocol_trace_advances [OF example_driven_trace new_runtime_protocol_inv [OF example_protocol_new]]
    by (simp add: advances_def)
  then show ?thesis using example_world_outcomes(4,5) by (simp add: consistent_def example_world_def)
qed

theorem world_change_stops_vehicle_witness:
  "\<exists>s' dec s''. mw_update_scene example_shutdown example_start (Instance 5) example_manual_world = (Inr (), s')
    \<and> frame_decision example_frame_env example_memory (Fin 9) s' = (Inr dec, s'') \<and> wd_waiting dec
    \<and> set (wd_drive dec) \<subseteq> {f_zero} \<and> mw_bound_worker s' = (5, 2)"
proof -
  obtain s' where s': "mw_update_scene example_shutdown example_start (Instance 5) example_manual_world = (Inr (), s')"
    "mw_receiver s' = None" "returns (fst (frame_decision example_frame_env example_memory (Fin 9) s'))"
    using example_updated(1) by (auto split: prod.splits sum.splits)
  then obtain dec s'' where f: "frame_decision example_frame_env example_memory (Fin 9) s' = (Inr dec, s'')"
    by (metis prod.collapse returns_iff)
  have ok: "world_ok example_manual_world"
    using example_world_consistent example_updated(5)
    by (simp add: world_ok_def shared_def example_manual_world_def example_world_def)
  have quiet: "case mw_receiver s' of None \<Rightarrow> True
    | Some h \<Rightarrow> take_latest (PInt (mw_receiver_version s')) h example_memory = Inr None" using s'(2) by simp
  from world_change_stops_vehicle [OF ok example_updated(2) _ _ s'(1) quiet f] s'(1) f
  show ?thesis by (auto simp: example_updated example_start_def)
qed

end
