(* ===== verification/Coordinator.thy ===== *)
theory Coordinator
  imports WorldBuilding ManualWorld
begin

text \<open>
  The coordinator of \<^verbatim>\<open>slope_sim/coordinator.py\<close> (\<^verbatim>\<open>SimulationCoordinator\<close>): it takes the structural
  actions of the dashboard from a queue, advances one of them per physics frame, and replaces the whole
  scene in a transaction with the interface runtime (prepare, remove the old world, build and commit the new
  one, or restore the old one, or fault).  The runtime is any object with the methods the coordinator calls
  (\<open>scene_runtime\<close>), or there is none.  The client the obstacle managers share is the \<open>om_client\<close> of the
  manager in use.  Objects are compared by address where the code uses \<^verbatim>\<open>id()\<close>; the addresses are numbers, and a
  new object may get the one of an object that is gone.
\<close>

subsection \<open>State\<close>

datatype status_text =
  \<comment> \<open>the texts of the code are Chinese\<close>
  ModelAlreadyActive | ModelSwitched string | VehicleReset | ModelKept string msg | OldModelKept msg
| TerrainAlreadyActive | TerrainSwitched string | SceneLoaded | PrepareFailed msg | SceneRestored msg
| RemovalUndone msg | RemovalAborted msg | ObstacleDeleted | AddingObstacles | ClearingObstacles | PlainText msg

record switch_result =
  sw_world :: active_world
  sw_changed :: bool
  sw_reset :: bool
  sw_message :: status_text
  sw_error :: "msg option"
  sw_obstacle :: "obstacle_result option"

datatype runtime_action =
  SwitchRobot string | SwitchTerrain terrain_selection | ResetRobot | AddObstacles obstacle_request
| DeleteObstacle pyval | ClearObstacles | LoadScene scene_document | OtherAction

record 'r scene_runtime =
  \<comment> \<open>the methods of the interface runtime; an absent \<^verbatim>\<open>bind_obstacle_manager\<close> or updater does nothing\<close>
  rt_prepare :: "(exc, 'r, unit) op"
  rt_abort :: "(exc, 'r, unit) op"
  rt_fault :: "(exc, 'r, unit) op"
  rt_commit :: "robot_model_spec \<Rightarrow> scene_document \<Rightarrow> (exc, 'r, unit) op"
  rt_bind_manager :: "'r \<Rightarrow> 'r"
  rt_refresh :: "nat list \<Rightarrow> obstacle_snapshot list \<Rightarrow> scene_document \<Rightarrow> (exc, 'r, unit) op"
  rt_update :: "scene_document \<Rightarrow> (exc, 'r, unit) op"

type_synonym cache_token = "nat \<times> nat \<times> int \<times> nat"

record 'r coordinator =
  co_runtime :: "'r option"
  co_world :: active_world
  co_manager :: obstacle_manager
  co_settings :: placement_settings  \<comment> \<open>the settings of the manager\<close>
  co_sensors :: sensor_document
  co_world_at :: nat
  co_manager_at :: nat
  co_sensors_at :: nat
  co_cache :: "(cache_token \<times> scene_document) option"
  co_last :: "switch_result option"
  co_queue :: "runtime_action list"
  co_active :: "runtime_action option"
  co_synced :: nat  \<comment> \<open>\<^verbatim>\<open>_active_clear_synced_deleted_count\<close>\<close>

record coordinator_env =
  ce_world :: world_env
  ce_address :: "nat \<Rightarrow> nat"  \<comment> \<open>where the allocator would put a new object\<close>
  ce_stop :: "nat \<Rightarrow> exc option"  \<comment> \<open>commanding the vehicle to stand\<close>
  ce_step :: "nat \<Rightarrow> exc option"  \<comment> \<open>a physics step\<close>

type_synonym ('r, 'a) co_op = "(exc, 'r coordinator, 'a) op"

abbreviation co_client :: "'r coordinator \<Rightarrow> physics" where
  "co_client co \<equiv> om_client (co_manager co)"

definition on_physics :: "(exc, physics, 'a) op \<Rightarrow> ('r, 'a) co_op" where
  "on_physics f co = (case f (co_client co) of (r, p) \<Rightarrow> (r, co\<lparr>co_manager := (co_manager co)\<lparr>om_client := p\<rparr>\<rparr>))"

definition on_manager :: "'a manager_op \<Rightarrow> ('r, 'a) co_op" where
  "on_manager f co = (case f (co_manager co) of (r, m) \<Rightarrow> (r, co\<lparr>co_manager := m\<rparr>))"

definition on_interface :: "(exc, 'r, unit) op \<Rightarrow> ('r, unit) co_op" where
  \<comment> \<open>\<^verbatim>\<open>if self.interface_runtime is not None: ...\<close>\<close>
  "on_interface f co =
     (case co_runtime co of
        None \<Rightarrow> (Inr (), co)
      | Some r \<Rightarrow> (case f r of (x, r') \<Rightarrow> (x, co\<lparr>co_runtime := Some r'\<rparr>)))"

definition new_address :: "(nat \<Rightarrow> nat) \<Rightarrow> nat \<Rightarrow> nat \<Rightarrow> nat" where
  \<comment> \<open>any address but that of the object that is still there\<close>
  "new_address pick t live = (if pick t = live then Suc live else pick t)"

lemma new_address_fresh: "new_address pick t live \<noteq> live"
  by (simp add: new_address_def)

definition env_of :: "coordinator_env \<Rightarrow> 'r coordinator \<Rightarrow> manager_env" where
  \<comment> \<open>what the manager in use finds around it\<close>
  "env_of e co = manager_env_for (ce_world e) (aw_scene (co_world co)) (co_settings co)"

subsection \<open>The logical document\<close>

definition current_token :: "'r coordinator \<Rightarrow> cache_token" where
  "current_token co = (co_world_at co, co_manager_at co, om_revision (co_manager co), co_sensors_at co)"

definition same_objects :: "cache_token \<Rightarrow> cache_token \<Rightarrow> bool" where
  \<comment> \<open>all but the revision\<close>
  "same_objects t u \<longleftrightarrow> fst t = fst u \<and> fst (snd t) = fst (snd u) \<and> snd (snd (snd t)) = snd (snd (snd u))"

definition compute_document :: "planar \<Rightarrow> 'r coordinator \<Rightarrow> (exc, scene_document) res" where
  "compute_document pl co =
     (case co_cache co of
        Some (t, d) \<Rightarrow>
          if same_objects t (current_token co)
          then replace_runtime_obstacles (Instance (map Instance (fst (logical_specs (co_manager co))))) d
          else document_for_world pl (co_world co) (co_manager co) (co_sensors co)
      | None \<Rightarrow> document_for_world pl (co_world co) (co_manager co) (co_sensors co))"

definition cached_document :: "'r coordinator \<Rightarrow> scene_document option" where
  "cached_document co = (case co_cache co of Some (t, d) \<Rightarrow> if t = current_token co then Some d else None | None \<Rightarrow> None)"

definition logical_scene_document :: "planar \<Rightarrow> ('r, scene_document) co_op" where
  "logical_scene_document pl co =
     (case cached_document co of
        Some d \<Rightarrow> (Inr d, co)
      | None \<Rightarrow>
          let co1 = co\<lparr>co_manager := snd (logical_specs (co_manager co))\<rparr>
          in case compute_document pl co of
               Inl x \<Rightarrow> (Inl x, co1)
             | Inr d \<Rightarrow> (Inr d, co1\<lparr>co_cache := Some (current_token co, d)\<rparr>))"

definition new_coordinator ::
  "planar \<Rightarrow> ('r \<times> scene_document option) option \<Rightarrow> active_world \<Rightarrow> obstacle_manager \<Rightarrow> placement_settings \<Rightarrow>
   sensor_document inst option \<Rightarrow> nat \<times> nat \<times> nat \<Rightarrow> (exc, 'r coordinator) res" where
  \<comment> \<open>the constructor; a runtime comes with its \<^verbatim>\<open>scene_document\<close>, if it has one\<close>
  "new_coordinator pl runtime world m settings given addresses =
     (let start = (\<lambda>m' sn cache.
        \<lparr>co_runtime = map_option fst runtime, co_world = world, co_manager = m', co_settings = settings, co_sensors = sn,
         co_world_at = fst addresses, co_manager_at = fst (snd addresses), co_sensors_at = snd (snd addresses),
         co_cache = map_option (Pair (fst addresses, fst (snd addresses), om_revision m', snd (snd addresses))) cache,
         co_last = None, co_queue = [], co_active = None, co_synced = 0\<rparr>) in
      if given = Some Foreign then Inl (value_error ''sensor_document must be a SensorDocument'')
      else
        bind_res (case given of Some (Instance sn) \<Rightarrow> bind_res (rebuild_sensors pl sn) (\<lambda>sn. Inr (Some sn)) | _ \<Rightarrow> Inr None) (\<lambda>explicit.
          case runtime of
            Some (r, Some d) \<Rightarrow>
              bind_res (rebuild_sensors pl (doc_sensors d)) (\<lambda>sn.
              ensure (explicit = None \<or> explicit = Some sn) (value_error ''sensor_document must match runtime scene_document sensors'')
              (bind_res (document_for_world pl world m sn) (\<lambda>expected.
               ensure (d = expected) (value_error ''runtime scene_document must match coordinator logical scene'')
                 (Inr (start (snd (logical_specs m)) sn (Some expected))))))
          | _ \<Rightarrow>
              bind_res (case explicit of Some sn \<Rightarrow> Inr sn
                        | None \<Rightarrow> mk_sensor_document pl (Instance default_mounts) (Instance supported_lidar)) (\<lambda>sn.
                Inr (start m sn None))))"

definition changed_body_set :: "obstacle_result \<Rightarrow> bool" where
  \<comment> \<open>\<^verbatim>\<open>_obstacle_result_changed_body_set\<close>\<close>
  "changed_body_set r \<longleftrightarrow>
     ob_done r \<and> (if ob_operation r = ''add'' then ob_succeeded r \<and> 0 < ob_published r
                  else if ob_operation r \<in> {''delete'', ''clear''} then 0 < ob_deleted r else False)"

definition refresh_bindings :: "'r scene_runtime \<Rightarrow> planar \<Rightarrow> ('r, unit) co_op" where
  \<comment> \<open>\<^verbatim>\<open>_refresh_runtime_scene_bindings\<close>\<close>
  "refresh_bindings rt pl co =
     (if co_runtime co = None then (Inr (), co)
      else bind_op (logical_scene_document pl)
             (\<lambda>d. on_interface (rt_refresh rt (si_bodies (aw_scene (co_world co))) (snapshot True (co_manager co)) d)) co)"

subsection \<open>The scene transaction\<close>

abbreviation kept_result :: "active_world \<Rightarrow> status_text \<Rightarrow> msg \<Rightarrow> switch_result" where
  "kept_result world text reason \<equiv>
     \<lparr>sw_world = world, sw_changed = False, sw_reset = False, sw_message = text, sw_error = Some reason, sw_obstacle = None\<rparr>"

abbreviation rebuilt_result :: "active_world \<Rightarrow> status_text \<Rightarrow> msg option \<Rightarrow> switch_result" where
  "rebuilt_result world text reason \<equiv>
     \<lparr>sw_world = world, sw_changed = True, sw_reset = True, sw_message = text, sw_error = reason, sw_obstacle = None\<rparr>"

definition both_failed :: "msg \<Rightarrow> string \<Rightarrow> exc \<Rightarrow> exc" where
  "both_failed first second x = Exc RuntimeErr (first @ lit (''; '' @ second @ '' ('') @ exception_reason x @ lit '')'')"

definition prepare_rebuild :: "'r scene_runtime \<Rightarrow> ('r, switch_result option) co_op" where
  \<comment> \<open>\<open>Some\<close> when the transaction ends here, with the old scene\<close>
  "prepare_rebuild rt co =
     (case on_interface (rt_prepare rt) co of
        (Inr _, c1) \<Rightarrow> (Inr None, c1)
      | (Inl x, c1) \<Rightarrow>
          (case on_interface (rt_abort rt) c1 of
             (Inl y, c2) \<Rightarrow>
               (Inl (both_failed (lit ''prepare world rebuild failed ('' @ exception_reason x @ lit '')'') ''abort also failed'' y), c2)
           | (Inr _, c2) \<Rightarrow> (Inr (Some (kept_result (co_world c2) (PrepareFailed (exception_reason x)) (exception_reason x))), c2)))"

definition removal_failed :: "msg \<Rightarrow> msg" where
  "removal_failed reason = lit ''active world removal failed ('' @ reason @ lit '')''"

definition abort_unchanged :: "'r scene_runtime \<Rightarrow> msg \<Rightarrow> ('r, switch_result) co_op" where
  \<comment> \<open>\<^verbatim>\<open>_abort_unchanged_active_world\<close>\<close>
  "abort_unchanged rt reason co =
     (case on_interface (rt_abort rt) co of
        (Inl x, c1) \<Rightarrow> (Inl (both_failed (removal_failed reason) ''abort also failed'' x), c1)
      | (Inr _, c1) \<Rightarrow> (Inr (kept_result (co_world c1) (RemovalAborted reason) reason), c1))"

definition commit_built :: "'r scene_runtime \<Rightarrow> string \<Rightarrow> built_scene \<Rightarrow> ('r, unit) co_op" where
  \<comment> \<open>the runtime takes the new manager, then vehicle, backend and document\<close>
  "commit_built rt what b co =
     (if co_runtime co \<noteq> None \<and> bs_backend b = None
      then (Inl (runtime_error (''interface scene '' @ what @ '' has no sensor backend'')), co)
      else on_interface (\<lambda>r. rt_commit rt (ar_spec (aw_robot (bs_world b))) (bs_document b) (rt_bind_manager rt r)) co)"

definition clean_built :: "physics_env \<Rightarrow> built_scene \<Rightarrow> 'r coordinator \<Rightarrow> 'r coordinator" where
  "clean_built px b co = snd (on_physics (\<lambda>p. (Inr (), cleanup_world px (bs_world b) (bs_manager b) p)) co)"

definition replace_scene :: "coordinator_env \<Rightarrow> 'r scene_runtime \<Rightarrow> string \<Rightarrow> scene_document \<Rightarrow> ('r, built_scene) co_op" where
  \<comment> \<open>build and commit; a scene that was built and not committed is cleaned up\<close>
  "replace_scene e rt what d co =
     bind_op (on_physics (build_scene (ce_world e) (co_runtime co \<noteq> None) d (co_settings co))) (\<lambda>b.
     bind_op (cleaning (commit_built rt what b) (clean_built (we_physics (ce_world e)) b)) (\<lambda>_ c. (Inr b, c))) co"

definition install :: "coordinator_env \<Rightarrow> built_scene \<Rightarrow> sensor_document \<Rightarrow> 'r coordinator \<Rightarrow> 'r coordinator" where
  \<comment> \<open>\<^verbatim>\<open>_install_built_scene\<close>; the old objects are still there when the new ones are made\<close>
  "install e b sensors co =
     (let t = ph_calls (co_client co)
      in co\<lparr>co_world := bs_world b, co_manager := (bs_manager b)\<lparr>om_client := co_client co\<rparr>, co_settings := bs_settings b,
            co_sensors := sensors, co_world_at := new_address (ce_address e) t (co_world_at co),
            co_manager_at := new_address (ce_address e) t (co_manager_at co),
            co_sensors_at := new_address (ce_address e) t (co_sensors_at co)\<rparr>)"

definition restore_scene :: "coordinator_env \<Rightarrow> 'r scene_runtime \<Rightarrow> scene_document \<Rightarrow> msg \<Rightarrow> ('r, built_scene) co_op" where
  \<comment> \<open>the rollback to \<open>previous\<close>; when it fails too the runtime is faulted\<close>
  "restore_scene e rt previous failed co =
     (case replace_scene e rt ''rollback'' previous co of
        (Inr b, c1) \<Rightarrow> (Inr b, install e b (doc_sensors previous) c1)
      | (Inl x, c1) \<Rightarrow>
          bind_op (on_interface (rt_fault rt)) (\<lambda>_ c2. (Inl (both_failed failed ''rollback also failed'' x), c2)) c1)"

datatype removal_state = Gone | Untouched msg | Damaged msg

definition remove_old_world :: "coordinator_env \<Rightarrow> 'r scene_runtime \<Rightarrow> ('r, removal_state) co_op" where
  "remove_old_world e rt co =
     (let px = we_physics (ce_world e); owned_ids = world_body_ids (co_world co) (co_manager co) in
      case on_physics (list_bodies px) co of
        (Inl x, c1) \<Rightarrow> (Inr (Untouched (exception_reason x)), c1)
      | (Inr current, c1) \<Rightarrow>
          let present = filter (\<lambda>b. b \<in> set current) owned_ids in
          (case on_physics (remove_present px present) c1 of
             (Inr _, c2) \<Rightarrow> (Inr Gone, c2)
           | (Inl x, c2) \<Rightarrow>
               (case on_physics (list_bodies px) c2 of
                  (Inr remaining, c3) \<Rightarrow>
                    (Inr (if set present \<subseteq> set remaining then Untouched (exception_reason x) else Damaged (exception_reason x)), c3)
                | (Inl y, c3) \<Rightarrow>
                    let undiagnosed = both_failed (removal_failed (exception_reason x)) ''removal diagnosis also failed'' y in
                    (case on_interface (rt_fault rt) c3 of
                       (Inl z, c4) \<Rightarrow> (Inl (both_failed (exc_msg undiagnosed) ''fault transition also failed'' z), c4)
                     | (Inr _, c4) \<Rightarrow> (Inl undiagnosed, c4)))))"

definition recover_scene :: "coordinator_env \<Rightarrow> 'r scene_runtime \<Rightarrow> scene_document \<Rightarrow> msg \<Rightarrow> ('r, switch_result) co_op" where
  \<comment> \<open>\<^verbatim>\<open>_recover_after_partial_removal\<close>\<close>
  "recover_scene e rt previous reason co =
     (case on_physics (remove_listed (we_physics (ce_world e)) (world_body_ids (co_world co) (co_manager co))) co of
        (Inl x, c1) \<Rightarrow>
          bind_op (on_interface (rt_fault rt))
            (\<lambda>_ c2. (Inl (both_failed (removal_failed reason) ''recovery removal also failed'' x), c2)) c1
      | (Inr _, c1) \<Rightarrow>
          bind_op (restore_scene e rt previous (removal_failed reason))
            (\<lambda>b c2. (Inr (rebuilt_result (bs_world b) (RemovalUndone reason) (Some reason)), c2)) c1)"

definition install_or_restore ::
  "coordinator_env \<Rightarrow> 'r scene_runtime \<Rightarrow> scene_document \<Rightarrow> scene_document \<Rightarrow> ('r, switch_result) co_op" where
  \<comment> \<open>with the old world gone\<close>
  "install_or_restore e rt validated previous co =
     (case replace_scene e rt ''rebuild'' validated co of
        (Inr b, c1) \<Rightarrow> (Inr (rebuilt_result (bs_world b) SceneLoaded None), install e b (doc_sensors validated) c1)
      | (Inl x, c1) \<Rightarrow>
          bind_op (restore_scene e rt previous (lit ''target scene failed ('' @ exception_reason x @ lit '')''))
            (\<lambda>b c2. (Inr (rebuilt_result (bs_world b) (SceneRestored (exception_reason x)) (Some (exception_reason x))), c2)) c1)"

definition apply_transaction :: "coordinator_env \<Rightarrow> 'r scene_runtime \<Rightarrow> scene_document inst \<Rightarrow> ('r, switch_result) co_op" where
  \<comment> \<open>\<^verbatim>\<open>_apply_scene_document_transaction\<close>\<close>
  "apply_transaction e rt document =
     bind_op (lift_res (rebuild_document (we_planar (ce_world e)) document)) (\<lambda>validated.
     bind_op (logical_scene_document (we_planar (ce_world e))) (\<lambda>previous.
     bind_op (prepare_rebuild rt) (\<lambda>early.
       case early of
         Some result \<Rightarrow> lift_res (Inr result)
       | None \<Rightarrow>
           bind_op (remove_old_world e rt) (\<lambda>state.
             case state of
               Untouched reason \<Rightarrow> abort_unchanged rt reason
             | Damaged reason \<Rightarrow> recover_scene e rt previous reason
             | Gone \<Rightarrow> install_or_restore e rt validated previous))))"

definition apply_scene_document :: "coordinator_env \<Rightarrow> 'r scene_runtime \<Rightarrow> scene_document inst \<Rightarrow> ('r, switch_result) co_op" where
  "apply_scene_document e rt document co =
     (if co_active co \<noteq> None \<or> co_queue co \<noteq> []
      then (Inl (runtime_error ''pending structural action must finish before applying a scene document''), co)
      else apply_transaction e rt document co)"

subsection \<open>Replacing the vehicle alone\<close>

datatype body_removal = BodyGone | BodyRemains exc | BodyUnknown exc

definition remove_body_strict :: "physics_env \<Rightarrow> nat \<Rightarrow> physics \<Rightarrow> body_removal \<times> physics" where
  \<comment> \<open>\<^verbatim>\<open>_remove_body_strict\<close>; its exception carries whether the body remains\<close>
  "remove_body_strict px b p =
     (case remove_and_check px b p of
        (check, p') \<Rightarrow>
          (case check of
             Removed \<Rightarrow> BodyGone
           | Remained None \<Rightarrow> BodyRemains (Exc (OtherErr ''_BodyRemovalError'') (Lit ''body '' # body_label b @ lit '' remained after removeBody''))
           | Remained (Some x) \<Rightarrow>
               BodyRemains (Exc (OtherErr ''_BodyRemovalError'') (Lit ''failed to remove body '' # body_label b @ Lit '' ('' #
                 exception_reason x @ lit ''); body remained''))
           | Unknown None d \<Rightarrow>
               BodyUnknown (Exc (OtherErr ''_BodyRemovalError'') (Lit ''failed to diagnose body '' # body_label b @ Lit '' removal: '' #
                 exception_reason d))
           | Unknown (Some x) d \<Rightarrow>
               BodyUnknown (Exc (OtherErr ''_BodyRemovalError'') (Lit ''body '' # body_label b @ Lit '' removal failed ('' #
                 exception_reason x @ Lit ''); diagnosis also failed ('' # exception_reason d @ lit '')'')), p'))"

fun removal_error :: "body_removal \<Rightarrow> exc" where
  "removal_error (BodyRemains x) = x"
| "removal_error (BodyUnknown x) = x"
| "removal_error BodyGone = runtime_error []"

definition commit_robot :: "physics_env \<Rightarrow> nat \<Rightarrow> active_robot \<Rightarrow> physics \<Rightarrow> body_removal \<times> physics" where
  \<comment> \<open>\<^verbatim>\<open>_commit_manual_robot_replacement\<close>: \<open>BodyGone\<close> when the new vehicle is in use\<close>
  "commit_robot px old replacement p =
     (case remove_body_strict px old p of
        (BodyGone, p1) \<Rightarrow> (BodyGone, p1)
      | (failure, p1) \<Rightarrow>
          (case remove_body_strict px (ar_body replacement) p1 of
             (BodyGone, p2) \<Rightarrow> (failure, p2)
           | (cleanup, p2) \<Rightarrow>
               (BodyUnknown (both_failed (lit ''old robot removal failed ('' @ exception_reason (removal_error failure) @ lit '')'')
                  ''replacement cleanup also failed'' (removal_error cleanup)), p2)))"

definition replace_robot :: "coordinator_env \<Rightarrow> string \<Rightarrow> bool \<Rightarrow> ('r, switch_result) co_op" where
  \<comment> \<open>\<^verbatim>\<open>replace_manual_world_robot\<close>, and the binding of its world\<close>
  "replace_robot e robot_model force co =
     (let target = py_lower robot_model; world = co_world co; we = ce_world e in
      if \<not> force \<and> target = ar_model (aw_robot world)
      then (Inr \<lparr>sw_world = world, sw_changed = False, sw_reset = False, sw_message = ModelAlreadyActive, sw_error = None, sw_obstacle = None\<rparr>, co)
      else
        (case on_physics (load_robot we target) co of
           (Inl x, c1) \<Rightarrow> (Inr (kept_result world (ModelKept (ar_model (aw_robot world)) (exc_msg x)) (exc_msg x)), c1)
         | (Inr replacement, c1) \<Rightarrow>
             (case on_physics (\<lambda>p. case commit_robot (we_physics we) (ar_body (aw_robot world)) replacement p of (r, p1) \<Rightarrow> (Inr r, p1)) c1 of
                (Inr BodyGone, c2) \<Rightarrow>
                  let updated = world\<lparr>aw_robot := replacement\<rparr>
                  in (Inr \<lparr>sw_world = updated, sw_changed = True, sw_reset = False,
                           sw_message = (if force then VehicleReset else ModelSwitched target), sw_error = None, sw_obstacle = None\<rparr>,
                      c2\<lparr>co_world := updated, co_world_at := new_address (ce_address e) (ph_calls (co_client c2)) (co_world_at co)\<rparr>)
              | (Inr (BodyRemains x), c2) \<Rightarrow> (Inr (kept_result world (OldModelKept (exc_msg x)) (exc_msg x)), c2)
              | (Inr (BodyUnknown x), c2) \<Rightarrow>
                  (Inl (Exc RuntimeErr (Lit ''old robot removal state is unknown: '' # exception_reason x)), c2)
              | (Inl x, c2) \<Rightarrow> (Inl x, c2))))"

subsection \<open>Structural actions\<close>

definition changed_document ::
  "planar \<Rightarrow> scene_document \<Rightarrow> string \<Rightarrow> terrain_document \<Rightarrow> (exc, scene_document) res" where
  \<comment> \<open>\<^verbatim>\<open>dataclasses.replace\<close> of a document, which checks all of it again\<close>
  "changed_document pl d robot_model terrain =
     mk_scene_document pl (PInt (doc_schema_version d)) (PStr robot_model) (Instance terrain)
       (Instance (map Instance (doc_obstacles d))) (Instance (doc_sensors d))"

definition say :: "status_text \<Rightarrow> switch_result \<Rightarrow> switch_result" where
  \<comment> \<open>the text of a transaction that did not fail\<close>
  "say text r = (if sw_error r = None then r\<lparr>sw_message := text\<rparr> else r)"

definition switch_robot :: "coordinator_env \<Rightarrow> 'r scene_runtime \<Rightarrow> string \<Rightarrow> ('r, switch_result) co_op" where
  "switch_robot e rt robot_model co =
     (let target = py_lower robot_model; pl = we_planar (ce_world e) in
      if co_runtime co = None then replace_robot e robot_model False co
      else if target = ar_model (aw_robot (co_world co))
      then (Inr \<lparr>sw_world = co_world co, sw_changed = False, sw_reset = False, sw_message = ModelAlreadyActive, sw_error = None,
                sw_obstacle = None\<rparr>, co)
      else bind_op (logical_scene_document pl) (\<lambda>d.
           bind_op (lift_res (changed_document pl d target (doc_terrain d))) (\<lambda>d'.
           bind_op (apply_transaction e rt (Instance d')) (\<lambda>r. lift_res (Inr (say (ModelSwitched target) r))))) co)"

definition reset_robot :: "coordinator_env \<Rightarrow> 'r scene_runtime \<Rightarrow> ('r, switch_result) co_op" where
  "reset_robot e rt co =
     (if co_runtime co = None then replace_robot e (ar_model (aw_robot (co_world co))) True co
      else bind_op (logical_scene_document (we_planar (ce_world e))) (\<lambda>d.
           bind_op (apply_transaction e rt (Instance d)) (\<lambda>r. lift_res (Inr (say VehicleReset r)))) co)"

definition switch_terrain :: "coordinator_env \<Rightarrow> 'r scene_runtime \<Rightarrow> terrain_selection \<Rightarrow> ('r, switch_result) co_op" where
  "switch_terrain e rt terrain co =
     (let pl = we_planar (ce_world e) in
      if terrain = aw_terrain (co_world co)
      then (Inr \<lparr>sw_world = co_world co, sw_changed = False, sw_reset = False, sw_message = TerrainAlreadyActive, sw_error = None,
                sw_obstacle = None\<rparr>, co)
      else bind_op (logical_scene_document pl) (\<lambda>d.
           bind_op (lift_res (terrain_from_selection (Instance terrain))) (\<lambda>t.
           bind_op (lift_res (changed_document pl d (doc_robot_model d) t)) (\<lambda>d'.
           bind_op (apply_transaction e rt (Instance d')) (\<lambda>r. lift_res (Inr (say (TerrainSwitched (tsel_model terrain)) r)))))) co)"

definition obstacle_text :: "status_text \<Rightarrow> obstacle_result \<Rightarrow> active_world \<Rightarrow> switch_result" where
  \<comment> \<open>\<open>or_else\<close> is the text of a result without a message\<close>
  "obstacle_text or_else r world =
     \<lparr>sw_world = world, sw_changed = ob_succeeded r, sw_reset = False,
      sw_message = (if ob_message r = [] then or_else else PlainText (ob_message r)),
      sw_error = (if ob_succeeded r then None else Some (ob_message r)), sw_obstacle = Some r\<rparr>"

definition delete_obstacle :: "coordinator_env \<Rightarrow> 'r scene_runtime \<Rightarrow> pyval \<Rightarrow> ('r, switch_result) co_op" where
  "delete_obstacle e rt logical_id co =
     bind_op (on_manager (ObstacleManager.delete (env_of e co) logical_id)) (\<lambda>r.
     bind_op (if changed_body_set r then refresh_bindings rt (we_planar (ce_world e)) else lift_res (Inr ())) (\<lambda>_ c.
       (Inr (obstacle_text ObstacleDeleted r (co_world c)), c))) co"

definition started :: "runtime_action \<Rightarrow> 'r coordinator \<Rightarrow> 'r coordinator" where
  "started action co = co\<lparr>co_active := Some action\<rparr>"

definition begin_addition :: "coordinator_env \<Rightarrow> obstacle_request \<Rightarrow> ('r, unit) co_op" where
  "begin_addition e q co =
     bind_op (on_manager (begin_add (env_of e co) q)) (\<lambda>_ c. (Inr (), started (AddObstacles q) c)) co"

definition begin_clearing :: "coordinator_env \<Rightarrow> ('r, unit) co_op" where
  "begin_clearing e co =
     bind_op (on_manager (begin_clear (env_of e co))) (\<lambda>_ c. (Inr (), started ClearObstacles (c\<lparr>co_synced := 0\<rparr>))) co"

abbreviation busy_result :: "active_world \<Rightarrow> status_text \<Rightarrow> switch_result" where
  "busy_result world text \<equiv>
     \<lparr>sw_world = world, sw_changed = False, sw_reset = False, sw_message = text, sw_error = None, sw_obstacle = None\<rparr>"

definition apply_immediate :: "coordinator_env \<Rightarrow> 'r scene_runtime \<Rightarrow> runtime_action \<Rightarrow> ('r, switch_result) co_op" where
  "apply_immediate e rt action =
     (case action of
        SwitchRobot robot_model \<Rightarrow> switch_robot e rt robot_model
      | ResetRobot \<Rightarrow> reset_robot e rt
      | SwitchTerrain terrain \<Rightarrow> switch_terrain e rt terrain
      | LoadScene d \<Rightarrow> apply_transaction e rt (Instance d)
      | DeleteObstacle logical_id \<Rightarrow> delete_obstacle e rt logical_id
      | AddObstacles q \<Rightarrow> bind_op (begin_addition e q) (\<lambda>_ c. (Inr (busy_result (co_world c) AddingObstacles), c))
      | ClearObstacles \<Rightarrow> bind_op (begin_clearing e) (\<lambda>_ c. (Inr (busy_result (co_world c) ClearingObstacles), c))
      | OtherAction \<Rightarrow> lift_res (Inl (Exc TypeErr (lit ''unsupported runtime action''))))"
  \<comment> \<open>the message of the last case also shows the action\<close>

fun is_safe_stop :: "runtime_action \<Rightarrow> bool" where
  "is_safe_stop (SwitchRobot _) = True"
| "is_safe_stop (SwitchTerrain _) = True"
| "is_safe_stop ResetRobot = True"
| "is_safe_stop (LoadScene _) = True"
| "is_safe_stop _ = False"

subsection \<open>Advancing the queue\<close>

definition stop_vehicle :: "coordinator_env \<Rightarrow> runtime_action \<Rightarrow> ('r, unit) co_op" where
  \<comment> \<open>without a runtime the coordinator commands the vehicle to stand\<close>
  "stop_vehicle e action co =
     (if co_runtime co = None \<and> is_safe_stop action then on_physics (call_may_raise (ce_stop e)) co else (Inr (), co))"

definition start_next :: "coordinator_env \<Rightarrow> 'r scene_runtime \<Rightarrow> ('r, unit) co_op" where
  \<comment> \<open>\<^verbatim>\<open>_start_next_action\<close>, of a queue that is not empty\<close>
  "start_next e rt co =
     (case co_queue co of
        [] \<Rightarrow> (Inr (), co)
      | action # rest \<Rightarrow>
          bind_op (stop_vehicle e action) (\<lambda>_.
            case action of
              AddObstacles q \<Rightarrow> begin_addition e q
            | ClearObstacles \<Rightarrow> begin_clearing e
            | _ \<Rightarrow> bind_op (apply_immediate e rt action) (\<lambda>r c. (Inr (), c\<lparr>co_last := Some r\<rparr>)))
            (co\<lparr>co_queue := rest\<rparr>))"

definition sync_clear :: "'r scene_runtime \<Rightarrow> planar \<Rightarrow> obstacle_result \<Rightarrow> ('r, unit) co_op" where
  \<comment> \<open>a clear that removed another body in this frame\<close>
  "sync_clear rt pl r co =
     (if ob_operation r = ''clear'' \<and> co_synced co < ob_deleted r
      then bind_op (refresh_bindings rt pl) (\<lambda>_ c. (Inr (), c\<lparr>co_synced := ob_deleted r\<rparr>)) co
      else (Inr (), co))"

definition end_action :: "'r scene_runtime \<Rightarrow> planar \<Rightarrow> obstacle_result \<Rightarrow> ('r, unit) co_op" where
  "end_action rt pl r co =
     (if ob_done r
      then bind_op (if ob_operation r \<noteq> ''clear'' \<and> changed_body_set r then refresh_bindings rt pl else lift_res (Inr ()))
             (\<lambda>_ c. (Inr (), c\<lparr>co_synced := 0\<rparr>)) (co\<lparr>co_active := None\<rparr>)
      else (Inr (), co))"

definition advance_active :: "coordinator_env \<Rightarrow> 'r scene_runtime \<Rightarrow> ('r, switch_result) co_op" where
  "advance_active e rt co =
     (let pl = we_planar (ce_world e) in
      bind_op (on_manager (advance_pending_operation (env_of e co))) (\<lambda>result.
      case result of
        None \<Rightarrow> lift_res (Inl (runtime_error []))  \<comment> \<open>not reached\<close>
      | Some r \<Rightarrow>
          bind_op (sync_clear rt pl r) (\<lambda>_.
          bind_op (end_action rt pl r) (\<lambda>_ c. (Inr (obstacle_text (PlainText (lit (ob_operation r @ '' done''))) r (co_world c)), c)))) co)"

definition enqueue :: "runtime_action \<Rightarrow> 'r coordinator \<Rightarrow> 'r coordinator" where
  "enqueue action co = co\<lparr>co_queue := co_queue co @ [action]\<rparr>"

definition start_phase :: "coordinator_env \<Rightarrow> 'r scene_runtime \<Rightarrow> ('r, unit) co_op" where
  "start_phase e rt co = (if co_active co = None \<and> co_queue co \<noteq> [] then start_next e rt co else (Inr (), co))"

definition advance_phase :: "coordinator_env \<Rightarrow> 'r scene_runtime \<Rightarrow> ('r, unit) co_op" where
  "advance_phase e rt co =
     (if co_active co \<noteq> None then bind_op (advance_active e rt) (\<lambda>r c. (Inr (), c\<lparr>co_last := Some r\<rparr>)) co else (Inr (), co))"

definition moving_phase :: "coordinator_env \<Rightarrow> 'r scene_runtime \<Rightarrow> pyval \<Rightarrow> ('r, unit) co_op" where
  \<comment> \<open>obstacles move, and the runtime is told where they are\<close>
  "moving_phase e rt dt co =
     bind_op (on_manager (update_moving (env_of e co) dt)) (\<lambda>_ c.
       if co_runtime c \<noteq> None \<and> has_moving (co_manager c)
       then bind_op (logical_scene_document (we_planar (ce_world e))) (\<lambda>d. on_interface (rt_update rt d)) c
       else (Inr (), c)) co"

definition frame_step :: "coordinator_env \<Rightarrow> 'r scene_runtime \<Rightarrow> pyval \<Rightarrow> ('r, switch_result option) co_op" where
  \<comment> \<open>\<^verbatim>\<open>SimulationCoordinator.step\<close>\<close>
  "frame_step e rt dt =
     bind_op (start_phase e rt) (\<lambda>_.
     bind_op (advance_phase e rt) (\<lambda>_.
     bind_op (moving_phase e rt dt) (\<lambda>_.
     bind_op (on_physics (call_may_raise (ce_step e))) (\<lambda>_ c. (Inr (co_last c), c)))))"

definition drain_turn :: "coordinator_env \<Rightarrow> 'r scene_runtime \<Rightarrow> ('r, unit) co_op" where
  "drain_turn e rt co = (if co_active co \<noteq> None then advance_phase e rt co else start_next e rt co)"

partial_function (option) drain_actions ::
  "coordinator_env \<Rightarrow> 'r scene_runtime \<Rightarrow> 'r coordinator \<Rightarrow> ((exc, unit) res \<times> 'r coordinator) option" where
  "drain_actions e rt co =
     (if co_active co = None \<and> co_queue co = [] then Some (Inr (), co)
      else case drain_turn e rt co of
             (Inl x, c1) \<Rightarrow> Some (Inl x, c1)
           | (Inr _, c1) \<Rightarrow> drain_actions e rt c1)"

partial_function (option) finish_active ::
  "coordinator_env \<Rightarrow> 'r scene_runtime \<Rightarrow> switch_result \<Rightarrow> 'r coordinator \<Rightarrow> ((exc, switch_result) res \<times> 'r coordinator) option" where
  "finish_active e rt result co =
     (if co_active co = None then Some (Inr result, co)
      else case advance_active e rt co of
             (Inl x, c1) \<Rightarrow> Some (Inl x, c1)
           | (Inr r, c1) \<Rightarrow> finish_active e rt r c1)"

definition apply_action ::
  "coordinator_env \<Rightarrow> 'r scene_runtime \<Rightarrow> runtime_action \<Rightarrow> 'r coordinator \<Rightarrow> ((exc, switch_result) res \<times> 'r coordinator) option" where
  \<comment> \<open>None is a call that does not return\<close>
  "apply_action e rt action co =
     (case drain_actions e rt co of
        None \<Rightarrow> None
      | Some (Inl x, c1) \<Rightarrow> Some (Inl x, c1)
      | Some (Inr _, c1) \<Rightarrow>
          (case bind_op (stop_vehicle e action) (\<lambda>_. apply_immediate e rt action) c1 of
             (Inl x, c2) \<Rightarrow> Some (Inl x, c2)
           | (Inr r, c2) \<Rightarrow>
               (case finish_active e rt r c2 of
                  None \<Rightarrow> None
                | Some (Inl x, c3) \<Rightarrow> Some (Inl x, c3)
                | Some (Inr r', c3) \<Rightarrow> Some (Inr r', c3\<lparr>co_last := Some r'\<rparr>))))"

end
