(* ===== verification/SceneTransactions.thy ===== *)
theory SceneTransactions
  imports Coordinator SceneStorage
begin

text \<open>
  What a change of vehicle, terrain or scene through the coordinator leaves behind, returned or raised: for
  any runtime that keeps the laws of \<open>rebuild_runtime\<close>, and for \<^verbatim>\<open>V2ManualWorldRuntime\<close>, which keeps them
  (C1, C29).
\<close>

subsection \<open>Client and runtime of a coordinator\<close>

definition with_state :: "'r coordinator \<Rightarrow> physics \<Rightarrow> 'r \<Rightarrow> 'r coordinator" where
  "with_state co p r = co\<lparr>co_manager := (co_manager co)\<lparr>om_client := p\<rparr>, co_runtime := Some r\<rparr>"

lemma with_state_same: "co_runtime co = Some r \<Longrightarrow> with_state co (co_client co) r = co"
  by (cases co) (simp add: with_state_def)

lemma with_state_simps [simp]:
  "co_runtime (with_state co p r) = Some r" "co_client (with_state co p r) = p" "co_world (with_state co p r) = co_world co"
  "co_settings (with_state co p r) = co_settings co" "co_sensors (with_state co p r) = co_sensors co"
  "co_cache (with_state co p r) = co_cache co" "co_world_at (with_state co p r) = co_world_at co"
  "co_manager_at (with_state co p r) = co_manager_at co" "co_sensors_at (with_state co p r) = co_sensors_at co"
  "with_state (with_state co p r) p' r' = with_state co p' r'"
  "co_manager (with_state co p r) = (co_manager co)\<lparr>om_client := p\<rparr>"
  by (simp_all add: with_state_def)

lemma on_physics_state [simp]:
  "on_physics f (with_state co p r) = (case f p of (x, p') \<Rightarrow> (x, with_state co p' r))"
  by (simp add: on_physics_def with_state_def split: prod.split)

lemma on_interface_state [simp]:
  "on_interface f (with_state co p r) = (case f r of (x, r') \<Rightarrow> (x, with_state co p r'))"
  by (simp add: on_interface_def with_state_def split: prod.split)

lemma owned_ids_client [simp]:
  "pending_body_ids (m\<lparr>om_client := p\<rparr>) = pending_body_ids m" "record_ids (m\<lparr>om_client := p\<rparr>) = record_ids m"
  "world_body_ids w (m\<lparr>om_client := p\<rparr>) = world_body_ids w m"
  by (simp_all add: pending_body_ids_def temporary_ids_def candidate_ids_def candidates_def record_ids_def world_body_ids_def)

lemma specs_client [simp]: "fst (logical_specs (m\<lparr>om_client := p\<rparr>)) = fst (logical_specs m)"
  by (simp add: logical_specs_def Let_def)

lemma document_client [simp]: "document_for_world pl w (m\<lparr>om_client := p\<rparr>) sn = document_for_world pl w m sn"
  by (simp add: document_for_world_def)

lemma token_state [simp]: "current_token (with_state co p r) = current_token co"
  by (simp add: current_token_def)

lemma remove_old_effect:
  assumes "physics_ok p" and "remove_old_world e rt (with_state co p r) = (x, co')"
  shows "(\<exists>st p'. x = Inr st \<and> co' = with_state co p' r \<and> physics_ok p' \<and> (\<forall>reason. st = Untouched reason \<longrightarrow> same_bodies p p'))
    \<or> (\<exists>err p' z r'. x = Inl err \<and> co' = with_state co p' r' \<and> rt_fault rt r = (z, r'))"
proof -
  let ?px = "we_physics (ce_world e)" and ?owned = "world_body_ids (co_world co) (co_manager co)"
  obtain l1 p1 where l1: "list_bodies ?px p = (l1, p1)" by fastforce
  note e1 = list_bodies_effect [OF l1]
  show ?thesis
  proof (cases l1)
    case (Inl d)
    with assms(2) l1 have "x = Inr (Untouched (exception_reason d))" "co' = with_state co p1 r"
      by (simp_all add: remove_old_world_def Let_def)
    moreover have "same_bodies p p1" "physics_ok p1" using e1 assms(1) by (simp_all add: same_bodies_count)
    ultimately show ?thesis by blast
  next
    case (Inr current)
    let ?present = "filter (\<lambda>b. b \<in> set current) ?owned"
    obtain s p2 where s: "remove_present ?px ?present p1 = (s, p2)" by fastforce
    have ok1: "physics_ok p1" using e1 assms(1) by simp
    note e2 = remove_present_effect [OF ok1 s]
    show ?thesis
    proof (cases s)
      case (Inr u)
      with assms(2) l1 \<open>l1 = Inr current\<close> s have "x = Inr Gone" "co' = with_state co p2 r"
        by (simp_all add: remove_old_world_def Let_def)
      with removes_ok [OF e2] show ?thesis by blast
    next
      case s': (Inl y)
      obtain l2 p3 where l2: "list_bodies ?px p2 = (l2, p3)" by fastforce
      note e3 = list_bodies_effect [OF l2]
      have ok3: "physics_ok p3" using e3 e2 by (simp add: removes_ok)
      show ?thesis
      proof (cases l2)
        case l2': (Inl d)
        obtain z r' where "rt_fault rt r = (z, r')" by fastforce
        moreover from this assms(2) l1 Inr s s' l2 l2' have "\<exists>err. x = Inl err \<and> co' = with_state co p3 r'"
          by (cases z) (auto simp: remove_old_world_def Let_def)
        ultimately show ?thesis by blast
      next
        case l2': (Inr remaining)
        have "same_bodies p p3" if "set ?present \<subseteq> set remaining"
        proof -
          have "set ?present \<inter> set (ph_bodies p1) \<subseteq> set (ph_bodies p2)" using that e3 l2' by auto
          from removes_nothing [OF e2 this] have "same_bodies p1 p2" .
          then show ?thesis using e1 e3 ok3 by (simp add: same_bodies_def)
        qed
        moreover have "x = Inr (if set ?present \<subseteq> set remaining then Untouched (exception_reason y) else Damaged (exception_reason y))"
            "co' = with_state co p3 r"
          using assms(2) l1 Inr s s' l2 l2' by (simp_all add: remove_old_world_def Let_def)
        ultimately show ?thesis using ok3 by (auto simp del: set_filter)
      qed
    qed
  qed
qed

lemma replace_scene_effect:
  assumes "identified (we_physics (ce_world e))" and "replace_scene e rt what d (with_state co p r) = (y, co')"
  shows "\<exists>p' r'. co' = with_state co p' r' \<and>
    (case y of
       Inr b \<Rightarrow> built_ok (ce_world e) True d b p' \<and>
         rt_commit rt (ar_spec (aw_robot (bs_world b))) (bs_document b) (rt_bind_manager rt r) = (Inr (), r')
     | Inl x \<Rightarrow> r' = r \<or> (\<exists>spec d z. rt_commit rt spec d (rt_bind_manager rt r) = (z, r')))"
proof -
  obtain k p1 where k: "build_scene (ce_world e) True d (co_settings co) p = (k, p1)" by fastforce
  show ?thesis
  proof (cases k)
    case (Inl x)
    with assms(2) k have "y = Inl x" "co' = with_state co p1 r" by (auto simp: replace_scene_def bind_op_def)
    then show ?thesis by auto
  next
    case (Inr b)
    note ok = build_scene_ok [OF assms(1) k [unfolded Inr]]
    then obtain cs where "bs_backend b = Some cs" by (auto simp: built_ok_def)
    then have commit: "commit_built rt what b (with_state co p1 r)
        = (case rt_commit rt (ar_spec (aw_robot (bs_world b))) (bs_document b) (rt_bind_manager rt r) of (z, r') \<Rightarrow> (z, with_state co p1 r'))"
      by (simp add: commit_built_def)
    obtain z r' where z: "rt_commit rt (ar_spec (aw_robot (bs_world b))) (bs_document b) (rt_bind_manager rt r) = (z, r')" by fastforce
    show ?thesis
    proof (cases z)
      case z': (Inl x)
      obtain p2 where "clean_built (we_physics (ce_world e)) b (with_state co p1 r') = with_state co p2 r'"
        by (simp add: clean_built_def)
      with assms(2) k Inr commit z z' have "y = Inl x" "co' = with_state co p2 r'"
        by (auto simp: replace_scene_def bind_op_def cleaning_def)
      moreover have "\<exists>spec d z. rt_commit rt spec d (rt_bind_manager rt r) = (z, r')" using z by blast
      ultimately show ?thesis by (intro exI [of _ p2] exI [of _ r']) simp
    next
      case z': (Inr u)
      with assms(2) k Inr commit z have "y = Inr b" "co' = with_state co p1 r'"
        by (auto simp: replace_scene_def bind_op_def cleaning_def)
      with z z' ok show ?thesis by auto
    qed
  qed
qed

subsection \<open>A runtime that can be rebuilt\<close>

definition settled :: "('r \<Rightarrow> bool) \<Rightarrow> ('r \<Rightarrow> bool) \<Rightarrow> 'r coordinator \<Rightarrow> bool" where
  \<comment> \<open>the coordinator's runtime keeps its invariant and no rebuild is prepared\<close>
  "settled ok prepared co \<longleftrightarrow> (\<exists>r. co_runtime co = Some r \<and> ok r \<and> \<not> prepared r)"

lemma settled_state [simp]: "settled ok prepared (with_state co p r) \<longleftrightarrow> ok r \<and> \<not> prepared r"
  by (simp add: settled_def)

lemma settled_install [simp]: "settled ok prepared (install e b sn co) = settled ok prepared co"
  by (simp add: settled_def install_def Let_def)

definition in_use ::
  "('r \<Rightarrow> scene_document) \<Rightarrow> coordinator_env \<Rightarrow> scene_document \<Rightarrow> built_scene \<Rightarrow> 'r coordinator \<Rightarrow> 'r coordinator \<Rightarrow> bool" where
  \<comment> \<open>the scene built from \<open>d\<close> was committed and installed, in place of the world of \<open>co\<close>\<close>
  "in_use scene_of e d b co co' \<longleftrightarrow>
     (\<exists>p r. co' = install e b (doc_sensors d) (with_state co p r) \<and> built_ok (ce_world e) True d b p \<and> scene_of r = bs_document b)"

definition whole :: "'r coordinator \<Rightarrow> bool" where
  \<comment> \<open>terrain and vehicle are there, and every other body is the obstacle manager's\<close>
  "whole co \<longleftrightarrow> om_inv (world_bodies (co_world co)) (co_manager co) \<and> ar_body (aw_robot (co_world co)) \<notin> set (si_bodies (aw_scene (co_world co)))"

definition aligned :: "('r \<Rightarrow> scene_document) \<Rightarrow> planar \<Rightarrow> 'r coordinator \<Rightarrow> bool" where
  \<comment> \<open>the document the runtime works with is the one the coordinator gives\<close>
  "aligned scene_of pl co \<longleftrightarrow> (\<exists>r. co_runtime co = Some r \<and> fst (logical_scene_document pl co) = Inr (scene_of r))"

lemma logical_effect:
  assumes "logical_scene_document pl co = (Inr d, co1)"
  shows "co_runtime co1 = co_runtime co \<and> co_client co1 = co_client co \<and> co_world co1 = co_world co \<and> co_settings co1 = co_settings co
    \<and> (\<forall>F. om_inv F (co_manager co1) = om_inv F (co_manager co)) \<and> co_cache co1 = Some (current_token co1, d)"
proof (cases "cached_document co")
  case None
  have same: "current_token (co\<lparr>co_manager := snd (logical_specs (co_manager co)), co_cache := c\<rparr>) = current_token co" for c
    by (simp add: current_token_def logical_specs_def Let_def)
  from None assms have "co1 = co\<lparr>co_manager := snd (logical_specs (co_manager co)), co_cache := Some (current_token co, d)\<rparr>"
    by (auto simp: logical_scene_document_def Let_def split: sum.splits)
  then show ?thesis by (simp add: same)
next
  case (Some d')
  with assms have "co1 = co" "d' = d" by (simp_all add: logical_scene_document_def)
  with Some show ?thesis by (auto simp: cached_document_def split: option.splits if_splits)
qed

lemma logical_runtime: "logical_scene_document pl co = (l, co1) \<Longrightarrow> co_runtime co1 = co_runtime co"
  by (auto simp: logical_scene_document_def Let_def split: option.splits sum.splits)

lemma cached_logical: "co_cache co = Some (current_token co, d) \<Longrightarrow> logical_scene_document pl co = (Inr d, co)"
  by (simp add: logical_scene_document_def cached_document_def)

lemma in_use_whole: "in_use scene_of e d b co co' \<Longrightarrow> whole co' \<and> co_world co' = bs_world b"
  by (auto simp: in_use_def whole_def install_def built_ok_def Let_def)

lemma in_use_built: "in_use scene_of e d b co co' \<Longrightarrow> built_from (ce_world e) d (co_world co') (co_settings co') (co_manager co')"
  by (auto simp: in_use_def install_def built_ok_def built_from_def Let_def)

lemma in_use_aligned:
  assumes "in_use scene_of e d b co co'" and cache: "co_cache co = Some (current_token co, d0)"
  shows "aligned scene_of (we_planar (ce_world e)) co'"
proof -
  from assms(1) obtain p r where co': "co' = install e b (doc_sensors d) (with_state co p r)"
    and b: "built_ok (ce_world e) True d b p" "scene_of r = bs_document b" by (auto simp: in_use_def)
  have world: "co_world_at co' \<noteq> co_world_at co"
    unfolding co' install_def Let_def using new_address_fresh by simp
  have "co_cache co' = Some (current_token co, d0)" using cache by (simp add: co' install_def Let_def)
  with world have "compute_document (we_planar (ce_world e)) co' =
      document_for_world (we_planar (ce_world e)) (co_world co') (co_manager co') (co_sensors co')"
    "cached_document co' = None"
    by (auto simp: compute_document_def cached_document_def same_objects_def current_token_def)
  moreover have "document_for_world (we_planar (ce_world e)) (co_world co') (co_manager co') (co_sensors co') = Inr (bs_document b)"
    using b(1) by (simp add: co' install_def Let_def built_ok_def)
  ultimately have "fst (logical_scene_document (we_planar (ce_world e)) co') = Inr (bs_document b)"
    by (simp add: logical_scene_document_def Let_def)
  then show ?thesis by (simp add: aligned_def b(2) co' install_def Let_def)
qed

lemma through_document:
  assumes "bind_op (logical_scene_document pl) (\<lambda>d. bind_op (lift_res (f d)) (\<lambda>d'.
      bind_op (apply_transaction e rt (Instance d')) (\<lambda>r. lift_res (Inr (say t r))))) co = (x, co')"
  shows "(\<exists>err. x = Inl err \<and> co_runtime co' = co_runtime co) \<or>
    (\<exists>d co1 d' y. logical_scene_document pl co = (Inr d, co1) \<and> apply_transaction e rt (Instance d') co1 = (y, co')
       \<and> x = bind_res y (\<lambda>r. Inr (say t r)))"
proof -
  obtain l co1 where l: "logical_scene_document pl co = (l, co1)" by fastforce
  show ?thesis
  proof (cases l)
    case (Inl err)
    with assms l have "x = Inl err" "co' = co1" by (simp_all add: bind_op_def)
    with logical_runtime [OF l] show ?thesis by simp
  next
    case (Inr d)
    show ?thesis
    proof (cases "f d")
      case (Inl err)
      with assms l Inr have "x = Inl err" "co' = co1" by (simp_all add: bind_op_def lift_res_def)
      with logical_runtime [OF l] show ?thesis by simp
    next
      case f: (Inr d')
      obtain y co2 where y: "apply_transaction e rt (Instance d') co1 = (y, co2)" by fastforce
      with assms l Inr f have "(case y of Inl err \<Rightarrow> (Inl err, co2) | Inr r \<Rightarrow> (Inr (say t r), co2)) = (x, co')"
        by (simp add: bind_op_def lift_res_def cong: sum.case_cong)
      then have "x = bind_res y (\<lambda>r. Inr (say t r))" "co' = co2" by (cases y, auto)+
      with l Inr y show ?thesis by blast
    qed
  qed
qed

lemma say_same [simp]: "sw_world (say t r) = sw_world r" "sw_error (say t r) = sw_error r"
  by (simp_all add: say_def)

lemma lift_bind: "bind_op (lift_res r) (\<lambda>a. bind_op (lift_res (f a)) g) = bind_op (lift_res (bind_res r f)) g"
  by (rule ext) (simp add: bind_op_def lift_res_def split: sum.split)

lemma action_cases:
  assumes "is_safe_stop action" "co_runtime co = Some r" "apply_immediate e rt action co = (x, co')"
  shows "(\<exists>err. x = Inl err \<and> co_runtime co' = co_runtime co)
    \<or> (\<exists>res. x = Inr res \<and> co' = co \<and> sw_world res = co_world co \<and> sw_error res = None \<and> (\<nexists>d. action = LoadScene d))
    \<or> (\<exists>t d0 co1 d y. logical_scene_document (we_planar (ce_world e)) co = (Inr d0, co1) \<and> (\<nexists>d. action = LoadScene d)
         \<and> apply_transaction e rt (Instance d) co1 = (y, co') \<and> x = bind_res y (\<lambda>r. Inr (say t r)))
    \<or> (\<exists>d. action = LoadScene d \<and> apply_transaction e rt (Instance d) co = (x, co'))"
proof (cases action)
  case (SwitchRobot n)
  then have no: "\<nexists>d. action = LoadScene d" by simp
  show ?thesis
  proof (cases "py_lower n = ar_model (aw_robot (co_world co))")
    case True
    with SwitchRobot assms(2,3) show ?thesis by (simp add: apply_immediate_def switch_robot_def Let_def) auto
  next
    case False
    with SwitchRobot assms(2,3) have "bind_op (logical_scene_document (we_planar (ce_world e))) (\<lambda>d.
        bind_op (lift_res (changed_document (we_planar (ce_world e)) d (py_lower n) (doc_terrain d))) (\<lambda>d'.
        bind_op (apply_transaction e rt (Instance d')) (\<lambda>r. lift_res (Inr (say (ModelSwitched (py_lower n)) r))))) co = (x, co')"
      by (simp add: apply_immediate_def switch_robot_def Let_def)
    from through_document [OF this] no show ?thesis by blast
  qed
next
  case (SwitchTerrain terrain)
  then have no: "\<nexists>d. action = LoadScene d" by simp
  show ?thesis
  proof (cases "terrain = aw_terrain (co_world co)")
    case True
    with SwitchTerrain assms(3) show ?thesis by (simp add: apply_immediate_def switch_terrain_def Let_def) auto
  next
    case False
    with SwitchTerrain assms(3) have "bind_op (logical_scene_document (we_planar (ce_world e))) (\<lambda>d.
        bind_op (lift_res (bind_res (terrain_from_selection (Instance terrain))
          (\<lambda>t. changed_document (we_planar (ce_world e)) d (doc_robot_model d) t))) (\<lambda>d'.
        bind_op (apply_transaction e rt (Instance d')) (\<lambda>r. lift_res (Inr (say (TerrainSwitched (tsel_model terrain)) r))))) co = (x, co')"
      by (simp add: apply_immediate_def switch_terrain_def Let_def lift_bind)
    from through_document [OF this] no show ?thesis by blast
  qed
next
  case ResetRobot
  then have no: "\<nexists>d. action = LoadScene d" by simp
  have same: "bind_op (lift_res (Inr d)) g = g d" for d :: scene_document and g :: "scene_document \<Rightarrow> ('a, switch_result) co_op"
    by (rule ext) (simp add: bind_op_def lift_res_def)
  from ResetRobot assms(2,3) have "bind_op (logical_scene_document (we_planar (ce_world e))) (\<lambda>d.
        bind_op (lift_res (Inr d)) (\<lambda>d'.
        bind_op (apply_transaction e rt (Instance d')) (\<lambda>r. lift_res (Inr (say VehicleReset r))))) co = (x, co')"
    unfolding same by (simp add: apply_immediate_def reset_robot_def)
  from through_document [OF this] no show ?thesis by blast
next
  case (LoadScene d)
  with assms(3) show ?thesis by (simp add: apply_immediate_def)
qed (use assms(1) in simp_all)

text \<open>A coordinator with a runtime begins in agreement with it.\<close>

lemma new_coordinator_aligned:
  assumes "new_coordinator pl (Some (r, Some (scene_of r))) world m settings given addresses = Inr co"
  shows "aligned scene_of pl co \<and> co_runtime co = Some r \<and> co_world co = world
    \<and> (\<forall>F. om_inv F (co_manager co) = om_inv F m)"
proof -
  from assms obtain sn where "co_runtime co = Some r" "co_world co = world" "co_manager co = snd (logical_specs m)"
    "co_cache co = Some (current_token co, scene_of r)"
    by (auto simp: new_coordinator_def Let_def res_simps ensure_Inr_iff current_token_def split: if_splits)
  then show ?thesis using cached_logical [of co "scene_of r"] by (simp add: aligned_def)
qed

locale rebuild_runtime =
  fixes rt :: "'r scene_runtime" and ok :: "'r \<Rightarrow> bool" and prepared :: "'r \<Rightarrow> bool" and scene_of :: "'r \<Rightarrow> scene_document"
  assumes prepare_keeps: "ok r \<Longrightarrow> \<not> prepared r \<Longrightarrow> rt_prepare rt r = (x, r1) \<Longrightarrow> ok r1 \<and> scene_of r1 = scene_of r"
    and abort_ends: "ok r \<Longrightarrow> \<not> prepared r \<Longrightarrow> rt_prepare rt r = (x, r1) \<Longrightarrow> rt_abort rt r1 = (y, r2) \<Longrightarrow>
      ok r2 \<and> \<not> prepared r2 \<and> (y = Inr () \<longrightarrow> scene_of r2 = scene_of r)"
    and commit_ends: "ok r \<Longrightarrow> rt_commit rt spec d (rt_bind_manager rt r) = (y, r1) \<Longrightarrow>
      ok r1 \<and> (y = Inr () \<longrightarrow> \<not> prepared r1 \<and> scene_of r1 = d)"
    and fault_ends: "ok r \<Longrightarrow> rt_fault rt r = (y, r1) \<Longrightarrow> ok r1 \<and> \<not> prepared r1"
begin

lemma replace_scene_settles:
  assumes "identified (we_physics (ce_world e))" and "ok r" and "replace_scene e rt what d (with_state co p r) = (y, co1)"
  shows "\<exists>p' r'. co1 = with_state co p' r' \<and> ok r' \<and> (\<forall>b. y = Inr b \<longrightarrow> \<not> prepared r' \<and> scene_of r' = bs_document b
    \<and> built_ok (ce_world e) True d b p')"
proof -
  obtain p' r' where e: "co1 = with_state co p' r'" "case y of
       Inr b \<Rightarrow> built_ok (ce_world e) True d b p' \<and>
         rt_commit rt (ar_spec (aw_robot (bs_world b))) (bs_document b) (rt_bind_manager rt r) = (Inr (), r')
     | Inl x \<Rightarrow> r' = r \<or> (\<exists>spec d z. rt_commit rt spec d (rt_bind_manager rt r) = (z, r'))"
    using replace_scene_effect [OF assms(1,3)] by blast
  show ?thesis
  proof (cases y)
    case (Inl x)
    with e assms(2) commit_ends have "ok r'" by auto
    with e(1) Inl show ?thesis by blast
  next
    case (Inr b)
    with e have "ok r' \<and> \<not> prepared r' \<and> scene_of r' = bs_document b" using commit_ends [OF assms(2)] by auto
    with e Inr show ?thesis by (intro exI [of _ p'] exI [of _ r']) auto
  qed
qed

lemma fault_settles:
  assumes "ok r" and "bind_op (on_interface (rt_fault rt)) (\<lambda>_ c. (Inl x, c)) (with_state co p r) = (y, co1)"
  shows "settled ok prepared co1 \<and> (\<exists>x'. y = Inl x')"
proof -
  obtain z r' where z: "rt_fault rt r = (z, r')" by fastforce
  from fault_ends [OF assms(1) z] assms(2) z show ?thesis by (cases z) (auto simp: bind_op_def)
qed

lemma restore_scene_settles:
  assumes "identified (we_physics (ce_world e))" and "ok r" and "restore_scene e rt previous failed (with_state co p r) = (y, co1)"
  shows "settled ok prepared co1 \<and> (\<forall>b. y = Inr b \<longrightarrow> in_use scene_of e previous b co co1)"
proof -
  obtain z co2 where z: "replace_scene e rt ''rollback'' previous (with_state co p r) = (z, co2)" by fastforce
  from replace_scene_settles [OF assms(1,2) z] obtain p' r' where c: "co2 = with_state co p' r'" "ok r'"
    "\<forall>b. z = Inr b \<longrightarrow> \<not> prepared r' \<and> scene_of r' = bs_document b \<and> built_ok (ce_world e) True previous b p'" by blast
  show ?thesis
  proof (cases z)
    case (Inl x)
    with assms(3) z c(1) have "bind_op (on_interface (rt_fault rt)) (\<lambda>_ c. (Inl (both_failed failed ''rollback also failed'' x), c))
        (with_state co p' r') = (y, co1)" by (simp add: restore_scene_def)
    from fault_settles [OF c(2) this] show ?thesis by auto
  next
    case (Inr b)
    with assms(3) z have "y = Inr b" "co1 = install e b (doc_sensors previous) co2" by (simp_all add: restore_scene_def)
    with c Inr show ?thesis by (auto simp: in_use_def)
  qed
qed

lemma prepare_cases:
  assumes "ok r" "\<not> prepared r" and "prepare_rebuild rt (with_state co p r) = (x, co1)"
  shows "(\<exists>r1. x = Inr None \<and> co1 = with_state co p r1 \<and> ok r1 \<and> rt_prepare rt r = (Inr (), r1))
    \<or> (\<exists>r2. co1 = with_state co p r2 \<and> ok r2 \<and> \<not> prepared r2 \<and> ((\<exists>e. x = Inl e)
        \<or> (\<exists>res. x = Inr (Some res) \<and> sw_error res \<noteq> None \<and> sw_world res = co_world co \<and> scene_of r2 = scene_of r)))"
proof -
  obtain y r1 where y: "rt_prepare rt r = (y, r1)" by fastforce
  show ?thesis
  proof (cases y)
    case (Inr u)
    with assms(3) y have "x = Inr None" "co1 = with_state co p r1" by (simp_all add: prepare_rebuild_def)
    moreover have "ok r1" using prepare_keeps [OF assms(1,2) y] by simp
    ultimately show ?thesis using y Inr by simp
  next
    case (Inl err)
    obtain z r2 where z: "rt_abort rt r1 = (z, r2)" by fastforce
    note k = abort_ends [OF assms(1,2) y z]
    show ?thesis
    proof (cases z)
      case z': (Inl e2)
      with assms(3) y z Inl have "\<exists>e. x = Inl e" "co1 = with_state co p r2" by (auto simp: prepare_rebuild_def)
      with k show ?thesis by blast
    next
      case z': (Inr u)
      with assms(3) y z Inl have "\<exists>res. x = Inr (Some res) \<and> sw_error res \<noteq> None \<and> sw_world res = co_world co"
        "co1 = with_state co p r2" by (auto simp: prepare_rebuild_def)
      with k z' show ?thesis by (metis old.unit.exhaust)
    qed
  qed
qed

lemma abort_cases:
  assumes "ok r" "\<not> prepared r" "rt_prepare rt r = (Inr (), r1)" and "abort_unchanged rt reason (with_state co p r1) = (x, co1)"
  shows "\<exists>r2. co1 = with_state co p r2 \<and> ok r2 \<and> \<not> prepared r2
    \<and> (\<forall>res. x = Inr res \<longrightarrow> sw_error res \<noteq> None \<and> sw_world res = co_world co \<and> scene_of r2 = scene_of r)"
proof -
  obtain z r2 where z: "rt_abort rt r1 = (z, r2)" by fastforce
  note k = abort_ends [OF assms(1,2,3) z]
  show ?thesis
  proof (cases z)
    case (Inl err)
    with assms(4) z have "\<exists>e. x = Inl e" "co1 = with_state co p r2" by (auto simp: abort_unchanged_def)
    with k show ?thesis by blast
  next
    case (Inr u)
    with assms(4) z have "x = Inr (kept_result (co_world co) (RemovalAborted reason) reason)" "co1 = with_state co p r2"
      by (simp_all add: abort_unchanged_def)
    with k Inr show ?thesis by (intro exI [of _ r2]) simp
  qed
qed

lemma recover_cases:
  assumes "identified (we_physics (ce_world e))" and "ok r" and "recover_scene e rt previous reason (with_state co p r) = (x, co1)"
  shows "settled ok prepared co1 \<and> (\<forall>res. x = Inr res \<longrightarrow> sw_error res \<noteq> None
    \<and> (\<exists>b. sw_world res = bs_world b \<and> in_use scene_of e previous b co co1))"
proof -
  obtain y p1 where y: "remove_listed (we_physics (ce_world e)) (world_body_ids (co_world co) (co_manager co)) p = (y, p1)" by fastforce
  show ?thesis
  proof (cases y)
    case (Inl err)
    with assms(3) y have "bind_op (on_interface (rt_fault rt))
        (\<lambda>_ c. (Inl (both_failed (removal_failed reason) ''recovery removal also failed'' err), c)) (with_state co p1 r) = (x, co1)"
      by (simp add: recover_scene_def)
    from fault_settles [OF assms(2) this] show ?thesis by auto
  next
    case (Inr u)
    obtain z co2 where z: "restore_scene e rt previous (removal_failed reason) (with_state co p1 r) = (z, co2)" by fastforce
    note k = restore_scene_settles [OF assms(1,2) z]
    show ?thesis
    proof (cases z)
      case z': (Inl err)
      with assms(3) y Inr z have "x = Inl err" "co1 = co2" by (simp_all add: recover_scene_def bind_op_def)
      with k show ?thesis by simp
    next
      case z': (Inr b)
      with assms(3) y Inr z have "x = Inr (rebuilt_result (bs_world b) (RemovalUndone reason) (Some reason))" "co1 = co2"
        by (simp_all add: recover_scene_def bind_op_def)
      with k z' show ?thesis by auto
    qed
  qed
qed

lemma install_cases:
  assumes "identified (we_physics (ce_world e))" and "ok r" and "install_or_restore e rt validated previous (with_state co p r) = (x, co1)"
  shows "settled ok prepared co1 \<and> (\<forall>res. x = Inr res \<longrightarrow> (\<exists>b. sw_world res = bs_world b
    \<and> in_use scene_of e (if sw_error res = None then validated else previous) b co co1))"
proof -
  obtain y co2 where y: "replace_scene e rt ''rebuild'' validated (with_state co p r) = (y, co2)" by fastforce
  from replace_scene_settles [OF assms(1,2) y] obtain p' r' where c: "co2 = with_state co p' r'" "ok r'"
    "\<forall>b. y = Inr b \<longrightarrow> \<not> prepared r' \<and> scene_of r' = bs_document b \<and> built_ok (ce_world e) True validated b p'" by blast
  show ?thesis
  proof (cases y)
    case (Inr b)
    with assms(3) y have xco: "x = Inr (rebuilt_result (bs_world b) SceneLoaded None)" "co1 = install e b (doc_sensors validated) co2"
      by (simp_all add: install_or_restore_def)
    have "in_use scene_of e validated b co co1" using c Inr xco(2) by (auto simp: in_use_def)
    moreover have "settled ok prepared co1" using c Inr xco(2) by simp
    ultimately show ?thesis using xco(1) by (auto intro!: exI [of _ b])
  next
    case (Inl err)
    let ?why = "lit ''target scene failed ('' @ exception_reason err @ lit '')''"
    obtain z co3 where z: "restore_scene e rt previous ?why (with_state co p' r') = (z, co3)" by fastforce
    note k = restore_scene_settles [OF assms(1) c(2) z]
    show ?thesis
    proof (cases z)
      case z': (Inl err')
      with assms(3) y Inl z c(1) have "x = Inl err'" "co1 = co3" by (simp_all add: install_or_restore_def bind_op_def)
      with k show ?thesis by simp
    next
      case z': (Inr b)
      with assms(3) y Inl z c(1) have "\<exists>res. x = Inr res \<and> sw_error res \<noteq> None \<and> sw_world res = bs_world b" "co1 = co3"
        by (auto simp: install_or_restore_def bind_op_def)
      with k z' show ?thesis by auto
    qed
  qed
qed

lemma gone_cases:
  \<comment> \<open>from the removal of the old world on\<close>
  assumes "identified (we_physics (ce_world e))" "physics_ok p" "ok r" "\<not> prepared r" "rt_prepare rt r = (Inr (), r1)"
    and "bind_op (remove_old_world e rt) (\<lambda>state. case state of
             Untouched reason \<Rightarrow> abort_unchanged rt reason
           | Damaged reason \<Rightarrow> recover_scene e rt previous reason
           | Gone \<Rightarrow> install_or_restore e rt validated previous) (with_state co p r1) = (x, co')"
  shows "settled ok prepared co' \<and> (\<forall>res. x = Inr res \<longrightarrow>
    (\<exists>p' r'. co' = with_state co p' r' \<and> same_bodies p p' \<and> scene_of r' = scene_of r \<and> sw_world res = co_world co \<and> sw_error res \<noteq> None)
    \<or> (\<exists>b. sw_world res = bs_world b \<and> in_use scene_of e (if sw_error res = None then validated else previous) b co co'))"
proof -
  have ok1: "ok r1" using prepare_keeps [OF assms(3,4,5)] by simp
  obtain s co1 where s: "remove_old_world e rt (with_state co p r1) = (s, co1)" by fastforce
  show ?thesis
  proof (cases s)
    case (Inl err)
    with remove_old_effect [OF assms(2) s] obtain p1 z r2 where c: "co1 = with_state co p1 r2" "rt_fault rt r1 = (z, r2)" by auto
    from assms(6) s Inl have "x = Inl err" "co' = co1" by (simp_all add: bind_op_def)
    with c fault_ends [OF ok1 c(2)] show ?thesis by simp
  next
    case (Inr st)
    with remove_old_effect [OF assms(2) s] obtain p1 where c: "co1 = with_state co p1 r1" "\<forall>reason. st = Untouched reason \<longrightarrow> same_bodies p p1"
      by auto
    show ?thesis
    proof (cases st)
      case Gone
      with assms(6) s Inr c(1) have "install_or_restore e rt validated previous (with_state co p1 r1) = (x, co')" by (simp add: bind_op_def)
      from install_cases [OF assms(1) ok1 this] show ?thesis by blast
    next
      case (Damaged reason)
      with assms(6) s Inr c(1) have "recover_scene e rt previous reason (with_state co p1 r1) = (x, co')" by (simp add: bind_op_def)
      from recover_cases [OF assms(1) ok1 this] show ?thesis by auto
    next
      case (Untouched reason)
      with assms(6) s Inr c(1) have "abort_unchanged rt reason (with_state co p1 r1) = (x, co')" by (simp add: bind_op_def)
      from abort_cases [OF assms(3,4,5) this] obtain r2 where "co' = with_state co p1 r2" "ok r2" "\<not> prepared r2"
        "\<forall>res. x = Inr res \<longrightarrow> sw_error res \<noteq> None \<and> sw_world res = co_world co \<and> scene_of r2 = scene_of r" by blast
      moreover from this c(2) Untouched have "settled ok prepared co'" "same_bodies p p1" by simp_all
      ultimately show ?thesis by blast
    qed
  qed
qed

lemma transaction_outcome:
  assumes "identified (we_physics (ce_world e))" "physics_ok (co_client co)" "co_runtime co = Some r" "ok r" "\<not> prepared r"
    and run: "apply_transaction e rt doc co = (x, co')"
  shows "settled ok prepared co' \<and> (\<forall>res. x = Inr res \<longrightarrow> (\<exists>validated previous co1.
    rebuild_document (we_planar (ce_world e)) doc = Inr validated \<and>
    logical_scene_document (we_planar (ce_world e)) co = (Inr previous, co1) \<and>
    ((\<exists>p r'. co' = with_state co1 p r' \<and> same_bodies (co_client co1) p \<and> scene_of r' = scene_of r \<and> sw_world res = co_world co1 \<and> sw_error res \<noteq> None)
     \<or> (\<exists>b. sw_world res = bs_world b \<and> in_use scene_of e (if sw_error res = None then validated else previous) b co1 co'))))"
proof (cases "rebuild_document (we_planar (ce_world e)) doc")
  case (Inl err)
  with run have "x = Inl err" "co' = co" by (simp_all add: apply_transaction_def bind_op_def lift_res_def)
  with assms show ?thesis by (simp add: settled_def)
next
  case v: (Inr validated)
  obtain l co1 where l: "logical_scene_document (we_planar (ce_world e)) co = (l, co1)" by fastforce
  show ?thesis
  proof (cases l)
    case (Inl err)
    with run v l have "x = Inl err" "co' = co1" by (simp_all add: apply_transaction_def bind_op_def lift_res_def)
    moreover have "co_runtime co1 = Some r" using logical_runtime [OF l] assms(3) by simp
    ultimately show ?thesis using assms(4,5) by (simp add: settled_def)
  next
    case (Inr previous)
    note keeps = logical_effect [OF l [unfolded Inr]]
    let ?p = "co_client co1"
    have "co_runtime co1 = Some r" using keeps assms(3) by simp
    then have co1: "with_state co1 ?p r = co1" by (rule with_state_same)
    obtain y co2 where y: "prepare_rebuild rt (with_state co1 ?p r) = (y, co2)" by fastforce
    have "settled ok prepared co' \<and> (\<forall>res. x = Inr res \<longrightarrow>
        (\<exists>p r'. co' = with_state co1 p r' \<and> same_bodies ?p p \<and> scene_of r' = scene_of r \<and> sw_world res = co_world co1 \<and> sw_error res \<noteq> None)
        \<or> (\<exists>b. sw_world res = bs_world b \<and> in_use scene_of e (if sw_error res = None then validated else previous) b co1 co'))"
      using prepare_cases [OF assms(4,5) y]
    proof (elim disjE exE conjE)
      fix r1 assume 1: "y = Inr None" "co2 = with_state co1 ?p r1" "rt_prepare rt r = (Inr (), r1)"
      have rest: "bind_op (remove_old_world e rt) (\<lambda>state. case state of
             Untouched reason \<Rightarrow> abort_unchanged rt reason
           | Damaged reason \<Rightarrow> recover_scene e rt previous reason
           | Gone \<Rightarrow> install_or_restore e rt validated previous) (with_state co1 ?p r1) = (x, co')"
        using run v l Inr y 1 co1 by (simp add: apply_transaction_def bind_op_def lift_res_def)
      show ?thesis using gone_cases [OF assms(1) _ assms(4,5) 1(3) rest] keeps assms(2) by simp
    next
      fix r2 err assume 1: "co2 = with_state co1 ?p r2" "ok r2" "\<not> prepared r2" "y = Inl err"
      with run v l Inr y co1 have "x = Inl err" "co' = co2" by (simp_all add: apply_transaction_def bind_op_def lift_res_def)
      with 1 show ?thesis by simp
    next
      fix r2 res assume 1: "co2 = with_state co1 ?p r2" "ok r2" "\<not> prepared r2" "y = Inr (Some res)" "sw_error res \<noteq> None"
        "sw_world res = co_world co1" "scene_of r2 = scene_of r"
      with run v l Inr y co1 have "x = Inr res" "co' = with_state co1 ?p r2" by (simp_all add: apply_transaction_def bind_op_def lift_res_def)
      moreover have "same_bodies ?p ?p" using keeps assms(2) by (simp add: same_bodies_refl)
      ultimately show ?thesis using 1 by (simp only: settled_state) blast
    qed
    with v l Inr show ?thesis by auto
  qed
qed

lemma transaction_keeps:
  assumes "identified (we_physics (ce_world e))" "settled ok prepared co" "whole co" "aligned scene_of (we_planar (ce_world e)) co"
    and run: "apply_transaction e rt doc co = (Inr res, co')"
  shows "whole co' \<and> aligned scene_of (we_planar (ce_world e)) co' \<and> sw_world res = co_world co'"
proof -
  obtain r where r: "co_runtime co = Some r" "ok r" "\<not> prepared r" using assms(2) by (auto simp: settled_def)
  have client: "physics_ok (co_client co)" using assms(3) by (simp add: whole_def om_inv_def holds_def)
  obtain validated previous co1 where l: "logical_scene_document (we_planar (ce_world e)) co = (Inr previous, co1)"
    and out: "(\<exists>p r'. co' = with_state co1 p r' \<and> same_bodies (co_client co1) p \<and> scene_of r' = scene_of r \<and> sw_world res = co_world co1 \<and> sw_error res \<noteq> None)
     \<or> (\<exists>b. sw_world res = bs_world b \<and> in_use scene_of e (if sw_error res = None then validated else previous) b co1 co')"
    using transaction_outcome [OF assms(1) client r run] by blast
  note keeps = logical_effect [OF l]
  from out show ?thesis
  proof (elim disjE exE conjE)
    fix p r' assume 1: "co' = with_state co1 p r'" "same_bodies (co_client co1) p" "scene_of r' = scene_of r" "sw_world res = co_world co1"
    have "whole co'" using assms(3) keeps same_bodies_inv [OF _ 1(2)] 1(1) by (simp add: whole_def)
    moreover have "logical_scene_document (we_planar (ce_world e)) co' = (Inr previous, co')"
      using keeps 1(1) by (intro cached_logical) simp
    moreover have "previous = scene_of r" using assms(4) l r(1) by (simp add: aligned_def)
    ultimately show ?thesis using 1 by (simp add: aligned_def)
  next
    fix b assume 1: "sw_world res = bs_world b" "in_use scene_of e (if sw_error res = None then validated else previous) b co1 co'"
    have "co_cache co1 = Some (current_token co1, previous)" using keeps by simp
    from in_use_whole [OF 1(2)] in_use_aligned [OF 1(2) this] 1(1) show ?thesis by simp
  qed
qed

lemma action_settles:
  assumes "identified (we_physics (ce_world e))" "physics_ok (co_client co)" "settled ok prepared co" "is_safe_stop action"
    and run: "apply_immediate e rt action co = (x, co')"
  shows "settled ok prepared co'"
proof -
  obtain r where r: "co_runtime co = Some r" "ok r" "\<not> prepared r" using assms(3) by (auto simp: settled_def)
  from action_cases [OF assms(4) r(1) run] show ?thesis
  proof (elim disjE exE conjE)
    fix t d0 co1 d y assume l: "logical_scene_document (we_planar (ce_world e)) co = (Inr d0, co1)"
      and t: "apply_transaction e rt (Instance d) co1 = (y, co')"
    have "physics_ok (co_client co1)" "co_runtime co1 = Some r" using logical_effect [OF l] assms(2) r(1) by simp_all
    from transaction_outcome [OF assms(1) this r(2,3) t] show ?thesis by blast
  next
    fix d assume "apply_transaction e rt (Instance d) co = (x, co')"
    from transaction_outcome [OF assms(1,2) r this] show ?thesis by blast
  qed (use assms(3) in \<open>simp_all add: settled_def\<close>)
qed

lemma action_keeps:
  assumes "identified (we_physics (ce_world e))" "settled ok prepared co" "whole co" "aligned scene_of (we_planar (ce_world e)) co"
    and "is_safe_stop action" and run: "apply_immediate e rt action co = (Inr res, co')"
  shows "whole co' \<and> aligned scene_of (we_planar (ce_world e)) co' \<and> sw_world res = co_world co'"
proof -
  obtain r where r: "co_runtime co = Some r" using assms(2) by (auto simp: settled_def)
  from action_cases [OF assms(5) r run] show ?thesis
  proof (elim disjE exE conjE)
    fix t d0 co1 d y assume l: "logical_scene_document (we_planar (ce_world e)) co = (Inr d0, co1)"
      and t: "apply_transaction e rt (Instance d) co1 = (y, co')" and x: "Inr res = bind_res y (\<lambda>r. Inr (say t r))"
    note keeps = logical_effect [OF l]
    have "settled ok prepared co1" "whole co1" using keeps assms(2,3) by (simp_all add: settled_def whole_def)
    moreover have "aligned scene_of (we_planar (ce_world e)) co1"
      using keeps cached_logical [of co1 d0] assms(4) l by (auto simp: aligned_def)
    moreover obtain r1 where "y = Inr r1" "res = say t r1" using x by (cases y) simp_all
    ultimately show ?thesis using transaction_keeps [OF assms(1)] t by simp
  next
    fix d assume "apply_transaction e rt (Instance d) co = (Inr res, co')"
    from transaction_keeps [OF assms(1-4) this] show ?thesis .
  qed (use assms(3,4) in simp_all)
qed

lemma transaction_builds:
  assumes "identified (we_physics (ce_world e))" "settled ok prepared co" "physics_ok (co_client co)"
    and run: "apply_transaction e rt doc co = (Inr res, co')"
  shows "\<exists>validated previous. rebuild_document (we_planar (ce_world e)) doc = Inr validated
    \<and> fst (logical_scene_document (we_planar (ce_world e)) co) = Inr previous
    \<and> (if sw_error res = None then built_from (ce_world e) validated (co_world co') (co_settings co') (co_manager co')
       else co_world co' = co_world co \<or> built_from (ce_world e) previous (co_world co') (co_settings co') (co_manager co'))"
proof -
  obtain r where r: "co_runtime co = Some r" "ok r" "\<not> prepared r" using assms(2) by (auto simp: settled_def)
  obtain validated previous co1 where v: "rebuild_document (we_planar (ce_world e)) doc = Inr validated"
    and l: "logical_scene_document (we_planar (ce_world e)) co = (Inr previous, co1)"
    and out: "(\<exists>p r'. co' = with_state co1 p r' \<and> same_bodies (co_client co1) p \<and> scene_of r' = scene_of r \<and> sw_world res = co_world co1 \<and> sw_error res \<noteq> None)
     \<or> (\<exists>b. sw_world res = bs_world b \<and> in_use scene_of e (if sw_error res = None then validated else previous) b co1 co')"
    using transaction_outcome [OF assms(1,3) r run] by blast
  from out show ?thesis
  proof (elim disjE exE conjE)
    fix p r' assume "co' = with_state co1 p r'" "sw_error res \<noteq> None"
    with v l logical_effect [OF l] show ?thesis by auto
  next
    fix b assume "in_use scene_of e (if sw_error res = None then validated else previous) b co1 co'"
    from in_use_built [OF this] v l show ?thesis by (auto split: if_splits)
  qed
qed

end

subsection \<open>The manual world as the runtime\<close>

record ('s, 'w) manual_outside =
  \<comment> \<open>what \<^verbatim>\<open>V2ManualWorldRuntime\<close> finds around it\<close>
  mo_shutdown :: "'w \<Rightarrow> worker_shutdown"
  mo_start :: "'s \<Rightarrow> int \<Rightarrow> (exc, 'w) res"
  mo_manager :: nat  \<comment> \<open>the obstacle manager it is given next\<close>

definition manual_runtime :: "(scene_document, 'w) manual_outside \<Rightarrow> (scene_document, 'w) manual_world scene_runtime" where
  "manual_runtime o' =
     \<lparr>rt_prepare = mw_prepare (mo_shutdown o'), rt_abort = mw_abort (mo_start o'), rt_fault = mw_fault,
      rt_commit = (\<lambda>spec d. mw_commit (mo_start o') (Instance spec) (Instance ()) (Instance d)),
      rt_bind_manager = (\<lambda>s. snd (mw_bind_obstacle_manager (Instance (mo_manager o')) s)),
      rt_refresh = (\<lambda>ids snapshots d. mw_refresh_bindings (mo_shutdown o') (mo_start o') True True
        (bind_res (bind_scene ids snapshots) (\<lambda>_. Inr ())) (Instance d)),
      rt_update = (\<lambda>d. mw_update_moving doc_sensors (Instance d))\<rparr>"

definition rebuild_running :: "('s, 'w) manual_world \<Rightarrow> bool" where
  "rebuild_running s \<longleftrightarrow> in_rebuild (wr_controller (mw_world s))"

definition rebuild_known :: "('s, 'w) manual_world \<Rightarrow> bool" where
  \<comment> \<open>a transaction the world runtime holds is one the controller is in\<close>
  "rebuild_known s \<longleftrightarrow> (wr_prepared (mw_world s) \<noteq> None \<longrightarrow> rebuild_running s)"

definition simulated :: "('s, 'w) manual_world \<Rightarrow> 's" where
  "simulated s = wr_scene (mw_world s)"

lemmas manual_defs = rebuild_known_def rebuild_running_def simulated_def

lemma on_world_same: "on_world f s = (x, s') \<Longrightarrow> f (mw_world s) = (x, mw_world s')"
  by (auto simp: on_world_def split: prod.splits)

lemma rebind_keeps: "rebind_runtime s = (x, s') \<Longrightarrow> mw_world s' = mw_world s"
  by (auto simp: rebind_runtime_def split: sum.splits)

lemma bind_keeps [simp]: "mw_world (snd (mw_bind_obstacle_manager k s)) = mw_world s"
  by (simp add: mw_bind_obstacle_manager_def split: inst.split)

lemma wr_prepare_idle:
  assumes "wr_prepare shutdown w = (x, w')" and "wr_prepared w = None" "\<not> in_rebuild (wr_controller w)"
  shows "wr_scene w' = wr_scene w \<and>
    (wr_prepared w' = Some (wr_scene w, wr_worker w) \<and> in_rebuild (wr_controller w')
     \<or> wr_prepared w' = None \<and> \<not> in_rebuild (wr_controller w'))"
  using assms
  by (cases rule: rp_prepare_cases [of "wr_controller w"]) (auto simp: wr_prepare_def on_controller_def bind_op_def)

lemma mw_prepare_cases:
  assumes "mw_prepare shutdown s = (x, s')" and "rebuild_known s" "\<not> rebuild_running s"
  shows "simulated s' = simulated s \<and>
    (wr_prepared (mw_world s') \<noteq> None \<and> rebuild_running s' \<and> fst (the (wr_prepared (mw_world s'))) = simulated s
     \<or> wr_prepared (mw_world s') = None \<and> \<not> rebuild_running s')"
proof -
  from assms(1) have w: "wr_prepare shutdown (mw_world s) = (x, mw_world s')" unfolding mw_prepare_def by (rule on_world_same)
  have "wr_prepared (mw_world s) = None" using assms(2,3) unfolding rebuild_known_def by blast
  with wr_prepare_idle [OF w] assms(3) show ?thesis unfolding rebuild_running_def simulated_def by force
qed

lemma mw_abort_ends:
  assumes "mw_abort start s = (x, s')" and "wr_prepared (mw_world s) \<noteq> None \<and> rebuild_running s \<or> wr_prepared (mw_world s) = None \<and> \<not> rebuild_running s"
  shows "wr_prepared (mw_world s') = None \<and> \<not> rebuild_running s'
    \<and> (x = Inr () \<longrightarrow> wr_prepared (mw_world s) \<noteq> None \<and> simulated s' = fst (the (wr_prepared (mw_world s))))"
proof -
  obtain y w where w: "wr_abort start (mw_world s) = (y, w)" by fastforce
  have s': "mw_world s' = w" "y = Inr () \<or> (\<exists>e. x = Inl e)"
    using assms(1) w by (auto simp: mw_abort_def bind_op_def on_world_def dest!: rebind_keeps split: sum.splits)
  have "wr_prepared w = None \<and> \<not> in_rebuild (wr_controller w)
    \<and> (y = Inr () \<longrightarrow> wr_prepared (mw_world s) \<noteq> None \<and> wr_scene w = fst (the (wr_prepared (mw_world s))))"
  proof (cases "wr_prepared (mw_world s)")
    case None
    with w assms(2) show ?thesis by (auto simp: wr_abort_def manual_defs)
  next
    case (Some dw)
    with assms(2) have run: "in_rebuild (wr_controller (mw_world s))" by (simp add: manual_defs)
    obtain rp' where "rp_abort_rebuild (wr_controller (mw_world s)) = (Inr (), rp')" "\<not> in_rebuild rp'"
      using rp_abort_effect(1,2) [OF run] by (cases "rp_abort_rebuild (wr_controller (mw_world s))") auto
    with w Some show ?thesis
      by (cases dw) (auto simp: wr_abort_def Let_def on_controller_def bind_op_def split: sum.splits)
  qed
  with s' show ?thesis by (auto simp: manual_defs)
qed

lemma commit_ends_rebuild: "rp_commit_rebuild model rp = (Inr g, rp') \<Longrightarrow> \<not> in_rebuild rp'"
  by (auto simp: rp_commit_rebuild_def on_authority_def au_commit_rebuild_def with_session_def session_op_defs in_rebuild_def
      bind_op_def split: if_splits prod.splits sum.splits option.splits inst.splits)

lemma mw_commit_ends:
  assumes "mw_commit start (Instance spec) (Instance u) (Instance d) s = (x, s')" and "rebuild_known s"
  shows "rebuild_known s' \<and> (x = Inr () \<longrightarrow> wr_prepared (mw_world s') = None \<and> \<not> rebuild_running s' \<and> simulated s' = d)"
proof -
  obtain y w where w: "wr_commit start (Instance d) (Some (Instance spec)) (mw_world s) = (y, w)" by fastforce
  have s': "mw_world s' = w" "y = Inr () \<or> (\<exists>e. x = Inl e)"
    using assms(1) w by (auto simp: mw_commit_def bind_op_def on_world_def dest!: rebind_keeps split: sum.splits)
  have "(wr_prepared w \<noteq> None \<longrightarrow> in_rebuild (wr_controller w))
    \<and> (y = Inr () \<longrightarrow> wr_prepared w = None \<and> \<not> in_rebuild (wr_controller w) \<and> wr_scene w = d)"
    using w assms(2)
    by (auto simp: wr_commit_def on_controller_def bind_op_def manual_defs dest: commit_ends_rebuild
        split: if_splits prod.splits sum.splits)
  with s' show ?thesis by (auto simp: manual_defs)
qed

lemma wr_fault_ends:
  assumes "wr_fault w = (x, w')" shows "wr_prepared w' = None \<and> \<not> in_rebuild (wr_controller w')"
proof -
  obtain y rp' where f: "rp_fault_rebuild (wr_controller w) = (y, rp')" by fastforce
  with assms have w': "w' = w\<lparr>wr_prepared := None, wr_controller := rp'\<rparr>" by (simp add: wr_fault_def on_controller_def)
  have "\<not> in_rebuild rp'"
  proof (cases "in_rebuild (wr_controller w)")
    case True
    from rp_fault_effect(2) [OF True] f show ?thesis by simp
  next
    case False
    then have "snd (rp_fault_rebuild (wr_controller w)) = wr_controller w"
      by (simp add: rp_fault_rebuild_def on_authority_def au_fault_rebuild_def with_session_def session_op_defs in_rebuild_def)
    with False f show ?thesis by simp
  qed
  with w' show ?thesis by simp
qed

lemma mw_fault_ends:
  assumes "mw_fault s = (x, s')" shows "wr_prepared (mw_world s') = None \<and> \<not> rebuild_running s'"
  using wr_fault_ends [OF on_world_same [OF assms [unfolded mw_fault_def]]] by (simp add: rebuild_running_def)

lemma manual_methods [simp]:
  "rt_prepare (manual_runtime o') = mw_prepare (mo_shutdown o')" "rt_abort (manual_runtime o') = mw_abort (mo_start o')"
  "rt_fault (manual_runtime o') = mw_fault"
  "rt_commit (manual_runtime o') spec d = mw_commit (mo_start o') (Instance spec) (Instance ()) (Instance d)"
  "mw_world (rt_bind_manager (manual_runtime o') s) = mw_world s"
  by (simp_all add: manual_runtime_def)

lemma manual_abort:
  assumes r: "rebuild_known r" "\<not> rebuild_running r" and p: "mw_prepare shutdown r = (x, r1)" and a: "mw_abort start r1 = (y, r2)"
  shows "rebuild_known r2 \<and> \<not> rebuild_running r2 \<and> (y = Inr () \<longrightarrow> simulated r2 = simulated r)"
proof -
  note e = mw_prepare_cases [OF p r]
  then have "wr_prepared (mw_world r1) \<noteq> None \<and> rebuild_running r1 \<or> wr_prepared (mw_world r1) = None \<and> \<not> rebuild_running r1"
    by blast
  note k = mw_abort_ends [OF a this]
  have "simulated r2 = simulated r" if "y = Inr ()" using k that e by (metis (no_types))
  moreover have "rebuild_known r2" using k by (simp only: rebuild_known_def simp_thms)
  ultimately show ?thesis using k by blast
qed

lemma manual_runtime_laws: "rebuild_runtime (manual_runtime o') rebuild_known rebuild_running simulated"
proof (unfold_locales, unfold manual_methods)
  fix r x r1
  assume r: "rebuild_known r" "\<not> rebuild_running r" and p: "mw_prepare (mo_shutdown o') r = (x, r1)"
  show "rebuild_known r1 \<and> simulated r1 = simulated r" using mw_prepare_cases [OF p r] unfolding rebuild_known_def by argo
next
  fix r x r1 y r2
  assume "rebuild_known r" "\<not> rebuild_running r" "mw_prepare (mo_shutdown o') r = (x, r1)" "mw_abort (mo_start o') r1 = (y, r2)"
  then show "rebuild_known r2 \<and> \<not> rebuild_running r2 \<and> (y = Inr () \<longrightarrow> simulated r2 = simulated r)" by (rule manual_abort)
next
  fix r spec d y r1
  assume r: "rebuild_known r" and c: "mw_commit (mo_start o') (Instance spec) (Instance ()) (Instance d) (rt_bind_manager (manual_runtime o') r) = (y, r1)"
  have "rebuild_known (rt_bind_manager (manual_runtime o') r)"
    using r unfolding rebuild_known_def rebuild_running_def manual_methods .
  from mw_commit_ends [OF c this] show "rebuild_known r1 \<and> (y = Inr () \<longrightarrow> \<not> rebuild_running r1 \<and> simulated r1 = d)" by blast
next
  fix r y r1 assume "mw_fault r = (y, r1)"
  from mw_fault_ends [OF this] show "rebuild_known r1 \<and> \<not> rebuild_running r1" unfolding rebuild_known_def by argo
qed

interpretation manual: rebuild_runtime "manual_runtime o'" rebuild_known rebuild_running simulated
  for o' :: "(scene_document, 'w) manual_outside"
  by (rule manual_runtime_laws)

subsection \<open>Scene transactions with the manual world\<close>

text \<open>
  C29. No rebuild is left open: whatever a change of vehicle, terrain or scene runs into, on the way out
  again and in the roll-back too, when the call is over, returned or raised, neither the world runtime nor
  the protocol controller is in a prepared rebuild, so commands and the next rebuild are not shut out.
\<close>

theorem structural_action_ends:
  fixes o' :: "(scene_document, 'w) manual_outside"
  assumes "identified (we_physics (ce_world e))" and "physics_ok (co_client co)"
    and "co_runtime co = Some s" "wr_prepared (mw_world s) = None" "\<not> rebuild_running s"
    and "is_safe_stop action" and "apply_immediate e (manual_runtime o') action co = (x, co')"
  shows "\<exists>s'. co_runtime co' = Some s' \<and> wr_prepared (mw_world s') = None \<and> \<not> rebuild_running s'"
proof -
  have "settled rebuild_known rebuild_running co" using assms(3-5) by (simp add: settled_def rebuild_known_def)
  from manual.action_settles [OF assms(1,2) this assms(6,7)] show ?thesis
    unfolding settled_def rebuild_known_def by metis
qed

text \<open>
  C1. A change of vehicle, terrain or scene that returns leaves one whole world, the same for all parts:
  terrain and vehicle are there, every other body of the client belongs to the obstacle manager in use, the
  result names the world in use, and the document the runtime works with is the one the coordinator gives.
  Loading a scene without an error has built that scene; with one, the world is the one there was, or was
  built anew from the document there was.
\<close>

theorem structural_action_keeps_world:
  fixes o' :: "(scene_document, 'w) manual_outside"
  assumes "identified (we_physics (ce_world e))" and "whole co" and "aligned simulated (we_planar (ce_world e)) co"
    and "co_runtime co = Some s" "wr_prepared (mw_world s) = None" "\<not> rebuild_running s"
    and "is_safe_stop action" and run: "apply_immediate e (manual_runtime o') action co = (Inr res, co')"
  shows "whole co' \<and> aligned simulated (we_planar (ce_world e)) co' \<and> sw_world res = co_world co'
    \<and> (\<forall>d. action = LoadScene d \<longrightarrow>
        (if sw_error res = None
         then \<exists>v. rebuild_document (we_planar (ce_world e)) (Instance d) = Inr v
           \<and> built_from (ce_world e) v (co_world co') (co_settings co') (co_manager co')
         else co_world co' = co_world co \<or> (\<exists>d0. fst (logical_scene_document (we_planar (ce_world e)) co) = Inr d0
           \<and> built_from (ce_world e) d0 (co_world co') (co_settings co') (co_manager co'))))"
proof -
  have settled: "settled rebuild_known rebuild_running co" using assms(4-6) by (simp add: settled_def rebuild_known_def)
  have client: "physics_ok (co_client co)" using assms(2) by (simp add: whole_def om_inv_def holds_def)
  have "if sw_error res = None
      then \<exists>v. rebuild_document (we_planar (ce_world e)) (Instance d) = Inr v
        \<and> built_from (ce_world e) v (co_world co') (co_settings co') (co_manager co')
      else co_world co' = co_world co \<or> (\<exists>d0. fst (logical_scene_document (we_planar (ce_world e)) co) = Inr d0
        \<and> built_from (ce_world e) d0 (co_world co') (co_settings co') (co_manager co'))"
    if "action = LoadScene d" for d
  proof -
    from that run have "apply_transaction e (manual_runtime o') (Instance d) co = (Inr res, co')" by (simp add: apply_immediate_def)
    from manual.transaction_builds [OF assms(1) settled client this] show ?thesis by (auto split: if_splits)
  qed
  with manual.action_keeps [OF assms(1) settled assms(2,3,7) run] show ?thesis by blast
qed

subsection \<open>The properties at work\<close>

definition example_gui :: "scene_document \<Rightarrow> (scene_document, int) manual_world" where
  "example_gui d = \<lparr>mw_developer = False, mw_robot = df_mid, mw_obstacle_manager = 0,
     mw_world = \<lparr>wr_controller = example_driven, wr_scene = d, wr_worker = 1, wr_prepared = None\<rparr>,
     mw_runtime = example_simulator\<lparr>vr_controller := example_driven\<rparr>, mw_bound_worker = 1, mw_receiver = None,
     mw_receiver_version = 0, mw_observers = [], mw_last_at = None, mw_last_accepted = None, mw_last_sequence = None,
     mw_last_drive_max = f_zero, mw_next_diagnostic_at = f_zero, mw_printed = []\<rparr>"

definition example_outside :: "(scene_document, int) manual_outside" where
  "example_outside = \<lparr>mo_shutdown = (\<lambda>_. \<lparr>sd_begin_draining = Some (Inr ()), sd_close_idle = Some (Inr ()), sd_force_close = None\<rparr>),
     mo_start = (\<lambda>_ g. Inr g), mo_manager = 0\<rparr>"


lemma example_rebuild:
  "case mw_prepare (mo_shutdown example_outside) (example_gui d) of
     (Inr _, s) \<Rightarrow> (case mw_commit (mo_start example_outside) (Instance df_mid) (Instance ()) (Instance d')
          (snd (mw_bind_obstacle_manager (Instance (mo_manager example_outside)) s)) of (Inr _, _) \<Rightarrow> True | _ \<Rightarrow> False)
   | _ \<Rightarrow> False"
  "wr_prepared (mw_world (example_gui d)) = None" "\<not> rebuild_running (example_gui d)"
  by code_simp+

definition quiet_physics :: physics_env where
  "quiet_physics = \<lparr>px_list = (\<lambda>_. None), px_remove = (\<lambda>_. (True, None)), px_create = (\<lambda>_. CreateOk), px_remove_shape = (\<lambda>_. None)\<rparr>"

definition example_world_env :: world_env where
  "example_world_env =
     \<lparr>we_physics = quiet_physics, we_planar = exact_planar, we_manager = (\<lambda>_. ObstacleLifecycle.example_env),
      we_scene = (\<lambda>_ _. SceneReady 0 [Fin 0, Fin 0, Fin 1] None), we_robot = (\<lambda>_ _. RobotReady), we_friction = (\<lambda>_. None),
      we_backend = (\<lambda>_. None)\<rparr>"

definition example_co_env :: coordinator_env where
  "example_co_env = \<lparr>ce_world = example_world_env, ce_address = id, ce_stop = (\<lambda>_. None), ce_step = (\<lambda>_. None)\<rparr>"

definition example_terrain :: terrain_selection where
  "example_terrain = \<lparr>tsel_model = ''slope'', tsel_slope_deg = Fin 8, tsel_golf_seed = 7, tsel_golf_relief = ''medium''\<rparr>"

definition example_active :: active_world where
  "example_active =
     \<lparr>aw_scene = \<lparr>si_bodies = [0], si_spawn = [Fin 0, Fin 0, Fin 1], si_bounds = None\<rparr>,
      aw_robot = \<lparr>ar_body = 1, ar_spec = df_mid, ar_model = ''df_mid'', ar_wheel_radius = rm_wheel_radius df_mid\<rparr>,
      aw_terrain = example_terrain\<rparr>"

definition example_managing :: "physics \<Rightarrow> obstacle_manager" where
  "example_managing p =
     \<lparr>om_client = p, om_records = [], om_revision = 0, om_moving_count = 0, om_specs_cache = [], om_specs_revision = 0, om_debt = [],
      om_fault = None, om_pending = None, om_clock = 0\<rparr>"

definition example_coordinator :: "(scene_document, int) manual_world coordinator" where
  "example_coordinator =
     \<lparr>co_runtime = Some (example_gui example_document), co_world = example_active,
      co_manager = example_managing \<lparr>ph_bodies = [0, 1], ph_next = 2, ph_calls = 0\<rparr>, co_settings = default_settings,
      co_sensors = doc_sensors example_document, co_world_at = 1, co_manager_at = 2, co_sensors_at = 3,
      co_cache = Some ((1, 2, 0, 3), example_document), co_last = None, co_queue = [], co_active = None, co_synced = 0\<rparr>"

lemma example_world_inv: "physics_ok p \<Longrightarrow> set (ph_bodies p) = {0, 1} \<Longrightarrow> om_inv (world_bodies example_active) (example_managing p)"
  by (simp add: om_inv_def holds_def owned_def om_side_def record_ids_def temporary_ids_def candidate_ids_def candidates_def clear_ids_def
      example_managing_def world_bodies_def example_active_def) (auto simp: physics_ok_def)

lemma example_whole: "whole example_coordinator" "aligned simulated (we_planar (ce_world example_co_env)) example_coordinator"
  using example_world_inv [of "\<lparr>ph_bodies = [0, 1], ph_next = 2, ph_calls = 0\<rparr>"]
  by (auto simp: whole_def example_coordinator_def example_active_def physics_ok_def aligned_def logical_scene_document_def
      cached_document_def current_token_def example_managing_def simulated_def example_gui_def)

lemma example_co_identified: "identified (we_physics (ce_world example_co_env))"
  by (simp add: identified_def example_co_env_def example_world_env_def quiet_physics_def)

lemma example_scene_terrain: "mk_terrain_selection ''slope'' (PFloat (Fin 8)) (PInt 7) ''medium'' = Inr example_terrain"
  by code_simp

lemma df_mid_model: "get_robot_model ''df_mid'' = Inr df_mid" "py_lower ''df_mid'' = ''df_mid''"
  by (simp_all add: get_robot_model_def robot_models_def py_lower_def lower_char_def df_mid_def)

lemma example_scene_load: "\<exists>n. load_world example_world_env example_terrain ''df_mid'' p = (Inr example_active, \<lparr>ph_bodies = [0, 1], ph_next = 2, ph_calls = n\<rparr>)"
  by (cases p) (simp add: load_world_def create_scene_def load_robot_def create_robot_def construct_robot_def example_world_env_def df_mid_model Let_def
    bind_op_def lift_res_def list_bodies_def quiet_physics_def register_body_def reset_client_def count_call_def call_may_raise_def cleaning_def
    example_active_def)

lemma example_scene_manager:
  "create_manager (Some default_settings) example_active \<lparr>ph_bodies = [0, 1], ph_next = 2, ph_calls = n\<rparr>
     = Inr (default_settings, example_managing \<lparr>ph_bodies = [0, 1], ph_next = 2, ph_calls = n\<rparr>)"
  by (simp add: create_manager_def settings_for_def example_active_def default_settings_def default_bounds_def validate_bounds_def
    res_simps ob_finite_float_PFloat ob_finite_vector_def new_manager_def example_managing_def)

lemma example_scene_restore:
  "case restore (manager_env_for example_world_env (aw_scene example_active) default_settings) []
     (example_managing \<lparr>ph_bodies = [0, 1], ph_next = 2, ph_calls = n\<rparr>) of
   (Inr r, m) \<Rightarrow> ob_succeeded r \<and> om_records m = [] \<and> om_specs_cache m = [] \<and> ph_bodies (om_client m) = [0, 1] \<and> ph_next (om_client m) = 2 | _ \<Rightarrow> False"
  by code_simp

lemma example_scene_document:
  assumes "om_records m = []" "om_specs_cache m = []"
  shows
  "document_for_world exact_planar example_active m (doc_sensors example_document) = Inr example_document"
proof -
  have t: "terrain_from_selection (Instance example_terrain) = Inr (doc_terrain example_document)"
    by (simp add: example_document_def terrain_from_selection_def example_terrain_def mk_terrain_document_def res_simps require_choice_Inr require_int_def
      require_float_def ob_finite_float_PFloat terrain_model_names_def relief_levels_def py_lower_def
      lower_char_def)
  have "rebuild_sensors exact_planar (doc_sensors example_document) = Inr (doc_sensors example_document)"
    using default_sensors [OF exact_hypot_accurate, of "\<lambda>_ _. Fin 1"] by (simp add: example_document_def)
  then have s: "mk_sensor_document exact_planar (Instance (sd_mounts (doc_sensors example_document))) (Instance (sd_lidar (doc_sensors example_document)))
      = Inr (doc_sensors example_document)" by (simp add: rebuild_sensors_def)
  show ?thesis
    by (simp add: document_for_world_def logical_specs_def assms scene_from_runtime_def)
      (simp add: example_active_def t s example_built)
qed

lemma example_scene_build_world:
  "\<exists>m p'. build_world example_world_env (Some default_settings) (Instance example_document) p = (Inr (example_active, default_settings, m), p')
     \<and> om_records m = [] \<and> om_specs_cache m = []"
proof -
  obtain n where l: "load_world example_world_env example_terrain ''df_mid'' (count_call p) = (Inr example_active, \<lparr>ph_bodies = [0, 1], ph_next = 2, ph_calls = n\<rparr>)"
    using example_scene_load by blast
  obtain r m where r: "restore (manager_env_for example_world_env (aw_scene example_active) default_settings) []
     (example_managing \<lparr>ph_bodies = [0, 1], ph_next = 2, ph_calls = n\<rparr>) = (Inr r, m)" "ob_succeeded r" "om_records m = []" "om_specs_cache m = []"
    using example_scene_restore [of n] by (auto split: prod.splits sum.splits)
  have same: "om_client_update (\<lambda>_. q) (example_managing q) = example_managing q" for q by (simp add: example_managing_def)
  have d: "doc_schema_version example_document = 1" "doc_robot_model example_document = ''df_mid''" "doc_obstacles example_document = []"
    "td_model (doc_terrain example_document) = ''slope''" "td_slope_deg (doc_terrain example_document) = Fin 8"
    "td_golf_seed (doc_terrain example_document) = 7" "td_golf_relief (doc_terrain example_document) = ''medium''"
    by (simp_all add: example_document_def)
  have env: "we_planar example_world_env = exact_planar" "list_bodies (we_physics example_world_env) p = (Inr (ph_bodies p), count_call p)"
    by (simp_all add: example_world_env_def list_bodies_def quiet_physics_def)
  show ?thesis
    by (simp add: build_world_def d env bind_op_def lift_res_def example_built example_scene_terrain sweeping_def l example_scene_manager restore_obstacles_def same r del: One_nat_def)
qed

lemma example_scene_build:
  "\<exists>b p'. build_scene example_world_env True example_document default_settings p = (Inr b, p')
     \<and> bs_world b = example_active \<and> bs_document b = example_document"
proof -
  obtain m p' where w: "build_world example_world_env (Some default_settings) (Instance example_document) (count_call p)
      = (Inr (example_active, default_settings, m), p')" "om_records m = []" "om_specs_cache m = []" using example_scene_build_world by blast
  have env: "we_planar example_world_env = exact_planar" "list_bodies (we_physics example_world_env) p = (Inr (ph_bodies p), count_call p)"
    "we_backend example_world_env t = None" for t
    by (simp_all add: example_world_env_def list_bodies_def quiet_physics_def)
  have "bind_scene (si_bodies (aw_scene example_active)) (snapshot True m) = Inr [(0, Terrain)]"
    by (simp add: example_active_def bind_scene_def snapshot_def w)
  then show ?thesis
    by (simp add: build_scene_def env bind_op_def sweeping_def w cleaning_def finish_scene_def sensor_backend_for_def call_may_raise_def
        lift_res_def example_scene_document [OF w(2,3)])
qed

lemma example_scene_removed:
  "\<exists>n. remove_old_world example_co_env rt (with_state example_coordinator (co_client example_coordinator) r)
     = (Inr Gone, with_state example_coordinator \<lparr>ph_bodies = [], ph_next = 2, ph_calls = n\<rparr> r)"
proof -
  have owned: "world_body_ids (co_world example_coordinator) (co_manager example_coordinator) = [1, 0]"
    by (simp add: example_coordinator_def example_active_def example_managing_def world_body_ids_def pending_body_ids_def temporary_ids_def
        candidate_ids_def candidates_def record_ids_def from_keys_def)
  have c: "co_client example_coordinator = \<lparr>ph_bodies = [0, 1], ph_next = 2, ph_calls = 0\<rparr>"
    by (simp add: example_coordinator_def example_managing_def)
  have p: "we_physics (ce_world example_co_env) = quiet_physics" by (simp add: example_co_env_def example_world_env_def)
  show ?thesis
    by (simp add: remove_old_world_def Let_def owned c p list_bodies_def quiet_physics_def count_call_def remove_active_body_def remove_body_def
        bind_op_def) blast
qed


lemma example_scene_committed:
  "\<exists>s1 s2. mw_prepare (mo_shutdown example_outside) (example_gui d) = (Inr (), s1)
     \<and> rt_commit (manual_runtime example_outside) df_mid d' (rt_bind_manager (manual_runtime example_outside) s1) = (Inr (), s2)"
proof -
  let ?o = example_outside
  obtain x s1 where s1: "mw_prepare (mo_shutdown ?o) (example_gui d) = (x, s1)" by fastforce
  obtain y s2 where s2: "mw_commit (mo_start ?o) (Instance df_mid) (Instance ()) (Instance d')
      (snd (mw_bind_obstacle_manager (Instance (mo_manager ?o)) s1)) = (y, s2)" by fastforce
  have "x = Inr ()" "y = Inr ()" using example_rebuild(1) [where d = d and d' = d'] by (auto simp: s1 s2 split: sum.splits)
  moreover have "rt_bind_manager (manual_runtime ?o) s1 = snd (mw_bind_obstacle_manager (Instance (mo_manager ?o)) s1)"
    by (simp add: manual_runtime_def)
  ultimately show ?thesis using s1 s2 by simp
qed

lemma example_scene_run:
  "\<exists>res co'. apply_immediate example_co_env (manual_runtime example_outside) (LoadScene example_document) example_coordinator = (Inr res, co')
     \<and> sw_error res = None"
proof -
  obtain s1 s2 where s1: "mw_prepare (mo_shutdown example_outside) (example_gui example_document) = (Inr (), s1)"
    and s2: "rt_commit (manual_runtime example_outside) df_mid example_document (rt_bind_manager (manual_runtime example_outside) s1) = (Inr (), s2)"
    using example_scene_committed by blast
  let ?rt = "manual_runtime example_outside" and ?co = "example_coordinator"
  let ?st = "with_state ?co (co_client ?co)"
  have run: "co_runtime ?co = Some (example_gui example_document)" by (simp add: example_coordinator_def)
  have co: "?co = ?st (example_gui example_document)" using with_state_same [OF run] by simp
  have v: "rebuild_document (we_planar (ce_world example_co_env)) (Instance example_document) = Inr example_document"
    using example_built by (simp add: rebuild_document_def example_co_env_def example_world_env_def rewrap_def example_document_def)
  have l: "logical_scene_document pl ?co = (Inr example_document, ?co)" for pl
    by (rule cached_logical) (simp add: example_coordinator_def current_token_def example_managing_def)
  have prep: "prepare_rebuild ?rt ?co = (Inr None, ?st s1)"
    by (subst co) (simp add: prepare_rebuild_def s1(1))
  obtain n where gone: "remove_old_world example_co_env ?rt (?st s1) = (Inr Gone, with_state ?co \<lparr>ph_bodies = [], ph_next = 2, ph_calls = n\<rparr> s1)"
    using example_scene_removed by blast
  obtain b p' where b: "build_scene example_world_env True example_document default_settings \<lparr>ph_bodies = [], ph_next = 2, ph_calls = n\<rparr> = (Inr b, p')"
     "bs_world b = example_active" "bs_document b = example_document" using example_scene_build by blast
  have "\<exists>cs. bs_backend b = Some cs" using build_scene_ok [OF _ b(1)] example_co_identified by (auto simp: built_ok_def example_co_env_def)
  then obtain cs where cs: "bs_backend b = Some cs" by blast
  have "ar_spec (aw_robot example_active) = df_mid" by (simp add: example_active_def)
  then have "replace_scene example_co_env ?rt ''rebuild'' example_document (with_state ?co \<lparr>ph_bodies = [], ph_next = 2, ph_calls = n\<rparr> s1)
      = (Inr b, with_state ?co p' s2)"
    using b cs s2 by (simp add: replace_scene_def bind_op_def example_co_env_def example_coordinator_def cleaning_def commit_built_def
        del: manual_methods)
  then show ?thesis
    by (simp add: apply_immediate_def apply_transaction_def bind_op_def lift_res_def v l prep gone install_or_restore_def)
qed

theorem structural_action_keeps_world_witness:
  "\<exists>res co'. apply_immediate example_co_env (manual_runtime example_outside) (LoadScene example_document) example_coordinator = (Inr res, co')
     \<and> sw_error res = None \<and> whole co' \<and> ar_model (aw_robot (co_world co')) = py_lower ''df_mid''"
proof -
  obtain res co' where run: "apply_immediate example_co_env (manual_runtime example_outside) (LoadScene example_document) example_coordinator = (Inr res, co')"
    "sw_error res = None" using example_scene_run by blast
  have r: "co_runtime example_coordinator = Some (example_gui example_document)" by (simp add: example_coordinator_def)
  from structural_action_keeps_world [OF example_co_identified example_whole r example_rebuild(2,3) _ run(1)] run(2) obtain v where
    "rebuild_document (we_planar (ce_world example_co_env)) (Instance example_document) = Inr v" "whole co'"
    "built_from (ce_world example_co_env) v (co_world co') (co_settings co') (co_manager co')" by auto
  moreover have "rebuild_document (we_planar (ce_world example_co_env)) (Instance example_document) = Inr example_document"
    using example_built by (simp add: rebuild_document_def example_co_env_def example_world_env_def rewrap_def example_document_def)
  ultimately have "built_from (ce_world example_co_env) example_document (co_world co') (co_settings co') (co_manager co')" by simp
  then have "ar_model (aw_robot (co_world co')) = py_lower ''df_mid''"
    using example_built by (auto simp: built_from_def example_co_env_def example_world_env_def example_document_def)
  with run \<open>whole co'\<close> show ?thesis by blast
qed

definition failing_outside :: "(scene_document, int) manual_outside" where
  "failing_outside = example_outside\<lparr>mo_start := (\<lambda>_ _. Inl (runtime_error ''worker failed''))\<rparr>"

definition blind_env :: coordinator_env where
  \<comment> \<open>the bodies cannot be listed\<close>
  "blind_env = example_co_env\<lparr>ce_world := example_world_env\<lparr>we_physics := quiet_physics\<lparr>px_list := (\<lambda>_. Some (runtime_error ''listing''))\<rparr>\<rparr>\<rparr>"

lemma example_abort_fails:
  "case mw_prepare (mo_shutdown failing_outside) (example_gui d) of
     (Inr _, s) \<Rightarrow> (case mw_abort (mo_start failing_outside) s of (Inl _, _) \<Rightarrow> True | _ \<Rightarrow> False)
   | _ \<Rightarrow> False"
  by code_simp

lemma example_blind_run:
  "\<exists>err co'. apply_immediate blind_env (manual_runtime failing_outside) (LoadScene example_document) example_coordinator = (Inl err, co')"
proof -
  obtain x s1 where s1: "mw_prepare (mo_shutdown failing_outside) (example_gui example_document) = (x, s1)" by fastforce
  obtain y s2 where s2: "mw_abort (mo_start failing_outside) s1 = (y, s2)" by fastforce
  have xy: "x = Inr ()" "\<exists>err. y = Inl err" using example_abort_fails [of example_document] by (auto simp: s1 s2 split: sum.splits)
  then obtain err where err: "y = Inl err" by blast
  let ?rt = "manual_runtime failing_outside" and ?co = example_coordinator
  let ?st = "with_state ?co (co_client ?co)"
  have run: "co_runtime ?co = Some (example_gui example_document)" by (simp add: example_coordinator_def)
  have co: "?co = ?st (example_gui example_document)" using with_state_same [OF run] by simp
  have env: "we_planar (ce_world blind_env) = exact_planar" "we_physics (ce_world blind_env) = quiet_physics\<lparr>px_list := (\<lambda>_. Some (runtime_error ''listing''))\<rparr>"
    by (simp_all add: blind_env_def example_world_env_def)
  have v: "rebuild_document exact_planar (Instance example_document) = Inr example_document"
    using example_built by (simp add: rebuild_document_def rewrap_def example_document_def)
  have l: "logical_scene_document pl ?co = (Inr example_document, ?co)" for pl
    by (rule cached_logical) (simp add: example_coordinator_def current_token_def example_managing_def)
  have prep: "prepare_rebuild ?rt ?co = (Inr None, ?st s1)"
    by (subst co) (simp add: prepare_rebuild_def s1 xy(1))
  have gone: "remove_old_world blind_env ?rt (?st s1) = (Inr (Untouched (exception_reason (runtime_error ''listing''))),
      with_state ?co (count_call (co_client ?co)) s1)"
    by (simp add: remove_old_world_def Let_def env list_bodies_def)
  show ?thesis
    by (simp add: apply_immediate_def apply_transaction_def bind_op_def lift_res_def env v l prep gone abort_unchanged_def s2 err)
qed

theorem structural_action_ends_witness:
  "\<exists>err co' s'. apply_immediate blind_env (manual_runtime failing_outside) (LoadScene example_document) example_coordinator = (Inl err, co')
     \<and> co_runtime co' = Some s' \<and> wr_prepared (mw_world s') = None \<and> \<not> rebuild_running s'"
proof -
  obtain err co' where run: "apply_immediate blind_env (manual_runtime failing_outside) (LoadScene example_document) example_coordinator = (Inl err, co')"
    using example_blind_run by blast
  have id: "identified (we_physics (ce_world blind_env))"
    by (simp add: identified_def blind_env_def example_world_env_def quiet_physics_def)
  have client: "physics_ok (co_client example_coordinator)" using example_whole(1) by (simp add: whole_def om_inv_def holds_def)
  have r: "co_runtime example_coordinator = Some (example_gui example_document)" by (simp add: example_coordinator_def)
  from structural_action_ends [OF id client r example_rebuild(2,3) _ run] run show ?thesis by auto
qed

subsection \<open>What modelling showed\<close>

text \<open>
  The document cache remembers a world by its address alone.  When the vehicle is replaced without a
  runtime, the new world may be put where the world of the cached document was; the document with the old
  vehicle is then given for it.
\<close>

lemma stale_document_cache:
  assumes cache: "co_cache co = Some ((a0, co_manager_at co, om_revision (co_manager co), co_sensors_at co), d)"
    and other: "co_world_at co \<noteq> a0" "\<And>t. ce_address e t = a0"
    and run: "replace_robot e model force co = (Inr res, co')" "sw_changed res"
  shows "logical_scene_document pl co' = (Inr d, co') \<and> ar_model (aw_robot (co_world co')) = py_lower model"
proof -
  have moved: "new_address (ce_address e) t (co_world_at co) = a0" for t using other by (simp add: new_address_def)
  obtain l p1 where l: "load_robot (ce_world e) (py_lower model) (co_client co) = (l, p1)" by fastforce
  have run': "\<exists>replacement. l = Inr replacement" using run l
    by (auto simp: replace_robot_def Let_def on_physics_def split: if_splits sum.splits)
  then obtain replacement where rep: "l = Inr replacement" by blast
  obtain k p2 where k: "commit_robot (we_physics (ce_world e)) (ar_body (aw_robot (co_world co))) replacement p1 = (k, p2)" by fastforce
  from run l rep k have "co' = co\<lparr>co_manager := (co_manager co)\<lparr>om_client := p2\<rparr>, co_world := (co_world co)\<lparr>aw_robot := replacement\<rparr>, co_world_at := a0\<rparr>"
    by (cases k) (auto simp: replace_robot_def Let_def on_physics_def moved split: if_splits)
  moreover have "ar_model replacement = py_lower model"
    using load_robot_Inr [OF l [unfolded rep]] by (simp add: py_lower_def lower_char_idem)
  moreover from calculation cache have "co_cache co' = Some (current_token co', d)" by (simp add: current_token_def)
  from cached_logical [OF this] have "logical_scene_document pl co' = (Inr d, co')" .
  ultimately show ?thesis by simp
qed

end
