(* ===== verification/Spec2Isabelle.thy ===== *)
theory Spec2Isabelle
  imports CommandArbiter CommandRelay SceneStorage SceneTransactions
begin

text \<open>
  Verification development for \<^verbatim>\<open>pybullet_df_drive\<close> (package \<^verbatim>\<open>slope_sim\<close>), a simulator of small drive
  robots that takes wheel commands from outside processes and publishes wheel states and sensor frames.

  \<^bold>\<open>The program.\<close>  A command starts at a driver: a keyboard, a remote control on a serial port, or an
  external program.  \<^verbatim>\<open>serial_rc.py\<close> decodes the remote control and arbitrates between the sources; a
  velocity target goes over a local socket to a command server (\<^verbatim>\<open>v2/runsim_session.py\<close> for the session
  and its authentication, \<^verbatim>\<open>v2/runsim_command_client.py\<close> for the client and the relay process that renews
  the target).  The server's wheel commands come back as protobuf messages (\<^verbatim>\<open>v2/codec.py\<close>,
  \<^verbatim>\<open>v2/models.py\<close>), are received outside the GUI process (\<^verbatim>\<open>v2/runsim_command_receiver.py\<close>), pass the
  command authority (\<^verbatim>\<open>v2/authority.py\<close>) of the session (\<^verbatim>\<open>v2/session.py\<close>) under the protocol controller
  (\<^verbatim>\<open>v2/runtime_protocol.py\<close>), and wait in a mailbox (\<^verbatim>\<open>interfaces/wheel.py\<close>) for the physics thread.  After
  each physics step the simulator runtime (\<^verbatim>\<open>v2/simulation_runtime.py\<close>) asks the clock and its schedulers
  (\<^verbatim>\<open>interfaces/clock.py\<close>) what is due, builds the frames (\<^verbatim>\<open>v2/sensor_frames.py\<close>), publishes them and
  tells the dashboard store (\<^verbatim>\<open>v2/dashboard_snapshot.py\<close>).  Replacing the scene is a transaction over the
  LiDAR worker and the controller (\<^verbatim>\<open>v2/world_runtime.py\<close>).  The world holds the obstacles the operator
  adds, moves, removes, saves and restores; \<^verbatim>\<open>obstacles.py\<close> plans where they fit and creates and removes
  their bodies in slices of a frame, over physics calls that may fail at any point.  A whole scene is a
  document (\<^verbatim>\<open>scene_config.py\<close>) that is saved to and loaded from a YAML file; the coordinator
  (\<^verbatim>\<open>coordinator.py\<close>) takes the operator's structural actions from a queue and changes vehicle, terrain or
  scene by building the world of a document anew, in a transaction with the runtime.  All paths are under \<^verbatim>\<open>src/slope_sim\<close>, \<^verbatim>\<open>v2\<close>
  standing for \<^verbatim>\<open>interfaces/v2\<close>.

  \<^bold>\<open>The theories\<close>, in the order they build on each other:

  \<^item> Prelude: results as sums (\<open>res\<close>), stateful operations that may raise (\<open>op\<close>), their sequencing, the
    insertion-ordered dict as an association list, arguments of a checked class (\<open>inst\<close>), and the
    collections \<open>res_simps\<close> and \<open>inv_intros\<close> the component proofs draw on.
  \<^item> PyFloat, PyValues: Python's doubles as rationals rounded to nearest even, with the infinities and
    NaN (no signed zero); exceptions as values; the arguments a constructor may be handed (\<open>pyval\<close>).
  \<^item> RobotModels (\<^verbatim>\<open>model_registry.py\<close>), InterfaceModels (\<^verbatim>\<open>interfaces/models.py\<close>), ModelsV2
    (\<^verbatim>\<open>v2/models.py\<close>): the messages; every constructor with its checks in the code's order.
  \<^item> Session (with \<^verbatim>\<open>v2/topics.py\<close>, \<^verbatim>\<open>v2/descriptor.py\<close>; C3), Status (\<^verbatim>\<open>interfaces/status.py\<close>; C4), Mailbox
    (C5), Authority (C7, C8), RuntimeProtocol (C11 to C13): the command path.  Methods that hold a
    lock are one operation; where a lock is released in between, as in the mailbox's accept, there are
    two.  The invariants are \<open>session_inv\<close>, \<open>mailbox_inv\<close>, \<open>authority_inv\<close> and \<open>rp_inv\<close>; traces interleave
    the controller's operations in any order.
  \<^item> SimClock (C17, C18): the exact rational clock, the schedulers and the publish cadence.
  \<^item> SbusParser (C19, C20), RcControl (C22, C23), CommandArbiter (C24, C25): the remote control from the
    serial bytes to the target that is sent.
  \<^item> Revocation: the interface \<open>revocable\<close> of anything whose tokens a later revocation makes stale, with
    the lemmas proved once; CommandSession interprets it for its target epochs.
  \<^item> CommandSession (C26, C27, C30), CommandRelay (C32, C33): the local command socket.  Message handling is
    split at the points where the lock is free, so targets and revocations interleave.
  \<^item> CodecV2 (C34, C35): the field mapping of the protobuf codec and its checks; CommandReceiver (C9): the
    shared memory of the receiver, at its C widths.
  \<^item> SensorFrames (C36, C37), DashboardStore (C39), SimulationRuntime (C15, C40): frames, the dashboard's
    store and the step that ties them to the clock and the controller; WorldRuntime (C38), and
    ManualWorld (C16), the adapter that puts a new simulator runtime over the new world after each change.
  \<^item> PhysicsBodies: the physics client as the obstacle manager calls it.  Its state is the set of live bodies
    and the shapes; whether a call fails, and after what effect, is an argument (\<open>physics\<close>), so each
    statement holds for every pattern of failures.
  \<^item> ObstacleModels, ObstaclePlanning (C6, C14): requests, settings, records and snapshots with their checks;
    candidates, the terrain probe, the placement of one obstacle and of a batch, at once or over frames.
  \<^item> ObstacleManager (the operations of \<^verbatim>\<open>ObstacleManager\<close>, handler by handler), ObstacleOwnership (the
    invariant \<open>om_inv\<close> that ties the manager's books to the bodies of the client, and its preservation by the
    phases of an addition), ObstacleLifecycle (C2, C21, C28): deletion, clearing, restoring, motion and the
    fault state, and the step relation of all public operations.
  \<^item> Quaternions (normalising one is idempotent up to the tolerance the code leaves), SceneModels (scene
    documents and their checks, \<open>document_ok\<close>), SceneFiles (the YAML node graph with aliases, its checks, the
    parser and printer of documents) and SceneStorage (C10, C31): the scene file, its round trip, and its
    replacement on a disk whose calls may fail.
  \<^item> WorldBuilding (terrain, vehicle and obstacles of a document, and the clean-up when a later step fails;
    \<open>built_ok\<close> is what holds of every scene that was built), Coordinator (the queue, the frame, and the scene
    transaction over any runtime with the methods of \<open>scene_runtime\<close>), SceneTransactions (C1, C29): the
    interface \<open>rebuild_runtime\<close> states what a runtime must keep when it prepares, aborts, commits or faults a
    rebuild, the lemmas about the transaction are proved once from it, and \<open>manual\<close> interprets it for the
    manual world's runtime (\<open>manual_runtime\<close>).

  \<^bold>\<open>How the parts meet.\<close>  The controller's state contains the authority, which contains the session, and
  the mailbox; the simulator runtime's state contains the controller, the cadence, the frame factory and
  the store.  C11 follows a command from the authority to the physics thread, C12 the callbacks that
  cross a rebuild, C36 and C37 what leaves with which identity, C15 the cadence's deadlines (C17) to the
  published messages, C38 the controller through a change of world, and C16 the same change seen from the
  vehicle: mailbox, authority and cadence start anew with it.  In the obstacle manager C6 and C14 speak of the
  plan, C2 of its way into the records, and C21 of the bodies behind them.  The coordinator stands over
  ManualWorld and the obstacle manager: C1 joins their books after a change of scene, C29 says that the
  transaction C38 speaks of is never left open, whatever fails in between.  \<open>delivered_frame_checks\<close> connects
  the factory (C36) with the dashboard store.

  \<^bold>\<open>Arguments and bounds.\<close>  What the sources only call is an argument: the protobuf library
  (\<open>dumps\<close>, \<open>loads\<close>, parsing and serialisation), \<^verbatim>\<open>sha256\<close>, sockets, sensors, the LiDAR worker, the transport,
  clocks, and what other threads do where the code releases a lock (\<open>others\<close>).  C34 states what it needs of
  the serialiser: parsing a message it wrote gives the message back.  Loops are structural or carry their
  termination proof; the drain before shutdown is a partial function, and C40 shows that it returns once
  the clock passes the deadline.  A planned addition takes at most \<open>count * max_attempts\<close>
  frames of planning (C14).  Where an operation creates bodies, C1, C2, C21, C28 and C29 suppose that a creation which raises after the body
  was registered can be traced, by the identifier it returned or by listing the bodies (\<open>identified\<close>), and C2
  and C21 that the vehicle does not drive into the planned batch while it is being created (\<open>vehicle_clear\<close>): without it bodies are lost, as
  \<open>vehicle_overlap_loses_candidates\<close> shows.  The physics model gives identifiers in order
  and uses none again until the client is reset, as building a terrain does.  C10 supposes that the YAML
  library gives back what it wrote (\<open>yaml_keeps\<close>) and that \<^verbatim>\<open>math.hypot\<close> keeps its documented error of
  under one unit in the last place (\<open>hypot_accurate\<close>).  A node graph is unfolded with fuel; a graph whose unfolding ended is unfolded alike by more
  (\<open>unfolded_stable\<close>).  \<^verbatim>\<open>apply_action\<close>, which may wait for an operation that never ends, is a partial
  function.  Objects the code compares by \<^verbatim>\<open>id()\<close> have addresses the environment chooses, other than that of
  the object still in use.  Python's integers are unbounded here as there; the receiver's counters are
  words, and C9 holds for fewer than \<open>2 ^ 64\<close> stores.

  \<^bold>\<open>What modelling showed\<close>, each a lemma: a closed command session accepts the empty token
  (\<open>closed_session_accepts_empty_token\<close>); an integer too large for a double escapes the velocity check as
  OverflowError (\<open>huge_target_overflows\<close>); after a failed renewal the arbiter's \<^verbatim>\<open>close\<close> sends no final zero
  (\<open>close_after_renewal_failure\<close>); a derived dashboard snapshot takes its rejections after the lock is
  released (\<open>read_mixes_newer_rejections\<close>); a command accepted just before another thread ends the driver's
  command makes the accepting call raise (\<open>accepted_command_race\<close>); a commit that fails because the world
  generations are used up leaves the controller prepared (\<open>exhausted_commit_stays_prepared\<close>); a scene
  update during somebody else's transaction aborts it (\<open>nested_update_aborts_outer\<close>); a scene update that was rolled
  back leaves the runtime with the worker that was closed (\<open>failed_update_keeps_closed_worker\<close>); with developer
  diagnostics a payload that does not decode raises in the frame (\<open>diagnostics_raise_on_bad_payload\<close>); a drain
  that times out ends the shutdown before anything is closed (\<open>close_stops_at_failed_drain\<close>); an addition that
  the vehicle interrupts after some bodies were created forgets those bodies
  (\<open>vehicle_overlap_loses_candidates\<close>); two aliases hide any depth from the depth check of scene files
  (\<open>shared_alias_hides_depth\<close>); and the coordinator's document cache, keyed by \<^verbatim>\<open>id()\<close>, may give the document of
  a world that is gone (\<open>stale_document_cache\<close>).

  \<^bold>\<open>Not modelled.\<close>  The Qt dashboard, the rest of the PyBullet world (the robot and terrain meshes, the
  sensors), the ray casting of the LiDAR worker, the eCAL transports, recording and replay, the earlier v1
  runtime threads, process start-up and the launch record on disk, configuration files and the scripts: they
  are I/O against libraries outside the sources or glue around them.  Of the coordinator, the poses of the
  bodies and the query of the vehicle's box are not modelled.  The dashboard's IPC receiver and the keyboard
  control are not modelled either.
\<close>

end
